(* ===== verification/Prelude.thy ===== *)
theory Prelude imports Main begin

text \<open>
  What every component of the model shares: the exceptions of \<open>errors.py\<close> (and the
  built-in ones the code relies on) as the values of one datatype, the result type of a
  fallible operation, sequencing of results, and execution of a list of operations where a
  failing operation leaves the state as it was, the way \<open>Database.transaction\<close> rolls
  back. Messages are kept as short tags of the source's messages, so that every raise of the
  source is a distinguishable value.
\<close>

section \<open>Errors and results\<close>

datatype err =
    ValidationError string
  | HardGateError string
  | WorkspaceError string
  | RunnerError string
  | DeliveryError string
  | ReceiptError string
  | ConcurrencyError string
  | NotFoundError string
  | AuthRequiredError string
  | AuthenticationError string
  | AuthorizationError string
  | AuthRateLimitError string
  | IntegrityError string
  | ValueError string
  | TypeError string
  | KeyError string
  | AttributeError string
  | OSError string
  | OverflowError string

type_synonym 'a res = "err + 'a"

text \<open>\<open>except DeliveryError\<close> and its kin: the class of an exception value.\<close>

fun is_validation :: "err \<Rightarrow> bool" where
  "is_validation (ValidationError _) = True"
| "is_validation (HardGateError _) = True"
| "is_validation _ = False"

fun is_delivery :: "err \<Rightarrow> bool" where
  "is_delivery (DeliveryError _) = True"
| "is_delivery _ = False"

fun is_concurrency :: "err \<Rightarrow> bool" where
  "is_concurrency (ConcurrencyError _) = True"
| "is_concurrency _ = False"

fun is_integrity :: "err \<Rightarrow> bool" where
  "is_integrity (IntegrityError _) = True"
| "is_integrity _ = False"

definition and_then :: "'a res \<Rightarrow> ('a \<Rightarrow> 'b res) \<Rightarrow> 'b res" where
  "and_then m f = (case m of Inl e \<Rightarrow> Inl e | Inr x \<Rightarrow> f x)"

definition check :: "bool \<Rightarrow> err \<Rightarrow> unit res" where
  "check b e = (if b then Inr () else Inl e)"

named_theorems result_simps "inversion of sequenced results"

lemma and_then_simps [simp]:
  "and_then (Inl e) f = Inl e" "and_then (Inr x) f = f x"
  by (simp_all add: and_then_def)

lemma and_then_Inr [result_simps]: "and_then m f = Inr y \<longleftrightarrow> (\<exists>x. m = Inr x \<and> f x = Inr y)"
  by (cases m) auto

lemma and_then_Inl [result_simps]:
  "and_then m f = Inl e \<longleftrightarrow> m = Inl e \<or> (\<exists>x. m = Inr x \<and> f x = Inl e)"
  by (cases m) auto

lemma check_Inr [result_simps]: "check b e = Inr u \<longleftrightarrow> b"
  by (simp add: check_def)

lemma check_Inl [result_simps]: "check b e = Inl e' \<longleftrightarrow> \<not> b \<and> e' = e"
  by (auto simp: check_def)

lemma check_simps [simp]: "check True e = Inr ()" "check False e = Inl e"
  by (simp_all add: check_def)

lemma if_Inl_eq_Inr [result_simps]:
  "(if b then Inl e else m) = Inr y \<longleftrightarrow> \<not> b \<and> m = Inr y"
  "(if b then m else Inl e) = Inr y \<longleftrightarrow> b \<and> m = Inr y"
  by auto

text \<open>Validation of every element, stopping at the first exception.\<close>

fun each :: "('a \<Rightarrow> unit res) \<Rightarrow> 'a list \<Rightarrow> unit res" where
  "each f [] = Inr ()"
| "each f (x # xs) = and_then (f x) (\<lambda>_. each f xs)"

lemma each_Inr [result_simps]: "each f xs = Inr u \<longleftrightarrow> (\<forall>x \<in> set xs. f x = Inr ())"
  by (induction xs) (auto simp: and_then_Inr)

fun fold_res :: "('a \<Rightarrow> 's \<Rightarrow> 's res) \<Rightarrow> 'a list \<Rightarrow> 's \<Rightarrow> 's res" where
  "fold_res f [] s = Inr s"
| "fold_res f (x # xs) s = and_then (f x s) (fold_res f xs)"

lemma fold_res_invariant:
  assumes "fold_res f xs s = Inr t" "I s"
    and "\<And>x s t. x \<in> set xs \<Longrightarrow> I s \<Longrightarrow> f x s = Inr t \<Longrightarrow> I t"
  shows "I t"
  using assms
proof (induction xs arbitrary: s)
  case Nil
  then show ?case by simp
next
  case (Cons x xs)
  from Cons.prems(1) obtain s' where s': "f x s = Inr s'" "fold_res f xs s' = Inr t"
    by (auto simp: and_then_Inr)
  from Cons.prems(2) Cons.prems(3) [of x s s'] s'(1) have "I s'" by simp
  with s'(2) Cons.prems(3) show ?case by (intro Cons.IH) auto
qed

lemma not_isl: "\<not> isl m \<Longrightarrow> \<exists>y. m = Inr y"
  by (cases m) auto

section \<open>Transactions\<close>

text \<open>
  An operation of a component takes the state and returns an error or a result with the new
  state. \<open>commit\<close> is what a caller that catches the exception sees: the state is the
  new one after a success, the old one after an error.
\<close>

definition commit :: "('s \<Rightarrow> ('r \<times> 's) res) \<Rightarrow> 's \<Rightarrow> 's" where
  "commit f s = (case f s of Inl e \<Rightarrow> s | Inr (r, s') \<Rightarrow> s')"

fun exec :: "('op \<Rightarrow> 's \<Rightarrow> ('r \<times> 's) res) \<Rightarrow> 'op list \<Rightarrow> 's \<Rightarrow> 's" where
  "exec f [] s = s"
| "exec f (x # xs) s = exec f xs (commit (f x) s)"

lemma exec_append: "exec f (xs @ ys) s = exec f ys (exec f xs s)"
  by (induction xs arbitrary: s) auto

text \<open>
  The interface between a component and the arguments about all its histories: the component
  promises that each of its operations keeps an invariant and a relation to the state before
  it; every history of operations then keeps both.
\<close>

locale guarded_ops =
  fixes step :: "'op \<Rightarrow> 's \<Rightarrow> ('r \<times> 's) res"
    and inv :: "'s \<Rightarrow> bool"
  assumes step_inv: "inv s \<Longrightarrow> step x s = Inr (r, s') \<Longrightarrow> inv s'"
begin

lemma commit_inv: "inv s \<Longrightarrow> inv (commit (step x) s)"
  by (auto simp: commit_def split: sum.splits intro: step_inv)

lemma exec_inv: "inv s \<Longrightarrow> inv (exec step xs s)"
  by (induction xs arbitrary: s) (auto intro: commit_inv)

lemma exec_prefix_inv: "inv s \<Longrightarrow> xs = ys @ zs \<Longrightarrow> inv (exec step ys s)"
  by (simp add: exec_inv)

end

locale monotone_ops = guarded_ops step inv
  for step :: "'op \<Rightarrow> 's \<Rightarrow> ('r \<times> 's) res" and inv :: "'s \<Rightarrow> bool" +
  fixes le :: "'s \<Rightarrow> 's \<Rightarrow> bool"
  assumes le_refl: "le s s"
    and le_trans: "le s t \<Longrightarrow> le t u \<Longrightarrow> le s u"
    and step_le: "inv s \<Longrightarrow> step x s = Inr (r, s') \<Longrightarrow> le s s'"
begin

lemma commit_le: "inv s \<Longrightarrow> le s (commit (step x) s)"
  by (auto simp: commit_def split: sum.splits intro: step_le le_refl)

lemma exec_le: "inv s \<Longrightarrow> le s (exec step xs s)"
proof (induction xs arbitrary: s)
  case Nil
  then show ?case by (simp add: le_refl)
next
  case (Cons x xs)
  from Cons.prems have "inv (commit (step x) s)" by (rule commit_inv)
  then have "le (commit (step x) s) (exec step xs (commit (step x) s))" by (rule Cons.IH)
  with commit_le [OF Cons.prems, of x] show ?case by (auto intro: le_trans)
qed

end

section \<open>Lists and options\<close>

definition opt_le :: "'a::linorder option \<Rightarrow> 'a \<Rightarrow> bool" where
  "opt_le m x = (case m of None \<Rightarrow> False | Some y \<Rightarrow> y \<le> x)"

definition default :: "'a \<Rightarrow> 'a option \<Rightarrow> 'a" where
  "default d m = (case m of None \<Rightarrow> d | Some x \<Rightarrow> x)"

lemma default_simps [simp]: "default d None = d" "default d (Some x) = x"
  by (simp_all add: default_def)

lemma distinct_map_same:
  "distinct (map f xs) \<Longrightarrow> x \<in> set xs \<Longrightarrow> y \<in> set xs \<Longrightarrow> f x = f y \<Longrightarrow> x = y"
  by (metis distinct_map inj_onD)

lemma find_mem: "find P xs = Some x \<Longrightarrow> x \<in> set xs \<and> P x"
  by (induction xs) (auto split: if_splits)

lemma find_none: "find P xs = None \<longleftrightarrow> (\<forall>x \<in> set xs. \<not> P x)"
  by (induction xs) auto

lemma insort_key_snoc: "f y \<le> f x \<Longrightarrow> insort_key f y (zs @ [x]) = insort_key f y zs @ [x]"
  by (induction zs) auto

lemma sort_key_snoc: "\<forall>y \<in> set xs. f y \<le> f x \<Longrightarrow> sort_key f (xs @ [x]) = sort_key f xs @ [x]"
  by (induction xs) (auto simp: insort_key_snoc)

text \<open>\<open>text.split(sep)\<close> on one character\<close>

fun split_on :: "char \<Rightarrow> string \<Rightarrow> string list" where
  "split_on c [] = [[]]"
| "split_on c (x # s) = (if x = c then [] # split_on c s
     else (case split_on c s of [] \<Rightarrow> [[x]] | w # ws \<Rightarrow> (x # w) # ws))"

lemma split_on_plain: "c \<notin> set s \<Longrightarrow> split_on c s = [s]"
  by (induction s) auto

lemma split_on_sep: "c \<notin> set s \<Longrightarrow> split_on c (s @ c # t) = s # split_on c t"
  by (induction s) auto

end
