(* ===== verification/Sql_Table.thy ===== *)
theory Sql_Table imports Prelude "HOL-Library.List_Lexorder" "HOL-Library.Char_ord"
  "HOL-Library.Product_Lexorder" begin

text \<open>
  SQLite tables as lists of row records in insertion order, with the statements the
  repositories use: \<open>SELECT ... LIMIT 1\<close>, \<open>SELECT count(*)\<close>, \<open>UPDATE\<close>,
  \<open>DELETE\<close>, \<open>INSERT\<close> under a PRIMARY KEY or UNIQUE constraint, \<open>INSERT OR
  IGNORE\<close> and \<open>ORDER BY ... LIMIT 1\<close>. A violated constraint is the value
  \<open>IntegrityError\<close>.
\<close>

section \<open>Statements\<close>

type_synonym 'r table = "'r list"

definition sel1 :: "('r \<Rightarrow> bool) \<Rightarrow> 'r table \<Rightarrow> 'r option" where
  "sel1 p t = find p t"

definition sel :: "('r \<Rightarrow> bool) \<Rightarrow> 'r table \<Rightarrow> 'r list" where
  "sel p t = filter p t"

definition some_row :: "('r \<Rightarrow> bool) \<Rightarrow> 'r table \<Rightarrow> bool" where
  "some_row p t = list_ex p t"

definition count_rows :: "('r \<Rightarrow> bool) \<Rightarrow> 'r table \<Rightarrow> nat" where
  "count_rows p t = length (filter p t)"

definition upd :: "('r \<Rightarrow> bool) \<Rightarrow> ('r \<Rightarrow> 'r) \<Rightarrow> 'r table \<Rightarrow> 'r table" where
  "upd p f t = map (\<lambda>r. if p r then f r else r) t"

definition del :: "('r \<Rightarrow> bool) \<Rightarrow> 'r table \<Rightarrow> 'r table" where
  "del p t = filter (\<lambda>r. \<not> p r) t"

definition ins :: "string \<Rightarrow> ('r \<Rightarrow> 'k) \<Rightarrow> 'r \<Rightarrow> 'r table \<Rightarrow> 'r table res" where
  "ins name key r t = (if some_row (\<lambda>x. key x = key r) t then Inl (IntegrityError name)
     else Inr (t @ [r]))"

definition ins_ignore :: "('r \<Rightarrow> 'k) \<Rightarrow> 'r \<Rightarrow> 'r table \<Rightarrow> 'r table" where
  "ins_ignore key r t = (if some_row (\<lambda>x. key x = key r) t then t else t @ [r])"

text \<open>\<open>ORDER BY key LIMIT 1\<close>: the first row, in insertion order, with the least key.\<close>

fun least_by :: "('r \<Rightarrow> 'k::linorder) \<Rightarrow> 'r list \<Rightarrow> 'r option" where
  "least_by key [] = None"
| "least_by key (r # rs) = (case least_by key rs of None \<Rightarrow> Some r
     | Some s \<Rightarrow> if key s < key r then Some s else Some r)"

fun greatest_by :: "('r \<Rightarrow> 'k::linorder) \<Rightarrow> 'r list \<Rightarrow> 'r option" where
  "greatest_by key [] = None"
| "greatest_by key (r # rs) = (case greatest_by key rs of None \<Rightarrow> Some r
     | Some s \<Rightarrow> if key r < key s then Some s else Some r)"

section \<open>Laws of the statements\<close>

named_theorems table_simps "membership after a statement"

lemma sel1_Some: "sel1 p t = Some r \<Longrightarrow> r \<in> set t \<and> p r"
  by (auto simp: sel1_def dest: find_mem)

lemma sel1_None: "sel1 p t = None \<longleftrightarrow> (\<forall>r \<in> set t. \<not> p r)"
  by (simp add: sel1_def find_none)

lemma sel1_Nil [simp]: "sel1 p [] = None"
  by (simp add: sel1_def)

lemma sel1_Cons [simp]: "sel1 p (x # xs) = (if p x then Some x else sel1 p xs)"
  by (simp add: sel1_def)

lemma sel1_append_new: "\<forall>x \<in> set xs. \<not> p x \<Longrightarrow> sel1 p (xs @ ys) = sel1 p ys"
  by (induction xs) auto

lemma sel1_append_old: "sel1 p xs = Some x \<Longrightarrow> sel1 p (xs @ ys) = Some x"
  by (induction xs) (auto split: if_splits)

lemma set_sel [simp]: "set (sel p t) = {r \<in> set t. p r}"
  by (simp add: sel_def)

lemma some_row_iff: "some_row p t \<longleftrightarrow> (\<exists>r \<in> set t. p r)"
  by (simp add: some_row_def list_ex_iff)

lemma some_row_simps [simp]:
  "some_row p [] = False" "some_row p (x # xs) = (p x \<or> some_row p xs)"
  "some_row p (xs @ ys) = (some_row p xs \<or> some_row p ys)"
  by (auto simp: some_row_iff)

lemma count_rows_simps [simp]:
  "count_rows p [] = 0" "count_rows p (x # xs) = (if p x then 1 else 0) + count_rows p xs"
  "count_rows p (xs @ ys) = count_rows p xs + count_rows p ys"
  by (simp_all add: count_rows_def)

lemma count_rows_0: "count_rows p t = 0 \<longleftrightarrow> (\<forall>r \<in> set t. \<not> p r)"
  by (simp add: count_rows_def filter_empty_conv)

lemma upd_Nil [simp]: "upd p f [] = []"
  by (simp add: upd_def)

lemma upd_Cons [simp]: "upd p f (x # xs) = (if p x then f x else x) # upd p f xs"
  by (simp add: upd_def)

lemma upd_append [simp]: "upd p f (xs @ ys) = upd p f xs @ upd p f ys"
  by (simp add: upd_def)

lemma set_upd [table_simps]: "set (upd p f t) = {f r |r. r \<in> set t \<and> p r} \<union> {r \<in> set t. \<not> p r}"
  by (auto simp: upd_def)

lemma upd_mem: "r \<in> set (upd p f t) \<Longrightarrow> (\<exists>x \<in> set t. p x \<and> r = f x) \<or> (r \<in> set t \<and> \<not> p r)"
  by (auto simp: upd_def split: if_splits)

lemma upd_map_key: "(\<And>r. key (f r) = key r) \<Longrightarrow> map key (upd p f t) = map key t"
  by (simp add: upd_def)

lemma length_upd [simp]: "length (upd p f t) = length t"
  by (simp add: upd_def)

lemma upd_none: "(\<And>r. r \<in> set t \<Longrightarrow> \<not> p r) \<Longrightarrow> upd p f t = t"
  by (simp add: upd_def map_idI)

lemma sel1_upd_other: "(\<And>r. p r \<Longrightarrow> \<not> q r) \<Longrightarrow> (\<And>r. p r \<Longrightarrow> \<not> q (f r)) \<Longrightarrow> sel1 q (upd p f t) = sel1 q t"
  by (induction t) auto

lemma sel1_upd_same:
  "(\<And>r. q (f r) = q r) \<Longrightarrow> sel1 q (upd p f t) = map_option (\<lambda>r. if p r then f r else r) (sel1 q t)"
  by (induction t) auto

lemma del_Nil [simp]: "del p [] = []"
  by (simp add: del_def)

lemma del_Cons [simp]: "del p (x # xs) = (if p x then del p xs else x # del p xs)"
  by (simp add: del_def)

lemma set_del [simp]: "set (del p t) = {r \<in> set t. \<not> p r}"
  by (auto simp: del_def)

lemma del_map_distinct: "distinct (map key t) \<Longrightarrow> distinct (map key (del p t))"
  by (simp add: del_def distinct_map_filter)

lemma ins_Inr [result_simps]:
  "ins n key r t = Inr t' \<longleftrightarrow> (\<forall>x \<in> set t. key x \<noteq> key r) \<and> t' = t @ [r]"
  by (auto simp: ins_def some_row_iff)

lemma ins_Inl [result_simps]:
  "ins n key r t = Inl e \<longleftrightarrow> (\<exists>x \<in> set t. key x = key r) \<and> e = IntegrityError n"
  by (auto simp: ins_def some_row_iff)

lemma ins_distinct: "ins n key r t = Inr t' \<Longrightarrow> distinct (map key t) \<Longrightarrow> distinct (map key t')"
  by (auto simp: ins_Inr)

lemma ins_ignore_distinct: "distinct (map key t) \<Longrightarrow> distinct (map key (ins_ignore key r t))"
  by (auto simp: ins_ignore_def some_row_iff)

lemma set_ins_ignore: "set (ins_ignore key r t) \<subseteq> insert r (set t)"
  by (auto simp: ins_ignore_def)

lemma ins_ignore_mono: "set t \<subseteq> set (ins_ignore key r t)"
  by (auto simp: ins_ignore_def)

lemma least_by_None: "least_by key rs = None \<longleftrightarrow> rs = []"
  by (cases rs) (auto split: option.splits)

lemma least_by_Some:
  "least_by key rs = Some r \<Longrightarrow> r \<in> set rs \<and> (\<forall>s \<in> set rs. key r \<le> key s)"
proof (induction rs arbitrary: r)
  case (Cons x rs)
  then show ?case
    by (cases "least_by key rs") (fastforce simp: least_by_None split: if_splits)+
qed simp

lemma greatest_by_None: "greatest_by key rs = None \<longleftrightarrow> rs = []"
  by (cases rs) (auto split: option.splits)

lemma greatest_by_Some:
  "greatest_by key rs = Some r \<Longrightarrow> r \<in> set rs \<and> (\<forall>s \<in> set rs. key s \<le> key r)"
proof (induction rs arbitrary: r)
  case (Cons x rs)
  then show ?case
    by (cases "greatest_by key rs") (fastforce simp: greatest_by_None split: if_splits)+
qed simp

lemma sel1_unique:
  assumes "distinct (map key t)" "r \<in> set t"
  shows "sel1 (\<lambda>x. key x = key r) t = Some r"
  using assms by (induction t) (auto simp: image_iff)

section \<open>Tables that only grow\<close>

text \<open>Every row of the old table is still there, in its place, related to its new form; new rows
  come after.\<close>

definition extends :: "('r \<Rightarrow> 'r \<Rightarrow> bool) \<Rightarrow> 'r table \<Rightarrow> 'r table \<Rightarrow> bool" where
  "extends R t u = list_all2 R t (take (length t) u)"

lemma extends_refl: "(\<And>r. R r r) \<Longrightarrow> extends R t t"
  by (simp add: extends_def list_all2_refl)

lemma extends_append: "(\<And>r. R r r) \<Longrightarrow> extends R t (t @ u)"
  by (simp add: extends_def list_all2_refl)

lemma extends_upd: "(\<And>r. R r r) \<Longrightarrow> (\<And>r. p r \<Longrightarrow> R r (f r)) \<Longrightarrow> extends R t (upd p f t)"
  by (simp add: extends_def upd_def list_all2_map2 list_all2_refl)

lemma extends_trans:
  assumes "\<And>x y z. R x y \<Longrightarrow> R y z \<Longrightarrow> R x z" "extends R a b" "extends R b c"
  shows "extends R a c"
proof -
  from list_all2_lengthD [OF assms(2) [unfolded extends_def]] have l: "length a \<le> length b" by auto
  have "list_all2 R (take (length a) b) (take (length a) (take (length b) c))"
    using assms(3) unfolding extends_def by (rule list_all2_takeI)
  then have "list_all2 R (take (length a) b) (take (length a) c)" using l by (simp add: min_def)
  with assms(2) show ?thesis
    unfolding extends_def by - (erule (1) list_all2_trans [rotated], erule (1) assms(1))
qed

lemma extends_eq_trans: "extends (=) a b \<Longrightarrow> extends (=) b c \<Longrightarrow> extends (=) a c"
  by (rule extends_trans) auto

lemma extends_mem:
  assumes "extends R t u" "r \<in> set t"
  shows "\<exists>s \<in> set u. R r s"
proof -
  have "list_all2 R xs ys \<Longrightarrow> x \<in> set xs \<Longrightarrow> \<exists>y \<in> set ys. R x y" for x xs ys
    by (induction rule: list_all2_induct) auto
  from this [OF assms [unfolded extends_def]] show ?thesis by (meson in_set_takeD)
qed

lemma extends_eq: "extends (=) t u \<longleftrightarrow> (\<exists>v. u = t @ v)"
proof
  assume "extends (=) t u"
  then have "t = take (length t) u" by (simp add: extends_def list.rel_eq)
  then have "u = t @ drop (length t) u" by (metis append_take_drop_id)
  then show "\<exists>v. u = t @ v" by blast
next
  assume "\<exists>v. u = t @ v"
  then show "extends (=) t u" by (auto simp: extends_def list.rel_eq)
qed

end
