(* ===== verification/Json_Value.thy ===== *)
theory Json_Value imports Prelude "HOL-Library.List_Lexorder" "HOL-Library.Char_ord" begin

text \<open>
  The values the program reads and writes as JSON: \<open>Dict[str, Any]\<close> arguments, YAML task
  definitions and the \<open>*_json\<close> columns. A Python \<open>dict\<close> is an association list whose
  keys are read with \<open>map_of\<close>; a \<open>str\<close> is a HOL string (code points 0 to 255); a
  \<open>float\<close> is kept as the text \<open>json\<close> prints for it, because the program only stores,
  prints and type-checks floats. A JSON column holds the value that \<open>json.loads\<close> of its
  text gives; two \<open>json.dumps(..., sort_keys=True)\<close> texts are equal exactly when the
  canonical values are.
\<close>

section \<open>Values\<close>

datatype json =
    JNull
  | JBool bool
  | JInt int
  | JFloat string
  | JStr string
  | JList "json list"
  | JDict "(string \<times> json) list"

type_synonym dict = "(string \<times> json) list"

text \<open>\<open>d.get(k)\<close>, \<open>d[k]\<close> and \<open>d[k] = v\<close>.\<close>

definition dget :: "dict \<Rightarrow> string \<Rightarrow> json" where
  "dget d k = default JNull (map_of d k)"

definition dsub :: "dict \<Rightarrow> string \<Rightarrow> json res" where
  "dsub d k = (case map_of d k of None \<Rightarrow> Inl (KeyError k) | Some v \<Rightarrow> Inr v)"

fun dput :: "string \<Rightarrow> json \<Rightarrow> dict \<Rightarrow> dict" where
  "dput k v [] = [(k, v)]"
| "dput k v ((a, b) # d) = (if a = k then (k, v) # d else (a, b) # dput k v d)"

definition ddel :: "string \<Rightarrow> dict \<Rightarrow> dict" where
  "ddel k d = filter (\<lambda>(a, b). a \<noteq> k) d"

text \<open>\<open>\{**a, **b\}\<close>\<close>

definition dmerge :: "dict \<Rightarrow> dict \<Rightarrow> dict" where
  "dmerge a b = fold (\<lambda>(k, v). dput k v) b a"

definition same_keys :: "dict \<Rightarrow> string list \<Rightarrow> bool" where
  "same_keys d ks = (list_all (\<lambda>(k, v). k \<in> set ks) d \<and> list_all (\<lambda>k. k \<in> fst ` set d) ks)"

definition keys_within :: "dict \<Rightarrow> string list \<Rightarrow> bool" where
  "keys_within d ks = list_all (\<lambda>(k, v). k \<in> set ks) d"

fun truthy :: "json \<Rightarrow> bool" where
  "truthy JNull = False"
| "truthy (JBool b) = b"
| "truthy (JInt i) = (i \<noteq> 0)"
| "truthy (JFloat t) = (t \<noteq> ''0.0'' \<and> t \<noteq> ''-0.0'')"
| "truthy (JStr s) = (s \<noteq> [])"
| "truthy (JList xs) = (xs \<noteq> [])"
| "truthy (JDict d) = (d \<noteq> [])"

fun as_str :: "json \<Rightarrow> string option" where
  "as_str (JStr s) = Some s" | "as_str _ = None"

fun as_dict :: "json \<Rightarrow> dict option" where
  "as_dict (JDict d) = Some d" | "as_dict _ = None"

fun as_list :: "json \<Rightarrow> json list option" where
  "as_list (JList xs) = Some xs" | "as_list _ = None"

text \<open>\<open>type(v) is int\<close>: a \<open>bool\<close> is not one.\<close>

fun as_int :: "json \<Rightarrow> int option" where
  "as_int (JInt i) = Some i" | "as_int _ = None"

definition is_str :: "json \<Rightarrow> bool" where "is_str v = (as_str v \<noteq> None)"
definition is_int :: "json \<Rightarrow> bool" where "is_int v = (as_int v \<noteq> None)"
definition is_dict :: "json \<Rightarrow> bool" where "is_dict v = (as_dict v \<noteq> None)"
definition is_list :: "json \<Rightarrow> bool" where "is_list v = (as_list v \<noteq> None)"

text \<open>\<open>isinstance(v, str) and v in names\<close>\<close>

definition str_in :: "json \<Rightarrow> string list \<Rightarrow> bool" where
  "str_in v names = (case v of JStr s \<Rightarrow> s \<in> set names | _ \<Rightarrow> False)"

definition int_between :: "json \<Rightarrow> int \<Rightarrow> int \<Rightarrow> bool" where
  "int_between v lo hi = (case v of JInt i \<Rightarrow> lo \<le> i \<and> i \<le> hi | _ \<Rightarrow> False)"

text \<open>
  Python's \<open>==\<close>: a \<open>bool\<close> equals the integer it is, dictionaries are compared without
  their order.
\<close>

function (sequential) pyeq :: "json \<Rightarrow> json \<Rightarrow> bool" where
  "pyeq JNull JNull = True"
| "pyeq (JBool a) (JBool b) = (a = b)"
| "pyeq (JBool a) (JInt i) = (i = (if a then 1 else 0))"
| "pyeq (JInt i) (JBool a) = (i = (if a then 1 else 0))"
| "pyeq (JInt i) (JInt j) = (i = j)"
| "pyeq (JFloat s) (JFloat t) = (s = t)"
| "pyeq (JStr s) (JStr t) = (s = t)"
| "pyeq (JList []) (JList []) = True"
| "pyeq (JList (x # xs)) (JList (y # ys)) = (pyeq x y \<and> pyeq (JList xs) (JList ys))"
| "pyeq (JDict []) (JDict d) = (d = [])"
| "pyeq (JDict ((k, v) # c)) (JDict d) =
     (case map_of d k of None \<Rightarrow> False | Some w \<Rightarrow> pyeq v w \<and> pyeq (JDict c) (JDict (ddel k d)))"
| "pyeq _ _ = False"
  by pat_completeness auto

termination by (relation "measure (\<lambda>(a, b). size a)") auto

text \<open>What \<open>json.dumps(v, sort_keys=True)\<close> fixes of a value: keys sorted at every level.\<close>

function (sequential) canon :: "json \<Rightarrow> json" where
  "canon (JList xs) = JList (map canon xs)"
| "canon (JDict d) = JDict (sort_key fst (map (\<lambda>(k, v). (k, canon v)) d))"
| "canon v = v"
  by pat_completeness auto

termination
proof (relation "measure size")
  fix xs :: "json list" and x
  assume "x \<in> set xs"
  then show "(x, JList xs) \<in> measure size" by (induction xs) auto
next
  fix d :: dict and p k v
  assume "p \<in> set d" "(k, v) = p"
  then show "(v, JDict d) \<in> measure size" by (induction d) auto
qed simp

section \<open>Laws\<close>

lemma map_of_dput [simp]: "map_of (dput k v d) = (map_of d)(k \<mapsto> v)"
  by (induction k v d rule: dput.induct) (auto simp: fun_eq_iff)

lemma map_of_ddel [simp]: "map_of (ddel k d) a = (if a = k then None else map_of d a)"
  by (induction d) (auto simp: ddel_def)

lemma dget_dput [simp]: "dget (dput k v d) a = (if a = k then v else dget d a)"
  by (simp add: dget_def)

lemma pyeq_refl_str [simp]: "pyeq (JStr s) v \<longleftrightarrow> v = JStr s"
  by (cases v) auto

lemma pyeq_str_right [simp]: "pyeq v (JStr s) \<longleftrightarrow> v = JStr s"
  by (cases v) auto

lemma as_str_Some [simp]: "as_str v = Some s \<longleftrightarrow> v = JStr s"
  by (cases v) auto

lemma as_int_Some [simp]: "as_int v = Some i \<longleftrightarrow> v = JInt i"
  by (cases v) auto

lemma as_dict_Some [simp]: "as_dict v = Some d \<longleftrightarrow> v = JDict d"
  by (cases v) auto

lemma as_list_Some [simp]: "as_list v = Some xs \<longleftrightarrow> v = JList xs"
  by (cases v) auto

lemma str_in_iff: "str_in v names \<longleftrightarrow> (\<exists>s \<in> set names. v = JStr s)"
  by (cases v) (auto simp: str_in_def)

lemma int_between_iff: "int_between v lo hi \<longleftrightarrow> (\<exists>i. v = JInt i \<and> lo \<le> i \<and> i \<le> hi)"
  by (cases v) (auto simp: int_between_def)

lemma same_keys_iff: "same_keys d ks \<longleftrightarrow> fst ` set d = set ks"
  by (fastforce simp: same_keys_def list_all_iff image_iff)

end
