(* ===== verification/Py_Datetime.thy ===== *)
theory Py_Datetime imports Prelude begin

text \<open>
  Instants and their ISO 8601 text. A UTC \<open>datetime\<close> is an \<open>int\<close>, the microseconds
  since 1970-01-01; a parsed \<open>datetime\<close> is naive or carries its UTC offset. \<open>fromiso\<close>
  is \<open>datetime.fromisoformat\<close> on the extended format (date, any separator, time with an
  optional fraction and offset), which is the only one the program prints; the basic and week
  formats are answered with \<open>ValueError\<close>. \<open>isoformat\<close> prints an instant in UTC.
\<close>

section \<open>Calendar\<close>

definition leap :: "int \<Rightarrow> bool" where
  "leap y = (y mod 4 = 0 \<and> (y mod 100 \<noteq> 0 \<or> y mod 400 = 0))"

definition days_in_month :: "int \<Rightarrow> int \<Rightarrow> int" where
  "days_in_month y m = (if m = 2 then (if leap y then 29 else 28)
     else if m \<in> {4, 6, 9, 11} then 30 else 31)"

text \<open>Days from 1970-01-01 to a civil date and back, in the proleptic Gregorian calendar.\<close>

definition days_of_civil :: "int \<Rightarrow> int \<Rightarrow> int \<Rightarrow> int" where
  "days_of_civil y m d =
    (let y' = (if m \<le> 2 then y - 1 else y); era = y' div 400; yoe = y' mod 400;
         doy = (153 * ((m + 9) mod 12) + 2) div 5 + d - 1
     in era * 146097 + yoe * 365 + yoe div 4 - yoe div 100 + doy - 719468)"

definition civil_of_days :: "int \<Rightarrow> int \<times> int \<times> int" where
  "civil_of_days n =
    (let z = n + 719468; era = z div 146097; doe = z mod 146097;
         yoe = (doe - doe div 1460 + doe div 36524 - doe div 146096) div 365;
         doy = doe - (365 * yoe + yoe div 4 - yoe div 100);
         mp = (5 * doy + 2) div 153; d = doy - (153 * mp + 2) div 5 + 1;
         m = (if mp < 10 then mp + 3 else mp - 9)
     in ((if m \<le> 2 then yoe + era * 400 + 1 else yoe + era * 400), m, d))"

text \<open>\<open>datetime.weekday()\<close>: Monday is 0. 1970-01-01 was a Thursday.\<close>

definition weekday_of_days :: "int \<Rightarrow> int" where
  "weekday_of_days n = (n + 3) mod 7"

section \<open>Text\<close>

definition digit_of :: "char \<Rightarrow> int option" where
  "digit_of c = (let n = int (of_char c) in if 48 \<le> n \<and> n \<le> 57 then Some (n - 48) else None)"

fun digits_val :: "int \<Rightarrow> string \<Rightarrow> int option" where
  "digits_val acc [] = Some acc"
| "digits_val acc (c # s) = (case digit_of c of None \<Rightarrow> None | Some v \<Rightarrow> digits_val (10 * acc + v) s)"

definition fixed_num :: "nat \<Rightarrow> string \<Rightarrow> (int \<times> string) option" where
  "fixed_num n s = (if length s < n then None
     else map_option (\<lambda>v. (v, drop n s)) (digits_val 0 (take n s)))"

definition digit_char :: "int \<Rightarrow> char" where
  "digit_char v = char_of (nat (48 + v mod 10))"

fun pad_num :: "nat \<Rightarrow> int \<Rightarrow> string" where
  "pad_num 0 v = []"
| "pad_num (Suc n) v = pad_num n (v div 10) @ [digit_char v]"

text \<open>\<open>str(i)\<close>\<close>

fun nat_text :: "nat \<Rightarrow> string" where
  "nat_text n = (if n < 10 then [digit_char (int n)] else nat_text (n div 10) @ [digit_char (int n)])"

declare nat_text.simps [simp del]

definition int_text :: "int \<Rightarrow> string" where
  "int_text i = (if i < 0 then CHR ''-'' # nat_text (nat (- i)) else nat_text (nat i))"

text \<open>The same digits over \<open>int\<close>, for evaluation.\<close>

function pos_text :: "int \<Rightarrow> string" where
  "pos_text i = (if i < 10 then [digit_char i] else pos_text (i div 10) @ [digit_char i])"
  by pat_completeness auto
termination by (relation "measure nat") (auto simp: nat_mono_iff)

declare pos_text.simps [simp del]

lemma pos_text_nat: "pos_text (int n) = nat_text n"
proof (induction n rule: nat_text.induct)
  case (1 n)
  then show ?case by (subst pos_text.simps, subst nat_text.simps) (auto simp: zdiv_int)
qed

lemma int_text_code [code]: "int_text i = (if i < 0 then CHR ''-'' # pos_text (- i) else pos_text i)"
  by (simp add: int_text_def flip: pos_text_nat)

text \<open>\<open>HH[:MM[:SS[.ffffff]]]\<close>, in microseconds since midnight, with its fields in range.\<close>

definition frac_val :: "string \<Rightarrow> int option" where
  "frac_val s = (if s = [] then None else if \<not> list_all (\<lambda>c. digit_of c \<noteq> None) s then None
     else digits_val 0 (take 6 (s @ ''000000'')))"

fun clock :: "string \<Rightarrow> (int \<times> int \<times> int \<times> int) option" where
  "clock s = (case fixed_num 2 s of None \<Rightarrow> None | Some (h, r1) \<Rightarrow>
     if r1 = [] then Some (h, 0, 0, 0) else if hd r1 \<noteq> CHR '':'' then None
     else (case fixed_num 2 (tl r1) of None \<Rightarrow> None | Some (mi, r2) \<Rightarrow>
       if r2 = [] then Some (h, mi, 0, 0) else if hd r2 \<noteq> CHR '':'' then None
       else (case fixed_num 2 (tl r2) of None \<Rightarrow> None | Some (sec, r3) \<Rightarrow>
         if r3 = [] then Some (h, mi, sec, 0)
         else if hd r3 \<noteq> CHR ''.'' \<and> hd r3 \<noteq> CHR '','' then None
         else map_option (\<lambda>f. (h, mi, sec, f)) (frac_val (tl r3)))))"

datatype pydatetime = Naive int | Aware int int

text \<open>
  \<open>Naive t\<close> holds local microseconds; \<open>Aware t off\<close> the instant in UTC and the offset
  in microseconds.
\<close>

definition usec_of_clock :: "int \<times> int \<times> int \<times> int \<Rightarrow> int" where
  "usec_of_clock c = (case c of (h, mi, sec, f) \<Rightarrow> ((h * 60 + mi) * 60 + sec) * 1000000 + f)"

definition is_offset_char :: "char \<Rightarrow> bool" where
  "is_offset_char c = (c = CHR ''+'' \<or> c = CHR ''-'' \<or> c = CHR ''Z'')"

definition day_usec :: int where "day_usec = 86400000000"

definition fromiso :: "string \<Rightarrow> pydatetime option" where
  "fromiso s = (case fixed_num 4 s of None \<Rightarrow> None | Some (y, r1) \<Rightarrow>
     if r1 = [] \<or> hd r1 \<noteq> CHR ''-'' then None
     else (case fixed_num 2 (tl r1) of None \<Rightarrow> None | Some (m, r2) \<Rightarrow>
       if r2 = [] \<or> hd r2 \<noteq> CHR ''-'' then None
       else (case fixed_num 2 (tl r2) of None \<Rightarrow> None | Some (d, r3) \<Rightarrow>
         if y < 1 \<or> m < 1 \<or> 12 < m \<or> d < 1 \<or> days_in_month y m < d then None
         else let day = days_of_civil y m d * day_usec in
           if r3 = [] then Some (Naive day)
           else let t = takeWhile (\<lambda>c. \<not> is_offset_char c) (tl r3);
                    z = dropWhile (\<lambda>c. \<not> is_offset_char c) (tl r3)
                in (case clock t of None \<Rightarrow> None | Some (h, mi, sec, f) \<Rightarrow>
                  if 23 < h \<or> 59 < mi \<or> 59 < sec then None
                  else let local = day + usec_of_clock (h, mi, sec, f) in
                    if z = [] then Some (Naive local)
                    else if z = ''Z'' then Some (Aware local 0)
                    else if hd z = CHR ''Z'' then None
                    else (case clock (tl z) of None \<Rightarrow> None | Some c \<Rightarrow>
                      let off = (if hd z = CHR ''-'' then - usec_of_clock c else usec_of_clock c)
                      in if day_usec \<le> \<bar>off\<bar> then None else Some (Aware (local - off) off))))))"

definition isoformat :: "int \<Rightarrow> string" where
  "isoformat t =
    (let (y, m, d) = civil_of_days (t div day_usec); us = t mod day_usec; f = us mod 1000000;
         sec = us div 1000000
     in pad_num 4 y @ ''-'' @ pad_num 2 m @ ''-'' @ pad_num 2 d @ ''T'' @
        pad_num 2 (sec div 3600) @ '':'' @ pad_num 2 (sec div 60 mod 60) @ '':'' @ pad_num 2 (sec mod 60) @
        (if f = 0 then [] else CHR ''.'' # pad_num 6 f) @ ''+00:00'')"

text \<open>\<open>value.replace("Z", "+00:00")\<close>\<close>

definition replace_z :: "string \<Rightarrow> string" where
  "replace_z s = concat (map (\<lambda>c. if c = CHR ''Z'' then ''+00:00'' else [c]) s)"

text \<open>
  The instants a \<open>datetime\<close> can hold, years 1 to 9999; \<open>astimezone\<close> raises
  \<open>OverflowError\<close> outside them.
\<close>

definition min_instant :: int where "min_instant = days_of_civil 1 1 1 * day_usec"
definition max_instant :: int where "max_instant = days_of_civil 9999 12 31 * day_usec + day_usec - 1"

definition representable :: "int \<Rightarrow> bool" where
  "representable t = (min_instant \<le> t \<and> t \<le> max_instant)"

section \<open>Laws\<close>

lemma digit_char_val [simp]: "digit_of (digit_char v) = Some (v mod 10)"
proof -
  have b: "0 \<le> v mod 10" "v mod 10 < 10" by simp_all
  then have "nat (48 + v mod 10) < 256" by linarith
  then have "of_char (digit_char v) = nat (48 + v mod 10)"
    by (simp add: digit_char_def of_char_of)
  with b show ?thesis by (simp add: digit_of_def Let_def)
qed

lemma digits_val_append:
  "digits_val acc (s @ t) = (case digits_val acc s of None \<Rightarrow> None | Some v \<Rightarrow> digits_val v t)"
  by (induction acc s rule: digits_val.induct) (auto split: option.splits)

lemma length_pad_num [simp]: "length (pad_num n v) = n"
  by (induction n v rule: pad_num.induct) auto

lemma pad_num_val: "0 \<le> v \<Longrightarrow> v < 10 ^ n \<Longrightarrow> digits_val 0 (pad_num n v) = Some v"
proof (induction n v rule: pad_num.induct)
  case (2 n v)
  have "v < 10 * k \<Longrightarrow> v div 10 < k" for k by linarith
  with 2 have "v div 10 < 10 ^ n" by simp
  with 2 show ?case by (simp add: digits_val_append)
qed simp

lemma fixed_num_pad: "0 \<le> v \<Longrightarrow> v < 10 ^ n \<Longrightarrow> fixed_num n (pad_num n v @ s) = Some (v, s)"
  by (simp add: fixed_num_def pad_num_val)

lemma pad_num_digits: "c \<in> set (pad_num n v) \<Longrightarrow> \<exists>w. c = digit_char w"
  by (induction n v rule: pad_num.induct) auto

end
