(* ===== verification/Json_Text.thy ===== *)
theory Json_Text imports Json_Value Py_Datetime begin

text \<open>
  JSON text: \<open>json.dumps\<close> as the program calls it (separators, \<open>ensure_ascii\<close>, sorted keys)
  and \<open>strict_json.py\<close>, the bounded decoder for model output and stored plans. The decoder
  takes fuel one more than the length of its input, and every recursive call consumes at least
  one character. A float keeps its literal; an escape above \<open>U+00FF\<close> has no value in a HOL
  string and is answered with the decoding error.
\<close>

section \<open>Characters by their bits, for evaluation\<close>

lemma of_char_bits: "(of_char c :: nat) = of_bool (digit0 c) + 2 * (of_bool (digit1 c) + 2 * (of_bool (digit2 c) + 2 * (of_bool (digit3 c)
    + 2 * (of_bool (digit4 c) + 2 * (of_bool (digit5 c) + 2 * (of_bool (digit6 c) + 2 * of_bool (digit7 c)))))))"
  by (cases c) simp

lemma of_bool_le: "(of_bool b :: nat) \<le> 1" by simp

lemma char_below_128 [code_unfold]: "((of_char c :: nat) < 128) = (\<not> digit7 c)"
proof (cases "digit7 c")
  case True
  then have "128 \<le> (of_char c :: nat)" unfolding of_char_bits by simp
  with True show ?thesis by linarith
next
  case False
  then have "(of_char c :: nat) < 128" unfolding of_char_bits using of_bool_le [of "digit0 c"] of_bool_le [of "digit1 c"] of_bool_le [of "digit2 c"]
      of_bool_le [of "digit3 c"] of_bool_le [of "digit4 c"] of_bool_le [of "digit5 c"] of_bool_le [of "digit6 c"] by simp
  with False show ?thesis by linarith
qed

lemma char_below_32 [code_unfold]: "((of_char c :: nat) < 32) = (\<not> digit5 c \<and> \<not> digit6 c \<and> \<not> digit7 c)"
proof (cases "digit5 c \<or> digit6 c \<or> digit7 c")
  case True
  then have "32 \<le> (of_char c :: nat)" unfolding of_char_bits by auto
  with True show ?thesis by linarith
next
  case False
  then have "(of_char c :: nat) < 32" unfolding of_char_bits using of_bool_le [of "digit0 c"] of_bool_le [of "digit1 c"] of_bool_le [of "digit2 c"]
      of_bool_le [of "digit3 c"] of_bool_le [of "digit4 c"] by simp
  with False show ?thesis by linarith
qed

lemma char_code: "((of_char c :: nat) = of_char d) = (c = d)" by simp

section \<open>json.dumps\<close>

definition hex_digit :: "nat \<Rightarrow> char" where
  "hex_digit n = ''0123456789abcdef'' ! n"

definition esc_char :: "bool \<Rightarrow> char \<Rightarrow> string" where
  "esc_char ascii c = (let n = of_char c :: nat in
     if c = CHR 0x22 then [CHR 0x5C, CHR 0x22]
     else if c = CHR 0x5C then [CHR 0x5C, CHR 0x5C]
     else if n = 10 then [CHR 0x5C, CHR ''n''] else if n = 13 then [CHR 0x5C, CHR ''r'']
     else if n = 9 then [CHR 0x5C, CHR ''t''] else if n = 12 then [CHR 0x5C, CHR ''f'']
     else if n = 8 then [CHR 0x5C, CHR ''b'']
     else if n < 32 \<or> (ascii \<and> 127 \<le> n)
       then [CHR 0x5C, CHR ''u'', CHR ''0'', CHR ''0'', hex_digit (n div 16), hex_digit (n mod 16)]
     else [c])"

lemma esc_char_code [code]: "esc_char ascii c =
    (if c = CHR 0x22 then [CHR 0x5C, CHR 0x22] else if c = CHR 0x5C then [CHR 0x5C, CHR 0x5C]
     else if c = CHR 0x0A then [CHR 0x5C, CHR ''n''] else if c = CHR 0x0D then [CHR 0x5C, CHR ''r'']
     else if c = CHR 0x09 then [CHR 0x5C, CHR ''t''] else if c = CHR 0x0C then [CHR 0x5C, CHR ''f'']
     else if c = CHR 0x08 then [CHR 0x5C, CHR ''b'']
     else if (\<not> digit5 c \<and> \<not> digit6 c \<and> \<not> digit7 c) \<or> ascii \<and> (c = CHR 0x7F \<or> digit7 c)
       then (let n = of_char c in [CHR 0x5C, CHR ''u'', CHR ''0'', CHR ''0'', hex_digit (n div 16), hex_digit (n mod 16)])
     else [c])"
proof -
  have e: "(of_char c = (10::nat)) = (c = CHR 0x0A)" "(of_char c = (13::nat)) = (c = CHR 0x0D)" "(of_char c = (9::nat)) = (c = CHR 0x09)"
    "(of_char c = (12::nat)) = (c = CHR 0x0C)" "(of_char c = (8::nat)) = (c = CHR 0x08)" "(of_char c = (127::nat)) = (c = CHR 0x7F)"
    using char_code [of c "CHR 0x0A"] char_code [of c "CHR 0x0D"] char_code [of c "CHR 0x09"] char_code [of c "CHR 0x0C"] char_code [of c "CHR 0x08"]
      char_code [of c "CHR 0x7F"] by simp_all
  have "(127 \<le> (of_char c :: nat)) = (of_char c = (127::nat) \<or> \<not> (of_char c :: nat) < 128)" by linarith
  then have "(127 \<le> (of_char c :: nat)) = (c = CHR 0x7F \<or> digit7 c)" unfolding e char_below_128 by simp
  then show ?thesis unfolding esc_char_def Let_def e char_below_32 by (simp only:)
qed

definition quote :: "bool \<Rightarrow> string \<Rightarrow> string" where
  "quote ascii s = CHR 0x22 # concat (map (esc_char ascii) s) @ [CHR 0x22]"

fun join :: "string \<Rightarrow> string list \<Rightarrow> string" where
  "join sep [] = []"
| "join sep [x] = x"
| "join sep (x # y # ys) = x @ sep @ join sep (y # ys)"

function (sequential) jtext :: "bool \<Rightarrow> string \<Rightarrow> string \<Rightarrow> json \<Rightarrow> string" where
  "jtext a isep ksep JNull = ''null''"
| "jtext a isep ksep (JBool b) = (if b then ''true'' else ''false'')"
| "jtext a isep ksep (JInt i) = int_text i"
| "jtext a isep ksep (JFloat t) = t"
| "jtext a isep ksep (JStr s) = quote a s"
| "jtext a isep ksep (JList xs) = ''['' @ join isep (map (jtext a isep ksep) xs) @ '']''"
| "jtext a isep ksep (JDict d) =
     ''{'' @ join isep (map (\<lambda>(k, v). quote a k @ ksep @ jtext a isep ksep v) d) @ ''}''"
  by pat_completeness auto

termination
proof (relation "measure (\<lambda>(a, i, k, v). size v)")
  fix a i k and xs :: "json list" and x
  assume "x \<in> set xs"
  then show "((a, i, k, x), a, i, k, JList xs) \<in> measure (\<lambda>(a, i, k, v). size v)" by (induction xs) auto
next
  fix a i k and d :: dict and p q v
  assume "p \<in> set d" "(q, v) = p"
  then show "((a, i, k, v), a, i, k, JDict d) \<in> measure (\<lambda>(a, i, k, v). size v)" by (induction d) auto
qed simp

text \<open>\<open>json.dumps(v)\<close>, \<open>json.dumps(v, sort_keys=True)\<close>, and the compact canonical form
  \<open>sort_keys=True, separators=(",", ":")\<close> with and without \<open>ensure_ascii\<close>.\<close>

definition dumps :: "json \<Rightarrow> string" where "dumps v = jtext True '', '' '': '' v"
definition dumps_sorted :: "json \<Rightarrow> string" where "dumps_sorted v = jtext True '', '' '': '' (canon v)"
definition dumps_compact :: "json \<Rightarrow> string" where "dumps_compact v = jtext True '','' '':'' (canon v)"
definition canonical :: "json \<Rightarrow> string" where "canonical v = jtext False '','' '':'' (canon v)"

text \<open>The indented form, \<open>indent=2\<close>: a line per element, nothing for an empty container.\<close>

definition new_line :: "nat \<Rightarrow> string" where
  "new_line n = CHR 0x0A # replicate (2 * n) (CHR '' '')"

definition block :: "char \<Rightarrow> char \<Rightarrow> nat \<Rightarrow> string list \<Rightarrow> string" where
  "block opening closing n items = (if items = [] then [opening, closing]
     else opening # new_line (n + 1) @ join (CHR '','' # new_line (n + 1)) items @ new_line n @ [closing])"

function (sequential) pretty :: "bool \<Rightarrow> nat \<Rightarrow> json \<Rightarrow> string" where
  "pretty a n (JList xs) = block (CHR ''['') (CHR '']'') n (map (pretty a (n + 1)) xs)"
| "pretty a n (JDict d) = block (CHR ''{'') (CHR ''}'') n (map (\<lambda>(k, v). quote a k @ '': '' @ pretty a (n + 1) v) d)"
| "pretty a n v = jtext a [] [] v"
  by pat_completeness auto

termination
proof (relation "measure (\<lambda>(a, n, v). size v)")
  fix a n and xs :: "json list" and x
  assume "x \<in> set xs"
  then show "((a, n + 1, x), a, n, JList xs) \<in> measure (\<lambda>(a, n, v). size v)" by (induction xs) auto
next
  fix a n and d :: dict and p q v
  assume "p \<in> set d" "(q, v) = p"
  then show "((a, n + 1, v), a, n, JDict d) \<in> measure (\<lambda>(a, n, v). size v)" by (induction d) auto
qed simp

definition canonical_json :: "json \<Rightarrow> string" where "canonical_json v = pretty False 0 (canon v)"
definition dumps_indented :: "json \<Rightarrow> string" where "dumps_indented v = pretty True 0 (canon v)"

section \<open>The strict decoder\<close>

definition is_ws :: "char \<Rightarrow> bool" where
  "is_ws c = (c = CHR '' '' \<or> c = CHR 0x09 \<or> c = CHR 0x0A \<or> c = CHR 0x0D)"

definition skip_ws :: "string \<Rightarrow> string" where "skip_ws s = dropWhile is_ws s"

definition is_digit :: "char \<Rightarrow> bool" where "is_digit c = (digit_of c \<noteq> None)"

definition hex_val :: "char \<Rightarrow> nat option" where
  "hex_val c = (let n = of_char c :: nat in
     if 48 \<le> n \<and> n \<le> 57 then Some (n - 48) else if 97 \<le> n \<and> n \<le> 102 then Some (n - 87)
     else if 65 \<le> n \<and> n \<le> 70 then Some (n - 55) else None)"

text \<open>The characters after an opening quote, up to the closing one.\<close>

fun scan_string :: "string \<Rightarrow> (string \<times> string) option" where
  "scan_string [] = None"
| "scan_string (c # s) =
    (if c = CHR 0x22 then Some ([], s)
     else if (of_char c :: nat) < 32 then None
     else if c \<noteq> CHR 0x5C then map_option (\<lambda>(t, r). (c # t, r)) (scan_string s)
     else (case s of [] \<Rightarrow> None | e # r \<Rightarrow>
       if e = CHR ''u'' then
         (case r of h1 # h2 # h3 # h4 # r' \<Rightarrow>
            (case (hex_val h1, hex_val h2, hex_val h3, hex_val h4) of
               (Some a, Some b, Some x, Some y) \<Rightarrow>
                 if a = 0 \<and> b = 0 then map_option (\<lambda>(t, q). (char_of (16 * x + y) # t, q)) (scan_string r')
                 else None
             | _ \<Rightarrow> None)
          | _ \<Rightarrow> None)
       else (case map_of [(CHR 0x22, CHR 0x22), (CHR 0x5C, CHR 0x5C), (CHR ''/'', CHR ''/''),
                (CHR ''b'', CHR 0x08), (CHR ''f'', CHR 0x0C), (CHR ''n'', CHR 0x0A), (CHR ''r'', CHR 0x0D),
                (CHR ''t'', CHR 0x09)] e of
           None \<Rightarrow> None | Some x \<Rightarrow> map_option (\<lambda>(t, q). (x # t, q)) (scan_string r))))"

text \<open>\<open>(-?(?:0|[1-9]\d*))(\.\d+)?([eE][-+]?\d+)?\<close>: integer part, fraction, exponent, rest.\<close>

definition scan_int :: "string \<Rightarrow> (string \<times> string) option" where
  "scan_int s = (let neg = (s \<noteq> [] \<and> hd s = CHR ''-''); r = (if neg then List.tl s else s);
       sign = (if neg then ''-'' else [])
     in if r = [] \<or> \<not> is_digit (hd r) then None
        else if hd r = CHR ''0'' then Some (sign @ ''0'', List.tl r)
        else Some (sign @ takeWhile is_digit r, dropWhile is_digit r))"

definition scan_frac :: "string \<Rightarrow> string \<times> string" where
  "scan_frac s = (case s of c # d # r \<Rightarrow> if c = CHR ''.'' \<and> is_digit d
       then (c # takeWhile is_digit (d # r), dropWhile is_digit (d # r)) else ([], s)
     | _ \<Rightarrow> ([], s))"

definition scan_exp :: "string \<Rightarrow> string \<times> string" where
  "scan_exp s = (case s of c # r \<Rightarrow> if c = CHR ''e'' \<or> c = CHR ''E'' then
       (let sign = (if r \<noteq> [] \<and> (hd r = CHR ''+'' \<or> hd r = CHR ''-'') then [hd r] else []);
            q = drop (length sign) r
        in if q \<noteq> [] \<and> is_digit (hd q) then (c # sign @ takeWhile is_digit q, dropWhile is_digit q) else ([], s))
       else ([], s)
     | [] \<Rightarrow> ([], s))"

definition int_of_text :: "string \<Rightarrow> int" where
  "int_of_text s = (if s \<noteq> [] \<and> hd s = CHR ''-'' then - default 0 (digits_val 0 (List.tl s))
     else default 0 (digits_val 0 s))"

text \<open>
  A float literal is finite exactly when its value rounds below \<open>2 ^ 1024\<close>: the digits as an
  integer \<open>m\<close> and the decimal exponent \<open>k\<close>.
\<close>

definition finite_float :: "string \<Rightarrow> string \<Rightarrow> string \<Rightarrow> bool" where
  "finite_float i f x = (let digits = filter is_digit (i @ f); m = default 0 (digits_val 0 digits);
       k = (if x = [] then 0 else int_of_text (filter (\<lambda>c. c \<noteq> CHR ''+'') (List.tl x))) - int (length f - 1);
       bound = 2 ^ 1024 - 2 ^ 970
     in m = 0 \<or> (if 0 \<le> k then m * 10 ^ nat k < bound else m < bound * 10 ^ nat (- k)))"

definition MAX_JSON_INTEGER_DIGITS :: nat where "MAX_JSON_INTEGER_DIGITS = 4300"
definition MAX_JSON_NESTING :: nat where "MAX_JSON_NESTING = 128"
definition DEFAULT_MAX_JSON_BYTES :: int where "DEFAULT_MAX_JSON_BYTES = 1000000"

definition scan_number :: "string \<Rightarrow> (json \<times> string) option" where
  "scan_number s = (case scan_int s of None \<Rightarrow> None | Some (i, r1) \<Rightarrow>
     let (f, r2) = scan_frac r1; (x, r3) = scan_exp r2
     in if f = [] \<and> x = [] then
          (if MAX_JSON_INTEGER_DIGITS < length (dropWhile (\<lambda>c. c = CHR ''-'') i) then None
           else Some (JInt (int_of_text i), r1))
        else if finite_float i f x then Some (JFloat (i @ f @ x), r3) else None)"

definition starts :: "string \<Rightarrow> string \<Rightarrow> bool" where
  "starts p s = (take (length p) s = p)"

text \<open>\<open>_unique_object\<close> fails on a repeated key when its object is complete.\<close>

fun scan_value :: "nat \<Rightarrow> string \<Rightarrow> (json \<times> string) option"
  and scan_items :: "nat \<Rightarrow> string \<Rightarrow> (json list \<times> string) option"
  and scan_pairs :: "nat \<Rightarrow> string \<Rightarrow> (dict \<times> string) option" where
  "scan_value 0 s = None"
| "scan_value (Suc n) s = (case s of
     [] \<Rightarrow> None
   | c # r \<Rightarrow>
       if c = CHR 0x22 then map_option (\<lambda>(t, q). (JStr t, q)) (scan_string r)
       else if c = CHR ''{'' then
         (case skip_ws r of
            [] \<Rightarrow> None
          | c2 # r2 \<Rightarrow> if c2 = CHR ''}'' then Some (JDict [], r2)
              else (case scan_pairs n (c2 # r2) of None \<Rightarrow> None
                | Some (d, q) \<Rightarrow> if distinct (map fst d) then Some (JDict d, q) else None))
       else if c = CHR ''['' then
         (case skip_ws r of
            [] \<Rightarrow> None
          | c2 # r2 \<Rightarrow> if c2 = CHR '']'' then Some (JList [], r2)
              else map_option (\<lambda>(xs, q). (JList xs, q)) (scan_items n (c2 # r2)))
       else if starts ''null'' s then Some (JNull, drop 4 s)
       else if starts ''true'' s then Some (JBool True, drop 4 s)
       else if starts ''false'' s then Some (JBool False, drop 5 s)
       else scan_number s)"
| "scan_items 0 s = None"
| "scan_items (Suc n) s = (case scan_value n s of None \<Rightarrow> None
     | Some (v, r) \<Rightarrow> (case skip_ws r of
         [] \<Rightarrow> None
       | c # q \<Rightarrow> if c = CHR '']'' then Some ([v], q)
           else if c = CHR '','' then map_option (\<lambda>(vs, t). (v # vs, t)) (scan_items n (skip_ws q))
           else None))"
| "scan_pairs 0 s = None"
| "scan_pairs (Suc n) s = (case s of
     [] \<Rightarrow> None
   | c # r \<Rightarrow> if c \<noteq> CHR 0x22 then None else
     (case scan_string r of None \<Rightarrow> None
      | Some (k, r1) \<Rightarrow> (case skip_ws r1 of
          [] \<Rightarrow> None
        | c1 # r2 \<Rightarrow> if c1 \<noteq> CHR '':'' then None else
          (case scan_value n (skip_ws r2) of None \<Rightarrow> None
           | Some (v, r3) \<Rightarrow> (case skip_ws r3 of
               [] \<Rightarrow> None
             | c3 # q \<Rightarrow> if c3 = CHR ''}'' then Some ([(k, v)], q)
                 else if c3 = CHR '','' then map_option (\<lambda>(d, t). ((k, v) # d, t)) (scan_pairs n (skip_ws q))
                 else None)))))"

text \<open>The pending stack of the nesting check, as the greatest depth of a container.\<close>

function (sequential) nesting :: "json \<Rightarrow> nat" where
  "nesting (JList xs) = Suc (fold max (map nesting xs) 0)"
| "nesting (JDict d) = Suc (fold max (map (\<lambda>(k, v). nesting v) d) 0)"
| "nesting v = 0"
  by pat_completeness auto

termination
proof (relation "measure size")
  fix xs :: "json list" and x
  assume "x \<in> set xs"
  then show "(x, JList xs) \<in> measure size" by (induction xs) auto
next
  fix d :: dict and p k v
  assume "p \<in> set d" "(k, v) = p"
  then show "(v, JDict d) \<in> measure size" by (induction d) auto
qed simp

definition utf8_length :: "string \<Rightarrow> nat" where
  "utf8_length s = sum_list (map (\<lambda>c. if (of_char c :: nat) < 128 then 1 else 2) s)"

definition json_loads :: "string \<Rightarrow> json option" where
  "json_loads s = (case scan_value (Suc (length s)) (skip_ws s) of None \<Rightarrow> None
     | Some (v, r) \<Rightarrow> if skip_ws r = [] then Some v else None)"

definition strict_json_loads :: "string \<Rightarrow> int \<Rightarrow> json res" where
  "strict_json_loads s max_bytes =
    (if max_bytes < 0 then Inl (ValueError ''max_bytes'')
     else if max_bytes < int (length s) \<or> max_bytes < int (utf8_length s) then Inl (ValueError ''byte limit'')
     else (case json_loads s of None \<Rightarrow> Inl (ValueError ''invalid JSON'')
       | Some v \<Rightarrow> if MAX_JSON_NESTING < nesting v then Inl (ValueError ''nesting limit'') else Inr v))"

section \<open>Decoding what was printed\<close>

text \<open>Values whose text the strict decoder takes rt: no floats, distinct keys, integers within
  the digit limit.\<close>

primrec plain :: "json \<Rightarrow> bool" where
  "plain JNull = True"
| "plain (JBool b) = True"
| "plain (JInt i) = (length (nat_text (nat \<bar>i\<bar>)) \<le> MAX_JSON_INTEGER_DIGITS)"
| "plain (JFloat t) = False"
| "plain (JStr s) = True"
| "plain (JList xs) = list_all (\<lambda>b. b) (map plain xs)"
| "plain (JDict d) = (distinct (map fst d) \<and> list_all snd (map (map_prod id plain) d))"

lemma hex_roundtrip: "n < 16 \<Longrightarrow> hex_val (hex_digit n) = Some n"
proof -
  have "\<forall>n \<in> set [0..<16]. hex_val (hex_digit n) = Some n" by code_simp
  then show "n < 16 \<Longrightarrow> hex_val (hex_digit n) = Some n" by simp
qed

lemma of_char_eq_char: "(of_char c :: nat) = of_char d \<longleftrightarrow> c = d"
  by simp

lemma scan_string_plain:
  "c \<noteq> CHR 0x22 \<Longrightarrow> c \<noteq> CHR 0x5C \<Longrightarrow> 32 \<le> (of_char c :: nat) \<Longrightarrow>
   scan_string (c # s) = map_option (\<lambda>(t, r). (c # t, r)) (scan_string s)"
  by simp

lemma char_of_num: "(of_char c :: nat) = n \<Longrightarrow> c = char_of n"
  by auto

lemma scan_string_esc: "scan_string (esc_char a c @ s) = map_option (\<lambda>(t, r). (c # t, r)) (scan_string s)"
proof -
  let ?n = "of_char c :: nat"
  have n: "?n < 256" by simp
  from n have "?n div 16 < 16" "?n mod 16 < 16" by linarith simp
  note hex = hex_roundtrip [OF this(1)] hex_roundtrip [OF this(2)]
  have z: "hex_val (CHR ''0'') = Some 0" by code_simp
  have rt: "char_of (16 * (?n div 16) + ?n mod 16) = c" by simp
  consider "c = CHR 0x22" | "c = CHR 0x5C" | "?n \<in> {8, 9, 10, 12, 13}"
    | "c \<noteq> CHR 0x22" "c \<noteq> CHR 0x5C" "?n \<notin> {8, 9, 10, 12, 13}" by blast
  then show ?thesis
  proof cases
    case 3
    then have "c \<in> char_of ` {8 :: nat, 9, 10, 12, 13}"
      by (metis char_of_num image_eqI)
    moreover have "char_of ` {8 :: nat, 9, 10, 12, 13} = {CHR 0x08, CHR 0x09, CHR 0x0A, CHR 0x0C, CHR 0x0D}"
      by code_simp
    ultimately have "c \<in> {CHR 0x08, CHR 0x09, CHR 0x0A, CHR 0x0C, CHR 0x0D}" by blast
    then show ?thesis by (auto simp: esc_char_def Let_def)
  next
    case 4
    show ?thesis
    proof (cases "?n < 32 \<or> (a \<and> 127 \<le> ?n)")
      case True
      with 4 have "esc_char a c = [CHR 0x5C, CHR ''u'', CHR ''0'', CHR ''0'', hex_digit (?n div 16), hex_digit (?n mod 16)]"
        by (simp add: esc_char_def Let_def)
      then show ?thesis using hex z rt by simp
    next
      case False
      with 4 have "esc_char a c = [c]" by (simp add: esc_char_def Let_def)
      with 4 False show ?thesis by (simp add: scan_string_plain)
    qed
  qed (simp_all add: esc_char_def)
qed

lemma scan_string_quote: "scan_string (concat (map (esc_char a) s) @ CHR 0x22 # r) = Some (s, r)"
  by (induction s) (simp_all add: scan_string_esc)

text \<open>Decimal texts of naturals.\<close>

lemma is_digit_char [simp]: "is_digit (digit_char v)"
  by (simp add: is_digit_def)

lemma nat_text_nonempty [simp]: "nat_text n \<noteq> []"
  by (subst nat_text.simps) simp

lemma nat_text_digits: "list_all is_digit (nat_text n)"
proof (induction n rule: nat_text.induct)
  case (1 n)
  then show ?case by (subst nat_text.simps) auto
qed

lemma nat_text_val: "digits_val 0 (nat_text n) = Some (int n)"
proof (induction n rule: nat_text.induct)
  case (1 n)
  show ?case
  proof (cases "n < 10")
    case True
    then show ?thesis by (subst nat_text.simps) simp
  next
    case False
    with 1 have "digits_val 0 (nat_text n) = Some (10 * int (n div 10) + int n mod 10)"
      by (subst nat_text.simps) (simp add: digits_val_append)
    then show ?thesis by (simp add: zdiv_int)
  qed
qed

lemma digit_char_zero: "0 \<le> v \<Longrightarrow> v < 10 \<Longrightarrow> digit_char v = CHR ''0'' \<Longrightarrow> v = 0"
  using digit_char_val [of v] by (auto simp: digit_of_def)

lemma nat_text_zero: "hd (nat_text n) = CHR ''0'' \<Longrightarrow> n = 0"
proof (induction n rule: nat_text.induct)
  case (1 n)
  show ?case
  proof (cases "n < 10")
    case True
    with "1.prems" have "digit_char (int n) = CHR ''0''" by (subst (asm) nat_text.simps) simp
    with digit_char_zero [of "int n"] True show ?thesis by simp
  next
    case False
    with "1.prems" have "hd (nat_text (n div 10)) = CHR ''0''" by (subst (asm) nat_text.simps) simp
    with "1.IH" False show ?thesis by auto
  qed
qed

lemma nat_text_0 [simp]: "nat_text 0 = ''0''"
  by code_simp

text \<open>What may follow a number.\<close>

definition stop :: "string \<Rightarrow> bool" where
  "stop r = (r = [] \<or> (\<not> is_digit (hd r) \<and> hd r \<noteq> CHR ''.'' \<and> hd r \<noteq> CHR ''e'' \<and> hd r \<noteq> CHR ''E''))"

lemma scan_tail_stop: "stop r \<Longrightarrow> scan_frac r = ([], r) \<and> scan_exp r = ([], r)"
  by (auto simp: stop_def scan_frac_def scan_exp_def split: list.splits)

lemma takeWhile_digits: "stop r \<Longrightarrow> list_all is_digit s \<Longrightarrow>
    takeWhile is_digit (s @ r) = s \<and> dropWhile is_digit (s @ r) = r"
  by (induction s) (cases r, auto simp: stop_def)+

lemma not_digit_minus [simp]: "\<not> is_digit (CHR ''-'')"
  by (simp add: is_digit_def digit_of_def)

lemma hd_nat_text: "is_digit (hd (nat_text n))"
  using nat_text_digits [of n] by (cases "nat_text n") auto

lemma scan_int_nat:
  assumes "stop r"
  shows "scan_int (nat_text n @ r) = Some (nat_text n, r)"
    and "scan_int (CHR ''-'' # nat_text n @ r) = Some (CHR ''-'' # nat_text n, r)"
proof -
  have h: "hd (nat_text n) \<noteq> CHR ''-''" using hd_nat_text [of n] not_digit_minus by metis
  have t: "takeWhile is_digit (nat_text n @ r) = nat_text n" "dropWhile is_digit (nat_text n @ r) = r"
    using takeWhile_digits [OF assms nat_text_digits] by auto
  have z: "hd (nat_text n) = CHR ''0'' \<Longrightarrow> nat_text n = ''0''"
    using nat_text_zero [of n] by auto
  show "scan_int (nat_text n @ r) = Some (nat_text n, r)"
    using h t z hd_nat_text [of n] by (cases "hd (nat_text n) = CHR ''0''") (auto simp: scan_int_def Let_def)
  show "scan_int (CHR ''-'' # nat_text n @ r) = Some (CHR ''-'' # nat_text n, r)"
    using h t z hd_nat_text [of n] by (cases "hd (nat_text n) = CHR ''0''") (auto simp: scan_int_def Let_def)
qed

lemma int_of_nat_text: "int_of_text (nat_text n) = int n" "int_of_text (CHR ''-'' # nat_text n) = - int n"
proof -
  have "hd (nat_text n) \<noteq> CHR ''-''" using hd_nat_text [of n] not_digit_minus by metis
  then show "int_of_text (nat_text n) = int n" by (simp add: int_of_text_def nat_text_val)
  show "int_of_text (CHR ''-'' # nat_text n) = - int n" by (simp add: int_of_text_def nat_text_val)
qed

lemma drop_sign: "dropWhile (\<lambda>c. c = CHR ''-'') (nat_text n) = nat_text n"
proof -
  have "hd (nat_text n) \<noteq> CHR ''-''" using hd_nat_text [of n] not_digit_minus by metis
  then show ?thesis by (cases "nat_text n") auto
qed

lemma scan_number_int:
  assumes "stop r" "length (nat_text (nat \<bar>i\<bar>)) \<le> MAX_JSON_INTEGER_DIGITS"
  shows "scan_number (int_text i @ r) = Some (JInt i, r)"
proof (cases "i < 0")
  case True
  with assms scan_tail_stop [OF assms(1)] show ?thesis
    by (simp add: scan_number_def int_text_def scan_int_nat int_of_nat_text drop_sign)
next
  case False
  with assms scan_tail_stop [OF assms(1)] show ?thesis
    by (simp add: scan_number_def int_text_def scan_int_nat int_of_nat_text drop_sign)
qed


section \<open>Round trip\<close>

definition isep_ok :: "string \<Rightarrow> bool" where "isep_ok s = (s = '','' \<or> s = '', '')"
definition ksep_ok :: "string \<Rightarrow> bool" where "ksep_ok s = (s = '':'' \<or> s = '': '')"

lemma starts_Cons [simp]: "starts (c # p) (d # s) = (c = d \<and> starts p s)" "starts [] s"
  by (auto simp: starts_def)

lemma ws_simps [simp]:
  "\<not> is_ws (CHR 0x22)" "\<not> is_ws (CHR ''['')" "\<not> is_ws (CHR ''{'')" "\<not> is_ws (CHR ''n'')" "\<not> is_ws (CHR ''t'')"
  "\<not> is_ws (CHR ''f'')" "\<not> is_ws (CHR ''-'')" "\<not> is_ws (CHR '']'')" "\<not> is_ws (CHR ''}'')" "\<not> is_ws (CHR '','')"
  "\<not> is_ws (CHR '':'')" "is_ws (CHR '' '')"
  by (simp_all add: is_ws_def)

lemma skip_ws_simps [simp]: "skip_ws [] = []" "\<not> is_ws c \<Longrightarrow> skip_ws (c # s) = c # s"
  "skip_ws (CHR '' '' # s) = skip_ws s"
  by (simp_all add: skip_ws_def)

lemma stop_simps [simp]: "stop []" "stop (CHR '','' # r)" "stop (CHR '']'' # r)" "stop (CHR ''}'' # r)"
  by (simp_all add: stop_def is_digit_def digit_of_def)

text \<open>The first character of a printed value.\<close>

definition opens :: "string \<Rightarrow> bool" where
  "opens s = (s \<noteq> [] \<and> \<not> is_ws (hd s) \<and> hd s \<noteq> CHR '']'' \<and> hd s \<noteq> CHR ''}'')"

lemma digit_facts: "is_digit c \<Longrightarrow> \<not> is_ws c \<and> c \<noteq> CHR '']'' \<and> c \<noteq> CHR ''}'' \<and> c \<noteq> CHR 0x22 \<and> c \<noteq> CHR ''{''
   \<and> c \<noteq> CHR ''['' \<and> c \<noteq> CHR ''n'' \<and> c \<noteq> CHR ''t'' \<and> c \<noteq> CHR ''f''"
  by (auto simp: is_digit_def digit_of_def is_ws_def Let_def split: if_splits)

lemma int_text_Cons: "\<exists>c t. int_text i = c # t \<and> (is_digit c \<or> c = CHR ''-'')"
  using hd_nat_text [of "nat i"] by (cases "nat_text (nat i)") (auto simp: int_text_def)

lemma opens_int: "opens (int_text i)"
proof -
  obtain c t where c: "int_text i = c # t" "is_digit c \<or> c = CHR ''-''" using int_text_Cons by blast
  from c(2) digit_facts [of c] have "\<not> is_ws c \<and> c \<noteq> CHR '']'' \<and> c \<noteq> CHR ''}''" by auto
  with c(1) show ?thesis by (simp add: opens_def)
qed

lemma opens_quote: "opens (quote a s)"
  by (simp add: opens_def quote_def)

lemma opens_jtext: "plain v \<Longrightarrow> opens (jtext a isep ksep v)"
  by (cases v) (simp_all add: opens_int opens_quote, simp_all add: opens_def)

lemma opens_append: "opens s \<Longrightarrow> opens (s @ r)"
  by (simp add: opens_def)

lemma opens_join: "xs \<noteq> [] \<Longrightarrow> opens (hd xs) \<Longrightarrow> opens (join sep xs)"
  by (cases "(sep, xs)" rule: join.cases) (auto simp: opens_append)

lemma skip_ws_opens: "opens s \<Longrightarrow> skip_ws (s @ r) = s @ r"
  by (cases s) (auto simp: opens_def)

lemma isep_Cons: "isep_ok i \<Longrightarrow> \<exists>t. i = CHR '','' # t \<and> (t = [] \<or> t = '' '')"
  by (auto simp: isep_ok_def)

lemma ksep_Cons: "ksep_ok i \<Longrightarrow> \<exists>t. i = CHR '':'' # t \<and> (t = [] \<or> t = '' '')"
  by (auto simp: ksep_ok_def)

lemma skip_gap: "t = [] \<or> t = '' '' \<Longrightarrow> opens s \<Longrightarrow> skip_ws (t @ s @ r) = s @ r"
  by (auto simp: skip_ws_opens)

lemma scan_value_int:
  assumes "stop r" "plain (JInt i)"
  shows "scan_value (Suc n) (int_text i @ r) = Some (JInt i, r)"
proof -
  obtain c t where c: "int_text i = c # t" "is_digit c \<or> c = CHR ''-''" using int_text_Cons by blast
  from assms have s: "scan_number (int_text i @ r) = Some (JInt i, r)" by (simp add: scan_number_int)
  from c(2) digit_facts [of c] have "c \<noteq> CHR 0x22" "c \<noteq> CHR ''{''" "c \<noteq> CHR ''[''" "c \<noteq> CHR ''n''" "c \<noteq> CHR ''t''"
    "c \<noteq> CHR ''f''" by auto
  with s c(1) show ?thesis by simp
qed

lemma scan_items_join:
  assumes "isep_ok isep" "vs \<noteq> []" "\<forall>v \<in> set vs. opens (f v)"
    and "\<And>v m q. v \<in> set vs \<Longrightarrow> length (f v) \<le> m \<Longrightarrow> stop q \<Longrightarrow> scan_value m (f v @ q) = Some (v, q)"
    and "length (join isep (map f vs)) + 1 \<le> n"
  shows "scan_items n (join isep (map f vs) @ CHR '']'' # r) = Some (vs, r)"
  using assms(2-)
proof (induction vs arbitrary: n rule: induct_list012)
  case 1
  then show ?case by simp
next
  case (2 v)
  then obtain m where "n = Suc m" "length (f v) \<le> m" by (cases n) auto
  with 2 show ?case by simp
next
  case (3 v w vs)
  let ?rest = "join isep (map f (w # vs))"
  from isep_Cons [OF assms(1)] obtain t where t: "isep = CHR '','' # t" "t = [] \<or> t = '' ''" by metis
  from "3.prems"(4) t(1) obtain m where m: "n = Suc m" "length (f v) \<le> m" "length ?rest + 1 \<le> m"
    by (cases n) auto
  have o: "opens ?rest" by (rule opens_join) (use "3.prems" in auto)
  have "scan_value m (f v @ CHR '','' # t @ ?rest @ CHR '']'' # r) = Some (v, CHR '','' # t @ ?rest @ CHR '']'' # r)"
    by (rule "3.prems"(3)) (use m in auto)
  moreover note skip_gap [OF t(2) o, of "CHR '']'' # r"]
  moreover have "scan_items m (?rest @ CHR '']'' # r) = Some (w # vs, r)"
    by (rule "3.IH"(2)) (use "3.prems" m in auto)
  ultimately show ?case using m(1) t(1) by simp
qed

lemma scan_pair_first:
  assumes "ksep_ok ksep" "scan_value m (w @ q) = Some (v, q)" "opens w"
  shows "scan_pairs (Suc m) (quote a k @ ksep @ w @ q) = (case skip_ws q of [] \<Rightarrow> None
    | c # q' \<Rightarrow> if c = CHR ''}'' then Some ([(k, v)], q')
        else if c = CHR '','' then map_option (\<lambda>(d, t). ((k, v) # d, t)) (scan_pairs m (skip_ws q')) else None)"
proof -
  from ksep_Cons [OF assms(1)] obtain u where u: "ksep = CHR '':'' # u" "u = [] \<or> u = '' ''" by metis
  from assms(2) skip_gap [OF u(2) assms(3), of q] u(1) show ?thesis
    by (simp add: quote_def scan_string_quote)
qed

lemma scan_pairs_join:
  fixes g :: "string \<times> json \<Rightarrow> string"
  assumes "isep_ok isep" "ksep_ok ksep" "d \<noteq> []"
    and "\<And>p. p \<in> set d \<Longrightarrow> g p = quote a (fst p) @ ksep @ f (snd p)"
    and "\<forall>p \<in> set d. opens (f (snd p))"
    and "\<And>p m q. p \<in> set d \<Longrightarrow> length (f (snd p)) \<le> m \<Longrightarrow> stop q \<Longrightarrow> scan_value m (f (snd p) @ q) = Some (snd p, q)"
    and "length (join isep (map g d)) + 1 \<le> n"
  shows "scan_pairs n (join isep (map g d) @ CHR ''}'' # r) = Some (d, r)"
  using assms(3-)
proof (induction d arbitrary: n rule: induct_list012)
  case 1
  then show ?case by simp
next
  case (2 p)
  then have gp: "g p = quote a (fst p) @ ksep @ f (snd p)" by simp
  from "2.prems"(5) gp obtain m where m: "n = Suc m" "length (f (snd p)) \<le> m" by (cases n) auto
  have "scan_value m (f (snd p) @ CHR ''}'' # r) = Some (snd p, CHR ''}'' # r)"
    by (rule "2.prems"(4)) (use m in auto)
  from scan_pair_first [OF assms(2) this] "2.prems"(3) m(1) gp show ?case by simp
next
  case (3 p q d)
  let ?rest = "join isep (map g (q # d))"
  have gp: "g p = quote a (fst p) @ ksep @ f (snd p)" and gq: "opens (g q)"
    using "3.prems"(2) [of p] "3.prems"(2) [of q] opens_append [OF opens_quote] by auto
  from isep_Cons [OF assms(1)] obtain t where t: "isep = CHR '','' # t" "t = [] \<or> t = '' ''" by metis
  from "3.prems"(5) gp t(1) obtain m where m: "n = Suc m" "length (f (snd p)) \<le> m" "length ?rest + 1 \<le> m"
    by (cases n) auto
  have o: "opens ?rest" by (rule opens_join) (use gq in auto)
  have "scan_value m (f (snd p) @ CHR '','' # t @ ?rest @ CHR ''}'' # r)
      = Some (snd p, CHR '','' # t @ ?rest @ CHR ''}'' # r)"
    by (rule "3.prems"(4)) (use m in auto)
  note first = scan_pair_first [OF assms(2) this, of a "fst p"]
  have rest: "scan_pairs m (?rest @ CHR ''}'' # r) = Some (q # d, r)"
    by (rule "3.IH"(2)) (use "3.prems" m in auto)
  have "opens (f (snd p))" using "3.prems"(3) by simp
  from first [OF this] rest skip_gap [OF t(2) o, of "CHR ''}'' # r"] m(1) gp t(1)
  show ?case by simp
qed

lemma scan_value_literal:
  "scan_value (Suc n) (''null'' @ r) = Some (JNull, r)"
  "scan_value (Suc n) (''true'' @ r) = Some (JBool True, r)"
  "scan_value (Suc n) (''false'' @ r) = Some (JBool False, r)"
  by simp_all

lemma opens_cases: "opens s \<Longrightarrow> \<exists>c t. s = c # t \<and> \<not> is_ws c \<and> c \<noteq> CHR '']'' \<and> c \<noteq> CHR ''}''"
  by (cases s) (auto simp: opens_def)

lemma scan_value_list:
  assumes "scan_items m (t @ CHR '']'' # r) = Some (xs, r)" "opens t"
  shows "scan_value (Suc m) (CHR ''['' # t @ CHR '']'' # r) = Some (JList xs, r)"
proof -
  from opens_cases [OF assms(2)] obtain c u where "t = c # u" "\<not> is_ws c" "c \<noteq> CHR '']''" by auto
  with assms(1) show ?thesis by simp
qed

lemma scan_value_dict:
  assumes "scan_pairs m (t @ CHR ''}'' # r) = Some (d, r)" "opens t" "distinct (map fst d)"
  shows "scan_value (Suc m) (CHR ''{'' # t @ CHR ''}'' # r) = Some (JDict d, r)"
proof -
  from opens_cases [OF assms(2)] obtain c u where "t = c # u" "\<not> is_ws c" "c \<noteq> CHR ''}''" by auto
  with assms(1,3) show ?thesis by simp
qed

lemma length_positive: "plain v \<Longrightarrow> length (jtext a isep ksep v) \<le> n \<Longrightarrow> \<exists>m. n = Suc m"
  using opens_jtext [of v a isep ksep] by (cases n) (auto simp: opens_def)

definition pair_text :: "bool \<Rightarrow> string \<Rightarrow> string \<Rightarrow> string \<times> json \<Rightarrow> string" where
  "pair_text a isep ksep p = quote a (fst p) @ ksep @ jtext a isep ksep (snd p)"

lemma jtext_dict: "jtext a isep ksep (JDict d) = CHR ''{'' # join isep (map (pair_text a isep ksep) d) @ ''}''"
  by (simp add: pair_text_def case_prod_unfold cong: map_cong)

lemma scan_value_jtext:
  assumes "isep_ok isep" "ksep_ok ksep"
  shows "plain v \<Longrightarrow> length (jtext a isep ksep v) \<le> n \<Longrightarrow> stop r \<Longrightarrow>
    scan_value n (jtext a isep ksep v @ r) = Some (v, r)"
proof (induction v arbitrary: n r)
  case JNull
  from length_positive [OF JNull(1,2)] scan_value_literal(1) [of _ r] show ?case by auto
next
  case (JBool b)
  from length_positive [OF JBool(1,2)] scan_value_literal(2,3) [of _ r] show ?case by (cases b) auto
next
  case (JInt i)
  from length_positive [OF JInt(1,2)] scan_value_int [OF JInt(3,1)] show ?case by auto
next
  case (JFloat t)
  then show ?case by simp
next
  case (JStr s)
  from length_positive [OF JStr(1,2)] show ?case by (auto simp: quote_def scan_string_quote)
next
  case (JList xs)
  from length_positive [OF JList.prems(1,2)] obtain m where m: "n = Suc m" by blast
  show ?case
  proof (cases "xs = []")
    case False
    let ?t = "join isep (map (jtext a isep ksep) xs)"
    have p: "\<forall>v \<in> set xs. plain v" using JList.prems(1) by (simp add: list_all_iff)
    have "length ?t + 1 \<le> m" using JList.prems(2) m by simp
    then have "scan_items m (?t @ CHR '']'' # r) = Some (xs, r)"
      by (rule scan_items_join [OF assms(1) False, rotated 2]) (simp_all add: p opens_jtext JList.IH)
    moreover have "opens ?t"
      by (rule opens_join) (use False p opens_jtext in \<open>simp_all add: hd_map\<close>)
    ultimately show ?thesis using scan_value_list m by simp
  qed (simp add: m)
next
  case (JDict d)
  from length_positive [OF JDict.prems(1,2)] obtain m where m: "n = Suc m" by blast
  show ?case
  proof (cases "d = []")
    case False
    let ?t = "join isep (map (pair_text a isep ksep) d)"
    have p: "\<forall>p \<in> set d. plain (snd p)" and k: "distinct (map fst d)"
      using JDict.prems(1) by (simp_all add: list_all_iff)
    have "length ?t + 1 \<le> m" using JDict.prems(2) m unfolding jtext_dict by simp
    then have "scan_pairs m (?t @ CHR ''}'' # r) = Some (d, r)"
    proof (rule scan_pairs_join [OF assms False, where f = "jtext a isep ksep" and a = a, rotated 3])
      show "scan_value i (jtext a isep ksep (snd q) @ s) = Some (snd q, s)"
        if "q \<in> set d" "length (jtext a isep ksep (snd q)) \<le> i" "stop s" for q i s
        by (rule JDict.IH [OF that(1)]) (use that p in \<open>simp_all add: snds.simps\<close>)
    qed (simp_all add: p opens_jtext pair_text_def)
    moreover have "opens ?t"
      by (rule opens_join) (use False in \<open>simp_all add: hd_map pair_text_def opens_append opens_quote\<close>)
    ultimately show ?thesis using scan_value_dict k m unfolding jtext_dict by simp
  qed (simp add: m)
qed

text \<open>C3: the strict decoder returns the value that was printed, for every separator style the
  program uses, with or without ASCII escapes, as long as the value has distinct keys, no floats,
  integers within the digit limit, containers within the nesting limit and a text within the byte
  limit. In particular the fuel of the decoder, one more than the length of its input, is enough.\<close>

theorem strict_json_roundtrip:
  assumes "plain v" "nesting v \<le> MAX_JSON_NESTING" "isep_ok isep" "ksep_ok ksep"
    and "int (utf8_length (jtext a isep ksep v)) \<le> limit"
  shows "strict_json_loads (jtext a isep ksep v) limit = Inr v"
proof -
  let ?t = "jtext a isep ksep v"
  have l: "length s \<le> utf8_length s" for s by (induction s) (auto simp: utf8_length_def)
  have "skip_ws ?t = ?t" using skip_ws_opens [OF opens_jtext [OF assms(1)], of a isep ksep "[]"] by simp
  moreover have "scan_value (Suc (length ?t)) (?t @ []) = Some (v, [])"
    by (rule scan_value_jtext [OF assms(3,4,1)]) simp_all
  ultimately have "json_loads ?t = Some v" unfolding json_loads_def by simp
  moreover from l [of ?t] assms(5) have "int (length ?t) \<le> limit" "0 \<le> limit" by linarith+
  ultimately show ?thesis using assms(2,5) by (simp add: strict_json_loads_def)
qed


definition sample_value :: json where
  "sample_value = JDict [(''a'', JList [JInt (-12), JNull, JStr [CHR ''x'', CHR 0x0A, CHR 0x22]]), (''b'', JDict [])]"

theorem strict_json_roundtrip_witness:
  "strict_json_loads (jtext False '','' '':'' sample_value) 100 = Inr sample_value"
  by (rule strict_json_roundtrip) code_simp+

end
