(* ===== verification/Store.thy ===== *)
theory Store imports Sql_Table Json_Text begin

text \<open>
  The persistent state: one record per table of \<open>storage/schema.sql\<close> and of the SMTP queue
  schema in \<open>delivery/queue.py\<close>, the dataclasses of \<open>domain/models.py\<close> that are rows
  of them, and the audit log. A column under a \<open>CHECK (x IN ...)\<close> is a datatype; a free
  text column is a string; an instant is an \<open>int\<close> (the stored UTC texts of one format sort
  as the instants do); a nullable column is an option.
\<close>

section \<open>Status values\<close>

datatype run_state = Queued | Running | AwaitingReceipt | Succeeded | Failed | TimedOut | Cancelled
  | NeedsAttention

datatype run_phase = PhQueued | PhPreflight | PhResearch | PhValidate | PhDedupe | PhCompose
  | PhValidateMessage | PhHandoff | PhFinalize

datatype smtp_state = SQueued | SSending | SAccepted | SConnectionOk | SFailed | SUncertain

datatype smtp_phase = Prepared | DataStarted | Finished

datatype delivery_mode = MDisabled | MDryRun | MHandoff

fun smtp_text :: "smtp_state \<Rightarrow> string" where
  "smtp_text SQueued = ''queued''"
| "smtp_text SSending = ''sending''"
| "smtp_text SAccepted = ''smtp_accepted''"
| "smtp_text SConnectionOk = ''connection_ok''"
| "smtp_text SFailed = ''failed''"
| "smtp_text SUncertain = ''uncertain''"

fun mode_text :: "delivery_mode \<Rightarrow> string" where
  "mode_text MDisabled = ''disabled''"
| "mode_text MDryRun = ''dry_run''"
| "mode_text MHandoff = ''handoff''"

fun run_text :: "run_state \<Rightarrow> string" where
  "run_text Queued = ''queued''"
| "run_text Running = ''running''"
| "run_text AwaitingReceipt = ''awaiting_receipt''"
| "run_text Succeeded = ''succeeded''"
| "run_text Failed = ''failed''"
| "run_text TimedOut = ''timed_out''"
| "run_text Cancelled = ''cancelled''"
| "run_text NeedsAttention = ''needs_attention''"

section \<open>Rows\<close>

record catalog_row =
  cat_id :: int
  cat_kind :: string
  cat_key :: string
  cat_name :: string
  cat_deleted :: "int option"
  cat_created :: int
  cat_updated :: int
  cat_request :: "string option"
  cat_owner :: "string option"

record task_row =
  task_id :: string
  task_active :: "string option"
  task_enabled :: bool
  task_mode :: delivery_mode
  task_approved :: bool
  task_approved_version :: "string option"
  task_approved_revision :: "string option"
  task_dry_run :: "string option"
  task_approved_at :: "int option"
  task_updated :: int

record version_row =
  ver_hash :: string
  ver_task :: string
  ver_definition :: dict
  ver_files :: dict
  ver_sealed :: int
  ver_active :: bool

record run_row =
  run_id :: string
  run_task :: string
  run_version :: string
  run_due :: int
  run_timezone :: string
  run_local_date :: string
  run_local_display :: string
  run_trigger :: string
  run_status :: run_state
  run_phase :: run_phase
  run_attempt :: int
  run_generation :: int
  run_parent :: "string option"
  run_created :: int
  run_started :: "int option"
  run_finished :: "int option"
  run_heartbeat :: "int option"
  run_progress :: "int option"
  run_error :: "string option"

record lease_row =
  lease_run :: string
  lease_worker :: string
  lease_attempt :: int
  lease_token :: string
  lease_claimed :: int
  lease_heartbeat :: int
  lease_expires :: int

record claim_row =
  claim_task :: string
  claim_run :: string
  claim_token :: string
  claim_at :: int

record control_row =
  ctl_run :: string
  ctl_cancel :: bool
  ctl_dry :: bool
  ctl_revision :: int
  ctl_cleanup :: bool

record result_row =
  res_run :: string
  res_task :: string
  res_status :: string
  res_summary :: string
  res_records :: json
  res_coverage :: json
  res_warnings :: json
  res_raw :: string
  res_artifacts :: json
  res_created :: int

record input_row =
  inp_run :: string
  inp_task :: string
  inp_version :: string
  inp_revision :: int
  inp_value :: json
  inp_sha :: string
  inp_created :: int

record output_row =
  out_run :: string
  out_task :: string
  out_revision :: int
  out_group :: string
  out_reason :: string
  out_subject :: string
  out_html :: string
  out_text :: string
  out_included :: json
  out_result :: dict
  out_created :: int

record handoff_row =
  ho_id :: string
  ho_key :: string
  ho_run :: string
  ho_task :: string
  ho_version :: string
  ho_revision :: int
  ho_type :: string
  ho_group :: string
  ho_mode :: string
  ho_status :: string
  ho_request :: json
  ho_request_sha :: string
  ho_published :: "int option"
  ho_receipt :: "string option"
  ho_acknowledged :: "int option"
  ho_external :: "string option"
  ho_receipt_sha :: "string option"
  ho_trust :: "string option"
  ho_reason :: "string option"
  ho_created :: int

record receipt_row =
  rc_id :: string
  rc_handoff :: string
  rc_key :: string
  rc_request_sha :: string
  rc_status :: string
  rc_occurred :: int
  rc_message :: "string option"
  rc_error :: "json option"
  rc_proof :: json
  rc_raw :: string
  rc_sha :: string
  rc_imported :: int

record reported_row =
  rep_task :: string
  rep_entity :: string
  rep_fingerprint :: string
  rep_run :: string
  rep_handoff :: string
  rep_at :: int

record audit_row =
  ev_id :: int
  ev_entity :: string
  ev_key :: string
  ev_type :: string
  ev_details :: dict
  ev_actor :: string
  ev_at :: string

record blob_row =
  blob_run :: string
  blob_raw :: string
  blob_sha :: string

record command_row =
  cmd_task :: string
  cmd_key :: string
  cmd_run :: string
  cmd_request :: string

record smtp_row =
  sm_job :: string
  sm_handoff :: "string option"
  sm_status :: smtp_state
  sm_phase :: smtp_phase
  sm_token :: "string option"
  sm_pid :: "int option"
  sm_message :: string
  sm_mime :: string
  sm_mime_sha :: string
  sm_envelope :: dict
  sm_config :: string
  sm_created :: int
  sm_updated :: int
  sm_error :: "string option"
  sm_reply :: "string option"
  sm_parent :: "string option"
  sm_attempt :: int
  sm_request :: "string option"
  sm_request_json :: "string option"
  sm_next :: "int option"
  sm_code :: "string option"
  sm_retryable :: bool
  sm_diagnostics :: "json option"
  sm_expires :: "int option"

record smtp_request_row =
  rq_key :: string
  rq_job :: string
  rq_json :: string
  rq_created :: int

record workspace_row =
  ws_task :: string
  ws_generation :: int
  ws_last_run :: "string option"
  ws_updated :: int

record db =
  db_catalog :: "catalog_row list"
  db_catalog_seq :: int
  db_installation :: "string option"
  db_user_ids :: "string list"
  db_tasks :: "task_row list"
  db_versions :: "version_row list"
  db_runs :: "run_row list"
  db_leases :: "lease_row list"
  db_claims :: "claim_row list"
  db_controls :: "control_row list"
  db_results :: "result_row list"
  db_inputs :: "input_row list"
  db_outputs :: "output_row list"
  db_handoffs :: "handoff_row list"
  db_receipts :: "receipt_row list"
  db_reported :: "reported_row list"
  db_audit :: "audit_row list"
  db_audit_seq :: int
  db_plans :: "blob_row list"
  db_authorizations :: "blob_row list"
  db_watermarks :: "(string \<times> int) list"
  db_commands :: "command_row list"
  db_smtp :: "smtp_row list"
  db_smtp_requests :: "smtp_request_row list"
  db_workspaces :: "workspace_row list"

text \<open>What an operation reads from its surroundings: the clock, the creator that
  \<open>creation_owner\<close> set, and the actor of the current request.\<close>

record env =
  now :: int
  creator :: "string option"
  request_actor :: string

definition empty_db :: db where
  "empty_db = \<lparr>db_catalog = [], db_catalog_seq = 0, db_installation = None, db_user_ids = [],
     db_tasks = [], db_versions = [],
     db_runs = [], db_leases = [], db_claims = [], db_controls = [], db_results = [], db_inputs = [],
     db_outputs = [], db_handoffs = [], db_receipts = [], db_reported = [], db_audit = [],
     db_audit_seq = 0, db_plans = [], db_authorizations = [], db_watermarks = [], db_commands = [],
     db_smtp = [], db_smtp_requests = [], db_workspaces = []\<rparr>"

section \<open>The audit log\<close>

text \<open>
  \<open>INSERT INTO audit_events\<close>: the key is the next AUTOINCREMENT value; the connection's
  trigger replaces the default actor by the request's actor when there is one.
\<close>

definition audit :: "env \<Rightarrow> string \<Rightarrow> string \<Rightarrow> string \<Rightarrow> dict \<Rightarrow> string \<Rightarrow> string \<Rightarrow> db \<Rightarrow> db" where
  "audit e entity key typ details actor at d =
    (let who = (if actor = ''single-operator'' \<and> request_actor e \<noteq> [] then request_actor e else actor)
     in d\<lparr>db_audit := db_audit d @ [\<lparr>ev_id = db_audit_seq d + 1, ev_entity = entity, ev_key = key,
            ev_type = typ, ev_details = details, ev_actor = who, ev_at = at\<rparr>],
          db_audit_seq := db_audit_seq d + 1\<rparr>)"

definition default_actor :: string where "default_actor = ''single-operator''"

text \<open>Keys of the log are distinct and at most the sequence: an event is never overwritten.\<close>

definition audit_ok :: "db \<Rightarrow> bool" where
  "audit_ok d = (distinct (map ev_id (db_audit d)) \<and> list_all (\<lambda>v. ev_id v \<le> db_audit_seq d) (db_audit d))"

lemma audit_ok_audit: "audit_ok d \<Longrightarrow> audit_ok (audit e a k t v w s d)"
  by (fastforce simp: audit_ok_def audit_def Let_def list_all_iff)

text \<open>An audit write changes the log only.\<close>

lemma audit_frame [simp]:
  "db_catalog (audit e a k t v w s d) = db_catalog d"
  "db_catalog_seq (audit e a k t v w s d) = db_catalog_seq d"
  "db_installation (audit e a k t v w s d) = db_installation d"
  "db_user_ids (audit e a k t v w s d) = db_user_ids d"
  "db_tasks (audit e a k t v w s d) = db_tasks d"
  "db_versions (audit e a k t v w s d) = db_versions d"
  "db_runs (audit e a k t v w s d) = db_runs d"
  "db_leases (audit e a k t v w s d) = db_leases d"
  "db_claims (audit e a k t v w s d) = db_claims d"
  "db_controls (audit e a k t v w s d) = db_controls d"
  "db_handoffs (audit e a k t v w s d) = db_handoffs d"
  "db_receipts (audit e a k t v w s d) = db_receipts d"
  "db_reported (audit e a k t v w s d) = db_reported d"
  "db_inputs (audit e a k t v w s d) = db_inputs d"
  "db_outputs (audit e a k t v w s d) = db_outputs d"
  "db_results (audit e a k t v w s d) = db_results d"
  "db_plans (audit e a k t v w s d) = db_plans d"
  "db_authorizations (audit e a k t v w s d) = db_authorizations d"
  "db_watermarks (audit e a k t v w s d) = db_watermarks d"
  "db_commands (audit e a k t v w s d) = db_commands d"
  "db_smtp (audit e a k t v w s d) = db_smtp d"
  "db_smtp_requests (audit e a k t v w s d) = db_smtp_requests d"
  "db_workspaces (audit e a k t v w s d) = db_workspaces d"
  by (simp_all add: audit_def Let_def)

section \<open>An example state\<close>

text \<open>One running execution under a live lease, used by the examples below.\<close>

definition sample_run :: "string \<Rightarrow> string \<Rightarrow> run_row" where
  "sample_run r t = \<lparr>run_id = r, run_task = t, run_version = ''v1'', run_due = 100, run_timezone = ''UTC'',
     run_local_date = [], run_local_display = [], run_trigger = ''manual'', run_status = Queued,
     run_phase = PhQueued, run_attempt = 0, run_generation = 1, run_parent = None, run_created = 100,
     run_started = None, run_finished = None, run_heartbeat = None, run_progress = None, run_error = None\<rparr>"

definition sample_lease :: lease_row where
  "sample_lease = \<lparr>lease_run = ''r1'', lease_worker = ''w'', lease_attempt = 1, lease_token = ''f'',
     lease_claimed = 100, lease_heartbeat = 100, lease_expires = 200\<rparr>"

definition sample_claim :: claim_row where
  "sample_claim = \<lparr>claim_task = ''t1'', claim_run = ''r1'', claim_token = ''f'', claim_at = 100\<rparr>"

definition sample_control :: "string \<Rightarrow> control_row" where
  "sample_control r = \<lparr>ctl_run = r, ctl_cancel = False, ctl_dry = False, ctl_revision = 1, ctl_cleanup = False\<rparr>"

definition sample_version :: version_row where
  "sample_version = \<lparr>ver_hash = ''v1'', ver_task = ''t1'', ver_definition = [(''id'', JStr ''t1''),
     (''name'', JStr ''t1''), (''delivery'', JDict [(''mode'', JStr ''handoff'')])], ver_files = [],
     ver_sealed = 50, ver_active = True\<rparr>"

definition sample_task :: task_row where
  "sample_task = \<lparr>task_id = ''t1'', task_active = Some ''v1'', task_enabled = True, task_mode = MHandoff,
     task_approved = False, task_approved_version = None, task_approved_revision = None, task_dry_run = None,
     task_approved_at = None, task_updated = 50\<rparr>"

definition sample_db :: db where
  "sample_db = empty_db\<lparr>db_tasks := [sample_task], db_versions := [sample_version],
     db_runs := [(sample_run ''r1'' ''t1'')\<lparr>run_status := Running, run_attempt := 1\<rparr>],
     db_leases := [sample_lease], db_claims := [sample_claim], db_controls := [sample_control ''r1'']\<rparr>"

definition sample_env :: env where
  "sample_env = \<lparr>now = 150, creator = None, request_actor = []\<rparr>"

end
