(* ===== verification/Timeline.thy ===== *)
theory Timeline imports Store begin

text \<open>
  Execution milestones: the contract of a step event and the controller's timeline object of
  \<open>engine/run_timeline.py\<close>, and \<open>RunRepository.append_run_step_events\<close> and
  \<open>get_run_event_snapshot\<close> of \<open>storage/repositories.py\<close>. A step event is a JSON object
  under the run's entity in the audit log; the log of a run is well formed when every completion
  matches one earlier start.
\<close>

section \<open>The contract of a step event\<close>

definition STEP_PHASES :: "string list" where
  "STEP_PHASES = [''preflight'', ''research'', ''validate'', ''dedupe'', ''artifact_acquisition'',
     ''prepare_compose'', ''compose'', ''validate_message'', ''handoff'', ''finalize'', ''smtp'']"

definition STEP_STATES :: "string list" where
  "STEP_STATES = [''running'', ''succeeded'', ''failed'', ''cancelled'', ''timed_out'', ''needs_attention'',
     ''skipped'', ''uncertain'']"

definition SAFE_SUMMARY_KEYS :: "string list" where
  "SAFE_SUMMARY_KEYS = [''record_count'', ''reportable_count'', ''excluded_count'', ''artifact_count'',
     ''available_count'', ''failed_count'', ''excluded_artifact_count'', ''attachment_count'', ''inline_count'',
     ''warning_count'', ''validation_error_count'', ''stdout_bytes'', ''stderr_bytes'', ''event_count'', ''exit_code'',
     ''cleanup_verified'', ''composition_revision'', ''file_count'', ''total_bytes'', ''recipient_count'',
     ''attempt_count'', ''smtp_reply_code'', ''queued_count'', ''accepted_count'', ''mime_bytes'']"

definition STEP_EVENT_TYPES :: "string list" where
  "STEP_EVENT_TYPES = [''run_step_started'', ''run_step_finished'']"

definition int64 :: "int \<Rightarrow> bool" where
  "int64 i = (- (2 ^ 63) \<le> i \<and> i < 2 ^ 63)"

definition safe_counter :: "string \<times> json \<Rightarrow> bool" where
  "safe_counter p = (case p of (k, v) \<Rightarrow> (case as_int v of None \<Rightarrow> False | Some i \<Rightarrow>
     int64 i \<and> (k = ''exit_code'' \<or> 0 \<le> i) \<and> (k = ''cleanup_verified'' \<longrightarrow> i = 0 \<or> i = 1)))"

definition safe_summary :: "json \<Rightarrow> dict res" where
  "safe_summary v = (case v of
     JDict d \<Rightarrow>
       if \<not> keys_within d SAFE_SUMMARY_KEYS then Inl (ValidationError ''summary'')
       else if \<not> list_all safe_counter d then Inl (ValidationError ''summary counters'')
       else Inr d
   | _ \<Rightarrow> Inl (ValidationError ''summary''))"

definition STEP_FIELDS :: "string list" where
  "STEP_FIELDS = [''schema_version'', ''step_id'', ''phase'', ''label'', ''state'', ''started_at'', ''finished_at'',
     ''duration_ms'', ''attempt'', ''summary'']"

definition step_id_char :: "char \<Rightarrow> bool" where
  "step_id_char c = (c \<in> set ''abcdefghijklmnopqrstuvwxyzABCDEFGHIJKLMNOPQRSTUVWXYZ0123456789_-'')"

text \<open>\<open>parsed.tzinfo is not None and its offset is zero\<close>, any failure being the same error.\<close>

definition utc_text :: "json \<Rightarrow> bool" where
  "utc_text v = (case v of
     JStr s \<Rightarrow> (case fromiso (replace_z s) of Some (Aware t off) \<Rightarrow> off = 0 | _ \<Rightarrow> False)
   | _ \<Rightarrow> False)"

definition step_shape :: "string \<Rightarrow> dict \<Rightarrow> bool" where
  "step_shape ty d = (ty \<in> set STEP_EVENT_TYPES \<and> same_keys d STEP_FIELDS
     \<and> dget d ''schema_version'' = JInt 1
     \<and> str_in (dget d ''phase'') STEP_PHASES \<and> pyeq (dget d ''label'') (dget d ''phase'')
     \<and> str_in (dget d ''state'') STEP_STATES
     \<and> (case as_int (dget d ''attempt'') of None \<Rightarrow> False | Some i \<Rightarrow> 1 \<le> i)
     \<and> (case as_str (dget d ''step_id'') of None \<Rightarrow> False
        | Some s \<Rightarrow> 1 \<le> length s \<and> length s \<le> 255 \<and> list_all step_id_char s))"

definition is_smtp_step :: "dict \<Rightarrow> bool" where
  "is_smtp_step d = (dget d ''phase'' = JStr ''smtp'')"

definition validate_step_event :: "string \<Rightarrow> json \<Rightarrow> dict res" where
  "validate_step_event ty v = (case v of JDict d \<Rightarrow>
     if \<not> step_shape ty d then Inl (ValidationError ''step contract'')
     else let missing_start = is_smtp_step d \<and> ty = ''run_step_finished''
                \<and> dget d ''started_at'' = JNull \<and> dget d ''duration_ms'' = JNull;
              unknown_duration = is_smtp_step d \<and> dget d ''duration_ms'' = JNull
       in if \<not> (dget d ''started_at'' = JNull \<and> missing_start \<or> utc_text (dget d ''started_at''))
            then Inl (ValidationError ''step timestamp'')
          else if \<not> (dget d ''finished_at'' = JNull \<or> utc_text (dget d ''finished_at''))
            then Inl (ValidationError ''step timestamp'')
          else if ty = ''run_step_started'' \<and> (dget d ''state'' \<noteq> JStr ''running''
                \<or> dget d ''finished_at'' \<noteq> JNull \<or> dget d ''duration_ms'' \<noteq> JNull)
            then Inl (ValidationError ''started step claims completion'')
          else if ty \<noteq> ''run_step_started'' \<and> (dget d ''state'' = JStr ''running''
                \<or> dget d ''finished_at'' = JNull
                \<or> (\<not> unknown_duration \<and> \<not> int_between (dget d ''duration_ms'') 0 (2 ^ 63 - 1)))
            then Inl (ValidationError ''completed step'')
          else and_then (safe_summary (dget d ''summary'')) (\<lambda>_. Inr d)
   | _ \<Rightarrow> Inl (ValidationError ''step contract''))"

section \<open>Appending step events\<close>

definition is_step_event :: "string \<Rightarrow> audit_row \<Rightarrow> bool" where
  "is_step_event run v = (ev_entity v = ''run'' \<and> ev_key v = run \<and> ev_type v \<in> set STEP_EVENT_TYPES)"

definition run_steps :: "string \<Rightarrow> db \<Rightarrow> audit_row list" where
  "run_steps run d = sort_key ev_id (filter (is_step_event run) (db_audit d))"

text \<open>The dictionaries \<open>started\<close> and \<open>finished\<close> of the step identifiers seen so far.\<close>

type_synonym seen = "(json \<times> dict) list \<times> json list"

fun replay :: "audit_row list \<Rightarrow> seen \<Rightarrow> seen res" where
  "replay [] s = Inr s"
| "replay (v # vs) (started, finished) =
     and_then (dsub (ev_details v) ''step_id'') (\<lambda>i.
       if ev_type v = ''run_step_started'' then replay vs ((i, ev_details v) # started, finished)
       else replay vs (started, i # finished))"

definition same_step :: "dict \<Rightarrow> dict \<Rightarrow> bool" where
  "same_step a b = list_all (\<lambda>k. pyeq (dget a k) (dget b k)) [''attempt'', ''phase'', ''label'', ''started_at'']"

definition track :: "string \<Rightarrow> dict \<Rightarrow> seen \<Rightarrow> seen res" where
  "track ty v s = (case s of (started, finished) \<Rightarrow>
     let i = dget v ''step_id'' in
     if ty = ''run_step_started'' then
       if map_of started i \<noteq> None \<or> i \<in> set finished then Inl (ConcurrencyError ''step already started'')
       else Inr ((i, v) # started, finished)
     else (case map_of started i of
         None \<Rightarrow> Inl (ConcurrencyError ''step completion unmatched'')
       | Some original \<Rightarrow>
           if original = [] \<or> i \<in> set finished \<or> \<not> same_step original v
           then Inl (ConcurrencyError ''step completion unmatched'')
           else Inr (started, i # finished)))"

definition step_instant :: "string \<Rightarrow> dict \<Rightarrow> string" where
  "step_instant ty v = default [] (as_str (dget v
     (if ty = ''run_step_started'' then ''started_at'' else ''finished_at'')))"

fun append_events :: "env \<Rightarrow> string \<Rightarrow> (string \<times> dict) list \<Rightarrow> seen \<Rightarrow> db \<Rightarrow> db res" where
  "append_events e run [] s d = Inr d"
| "append_events e run ((ty, v) # evs) s d = and_then (track ty v s) (\<lambda>s'.
     append_events e run evs s' (audit e ''run'' run ty v ''run-worker'' (step_instant ty v) d))"

text \<open>The run joined with its lease and claim under one fencing token, and its controls.\<close>

definition owner_row :: "string \<Rightarrow> string \<Rightarrow> db \<Rightarrow> (run_row \<times> lease_row \<times> control_row option) option" where
  "owner_row run token d =
    (case sel1 (\<lambda>r. run_id r = run) (db_runs d) of None \<Rightarrow> None | Some r \<Rightarrow>
     (case sel1 (\<lambda>l. lease_run l = run \<and> lease_token l = token) (db_leases d) of None \<Rightarrow> None | Some l \<Rightarrow>
       if some_row (\<lambda>c. claim_run c = run \<and> claim_token c = token) (db_claims d)
       then Some (r, l, sel1 (\<lambda>k. ctl_run k = run) (db_controls d)) else None))"

definition cancel_requested :: "control_row option \<Rightarrow> bool" where
  "cancel_requested k = (case k of None \<Rightarrow> False | Some c \<Rightarrow> ctl_cancel c)"

fun validate_events :: "int \<Rightarrow> (string \<times> json) list \<Rightarrow> (string \<times> dict) list res" where
  "validate_events attempt [] = Inr []"
| "validate_events attempt ((ty, v) # evs) = and_then (validate_step_event ty v) (\<lambda>d.
     if dget d ''attempt'' \<noteq> JInt attempt then Inl (ValidationError ''step attempt'')
     else and_then (validate_events attempt evs) (\<lambda>ds. Inr ((ty, d) # ds)))"

definition set_coarse_phase :: "int \<Rightarrow> string \<Rightarrow> run_phase option \<Rightarrow> db \<Rightarrow> db" where
  "set_coarse_phase t run ph d = (case ph of None \<Rightarrow> d | Some p \<Rightarrow>
     d\<lparr>db_runs := upd (\<lambda>r. run_id r = run \<and> run_status r = Running)
        (\<lambda>r. r\<lparr>run_phase := p, run_progress := Some t\<rparr>) (db_runs d)\<rparr>)"

definition append_run_step_events :: "env \<Rightarrow> string \<Rightarrow> string \<Rightarrow> int \<Rightarrow> (string \<times> json) list \<Rightarrow>
    run_phase option \<Rightarrow> bool \<Rightarrow> bool \<Rightarrow> db \<Rightarrow> (unit \<times> db) res" where
  "append_run_step_events e run token attempt events coarse allow_cancel allow_terminal d =
    (if length events < 1 \<or> 2 < length events then Inl (ValidationError ''step transition'')
     else and_then (validate_events attempt events) (\<lambda>evs.
       if coarse = Some PhQueued then Inl (ValidationError ''coarse phase'')
       else (case owner_row run token d of
           None \<Rightarrow> Inl (ConcurrencyError ''step write ownership'')
         | Some (r, l, k) \<Rightarrow>
             if lease_expires l \<le> now e \<or> run_attempt r \<noteq> attempt
                \<or> (run_status r \<noteq> Running \<and> \<not> allow_terminal)
             then Inl (ConcurrencyError ''step write ownership'')
             else if cancel_requested k \<and> \<not> allow_cancel then Inl (ConcurrencyError ''cancelled'')
             else let previous = take 2001 (run_steps run d) in
               if 2000 < length previous + length evs then Inl (ValidationError ''step budget'')
               else and_then (replay previous ([], [])) (\<lambda>s.
                 and_then (append_events e run evs s d) (\<lambda>d'.
                   Inr ((), set_coarse_phase (now e) run coarse d'))))))"

section \<open>Reading the timeline\<close>

record snapshot =
  snap_steps :: "audit_row list"
  snap_step_total :: nat
  snap_audit :: "audit_row list"
  snap_audit_total :: nat
  snap_revision :: int

definition get_run_event_snapshot :: "string \<Rightarrow> int \<Rightarrow> int \<Rightarrow> db \<Rightarrow> snapshot res" where
  "get_run_event_snapshot run step_limit audit_limit d =
    (if step_limit < 0 \<or> 2000 < step_limit \<or> audit_limit < 0 \<or> 500 < audit_limit
     then Inl (ValidationError ''event query limit'')
     else let mine = filter (\<lambda>v. ev_entity v = ''run'' \<and> ev_key v = run) (db_audit d);
              steps = filter (\<lambda>v. ev_type v \<in> set STEP_EVENT_TYPES) mine;
              others = filter (\<lambda>v. ev_type v \<notin> set STEP_EVENT_TYPES) mine
       in Inr \<lparr>snap_steps = take (nat step_limit) (sort_key ev_id steps),
               snap_step_total = length steps,
               snap_audit = take (nat audit_limit) (rev (sort_key ev_id others)),
               snap_audit_total = length mine - length steps,
               snap_revision = (if mine = [] then 0 else Max (set (map ev_id mine)))\<rparr>)"

section \<open>The controller's timeline\<close>

record timeline =
  tl_run :: string
  tl_attempt :: int
  tl_token :: string
  tl_active :: "dict option"
  tl_started_ns :: int
  tl_summary :: dict

definition new_timeline :: "string \<Rightarrow> int \<Rightarrow> string \<Rightarrow> timeline" where
  "new_timeline run attempt token = \<lparr>tl_run = run, tl_attempt = attempt, tl_token = token, tl_active = None,
     tl_started_ns = 0, tl_summary = []\<rparr>"

definition summarize :: "dict \<Rightarrow> timeline \<Rightarrow> timeline res" where
  "summarize values tm = (if tl_active tm = None then Inr tm
     else and_then (safe_summary (JDict values)) (\<lambda>s. Inr (tm\<lparr>tl_summary := dmerge (tl_summary tm) s\<rparr>)))"

text \<open>\<open>ns\<close> is the reading of the monotonic clock, \<open>hex\<close> the random part of a step identifier.\<close>

definition completion :: "env \<Rightarrow> int \<Rightarrow> string \<Rightarrow> dict \<Rightarrow> dict \<Rightarrow> timeline \<Rightarrow> dict res" where
  "completion e ns state summary active tm = and_then (safe_summary (JDict summary)) (\<lambda>s.
     Inr (dmerge active [(''state'', JStr state), (''finished_at'', JStr (isoformat (now e))),
       (''duration_ms'', JInt (max 0 ((ns - tl_started_ns tm) div 1000000))),
       (''summary'', JDict (dmerge (tl_summary tm) s))]))"

definition start_details :: "env \<Rightarrow> string \<Rightarrow> string \<Rightarrow> timeline \<Rightarrow> dict" where
  "start_details e hex phase tm = [(''schema_version'', JInt 1),
     (''step_id'', JStr (''a'' @ int_text (tl_attempt tm) @ ''-'' @ phase @ ''-'' @ hex)),
     (''phase'', JStr phase), (''label'', JStr phase), (''state'', JStr ''running''),
     (''started_at'', JStr (isoformat (now e))), (''finished_at'', JNull), (''duration_ms'', JNull),
     (''attempt'', JInt (tl_attempt tm)), (''summary'', JDict [])]"

definition transition :: "env \<Rightarrow> int \<Rightarrow> string \<Rightarrow> string \<Rightarrow> run_phase option \<Rightarrow> dict \<Rightarrow> bool \<Rightarrow> timeline \<Rightarrow> db \<Rightarrow>
    (timeline \<times> db) res" where
  "transition e ns hex phase coarse summary allow_cancel tm d =
    and_then (case tl_active tm of None \<Rightarrow> Inr []
        | Some a \<Rightarrow> and_then (completion e ns ''succeeded'' summary a tm) (\<lambda>c. Inr [(''run_step_finished'', JDict c)]))
      (\<lambda>done. let v = start_details e hex phase tm in
        and_then (append_run_step_events e (tl_run tm) (tl_token tm) (tl_attempt tm)
            (done @ [(''run_step_started'', JDict v)]) coarse allow_cancel False d)
          (\<lambda>(_, d'). Inr (tm\<lparr>tl_active := Some v, tl_started_ns := ns, tl_summary := []\<rparr>, d')))"

definition acknowledge_finished :: "timeline \<Rightarrow> timeline" where
  "acknowledge_finished tm = tm\<lparr>tl_active := None, tl_started_ns := 0, tl_summary := []\<rparr>"

definition finish_step :: "env \<Rightarrow> int \<Rightarrow> string \<Rightarrow> dict \<Rightarrow> bool \<Rightarrow> bool \<Rightarrow> timeline \<Rightarrow> db \<Rightarrow> ((dict option \<times> timeline) \<times> db) res" where
  "finish_step e ns state summary own_txn allow_terminal tm d = (case tl_active tm of
     None \<Rightarrow> Inr ((None, tm), d)
   | Some a \<Rightarrow> and_then (completion e ns state summary a tm) (\<lambda>c.
       and_then (append_run_step_events e (tl_run tm) (tl_token tm) (tl_attempt tm)
           [(''run_step_finished'', JDict c)] None True allow_terminal d)
         (\<lambda>(_, d'). Inr ((Some c, if own_txn then acknowledge_finished tm else tm), d'))))"


section \<open>A run's timeline is bracketed\<close>

definition step_of :: "audit_row \<Rightarrow> json" where
  "step_of v = dget (ev_details v) ''step_id''"

definition is_start :: "audit_row \<Rightarrow> bool" where
  "is_start v = (ev_type v = ''run_step_started'')"

inductive bracketed :: "audit_row list \<Rightarrow> bool" where
  empty: "bracketed []"
| start: "bracketed xs \<Longrightarrow> is_start v \<Longrightarrow> (\<And>x. x \<in> set xs \<Longrightarrow> step_of x \<noteq> step_of v) \<Longrightarrow> bracketed (xs @ [v])"
| finish: "bracketed xs \<Longrightarrow> \<not> is_start v \<Longrightarrow> s \<in> set xs \<Longrightarrow> is_start s \<Longrightarrow> step_of s = step_of v \<Longrightarrow>
    same_step (ev_details s) (ev_details v) \<Longrightarrow>
    (\<And>x. x \<in> set xs \<Longrightarrow> \<not> is_start x \<Longrightarrow> step_of x \<noteq> step_of v) \<Longrightarrow> bracketed (xs @ [v])"

text \<open>What \<open>replay\<close> has collected of a list of events.\<close>

definition collected :: "audit_row list \<Rightarrow> seen \<Rightarrow> bool" where
  "collected vs s = (case s of (started, finished) \<Rightarrow>
     (\<forall>i v. map_of started i = Some v \<longrightarrow> (\<exists>x \<in> set vs. is_start x \<and> ev_details x = v \<and> step_of x = i))
     \<and> (\<forall>x \<in> set vs. is_start x \<longrightarrow> map_of started (step_of x) \<noteq> None)
     \<and> set finished = step_of ` {x \<in> set vs. \<not> is_start x})"

lemma collected_start:
  "collected vs (st, fi) \<Longrightarrow> is_start v \<Longrightarrow> collected (vs @ [v]) ((step_of v, ev_details v) # st, fi)"
  by (auto simp: collected_def)

lemma collected_finish:
  "collected vs (st, fi) \<Longrightarrow> \<not> is_start v \<Longrightarrow> collected (vs @ [v]) (st, step_of v # fi)"
  by (auto simp: collected_def)

lemma replay_collected:
  "replay vs s = Inr s' \<Longrightarrow> collected us s \<Longrightarrow> collected (us @ vs) s'"
proof (induction vs s arbitrary: us rule: replay.induct)
  case (1 s)
  then show ?case by simp
next
  case (2 v vs st fi)
  from "2.prems"(1) obtain i where i: "dsub (ev_details v) ''step_id'' = Inr i"
    by (auto simp: and_then_Inr)
  then have sv: "step_of v = i"
    by (auto simp: dsub_def step_of_def dget_def split: option.splits)
  show ?case
  proof (cases "is_start v")
    case True
    with "2.prems" i have "replay vs ((i, ev_details v) # st, fi) = Inr s'" by (simp add: is_start_def)
    with "2.IH"(1) [of i "us @ [v]"] True collected_start [OF "2.prems"(2) True] sv
    show ?thesis by (simp add: is_start_def)
  next
    case False
    with "2.prems" i have "replay vs (st, i # fi) = Inr s'" by (simp add: is_start_def)
    with "2.IH"(2) [of i "us @ [v]"] False collected_finish [OF "2.prems"(2) False] sv
    show ?thesis by (simp add: is_start_def)
  qed
qed

lemma collected_seen:
  assumes "collected vs (st, fi)" "x \<in> set vs"
  shows "is_start x \<Longrightarrow> map_of st (step_of x) \<noteq> None" "\<not> is_start x \<Longrightarrow> step_of x \<in> set fi"
  using assms by (simp_all add: collected_def)

lemma track_start:
  assumes "track (ev_type v) (ev_details v) (st, fi) = Inr s'" "is_start v"
  shows "map_of st (step_of v) = None \<and> step_of v \<notin> set fi \<and> s' = ((step_of v, ev_details v) # st, fi)"
  using assms by (simp add: track_def Let_def is_start_def step_of_def split: if_splits)

lemma track_finish:
  assumes "track (ev_type v) (ev_details v) (st, fi) = Inr s'" "\<not> is_start v"
  shows "\<exists>a. map_of st (step_of v) = Some a \<and> step_of v \<notin> set fi \<and> same_step a (ev_details v)
    \<and> s' = (st, step_of v # fi)"
  using assms by (simp add: track_def Let_def is_start_def step_of_def split: if_splits option.splits)

lemma track_bracketed:
  assumes "collected vs s" "bracketed vs" "track (ev_type v) (ev_details v) s = Inr s'"
  shows "bracketed (vs @ [v]) \<and> collected (vs @ [v]) s'"
proof (cases s)
  case (Pair st fi)
  note c = assms(1) [unfolded Pair] and t = assms(3) [unfolded Pair]
  show ?thesis
  proof (cases "is_start v")
    case True
    from track_start [OF t True] have n: "map_of st (step_of v) = None" "step_of v \<notin> set fi"
      and s': "s' = ((step_of v, ev_details v) # st, fi)" by auto
    have "step_of x \<noteq> step_of v" if "x \<in> set vs" for x
      using collected_seen [OF c that] n by metis
    from bracketed.start [OF assms(2) True this] collected_start [OF c True] s' show ?thesis by blast
  next
    case False
    from track_finish [OF t False] obtain a where m: "map_of st (step_of v) = Some a"
      and nf: "step_of v \<notin> set fi" and ss: "same_step a (ev_details v)" and s': "s' = (st, step_of v # fi)"
      by auto
    from c m obtain x where x: "x \<in> set vs" "is_start x" "ev_details x = a" "step_of x = step_of v"
      unfolding collected_def by blast
    have "step_of y \<noteq> step_of v" if "y \<in> set vs" "\<not> is_start y" for y
      using collected_seen(2) [OF c that] nf by metis
    from bracketed.finish [OF assms(2) False x(1,2,4) _ this] x(3) ss collected_finish [OF c False] s'
    show ?thesis by blast
  qed
qed

text \<open>One audit write extends the timeline of its run and leaves every other one.\<close>

definition next_event :: "env \<Rightarrow> string \<Rightarrow> string \<Rightarrow> dict \<Rightarrow> db \<Rightarrow> audit_row" where
  "next_event e run ty v d = \<lparr>ev_id = db_audit_seq d + 1, ev_entity = ''run'', ev_key = run, ev_type = ty,
     ev_details = v, ev_actor = ''run-worker'', ev_at = step_instant ty v\<rparr>"

lemma run_steps_audit:
  assumes "audit_ok d" "ty \<in> set STEP_EVENT_TYPES"
  shows "run_steps r (audit e ''run'' run ty v ''run-worker'' (step_instant ty v) d) =
    (if r = run then run_steps r d @ [next_event e run ty v d] else run_steps r d)"
proof -
  have "\<forall>y \<in> set (filter (is_step_event run) (db_audit d)). ev_id y \<le> ev_id (next_event e run ty v d)"
    using assms(1) by (fastforce simp: audit_ok_def next_event_def list_all_iff)
  note sort_key_snoc [OF this]
  moreover have "db_audit (audit e ''run'' run ty v ''run-worker'' (step_instant ty v) d)
      = db_audit d @ [next_event e run ty v d]"
    by (simp add: audit_def next_event_def)
  moreover have "is_step_event r (next_event e run ty v d) \<longleftrightarrow> r = run"
    using assms(2) by (auto simp: is_step_event_def next_event_def)
  ultimately show ?thesis by (simp add: run_steps_def)
qed

lemma append_events_bracketed:
  assumes "append_events e run evs s d = Inr d'" "audit_ok d" "\<forall>(t, v) \<in> set evs. t \<in> set STEP_EVENT_TYPES"
    and "bracketed (run_steps run d)" "collected (run_steps run d) s"
  shows "audit_ok d' \<and> bracketed (run_steps run d') \<and>
    (\<exists>new. run_steps run d' = run_steps run d @ new \<and> map (\<lambda>v. (ev_type v, ev_details v)) new = evs) \<and>
    (\<forall>r. r \<noteq> run \<longrightarrow> run_steps r d' = run_steps r d)"
  using assms
proof (induction e run evs s d rule: append_events.induct)
  case (1 e run s d)
  then show ?case by auto
next
  case (2 e run ty v evs s d)
  let ?d = "audit e ''run'' run ty v ''run-worker'' (step_instant ty v) d"
  let ?v = "next_event e run ty v d"
  from "2.prems"(1) obtain s' where s': "track ty v s = Inr s'" "append_events e run evs s' ?d = Inr d'"
    by (auto simp: and_then_Inr)
  from "2.prems"(3) have ty: "ty \<in> set STEP_EVENT_TYPES" by auto
  note rs = run_steps_audit [OF "2.prems"(2) ty, of _ e run v]
  from track_bracketed [OF "2.prems"(5,4), of ?v s'] s'(1)
  have b: "bracketed (run_steps run ?d)" "collected (run_steps run ?d) s'"
    by (auto simp: rs next_event_def)
  from "2.IH" [OF s'(2) audit_ok_audit [OF "2.prems"(2)] _ b] "2.prems"(3)
  obtain new where ih: "audit_ok d'" "bracketed (run_steps run d')" "run_steps run d' = run_steps run ?d @ new"
    "map (\<lambda>v. (ev_type v, ev_details v)) new = evs" "\<forall>r. r \<noteq> run \<longrightarrow> run_steps r d' = run_steps r ?d"
    by auto
  have "run_steps run d' = run_steps run d @ (?v # new)" using ih(3) by (simp add: rs)
  moreover have "map (\<lambda>v. (ev_type v, ev_details v)) (?v # new) = (ty, v) # evs"
    using ih(4) by (simp add: next_event_def)
  ultimately show ?case using ih by (auto simp: rs)
qed

lemma run_steps_coarse [simp]: "run_steps r (set_coarse_phase t run ph d) = run_steps r d"
  by (simp add: run_steps_def set_coarse_phase_def split: option.splits)

lemma audit_ok_coarse [simp]: "audit_ok (set_coarse_phase t run ph d) = audit_ok d"
  by (simp add: audit_ok_def set_coarse_phase_def split: option.splits)

lemma validate_step_event_type: "validate_step_event ty v = Inr d \<Longrightarrow> ty \<in> set STEP_EVENT_TYPES \<and> v = JDict d"
  by (cases v) (auto simp: validate_step_event_def step_shape_def Let_def and_then_Inr split: if_splits)

lemma validate_events_types:
  "validate_events a evs = Inr ds \<Longrightarrow>
    (\<forall>(t, v) \<in> set ds. t \<in> set STEP_EVENT_TYPES) \<and> map (\<lambda>(t, v). (t, JDict v)) ds = evs"
proof (induction a evs arbitrary: ds rule: validate_events.induct)
  case (2 a ty v evs)
  from "2.prems" obtain d ds' where "validate_step_event ty v = Inr d" "dget d ''attempt'' = JInt a"
    "validate_events a evs = Inr ds'" "ds = (ty, d) # ds'"
    by (auto simp: and_then_Inr split: if_splits)
  with "2.IH" [of d ds'] validate_step_event_type [of ty v d] show ?case by auto
qed simp

lemma append_step_events_cases:
  assumes "append_run_step_events e run token attempt events coarse ac at d = Inr (u, d')"
  obtains evs r l k s d1 where
    "validate_events attempt events = Inr evs" "owner_row run token d = Some (r, l, k)"
    "now e < lease_expires l" "run_attempt r = attempt" "run_status r = Running \<or> at"
    "\<not> cancel_requested k \<or> ac" "length (run_steps run d) + length evs \<le> 2000"
    "replay (run_steps run d) ([], []) = Inr s" "append_events e run evs s d = Inr d1"
    "d' = set_coarse_phase (now e) run coarse d1"
proof -
  from assms obtain evs r l k s d1 where h:
    "validate_events attempt events = Inr evs" "owner_row run token d = Some (r, l, k)"
    "now e < lease_expires l" "run_attempt r = attempt" "run_status r = Running \<or> at"
    "\<not> cancel_requested k \<or> ac" "length (take 2001 (run_steps run d)) + length evs \<le> 2000"
    "replay (take 2001 (run_steps run d)) ([], []) = Inr s" "append_events e run evs s d = Inr d1"
    "d' = set_coarse_phase (now e) run coarse d1"
    by (auto simp: append_run_step_events_def and_then_Inr Let_def split: if_splits option.splits prod.splits)
  from h(7) have "length (run_steps run d) \<le> 2001" by auto
  then have "take 2001 (run_steps run d) = run_steps run d" by simp
  with h that show thesis by simp
qed

text \<open>C1: when \<open>append_run_step_events\<close> succeeds on a run whose log is bracketed (every
  completion matches exactly one earlier start with the same attempt, phase, label and start
  time, no step starts or ends twice), the log stays bracketed, holds at most 2000 step events, is
  the old log followed by exactly the given events, and no other run's log changes.\<close>

theorem append_step_events_bracketed:
  assumes "append_run_step_events e run token attempt events coarse ac at d = Inr (u, d')"
    and "audit_ok d" "bracketed (run_steps run d)"
  shows "audit_ok d' \<and> bracketed (run_steps run d') \<and> length (run_steps run d') \<le> 2000 \<and>
    (\<exists>new. run_steps run d' = run_steps run d @ new \<and>
       map (\<lambda>v. (ev_type v, JDict (ev_details v))) new = events) \<and>
    (\<forall>r. r \<noteq> run \<longrightarrow> run_steps r d' = run_steps r d)"
proof -
  from assms(1) obtain evs r l k s d1 where h:
    "validate_events attempt events = Inr evs" "length (run_steps run d) + length evs \<le> 2000"
    "replay (run_steps run d) ([], []) = Inr s" "append_events e run evs s d = Inr d1"
    "d' = set_coarse_phase (now e) run coarse d1"
    by (rule append_step_events_cases)
  have "collected ([] @ run_steps run d) s" by (rule replay_collected [OF h(3)]) (simp add: collected_def)
  then have "collected (run_steps run d) s" by simp
  from append_events_bracketed [OF h(4) assms(2) _ assms(3) this] validate_events_types [OF h(1)]
  obtain new where n: "audit_ok d1" "bracketed (run_steps run d1)" "run_steps run d1 = run_steps run d @ new"
    "map (\<lambda>v. (ev_type v, ev_details v)) new = evs" "\<forall>r. r \<noteq> run \<longrightarrow> run_steps r d1 = run_steps r d"
    by auto
  have "map (\<lambda>v. (ev_type v, JDict (ev_details v))) new = events"
    using validate_events_types [OF h(1)] n(4) by (auto simp: comp_def)
  moreover have "length new = length evs" using n(4) by (metis length_map)
  ultimately show ?thesis using n h(2,5) by auto
qed

definition sample_event :: json where
  "sample_event = JDict (start_details sample_env ''abc'' ''research'' (new_timeline ''r1'' 1 ''f''))"

theorem append_step_events_bracketed_witness:
  "\<exists>d'. append_run_step_events sample_env ''r1'' ''f'' 1 [(''run_step_started'', sample_event)]
      (Some PhResearch) False False sample_db = Inr ((), d')
    \<and> bracketed (run_steps ''r1'' d') \<and> length (run_steps ''r1'' d') \<le> 2000"
proof -
  have "\<not> isl (append_run_step_events sample_env ''r1'' ''f'' 1 [(''run_step_started'', sample_event)]
      (Some PhResearch) False False sample_db)" by code_simp
  then obtain d' where d': "append_run_step_events sample_env ''r1'' ''f'' 1 [(''run_step_started'', sample_event)]
      (Some PhResearch) False False sample_db = Inr ((), d')" by (auto dest: not_isl)
  have "audit_ok sample_db" "run_steps ''r1'' sample_db = []" by code_simp+
  with append_step_events_bracketed [OF d'] d' show ?thesis by (auto intro: bracketed.empty)
qed

end
