(* ===== verification/Catalog.thy ===== *)
theory Catalog imports Store begin

text \<open>
  The entity catalog: identities of Tasks, recipient groups and senders with their owner and
  soft deletion. The resource ownership of \<open>services/ownership.py\<close>, the guards
  \<open>require_catalog_active\<close> and \<open>require_catalog_references\<close> of
  \<open>storage/repositories.py\<close>, and \<open>services/catalog_service.py\<close>. SHA-256 is a parameter;
  the sequences of separate transactions of \<open>bootstrap\<close> keep what was committed before an
  error.
\<close>

section \<open>Reading a definition\<close>

text \<open>\<open>d.get(k) or \{\}\<close> and \<open>d.get(k, \{\})\<close>, used as a dictionary.\<close>

definition dict_or_empty :: "dict \<Rightarrow> string \<Rightarrow> dict res" where
  "dict_or_empty d k = (let v = dget d k in if \<not> truthy v then Inr []
     else case v of JDict x \<Rightarrow> Inr x | _ \<Rightarrow> Inl (AttributeError ''get''))"

definition dict_default :: "dict \<Rightarrow> string \<Rightarrow> dict res" where
  "dict_default d k = (case map_of d k of None \<Rightarrow> Inr []
     | Some (JDict x) \<Rightarrow> Inr x | Some _ \<Rightarrow> Inl (AttributeError ''get''))"

definition get_or :: "dict \<Rightarrow> string \<Rightarrow> json \<Rightarrow> json" where
  "get_or d k v = default v (map_of d k)"

text \<open>\<open>for x in v\<close>\<close>

fun iter_json :: "json \<Rightarrow> json list res" where
  "iter_json (JList xs) = Inr xs"
| "iter_json (JStr s) = Inr (map (\<lambda>c. JStr [c]) s)"
| "iter_json (JDict d) = Inr (map (\<lambda>(k, v). JStr k) d)"
| "iter_json _ = Inl (TypeError ''not iterable'')"

fun substring :: "string \<Rightarrow> string \<Rightarrow> bool" where
  "substring p [] = (p = [])"
| "substring p (c # s) = (take (length p) (c # s) = p \<or> substring p s)"

text \<open>\<open>key in v\<close>\<close>

fun py_in :: "string \<Rightarrow> json \<Rightarrow> bool res" where
  "py_in k (JList xs) = Inr (list_ex (\<lambda>v. v = JStr k) xs)"
| "py_in k (JStr s) = Inr (substring k s)"
| "py_in k (JDict d) = Inr (map_of d k \<noteq> None)"
| "py_in k _ = Inl (TypeError ''in'')"

text \<open>A value bound as the parameter of a comparison with a text column.\<close>

fun bind_text :: "json \<Rightarrow> string option res" where
  "bind_text (JStr s) = Inr (Some s)"
| "bind_text (JInt i) = Inr (Some (int_text i))"
| "bind_text (JBool b) = Inr (Some (if b then ''1'' else ''0''))"
| "bind_text (JFloat t) = Inr (Some t)"
| "bind_text JNull = Inr None"
| "bind_text _ = Inl (TypeError ''unsupported binding'')"

definition is_entity :: "string \<Rightarrow> string \<Rightarrow> catalog_row \<Rightarrow> bool" where
  "is_entity kind key r = (cat_kind r = kind \<and> cat_key r = key)"

definition find_entity :: "string \<Rightarrow> string \<Rightarrow> db \<Rightarrow> catalog_row option" where
  "find_entity kind key d = sel1 (is_entity kind key) (db_catalog d)"

definition find_entity_json :: "string \<Rightarrow> json \<Rightarrow> db \<Rightarrow> catalog_row option res" where
  "find_entity_json kind v d = and_then (bind_text v) (\<lambda>k. Inr (case k of None \<Rightarrow> None | Some key \<Rightarrow> find_entity kind key d))"

section \<open>Ownership\<close>

definition KINDS :: "string list" where "KINDS = [''task'', ''sender'', ''recipient_group'']"

definition installation_owner :: "db \<Rightarrow> string option" where
  "installation_owner d = db_installation d"

definition resolve_creation_owner :: "env \<Rightarrow> db \<Rightarrow> string option res" where
  "resolve_creation_owner e d = (case creator e of
     None \<Rightarrow> Inr (installation_owner d)
   | Some u \<Rightarrow> if u \<in> set (db_user_ids d) then Inr (Some u) else Inl (ValidationError ''owner account''))"

definition adopt_unowned :: "string \<Rightarrow> db \<Rightarrow> (string option \<times> db) res" where
  "adopt_unowned user d =
    (if db_installation d = None \<and> user \<notin> set (db_user_ids d) then Inl (IntegrityError ''auth_installation'')
     else let owner = (case db_installation d of None \<Rightarrow> Some user | Some u \<Rightarrow> Some u)
       in Inr (owner, d\<lparr>db_installation := owner,
            db_catalog := upd (\<lambda>r. cat_owner r = None) (\<lambda>r. r\<lparr>cat_owner := owner\<rparr>) (db_catalog d)\<rparr>))"

definition entity_owner :: "string \<Rightarrow> json \<Rightarrow> db \<Rightarrow> string option res" where
  "entity_owner kind key d = (if kind \<notin> set KINDS then Inl (ValidationError ''resource kind'')
     else and_then (find_entity_json kind key d) (\<lambda>m. case m of
       None \<Rightarrow> Inl (NotFoundError ''resource'') | Some r \<Rightarrow> Inr (cat_owner r)))"

definition scoped_request_key :: "(string \<Rightarrow> string) \<Rightarrow> string option \<Rightarrow> string option \<Rightarrow> string option" where
  "scoped_request_key sha owner key = (case (owner, key) of
     (Some u, Some k) \<Rightarrow> Some (''owner:'' @ sha (u @ CHR 0x00 # k)) | _ \<Rightarrow> key)"

text \<open>The recipient mapping of the configuration, restricted to the groups of one owner.\<close>

definition scoped_delivery_config :: "(string \<times> 'v) list \<Rightarrow> string option \<Rightarrow> db \<Rightarrow> (string \<times> 'v) list" where
  "scoped_delivery_config groups owner d = filter (\<lambda>(k, v).
     (case find_entity ''recipient_group'' k d of None \<Rightarrow> installation_owner d | Some r \<Rightarrow> cat_owner r) = owner) groups"

definition task_references :: "dict \<Rightarrow> (string \<times> json) list res" where
  "task_references def = and_then (dict_or_empty def ''delivery'') (\<lambda>delivery.
     and_then (iter_json (get_or delivery ''allowed_recipient_group_ids'' (JList []))) (\<lambda>groups.
     and_then (dict_or_empty def ''alerting'') (\<lambda>alerts.
       Inr ((''sender'', get_or delivery ''sender_profile_id'' (JStr ''default''))
         # map (\<lambda>g. (''recipient_group'', g)) groups
         @ (if truthy (dget alerts ''events'')
            then [(''recipient_group'', get_or alerts ''recipient_group_id'' (JStr ''researchops-admins''))] else [])))))"

definition check_reference :: "string option \<Rightarrow> db \<Rightarrow> string \<times> json \<Rightarrow> unit res" where
  "check_reference owner d p = (case entity_owner (fst p) (snd p) d of
     Inl (NotFoundError m) \<Rightarrow> if owner = None \<and> installation_owner d = None then Inr ()
       else Inl (ValidationError ''task owner reference'')
   | Inl er \<Rightarrow> Inl er
   | Inr u \<Rightarrow> check (u = owner) (ValidationError ''task owner reference''))"

definition task_owner :: "env \<Rightarrow> dict \<Rightarrow> db \<Rightarrow> string option res" where
  "task_owner e def d = and_then (dsub def ''id'') (\<lambda>key. case entity_owner ''task'' key d of
     Inl (NotFoundError m) \<Rightarrow> resolve_creation_owner e d | r \<Rightarrow> r)"

definition require_task_delivery_ownership :: "env \<Rightarrow> dict \<Rightarrow> db \<Rightarrow> string option res" where
  "require_task_delivery_ownership e def d = and_then (task_owner e def d) (\<lambda>owner.
     and_then (task_references def) (\<lambda>refs.
     and_then (each (check_reference owner d) refs) (\<lambda>_. Inr owner)))"

section \<open>Guards of the repositories\<close>

definition require_catalog_active :: "string \<Rightarrow> json \<Rightarrow> db \<Rightarrow> unit res" where
  "require_catalog_active kind key d = and_then (find_entity_json kind key d) (\<lambda>m. case m of
     None \<Rightarrow> Inr () | Some r \<Rightarrow> check (cat_deleted r = None) (ValidationError ''item deleted''))"

definition require_catalog_references :: "env \<Rightarrow> dict \<Rightarrow> db \<Rightarrow> unit res" where
  "require_catalog_references e def d =
     and_then (require_task_delivery_ownership e def d) (\<lambda>_.
     and_then (dict_default def ''delivery'') (\<lambda>delivery.
     and_then (require_catalog_active ''sender'' (get_or delivery ''sender_profile_id'' (JStr ''default'')) d) (\<lambda>_.
     and_then (iter_json (get_or delivery ''allowed_recipient_group_ids'' (JList []))) (\<lambda>groups.
       each (\<lambda>g. require_catalog_active ''recipient_group'' g d) groups))))"

text \<open>\<open>INSERT INTO entity_catalog\<close> without a key: SQLite allocates the next one.\<close>

definition insert_entity :: "string \<Rightarrow> string \<Rightarrow> string \<Rightarrow> int \<Rightarrow> string option \<Rightarrow> db \<Rightarrow> db" where
  "insert_entity kind key name at owner d =
     d\<lparr>db_catalog := db_catalog d @ [\<lparr>cat_id = db_catalog_seq d + 1, cat_kind = kind, cat_key = key,
          cat_name = name, cat_deleted = None, cat_created = at, cat_updated = at, cat_request = None,
          cat_owner = owner\<rparr>],
       db_catalog_seq := db_catalog_seq d + 1\<rparr>"

definition ensure_task_catalog :: "env \<Rightarrow> string \<Rightarrow> string \<Rightarrow> int \<Rightarrow> db \<Rightarrow> db res" where
  "ensure_task_catalog e task name at d =
     and_then (require_catalog_active ''task'' (JStr task) d) (\<lambda>_.
       if find_entity ''task'' task d \<noteq> None then Inr d
       else and_then (resolve_creation_owner e d) (\<lambda>owner. Inr (insert_entity ''task'' task name at owner d)))"

definition rename_entity :: "string \<Rightarrow> string \<Rightarrow> string \<Rightarrow> int \<Rightarrow> db \<Rightarrow> db" where
  "rename_entity kind key name at d = d\<lparr>db_catalog := upd (is_entity kind key)
     (\<lambda>r. r\<lparr>cat_name := name, cat_updated := at\<rparr>) (db_catalog d)\<rparr>"

definition rename_task_catalog :: "env \<Rightarrow> string \<Rightarrow> string \<Rightarrow> int \<Rightarrow> db \<Rightarrow> db res" where
  "rename_task_catalog e task name at d =
     and_then (ensure_task_catalog e task name at d) (\<lambda>d1. Inr (rename_entity ''task'' task name at d1))"

section \<open>The catalog service\<close>

definition kind_prefix :: "string \<Rightarrow> string option" where
  "kind_prefix kind = map_of [(''task'', ''task''), (''recipient_group'', ''group''), (''sender'', ''sender'')] kind"

definition require_kind :: "string \<Rightarrow> unit res" where
  "require_kind kind = check (kind_prefix kind \<noteq> None) (ValidationError ''catalog kind'')"

definition py_space :: "char \<Rightarrow> bool" where
  "py_space c = (let n = of_char c :: nat in (9 \<le> n \<and> n \<le> 13) \<or> (28 \<le> n \<and> n \<le> 32) \<or> n = 133 \<or> n = 160)"

definition strip :: "string \<Rightarrow> string" where
  "strip s = rev (dropWhile py_space (rev (dropWhile py_space s)))"

definition control_char :: "char \<Rightarrow> bool" where
  "control_char c = ((of_char c :: nat) < 32 \<or> (of_char c :: nat) = 127)"

definition validate_name :: "json \<Rightarrow> string res" where
  "validate_name v = (case v of
     JStr name \<Rightarrow> if strip name = [] \<or> 200 < length (strip name) \<or> list_ex control_char name
       then Inl (ValidationError ''display name'') else Inr (strip name)
   | _ \<Rightarrow> Inl (ValidationError ''display name''))"

definition alnum :: "char \<Rightarrow> bool" where
  "alnum c = (let n = of_char c :: nat in (48 \<le> n \<and> n \<le> 57) \<or> (65 \<le> n \<and> n \<le> 90) \<or> (97 \<le> n \<and> n \<le> 122))"

definition catalog_key :: "string \<Rightarrow> unit res" where
  "catalog_key key = check (key \<noteq> [] \<and> alnum (hd key) \<and> length key \<le> 128
     \<and> list_all (\<lambda>c. alnum c \<or> c = CHR ''_'' \<or> c = CHR ''-'') (List.tl key)) (ValidationError ''catalog key'')"

definition catalog_audit :: "env \<Rightarrow> string \<Rightarrow> string \<Rightarrow> string \<Rightarrow> dict \<Rightarrow> db \<Rightarrow> db" where
  "catalog_audit e kind key action details d = audit e kind key action details default_actor (isoformat (now e)) d"

definition ensure :: "env \<Rightarrow> string \<Rightarrow> string \<Rightarrow> json \<Rightarrow> db \<Rightarrow> (catalog_row \<times> db) res" where
  "ensure e kind key name d =
     and_then (require_kind kind) (\<lambda>_. and_then (catalog_key key) (\<lambda>_.
     and_then (validate_name (if truthy name then name else JStr key)) (\<lambda>display.
       case find_entity kind key d of
         Some r \<Rightarrow> Inr (r, d)
       | None \<Rightarrow> and_then (resolve_creation_owner e d) (\<lambda>owner.
           let d1 = insert_entity kind key display (now e) owner d
           in case find_entity kind key d1 of Some r \<Rightarrow> Inr (r, d1) | None \<Rightarrow> Inl (TypeError ''row'')))))"

definition request_key_ok :: "string \<Rightarrow> bool" where
  "request_key_ok k = (1 \<le> length k \<and> length k \<le> 128
     \<and> list_all (\<lambda>c. alnum c \<or> c \<in> set ''._:-'') k)"

definition generated_key :: "string \<Rightarrow> int \<Rightarrow> string" where
  "generated_key kind n = default [] (kind_prefix kind) @ ''-'' @ int_text n"

text \<open>The loop past the numbers whose generated key is taken; each taken key is a row of the
  table, so one more round than there are rows is enough.\<close>

fun free_number :: "nat \<Rightarrow> string \<Rightarrow> db \<Rightarrow> int \<Rightarrow> int option" where
  "free_number 0 kind d n = None"
| "free_number (Suc f) kind d n =
     (if find_entity kind (generated_key kind n) d = None then Some n else free_number f kind d (n + 1))"

text \<open>The row an earlier request under the same key created for the same owner.\<close>

definition prior_creation :: "string \<Rightarrow> string option \<Rightarrow> string option \<Rightarrow> string option \<Rightarrow> db \<Rightarrow> catalog_row option" where
  "prior_creation kind owner stored request d = (if request = None then None else greatest_by (\<lambda>r. cat_request r = stored)
     (sel (\<lambda>r. cat_kind r = kind \<and> cat_owner r = owner \<and> cat_request r \<in> {stored, request}) (db_catalog d)))"

definition allocate :: "env \<Rightarrow> (string \<Rightarrow> string) \<Rightarrow> string \<Rightarrow> json \<Rightarrow> string option \<Rightarrow> db \<Rightarrow> (catalog_row \<times> db) res" where
  "allocate e sha kind display request d =
     and_then (require_kind kind) (\<lambda>_. and_then (validate_name display) (\<lambda>name.
     and_then (case request of None \<Rightarrow> Inr () | Some k \<Rightarrow> check (request_key_ok k) (ValidationError ''creation request key'')) (\<lambda>_.
     and_then (resolve_creation_owner e d) (\<lambda>owner.
       let stored = scoped_request_key sha owner request;
           prior = prior_creation kind owner stored request d
       in case prior of
         Some r \<Rightarrow> if cat_deleted r \<noteq> None then Inl (ValidationError ''creation request deleted'')
           else if cat_name r \<noteq> name then Inl (ValidationError ''creation request reused'')
           else Inr (r, d)
       | None \<Rightarrow> (case free_number (Suc (length (db_catalog d))) kind d (db_catalog_seq d + 1) of
           None \<Rightarrow> Inl (TypeError ''loop'')
         | Some n \<Rightarrow>
             let key = generated_key kind n;
                 r = \<lparr>cat_id = n, cat_kind = kind, cat_key = key, cat_name = name, cat_deleted = None,
                      cat_created = now e, cat_updated = now e, cat_request = stored, cat_owner = owner\<rparr>
             in if some_row (\<lambda>x. cat_id x = n \<or> is_entity kind key x
                   \<or> (stored \<noteq> None \<and> cat_kind x = kind \<and> cat_request x = stored)) (db_catalog d)
                then Inl (IntegrityError ''entity_catalog'')
                else Inr (r, catalog_audit e kind key ''catalog_created''
                  [(''entity_id'', JInt n), (''owner_user_id'', (case owner of None \<Rightarrow> JNull | Some u \<Rightarrow> JStr u))]
                  (d\<lparr>db_catalog := db_catalog d @ [r], db_catalog_seq := max (db_catalog_seq d) n\<rparr>)))))))"

text \<open>Several transactions in a row: an error keeps what was committed.\<close>

fun in_order :: "('a \<Rightarrow> db \<Rightarrow> ('r \<times> db) res) \<Rightarrow> 'a list \<Rightarrow> db \<Rightarrow> unit res \<times> db" where
  "in_order f [] d = (Inr (), d)"
| "in_order f (x # xs) d = (case f x d of Inl er \<Rightarrow> (Inl er, d) | Inr (r, d') \<Rightarrow> in_order f xs d')"

definition bootstrap_name :: "task_row \<Rightarrow> db \<Rightarrow> json" where
  "bootstrap_name t d = (case task_active t of None \<Rightarrow> JStr (task_id t)
     | Some h \<Rightarrow> (case sel1 (\<lambda>v. ver_hash v = h) (db_versions d) of
         None \<Rightarrow> JStr (task_id t)
       | Some v \<Rightarrow> (case validate_name (let n = dget (ver_definition v) ''name'' in if truthy n then n else JStr (task_id t)) of
           Inl er \<Rightarrow> JStr (task_id t) | Inr s \<Rightarrow> JStr s)))"

text \<open>\<open>bootstrap_delivery\<close> imports the groups and senders of a loaded configuration; the
  configuration that fails to load is None.\<close>

definition bootstrap_delivery :: "env \<Rightarrow> (string list \<times> string list) option \<Rightarrow> db \<Rightarrow> unit res \<times> db" where
  "bootstrap_delivery e config d = (case config of None \<Rightarrow> (Inr (), d)
     | Some (groups, senders) \<Rightarrow> in_order (\<lambda>(kind, key, name). ensure (e\<lparr>creator := None\<rparr>) kind key name)
         (map (\<lambda>g. (''recipient_group'', g, JStr g)) groups
          @ map (\<lambda>s. (''sender'', s, JStr (if s = ''default'' then ''default sender'' else s))) senders) d)"

definition bootstrap :: "env \<Rightarrow> (string list \<times> string list) option \<Rightarrow> db \<Rightarrow> unit res \<times> db" where
  "bootstrap e config d =
     (case in_order (\<lambda>t. ensure (e\<lparr>creator := None\<rparr>) ''task'' (task_id t) (bootstrap_name t d))
         (sort_key task_id (db_tasks d)) d of
        (Inl er, d1) \<Rightarrow> (Inl er, d1)
      | (Inr _, d1) \<Rightarrow> bootstrap_delivery e config d1)"

definition get_entity :: "string \<Rightarrow> string \<Rightarrow> db \<Rightarrow> catalog_row option res" where
  "get_entity kind key d = and_then (require_kind kind) (\<lambda>_. Inr (find_entity kind key d))"

text \<open>The scope is None for all owners, \<open>Some u\<close> for \<open>owner_user_id IS u\<close>.\<close>

definition list_entities :: "string \<Rightarrow> bool \<Rightarrow> string option option \<Rightarrow> db \<Rightarrow> catalog_row list res" where
  "list_entities kind include_deleted scope d = and_then (require_kind kind) (\<lambda>_. Inr (sort_key cat_id
     (sel (\<lambda>r. cat_kind r = kind \<and> (case scope of None \<Rightarrow> True | Some u \<Rightarrow> cat_owner r = u)
        \<and> (include_deleted \<or> cat_deleted r = None)) (db_catalog d))))"

definition entity_names :: "string \<Rightarrow> string option option \<Rightarrow> db \<Rightarrow> (string \<times> string) list res" where
  "entity_names kind scope d = and_then (list_entities kind False scope d)
     (\<lambda>rs. Inr (map (\<lambda>r. (cat_key r, cat_name r)) rs))"

definition require_active :: "string \<Rightarrow> string \<Rightarrow> db \<Rightarrow> catalog_row res" where
  "require_active kind key d = and_then (get_entity kind key d) (\<lambda>m. case m of
     None \<Rightarrow> Inl (ValidationError ''missing or deleted'')
   | Some r \<Rightarrow> if cat_deleted r \<noteq> None then Inl (ValidationError ''missing or deleted'') else Inr r)"

definition require_row :: "string \<Rightarrow> string \<Rightarrow> bool \<Rightarrow> db \<Rightarrow> catalog_row res" where
  "require_row kind key active d = (case find_entity kind key d of
     None \<Rightarrow> Inl (NotFoundError ''catalog item'')
   | Some r \<Rightarrow> if active \<and> cat_deleted r \<noteq> None then Inl (ValidationError ''catalog item deleted'') else Inr r)"

definition rename :: "env \<Rightarrow> string \<Rightarrow> string \<Rightarrow> json \<Rightarrow> db \<Rightarrow> (catalog_row option \<times> db) res" where
  "rename e kind key display d =
     and_then (require_kind kind) (\<lambda>_. and_then (validate_name display) (\<lambda>name.
     and_then (require_row kind key True d) (\<lambda>_.
       let d1 = rename_entity kind key name (now e) d;
           d2 = (if kind = ''task'' then d1\<lparr>db_tasks := upd (\<lambda>t. task_id t = key)
                   (\<lambda>t. t\<lparr>task_updated := now e\<rparr>) (db_tasks d1)\<rparr> else d1);
           d3 = catalog_audit e kind key ''catalog_renamed'' [] d2
       in Inr (find_entity kind key d3, d3))))"

definition references :: "dict \<Rightarrow> string \<Rightarrow> string \<Rightarrow> bool res" where
  "references def kind key = and_then (dict_or_empty def ''delivery'') (\<lambda>delivery.
     if kind = ''sender'' then Inr (get_or delivery ''sender_profile_id'' (JStr ''default'') = JStr key)
     else let groups = dget delivery ''allowed_recipient_group_ids'' in
       and_then (if truthy groups then py_in key groups else Inr False) (\<lambda>b.
         if b then Inr True else and_then (dict_or_empty def ''alerting'') (\<lambda>alerting.
           Inr (truthy (dget alerting ''events'') \<and>
             get_or alerting ''recipient_group_id'' (JStr ''researchops-admins'') = JStr key))))"

definition unused_by_task :: "string \<Rightarrow> string \<Rightarrow> db \<Rightarrow> task_row \<Rightarrow> unit res" where
  "unused_by_task kind key d t = (case task_active t of None \<Rightarrow> Inr () | Some h \<Rightarrow>
     (case sel1 (\<lambda>v. ver_hash v = h) (db_versions d) of None \<Rightarrow> Inr () | Some v \<Rightarrow>
       if (case find_entity ''task'' (task_id t) d of None \<Rightarrow> False | Some r \<Rightarrow> cat_deleted r \<noteq> None) then Inr ()
       else and_then (references (ver_definition v) kind key) (\<lambda>b. check (\<not> b) (ValidationError ''used by task''))))"

definition unused_by_handoff :: "string \<Rightarrow> string \<Rightarrow> db \<Rightarrow> handoff_row \<Rightarrow> unit res" where
  "unused_by_handoff kind key d h =
    (if ho_mode h = ''handoff'' \<and> ho_status h \<in> {''prepared'', ''published'', ''queued'', ''uncertain''} then
       (case sel1 (\<lambda>v. ver_hash v = ho_version h) (db_versions d) of None \<Rightarrow> Inr () | Some v \<Rightarrow>
         if kind = ''recipient_group'' \<and> ho_group h = key then Inl (ValidationError ''used by pending email'')
         else if kind = ''sender'' then and_then (references (ver_definition v) kind key)
           (\<lambda>b. check (\<not> b) (ValidationError ''used by pending email''))
         else Inr ())
     else Inr ())"

definition unused_by_smtp :: "string \<Rightarrow> smtp_row \<Rightarrow> unit res" where
  "unused_by_smtp key a = (if sm_status a \<in> {SQueued, SSending, SUncertain} then
     check (get_or (sm_envelope a) ''sender_profile_id'' (JStr ''default'') \<noteq> JStr key)
       (ValidationError ''pending SMTP attempt'') else Inr ())"

definition assert_unused :: "string \<Rightarrow> string \<Rightarrow> db \<Rightarrow> unit res" where
  "assert_unused kind key d = and_then (each (unused_by_task kind key d) (db_tasks d)) (\<lambda>_.
     and_then (each (unused_by_handoff kind key d) (db_handoffs d)) (\<lambda>_.
       if kind = ''sender'' then each (unused_by_smtp key) (db_smtp d) else Inr ()))"

definition delete_entity :: "env \<Rightarrow> string \<Rightarrow> string \<Rightarrow> db \<Rightarrow> (catalog_row option \<times> db) res" where
  "delete_entity e kind key d = and_then (require_kind kind) (\<lambda>_.
     if kind = ''task'' then Inl (ValidationError ''task lifecycle'')
     else if (kind, key) \<in> {(''sender'', ''default''), (''recipient_group'', ''researchops-admins'')}
       then Inl (ValidationError ''system default'')
     else and_then (require_row kind key False d) (\<lambda>r.
       if cat_deleted r \<noteq> None then Inr (Some r, d)
       else and_then (assert_unused kind key d) (\<lambda>_.
         let d1 = d\<lparr>db_catalog := upd (is_entity kind key)
                (\<lambda>x. x\<lparr>cat_deleted := Some (now e), cat_updated := now e\<rparr>) (db_catalog d)\<rparr>;
             d2 = catalog_audit e kind key ''catalog_deleted'' [(''recoverable'', JBool True)] d1
         in Inr (find_entity kind key d2, d2))))"

definition restore_entity :: "env \<Rightarrow> string \<Rightarrow> string \<Rightarrow> db \<Rightarrow> (catalog_row option \<times> db) res" where
  "restore_entity e kind key d = and_then (require_kind kind) (\<lambda>_.
     if kind = ''task'' then Inl (ValidationError ''task lifecycle'')
     else and_then (require_row kind key False d) (\<lambda>r.
       if cat_deleted r = None then Inr (Some r, d)
       else let d1 = d\<lparr>db_catalog := upd (is_entity kind key)
                (\<lambda>x. x\<lparr>cat_deleted := None, cat_updated := now e\<rparr>) (db_catalog d)\<rparr>;
                d2 = catalog_audit e kind key ''catalog_restored'' [] d1
            in Inr (find_entity kind key d2, d2)))"


section \<open>Histories of the catalog\<close>

datatype catalog_op =
    OpEnsure string string json
  | OpAllocate string json "string option"
  | OpRename string string json
  | OpDelete string string
  | OpRestore string string
  | OpAdopt string

definition keep :: "('a \<times> db) res \<Rightarrow> (unit \<times> db) res" where
  "keep m = and_then m (\<lambda>(r, d). Inr ((), d))"

fun catalog_step :: "(string \<Rightarrow> string) \<Rightarrow> env \<times> catalog_op \<Rightarrow> db \<Rightarrow> (unit \<times> db) res" where
  "catalog_step sha (e, OpEnsure kind key name) d = keep (ensure e kind key name d)"
| "catalog_step sha (e, OpAllocate kind name request) d = keep (allocate e sha kind name request d)"
| "catalog_step sha (e, OpRename kind key name) d = keep (rename e kind key name d)"
| "catalog_step sha (e, OpDelete kind key) d = keep (delete_entity e kind key d)"
| "catalog_step sha (e, OpRestore kind key) d = keep (restore_entity e kind key d)"
| "catalog_step sha (e, OpAdopt user) d = keep (adopt_unowned user d)"

text \<open>The constraints of the table: the primary key below the sequence, the identity unique,
  creation requests unique per kind, and an owner for every row once there is an installation
  owner.\<close>

definition entity_pair :: "catalog_row \<Rightarrow> string \<times> string" where
  "entity_pair r = (cat_kind r, cat_key r)"

definition request_unique :: "catalog_row list \<Rightarrow> bool" where
  "request_unique rs = (\<forall>r \<in> set rs. \<forall>s \<in> set rs. cat_request r \<noteq> None \<longrightarrow>
          cat_kind r = cat_kind s \<longrightarrow> cat_request r = cat_request s \<longrightarrow> r = s)"

definition catalog_ok :: "db \<Rightarrow> bool" where
  "catalog_ok d = (distinct (map cat_id (db_catalog d)) \<and> distinct (map entity_pair (db_catalog d))
     \<and> (\<forall>r \<in> set (db_catalog d). cat_id r \<le> db_catalog_seq d)
     \<and> request_unique (db_catalog d)
     \<and> (db_installation d \<noteq> None \<longrightarrow> (\<forall>r \<in> set (db_catalog d). cat_owner r \<noteq> None)))"

text \<open>What never changes of a row: its identity, and its owner once it has one.\<close>

definition same_entity :: "catalog_row \<Rightarrow> catalog_row \<Rightarrow> bool" where
  "same_entity r s = (cat_id s = cat_id r \<and> cat_kind s = cat_kind r \<and> cat_key s = cat_key r
     \<and> cat_created s = cat_created r \<and> cat_request s = cat_request r
     \<and> (cat_owner r \<noteq> None \<longrightarrow> cat_owner s = cat_owner r))"

definition catalog_le :: "db \<Rightarrow> db \<Rightarrow> bool" where
  "catalog_le d d' = (db_catalog_seq d \<le> db_catalog_seq d'
     \<and> list_all2 same_entity (db_catalog d) (take (length (db_catalog d)) (db_catalog d'))
     \<and> (\<forall>s \<in> set (drop (length (db_catalog d)) (db_catalog d')). db_catalog_seq d < cat_id s)
     \<and> (db_installation d \<noteq> None \<longrightarrow> db_installation d' = db_installation d))"

lemma same_entity_refl [simp]: "same_entity r r"
  by (simp add: same_entity_def)

lemma same_entity_trans: "same_entity r s \<Longrightarrow> same_entity s t \<Longrightarrow> same_entity r t"
  by (auto simp: same_entity_def)

lemma same_entities_trans:
  "list_all2 same_entity xs ys \<Longrightarrow> list_all2 same_entity ys zs \<Longrightarrow> list_all2 same_entity xs zs"
  by (erule (1) list_all2_trans [rotated]) (erule (1) same_entity_trans)

lemma list_all2_in_set2: "list_all2 R xs ys \<Longrightarrow> y \<in> set ys \<Longrightarrow> \<exists>x \<in> set xs. R x y"
  by (induction rule: list_all2_induct) auto

lemma int_text_inj: "int_text i = int_text j \<longleftrightarrow> i = j"
proof
  have "int_of_text (int_text i) = i" for i
    by (auto simp: int_text_def int_of_nat_text)
  then show "int_text i = int_text j \<Longrightarrow> i = j" by metis
qed simp

lemma generated_key_inj: "generated_key k i = generated_key k j \<longleftrightarrow> i = j"
  by (simp add: generated_key_def int_text_inj)

lemma find_entity_Some: "find_entity k key d = Some r \<Longrightarrow> r \<in> set (db_catalog d) \<and> cat_kind r = k \<and> cat_key r = key"
  by (auto simp: find_entity_def is_entity_def dest: sel1_Some)

lemma find_entity_None: "find_entity k key d = None \<longleftrightarrow> (\<forall>r \<in> set (db_catalog d). \<not> is_entity k key r)"
  by (simp add: find_entity_def sel1_None)

lemma free_number_None:
  "free_number f kind d n = None \<Longrightarrow> f \<le> length (db_catalog d)"
proof -
  assume a: "free_number f kind d n = None"
  have "generated_key kind ` {n..<n + int f} \<subseteq> cat_key ` set (db_catalog d)" using a
  proof (induction f arbitrary: n)
    case (Suc f)
    then have taken: "find_entity kind (generated_key kind n) d \<noteq> None" and rest: "free_number f kind d (n + 1) = None"
      by (auto split: if_splits)
    from taken obtain r where "find_entity kind (generated_key kind n) d = Some r" by auto
    from find_entity_Some [OF this] have "generated_key kind n \<in> cat_key ` set (db_catalog d)"
      by (metis image_eqI)
    moreover have "{n..<n + int (Suc f)} = insert n {n + 1..<n + 1 + int f}" by auto
    ultimately show ?case using Suc.IH [OF rest] by auto
  qed simp
  then have "card (generated_key kind ` {n..<n + int f}) \<le> card (cat_key ` set (db_catalog d))"
    by (rule card_mono [rotated]) simp
  also have "\<dots> \<le> length (db_catalog d)"
    by (metis card_image_le card_length finite_set le_trans)
  finally show ?thesis
    by (subst (asm) card_image) (auto simp: inj_on_def generated_key_inj)
qed

lemma free_number_Some: "free_number f kind d n = Some m \<Longrightarrow> n \<le> m \<and> find_entity kind (generated_key kind m) d = None"
  by (induction f arbitrary: n) (force split: if_splits)+

lemma free_number_enough: "\<exists>m. free_number (Suc (length (db_catalog d))) kind d n = Some m"
  using free_number_None [of "Suc (length (db_catalog d))" kind d n] by fastforce


lemma catalog_ok_audit [simp]: "catalog_ok (audit e a k t v w s d) = catalog_ok d"
  by (simp add: catalog_ok_def)

lemma catalog_le_audit [simp]: "catalog_le d (audit e a k t v w s d') = catalog_le d d'"
  by (simp add: catalog_le_def)

lemma catalog_frame_tasks [simp]:
  "catalog_ok (d\<lparr>db_tasks := t\<rparr>) = catalog_ok d" "catalog_le d0 (d\<lparr>db_tasks := t\<rparr>) = catalog_le d0 d"
  "find_entity k key (d\<lparr>db_tasks := t\<rparr>) = find_entity k key d"
  by (simp_all add: catalog_ok_def catalog_le_def find_entity_def)

lemma catalog_le_refl: "catalog_le d d"
  by (simp add: catalog_le_def list_all2_refl)

lemma catalog_le_trans:
  assumes "catalog_le a b" "catalog_le b c"
  shows "catalog_le a c"
proof -
  let ?A = "db_catalog a" and ?B = "db_catalog b" and ?C = "db_catalog c"
  have ab: "list_all2 same_entity ?A (take (length ?A) ?B)" and bc: "list_all2 same_entity ?B (take (length ?B) ?C)"
    using assms by (simp_all add: catalog_le_def)
  from list_all2_lengthD [OF ab] list_all2_lengthD [OF bc] have l: "length ?A \<le> length ?B" "length ?B \<le> length ?C"
    by auto
  have tk: "take (length ?A) (take (length ?B) ?C) = take (length ?A) ?C" using l by (simp add: min_def)
  from bc have "list_all2 same_entity (take (length ?A) ?B) (take (length ?A) (take (length ?B) ?C))"
    by (rule list_all2_takeI)
  with ab have "list_all2 same_entity ?A (take (length ?A) ?C)" unfolding tk by (rule same_entities_trans)
  moreover have "db_catalog_seq a < cat_id x" if x: "x \<in> set (drop (length ?A) ?C)" for x
  proof -
    have "drop (length ?A) ?C = drop (length ?A) (take (length ?B) ?C @ drop (length ?B) ?C)" by simp
    also have "\<dots> = drop (length ?A) (take (length ?B) ?C) @ drop (length ?B) ?C"
      unfolding drop_append using l by (simp add: min_def)
    finally consider "x \<in> set (drop (length ?A) (take (length ?B) ?C))" | "x \<in> set (drop (length ?B) ?C)"
      using x by auto
    then show ?thesis
    proof cases
      case 1
      from bc have "list_all2 same_entity (drop (length ?A) ?B) (drop (length ?A) (take (length ?B) ?C))"
        by (rule list_all2_dropI)
      from list_all2_in_set2 [OF this 1] obtain y where "y \<in> set (drop (length ?A) ?B)" "same_entity y x" by blast
      with assms(1) show ?thesis unfolding catalog_le_def same_entity_def by metis
    next
      case 2
      with assms have "db_catalog_seq a \<le> db_catalog_seq b" "db_catalog_seq b < cat_id x"
        unfolding catalog_le_def by blast+
      then show ?thesis by simp
    qed
  qed
  moreover have "db_catalog_seq a \<le> db_catalog_seq c" using assms unfolding catalog_le_def by linarith
  moreover have "db_installation a \<noteq> None \<longrightarrow> db_installation c = db_installation a"
    using assms unfolding catalog_le_def by metis
  ultimately show ?thesis unfolding catalog_le_def by blast
qed

lemma request_unique_map:
  assumes "request_unique rs" "\<And>r. cat_request (g r) = cat_request r" "\<And>r. cat_kind (g r) = cat_kind r"
  shows "request_unique (map g rs)"
  unfolding request_unique_def
proof (intro ballI impI)
  fix x y assume "x \<in> set (map g rs)" "y \<in> set (map g rs)" "cat_request x \<noteq> None" "cat_kind x = cat_kind y"
    "cat_request x = cat_request y"
  then obtain r s where rs: "r \<in> set rs" "x = g r" "s \<in> set rs" "y = g s" by auto
  with \<open>cat_request x \<noteq> None\<close> \<open>cat_kind x = cat_kind y\<close> \<open>cat_request x = cat_request y\<close> assms
  have "r = s" unfolding request_unique_def by metis
  with rs show "x = y" by simp
qed

lemma catalog_upd:
  assumes ok: "catalog_ok d" and f: "\<And>r. p r \<Longrightarrow> same_entity r (f r)"
    and d': "d' = d\<lparr>db_catalog := upd p f (db_catalog d)\<rparr>"
  shows "catalog_ok d' \<and> catalog_le d d'"
proof -
  define g where "g r = (if p r then f r else r)" for r
  have g: "same_entity r (g r)" for r using f by (simp add: g_def)
  have c: "db_catalog d' = map g (db_catalog d)" by (simp add: d' upd_def g_def)
  have q: "cat_request (g r) = cat_request r" "cat_kind (g r) = cat_kind r" "cat_id (g r) = cat_id r"
    "entity_pair (g r) = entity_pair r" "cat_owner r \<noteq> None \<Longrightarrow> cat_owner (g r) \<noteq> None" for r
    using g [of r] by (simp_all add: same_entity_def entity_pair_def)
  have s: "db_catalog_seq d' = db_catalog_seq d" "db_installation d' = db_installation d" by (simp_all add: d')
  have i: "map cat_id (map g rs) = map cat_id rs" "map entity_pair (map g rs) = map entity_pair rs" for rs
    by (simp_all add: q(3,4))
  have u: "request_unique (map g (db_catalog d))"
    by (rule request_unique_map) (use ok q in \<open>simp_all add: catalog_ok_def\<close>)
  have "catalog_ok d'"
    unfolding catalog_ok_def c s i
    using ok u q(3,5) by (simp add: catalog_ok_def)
  moreover have "catalog_le d d'"
    using g by (simp add: catalog_le_def s c list_all2_map2 list_all2_refl)
  ultimately show ?thesis ..
qed

lemma catalog_append:
  assumes ok: "catalog_ok d" and "find_entity (cat_kind r) (cat_key r) d = None" "n = cat_id r" "db_catalog_seq d < n"
    and "db_installation d \<noteq> None \<longrightarrow> cat_owner r \<noteq> None"
    and "cat_request r \<noteq> None \<longrightarrow> (\<forall>x \<in> set (db_catalog d). \<not> (cat_kind x = cat_kind r \<and> cat_request x = cat_request r))"
    and d': "d' = d\<lparr>db_catalog := db_catalog d @ [r], db_catalog_seq := n\<rparr>"
  shows "catalog_ok d' \<and> catalog_le d d'"
proof -
  have "entity_pair r \<notin> entity_pair ` set (db_catalog d)"
    using assms(2) by (auto simp: find_entity_None entity_pair_def is_entity_def)
  moreover have "cat_id r \<notin> cat_id ` set (db_catalog d)"
    using ok assms(3,4) by (force simp: catalog_ok_def)
  moreover have "\<forall>x \<in> set (db_catalog d). cat_id x \<le> n"
    using ok assms(4) by (force simp: catalog_ok_def)
  ultimately have "catalog_ok d'"
    using ok assms(3,5,6) unfolding catalog_ok_def request_unique_def d' by auto
  moreover have "catalog_le d d'"
    using assms(3,4) by (simp add: catalog_le_def d' list_all2_refl)
  ultimately show ?thesis ..
qed

lemma creation_owner_installed:
  "resolve_creation_owner e d = Inr owner \<Longrightarrow> db_installation d \<noteq> None \<longrightarrow> owner \<noteq> None"
proof (cases "creator e")
  case (Some u)
  show "resolve_creation_owner e d = Inr owner \<Longrightarrow> db_installation d \<noteq> None \<longrightarrow> owner \<noteq> None"
    by (auto simp: resolve_creation_owner_def Some split: if_splits)
qed (simp add: resolve_creation_owner_def installation_owner_def)

lemma insert_entity_ok:
  assumes "catalog_ok d" "find_entity kind key d = None" "resolve_creation_owner e d = Inr owner"
  shows "catalog_ok (insert_entity kind key name at owner d) \<and> catalog_le d (insert_entity kind key name at owner d)"
  by (rule catalog_append [OF assms(1)]) (use assms creation_owner_installed in \<open>auto simp: insert_entity_def\<close>)

lemma ensure_ok:
  assumes "catalog_ok d" "ensure e kind key name d = Inr (r, d')"
  shows "catalog_ok d' \<and> catalog_le d d'"
proof (cases "find_entity kind key d")
  case None
  with assms(2) obtain owner display where "resolve_creation_owner e d = Inr owner"
    "d' = insert_entity kind key display (now e) owner d"
    by (auto simp: ensure_def and_then_Inr Let_def split: option.splits)
  with insert_entity_ok [OF assms(1) None] show ?thesis by simp
next
  case (Some x)
  with assms show ?thesis by (auto simp: ensure_def and_then_Inr catalog_le_refl)
qed

lemma allocate_cases:
  assumes "allocate e sha kind display request d = Inr (r, d')"
  obtains (same) owner x where "resolve_creation_owner e d = Inr owner" "d' = d"
      "prior_creation kind owner (scoped_request_key sha owner request) request d = Some x"
    | (new) owner n d1 where "resolve_creation_owner e d = Inr owner"
    "db_catalog_seq d < n" "cat_id r = n" "cat_kind r = kind" "cat_owner r = owner" "cat_deleted r = None"
    "find_entity kind (cat_key r) d = None"
    "cat_request r \<noteq> None \<longrightarrow> (\<forall>x \<in> set (db_catalog d). \<not> (cat_kind x = kind \<and> cat_request x = cat_request r))"
    "d1 = d\<lparr>db_catalog := db_catalog d @ [r], db_catalog_seq := n\<rparr>"
    "\<exists>details. d' = catalog_audit e kind (cat_key r) ''catalog_created'' details d1"
    "cat_request r = scoped_request_key sha owner request" "validate_name display = Inr (cat_name r)"
proof -
  from assms obtain name owner where o: "resolve_creation_owner e d = Inr owner" and v: "validate_name display = Inr name"
    by (auto simp: allocate_def and_then_Inr)
  let ?stored = "scoped_request_key sha owner request"
  let ?prior = "prior_creation kind owner ?stored request d"
  obtain n where n: "free_number (Suc (length (db_catalog d))) kind d (db_catalog_seq d + 1) = Some n"
    using free_number_enough by blast
  show thesis
  proof (cases ?prior)
    case (Some x)
    with assms o v have "d' = d"
      unfolding allocate_def by (simp add: Let_def and_then_Inr split: if_splits)
    with o Some show thesis by (intro same)
  next
    case None
    have n1: "db_catalog_seq d < n" "find_entity kind (generated_key kind n) d = None"
      using free_number_Some [OF n] by auto
    let ?r = "\<lparr>cat_id = n, cat_kind = kind, cat_key = generated_key kind n, cat_name = name, cat_deleted = None,
       cat_created = now e, cat_updated = now e, cat_request = ?stored, cat_owner = owner\<rparr>"
    from assms o v None n have u: "\<not> some_row (\<lambda>x. cat_id x = n \<or> is_entity kind (generated_key kind n) x
         \<or> (?stored \<noteq> None \<and> cat_kind x = kind \<and> cat_request x = ?stored)) (db_catalog d)"
      and r: "r = ?r" and d': "\<exists>details. d' = catalog_audit e kind (generated_key kind n) ''catalog_created'' details
         (d\<lparr>db_catalog := db_catalog d @ [?r], db_catalog_seq := max (db_catalog_seq d) n\<rparr>)"
      unfolding allocate_def by (auto simp: Let_def and_then_Inr simp del: free_number.simps split: if_splits)
    show thesis
      by (rule new [OF o n1(1)]) (use u r d' n1 v in \<open>auto simp: some_row_iff max_def\<close>)
  qed
qed

lemma allocate_ok:
  assumes "catalog_ok d" "allocate e sha kind display request d = Inr (r, d')"
  shows "catalog_ok d' \<and> catalog_le d d'"
  using assms(2)
proof (cases rule: allocate_cases)
  case same
  with assms(1) show ?thesis by (simp add: catalog_le_refl)
next
  case (new owner n d1)
  have "catalog_ok d1 \<and> catalog_le d d1"
    by (rule catalog_append [OF assms(1) _ new(3) [symmetric] new(2)])
      (use new creation_owner_installed [OF new(1)] in simp_all)
  with new(10) show ?thesis by (auto simp: catalog_audit_def)
qed

lemma rename_entity_ok:
  assumes "catalog_ok d"
  shows "catalog_ok (rename_entity kind key name at d) \<and> catalog_le d (rename_entity kind key name at d)"
  by (rule catalog_upd [OF assms, where f = "\<lambda>r. r\<lparr>cat_name := name, cat_updated := at\<rparr>"])
    (simp_all add: rename_entity_def same_entity_def)

lemma rename_ok:
  assumes "catalog_ok d" "rename e kind key name d = Inr (r, d')"
  shows "catalog_ok d' \<and> catalog_le d d'"
  using assms(2) rename_entity_ok [OF assms(1)]
  by (auto simp: rename_def and_then_Inr Let_def catalog_audit_def split: if_splits)

lemma deleted_flag_ok:
  assumes "catalog_ok d"
  shows "catalog_ok (d\<lparr>db_catalog := upd q (\<lambda>x. x\<lparr>cat_deleted := m, cat_updated := t\<rparr>) (db_catalog d)\<rparr>)
    \<and> catalog_le d (d\<lparr>db_catalog := upd q (\<lambda>x. x\<lparr>cat_deleted := m, cat_updated := t\<rparr>) (db_catalog d)\<rparr>)"
  by (rule catalog_upd [OF assms _ refl]) (simp add: same_entity_def)

lemma delete_entity_ok:
  assumes "catalog_ok d" "delete_entity e kind key d = Inr (r, d')"
  shows "catalog_ok d' \<and> catalog_le d d'"
  using assms deleted_flag_ok [OF assms(1)]
  by (auto simp: delete_entity_def and_then_Inr Let_def catalog_audit_def catalog_le_refl split: if_splits)

lemma restore_entity_ok:
  assumes "catalog_ok d" "restore_entity e kind key d = Inr (r, d')"
  shows "catalog_ok d' \<and> catalog_le d d'"
  using assms deleted_flag_ok [OF assms(1)]
  by (auto simp: restore_entity_def and_then_Inr Let_def catalog_audit_def catalog_le_refl split: if_splits)

lemma adopt_unowned_ok:
  assumes "catalog_ok d" "adopt_unowned user d = Inr (r, d')"
  shows "catalog_ok d' \<and> catalog_le d d'"
proof -
  let ?o = "case db_installation d of None \<Rightarrow> Some user | Some u \<Rightarrow> Some u"
  let ?d = "d\<lparr>db_catalog := upd (\<lambda>r. cat_owner r = None) (\<lambda>r. r\<lparr>cat_owner := ?o\<rparr>) (db_catalog d)\<rparr>"
  from assms(2) have d': "d' = ?d\<lparr>db_installation := ?o\<rparr>"
    by (auto simp: adopt_unowned_def Let_def split: if_splits)
  have k: "catalog_ok ?d \<and> catalog_le d ?d"
    by (rule catalog_upd [OF assms(1) _ refl]) (simp add: same_entity_def)
  have "\<forall>r \<in> set (db_catalog ?d). cat_owner r \<noteq> None"
    by (auto simp: upd_def split: option.splits)
  with k have "catalog_ok d'" by (simp add: d' catalog_ok_def)
  moreover from k have "catalog_le d d'" by (auto simp: d' catalog_le_def)
  ultimately show ?thesis ..
qed

lemma catalog_step_ok:
  "catalog_ok d \<Longrightarrow> catalog_step sha x d = Inr (u, d') \<Longrightarrow> catalog_ok d' \<and> catalog_le d d'"
  by (cases x, cases "snd x")
    (auto simp: keep_def and_then_Inr dest: ensure_ok allocate_ok rename_ok delete_entity_ok restore_entity_ok adopt_unowned_ok)

interpretation catalog: monotone_ops "catalog_step sha" catalog_ok catalog_le for sha
proof unfold_locales
  show "catalog_ok s'" if "catalog_ok s" "catalog_step sha x s = Inr (r, s')" for s x r s'
    using catalog_step_ok [OF that] by blast
  show "catalog_le s s'" if "catalog_ok s" "catalog_step sha x s = Inr (r, s')" for s x r s'
    using catalog_step_ok [OF that] by blast
qed (auto intro: catalog_le_refl catalog_le_trans)


text \<open>The guards read the catalog, the accounts and the creator only.\<close>

definition same_catalog :: "env \<Rightarrow> db \<Rightarrow> env \<Rightarrow> db \<Rightarrow> bool" where
  "same_catalog e d e' d' = (creator e' = creator e \<and> db_catalog d' = db_catalog d
     \<and> db_installation d' = db_installation d \<and> db_user_ids d' = db_user_ids d)"

lemma find_entity_json_cong: "db_catalog d' = db_catalog d \<Longrightarrow> find_entity_json k v d' = find_entity_json k v d"
  by (simp add: find_entity_json_def find_entity_def cong: option.case_cong)

lemma guards_cong:
  assumes "same_catalog e d e' d'"
  shows "require_catalog_active k v d' = require_catalog_active k v d"
    and "require_catalog_references e' def d' = require_catalog_references e def d"
proof -
  have c: "find_entity_json k v d' = find_entity_json k v d" for k v
    using assms by (intro find_entity_json_cong) (simp add: same_catalog_def)
  have i: "installation_owner d' = installation_owner d" "resolve_creation_owner e' d' = resolve_creation_owner e d"
    using assms by (simp_all add: same_catalog_def installation_owner_def resolve_creation_owner_def cong: option.case_cong)
  show a: "require_catalog_active k v d' = require_catalog_active k v d" for k v
    unfolding require_catalog_active_def c by (rule refl)
  have o: "entity_owner k v d' = entity_owner k v d" for k v unfolding entity_owner_def c by (rule refl)
  have r: "check_reference owner d' p = check_reference owner d p" for owner p
    unfolding check_reference_def o i by (rule refl)
  have "check_reference owner d' = check_reference owner d" for owner using r by (rule ext)
  then have "require_task_delivery_ownership e' def d' = require_task_delivery_ownership e def d"
    unfolding require_task_delivery_ownership_def task_owner_def o i by simp
  then show "require_catalog_references e' def d' = require_catalog_references e def d"
    unfolding require_catalog_references_def a by simp
qed

section \<open>Properties\<close>

text \<open>C2: whatever sequence of catalog operations runs, failing ones included, the table keeps its
  constraints (identifiers and identities unique, creation requests unique per kind, every row
  owned once the installation has an owner), no row disappears, a row never changes its
  identifier, kind, key, creation request or, once set, its owner, the installation owner never
  changes, and every added row has an identifier above all those issued before.\<close>

theorem catalog_history:
  assumes "catalog_ok d"
  shows "catalog_ok (exec (catalog_step sha) ops d) \<and> catalog_le d (exec (catalog_step sha) ops d)"
  using catalog.exec_inv [OF assms] catalog.exec_le [OF assms] by blast

theorem catalog_history_witness:
  "catalog_ok (exec (catalog_step (\<lambda>s. s)) [(sample_env, OpAllocate ''sender'' (JStr ''Desk'') (Some ''k1'')),
       (sample_env, OpAdopt ''u1''), (sample_env, OpDelete ''sender'' ''sender-1'')]
     (empty_db\<lparr>db_user_ids := [''u1'']\<rparr>))
   \<and> catalog_le (empty_db\<lparr>db_user_ids := [''u1'']\<rparr>)
       (exec (catalog_step (\<lambda>s. s)) [(sample_env, OpAllocate ''sender'' (JStr ''Desk'') (Some ''k1'')),
       (sample_env, OpAdopt ''u1''), (sample_env, OpDelete ''sender'' ''sender-1'')]
     (empty_db\<lparr>db_user_ids := [''u1'']\<rparr>))"
  by (rule catalog_history) (simp add: catalog_ok_def request_unique_def empty_db_def)

lemma allocate_input:
  "allocate e sha kind display request d = Inr (r, d') \<Longrightarrow> \<exists>name owner. require_kind kind = Inr () \<and>
    validate_name display = Inr name \<and> resolve_creation_owner e d = Inr owner \<and>
    (case request of None \<Rightarrow> Inr () | Some k \<Rightarrow> check (request_key_ok k) (ValidationError ''creation request key'')) = Inr ()"
  by (auto simp: allocate_def and_then_Inr)

text \<open>\<open>allocate\<close> with a request key, by whether the request was served before.\<close>

lemma allocate_prior:
  assumes "require_kind kind = Inr ()" "validate_name display = Inr name" "resolve_creation_owner e d = Inr owner"
    "check (request_key_ok k) (ValidationError ''creation request key'') = Inr ()"
    "prior_creation kind owner (scoped_request_key sha owner (Some k)) (Some k) d = Some r"
  shows "allocate e sha kind display (Some k) d = (if cat_deleted r \<noteq> None then Inl (ValidationError ''creation request deleted'')
     else if cat_name r \<noteq> name then Inl (ValidationError ''creation request reused'') else Inr (r, d))"
  using assms(5) by (simp add: allocate_def assms(1-4) Let_def del: free_number.simps)

text \<open>Creating a catalog item under a request key is idempotent: after a successful creation,
  the same request of the same creator returns the same row and changes nothing.\<close>

theorem allocate_idempotent:
  assumes "catalog_ok d" "allocate e sha kind display (Some k) d = Inr (r, d')" "creator e' = creator e"
  shows "allocate e' sha kind display (Some k) d' = Inr (r, d')"
proof -
  from allocate_input [OF assms(2)] obtain name owner where i: "require_kind kind = Inr ()"
    "validate_name display = Inr name" "resolve_creation_owner e d = Inr owner"
    "check (request_key_ok k) (ValidationError ''creation request key'') = Inr ()" by auto
  let ?stored = "scoped_request_key sha owner (Some k)"
  have o: "resolve_creation_owner e' d = Inr owner"
    using i(3) assms(3) by (simp add: resolve_creation_owner_def)
  show ?thesis
  proof (cases "prior_creation kind owner ?stored (Some k) d")
    case (Some x)
    from allocate_prior [OF i this] assms(2) have "d' = d" by (simp split: if_splits)
    with allocate_prior [OF i Some] allocate_prior [OF i(1,2) o i(4) Some] assms(2) show ?thesis by simp
  next
    case None
    have st: "?stored \<noteq> None" by (cases owner) (simp_all add: scoped_request_key_def)
    from assms(2) have r: "cat_kind r = kind" "cat_owner r = owner" "cat_request r = ?stored"
      "cat_deleted r = None" "cat_name r = name"
      and new: "db_catalog d' = db_catalog d @ [r]" "db_installation d' = db_installation d" "db_user_ids d' = db_user_ids d"
      by (cases rule: allocate_cases, use None i in \<open>auto simp: catalog_audit_def\<close>)+
    have ok: "request_unique (db_catalog d')"
      using allocate_ok [OF assms(1,2)] by (simp add: catalog_ok_def)
    let ?rows = "sel (\<lambda>r. cat_kind r = kind \<and> cat_owner r = owner \<and> cat_request r \<in> {?stored, Some k}) (db_catalog d')"
    have mem: "r \<in> set ?rows" using r new by simp
    then obtain x where x: "greatest_by (\<lambda>r. cat_request r = ?stored) ?rows = Some x"
      by (cases "greatest_by (\<lambda>r. cat_request r = ?stored) ?rows") (simp_all add: greatest_by_None del: set_sel)
    then have px: "prior_creation kind owner ?stored (Some k) d' = Some x" by (simp add: prior_creation_def)
    from greatest_by_Some [OF x] have "x \<in> set ?rows" "(cat_request r = ?stored) \<le> (cat_request x = ?stored)"
      using mem by blast+
    then have xx: "x \<in> set (db_catalog d')" "cat_kind x = kind" "cat_request x = ?stored" using r(3) by auto
    have "r \<in> set (db_catalog d')" using new by simp
    with ok xx r(1,3) st have "x = r" unfolding request_unique_def by metis
    moreover have "resolve_creation_owner e' d' = Inr owner"
      using o new(2,3) by (simp add: resolve_creation_owner_def installation_owner_def cong: option.case_cong)
    ultimately show ?thesis using allocate_prior [OF i(1,2) _ i(4) px] r by simp
  qed
qed

definition allocated_db :: db where
  "allocated_db = commit (catalog_step (\<lambda>s. s) (sample_env, OpAllocate ''sender'' (JStr ''Desk'') (Some ''k1''))) empty_db"

theorem allocate_idempotent_witness:
  "\<exists>r. allocate sample_env (\<lambda>s. s) ''sender'' (JStr ''Desk'') (Some ''k1'') allocated_db = Inr (r, allocated_db)"
proof -
  have "\<not> isl (allocate sample_env (\<lambda>s. s) ''sender'' (JStr ''Desk'') (Some ''k1'') empty_db)" by code_simp
  then obtain r d' where r: "allocate sample_env (\<lambda>s. s) ''sender'' (JStr ''Desk'') (Some ''k1'') empty_db = Inr (r, d')"
    by (auto dest: not_isl)
  then have "d' = allocated_db"
    by (simp add: allocated_db_def commit_def keep_def)
  moreover have "catalog_ok empty_db" by (simp add: catalog_ok_def request_unique_def empty_db_def)
  ultimately show ?thesis using allocate_idempotent [OF _ r refl] by blast
qed

lemma bind_text_not_found: "bind_text v \<noteq> Inl (NotFoundError m)"
  by (cases v) auto

text \<open>What a passed reference check says of one reference.\<close>

lemma check_reference_Inr:
  assumes "check_reference owner d (kind, v) = Inr ()"
  shows "(\<exists>r. find_entity_json kind v d = Inr (Some r) \<and> cat_owner r = owner) \<or>
    (find_entity_json kind v d = Inr None \<and> owner = None \<and> installation_owner d = None)"
proof (cases "entity_owner kind v d")
  case (Inl er)
  with assms show ?thesis
    by (cases er) (auto simp: check_reference_def entity_owner_def and_then_Inl find_entity_json_def
      bind_text_not_found check_Inr split: if_splits option.splits)
next
  case (Inr u)
  with assms show ?thesis
    by (auto simp: check_reference_def entity_owner_def and_then_Inr check_Inr split: if_splits option.splits)
qed

text \<open>A definition that passes \<open>require_catalog_references\<close>, the guard of every publication and
  of every new run, refers only to live resources of the task's owner: each of its sender and
  recipient groups is, unless the installation has no accounts at all, a catalog row with that
  owner, and none is deleted.\<close>

theorem catalog_references_owned:
  assumes "require_catalog_references e def d = Inr ()"
  shows "\<exists>owner. task_owner e def d = Inr owner \<and>
    (\<exists>refs. task_references def = Inr refs \<and> (\<forall>(kind, v) \<in> set refs.
      (\<exists>r. find_entity_json kind v d = Inr (Some r) \<and> cat_owner r = owner) \<or>
      (find_entity_json kind v d = Inr None \<and> owner = None \<and> installation_owner d = None))) \<and>
    (\<exists>delivery. dict_default def ''delivery'' = Inr delivery \<and>
      require_catalog_active ''sender'' (get_or delivery ''sender_profile_id'' (JStr ''default'')) d = Inr () \<and>
      (\<exists>groups. iter_json (get_or delivery ''allowed_recipient_group_ids'' (JList [])) = Inr groups \<and>
        (\<forall>g \<in> set groups. \<forall>r. find_entity_json ''recipient_group'' g d = Inr (Some r) \<longrightarrow> cat_deleted r = None)))"
proof -
  from assms obtain owner delivery groups where
    o: "require_task_delivery_ownership e def d = Inr owner" and
    dl: "dict_default def ''delivery'' = Inr delivery"
      "require_catalog_active ''sender'' (get_or delivery ''sender_profile_id'' (JStr ''default'')) d = Inr ()"
      "iter_json (get_or delivery ''allowed_recipient_group_ids'' (JList [])) = Inr groups"
      "\<forall>g \<in> set groups. require_catalog_active ''recipient_group'' g d = Inr ()"
    by (auto simp: require_catalog_references_def and_then_Inr each_Inr)
  from o obtain refs where r: "task_owner e def d = Inr owner" "task_references def = Inr refs"
    "\<forall>p \<in> set refs. check_reference owner d p = Inr ()"
    by (auto simp: require_task_delivery_ownership_def and_then_Inr each_Inr)
  have "\<forall>(kind, v) \<in> set refs. (\<exists>r. find_entity_json kind v d = Inr (Some r) \<and> cat_owner r = owner) \<or>
      (find_entity_json kind v d = Inr None \<and> owner = None \<and> installation_owner d = None)"
    using r(3) check_reference_Inr by blast
  moreover have "\<forall>g \<in> set groups. \<forall>r. find_entity_json ''recipient_group'' g d = Inr (Some r) \<longrightarrow> cat_deleted r = None"
    using dl(4) by (auto simp: require_catalog_active_def and_then_Inr check_Inr)
  ultimately show ?thesis using r(1,2) dl(1-3) by blast
qed

theorem catalog_references_owned_witness:
  "\<exists>owner. task_owner sample_env (ver_definition sample_version) sample_db = Inr owner"
proof -
  have "require_catalog_references sample_env (ver_definition sample_version) sample_db = Inr ()" by code_simp
  from catalog_references_owned [OF this] show ?thesis by blast
qed

end
