(* ===== verification/Execution_Plan.thy ===== *)
theory Execution_Plan imports Catalog begin

text \<open>
  The immutable choice of runner, model and replay source of a run: \<open>engine/execution_plan.py\<close>.
  A plan is a JSON object; validation rebuilds it, so that what is stored is always in the form
  the builder gives.
\<close>

section \<open>Checks on text\<close>

definition ident_char :: "char \<Rightarrow> bool" where
  "ident_char c = (alnum c \<or> c = CHR ''_'' \<or> c = CHR ''-'')"

text \<open>\<open>re.fullmatch(r"[A-Za-z0-9_-]\{1,200\}", s)\<close> and \<open>[0-9a-f]\{64\}\<close>\<close>

definition ident200 :: "json \<Rightarrow> bool" where
  "ident200 v = (case v of JStr s \<Rightarrow> 1 \<le> length s \<and> length s \<le> 200 \<and> list_all ident_char s | _ \<Rightarrow> False)"

definition hex64 :: "json \<Rightarrow> bool" where
  "hex64 v = (case v of JStr s \<Rightarrow> length s = 64 \<and> list_all (\<lambda>c. c \<in> set ''0123456789abcdef'') s | _ \<Rightarrow> False)"

text \<open>\<open>v in \{...\}\<close> on a set of strings: an unhashable value raises.\<close>

definition in_set :: "json \<Rightarrow> string list \<Rightarrow> bool res" where
  "in_set v names = (case v of JList _ \<Rightarrow> Inl (TypeError ''unhashable'') | JDict _ \<Rightarrow> Inl (TypeError ''unhashable'')
     | _ \<Rightarrow> Inr (str_in v names))"

definition short_text :: "json \<Rightarrow> bool" where
  "short_text v = (case v of JStr s \<Rightarrow> 1 \<le> length s \<and> length s \<le> 200 \<and> \<not> list_ex control_char s | _ \<Rightarrow> False)"

section \<open>Stages\<close>

definition STAGES :: "string list" where "STAGES = [''research'', ''compose'']"

definition PROVIDERS :: "string list" where
  "PROVIDERS = [''codex_exec'', ''antigravity_exec'', ''opencode_exec'', ''fake'']"

definition stage_item :: "dict \<Rightarrow> string \<Rightarrow> json res" where
  "stage_item d name = (let item = (if dget d name = JStr [] then JNull else dget d name) in
     if item \<noteq> JNull \<and> \<not> short_text item then Inl (ValidationError ''model or effort'') else Inr item)"

definition normalize_stage :: "json \<Rightarrow> dict res" where
  "normalize_stage value = (case value of
     JDict d \<Rightarrow> if \<not> keys_within d [''type'', ''model'', ''reasoning_effort''] then Inl (ValidationError ''stage settings'')
       else and_then (in_set (dget d ''type'') PROVIDERS) (\<lambda>ok.
         if \<not> ok then Inl (ValidationError ''provider'')
         else and_then (stage_item d ''model'') (\<lambda>m. and_then (stage_item d ''reasoning_effort'') (\<lambda>r.
           Inr [(''type'', dget d ''type''), (''model'', m), (''reasoning_effort'', r)])))
   | _ \<Rightarrow> Inl (ValidationError ''stage settings''))"

definition normalize_stages :: "(string \<Rightarrow> json) \<Rightarrow> dict res" where
  "normalize_stages f = and_then (normalize_stage (f ''research'')) (\<lambda>a. and_then (normalize_stage (f ''compose'')) (\<lambda>b.
     Inr [(''research'', JDict a), (''compose'', JDict b)]))"

definition resolve_task_stages :: "dict \<Rightarrow> dict res" where
  "resolve_task_stages runner =
    (let base = JDict (map (\<lambda>k. (k, dget runner k)) [''type'', ''model'', ''reasoning_effort'']) in
     case get_or runner ''stages'' (JDict []) of
       JDict configured \<Rightarrow> if \<not> keys_within configured STAGES then Inl (ValidationError ''task stages'')
         else normalize_stages (\<lambda>stage. get_or configured stage base)
     | _ \<Rightarrow> Inl (ValidationError ''task stages''))"

section \<open>Sources of a replay\<close>

definition source_ok :: "json \<Rightarrow> bool" where
  "source_ok v = (case v of
     JNull \<Rightarrow> True
   | JDict d \<Rightarrow> same_keys d [''run_id'', ''revision'', ''input_sha256''] \<and> ident200 (dget d ''run_id'')
       \<and> (case as_int (dget d ''revision'') of None \<Rightarrow> False | Some i \<Rightarrow> 1 \<le> i) \<and> hex64 (dget d ''input_sha256'')
   | _ \<Rightarrow> False)"

text \<open>\<open>PurePosixPath(name)\<close>: its components, without empty and single-dot ones.\<close>

definition path_parts :: "string \<Rightarrow> string list" where
  "path_parts s = filter (\<lambda>w. w \<noteq> [] \<and> w \<noteq> ''.'') (split_on (CHR ''/'') s)"

definition as_posix :: "string \<Rightarrow> string" where
  "as_posix s = (if path_parts s = [] then ''.'' else join ''/'' (path_parts s))"

definition inventory_entry :: "string \<times> json \<Rightarrow> bool" where
  "inventory_entry p = (case p of (name, digest) \<Rightarrow>
     name \<noteq> [] \<and> length name \<le> 1024 \<and> CHR 0x5C \<notin> set name \<and> \<not> list_ex (\<lambda>c. (of_char c :: nat) < 32) name
     \<and> hd name \<noteq> CHR ''/'' \<and> ''..'' \<notin> set (path_parts name) \<and> as_posix name = name \<and> hex64 digest)"

definition MESSAGE_FIELDS :: "string list" where
  "MESSAGE_FIELDS = [''run_id'', ''revision'', ''input_sha256'', ''result_sha256'', ''html_sha256'', ''text_sha256'',
     ''files_sha256'', ''artifact_manifest_sha256'']"

definition check_message :: "json \<Rightarrow> json \<Rightarrow> unit res" where
  "check_message source message = (case (source, message) of
     (JDict s, JDict m) \<Rightarrow>
       if \<not> same_keys m MESSAGE_FIELDS
          \<or> \<not> list_all (\<lambda>k. pyeq (dget m k) (dget s k)) [''run_id'', ''revision'', ''input_sha256'']
       then Inl (ValidationError ''message source'')
       else if \<not> list_all (\<lambda>k. hex64 (dget m k)) [''input_sha256'', ''result_sha256'', ''html_sha256'', ''text_sha256'',
                ''artifact_manifest_sha256'']
       then Inl (ValidationError ''message hash'')
       else (case dget m ''files_sha256'' of
           JDict files \<Rightarrow> if length files < 3 \<or> 256 < length files then Inl (ValidationError ''message inventory'')
             else if \<not> list_all inventory_entry files then Inl (ValidationError ''message file hash'')
             else check (pyeq (dget files ''composition-result.json'') (dget m ''result_sha256''))
               (ValidationError ''message result hash'')
         | _ \<Rightarrow> Inl (ValidationError ''message inventory''))
   | _ \<Rightarrow> Inl (ValidationError ''message source''))"

definition provenance :: "json \<Rightarrow> dict res" where
  "provenance selection = (case (if truthy selection then selection else JDict [(''kind'', JStr ''task_version'')]) of
     JDict p \<Rightarrow> if \<not> keys_within p [''kind'', ''run_id'', ''task_version_hash''] then Inl (ValidationError ''selection source'')
       else and_then (in_set (dget p ''kind'') [''task_version'', ''parent_run'', ''manual'', ''legacy'']) (\<lambda>ok.
         if \<not> ok \<or> \<not> list_all (\<lambda>(k, v). short_text v) p then Inl (ValidationError ''selection source'') else Inr p)
   | _ \<Rightarrow> Inl (ValidationError ''selection source''))"

section \<open>Plans\<close>

definition build_execution_plan :: "json \<Rightarrow> json \<Rightarrow> json \<Rightarrow> json \<Rightarrow> json \<Rightarrow> dict res" where
  "build_execution_plan stages scope source selection message =
     and_then (in_set scope [''full'', ''compose_only'', ''delivery_only'']) (\<lambda>ok.
       case stages of
         JDict st \<Rightarrow>
           if \<not> ok \<or> \<not> same_keys st STAGES then Inl (ValidationError ''scope or stages'')
           else if \<not> source_ok source then Inl (ValidationError ''composition source'')
           else if scope = JStr ''full'' \<and> source \<noteq> JNull then Inl (ValidationError ''full execution source'')
           else and_then (if scope = JStr ''delivery_only'' then check_message source message
               else check (message = JNull) (ValidationError ''only delivery-only'')) (\<lambda>_.
             and_then (provenance selection) (\<lambda>p.
             and_then (normalize_stages (dget st)) (\<lambda>ns.
               Inr ([(''schema_version'', JInt 1), (''scope'', scope), (''stages'', JDict ns),
                 (''source_composition'', source), (''selection_source'', JDict p)]
                 @ (if scope = JStr ''delivery_only'' then [(''source_message'', message)] else [])))))
       | _ \<Rightarrow> Inl (ValidationError ''scope or stages''))"

definition plan_fields :: "dict \<Rightarrow> string list" where
  "plan_fields d = [''schema_version'', ''scope'', ''stages'', ''source_composition'', ''selection_source'']
     @ (if dget d ''scope'' = JStr ''delivery_only'' then [''source_message''] else [])"

definition validate_execution_plan :: "json \<Rightarrow> dict res" where
  "validate_execution_plan value = (case value of
     JDict d \<Rightarrow> if \<not> same_keys d (plan_fields d) \<or> dget d ''schema_version'' \<noteq> JInt 1 then Inl (ValidationError ''plan'')
       else build_execution_plan (dget d ''stages'') (dget d ''scope'') (dget d ''source_composition'')
         (dget d ''selection_source'') (dget d ''source_message'')
   | _ \<Rightarrow> Inl (ValidationError ''plan''))"

definition encode_execution_plan :: "(string \<Rightarrow> string) \<Rightarrow> json \<Rightarrow> (string \<times> string) res" where
  "encode_execution_plan sha value = and_then (validate_execution_plan value) (\<lambda>p.
     let raw = canonical (JDict p) in Inr (raw, sha raw))"

section \<open>Validation is idempotent\<close>

lemma dget_Cons [simp]: "dget ((k, v) # d) a = (if k = a then v else dget d a)"
  by (simp add: dget_def)

lemma in_set_Inr: "in_set v names = Inr True \<longleftrightarrow> (\<exists>s \<in> set names. v = JStr s)"
  by (cases v) (auto simp: in_set_def str_in_def)

lemma in_set_JStr [simp]: "in_set (JStr s) names = Inr (s \<in> set names)"
  by (simp add: in_set_def str_in_def)

lemma stage_item_idem: "stage_item d name = Inr x \<Longrightarrow> dget d' name = x \<Longrightarrow> stage_item d' name = Inr x"
  by (auto simp: stage_item_def Let_def short_text_def split: if_splits)

lemma normalize_stage_form:
  assumes "normalize_stage v = Inr s"
  shows "\<exists>t m r. s = [(''type'', JStr t), (''model'', m), (''reasoning_effort'', r)] \<and> normalize_stage (JDict s) = Inr s"
proof -
  from assms obtain d where d: "v = JDict d" by (cases v) (auto simp: normalize_stage_def)
  from assms d obtain m r t where h: "in_set (dget d ''type'') PROVIDERS = Inr True" "dget d ''type'' = JStr t"
    "stage_item d ''model'' = Inr m" "stage_item d ''reasoning_effort'' = Inr r"
    "s = [(''type'', JStr t), (''model'', m), (''reasoning_effort'', r)]"
    by (auto simp: normalize_stage_def and_then_Inr in_set_Inr split: if_splits)
  from stage_item_idem [OF h(3), of s] stage_item_idem [OF h(4), of s] h
  have "stage_item s ''model'' = Inr m" "stage_item s ''reasoning_effort'' = Inr r" by simp_all
  with h have "normalize_stage (JDict s) = Inr s"
    by (simp add: normalize_stage_def keys_within_def)
  with h show ?thesis by blast
qed

lemma normalize_stages_idem:
  assumes "normalize_stages f = Inr ns"
  shows "normalize_stages (dget ns) = Inr ns \<and> same_keys ns STAGES"
proof -
  from assms obtain a b where "normalize_stage (f ''research'') = Inr a" "normalize_stage (f ''compose'') = Inr b"
    and ns: "ns = [(''research'', JDict a), (''compose'', JDict b)]"
    by (auto simp: normalize_stages_def and_then_Inr)
  with normalize_stage_form [of "f ''research''" a] normalize_stage_form [of "f ''compose''" b]
  have "normalize_stage (JDict a) = Inr a" "normalize_stage (JDict b) = Inr b" by blast+
  with ns show ?thesis by (simp add: normalize_stages_def same_keys_def STAGES_def)
qed

lemma provenance_idem:
  assumes "provenance v = Inr p"
  shows "provenance (JDict p) = Inr p"
proof -
  let ?w = "if truthy v then v else JDict [(''kind'', JStr ''task_version'')]"
  from assms obtain q where q: "?w = JDict q" by (cases ?w) (simp_all add: provenance_def)
  with assms have h: "keys_within p [''kind'', ''run_id'', ''task_version_hash'']"
    "in_set (dget p ''kind'') [''task_version'', ''parent_run'', ''manual'', ''legacy''] = Inr True"
    "list_all (\<lambda>(k, v). short_text v) p" "q = p"
    unfolding provenance_def q by (auto simp: and_then_Inr split: if_splits)
  from h(2) have "p \<noteq> []" by (auto simp: in_set_Inr dget_def)
  with h show ?thesis by (simp add: provenance_def)
qed

text \<open>Validating a plan is idempotent: the plan that validation returns validates again, to
  itself, so a stored plan is in the canonical form of the builder, and encoding it gives the same
  text and digest as encoding the plan it was built from.\<close>

theorem validate_plan_idempotent:
  assumes "validate_execution_plan v = Inr p"
  shows "validate_execution_plan (JDict p) = Inr p \<and>
    encode_execution_plan sha (JDict p) = encode_execution_plan sha v"
proof -
  from assms obtain d where d: "v = JDict d" by (cases v) (auto simp: validate_execution_plan_def)
  let ?scope = "dget d ''scope''" and ?src = "dget d ''source_composition''" and ?msg = "dget d ''source_message''"
  from assms d have b: "build_execution_plan (dget d ''stages'') ?scope ?src (dget d ''selection_source'') ?msg = Inr p"
    by (auto simp: validate_execution_plan_def split: if_splits)
  then obtain st where st: "dget d ''stages'' = JDict st"
    by (cases "dget d ''stages''") (auto simp: build_execution_plan_def and_then_Inr)
  from b [unfolded st] obtain q ns where h: "in_set ?scope [''full'', ''compose_only'', ''delivery_only''] = Inr True"
    "source_ok ?src" "\<not> (?scope = JStr ''full'' \<and> ?src \<noteq> JNull)"
    "(if ?scope = JStr ''delivery_only'' then check_message ?src ?msg
      else check (?msg = JNull) (ValidationError ''only delivery-only'')) = Inr ()"
    "provenance (dget d ''selection_source'') = Inr q" "normalize_stages (dget st) = Inr ns"
    and p: "p = [(''schema_version'', JInt 1), (''scope'', ?scope), (''stages'', JDict ns),
          (''source_composition'', ?src), (''selection_source'', JDict q)]
          @ (if ?scope = JStr ''delivery_only'' then [(''source_message'', ?msg)] else [])"
    by (auto simp: build_execution_plan_def and_then_Inr split: if_splits)
  have m: "dget p ''source_message'' = (if ?scope = JStr ''delivery_only'' then ?msg else JNull)"
    by (simp add: p dget_def)
  have g: "dget p ''scope'' = ?scope" "dget p ''stages'' = JDict ns" "dget p ''source_composition'' = ?src"
    "dget p ''selection_source'' = JDict q" "dget p ''schema_version'' = JInt 1"
    by (simp_all add: p dget_def)
  have "same_keys p (plan_fields p)"
    unfolding plan_fields_def g by (auto simp: p same_keys_def)
  moreover have "build_execution_plan (JDict ns) ?scope ?src (JDict q) (dget p ''source_message'') = Inr p"
    using h normalize_stages_idem [OF h(6)] provenance_idem [OF h(5)] m
    by (cases "?scope = JStr ''delivery_only''") (simp_all add: build_execution_plan_def p check_def dget_def)
  ultimately have "validate_execution_plan (JDict p) = Inr p"
    unfolding validate_execution_plan_def by (simp add: g)
  with assms show ?thesis by (simp add: encode_execution_plan_def)
qed

definition sample_plan :: json where
  "sample_plan = JDict [(''schema_version'', JInt 1), (''scope'', JStr ''full''),
     (''stages'', JDict [(''compose'', JDict [(''type'', JStr ''fake''), (''model'', JStr [])]),
        (''research'', JDict [(''type'', JStr ''codex_exec'')])]),
     (''source_composition'', JNull), (''selection_source'', JNull)]"

theorem validate_plan_idempotent_witness:
  "\<exists>p. validate_execution_plan sample_plan = Inr p \<and> validate_execution_plan (JDict p) = Inr p"
proof -
  have "\<not> isl (validate_execution_plan sample_plan)" by code_simp
  then obtain p where p: "validate_execution_plan sample_plan = Inr p" by (auto dest: not_isl)
  with validate_plan_idempotent [OF p] show ?thesis by blast
qed

end
