(* ===== verification/Smtp_Config.thy ===== *)
theory Smtp_Config imports Execution_Plan begin

text \<open>
  The delivery configuration of \<open>delivery/smtp_config.py\<close>: its fields are values read from
  YAML and are checked by \<open>validate\<close>, so they are JSON values here. The parsed YAML document and
  the environment are arguments; reading, protecting and writing the file is not modelled.
  \<open>addr_ok\<close> stands for the address parser of the standard library, \<open>sha\<close> for SHA-256.
\<close>

section \<open>Settings\<close>

record smtp_settings =
  st_host :: json
  st_port :: json
  st_use_tls :: json
  st_use_ssl :: json
  st_username :: json
  st_password :: json
  st_sender_email :: json
  st_sender_name :: json
  st_timeout :: json
  st_password_configured :: json
  st_data_timeout :: json
  st_body_timeout :: json
  st_final_timeout :: json

definition default_smtp :: smtp_settings where
  "default_smtp = \<lparr>st_host = JStr ''smtp.gmail.com'', st_port = JInt 587, st_use_tls = JBool True,
     st_use_ssl = JBool False, st_username = JStr [], st_password = JStr [], st_sender_email = JStr [],
     st_sender_name = JStr ''ResearchOps Notifications'', st_timeout = JInt 15,
     st_password_configured = JBool False, st_data_timeout = JInt 120, st_body_timeout = JInt 180,
     st_final_timeout = JInt 600\<rparr>"

definition SMTP_FIELDS :: "string list" where
  "SMTP_FIELDS = [''host'', ''port'', ''use_tls'', ''use_ssl'', ''username'', ''password'', ''sender_email'',
     ''sender_name'', ''timeout_seconds'', ''password_configured'', ''data_command_timeout_seconds'',
     ''body_timeout_seconds'', ''final_reply_timeout_seconds'']"

text \<open>\<open>SmtpSettings(**d)\<close> and \<open>asdict\<close>\<close>

definition smtp_of_dict :: "dict \<Rightarrow> smtp_settings" where
  "smtp_of_dict d = (let v = default_smtp in \<lparr>st_host = get_or d ''host'' (st_host v),
     st_port = get_or d ''port'' (st_port v), st_use_tls = get_or d ''use_tls'' (st_use_tls v),
     st_use_ssl = get_or d ''use_ssl'' (st_use_ssl v), st_username = get_or d ''username'' (st_username v),
     st_password = get_or d ''password'' (st_password v),
     st_sender_email = get_or d ''sender_email'' (st_sender_email v),
     st_sender_name = get_or d ''sender_name'' (st_sender_name v),
     st_timeout = get_or d ''timeout_seconds'' (st_timeout v),
     st_password_configured = get_or d ''password_configured'' (st_password_configured v),
     st_data_timeout = get_or d ''data_command_timeout_seconds'' (st_data_timeout v),
     st_body_timeout = get_or d ''body_timeout_seconds'' (st_body_timeout v),
     st_final_timeout = get_or d ''final_reply_timeout_seconds'' (st_final_timeout v)\<rparr>)"

definition smtp_to_dict :: "smtp_settings \<Rightarrow> dict" where
  "smtp_to_dict s = [(''host'', st_host s), (''port'', st_port s), (''use_tls'', st_use_tls s),
     (''use_ssl'', st_use_ssl s), (''username'', st_username s), (''password'', st_password s),
     (''sender_email'', st_sender_email s), (''sender_name'', st_sender_name s),
     (''timeout_seconds'', st_timeout s), (''password_configured'', st_password_configured s),
     (''data_command_timeout_seconds'', st_data_timeout s), (''body_timeout_seconds'', st_body_timeout s),
     (''final_reply_timeout_seconds'', st_final_timeout s)]"

section \<open>Validation\<close>

definition line_safe :: "json \<Rightarrow> bool" where
  "line_safe v = (case v of JStr s \<Rightarrow> \<not> list_ex (\<lambda>c. c \<in> {CHR 0x0D, CHR 0x0A, CHR 0x00}) s | _ \<Rightarrow> False)"

definition is_bool :: "json \<Rightarrow> bool" where
  "is_bool v = (case v of JBool _ \<Rightarrow> True | _ \<Rightarrow> False)"

definition boolean_field :: "json \<Rightarrow> unit res" where
  "boolean_field v = check (is_bool v) (DeliveryError ''boolean'')"

definition validate_address :: "(string \<Rightarrow> bool) \<Rightarrow> json \<Rightarrow> string res" where
  "validate_address addr_ok v = (case v of
     JStr s \<Rightarrow> if line_safe v \<and> addr_ok s then Inr s else Inl (DeliveryError ''email address'')
   | _ \<Rightarrow> Inl (DeliveryError ''email address''))"

definition lower :: "string \<Rightarrow> string" where
  "lower s = map (\<lambda>c. let n = of_char c :: nat in
     if (65 \<le> n \<and> n \<le> 90) \<or> (192 \<le> n \<and> n \<le> 222 \<and> n \<noteq> 215) then char_of (n + 32) else c) s"

definition validate_smtp :: "(string \<Rightarrow> bool) \<Rightarrow> bool \<Rightarrow> smtp_settings \<Rightarrow> unit res" where
  "validate_smtp addr_ok sending s =
     and_then (each (\<lambda>v. check (line_safe v) (DeliveryError ''SMTP text field''))
        [st_host s, st_username s, st_password s, st_sender_email s, st_sender_name s]) (\<lambda>_.
     and_then (each boolean_field [st_use_tls s, st_use_ssl s]) (\<lambda>_.
     and_then (check (int_between (st_port s) 1 65535) (DeliveryError ''SMTP port'')) (\<lambda>_.
     and_then (check (int_between (st_timeout s) 1 120) (DeliveryError ''SMTP timeout'')) (\<lambda>_.
     and_then (each (\<lambda>v. check (int_between v 1 3600) (DeliveryError ''SMTP phase timeout''))
        [st_data_timeout s, st_body_timeout s, st_final_timeout s]) (\<lambda>_.
     and_then (check (st_use_tls s \<noteq> st_use_ssl s) (DeliveryError ''TLS mode'')) (\<lambda>_.
       if \<not> sending then Inr ()
       else and_then (check (truthy (st_host s)) (DeliveryError ''SMTP host'')) (\<lambda>_.
         and_then (validate_address addr_ok (if truthy (st_sender_email s) then st_sender_email s else st_username s)) (\<lambda>_.
           check (\<not> ((case st_host s of JStr h \<Rightarrow> lower h = ''smtp.gmail.com'' | _ \<Rightarrow> False)
                \<and> (\<not> truthy (st_username s) \<or> \<not> truthy (st_password s)))) (DeliveryError ''Gmail credentials'')))))))))"

text \<open>\<open>re.fullmatch(r"[a-z][a-z0-9-]\{1,63\}", s)\<close>\<close>

definition lower_id :: "string \<Rightarrow> bool" where
  "lower_id s = (let low = (\<lambda>c. let n = of_char c :: nat in 97 \<le> n \<and> n \<le> 122) in
     2 \<le> length s \<and> length s \<le> 64 \<and> low (hd s)
     \<and> list_all (\<lambda>c. low c \<or> is_digit c \<or> c = CHR ''-'') (List.tl s))"

definition validate_sender_profile_id :: "json \<Rightarrow> string res" where
  "validate_sender_profile_id v = (case v of JStr s \<Rightarrow> if lower_id s then Inr s else Inl (DeliveryError ''sender profile ID'')
     | _ \<Rightarrow> Inl (DeliveryError ''sender profile ID''))"

record delivery_config =
  cfg_enabled :: json
  cfg_auto_dispatch :: json
  cfg_smtp :: smtp_settings
  cfg_groups :: json
  cfg_senders :: "(string \<times> smtp_settings) list"

definition default_groups :: json where
  "default_groups = JDict [(''release-team'', JList []), (''release-stakeholders'', JList []),
     (''researchops-admins'', JList [])]"

definition get_sender :: "delivery_config \<Rightarrow> json \<Rightarrow> smtp_settings res" where
  "get_sender cfg v = and_then (validate_sender_profile_id v) (\<lambda>s.
     if s = ''default'' then Inr (cfg_smtp cfg)
     else (case map_of (cfg_senders cfg) s of None \<Rightarrow> Inl (DeliveryError ''sender profile'') | Some p \<Rightarrow> Inr p))"

definition all_senders :: "delivery_config \<Rightarrow> (string \<times> smtp_settings) list" where
  "all_senders cfg = (case map_of (cfg_senders cfg) ''default'' of
     None \<Rightarrow> (''default'', cfg_smtp cfg) # cfg_senders cfg
   | Some p \<Rightarrow> (''default'', p) # filter (\<lambda>(k, v). k \<noteq> ''default'') (cfg_senders cfg))"

definition validate_group :: "(string \<Rightarrow> bool) \<Rightarrow> string \<times> json \<Rightarrow> unit res" where
  "validate_group addr_ok p = (case p of (grp, addresses) \<Rightarrow>
     and_then (check (lower_id grp) (DeliveryError ''recipient group ID'')) (\<lambda>_.
       case addresses of
         JList xs \<Rightarrow> if \<not> list_all is_str xs then Inl (DeliveryError ''mailbox lists'')
           else if \<not> distinct xs then Inl (DeliveryError ''duplicate mailbox'')
           else each (\<lambda>a. and_then (validate_address addr_ok a) (\<lambda>_. Inr ())) xs
       | _ \<Rightarrow> Inl (DeliveryError ''mailbox lists'')))"

definition validate_profile :: "(string \<Rightarrow> bool) \<Rightarrow> string \<times> smtp_settings \<Rightarrow> unit res" where
  "validate_profile addr_ok p = and_then (validate_sender_profile_id (JStr (fst p))) (\<lambda>_.
     and_then (check (fst p \<noteq> ''default'') (DeliveryError ''default sender'')) (\<lambda>_.
       validate_smtp addr_ok False (snd p)))"

definition validate_config :: "(string \<Rightarrow> bool) \<Rightarrow> delivery_config \<Rightarrow> unit res" where
  "validate_config addr_ok cfg =
     and_then (boolean_field (cfg_enabled cfg)) (\<lambda>_.
     and_then (boolean_field (cfg_auto_dispatch cfg)) (\<lambda>_.
     and_then (validate_smtp addr_ok False (cfg_smtp cfg)) (\<lambda>_.
     and_then (each (validate_profile addr_ok) (cfg_senders cfg)) (\<lambda>_.
       case cfg_groups cfg of JDict groups \<Rightarrow> each (validate_group addr_ok) groups
       | _ \<Rightarrow> Inl (DeliveryError ''recipient_groups'')))))"

text \<open>A blank password keeps the one of the same profile.\<close>

definition preserve_sender_passwords :: "delivery_config \<Rightarrow> delivery_config \<Rightarrow> delivery_config" where
  "preserve_sender_passwords cfg previous =
    (let keep = (\<lambda>k s. let s' = (if truthy (st_password s) then s
            else case map_of (all_senders previous) k of None \<Rightarrow> s | Some p \<Rightarrow> s\<lparr>st_password := st_password p\<rparr>)
          in s'\<lparr>st_password_configured := JBool (truthy (st_password s'))\<rparr>)
     in cfg\<lparr>cfg_smtp := (if map_of (cfg_senders cfg) ''default'' = None then keep ''default'' (cfg_smtp cfg) else cfg_smtp cfg),
            cfg_senders := map (\<lambda>(k, s). (k, keep k s)) (cfg_senders cfg)\<rparr>)"

section \<open>Loading\<close>

text \<open>\<open>int(text)\<close>: surrounding space, a sign, digits with single underscores between them.\<close>

fun underscored :: "bool \<Rightarrow> string \<Rightarrow> string option" where
  "underscored after_digit [] = (if after_digit then Some [] else None)"
| "underscored after_digit (c # s) = (if is_digit c then map_option (\<lambda>t. c # t) (underscored True s)
     else if c = CHR ''_'' \<and> after_digit then underscored False s else None)"

definition py_int :: "string \<Rightarrow> int option" where
  "py_int s = (let t = strip s; neg = (t \<noteq> [] \<and> hd t = CHR ''-'');
       body = (if t \<noteq> [] \<and> (hd t = CHR ''-'' \<or> hd t = CHR ''+'') then List.tl t else t)
     in case underscored False body of None \<Rightarrow> None
        | Some ds \<Rightarrow> map_option (\<lambda>i. if neg then - i else i) (digits_val 0 ds))"

definition env_text :: "(string \<times> string) list \<Rightarrow> string \<Rightarrow> json \<Rightarrow> json" where
  "env_text vars name v = (case map_of vars name of None \<Rightarrow> v | Some s \<Rightarrow> JStr s)"

definition env_flag :: "(string \<times> string) list \<Rightarrow> string \<Rightarrow> json \<Rightarrow> json res" where
  "env_flag vars name v = (case map_of vars name of None \<Rightarrow> Inr v
     | Some s \<Rightarrow> if lower s \<in> {''true'', ''1''} then Inr (JBool True)
         else if lower s \<in> {''false'', ''0''} then Inr (JBool False) else Inl (DeliveryError ''invalid flag''))"

definition env_override :: "(string \<times> string) list \<Rightarrow> smtp_settings \<Rightarrow> smtp_settings res" where
  "env_override vars s =
    (let s1 = s\<lparr>st_host := env_text vars ''SMTP_HOST'' (st_host s),
       st_username := env_text vars ''SMTP_USERNAME'' (env_text vars ''SMTP_USER'' (st_username s)),
       st_password := env_text vars ''SMTP_PASSWORD'' (env_text vars ''SMTP_PASS'' (st_password s)),
       st_sender_email := env_text vars ''SMTP_SENDER_EMAIL'' (st_sender_email s),
       st_sender_name := env_text vars ''SMTP_SENDER_NAME'' (st_sender_name s)\<rparr>
     in and_then (case map_of vars ''SMTP_PORT'' of None \<Rightarrow> Inr (st_port s1)
          | Some t \<Rightarrow> (case py_int t of None \<Rightarrow> Inl (DeliveryError ''SMTP_PORT'') | Some i \<Rightarrow> Inr (JInt i))) (\<lambda>port.
        and_then (env_flag vars ''SMTP_USE_TLS'' (st_use_tls s1)) (\<lambda>tls.
        and_then (env_flag vars ''SMTP_USE_SSL'' (st_use_ssl s1)) (\<lambda>ssl.
          Inr (s1\<lparr>st_port := port, st_use_tls := tls, st_use_ssl := ssl,
            st_password_configured := JBool (truthy (st_password s1))\<rparr>)))))"

definition load_profile :: "string \<times> json \<Rightarrow> (string \<times> smtp_settings) res" where
  "load_profile p = and_then (validate_sender_profile_id (JStr (fst p))) (\<lambda>k. case snd p of
     JDict d \<Rightarrow> if \<not> keys_within d SMTP_FIELDS then Inl (DeliveryError ''sender profile fields'')
       else let s = smtp_of_dict d in Inr (k, s\<lparr>st_password_configured := JBool (truthy (st_password s))\<rparr>)
   | _ \<Rightarrow> Inl (DeliveryError ''sender profile fields''))"

fun collect :: "('a \<Rightarrow> 'b res) \<Rightarrow> 'a list \<Rightarrow> 'b list res" where
  "collect f [] = Inr []"
| "collect f (x # xs) = and_then (f x) (\<lambda>y. and_then (collect f xs) (\<lambda>ys. Inr (y # ys)))"

definition load_delivery_config :: "(string \<Rightarrow> bool) \<Rightarrow> (string \<times> string) list \<Rightarrow> json option \<Rightarrow> delivery_config res" where
  "load_delivery_config addr_ok vars document =
    (case (case document of None \<Rightarrow> JDict [] | Some v \<Rightarrow> if truthy v then v else JDict []) of
       JDict data \<Rightarrow>
         if \<not> keys_within data [''version'', ''enabled'', ''auto_dispatch'', ''smtp'', ''recipient_groups'', ''sender_profiles'']
         then Inl (DeliveryError ''configuration field'')
         else (case get_or data ''smtp'' (JDict []) of
           JDict sd \<Rightarrow> if \<not> keys_within sd SMTP_FIELDS then Inl (DeliveryError ''SMTP settings field'')
             else (case get_or data ''sender_profiles'' (JDict []) of
               JDict pd \<Rightarrow> and_then (collect load_profile pd) (\<lambda>profiles.
                 and_then (env_override vars (smtp_of_dict sd)) (\<lambda>smtp.
                   let cfg = \<lparr>cfg_enabled = get_or data ''enabled'' (JBool False),
                         cfg_auto_dispatch = get_or data ''auto_dispatch'' (JBool False), cfg_smtp = smtp,
                         cfg_groups = get_or data ''recipient_groups'' default_groups, cfg_senders = profiles\<rparr>
                   in and_then (validate_config addr_ok cfg) (\<lambda>_. Inr cfg)))
             | _ \<Rightarrow> Inl (DeliveryError ''sender_profiles''))
         | _ \<Rightarrow> Inl (DeliveryError ''smtp''))
     | _ \<Rightarrow> Inl (DeliveryError ''configuration object''))"

section \<open>The delivery revision\<close>

definition drop_defaults :: "dict \<Rightarrow> dict" where
  "drop_defaults d = filter (\<lambda>(k, v). k \<noteq> ''password_configured''
     \<and> \<not> (k = ''data_command_timeout_seconds'' \<and> pyeq v (JInt 120))
     \<and> \<not> (k = ''body_timeout_seconds'' \<and> pyeq v (JInt 180))
     \<and> \<not> (k = ''final_reply_timeout_seconds'' \<and> pyeq v (JInt 600))) d"

definition group_lists :: "delivery_config \<Rightarrow> (string \<times> json) list" where
  "group_lists cfg = default [] (as_dict (cfg_groups cfg))"

definition delivery_revision :: "(string \<Rightarrow> string) \<Rightarrow> delivery_config \<Rightarrow> string \<Rightarrow> db option \<Rightarrow> string res" where
  "delivery_revision sha cfg sender database =
     and_then (case database of None \<Rightarrow> Inr (group_lists cfg)
       | Some d \<Rightarrow> and_then (case entity_owner ''sender'' (JStr sender) d of
             Inl (NotFoundError m) \<Rightarrow> if installation_owner d \<noteq> None then Inl (DeliveryError ''sender has no owner'') else Inr None
           | r \<Rightarrow> r) (\<lambda>owner. Inr (scoped_delivery_config (group_lists cfg) owner d))) (\<lambda>groups.
     and_then (get_sender cfg (JStr sender)) (\<lambda>s.
       Inr (sha (dumps_compact (JDict ([(''smtp'', JDict (drop_defaults (smtp_to_dict s))), (''recipient_groups'', JDict groups)]
         @ (if sender \<noteq> ''default'' then [(''sender_profile_id'', JStr sender)] else [])))))))"

section \<open>Sending requires a complete, validated sender\<close>

lemma validate_smtp_sending:
  assumes "validate_smtp addr_ok True s = Inr ()"
  shows "\<exists>addr. validate_address addr_ok (if truthy (st_sender_email s) then st_sender_email s else st_username s) = Inr addr
    \<and> addr_ok addr \<and> is_bool (st_use_tls s) \<and> is_bool (st_use_ssl s) \<and> st_use_tls s \<noteq> st_use_ssl s
    \<and> int_between (st_port s) 1 65535 \<and> truthy (st_host s)"
  using assms
  by (auto simp: validate_smtp_def and_then_Inr check_Inr boolean_field_def validate_address_def split: json.splits if_splits)

end
