(* ===== verification/Authorization.thy ===== *)
theory Authorization imports Smtp_Config begin

text \<open>
  Who may send: the retry-family guard of \<open>delivery/retry_guard.py\<close>, the run-scoped delivery
  authorization of \<open>delivery/authorization.py\<close> and the live gate \<open>require_live\<close> of
  \<open>delivery/policy.py\<close>. The two climbs through the parent relation are given as many rounds as
  there are runs, which is proved to be enough.
\<close>

section \<open>The retry family\<close>

definition find_run :: "string \<Rightarrow> db \<Rightarrow> run_row option" where
  "find_run r d = sel1 (\<lambda>x. run_id x = r) (db_runs d)"

definition parent_of :: "db \<Rightarrow> string \<Rightarrow> string option" where
  "parent_of d r = (case find_run r d of None \<Rightarrow> None | Some x \<Rightarrow>
     (case run_parent x of None \<Rightarrow> None | Some p \<Rightarrow> if p = [] then None else Some p))"

fun climb :: "nat \<Rightarrow> db \<Rightarrow> string list \<Rightarrow> string \<Rightarrow> string" where
  "climb 0 d seen r = r"
| "climb (Suc f) d seen r = (if r \<in> set seen then r
     else (case parent_of d r of None \<Rightarrow> r | Some p \<Rightarrow> climb f d (r # seen) p))"

definition family_root :: "db \<Rightarrow> string \<Rightarrow> string" where
  "family_root d r = climb (Suc (length (db_runs d))) d [] r"

text \<open>The recursive query: breadth first, each run once.\<close>

definition children :: "db \<Rightarrow> string list \<Rightarrow> string list" where
  "children d acc = remdups (map run_id (filter (\<lambda>r. (case run_parent r of None \<Rightarrow> False | Some p \<Rightarrow> p \<in> set acc)
     \<and> run_id r \<notin> set acc) (db_runs d)))"

fun descend :: "nat \<Rightarrow> db \<Rightarrow> string list \<Rightarrow> string list" where
  "descend 0 d acc = acc"
| "descend (Suc n) d acc = descend n d (acc @ children d acc)"

definition family :: "db \<Rightarrow> string \<Rightarrow> string list" where
  "family d root = descend (length (db_runs d)) d [root]"

definition ctl_of :: "db \<Rightarrow> string \<Rightarrow> control_row option" where
  "ctl_of d r = sel1 (\<lambda>k. ctl_run k = r) (db_controls d)"

definition dry_run_only :: "db \<Rightarrow> run_row \<Rightarrow> bool" where
  "dry_run_only d r = ((case ctl_of d (run_id r) of None \<Rightarrow> False | Some k \<Rightarrow> ctl_dry k)
     \<or> run_trigger r = ''candidate_dry_run'')"

definition accepted_or_uncertain_attempt :: "db \<Rightarrow> handoff_row \<Rightarrow> bool" where
  "accepted_or_uncertain_attempt d h = some_row (\<lambda>a. sm_handoff a = Some (ho_id h)
     \<and> sm_status a \<in> {SAccepted, SUncertain}) (db_smtp d)"

definition accepted_or_uncertain_receipt :: "db \<Rightarrow> handoff_row \<Rightarrow> bool" where
  "accepted_or_uncertain_receipt d h = some_row (\<lambda>c. rc_handoff c = ho_id h
     \<and> rc_status c \<in> {''sent'', ''accepted'', ''smtp_accepted'', ''uncertain''}) (db_receipts d)"

definition delivered_or_uncertain :: "db \<Rightarrow> handoff_row \<Rightarrow> bool" where
  "delivered_or_uncertain d h = (ho_status h \<in> {''sent'', ''acknowledged'', ''uncertain''}
     \<or> ho_external h = Some ''smtp_accepted'' \<or> accepted_or_uncertain_attempt d h \<or> accepted_or_uncertain_receipt d h)"

definition pending_run :: "run_row \<Rightarrow> bool" where
  "pending_run r = (run_status r \<in> {Queued, Running, AwaitingReceipt})"

definition pending_handoff :: "handoff_row \<Rightarrow> bool" where
  "pending_handoff h = (ho_status h \<in> {''published'', ''queued'', ''uncertain''})"

text \<open>One row of the query: a run of the family with one of its handoffs, or none.\<close>

definition family_rows :: "db \<Rightarrow> string list \<Rightarrow> (run_row \<times> handoff_row option) list" where
  "family_rows d ids = concat (map (\<lambda>i. case find_run i d of None \<Rightarrow> []
     | Some r \<Rightarrow> if dry_run_only d r then [] else
         (case filter (\<lambda>h. ho_run h = i \<and> ho_type h \<noteq> ''system_alert'') (db_handoffs d) of
            [] \<Rightarrow> [(r, None)] | hs \<Rightarrow> map (\<lambda>h. (r, Some h)) hs)) ids)"

definition check_family_row :: "string \<Rightarrow> bool \<Rightarrow> bool \<Rightarrow> db \<Rightarrow> run_row \<times> handoff_row option \<Rightarrow> unit res" where
  "check_family_row run email_only prepared d p = (case p of (r, h) \<Rightarrow>
     if prepared \<and> (case h of None \<Rightarrow> False | Some x \<Rightarrow> delivered_or_uncertain d x)
     then Inl (DeliveryError ''stored mail already accepted or uncertain'')
     else if email_only \<and> run_id r = run then Inr ()
     else if pending_run r \<or> (case h of None \<Rightarrow> False | Some x \<Rightarrow> pending_handoff x)
     then Inl (DeliveryError ''related email pending or uncertain'') else Inr ())"

definition require_retry_family_clear :: "string \<Rightarrow> bool \<Rightarrow> bool \<Rightarrow> db \<Rightarrow> unit res" where
  "require_retry_family_clear run email_only prepared d =
     each (check_family_row run email_only prepared d) (family_rows d (family d (family_root d run)))"

section \<open>Delivery authorization\<close>

definition REPLAY_TRIGGERS :: "string list" where
  "REPLAY_TRIGGERS = [''retry'', ''compose_only'', ''delivery_only'']"

definition find_version :: "string \<Rightarrow> db \<Rightarrow> version_row option" where
  "find_version h d = sel1 (\<lambda>v. ver_hash v = h) (db_versions d)"

definition delivery_of :: "db \<Rightarrow> string \<Rightarrow> string \<Rightarrow> dict res" where
  "delivery_of d task h = (case find_version h d of
     None \<Rightarrow> Inl (DeliveryError ''task version'')
   | Some v \<Rightarrow> if ver_task v \<noteq> task then Inl (DeliveryError ''task version'')
       else (case dget (ver_definition v) ''delivery'' of
           JDict x \<Rightarrow> if dget x ''mode'' = JStr ''handoff'' then Inr x else Inl (DeliveryError ''not in live handoff mode'')
         | _ \<Rightarrow> Inl (DeliveryError ''not in live handoff mode'')))"

definition find_task :: "string \<Rightarrow> db \<Rightarrow> task_row option" where
  "find_task t d = sel1 (\<lambda>x. task_id x = t) (db_tasks d)"

definition is_deleted :: "string \<Rightarrow> json \<Rightarrow> db \<Rightarrow> bool res" where
  "is_deleted kind key d = and_then (find_entity_json kind key d) (\<lambda>m.
     Inr (case m of None \<Rightarrow> False | Some r \<Rightarrow> cat_deleted r \<noteq> None))"

text \<open>The active version of a task that may deliver.\<close>

definition delivery_status :: "db \<Rightarrow> string \<Rightarrow> string res" where
  "delivery_status d task = (case find_task task d of
     None \<Rightarrow> Inl (DeliveryError ''no active version'')
   | Some t \<Rightarrow> (case task_active t of
       None \<Rightarrow> Inl (DeliveryError ''no active version'')
     | Some h \<Rightarrow> if h = [] then Inl (DeliveryError ''no active version'')
         else and_then (is_deleted ''task'' (JStr task) d) (\<lambda>del.
           if del then Inl (DeliveryError ''task deleted'')
           else if task_mode t \<noteq> MHandoff then Inl (DeliveryError ''live mode not enabled'') else Inr h)))"

definition AUTH_KEYS :: "string list" where
  "AUTH_KEYS = [''schema_version'', ''task_id'', ''source_task_version_hash'', ''active_task_version_hash'',
     ''delivery_contract_sha256'']"

definition encode_delivery_authorization :: "(string \<Rightarrow> string) \<Rightarrow> json \<Rightarrow> (string \<times> string) res" where
  "encode_delivery_authorization sha value = (case value of
     JDict a \<Rightarrow> if \<not> same_keys a AUTH_KEYS \<or> dget a ''schema_version'' \<noteq> JInt 1 \<or> \<not> ident200 (dget a ''task_id'')
          \<or> \<not> list_all (\<lambda>k. hex64 (dget a k)) [''source_task_version_hash'', ''active_task_version_hash'',
               ''delivery_contract_sha256'']
       then Inl (DeliveryError ''run delivery authorization'')
       else let raw = canonical value in Inr (raw, sha raw)
   | _ \<Rightarrow> Inl (DeliveryError ''run delivery authorization''))"

definition contract_sha :: "(string \<Rightarrow> string) \<Rightarrow> dict \<Rightarrow> string" where
  "contract_sha sha delivery = sha (canonical (JDict delivery))"

definition validate_delivery_authorization :: "(string \<Rightarrow> string) \<Rightarrow> run_row \<Rightarrow> json \<Rightarrow> db \<Rightarrow> unit res" where
  "validate_delivery_authorization sha run auth d =
     and_then (encode_delivery_authorization sha auth) (\<lambda>_.
       let a = default [] (as_dict auth) in
       if run_trigger run \<notin> set REPLAY_TRIGGERS \<or> dget a ''task_id'' \<noteq> JStr (run_task run)
          \<or> dget a ''source_task_version_hash'' \<noteq> JStr (run_version run)
       then Inl (DeliveryError ''run does not match authorization'')
       else (case (case run_parent run of None \<Rightarrow> None | Some p \<Rightarrow> find_run p d) of
           None \<Rightarrow> Inl (DeliveryError ''immutable replay parent'')
         | Some p \<Rightarrow>
             if run_task p \<noteq> run_task run \<or> run_version p \<noteq> run_version run
             then Inl (DeliveryError ''immutable replay parent'')
             else and_then (delivery_status d (run_task run)) (\<lambda>active.
               if dget a ''active_task_version_hash'' \<noteq> JStr active
               then Inl (DeliveryError ''task changed after authorization'')
               else and_then (delivery_of d (run_task run) (run_version run)) (\<lambda>source.
                 and_then (delivery_of d (run_task run) active) (\<lambda>current.
                   check (pyeq (JDict source) (JDict current)
                       \<and> dget a ''delivery_contract_sha256'' = JStr (contract_sha sha source))
                     (DeliveryError ''delivery settings differ''))))))"

definition read_delivery_authorization :: "(string \<Rightarrow> string) \<Rightarrow> db \<Rightarrow> string \<Rightarrow> json option res" where
  "read_delivery_authorization sha d run = (case sel1 (\<lambda>b. blob_run b = run) (db_authorizations d) of
     None \<Rightarrow> Inr None
   | Some b \<Rightarrow> and_then (strict_json_loads (blob_raw b) DEFAULT_MAX_JSON_BYTES) (\<lambda>v.
       and_then (encode_delivery_authorization sha v) (\<lambda>(raw, digest).
         if raw \<noteq> blob_raw b \<or> digest \<noteq> blob_sha b then Inl (DeliveryError ''authorization integrity'')
         else Inr (Some v))))"

text \<open>The run joined with its controls.\<close>

definition run_controls :: "db \<Rightarrow> string \<Rightarrow> (run_row \<times> control_row) option" where
  "run_controls d run = (case find_run run d of None \<Rightarrow> None | Some r \<Rightarrow>
     (case ctl_of d run of None \<Rightarrow> None | Some k \<Rightarrow> Some (r, k)))"

definition assert_delivery_version :: "(string \<Rightarrow> string) \<Rightarrow> db \<Rightarrow> string \<Rightarrow> string \<Rightarrow> string option \<Rightarrow> bool \<Rightarrow> bool \<Rightarrow> unit res" where
  "assert_delivery_version sha d task h run production system_alert =
     and_then (delivery_status d task) (\<lambda>active.
       if system_alert then check (active = h) (DeliveryError ''version no longer active'')
       else and_then (case run of None \<Rightarrow> Inr None | Some r \<Rightarrow>
             if r = [] then Inr None else read_delivery_authorization sha d r) (\<lambda>auth.
         case auth of
           None \<Rightarrow> check (active = h) (DeliveryError ''version no longer active'')
         | Some a \<Rightarrow> if \<not> production then Inl (DeliveryError ''authorization requires production'')
             else (case run_controls d (default [] run) of
               None \<Rightarrow> Inl (DeliveryError ''run not authorized'')
             | Some (r, k) \<Rightarrow> if run_task r \<noteq> task \<or> run_version r \<noteq> h \<or> ctl_dry k \<or> ctl_cancel k
                 then Inl (DeliveryError ''run not authorized'')
                 else validate_delivery_authorization sha r a d)))"

section \<open>The live gate\<close>

text \<open>\<open>kill_switch\<close> is \<open>settings.delivery.global_handoff_kill_switch\<close>, a YAML value.\<close>

definition require_live :: "(string \<Rightarrow> bool) \<Rightarrow> json \<Rightarrow> delivery_config \<Rightarrow> json \<Rightarrow> unit res" where
  "require_live addr_ok kill_switch cfg sender =
     and_then (check (kill_switch = JBool False) (DeliveryError ''kill switch'')) (\<lambda>_.
     and_then (check (cfg_enabled cfg = JBool True) (DeliveryError ''delivery disabled'')) (\<lambda>_.
     and_then (validate_config addr_ok cfg) (\<lambda>_.
     and_then (get_sender cfg sender) (\<lambda>s. validate_smtp addr_ok True s))))"

definition build_delivery_authorization :: "(string \<Rightarrow> bool) \<Rightarrow> (string \<Rightarrow> string) \<Rightarrow> json \<Rightarrow> delivery_config res \<Rightarrow> bool \<Rightarrow>
    string \<Rightarrow> string \<Rightarrow> string \<Rightarrow> db \<Rightarrow> json option res" where
  "build_delivery_authorization addr_ok sha kill_switch config production task source_hash trigger d =
     and_then (delivery_status d task) (\<lambda>active.
     and_then (delivery_of d task source_hash) (\<lambda>source.
     and_then (delivery_of d task active) (\<lambda>current.
     and_then config (\<lambda>cfg.
       let sender = get_or source ''sender_profile_id'' (JStr ''default'') in
     and_then (require_live addr_ok kill_switch cfg sender) (\<lambda>_.
     and_then (is_deleted ''sender'' sender d) (\<lambda>del.
       if del then Inl (DeliveryError ''sender deleted'')
       else if active = source_hash then Inr None
       else if \<not> production \<or> trigger \<notin> set REPLAY_TRIGGERS then Inl (DeliveryError ''version no longer active'')
       else if \<not> pyeq (JDict source) (JDict current) then Inl (DeliveryError ''delivery settings differ'')
       else Inr (Some (JDict [(''schema_version'', JInt 1), (''task_id'', JStr task),
         (''source_task_version_hash'', JStr source_hash), (''active_task_version_hash'', JStr active),
         (''delivery_contract_sha256'', JStr (contract_sha sha source))]))))))))"

definition require_run_delivery_authorization :: "(string \<Rightarrow> bool) \<Rightarrow> (string \<Rightarrow> string) \<Rightarrow> json \<Rightarrow> delivery_config res \<Rightarrow> bool \<Rightarrow>
    run_row \<Rightarrow> db \<Rightarrow> unit res" where
  "require_run_delivery_authorization addr_ok sha kill_switch config production run d =
     and_then (assert_delivery_version sha d (run_task run) (run_version run) (Some (run_id run)) production False) (\<lambda>_.
     and_then (check ((case ctl_of d (run_id run) of None \<Rightarrow> False | Some k \<Rightarrow> \<not> ctl_dry k \<and> \<not> ctl_cancel k)
         \<and> run_trigger run \<noteq> ''candidate_dry_run'') (DeliveryError ''run not authorized'')) (\<lambda>_.
     and_then (delivery_of d (run_task run) (run_version run)) (\<lambda>source.
       let sender = get_or source ''sender_profile_id'' (JStr ''default'') in
     and_then (is_deleted ''sender'' sender d) (\<lambda>del.
       if del then Inl (DeliveryError ''sender deleted'')
       else and_then config (\<lambda>cfg. require_live addr_ok kill_switch cfg sender)))))"

section \<open>The family is the whole connected set of retries\<close>

definition parent_edge :: "db \<Rightarrow> string \<Rightarrow> string \<Rightarrow> bool" where
  "parent_edge d p c = (\<exists>r \<in> set (db_runs d). run_id r = c \<and> run_parent r = Some p)"

lemma children_set: "set (children d acc) = {c. c \<notin> set acc \<and> (\<exists>p \<in> set acc. parent_edge d p c)}"
  by (auto simp: children_def parent_edge_def split: option.splits)

lemma descend_mono: "set acc \<subseteq> set (descend n d acc)"
proof (induction n arbitrary: acc)
  case (Suc n)
  have "set acc \<subseteq> set (acc @ children d acc)" by simp
  also have "\<dots> \<subseteq> set (descend n d (acc @ children d acc))" by (rule Suc.IH)
  finally show ?case by simp
qed simp

lemma descend_sound:
  "\<forall>x \<in> set acc. (parent_edge d)\<^sup>*\<^sup>* root x \<Longrightarrow> x \<in> set (descend n d acc) \<Longrightarrow> (parent_edge d)\<^sup>*\<^sup>* root x"
proof (induction n arbitrary: acc)
  case (Suc n)
  have "\<forall>x \<in> set (acc @ children d acc). (parent_edge d)\<^sup>*\<^sup>* root x"
    using Suc.prems(1) by (auto simp: children_set intro: rtranclp.rtrancl_into_rtrancl)
  from Suc.IH [OF this] Suc.prems(2) show ?case by simp
qed simp

definition closed_under :: "db \<Rightarrow> string list \<Rightarrow> bool" where
  "closed_under d acc = (\<forall>p \<in> set acc. \<forall>c. parent_edge d p c \<longrightarrow> c \<in> set acc)"

lemma closed_children: "closed_under d acc \<longleftrightarrow> children d acc = []"
proof -
  have "children d acc = [] \<longleftrightarrow> set (children d acc) = {}" by simp
  then show ?thesis unfolding children_set closed_under_def by auto
qed

lemma descend_closed:
  "card (run_id ` set (db_runs d) - set acc) \<le> n \<Longrightarrow> closed_under d (descend n d acc)"
proof (induction n arbitrary: acc)
  case 0
  then have "run_id ` set (db_runs d) \<subseteq> set acc" by simp
  then show ?case by (auto simp: closed_under_def parent_edge_def)
next
  case (Suc n)
  show ?case
  proof (cases "children d acc = []")
    case True
    then have "descend m d acc = acc" for m by (induction m) auto
    with True show ?thesis by (simp add: closed_children)
  next
    case False
    then obtain c where c: "c \<in> set (children d acc)" by (cases "children d acc") auto
    then have "c \<in> run_id ` set (db_runs d) - set acc"
      by (auto simp: children_def)
    then have "run_id ` set (db_runs d) - set (acc @ children d acc) \<subset> run_id ` set (db_runs d) - set acc"
      using c by auto
    then have "card (run_id ` set (db_runs d) - set (acc @ children d acc)) < card (run_id ` set (db_runs d) - set acc)"
      by (rule psubset_card_mono [rotated]) simp
    with Suc show ?thesis by simp
  qed
qed

lemma family_iff: "x \<in> set (family d root) \<longleftrightarrow> (parent_edge d)\<^sup>*\<^sup>* root x"
proof
  show "x \<in> set (family d root) \<Longrightarrow> (parent_edge d)\<^sup>*\<^sup>* root x"
    unfolding family_def by (rule descend_sound [of "[root]"]) simp
  have "card (run_id ` set (db_runs d) - {root}) \<le> card (run_id ` set (db_runs d))" by (rule card_mono) auto
  also have "\<dots> \<le> length (db_runs d)" by (metis card_image_le card_length finite_set le_trans)
  finally have c: "closed_under d (family d root)"
    unfolding family_def by (intro descend_closed) simp
  assume "(parent_edge d)\<^sup>*\<^sup>* root x"
  then show "x \<in> set (family d root)"
  proof induction
    case base
    show ?case using descend_mono [of "[root]"] by (auto simp: family_def)
  next
    case (step y z)
    with c show ?case by (auto simp: closed_under_def)
  qed
qed

text \<open>The climb stays inside the connected component and its fuel is enough.\<close>

lemma climb_up: "(parent_edge d)\<^sup>*\<^sup>* (climb f d seen r) r"
proof (induction f arbitrary: seen r)
  case (Suc f)
  show ?case
  proof (cases "r \<in> set seen \<or> parent_of d r = None")
    case False
    then obtain p where p: "parent_of d r = Some p" "r \<notin> set seen" by auto
    then have "parent_edge d p r"
      by (auto simp: parent_of_def parent_edge_def find_run_def dest: sel1_Some split: option.splits if_splits)
    moreover have "(parent_edge d)\<^sup>*\<^sup>* (climb f d (r # seen) p) p" by (rule Suc.IH)
    ultimately show ?thesis using p by (simp add: rtranclp.rtrancl_into_rtrancl)
  qed (auto split: option.splits)
qed simp

lemma climb_enough:
  "card (run_id ` set (db_runs d) - set seen) < f \<Longrightarrow> climb (f + k) d seen r = climb f d seen r"
proof (induction f arbitrary: seen r)
  case (Suc f)
  show ?case
  proof (cases "r \<in> set seen \<or> parent_of d r = None")
    case False
    then obtain p where p: "parent_of d r = Some p" "r \<notin> set seen" by auto
    then have "r \<in> run_id ` set (db_runs d) - set seen"
      by (auto simp: parent_of_def find_run_def dest: sel1_Some split: option.splits)
    then have "run_id ` set (db_runs d) - set (r # seen) \<subset> run_id ` set (db_runs d) - set seen" by auto
    then have "card (run_id ` set (db_runs d) - set (r # seen)) < card (run_id ` set (db_runs d) - set seen)"
      by (rule psubset_card_mono [rotated]) simp
    with Suc.prems have "card (run_id ` set (db_runs d) - set (r # seen)) < f" by linarith
    from Suc.IH [OF this] p show ?thesis by simp
  qed (auto split: option.splits)
qed simp

lemma family_root_fuel: "climb (Suc (length (db_runs d)) + k) d [] r = family_root d r"
proof -
  have "card (run_id ` set (db_runs d)) \<le> length (db_runs d)"
    by (metis card_image_le card_length finite_set le_trans)
  then show ?thesis unfolding family_root_def by (intro climb_enough) simp
qed

lemma family_row_mem:
  assumes "i \<in> set ids" "find_run i d = Some r" "\<not> dry_run_only d r"
  shows "\<exists>h. (r, h) \<in> set (family_rows d ids)"
    and "h \<in> set (db_handoffs d) \<Longrightarrow> ho_run h = i \<Longrightarrow> ho_type h \<noteq> ''system_alert'' \<Longrightarrow> (r, Some h) \<in> set (family_rows d ids)"
proof -
  let ?hs = "filter (\<lambda>h. ho_run h = i \<and> ho_type h \<noteq> ''system_alert'') (db_handoffs d)"
  have sub: "set (case ?hs of [] \<Rightarrow> [(r, None)] | hs \<Rightarrow> map (\<lambda>h. (r, Some h)) hs) \<subseteq> set (family_rows d ids)"
    using assms unfolding family_rows_def by force
  show "\<exists>h. (r, h) \<in> set (family_rows d ids)" using sub by (cases ?hs) auto
  show "(r, Some h) \<in> set (family_rows d ids)" if "h \<in> set (db_handoffs d)" "ho_run h = i" "ho_type h \<noteq> ''system_alert''"
  proof -
    have m: "h \<in> set ?hs" using that by simp
    then have "(r, Some h) \<in> set (case ?hs of [] \<Rightarrow> [(r, None)] | hs \<Rightarrow> map (\<lambda>h. (r, Some h)) hs)"
      by (cases ?hs) (auto simp del: set_filter)
    with sub show ?thesis by blast
  qed
qed

text \<open>The retry guard looks at the whole family of a run and lets a retry through only when
  it is quiet. Every run reachable from the root of the family by parent links that is not a dry
  run is (the checked run itself excepted for an email-only retry) neither queued, running nor
  awaiting a receipt, and none of its research handoffs is published, queued or uncertain; for a
  stored mail no such handoff was accepted or is uncertain, by its status, its attempts or its
  receipts.\<close>

theorem retry_family_clear:
  assumes "require_retry_family_clear run email_only prepared d = Inr ()"
    and "(parent_edge d)\<^sup>*\<^sup>* (family_root d run) (run_id r)" "find_run (run_id r) d = Some r" "\<not> dry_run_only d r"
  shows "(email_only \<and> run_id r = run \<or> \<not> pending_run r) \<and>
    (\<forall>h \<in> set (db_handoffs d). ho_run h = run_id r \<longrightarrow> ho_type h \<noteq> ''system_alert'' \<longrightarrow>
       (email_only \<and> run_id r = run \<or> \<not> pending_handoff h) \<and> (prepared \<longrightarrow> \<not> delivered_or_uncertain d h))"
proof -
  let ?ids = "family d (family_root d run)"
  from assms(2) have m: "run_id r \<in> set ?ids" by (simp add: family_iff)
  have c: "\<forall>p \<in> set (family_rows d ?ids). check_family_row run email_only prepared d p = Inr ()"
    using assms(1) by (simp add: require_retry_family_clear_def each_Inr)
  from family_row_mem(1) [OF m assms(3,4)] c obtain h where "check_family_row run email_only prepared d (r, h) = Inr ()"
    by blast
  then have "email_only \<and> run_id r = run \<or> \<not> pending_run r"
    by (auto simp: check_family_row_def split: if_splits)
  moreover have "(email_only \<and> run_id r = run \<or> \<not> pending_handoff h) \<and> (prepared \<longrightarrow> \<not> delivered_or_uncertain d h)"
    if "h \<in> set (db_handoffs d)" "ho_run h = run_id r" "ho_type h \<noteq> ''system_alert''" for h
  proof -
    from family_row_mem(2) [OF m assms(3,4) that] c have "check_family_row run email_only prepared d (r, Some h) = Inr ()"
      by blast
    then show ?thesis by (auto simp: check_family_row_def split: if_splits)
  qed
  ultimately show ?thesis by blast
qed

definition family_db :: db where
  "family_db = empty_db\<lparr>db_runs := [(sample_run ''r1'' ''t1'')\<lparr>run_status := Failed\<rparr>,
     (sample_run ''r2'' ''t1'')\<lparr>run_status := Failed, run_parent := Some ''r1''\<rparr>]\<rparr>"

theorem retry_family_clear_witness:
  "\<not> pending_run ((sample_run ''r1'' ''t1'')\<lparr>run_status := Failed\<rparr>)"
proof -
  have "require_retry_family_clear ''r2'' False True family_db = Inr ()" by code_simp
  moreover have "family_root family_db ''r2'' = ''r1''" by code_simp
  moreover have "find_run ''r1'' family_db = Some ((sample_run ''r1'' ''t1'')\<lparr>run_status := Failed\<rparr>)"
    by (simp add: find_run_def family_db_def sample_run_def)
  moreover have "\<not> dry_run_only family_db ((sample_run ''r1'' ''t1'')\<lparr>run_status := Failed\<rparr>)" by code_simp
  ultimately show ?thesis
    using retry_family_clear [of "''r2''" False True family_db "(sample_run ''r1'' ''t1'')\<lparr>run_status := Failed\<rparr>"]
    by (simp add: sample_run_def)
qed

text \<open>C7: the single version gate of publication, preflight and SMTP submission: when it passes,
  the task is live (not deleted, in handoff mode), and either the version is the active one, or,
  in production only and never for a system alert, the run carries an authorization whose stored
  text matches its digest, the run is neither cancelled nor dry, its parent has the same task and
  version, and the delivery settings of the pinned active version equal those of the run's own
  version and match the authorized digest.\<close>

theorem delivery_version_gate:
  assumes "assert_delivery_version sha d task h run production system_alert = Inr ()"
  shows "\<exists>active. delivery_status d task = Inr active \<and>
    (active = h \<or> (production \<and> \<not> system_alert \<and> (\<exists>a r k p source current.
      read_delivery_authorization sha d (default [] run) = Inr (Some (JDict a)) \<and>
      run_controls d (default [] run) = Some (r, k) \<and> \<not> ctl_dry k \<and> \<not> ctl_cancel k \<and>
      run_task r = task \<and> run_version r = h \<and> run_trigger r \<in> set REPLAY_TRIGGERS \<and>
      find_run (default [] (run_parent r)) d = Some p \<and> run_task p = task \<and> run_version p = h \<and>
      dget a ''active_task_version_hash'' = JStr active \<and>
      delivery_of d task h = Inr source \<and> delivery_of d task active = Inr current \<and>
      pyeq (JDict source) (JDict current) \<and> dget a ''delivery_contract_sha256'' = JStr (contract_sha sha source))))"
proof -
  from assms obtain active where ac: "delivery_status d task = Inr active"
    by (auto simp: assert_delivery_version_def and_then_Inr)
  show ?thesis
  proof (cases "active = h")
    case False
    with assms ac have n: "\<not> system_alert" by (auto simp: assert_delivery_version_def check_Inr split: if_splits)
    let ?run = "default [] run"
    from assms ac n False obtain auth where au: "read_delivery_authorization sha d ?run = Inr (Some auth)" "production"
      by (cases run) (auto simp: assert_delivery_version_def and_then_Inr check_Inr split: if_splits option.splits)
    from assms ac n au obtain r k where rk: "run_controls d ?run = Some (r, k)" "run_task r = task" "run_version r = h"
      "\<not> ctl_dry k" "\<not> ctl_cancel k" "validate_delivery_authorization sha r auth d = Inr ()"
      using False by (cases run) (auto simp: assert_delivery_version_def and_then_Inr check_Inr split: if_splits option.splits)
    from rk(6) obtain a where a: "auth = JDict a"
      by (cases auth) (auto simp: validate_delivery_authorization_def encode_delivery_authorization_def)
    from rk(6) [unfolded a] rk(2,3) ac obtain p source current where
      "run_trigger r \<in> set REPLAY_TRIGGERS" "find_run (default [] (run_parent r)) d = Some p"
      "run_task p = task" "run_version p = h" "dget a ''active_task_version_hash'' = JStr active"
      "delivery_of d task h = Inr source" "delivery_of d task active = Inr current"
      "pyeq (JDict source) (JDict current)" "dget a ''delivery_contract_sha256'' = JStr (contract_sha sha source)"
      unfolding validate_delivery_authorization_def
      by (auto simp: and_then_Inr check_Inr Let_def split: if_splits option.splits)
    with ac n au rk a show ?thesis by blast
  qed (use ac in blast)
qed

theorem delivery_version_gate_witness:
  "\<exists>active. delivery_status sample_db ''t1'' = Inr active"
proof -
  have "assert_delivery_version (\<lambda>s. s) sample_db ''t1'' ''v1'' (Some ''r1'') True False = Inr ()" by code_simp
  from delivery_version_gate [OF this] show ?thesis by blast
qed

end
