(* ===== verification/Run_Repo.thy ===== *)
theory Run_Repo imports Authorization Timeline begin

text \<open>
  \<open>RunRepository\<close> of \<open>storage/repositories.py\<close>: queueing of runs with their plan and delivery
  authorization, the run state machine, claims and fenced leases, cancellation and cleanup
  evidence, and the fenced result writes. Random tokens are arguments. The constraints of the
  schema that an insertion can violate are the branches that return \<open>IntegrityError\<close>.
\<close>

section \<open>Queueing\<close>

definition is_replay :: "string \<Rightarrow> bool" where
  "is_replay t = (t \<in> set REPLAY_TRIGGERS)"

text \<open>\<open>INSERT INTO scheduled_runs\<close> under its keys, checks and references.\<close>

definition run_constraints :: "run_row \<Rightarrow> db \<Rightarrow> bool" where
  "run_constraints r d = (find_run (run_id r) d = None \<and> find_task (run_task r) d \<noteq> None
     \<and> some_row (\<lambda>v. ver_task v = run_task r \<and> ver_hash v = run_version r) (db_versions d)
     \<and> (case run_parent r of None \<Rightarrow> True | Some p \<Rightarrow> p = run_id r \<or> find_run p d \<noteq> None)
     \<and> 0 \<le> run_attempt r \<and> 0 < run_generation r
     \<and> (run_trigger r = ''schedule'' \<longrightarrow>
          \<not> some_row (\<lambda>x. run_task x = run_task r \<and> run_due x = run_due r \<and> run_trigger x = ''schedule'') (db_runs d)))"

definition insert_run :: "run_row \<Rightarrow> bool \<Rightarrow> int \<Rightarrow> db \<Rightarrow> db res" where
  "insert_run r dry revision d =
    (if \<not> run_constraints r d then Inl (IntegrityError ''scheduled_runs'')
     else if some_row (\<lambda>k. ctl_run k = run_id r) (db_controls d) \<or> revision \<le> 0
       then Inl (IntegrityError ''execution_controls'')
     else Inr (d\<lparr>db_runs := db_runs d @ [r],
       db_controls := db_controls d @ [\<lparr>ctl_run = run_id r, ctl_cancel = False, ctl_dry = dry,
          ctl_revision = revision, ctl_cleanup = False\<rparr>]\<rparr>))"

definition insert_execution_plan :: "(string \<Rightarrow> string) \<Rightarrow> string \<Rightarrow> json \<Rightarrow> db \<Rightarrow> db res" where
  "insert_execution_plan sha run plan d = and_then (encode_execution_plan sha plan) (\<lambda>(raw, digest).
     and_then (ins ''run_execution_plans'' blob_run \<lparr>blob_run = run, blob_raw = raw, blob_sha = digest\<rparr> (db_plans d))
       (\<lambda>t. Inr (d\<lparr>db_plans := t\<rparr>)))"

definition normalize_due :: "string \<Rightarrow> int res" where
  "normalize_due text = (case fromiso (replace_z text) of
     None \<Rightarrow> Inl (ValueError ''isoformat'')
   | Some (Naive t) \<Rightarrow> Inl (ValidationError ''explicit offset'')
   | Some (Aware t off) \<Rightarrow> if representable t then Inr t else Inl (OverflowError ''date value''))"

definition find_command :: "string \<Rightarrow> string \<Rightarrow> db \<Rightarrow> command_row option" where
  "find_command task key d = sel1 (\<lambda>c. cmd_task c = task \<and> cmd_key c = key) (db_commands d)"

definition stored_mail_ready :: "run_row \<Rightarrow> bool \<Rightarrow> db \<Rightarrow> bool" where
  "stored_mail_ready r dry d = (case (case run_parent r of None \<Rightarrow> None | Some p \<Rightarrow> run_controls d p) of
     None \<Rightarrow> False
   | Some (p, k) \<Rightarrow> run_task p = run_task r \<and> run_version p = run_version r
       \<and> run_status p \<in> {Failed, TimedOut} \<and> \<not> ctl_cancel k \<and> ctl_cleanup k \<and> \<not> ctl_dry k \<and> \<not> dry
       \<and> \<not> some_row (\<lambda>c. claim_task c = run_task r) (db_claims d)
       \<and> \<not> some_row (\<lambda>h. ho_run h = run_id p \<and> ho_type h \<noteq> ''system_alert'') (db_handoffs d))"

text \<open>The guards of a new run, after the request key was found unused.\<close>

definition new_run_guards :: "run_row \<Rightarrow> bool \<Rightarrow> string option \<Rightarrow> db \<Rightarrow> unit res" where
  "new_run_guards r dry expected d =
     and_then (case expected of None \<Rightarrow> Inr () | Some h \<Rightarrow>
         check (h = run_version r \<and> (case find_task (run_task r) d of None \<Rightarrow> False | Some t \<Rightarrow> task_active t = Some h))
           (ValidationError ''task changed'')) (\<lambda>_.
     and_then (case run_parent r of None \<Rightarrow> Inr () | Some p \<Rightarrow>
         if p \<noteq> [] \<and> \<not> dry \<and> is_replay (run_trigger r)
         then require_retry_family_clear p False (run_trigger r = ''delivery_only'') d else Inr ()) (\<lambda>_.
       if run_trigger r = ''delivery_only''
       then check (stored_mail_ready r dry d) (ValidationError ''stored mail not ready'') else Inr ()))"

definition store_authorization :: "(string \<Rightarrow> string) \<Rightarrow> run_row \<Rightarrow> bool \<Rightarrow> json option \<Rightarrow> db \<Rightarrow> db res" where
  "store_authorization sha r dry auth d = (case auth of None \<Rightarrow> Inr d | Some a \<Rightarrow>
     if dry \<or> run_trigger r = ''candidate_dry_run'' then Inl (ValidationError ''dry-run authorization'')
     else and_then (validate_delivery_authorization sha r a d) (\<lambda>_.
       and_then (encode_delivery_authorization sha a) (\<lambda>(raw, digest).
       and_then (ins ''run_delivery_authorizations'' blob_run \<lparr>blob_run = run_id r, blob_raw = raw, blob_sha = digest\<rparr>
           (db_authorizations d)) (\<lambda>t. Inr (d\<lparr>db_authorizations := t\<rparr>)))))"

definition store_command :: "string \<Rightarrow> string option \<Rightarrow> string \<Rightarrow> string \<Rightarrow> db \<Rightarrow> db res" where
  "store_command task key run request d = (case key of None \<Rightarrow> Inr d | Some k \<Rightarrow>
     if k = [] then Inr d
     else if some_row (\<lambda>c. (cmd_task c = task \<and> cmd_key c = k) \<or> cmd_run c = run) (db_commands d)
       then Inl (IntegrityError ''run_commands'')
     else Inr (d\<lparr>db_commands := db_commands d @ [\<lparr>cmd_task = task, cmd_key = k, cmd_run = run, cmd_request = request\<rparr>]\<rparr>))"

record run_request =
  rr_due :: string
  rr_dry :: bool
  rr_revision :: int
  rr_key :: "string option"
  rr_payload :: dict
  rr_expected :: "string option"
  rr_plan :: "json option"
  rr_auth :: "json option"

definition prior_command :: "string \<Rightarrow> string option \<Rightarrow> db \<Rightarrow> command_row option" where
  "prior_command task key d = (case key of None \<Rightarrow> None | Some k \<Rightarrow> if k = [] then None else find_command task k d)"

definition create_run :: "env \<Rightarrow> (string \<Rightarrow> string) \<Rightarrow> run_row \<Rightarrow> run_request \<Rightarrow> db \<Rightarrow> (run_row \<times> db) res" where
  "create_run e sha run0 q d =
     and_then (normalize_due (rr_due q)) (\<lambda>due. let r = run0\<lparr>run_due := due\<rparr> in
     and_then (require_catalog_active ''task'' (JStr (run_task r)) d) (\<lambda>_.
     and_then (case find_version (run_version r) d of None \<Rightarrow> Inr ()
         | Some v \<Rightarrow> require_catalog_references e (ver_definition v) d) (\<lambda>_.
       let request = dumps_compact (JDict (rr_payload q)) in
       case prior_command (run_task r) (rr_key q) d of
         Some c \<Rightarrow> if cmd_request c \<noteq> request then Inl (ValidationError ''request key reused'')
           else (case find_run (cmd_run c) d of None \<Rightarrow> Inl (TypeError ''row'') | Some x \<Rightarrow> Inr (x, d))
       | None \<Rightarrow>
         and_then (new_run_guards r (rr_dry q) (rr_expected q) d) (\<lambda>_.
         and_then (insert_run r (rr_dry q \<or> run_trigger r = ''candidate_dry_run'') (rr_revision q) d) (\<lambda>d1.
         and_then (case rr_plan q of None \<Rightarrow> Inr d1 | Some p \<Rightarrow> insert_execution_plan sha (run_id r) p d1) (\<lambda>d2.
         and_then (store_authorization sha r (rr_dry q) (rr_auth q) d2) (\<lambda>d3.
         and_then (store_command (run_task r) (rr_key q) (run_id r) request d3) (\<lambda>d4. Inr (r, d4)))))))))"

definition get_execution_plan :: "(string \<Rightarrow> string) \<Rightarrow> string \<Rightarrow> db \<Rightarrow> json option res" where
  "get_execution_plan sha run d = (case sel1 (\<lambda>b. blob_run b = run) (db_plans d) of
     None \<Rightarrow> Inr None
   | Some b \<Rightarrow> and_then (strict_json_loads (blob_raw b) DEFAULT_MAX_JSON_BYTES) (\<lambda>v.
       and_then (encode_execution_plan sha v) (\<lambda>(raw, digest).
         if raw \<noteq> blob_raw b \<or> digest \<noteq> blob_sha b then Inl (ValidationError ''plan integrity'') else Inr (Some v))))"

definition get_run_command :: "string \<Rightarrow> string \<Rightarrow> db \<Rightarrow> (string \<times> json) option res" where
  "get_run_command task key d = (case find_command task key d of None \<Rightarrow> Inr None
     | Some c \<Rightarrow> and_then (strict_json_loads (cmd_request c) DEFAULT_MAX_JSON_BYTES) (\<lambda>v. Inr (Some (cmd_run c, v))))"

definition list_runs :: "string option \<Rightarrow> run_state option \<Rightarrow> int \<Rightarrow> db \<Rightarrow> run_row list" where
  "list_runs task status limit d =
    (let rows = sort_key (\<lambda>r. - run_created r) (sel (\<lambda>r.
        (case task of None \<Rightarrow> True | Some t \<Rightarrow> t = [] \<or> run_task r = t)
        \<and> (case status of None \<Rightarrow> True | Some s \<Rightarrow> run_status r = s)) (db_runs d))
     in if limit < 0 then rows else take (nat limit) rows)"

section \<open>The run state machine\<close>

fun run_transitions :: "run_state \<Rightarrow> run_state list" where
  "run_transitions Queued = [Queued, Running, Cancelled, Failed, NeedsAttention]"
| "run_transitions Running = [Running, AwaitingReceipt, Succeeded, Failed, TimedOut, Cancelled, NeedsAttention]"
| "run_transitions AwaitingReceipt = [AwaitingReceipt, Succeeded, Failed, NeedsAttention]"
| "run_transitions s = [s]"

definition terminal :: "run_state \<Rightarrow> bool" where
  "terminal s = (s \<in> {Succeeded, Failed, TimedOut, Cancelled, NeedsAttention})"

record status_update =
  su_status :: run_state
  su_phase :: run_phase
  su_attempt :: "int option"
  su_started :: "int option"
  su_finished :: "int option"
  su_error :: "string option"
  su_token :: "string option"
  su_expected :: "run_state option"

definition token_given :: "string option \<Rightarrow> bool" where
  "token_given t = (case t of None \<Rightarrow> False | Some s \<Rightarrow> s \<noteq> [])"

definition find_lease :: "string \<Rightarrow> db \<Rightarrow> lease_row option" where
  "find_lease run d = sel1 (\<lambda>l. lease_run l = run) (db_leases d)"

definition or_else :: "'a option \<Rightarrow> 'a option \<Rightarrow> 'a option" where
  "or_else a b = (case a of None \<Rightarrow> b | Some x \<Rightarrow> Some x)"

definition apply_update :: "int \<Rightarrow> status_update \<Rightarrow> run_row \<Rightarrow> run_row" where
  "apply_update t u r = r\<lparr>run_status := su_status u, run_phase := su_phase u, run_progress := Some t,
     run_attempt := default (run_attempt r) (su_attempt u), run_started := or_else (su_started u) (run_started r),
     run_finished := or_else (su_finished u) (run_finished r), run_error := or_else (su_error u) (run_error r)\<rparr>"

definition update_run_status :: "env \<Rightarrow> string \<Rightarrow> status_update \<Rightarrow> db \<Rightarrow> (unit \<times> db) res" where
  "update_run_status e run u d = (case find_run run d of
     None \<Rightarrow> Inl (ValidationError ''run does not exist'')
   | Some r \<Rightarrow>
       if su_expected u \<noteq> None \<and> su_expected u \<noteq> Some (run_status r) then Inl (ConcurrencyError ''run state changed'')
       else if su_status u \<notin> set (run_transitions (run_status r)) then Inl (ConcurrencyError ''invalid transition'')
       else and_then (case find_lease run d of
           Some l \<Rightarrow> if su_token u \<noteq> Some (lease_token l) \<or> lease_expires l \<le> now e
             then Inl (ConcurrencyError ''live fencing token'') else Inr ()
         | None \<Rightarrow> if token_given (su_token u) then Inl (ConcurrencyError ''lease no longer exists'') else Inr ())
         (\<lambda>_.
           if terminal (run_status r) \<and> su_status u \<noteq> run_status r then Inl (ConcurrencyError ''terminal run'')
           else if default 0 (su_attempt u) < 0 then Inl (IntegrityError ''scheduled_runs'')
           else Inr ((), d\<lparr>db_runs := upd (\<lambda>x. run_id x = run) (apply_update (now e) u) (db_runs d)\<rparr>)))"

section \<open>Claims and leases\<close>

definition claim_candidates :: "int \<Rightarrow> string option \<Rightarrow> db \<Rightarrow> run_row list" where
  "claim_candidates t run d = sel (\<lambda>r. run_status r = Queued \<and> \<not> some_row (\<lambda>c. claim_task c = run_task r) (db_claims d)
     \<and> run_due r \<le> t \<and> (case run of None \<Rightarrow> True | Some i \<Rightarrow> i = [] \<or> run_id r = i)) (db_runs d)"

definition insert_claim :: "claim_row \<Rightarrow> db \<Rightarrow> db res" where
  "insert_claim c d = (if some_row (\<lambda>x. claim_task x = claim_task c \<or> claim_run x = claim_run c
       \<or> claim_token x = claim_token c) (db_claims d)
     then Inl (IntegrityError ''task_claims'') else Inr (d\<lparr>db_claims := db_claims d @ [c]\<rparr>))"

definition insert_lease :: "lease_row \<Rightarrow> db \<Rightarrow> db res" where
  "insert_lease l d = and_then (ins ''run_leases'' lease_run l (db_leases d)) (\<lambda>t. Inr (d\<lparr>db_leases := t\<rparr>))"

definition default_control :: "string \<Rightarrow> control_row" where
  "default_control run = \<lparr>ctl_run = run, ctl_cancel = False, ctl_dry = False, ctl_revision = 1, ctl_cleanup = False\<rparr>"

definition claim_next_run :: "env \<Rightarrow> string \<Rightarrow> int \<Rightarrow> int \<Rightarrow> string option \<Rightarrow> string \<Rightarrow> db \<Rightarrow>
    ((run_row \<times> lease_row) option \<times> db) res" where
  "claim_next_run e worker lease_seconds max_running run token d =
    (if max_running \<le> int (length (db_claims d)) then Inr (None, d)
     else (case least_by (\<lambda>r. (run_created r, run_id r)) (claim_candidates (now e) run d) of
         None \<Rightarrow> Inr (None, d)
       | Some r \<Rightarrow>
           let lease = \<lparr>lease_run = run_id r, lease_worker = worker, lease_attempt = run_attempt r + 1, lease_token = token,
                 lease_claimed = now e, lease_heartbeat = now e, lease_expires = now e + lease_seconds * 1000000\<rparr>
           in and_then (insert_claim \<lparr>claim_task = run_task r, claim_run = run_id r, claim_token = token, claim_at = now e\<rparr> d) (\<lambda>d1.
              and_then (insert_lease lease d1) (\<lambda>d2.
                Inr (Some (r\<lparr>run_status := Running, run_phase := PhPreflight, run_attempt := run_attempt r + 1,
                       run_started := Some (now e)\<rparr>, lease),
                  d2\<lparr>db_runs := upd (\<lambda>x. run_id x = run_id r \<and> run_status x = Queued)
                       (\<lambda>x. x\<lparr>run_status := Running, run_phase := PhPreflight, run_attempt := run_attempt r + 1,
                          run_started := Some (now e), run_heartbeat := Some (now e)\<rparr>) (db_runs d2),
                     db_controls := ins_ignore ctl_run (default_control (run_id r)) (db_controls d2)\<rparr>)))))"

definition assert_run_owner :: "env \<Rightarrow> string \<Rightarrow> string \<Rightarrow> bool \<Rightarrow> db \<Rightarrow> unit res" where
  "assert_run_owner e run token allow_cancel d = (case owner_row run token d of
     None \<Rightarrow> Inl (ConcurrencyError ''no live task lease'')
   | Some (r, l, k) \<Rightarrow> if run_status r \<noteq> Running \<or> lease_expires l \<le> now e then Inl (ConcurrencyError ''no live task lease'')
       else if cancel_requested k \<and> \<not> allow_cancel then Inl (ConcurrencyError ''cancellation requested'') else Inr ())"

definition get_execution_controls :: "string \<Rightarrow> db \<Rightarrow> control_row" where
  "get_execution_controls run d = default (default_control run) (ctl_of d run)"

definition set_force_dry_run :: "string \<Rightarrow> bool \<Rightarrow> db \<Rightarrow> (unit \<times> db) res" where
  "set_force_dry_run run value d =
    (if some_row (\<lambda>k. ctl_run k = run) (db_controls d) \<and> some_row (\<lambda>r. run_id r = run \<and> run_status r = Queued) (db_runs d)
     then Inr ((), d\<lparr>db_controls := upd (\<lambda>k. ctl_run k = run) (\<lambda>k. k\<lparr>ctl_dry := value\<rparr>) (db_controls d)\<rparr>)
     else Inl (ConcurrencyError ''execution mode''))"

definition request_cancel :: "env \<Rightarrow> string \<Rightarrow> db \<Rightarrow> (unit \<times> db) res" where
  "request_cancel e run d = Inr ((), d\<lparr>
     db_controls := upd (\<lambda>k. ctl_run k = run) (\<lambda>k. k\<lparr>ctl_cancel := True\<rparr>) (db_controls d),
     db_runs := upd (\<lambda>r. run_id r = run \<and> run_status r = Queued)
       (\<lambda>r. r\<lparr>run_status := Cancelled, run_phase := PhFinalize, run_finished := Some (now e),
          run_error := Some ''Cancelled before execution''\<rparr>) (db_runs d)\<rparr>)"

definition mark_cleanup_verified :: "string \<Rightarrow> string \<Rightarrow> db \<Rightarrow> (unit \<times> db) res" where
  "mark_cleanup_verified run token d = Inr ((),
     if some_row (\<lambda>c. claim_run c = run \<and> claim_token c = token) (db_claims d)
     then d\<lparr>db_controls := upd (\<lambda>k. ctl_run k = run) (\<lambda>k. k\<lparr>ctl_cleanup := True\<rparr>) (db_controls d)\<rparr> else d)"

definition mark_stale_attention :: "env \<Rightarrow> string \<Rightarrow> string \<Rightarrow> db \<Rightarrow> (unit \<times> db) res" where
  "mark_stale_attention e run token d = Inr ((),
     if some_row (\<lambda>l. lease_run l = run \<and> lease_token l = token \<and> lease_expires l < now e) (db_leases d)
     then d\<lparr>db_runs := upd (\<lambda>r. run_id r = run \<and> run_status r = Running)
       (\<lambda>r. r\<lparr>run_status := NeedsAttention, run_phase := PhFinalize,
          run_error := Some ''Stale worker lease expired; process cleanup not verified'', run_finished := Some (now e)\<rparr>)
       (db_runs d)\<rparr> else d)"

definition acquire_lease :: "lease_row \<Rightarrow> db \<Rightarrow> (bool \<times> db) res" where
  "acquire_lease l d =
    (if find_lease (lease_run l) d \<noteq> None then Inr (False, d)
     else (case find_run (lease_run l) d of None \<Rightarrow> Inr (False, d)
       | Some r \<Rightarrow> if some_row (\<lambda>c. claim_task c = run_task r) (db_claims d) then Inr (False, d)
           else and_then (insert_claim \<lparr>claim_task = run_task r, claim_run = lease_run l, claim_token = lease_token l,
                  claim_at = lease_claimed l\<rparr> d) (\<lambda>d1.
                and_then (insert_lease l d1) (\<lambda>d2. Inr (True, d2)))))"

definition heartbeat_lease :: "env \<Rightarrow> string \<Rightarrow> string \<Rightarrow> int \<Rightarrow> db \<Rightarrow> (bool \<times> db) res" where
  "heartbeat_lease e run token expires d =
    (let mine = (\<lambda>l. lease_run l = run \<and> lease_token l = token \<and> now e < lease_expires l)
     in if some_row mine (db_leases d)
        then Inr (True, d\<lparr>db_leases := upd mine (\<lambda>l. l\<lparr>lease_heartbeat := now e, lease_expires := expires\<rparr>) (db_leases d),
               db_runs := upd (\<lambda>r. run_id r = run) (\<lambda>r. r\<lparr>run_heartbeat := Some (now e)\<rparr>) (db_runs d)\<rparr>)
        else Inr (False, d))"

definition release_lease :: "string \<Rightarrow> string \<Rightarrow> db \<Rightarrow> (unit \<times> db) res" where
  "release_lease run token d =
    (if (case find_run run d of None \<Rightarrow> False | Some r \<Rightarrow> run_status r \<noteq> Queued)
        \<and> (case ctl_of d run of None \<Rightarrow> True | Some k \<Rightarrow> \<not> ctl_cleanup k)
     then Inl (ConcurrencyError ''cleanup not verified'')
     else Inr ((), d\<lparr>db_leases := del (\<lambda>l. lease_run l = run \<and> lease_token l = token) (db_leases d),
        db_claims := del (\<lambda>c. claim_run c = run \<and> claim_token c = token) (db_claims d)\<rparr>))"

definition list_expired_leases :: "int \<Rightarrow> db \<Rightarrow> lease_row list" where
  "list_expired_leases t d = sel (\<lambda>l. lease_expires l < t) (db_leases d)"

definition get_active_run_for_task :: "string \<Rightarrow> db \<Rightarrow> run_row option" where
  "get_active_run_for_task task d = greatest_by run_created
     (sel (\<lambda>r. run_task r = task \<and> run_status r \<in> {Queued, Running}) (db_runs d))"

definition get_run_by_scheduled_time :: "string \<Rightarrow> int \<Rightarrow> db \<Rightarrow> run_row option" where
  "get_run_by_scheduled_time task due d = sel1 (\<lambda>r. run_task r = task \<and> run_due r = due) (db_runs d)"

section \<open>Fenced result writes\<close>

definition guard_owned_write :: "env \<Rightarrow> string \<Rightarrow> string option \<Rightarrow> db \<Rightarrow> unit res" where
  "guard_owned_write e run token d = (case find_lease run d of
     Some l \<Rightarrow> check (Some (lease_token l) = token \<and> now e < lease_expires l) (ConcurrencyError ''stale or missing token'')
   | None \<Rightarrow> check (\<not> token_given token) (ConcurrencyError ''lease no longer exists''))"

definition row_refs :: "string \<Rightarrow> string \<Rightarrow> db \<Rightarrow> bool" where
  "row_refs run task d = (find_run run d \<noteq> None \<and> find_task task d \<noteq> None)"

definition save_research_result :: "env \<Rightarrow> result_row \<Rightarrow> string option \<Rightarrow> db \<Rightarrow> (unit \<times> db) res" where
  "save_research_result e r token d = and_then (guard_owned_write e (res_run r) token d) (\<lambda>_.
     if \<not> row_refs (res_run r) (res_task r) d then Inl (IntegrityError ''research_results'')
     else and_then (ins ''research_results'' res_run (r\<lparr>res_created := now e\<rparr>) (db_results d))
       (\<lambda>t. Inr ((), d\<lparr>db_results := t\<rparr>)))"

definition save_composition_input :: "env \<Rightarrow> input_row \<Rightarrow> string option \<Rightarrow> db \<Rightarrow> (unit \<times> db) res" where
  "save_composition_input e r token d = and_then (guard_owned_write e (inp_run r) token d) (\<lambda>_.
     if \<not> row_refs (inp_run r) (inp_task r) d \<or> find_version (inp_version r) d = None then Inl (IntegrityError ''composition_inputs'')
     else and_then (ins ''composition_inputs'' (\<lambda>x. (inp_run x, inp_revision x)) (r\<lparr>inp_created := now e\<rparr>) (db_inputs d))
       (\<lambda>t. Inr ((), d\<lparr>db_inputs := t\<rparr>)))"

text \<open>The stored result: the worker's fields and the optional evidence beside them.\<close>

definition output_payload :: "output_row \<Rightarrow> json option \<Rightarrow> json option \<Rightarrow> json option \<Rightarrow> dict" where
  "output_payload r resolution binding artifacts =
     [(''recipient_group_id'', JStr (out_group r)), (''recipient_group_reason'', JStr (out_reason r)),
      (''subject'', JStr (out_subject r)), (''html_path'', JStr (out_html r)), (''text_path'', JStr (out_text r)),
      (''included_record_ids'', out_included r)]
     @ (case resolution of None \<Rightarrow> [] | Some v \<Rightarrow> [(''recipient_resolution'', v)])
     @ (case binding of None \<Rightarrow> [] | Some v \<Rightarrow> [(''composition_binding'', v)])
     @ (case artifacts of None \<Rightarrow> [] | Some v \<Rightarrow> [(''compose_artifacts'', v)])"

definition save_composition_result :: "env \<Rightarrow> output_row \<Rightarrow> int option \<Rightarrow> string option \<Rightarrow> json option \<Rightarrow> json option \<Rightarrow>
    json option \<Rightarrow> db \<Rightarrow> (unit \<times> db) res" where
  "save_composition_result e r revision token resolution binding artifacts d =
     and_then (guard_owned_write e (out_run r) token d) (\<lambda>_.
       let rev = (case revision of Some n \<Rightarrow> n | None \<Rightarrow> (case ctl_of d (out_run r) of None \<Rightarrow> 1 | Some k \<Rightarrow> ctl_revision k))
       in if \<not> row_refs (out_run r) (out_task r) d \<or> rev \<le> 0 then Inl (IntegrityError ''composition_results'')
          else and_then (ins ''composition_results'' (\<lambda>x. (out_run x, out_revision x))
              (r\<lparr>out_revision := rev, out_result := output_payload r resolution binding artifacts, out_created := now e\<rparr>)
              (db_outputs d)) (\<lambda>t. Inr ((), d\<lparr>db_outputs := t\<rparr>)))"

definition get_research_result :: "string \<Rightarrow> db \<Rightarrow> result_row option" where
  "get_research_result run d = sel1 (\<lambda>r. res_run r = run) (db_results d)"

definition get_composition_input_record :: "string \<Rightarrow> int option \<Rightarrow> db \<Rightarrow> input_row option" where
  "get_composition_input_record run revision d = greatest_by inp_revision
     (sel (\<lambda>r. inp_run r = run \<and> (case revision of None \<Rightarrow> True | Some n \<Rightarrow> inp_revision r = n)) (db_inputs d))"

definition get_composition_result :: "string \<Rightarrow> int option \<Rightarrow> db \<Rightarrow> output_row option" where
  "get_composition_result run revision d = greatest_by out_revision
     (sel (\<lambda>r. out_run r = run \<and> (case revision of None \<Rightarrow> True | Some n \<Rightarrow> out_revision r = n)) (db_outputs d))"

definition resolve_run_plan :: "(string \<Rightarrow> string) \<Rightarrow> run_row \<Rightarrow> dict \<Rightarrow> db \<Rightarrow> json res" where
  "resolve_run_plan sha r runner d = and_then (get_execution_plan sha (run_id r) d) (\<lambda>saved. case saved of
     Some v \<Rightarrow> Inr v
   | None \<Rightarrow> if run_trigger r = ''delivery_only'' then Inl (ValidationError ''immutable source plan'')
       else let scope = (if run_trigger r = ''compose_only'' then ''compose_only'' else ''full'');
                parent = (if scope = ''compose_only'' then (case run_parent r of None \<Rightarrow> None
                   | Some p \<Rightarrow> if p = [] then None
                       else get_composition_input_record p (Some (ctl_revision (get_execution_controls (run_id r) d) - 1)) d) else None);
                source = (case parent of None \<Rightarrow> JNull | Some i \<Rightarrow> JDict [(''run_id'', JStr (inp_run i)),
                   (''revision'', JInt (inp_revision i)), (''input_sha256'', JStr (inp_sha i))])
            in and_then (resolve_task_stages runner) (\<lambda>stages.
               and_then (build_execution_plan (JDict stages) (JStr scope) source
                   (JDict [(''kind'', JStr ''legacy''), (''task_version_hash'', JStr (run_version r))]) JNull) (\<lambda>p. Inr (JDict p))))"


section \<open>Histories of the repository\<close>

datatype run_op =
    OpCreate run_row run_request
  | OpUpdate string status_update
  | OpClaim string int int "string option" string
  | OpForceDry string bool
  | OpCancel string
  | OpCleanup string string
  | OpStale string string
  | OpAcquire lease_row
  | OpHeartbeat string string int
  | OpRelease string string
  | OpSteps string string int "(string \<times> json) list" "run_phase option" bool bool
  | OpSaveResult result_row "string option"
  | OpSaveInput input_row "string option"
  | OpSaveOutput output_row "int option" "string option" "json option" "json option" "json option"

fun run_step :: "(string \<Rightarrow> string) \<Rightarrow> env \<times> run_op \<Rightarrow> db \<Rightarrow> (unit \<times> db) res" where
  "run_step sha (e, OpCreate r q) d = keep (create_run e sha r q d)"
| "run_step sha (e, OpUpdate run u) d = update_run_status e run u d"
| "run_step sha (e, OpClaim worker secs mx run token) d = keep (claim_next_run e worker secs mx run token d)"
| "run_step sha (e, OpForceDry run v) d = set_force_dry_run run v d"
| "run_step sha (e, OpCancel run) d = request_cancel e run d"
| "run_step sha (e, OpCleanup run token) d = mark_cleanup_verified run token d"
| "run_step sha (e, OpStale run token) d = mark_stale_attention e run token d"
| "run_step sha (e, OpAcquire l) d = keep (acquire_lease l d)"
| "run_step sha (e, OpHeartbeat run token expires) d = keep (heartbeat_lease e run token expires d)"
| "run_step sha (e, OpRelease run token) d = release_lease run token d"
| "run_step sha (e, OpSteps run token attempt evs ph ac at) d = append_run_step_events e run token attempt evs ph ac at d"
| "run_step sha (e, OpSaveResult r token) d = save_research_result e r token d"
| "run_step sha (e, OpSaveInput r token) d = save_composition_input e r token d"
| "run_step sha (e, OpSaveOutput r rv token a b c) d = save_composition_result e r rv token a b c d"

text \<open>The part of the tables the constraints are about: of a run its identity, task, trigger and
  due time, of a lease its run and token, the claims, the runs with controls.\<close>

definition run_key :: "run_row \<Rightarrow> string \<times> string \<times> string \<times> int" where
  "run_key r = (run_id r, run_task r, run_trigger r, run_due r)"

definition lease_key :: "lease_row \<Rightarrow> string \<times> string" where
  "lease_key l = (lease_run l, lease_token l)"

definition occurrences :: "(string \<times> string \<times> string \<times> int) list \<Rightarrow> (string \<times> int) list" where
  "occurrences rs = map (\<lambda>(i, t, g, u). (t, u)) (filter (\<lambda>(i, t, g, u). g = ''schedule'') rs)"

definition keys_ok :: "(string \<times> string \<times> string \<times> int) list \<Rightarrow> (string \<times> string) list \<Rightarrow> claim_row list \<Rightarrow> string list \<Rightarrow> bool" where
  "keys_ok rs ls cs ks = (distinct (map fst rs) \<and> distinct (map fst ls) \<and> distinct ks
     \<and> distinct (map claim_task cs) \<and> distinct (map claim_run cs) \<and> distinct (map claim_token cs)
     \<and> (\<forall>l \<in> set ls. \<exists>c \<in> set cs. l = (claim_run c, claim_token c))
     \<and> (\<forall>c \<in> set cs. \<exists>r \<in> set rs. fst r = claim_run c \<and> fst (snd r) = claim_task c)
     \<and> distinct (occurrences rs))"

definition runs_ok :: "db \<Rightarrow> bool" where
  "runs_ok d = keys_ok (map run_key (db_runs d)) (map lease_key (db_leases d)) (db_claims d) (map ctl_run (db_controls d))"

text \<open>What no operation changes of a run, and the statuses it can move through.\<close>

definition run_moves :: "run_state \<Rightarrow> run_state \<Rightarrow> bool" where
  "run_moves a b = (b \<in> set (run_transitions a))"

definition run_succ :: "run_row \<Rightarrow> run_row \<Rightarrow> bool" where
  "run_succ r s = (run_key s = run_key r \<and> run_version s = run_version r \<and> run_parent s = run_parent r
     \<and> run_created s = run_created r \<and> run_moves\<^sup>*\<^sup>* (run_status r) (run_status s))"

definition runs_le :: "db \<Rightarrow> db \<Rightarrow> bool" where
  "runs_le d d' = (extends run_succ (db_runs d) (db_runs d')
     \<and> extends (=) (db_results d) (db_results d') \<and> extends (=) (db_inputs d) (db_inputs d')
     \<and> extends (=) (db_outputs d) (db_outputs d') \<and> extends (=) (db_plans d) (db_plans d')
     \<and> extends (=) (db_authorizations d) (db_authorizations d') \<and> extends (=) (db_commands d) (db_commands d'))"


lemma run_succ_refl: "run_succ r r"
  by (simp add: run_succ_def)

lemma run_succ_trans: "run_succ r s \<Longrightarrow> run_succ s t \<Longrightarrow> run_succ r t"
  by (auto simp: run_succ_def)

lemma moves_terminal: "run_moves\<^sup>*\<^sup>* a b \<Longrightarrow> terminal a \<Longrightarrow> b = a"
  by (induction rule: rtranclp_induct) (auto simp: run_moves_def terminal_def)

lemma runs_le_refl: "runs_le d d"
  by (simp add: runs_le_def extends_refl run_succ_refl)

lemma extends_runs_trans: "extends run_succ a b \<Longrightarrow> extends run_succ b c \<Longrightarrow> extends run_succ a c"
  by (rule extends_trans) (auto intro: run_succ_trans)

lemma runs_le_trans: "runs_le a b \<Longrightarrow> runs_le b c \<Longrightarrow> runs_le a c"
  unfolding runs_le_def by (metis extends_runs_trans extends_eq_trans)

text \<open>Changing runs in place, outside their keys, changes nothing of the constraints.\<close>

lemma run_key_upd: "(\<And>r. run_key (f r) = run_key r) \<Longrightarrow> map run_key (upd p f t) = map run_key t"
  by (rule upd_map_key)

lemma runs_upd:
  assumes "runs_ok d" "\<And>r. p r \<Longrightarrow> run_succ r (f r)"
  shows "runs_ok (d\<lparr>db_runs := upd p f (db_runs d)\<rparr>) \<and> runs_le d (d\<lparr>db_runs := upd p f (db_runs d)\<rparr>)"
proof -
  have "map run_key (upd p f (db_runs d)) = map run_key (db_runs d)"
    using assms(2) by (simp add: upd_def run_succ_def)
  moreover have "extends run_succ (db_runs d) (upd p f (db_runs d))"
    by (rule extends_upd) (use assms(2) run_succ_refl in auto)
  ultimately show ?thesis
    using assms(1) by (simp add: runs_ok_def runs_le_def extends_refl)
qed

lemma controls_upd:
  assumes "\<And>k. ctl_run (f k) = ctl_run k"
  shows "runs_ok (d\<lparr>db_controls := upd p f (db_controls d)\<rparr>) = runs_ok d"
    and "runs_le d0 (d\<lparr>db_controls := upd p f (db_controls d)\<rparr>) = runs_le d0 d"
  using assms by (simp_all add: runs_ok_def runs_le_def upd_map_key)

lemma keys_ok_claim:
  assumes "keys_ok rs ls cs ks" "claim_task c \<notin> claim_task ` set cs" "claim_run c \<notin> claim_run ` set cs"
    "claim_token c \<notin> claim_token ` set cs" "\<exists>r \<in> set rs. fst r = claim_run c \<and> fst (snd r) = claim_task c"
    "claim_run c \<notin> fst ` set ls"
  shows "keys_ok rs (ls @ [(claim_run c, claim_token c)]) (cs @ [c]) ks"
  using assms unfolding keys_ok_def by auto

text \<open>Claim and lease are taken together, for a run of the table.\<close>

lemma claim_lease_ok:
  assumes "runs_ok d" "insert_claim c d = Inr d1" "insert_lease l d1 = Inr d2"
    "lease_run l = claim_run c" "lease_token l = claim_token c"
    "find_run (claim_run c) d = Some r" "run_task r = claim_task c"
  shows "runs_ok d2 \<and> runs_le d d2"
proof -
  from assms(2) have c: "\<forall>x \<in> set (db_claims d). claim_task x \<noteq> claim_task c \<and> claim_run x \<noteq> claim_run c
      \<and> claim_token x \<noteq> claim_token c" and d1: "d1 = d\<lparr>db_claims := db_claims d @ [c]\<rparr>"
    by (auto simp: insert_claim_def some_row_iff split: if_splits)
  from assms(3) d1 have l: "\<forall>x \<in> set (db_leases d). lease_run x \<noteq> lease_run l"
    and d2: "d2 = d\<lparr>db_claims := db_claims d @ [c], db_leases := db_leases d @ [l]\<rparr>"
    by (auto simp: insert_lease_def and_then_Inr ins_Inr)
  from assms(6) have "r \<in> set (db_runs d)" "run_id r = claim_run c"
    by (auto simp: find_run_def dest: sel1_Some)
  then have "\<exists>k \<in> set (map run_key (db_runs d)). fst k = claim_run c \<and> fst (snd k) = claim_task c"
    using assms(7) by (force simp: run_key_def)
  moreover have "claim_run c \<notin> fst ` set (map lease_key (db_leases d))"
    using l assms(4) by (auto simp: lease_key_def)
  moreover have "claim_task c \<notin> claim_task ` set (db_claims d)" "claim_run c \<notin> claim_run ` set (db_claims d)"
    "claim_token c \<notin> claim_token ` set (db_claims d)"
    using c by auto
  ultimately have "runs_ok d2"
    using keys_ok_claim assms(1,4,5) by (simp add: runs_ok_def d2 lease_key_def)
  moreover have "runs_le d d2" by (simp add: runs_le_def d2 extends_refl run_succ_refl)
  ultimately show ?thesis ..
qed

lemma store_command_table:
  assumes "store_command task key run request d = Inr d'"
  shows "\<exists>cmds. d' = d\<lparr>db_commands := cmds\<rparr> \<and> extends (=) (db_commands d) cmds \<and>
    (token_given key \<longrightarrow> cmds = db_commands d @ [\<lparr>cmd_task = task, cmd_key = default [] key, cmd_run = run, cmd_request = request\<rparr>])"
proof (cases "token_given key")
  case False
  then have "d' = d\<lparr>db_commands := db_commands d\<rparr>"
    using assms by (cases key) (simp_all add: store_command_def token_given_def)
  with False show ?thesis by (intro exI [of _ "db_commands d"]) (simp add: extends_refl)
next
  case True
  then obtain k where "key = Some k" "k \<noteq> []" by (cases key) (auto simp: token_given_def)
  with assms show ?thesis by (auto simp: store_command_def extends_append split: if_splits)
qed

lemma create_run_tables:
  assumes "create_run e sha r0 q d = Inr (r, d')"
  obtains (prior) c where "d' = d" "prior_command (run_task r0) (rr_key q) d = Some c"
    | (new) plans auths cmds where "run_constraints r d" "\<not> some_row (\<lambda>k. ctl_run k = run_id r) (db_controls d)"
      "extends (=) (db_plans d) plans" "extends (=) (db_authorizations d) auths" "extends (=) (db_commands d) cmds"
      "d' = d\<lparr>db_runs := db_runs d @ [r], db_controls := db_controls d @ [\<lparr>ctl_run = run_id r, ctl_cancel = False,
          ctl_dry = rr_dry q \<or> run_trigger r = ''candidate_dry_run'', ctl_revision = rr_revision q, ctl_cleanup = False\<rparr>],
        db_plans := plans, db_authorizations := auths, db_commands := cmds\<rparr>"
      "prior_command (run_task r0) (rr_key q) d = None" "run_task r = run_task r0"
      "token_given (rr_key q) \<longrightarrow> cmds = db_commands d @ [\<lparr>cmd_task = run_task r, cmd_key = default [] (rr_key q),
         cmd_run = run_id r, cmd_request = dumps_compact (JDict (rr_payload q))\<rparr>]"
proof -
  from assms obtain due where due: "normalize_due (rr_due q) = Inr due" by (auto simp: create_run_def and_then_Inr)
  let ?r = "r0\<lparr>run_due := due\<rparr>" and ?req = "dumps_compact (JDict (rr_payload q))"
  show thesis
  proof (cases "prior_command (run_task ?r) (rr_key q) d")
    case (Some c)
    with assms due have "d' = d"
      by (simp add: create_run_def and_then_Inr Let_def split: if_splits option.splits)
    with Some show thesis by (intro prior) simp_all
  next
    case None
    let ?dry = "rr_dry q \<or> run_trigger ?r = ''candidate_dry_run''"
    from assms due None obtain d1 d2 d3 where h: "insert_run ?r ?dry (rr_revision q) d = Inr d1"
      "(case rr_plan q of None \<Rightarrow> Inr d1 | Some p \<Rightarrow> insert_execution_plan sha (run_id ?r) p d1) = Inr d2"
      "store_authorization sha ?r (rr_dry q) (rr_auth q) d2 = Inr d3"
      "store_command (run_task ?r) (rr_key q) (run_id ?r) ?req d3 = Inr d'" and r: "r = ?r"
      by (simp add: create_run_def Let_def) (auto simp: and_then_Inr)
    let ?d1 = "d\<lparr>db_runs := db_runs d @ [r], db_controls := db_controls d @ [\<lparr>ctl_run = run_id r, ctl_cancel = False,
          ctl_dry = rr_dry q \<or> run_trigger r = ''candidate_dry_run'', ctl_revision = rr_revision q, ctl_cleanup = False\<rparr>]\<rparr>"
    from h(1) r have c: "run_constraints r d" "\<not> some_row (\<lambda>k. ctl_run k = run_id r) (db_controls d)" "d1 = ?d1"
      by (auto simp: insert_run_def split: if_splits)
    from h(2) obtain plans where p: "d2 = d1\<lparr>db_plans := plans\<rparr>" "extends (=) (db_plans d1) plans"
      using that [of "db_plans d1"] by (cases "rr_plan q") (auto simp: insert_execution_plan_def and_then_Inr ins_Inr extends_refl extends_append)
    from h(3) obtain auths where a: "d3 = d2\<lparr>db_authorizations := auths\<rparr>" "extends (=) (db_authorizations d2) auths"
      using that [of "db_authorizations d2"] by (cases "rr_auth q") (auto simp: store_authorization_def and_then_Inr ins_Inr extends_refl extends_append split: if_splits)
    from store_command_table [OF h(4)] obtain cmds where m: "d' = d3\<lparr>db_commands := cmds\<rparr>" "extends (=) (db_commands d3) cmds"
      "token_given (rr_key q) \<longrightarrow> cmds = db_commands d3 @ [\<lparr>cmd_task = run_task ?r, cmd_key = default [] (rr_key q),
         cmd_run = run_id ?r, cmd_request = ?req\<rparr>]" by blast
    have t: "db_commands d3 = db_commands d" "db_authorizations d2 = db_authorizations d" "db_plans d1 = db_plans d"
      using a(1) p(1) c(3) by simp_all
    have "d' = ?d1\<lparr>db_plans := plans, db_authorizations := auths, db_commands := cmds\<rparr>"
      unfolding m(1) a(1) p(1) c(3) by simp
    moreover have "prior_command (run_task r0) (rr_key q) d = None" using None by simp
    moreover have "run_task r = run_task r0" by (simp add: r)
    ultimately show thesis
      by (intro new [of plans auths cmds] c(1,2) p(2) [unfolded t] a(2) [unfolded t] m(2) [unfolded t] m(3) [unfolded t r [symmetric]])
        simp_all
  qed
qed


lemma keys_ok_run:
  assumes "keys_ok rs ls cs ks" "fst k \<notin> fst ` set rs" "fst k \<notin> set ks"
    "fst (snd (snd k)) = ''schedule'' \<longrightarrow> (fst (snd k), snd (snd (snd k))) \<notin> set (occurrences rs)"
  shows "keys_ok (rs @ [k]) ls cs (ks @ [fst k])"
proof -
  have "distinct (occurrences (rs @ [k]))"
    using assms(1,4) by (cases k) (auto simp: occurrences_def keys_ok_def)
  with assms(1-3) show ?thesis by (auto simp: keys_ok_def)
qed

lemma create_run_ok:
  assumes "runs_ok d" "create_run e sha r0 q d = Inr (r, d')"
  shows "runs_ok d' \<and> runs_le d d'"
  using assms(2)
proof (cases rule: create_run_tables)
  case prior
  with assms(1) show ?thesis by (simp add: runs_le_refl)
next
  case (new plans auths cmds)
  have "run_id r \<notin> run_id ` set (db_runs d)"
    using new(1) by (auto simp: run_constraints_def find_run_def sel1_None)
  then have f: "fst (run_key r) \<notin> fst ` set (map run_key (db_runs d))" by (auto simp: run_key_def)
  have k: "fst (run_key r) \<notin> set (map ctl_run (db_controls d))" using new(2) by (auto simp: run_key_def some_row_iff)
  have o: "fst (snd (snd (run_key r))) = ''schedule'' \<longrightarrow>
      (fst (snd (run_key r)), snd (snd (snd (run_key r)))) \<notin> set (occurrences (map run_key (db_runs d)))"
    using new(1) by (auto simp: run_constraints_def run_key_def occurrences_def some_row_iff)
  have "runs_ok d'"
    using keys_ok_run [OF assms(1) [unfolded runs_ok_def] f k o] by (simp add: runs_ok_def new(6) run_key_def)
  moreover have "runs_le d d'"
    using new(3-5) by (simp add: runs_le_def new(6) extends_refl extends_append run_succ_refl)
  ultimately show ?thesis ..
qed

lemma apply_update_succ: "su_status u \<in> set (run_transitions (run_status r)) \<Longrightarrow> run_succ r (apply_update t u r)"
  by (auto simp: run_succ_def apply_update_def run_key_def run_moves_def)

lemma find_run_unique:
  assumes "runs_ok d" "find_run i d = Some r" "x \<in> set (db_runs d)" "run_id x = i"
  shows "x = r"
proof -
  from assms(2) have "r \<in> set (db_runs d)" "run_id r = i" by (auto simp: find_run_def dest: sel1_Some)
  moreover from assms(1) have "distinct (map run_id (db_runs d))"
    by (simp add: runs_ok_def keys_ok_def run_key_def comp_def)
  ultimately show ?thesis using assms(3,4) by (metis distinct_map_same)
qed

lemma runs_upd_mem:
  assumes "runs_ok d" "\<And>r. r \<in> set (db_runs d) \<Longrightarrow> p r \<Longrightarrow> run_succ r (f r)"
  shows "runs_ok (d\<lparr>db_runs := upd p f (db_runs d)\<rparr>) \<and> runs_le d (d\<lparr>db_runs := upd p f (db_runs d)\<rparr>)"
proof -
  let ?p = "\<lambda>r. p r \<and> r \<in> set (db_runs d)"
  have "upd p f (db_runs d) = upd ?p f (db_runs d)" by (simp add: upd_def)
  with runs_upd [OF assms(1), of ?p f] assms(2) show ?thesis by auto
qed

lemma update_run_status_ok:
  assumes "runs_ok d" "update_run_status e run u d = Inr (x, d')"
  shows "runs_ok d' \<and> runs_le d d'"
proof -
  from assms(2) obtain r where r: "find_run run d = Some r" "su_status u \<in> set (run_transitions (run_status r))"
    "d' = d\<lparr>db_runs := upd (\<lambda>x. run_id x = run) (apply_update (now e) u) (db_runs d)\<rparr>"
    by (auto simp: update_run_status_def and_then_Inr split: option.splits if_splits)
  show ?thesis unfolding r(3)
    by (rule runs_upd_mem [OF assms(1)]) (use find_run_unique [OF assms(1) r(1)] r(2) apply_update_succ in auto)
qed

lemma claim_next_run_cases:
  assumes "claim_next_run e worker secs mx run token d = Inr (res, d')"
  obtains (idle) "res = None" "d' = d"
    | (claimed) r lease d1 d2 where "int (length (db_claims d)) < mx"
      "least_by (\<lambda>r. (run_created r, run_id r)) (claim_candidates (now e) run d) = Some r"
      "lease_run lease = run_id r" "lease_token lease = token" "lease_attempt lease = run_attempt r + 1"
      "lease_expires lease = now e + secs * 1000000"
      "insert_claim \<lparr>claim_task = run_task r, claim_run = run_id r, claim_token = token, claim_at = now e\<rparr> d = Inr d1"
      "insert_lease lease d1 = Inr d2"
      "res = Some (r\<lparr>run_status := Running, run_phase := PhPreflight, run_attempt := run_attempt r + 1,
          run_started := Some (now e)\<rparr>, lease)"
      "d' = d2\<lparr>db_runs := upd (\<lambda>x. run_id x = run_id r \<and> run_status x = Queued)
            (\<lambda>x. x\<lparr>run_status := Running, run_phase := PhPreflight, run_attempt := run_attempt r + 1,
               run_started := Some (now e), run_heartbeat := Some (now e)\<rparr>) (db_runs d2),
          db_controls := ins_ignore ctl_run (default_control (run_id r)) (db_controls d2)\<rparr>"
proof (cases "int (length (db_claims d)) < mx")
  case False
  with assms show thesis by (intro idle) (auto simp: claim_next_run_def)
next
  case True
  show thesis
  proof (cases "least_by (\<lambda>r. (run_created r, run_id r)) (claim_candidates (now e) run d)")
    case None
    with assms True show thesis by (intro idle) (auto simp: claim_next_run_def)
  next
    case (Some r)
    let ?l = "\<lparr>lease_run = run_id r, lease_worker = worker, lease_attempt = run_attempt r + 1, lease_token = token,
                 lease_claimed = now e, lease_heartbeat = now e, lease_expires = now e + secs * 1000000\<rparr>"
    from assms True Some obtain d1 d2 where
      "insert_claim \<lparr>claim_task = run_task r, claim_run = run_id r, claim_token = token, claim_at = now e\<rparr> d = Inr d1"
      "insert_lease ?l d1 = Inr d2" "res = Some (r\<lparr>run_status := Running, run_phase := PhPreflight,
          run_attempt := run_attempt r + 1, run_started := Some (now e)\<rparr>, ?l)"
      "d' = d2\<lparr>db_runs := upd (\<lambda>x. run_id x = run_id r \<and> run_status x = Queued)
            (\<lambda>x. x\<lparr>run_status := Running, run_phase := PhPreflight, run_attempt := run_attempt r + 1,
               run_started := Some (now e), run_heartbeat := Some (now e)\<rparr>) (db_runs d2),
          db_controls := ins_ignore ctl_run (default_control (run_id r)) (db_controls d2)\<rparr>"
      by (auto simp: claim_next_run_def and_then_Inr Let_def)
    from claimed [OF True Some _ _ _ _ this] show thesis by simp
  qed
qed

lemma candidate_facts:
  assumes "least_by key (claim_candidates t run d) = Some r"
  shows "r \<in> set (db_runs d)" "run_status r = Queued" "run_due r \<le> t"
    "\<forall>c \<in> set (db_claims d). claim_task c \<noteq> run_task r"
    "\<forall>x \<in> set (claim_candidates t run d). key r \<le> key x"
  using least_by_Some [OF assms] by (auto simp: claim_candidates_def some_row_iff)

lemma find_run_mem:
  assumes "runs_ok d" "r \<in> set (db_runs d)"
  shows "find_run (run_id r) d = Some r"
proof -
  from assms(1) have "distinct (map run_id (db_runs d))"
    by (simp add: runs_ok_def keys_ok_def run_key_def comp_def)
  with assms(2) show ?thesis unfolding find_run_def by (simp add: sel1_unique)
qed

lemma ins_ignore_controls:
  assumes "runs_ok d"
  shows "runs_ok (d\<lparr>db_controls := ins_ignore ctl_run k (db_controls d)\<rparr>)"
    and "runs_le d0 (d\<lparr>db_controls := t\<rparr>) = runs_le d0 d"
  using assms ins_ignore_distinct [of ctl_run "db_controls d" k] by (simp_all add: runs_ok_def keys_ok_def runs_le_def)

lemma claim_next_run_ok:
  assumes "runs_ok d" "claim_next_run e worker secs mx run token d = Inr (x, d')"
  shows "runs_ok d' \<and> runs_le d d'"
  using assms(2)
proof (cases rule: claim_next_run_cases)
  case idle
  with assms(1) show ?thesis by (simp add: runs_le_refl)
next
  case (claimed r lease d1 d2)
  from candidate_facts(1) [OF claimed(2)] have "find_run (run_id r) d = Some r"
    by (rule find_run_mem [OF assms(1)])
  with claim_lease_ok [OF assms(1) claimed(7,8), of r] claimed(3,4) have a: "runs_ok d2" "runs_le d d2" by auto
  let ?d3 = "d2\<lparr>db_runs := upd (\<lambda>x. run_id x = run_id r \<and> run_status x = Queued)
            (\<lambda>x. x\<lparr>run_status := Running, run_phase := PhPreflight, run_attempt := run_attempt r + 1,
               run_started := Some (now e), run_heartbeat := Some (now e)\<rparr>) (db_runs d2)\<rparr>"
  have "runs_ok ?d3 \<and> runs_le d2 ?d3"
    by (rule runs_upd [OF a(1)]) (simp add: run_succ_def run_key_def run_moves_def r_into_rtranclp)
  then have b: "runs_ok ?d3" "runs_le d ?d3" using a(2) runs_le_trans by blast+
  have "d' = ?d3\<lparr>db_controls := ins_ignore ctl_run (default_control (run_id r)) (db_controls ?d3)\<rparr>"
    using claimed(10) by simp
  with ins_ignore_controls(1) [OF b(1)] ins_ignore_controls(2) [OF b(1)] b(2) show ?thesis by simp
qed

lemma release_lease_ok:
  assumes "runs_ok d" "release_lease run token d = Inr (x, d')"
  shows "runs_ok d' \<and> runs_le d d'"
proof -
  from assms(2) have d': "d' = d\<lparr>db_leases := del (\<lambda>l. lease_run l = run \<and> lease_token l = token) (db_leases d),
        db_claims := del (\<lambda>c. claim_run c = run \<and> claim_token c = token) (db_claims d)\<rparr>"
    by (auto simp: release_lease_def split: if_splits)
  have m: "map lease_key (del (\<lambda>l. lease_run l = run \<and> lease_token l = token) (db_leases d))
      = filter (\<lambda>k. k \<noteq> (run, token)) (map lease_key (db_leases d))"
    by (induction "db_leases d") (auto simp: del_def lease_key_def filter_map comp_def)
  have "runs_ok d'"
    using assms(1) unfolding runs_ok_def d' keys_ok_def
    by (simp add: m del_map_distinct distinct_map_filter) fastforce
  moreover have "runs_le d d'" by (simp add: runs_le_def d' extends_refl run_succ_refl)
  ultimately show ?thesis ..
qed

lemma append_events_frame:
  "append_events e run evs s d = Inr d' \<Longrightarrow> \<exists>a q. d' = d\<lparr>db_audit := a, db_audit_seq := q\<rparr>"
proof (induction e run evs s d rule: append_events.induct)
  case (1 e run s d)
  then have "d' = d\<lparr>db_audit := db_audit d, db_audit_seq := db_audit_seq d\<rparr>" by simp
  then show ?case by blast
next
  case (2 e run ty v evs s d)
  then show ?case by (fastforce simp: and_then_Inr audit_def Let_def)
qed

lemma append_steps_ok:
  assumes "runs_ok d" "append_run_step_events e run token attempt evs ph ac at d = Inr (x, d')"
  shows "runs_ok d' \<and> runs_le d d'"
proof -
  from assms(2) obtain es s d1 where h: "append_events e run es s d = Inr d1" "d' = set_coarse_phase (now e) run ph d1"
    by (rule append_step_events_cases)
  from append_events_frame [OF h(1)] obtain a q where d1: "d1 = d\<lparr>db_audit := a, db_audit_seq := q\<rparr>" by blast
  have b: "runs_ok d1" "runs_le d d1"
    using assms(1) by (simp_all add: d1 runs_ok_def runs_le_def extends_refl run_succ_refl)
  show ?thesis
  proof (cases ph)
    case (Some p)
    have "runs_ok d' \<and> runs_le d1 d'"
      unfolding h(2) set_coarse_phase_def Some option.case
      by (rule runs_upd [OF b(1)]) (simp add: run_succ_def run_key_def)
    with b(2) show ?thesis using runs_le_trans by blast
  qed (use b h(2) in \<open>simp add: set_coarse_phase_def\<close>)
qed

lemma acquire_lease_ok:
  assumes "runs_ok d" "acquire_lease l d = Inr (x, d')"
  shows "runs_ok d' \<and> runs_le d d'"
proof -
  from assms(2) consider "d' = d" | r d1 where "find_run (lease_run l) d = Some r"
    "insert_claim \<lparr>claim_task = run_task r, claim_run = lease_run l, claim_token = lease_token l, claim_at = lease_claimed l\<rparr> d = Inr d1"
    "insert_lease l d1 = Inr d'"
    by (auto simp: acquire_lease_def and_then_Inr split: if_splits option.splits)
  then show ?thesis
  proof cases
    case 1
    with assms(1) show ?thesis by (simp add: runs_le_refl)
  next
    case 2
    from claim_lease_ok [OF assms(1) 2(2,3), of r] 2(1) show ?thesis by simp
  qed
qed

lemma heartbeat_lease_ok:
  assumes "runs_ok d" "heartbeat_lease e run token expires d = Inr (x, d')"
  shows "runs_ok d' \<and> runs_le d d'"
proof -
  let ?mine = "\<lambda>l. lease_run l = run \<and> lease_token l = token \<and> now e < lease_expires l"
  let ?d1 = "d\<lparr>db_leases := upd ?mine (\<lambda>l. l\<lparr>lease_heartbeat := now e, lease_expires := expires\<rparr>) (db_leases d)\<rparr>"
  have b: "runs_ok ?d1" "runs_le d ?d1"
    using assms(1) by (simp_all add: runs_ok_def runs_le_def extends_refl run_succ_refl upd_map_key lease_key_def)
  have "runs_ok (?d1\<lparr>db_runs := upd (\<lambda>r. run_id r = run) (\<lambda>r. r\<lparr>run_heartbeat := Some (now e)\<rparr>) (db_runs ?d1)\<rparr>)
      \<and> runs_le ?d1 (?d1\<lparr>db_runs := upd (\<lambda>r. run_id r = run) (\<lambda>r. r\<lparr>run_heartbeat := Some (now e)\<rparr>) (db_runs ?d1)\<rparr>)"
    by (rule runs_upd [OF b(1)]) (simp add: run_succ_def run_key_def)
  with b(2) runs_le_trans assms show ?thesis
    by (auto simp: heartbeat_lease_def Let_def runs_le_refl split: if_splits)
qed

lemma request_cancel_ok:
  assumes "runs_ok d" "request_cancel e run d = Inr (x, d')"
  shows "runs_ok d' \<and> runs_le d d'"
proof -
  let ?d1 = "d\<lparr>db_controls := upd (\<lambda>k. ctl_run k = run) (\<lambda>k. k\<lparr>ctl_cancel := True\<rparr>) (db_controls d)\<rparr>"
  let ?f = "\<lambda>r. r\<lparr>run_status := Cancelled, run_phase := PhFinalize, run_finished := Some (now e),
          run_error := Some ''Cancelled before execution''\<rparr>"
  have b: "runs_ok ?d1" "runs_le d ?d1" using assms(1) by (simp_all add: controls_upd runs_le_refl)
  have "runs_ok (?d1\<lparr>db_runs := upd (\<lambda>r. run_id r = run \<and> run_status r = Queued) ?f (db_runs ?d1)\<rparr>) \<and>
      runs_le ?d1 (?d1\<lparr>db_runs := upd (\<lambda>r. run_id r = run \<and> run_status r = Queued) ?f (db_runs ?d1)\<rparr>)"
    by (rule runs_upd [OF b(1)]) (simp add: run_succ_def run_key_def run_moves_def r_into_rtranclp)
  with b(2) runs_le_trans assms(2) show ?thesis by (auto simp: request_cancel_def)
qed

lemma mark_stale_ok:
  assumes "runs_ok d" "mark_stale_attention e run token d = Inr (x, d')"
  shows "runs_ok d' \<and> runs_le d d'"
proof -
  have "runs_ok (d\<lparr>db_runs := upd (\<lambda>r. run_id r = run \<and> run_status r = Running)
       (\<lambda>r. r\<lparr>run_status := NeedsAttention, run_phase := PhFinalize,
          run_error := Some ''Stale worker lease expired; process cleanup not verified'', run_finished := Some (now e)\<rparr>)
       (db_runs d)\<rparr>) \<and> runs_le d (d\<lparr>db_runs := upd (\<lambda>r. run_id r = run \<and> run_status r = Running)
       (\<lambda>r. r\<lparr>run_status := NeedsAttention, run_phase := PhFinalize,
          run_error := Some ''Stale worker lease expired; process cleanup not verified'', run_finished := Some (now e)\<rparr>)
       (db_runs d)\<rparr>)"
    by (rule runs_upd [OF assms(1)]) (simp add: run_succ_def run_key_def run_moves_def r_into_rtranclp)
  with assms show ?thesis by (auto simp: mark_stale_attention_def runs_le_refl split: if_splits)
qed

lemma control_ops_ok:
  assumes "runs_ok d"
  shows "set_force_dry_run run v d = Inr (x, d') \<Longrightarrow> runs_ok d' \<and> runs_le d d'"
    and "mark_cleanup_verified run token d = Inr (x, d') \<Longrightarrow> runs_ok d' \<and> runs_le d d'"
  using assms by (auto simp: set_force_dry_run_def mark_cleanup_verified_def controls_upd runs_le_refl split: if_splits)

lemma result_ops_ok:
  assumes "runs_ok d"
  shows "save_research_result e r token d = Inr (x, d') \<Longrightarrow> runs_ok d' \<and> runs_le d d'"
    and "save_composition_input e i token d = Inr (x, d') \<Longrightarrow> runs_ok d' \<and> runs_le d d'"
    and "save_composition_result e p n token a b c d = Inr (x, d') \<Longrightarrow> runs_ok d' \<and> runs_le d d'"
  using assms by (auto simp: save_research_result_def save_composition_input_def save_composition_result_def Let_def
      and_then_Inr ins_Inr runs_ok_def runs_le_def extends_refl extends_append run_succ_refl split: if_splits)

lemma run_step_ok: "runs_ok d \<Longrightarrow> run_step sha x d = Inr (u, d') \<Longrightarrow> runs_ok d' \<and> runs_le d d'"
  by (cases x, cases "snd x")
    (auto simp: keep_def and_then_Inr dest: create_run_ok update_run_status_ok claim_next_run_ok request_cancel_ok
      mark_stale_ok control_ops_ok acquire_lease_ok heartbeat_lease_ok release_lease_ok append_steps_ok result_ops_ok)

interpretation runs: monotone_ops "run_step sha" runs_ok runs_le for sha
proof unfold_locales
  show "runs_ok s'" if "runs_ok s" "run_step sha x s = Inr (r, s')" for s x r s'
    using run_step_ok [OF that] by blast
  show "runs_le s s'" if "runs_ok s" "run_step sha x s = Inr (r, s')" for s x r s'
    using run_step_ok [OF that] by blast
qed (auto intro: runs_le_refl runs_le_trans)


text \<open>What an operation writes to the audit log: only the step events of a run.\<close>

fun op_events :: "env \<times> run_op \<Rightarrow> (string \<times> string \<times> json) list" where
  "op_events (e, OpSteps run token attempt evs ph ac at) = map (\<lambda>(ty, v). (run, ty, v)) evs"
| "op_events (e, x) = []"

fun recorded :: "(string \<Rightarrow> string) \<Rightarrow> (env \<times> run_op) list \<Rightarrow> db \<Rightarrow> (string \<times> string \<times> json) list" where
  "recorded sha [] d = []"
| "recorded sha (x # xs) d = (case run_step sha x d of Inl er \<Rightarrow> recorded sha xs d | Inr (u, d') \<Rightarrow> op_events x @ recorded sha xs d')"

definition logged :: "db \<Rightarrow> (string \<times> string \<times> json) list \<Rightarrow> db \<Rightarrow> bool" where
  "logged d events d' = (\<exists>log. db_audit d' = db_audit d @ log
     \<and> map (\<lambda>v. (ev_entity v, ev_key v, ev_type v, JDict (ev_details v))) log = map (Pair ''run'') events)"

lemma logged_refl: "db_audit d' = db_audit d \<Longrightarrow> logged d [] d'"
  by (simp add: logged_def)

lemma logged_trans: "logged a xs b \<Longrightarrow> logged b ys c \<Longrightarrow> logged a (xs @ ys) c"
  by (auto simp: logged_def)

lemma append_events_logged:
  "append_events e run evs s d = Inr d' \<Longrightarrow> logged d (map (\<lambda>(ty, v). (run, ty, JDict v)) evs) d'"
proof (induction e run evs s d rule: append_events.induct)
  case (1 e run s d)
  then show ?case by (simp add: logged_refl)
next
  case (2 e run ty v evs s d)
  then obtain s' where s': "append_events e run evs s' (audit e ''run'' run ty v ''run-worker'' (step_instant ty v) d) = Inr d'"
    by (auto simp: and_then_Inr)
  have "logged d [(run, ty, JDict v)] (audit e ''run'' run ty v ''run-worker'' (step_instant ty v) d)"
    by (simp add: logged_def audit_def Let_def)
  from logged_trans [OF this "2.IH" [OF s']] show ?case by simp
qed

lemma set_coarse_audit: "db_audit (set_coarse_phase t run ph d) = db_audit d"
  by (cases ph) (simp_all add: set_coarse_phase_def)

lemma append_steps_logged:
  assumes "append_run_step_events e run token attempt evs ph ac at d = Inr (x, d')"
  shows "logged d (map (\<lambda>(ty, v). (run, ty, v)) evs) d'"
proof -
  from assms obtain es s d1 where h: "validate_events attempt evs = Inr es" "append_events e run es s d = Inr d1" "d' = set_coarse_phase (now e) run ph d1"
    by (rule append_step_events_cases)
  have "map (\<lambda>(ty, v). (ty, JDict v)) es = evs" using validate_events_types [OF h(1)] by auto
  then have "map (\<lambda>(ty, v). (run, ty, JDict v)) es = map (\<lambda>(ty, v). (run, ty, v)) evs" by auto
  with append_events_logged [OF h(2)] show ?thesis by (simp add: logged_def h(3) set_coarse_audit)
qed

lemma insert_rows_audit:
  "insert_claim c d = Inr d' \<Longrightarrow> db_audit d' = db_audit d" "insert_lease l d = Inr d' \<Longrightarrow> db_audit d' = db_audit d"
  by (auto simp: insert_claim_def insert_lease_def and_then_Inr split: if_splits)

lemma create_run_audit: "create_run e sha r0 q d = Inr (r, d') \<Longrightarrow> db_audit d' = db_audit d"
  by (erule create_run_tables) simp_all

lemma claim_audit: "claim_next_run e worker secs mx run token d = Inr (x, d') \<Longrightarrow> db_audit d' = db_audit d"
  by (erule claim_next_run_cases) (auto dest!: insert_rows_audit)

lemma run_step_logged:
  assumes "run_step sha x d = Inr (u, d')"
  shows "logged d (op_events x) d'"
proof (cases x)
  case (Pair e y)
  show ?thesis
  proof (cases y)
    case (OpSteps run token attempt evs ph ac at)
    with assms Pair append_steps_logged show ?thesis by auto
  next
    case (OpClaim worker secs mx run token)
    with assms Pair claim_audit show ?thesis by (auto simp: keep_def and_then_Inr intro!: logged_refl)
  next
    case (OpCreate r q)
    with assms Pair show ?thesis by (auto simp: keep_def and_then_Inr intro!: logged_refl dest: create_run_audit)
  next
    case (OpAcquire l)
    with assms Pair show ?thesis
      by (auto simp: keep_def and_then_Inr acquire_lease_def intro!: logged_refl dest!: insert_rows_audit split: if_splits option.splits)
  qed (use assms Pair in \<open>auto simp: keep_def and_then_Inr update_run_status_def set_force_dry_run_def request_cancel_def
      mark_cleanup_verified_def mark_stale_attention_def heartbeat_lease_def release_lease_def save_research_result_def
      save_composition_input_def save_composition_result_def Let_def intro!: logged_refl split: if_splits option.splits\<close>)
qed

lemma exec_logged: "logged d (recorded sha ops d) (exec (run_step sha) ops d)"
proof (induction ops arbitrary: d)
  case Nil
  then show ?case by (simp add: logged_refl)
next
  case (Cons x xs)
  show ?case
  proof (cases "run_step sha x d")
    case (Inl er)
    with Cons [of d] show ?thesis by (simp add: commit_def)
  next
    case (Inr y)
    obtain u d' where y: "y = (u, d')" by (cases y)
    from logged_trans [OF run_step_logged [OF Inr [unfolded y]] Cons] show ?thesis by (simp add: Inr y commit_def)
  qed
qed


section \<open>Properties\<close>

text \<open>C5: after any history of repository operations, failing ones included and under any clock,
  the constraints hold (one claim per task and per run, every lease backed by the claim with its
  token, one scheduled run per occurrence), every run is still there with its identity, version,
  parent and creation time, has moved only along the transitions of the state machine, and stays
  in its terminal status once it has one; results, inputs, outputs, plans, authorizations and
  commands are only appended; and the audit log is the old one followed by exactly the step events of
  the operations that succeeded, in their order.\<close>

theorem run_history:
  assumes "runs_ok d"
  shows "runs_ok (exec (run_step sha) ops d) \<and> runs_le d (exec (run_step sha) ops d) \<and>
    (\<forall>r \<in> set (db_runs d). \<exists>s \<in> set (db_runs (exec (run_step sha) ops d)). run_succ r s \<and>
       (terminal (run_status r) \<longrightarrow> run_status s = run_status r))
    \<and> logged d (recorded sha ops d) (exec (run_step sha) ops d)"
proof -
  have le: "runs_le d (exec (run_step sha) ops d)" by (rule runs.exec_le [OF assms])
  then have "extends run_succ (db_runs d) (db_runs (exec (run_step sha) ops d))" by (simp add: runs_le_def)
  then have "\<forall>r \<in> set (db_runs d). \<exists>s \<in> set (db_runs (exec (run_step sha) ops d)). run_succ r s"
    by (blast intro: extends_mem)
  then have "\<forall>r \<in> set (db_runs d). \<exists>s \<in> set (db_runs (exec (run_step sha) ops d)). run_succ r s \<and>
       (terminal (run_status r) \<longrightarrow> run_status s = run_status r)"
    using moves_terminal unfolding run_succ_def by blast
  with le runs.exec_inv [OF assms] exec_logged show ?thesis by blast
qed

definition short_history :: "(env \<times> run_op) list" where
  "short_history = [(sample_env, OpSteps ''r1'' ''f'' 1 [(''run_step_started'', sample_event)] (Some PhResearch) False False),
     (sample_env, OpSteps ''r1'' ''stale'' 1 [(''run_step_started'', sample_event)] None False False),
     (sample_env, OpCancel ''r1''), (sample_env, OpRelease ''r1'' ''f'')]"

theorem run_history_witness:
  "runs_ok (exec (run_step (\<lambda>s. s)) short_history sample_db)
     \<and> logged sample_db [(''r1'', ''run_step_started'', sample_event)] (exec (run_step (\<lambda>s. s)) short_history sample_db)"
proof -
  have "runs_ok sample_db" "recorded (\<lambda>s. s) short_history sample_db = [(''r1'', ''run_step_started'', sample_event)]" by code_simp+
  with run_history [of sample_db "\<lambda>s. s" short_history] show ?thesis by simp
qed

text \<open>C4: mutual exclusion. After any history, no two claims are on one task, no two on one run and no two
  have one token; and at most one execution owns a task: two tokens that pass the owner join on runs
  of the same task are the same token of the same run under the same lease.\<close>

theorem one_owner_per_task:
  assumes "runs_ok d" "d' = exec (run_step sha) ops d"
  shows "distinct (map claim_task (db_claims d')) \<and> distinct (map claim_run (db_claims d')) \<and> distinct (map claim_token (db_claims d'))
    \<and> (\<forall>r1 t1 a1 l1 k1 r2 t2 a2 l2 k2. owner_row r1 t1 d' = Some (a1, l1, k1) \<and> owner_row r2 t2 d' = Some (a2, l2, k2)
        \<and> run_task a1 = run_task a2 \<longrightarrow> r1 = r2 \<and> t1 = t2 \<and> l1 = l2)"
proof -
  have ok: "runs_ok d'" unfolding assms(2) by (rule runs.exec_inv [OF assms(1)])
  have claim: "\<exists>c \<in> set (db_claims d'). claim_run c = r \<and> claim_token c = t \<and> claim_task c = run_task a
      \<and> l \<in> set (db_leases d') \<and> lease_run l = r"
    if o: "owner_row r t d' = Some (a, l, k)" for r t a l k
  proof -
    from o obtain c where c: "c \<in> set (db_claims d')" "claim_run c = r" "claim_token c = t"
      and a: "sel1 (\<lambda>x. run_id x = r) (db_runs d') = Some a"
      and l: "sel1 (\<lambda>x. lease_run x = r \<and> lease_token x = t) (db_leases d') = Some l"
      by (auto simp: owner_row_def some_row_iff split: option.splits if_splits)
    from ok c(1) obtain x where x: "x \<in> set (db_runs d')" "run_id x = claim_run c" "run_task x = claim_task c"
      by (auto simp: runs_ok_def keys_ok_def run_key_def)
    with c(2) a have "x = a" using find_run_unique [OF ok, of r a x] by (simp add: find_run_def)
    moreover have "l \<in> set (db_leases d') \<and> lease_run l = r" using sel1_Some [OF l] by simp
    ultimately show ?thesis using c(2,3) x(3) by (intro bexI [OF _ c(1)]) simp
  qed
  from ok have d: "distinct (map claim_task (db_claims d'))" "distinct (map claim_run (db_claims d'))" "distinct (map claim_token (db_claims d'))"
      "distinct (map lease_run (db_leases d'))"
    by (simp_all add: runs_ok_def keys_ok_def lease_key_def comp_def)
  have "r1 = r2 \<and> t1 = t2 \<and> l1 = l2"
    if o: "owner_row r1 t1 d' = Some (a1, l1, k1)" "owner_row r2 t2 d' = Some (a2, l2, k2)" "run_task a1 = run_task a2" for r1 t1 a1 l1 k1 r2 t2 a2 l2 k2
  proof -
    from claim [OF o(1)] claim [OF o(2)] o(3) obtain c1 c2 where
      c: "c1 \<in> set (db_claims d')" "claim_run c1 = r1" "claim_token c1 = t1" "c2 \<in> set (db_claims d')"
      "claim_run c2 = r2" "claim_token c2 = t2" "claim_task c1 = claim_task c2"
      "l1 \<in> set (db_leases d')" "l2 \<in> set (db_leases d')" "lease_run l1 = r1" "lease_run l2 = r2" by metis
    with d show ?thesis by (metis distinct_map_same)
  qed
  with d show ?thesis by blast
qed

text \<open>A second run of the claimed task and one of another task wait while two workers ask for work.\<close>

definition contested_db :: db where
  "contested_db = sample_db\<lparr>db_runs := db_runs sample_db @ [sample_run ''r2'' ''t1'', sample_run ''r3'' ''t2'']\<rparr>"

definition contest :: "(env \<times> run_op) list" where
  "contest = [(sample_env, OpClaim ''w2'' 60 5 (Some ''r2'') ''g''), (sample_env, OpAcquire (sample_lease\<lparr>lease_run := ''r2'', lease_token := ''h''\<rparr>)),
     (sample_env, OpClaim ''w2'' 60 5 None ''k'')]"

theorem one_owner_per_task_witness:
  "\<exists>d'. d' = exec (run_step (\<lambda>s. s)) contest contested_db \<and> map claim_token (db_claims d') = [''f'', ''k''] \<and> distinct (map claim_task (db_claims d'))
     \<and> owner_row ''r1'' ''f'' d' \<noteq> None \<and> owner_row ''r3'' ''k'' d' \<noteq> None \<and> owner_row ''r2'' ''g'' d' = None \<and> owner_row ''r2'' ''h'' d' = None"
proof -
  let ?d = "exec (run_step (\<lambda>s. s)) contest contested_db"
  have ok: "runs_ok contested_db" by code_simp
  note t = one_owner_per_task [OF ok, of ?d "\<lambda>s. s" contest, OF refl]
  note one = t [THEN conjunct1] and alone = t [THEN conjunct2, THEN conjunct2, THEN conjunct2, rule_format]
  have e: "map claim_token (db_claims ?d) = [''f'', ''k'']" "owner_row ''r3'' ''k'' ?d \<noteq> None"
      "map_option run_task (find_run ''r1'' ?d) = Some ''t1''" "map_option run_task (find_run ''r2'' ?d) = Some ''t1''" by code_simp+
  have "owner_row ''r1'' ''f'' ?d \<noteq> None" by code_simp
  then obtain a l k where o: "owner_row ''r1'' ''f'' ?d = Some (a, l, k)" by auto
  have task: "run_task a = ''t1''" if "owner_row r t ?d = Some (a, l, k)" "map_option run_task (find_run r ?d) = Some ''t1''" for r t a l k
    using that by (auto simp: owner_row_def find_run_def split: option.splits if_splits)
  have none: "owner_row ''r2'' t ?d = None" for t
  proof (rule ccontr)
    assume "owner_row ''r2'' t ?d \<noteq> None"
    then obtain a2 l2 k2 where o2: "owner_row ''r2'' t ?d = Some (a2, l2, k2)" by auto
    from task [OF o e(3)] task [OF o2 e(4)] have "run_task a = run_task a2" by simp
    with o o2 have "(''r1'' :: string) = ''r2''" using alone [of "''r1''" "''f''" a l k "''r2''" t a2 l2 k2] by simp
    then show False by simp
  qed
  show ?thesis
  proof (intro exI conjI)
    show "?d = exec (run_step (\<lambda>s. s)) contest contested_db" ..
    show "owner_row ''r1'' ''f'' ?d \<noteq> None" by (simp add: o)
  qed (rule e one none)+
qed


lemma claim_inserts:
  assumes "runs_ok d" "least_by key (claim_candidates t run d) = Some r" "token \<notin> claim_token ` set (db_claims d)"
  shows "insert_claim \<lparr>claim_task = run_task r, claim_run = run_id r, claim_token = token, claim_at = t0\<rparr> d
      = Inr (d\<lparr>db_claims := db_claims d @ [\<lparr>claim_task = run_task r, claim_run = run_id r, claim_token = token, claim_at = t0\<rparr>]\<rparr>)"
    and "find_lease (run_id r) d = None"
proof -
  note f = candidate_facts [OF assms(2)]
  have other: "claim_run c \<noteq> run_id r" if c: "c \<in> set (db_claims d)" for c
  proof
    assume eq: "claim_run c = run_id r"
    from assms(1) c obtain x where "x \<in> set (db_runs d)" "run_id x = claim_run c" "run_task x = claim_task c"
      by (auto simp: runs_ok_def keys_ok_def run_key_def)
    with eq find_run_unique [OF assms(1) find_run_mem [OF assms(1) f(1)], of x] f(4) c show False by auto
  qed
  then show "insert_claim \<lparr>claim_task = run_task r, claim_run = run_id r, claim_token = token, claim_at = t0\<rparr> d
      = Inr (d\<lparr>db_claims := db_claims d @ [\<lparr>claim_task = run_task r, claim_run = run_id r, claim_token = token, claim_at = t0\<rparr>]\<rparr>)"
    using f(4) assms(3) by (auto simp: insert_claim_def some_row_iff)
  have "lease_run l \<noteq> run_id r" if l: "l \<in> set (db_leases d)" for l
  proof -
    from assms(1) l obtain c where "c \<in> set (db_claims d)" "claim_run c = lease_run l"
      by (force simp: runs_ok_def keys_ok_def lease_key_def)
    with other show ?thesis by metis
  qed
  then show "find_lease (run_id r) d = None" by (simp add: find_lease_def sel1_None)
qed

text \<open>With a fresh token the claim of the next run never fails, and it is what the scheduler
  needs: it returns nothing, changing nothing, only when the limit of concurrent claims is reached
  or no run is eligible (queued, due, its task unclaimed); otherwise it takes the eligible run
  that was created first (ties by identifier), whose task becomes claimed, within the limit; that
  run is then running under a new attempt, and its owner join succeeds with the token and a lease
  that expires the given time from now.\<close>

theorem claim_next_run_spec:
  assumes "runs_ok d" "token \<notin> claim_token ` set (db_claims d)"
  shows "\<exists>res d'. claim_next_run e worker secs mx run token d = Inr (res, d') \<and>
    (case res of
       None \<Rightarrow> d' = d \<and> (mx \<le> int (length (db_claims d)) \<or> claim_candidates (now e) run d = [])
     | Some (r, lease) \<Rightarrow> (\<exists>q \<in> set (claim_candidates (now e) run d).
         run_id r = run_id q \<and> run_status r = Running \<and> run_attempt r = run_attempt q + 1 \<and>
         (\<forall>x \<in> set (claim_candidates (now e) run d). (run_created q, run_id q) \<le> (run_created x, run_id x)) \<and>
         lease_token lease = token \<and> lease_expires lease = now e + secs * 1000000 \<and>
         int (length (db_claims d')) \<le> mx \<and> some_row (\<lambda>c. claim_task c = run_task q) (db_claims d') \<and>
         (\<exists>a k. owner_row (run_id q) token d' = Some (a, lease, k) \<and> run_status a = Running \<and>
            run_attempt a = run_attempt q + 1 \<and> \<not> terminal (run_status a))))"
proof (cases "mx \<le> int (length (db_claims d)) \<or> claim_candidates (now e) run d = []")
  case True
  then have "claim_next_run e worker secs mx run token d = Inr (None, d)"
    by (auto simp: claim_next_run_def)
  with True show ?thesis by auto
next
  case False
  let ?key = "\<lambda>r. (run_created r, run_id r)"
  from False obtain q where q: "least_by ?key (claim_candidates (now e) run d) = Some q"
    by (cases "least_by ?key (claim_candidates (now e) run d)") (auto simp: least_by_None)
  note f = candidate_facts [OF q] and ci = claim_inserts(1) [OF assms(1) q assms(2), where ?t0.0 = "now e"] claim_inserts(2) [OF assms(1) q assms(2)]
  from least_by_Some [OF q] have qm: "q \<in> set (claim_candidates (now e) run d)" by blast
  let ?c = "\<lparr>claim_task = run_task q, claim_run = run_id q, claim_token = token, claim_at = now e\<rparr>"
  let ?l = "\<lparr>lease_run = run_id q, lease_worker = worker, lease_attempt = run_attempt q + 1, lease_token = token,
                 lease_claimed = now e, lease_heartbeat = now e, lease_expires = now e + secs * 1000000\<rparr>"
  let ?up = "\<lambda>x. x\<lparr>run_status := Running, run_phase := PhPreflight, run_attempt := run_attempt q + 1,
               run_started := Some (now e), run_heartbeat := Some (now e)\<rparr>"
  let ?runs = "upd (\<lambda>x. run_id x = run_id q \<and> run_status x = Queued) ?up (db_runs d)"
  have lease: "insert_lease ?l (d\<lparr>db_claims := db_claims d @ [?c]\<rparr>)
      = Inr (d\<lparr>db_claims := db_claims d @ [?c], db_leases := db_leases d @ [?l]\<rparr>)"
    using ci(2) by (simp add: insert_lease_def ins_def some_row_iff find_lease_def sel1_None)
  let ?r = "q\<lparr>run_status := Running, run_phase := PhPreflight, run_attempt := run_attempt q + 1, run_started := Some (now e)\<rparr>"
  let ?d = "d\<lparr>db_claims := db_claims d @ [?c], db_leases := db_leases d @ [?l], db_runs := ?runs,
     db_controls := ins_ignore ctl_run (default_control (run_id q)) (db_controls d)\<rparr>"
  have res: "claim_next_run e worker secs mx run token d = Inr (Some (?r, ?l), ?d)"
    using False q ci(1) lease by (simp add: claim_next_run_def Let_def)
  have "sel1 (\<lambda>x. run_id x = run_id q) ?runs = map_option (\<lambda>x. if run_id x = run_id q \<and> run_status x = Queued then ?up x else x)
      (sel1 (\<lambda>x. run_id x = run_id q) (db_runs d))"
    by (rule sel1_upd_same) simp
  also have "sel1 (\<lambda>x. run_id x = run_id q) (db_runs d) = Some q"
    using find_run_mem [OF assms(1) f(1)] by (simp add: find_run_def)
  finally have run: "sel1 (\<lambda>x. run_id x = run_id q) ?runs = Some (?up q)" using f(2) by simp
  have "\<forall>x \<in> set (db_leases d). lease_run x \<noteq> run_id q" using ci(2) by (simp add: find_lease_def sel1_None)
  then have l: "sel1 (\<lambda>x. lease_run x = run_id q \<and> lease_token x = token) (db_leases d @ [?l]) = Some ?l"
    by (subst sel1_append_new) auto
  have "owner_row (run_id q) token ?d = Some (?up q, ?l, sel1 (\<lambda>k. ctl_run k = run_id q)
      (ins_ignore ctl_run (default_control (run_id q)) (db_controls d)))"
    using run l by (simp add: owner_row_def)
  then have owner: "\<exists>a k. owner_row (run_id q) token ?d = Some (a, ?l, k) \<and> run_status a = Running \<and>
            run_attempt a = run_attempt q + 1 \<and> \<not> terminal (run_status a)"
    by (intro exI conjI) (auto simp: terminal_def)
  have claimed: "int (length (db_claims ?d)) \<le> mx" "some_row (\<lambda>c. claim_task c = run_task q) (db_claims ?d)"
    using False by (auto simp: some_row_iff)
  show ?thesis
    by (rule exI [of _ "Some (?r, ?l)"], rule exI [of _ ?d], rule conjI [OF res])
      (use qm f(5) owner claimed in \<open>simp only: option.case prod.case, intro bexI [OF _ qm] conjI, auto\<close>)
qed

definition queued_db :: db where
  "queued_db = sample_db\<lparr>db_runs := [sample_run ''r1'' ''t1''], db_leases := [], db_claims := []\<rparr>"

theorem claim_next_run_spec_witness:
  "\<exists>res d'. claim_next_run sample_env ''w'' 60 2 None ''tok'' queued_db = Inr (res, d')"
proof -
  have "runs_ok queued_db" by code_simp
  moreover have "''tok'' \<notin> claim_token ` set (db_claims queued_db)" by (simp add: queued_db_def)
  ultimately show ?thesis using claim_next_run_spec [where d = queued_db and token = "''tok''" and e = sample_env and worker = "''w''" and secs = 60
      and mx = 2 and run = None] by blast
qed

text \<open>Without the live lease: a lease under another token or past its time, or none for a token that was given.\<close>

definition fenced_out :: "env \<Rightarrow> string \<Rightarrow> string option \<Rightarrow> db \<Rightarrow> bool" where
  "fenced_out e run token d = (case find_lease run d of
     None \<Rightarrow> token \<noteq> None \<and> token \<noteq> Some []
   | Some l \<Rightarrow> token \<noteq> Some (lease_token l) \<or> lease_expires l \<le> now e)"

text \<open>C6: fencing. The guard of the writes of a worker lets exactly the holder of the live lease through, and a
  caller without a token only where there is no lease. Whoever is fenced out, a stale token after the
  lease is gone included, writes no result, composition input, composition output, status update or
  step event of the run, and does not count as its owner.\<close>

theorem fenced_writes:
  assumes "runs_ok d"
  shows "(guard_owned_write e run token d = Inr ()) = (\<not> fenced_out e run token d) \<and>
   (fenced_out e run token d \<longrightarrow>
    isl (save_research_result e (res\<lparr>res_run := run\<rparr>) token d) \<and>
    isl (save_composition_input e (inp\<lparr>inp_run := run\<rparr>) token d) \<and>
    isl (save_composition_result e (out\<lparr>out_run := run\<rparr>) revision token a b c d) \<and>
    isl (update_run_status e run (u\<lparr>su_token := token\<rparr>) d) \<and>
    (\<forall>t. token = Some t \<longrightarrow> isl (assert_run_owner e run t allow d)) \<and>
    (\<forall>t attempt evs ph ac at. token = Some t \<longrightarrow> isl (append_run_step_events e run t attempt evs ph ac at d)))"
proof -
  have guard: "(guard_owned_write e run token d = Inr ()) = (\<not> fenced_out e run token d)"
    by (auto simp: guard_owned_write_def fenced_out_def check_Inr token_given_def split: option.splits)
  have owner: "\<not> (owner_row run t d = Some (r, l', k) \<and> now e < lease_expires l')" if f: "fenced_out e run (Some t) d" for t r l' k
  proof
    assume o: "owner_row run t d = Some (r, l', k) \<and> now e < lease_expires l'"
    then have l': "l' \<in> set (db_leases d)" "lease_run l' = run" "lease_token l' = t"
      by (auto simp: owner_row_def dest: sel1_Some split: option.splits if_splits)
    then have "find_lease run d \<noteq> None" by (auto simp: find_lease_def sel1_None)
    then obtain l where l: "find_lease run d = Some l" by blast
    then have "l \<in> set (db_leases d)" "lease_run l = run" by (auto simp: find_lease_def dest: sel1_Some)
    moreover from assms have "distinct (map lease_run (db_leases d))"
      by (simp add: runs_ok_def keys_ok_def lease_key_def comp_def)
    ultimately have "l' = l" using l' by (metis distinct_map_same)
    with f l l' o show False by (simp add: fenced_out_def)
  qed
  have steps: "isl (append_run_step_events e run t attempt evs ph ac at d)" if "fenced_out e run (Some t) d" for t attempt evs ph ac at
  proof (rule ccontr)
    assume "\<not> isl (append_run_step_events e run t attempt evs ph ac at d)"
    then obtain d' where "append_run_step_events e run t attempt evs ph ac at d = Inr ((), d')" by (auto dest: not_isl)
    then show False by (rule append_step_events_cases) (use owner [OF that] in blast)
  qed
  have assert: "isl (assert_run_owner e run t allow d)" if "fenced_out e run (Some t) d" for t
  proof (cases "owner_row run t d")
    case (Some x)
    with owner [OF that] show ?thesis by (cases x) (auto simp: assert_run_owner_def not_less)
  qed (simp add: assert_run_owner_def)
  have writes: "isl (save_research_result e (res\<lparr>res_run := run\<rparr>) token d)" "isl (save_composition_input e (inp\<lparr>inp_run := run\<rparr>) token d)"
    "isl (save_composition_result e (out\<lparr>out_run := run\<rparr>) revision token a b c d)" "isl (update_run_status e run (u\<lparr>su_token := token\<rparr>) d)"
    if f: "fenced_out e run token d"
  proof -
    from guard f obtain er where "guard_owned_write e run token d = Inl er" by (cases "guard_owned_write e run token d") auto
    then show "isl (save_research_result e (res\<lparr>res_run := run\<rparr>) token d)" "isl (save_composition_input e (inp\<lparr>inp_run := run\<rparr>) token d)"
      "isl (save_composition_result e (out\<lparr>out_run := run\<rparr>) revision token a b c d)"
      by (auto simp: save_research_result_def save_composition_input_def save_composition_result_def)
    from f show "isl (update_run_status e run (u\<lparr>su_token := token\<rparr>) d)"
      by (auto simp: update_run_status_def fenced_out_def token_given_def split: option.splits)
  qed
  from guard writes steps assert show ?thesis by blast
qed

definition finish_update :: status_update where
  "finish_update = \<lparr>su_status = Succeeded, su_phase = PhFinalize, su_attempt = None, su_started = None,
     su_finished = Some 160, su_error = None, su_token = None, su_expected = None\<rparr>"

theorem fenced_writes_witness:
  "isl (update_run_status sample_env ''r1'' (finish_update\<lparr>su_token := Some ''stale''\<rparr>) sample_db)
   \<and> (\<forall>r. isl (save_research_result sample_env (r\<lparr>res_run := ''r1''\<rparr>) (Some ''f'') (sample_db\<lparr>db_leases := [], db_claims := []\<rparr>)))"
proof -
  have "runs_ok sample_db" "runs_ok (sample_db\<lparr>db_leases := [], db_claims := []\<rparr>)" by code_simp+
  moreover have "fenced_out sample_env ''r1'' (Some ''stale'') sample_db"
      "fenced_out sample_env ''r1'' (Some ''f'') (sample_db\<lparr>db_leases := [], db_claims := []\<rparr>)" by code_simp+
  ultimately show ?thesis using fenced_writes by blast
qed

text \<open>Every operation but a release keeps the claims; a release needs cleanup evidence.\<close>

lemma claims_kept:
  assumes "run_step sha (e, x) d = Inr (u, d')" "\<not> (\<exists>run token. x = OpRelease run token)"
  shows "set (db_claims d) \<subseteq> set (db_claims d')"
proof (cases x)
  case (OpCreate r q)
  with assms(1) obtain r' where "create_run e sha r q d = Inr (r', d')" by (auto simp: keep_def and_then_Inr)
  then show ?thesis by (cases rule: create_run_tables) auto
next
  case (OpClaim w s m run t)
  with assms(1) obtain res where "claim_next_run e w s m run t d = Inr (res, d')" by (auto simp: keep_def and_then_Inr)
  then show ?thesis
    by (cases rule: claim_next_run_cases)
      (auto simp: insert_claim_def insert_lease_def and_then_Inr split: if_splits)
next
  case (OpSteps run token attempt evs ph ac at)
  with assms(1) obtain es s d1 where h: "append_events e run es s d = Inr d1" "d' = set_coarse_phase (now e) run ph d1"
    by (auto elim: append_step_events_cases)
  from append_events_frame [OF h(1)] h(2) show ?thesis
    by (auto simp: set_coarse_phase_def split: option.splits)
qed (use assms in \<open>auto simp: keep_def and_then_Inr update_run_status_def set_force_dry_run_def request_cancel_def
      mark_cleanup_verified_def mark_stale_attention_def acquire_lease_def heartbeat_lease_def insert_claim_def insert_lease_def
      save_research_result_def save_composition_input_def save_composition_result_def Let_def ins_Inr
      split: option.splits if_splits\<close>)

text \<open>A task is never handed over while a child process of its run may be alive: the only
  operation that drops a claim is the release by its own token, and for a run that was started it
  requires the recorded evidence that the cleanup of its child was verified.\<close>

theorem release_needs_cleanup:
  assumes "run_step sha (e, x) d = Inr (u, d')" "c \<in> set (db_claims d)" "c \<notin> set (db_claims d')"
  shows "x = OpRelease (claim_run c) (claim_token c) \<and>
    (\<forall>r. find_run (claim_run c) d = Some r \<longrightarrow> run_status r = Queued \<or>
      (\<exists>k. ctl_of d (claim_run c) = Some k \<and> ctl_cleanup k))"
proof -
  from claims_kept [OF assms(1)] assms(2,3) obtain run token where x: "x = OpRelease run token" by blast
  with assms have "claim_run c = run" "claim_token c = token"
    "\<not> ((case find_run run d of None \<Rightarrow> False | Some r \<Rightarrow> run_status r \<noteq> Queued)
        \<and> (case ctl_of d run of None \<Rightarrow> True | Some k \<Rightarrow> \<not> ctl_cleanup k))"
    by (auto simp: release_lease_def split: if_splits)
  with x show ?thesis by (auto split: option.splits)
qed

definition cleaned_db :: db where
  "cleaned_db = sample_db\<lparr>db_controls := [(sample_control ''r1'')\<lparr>ctl_cleanup := True\<rparr>]\<rparr>"

theorem release_needs_cleanup_witness:
  "\<exists>d'. release_lease ''r1'' ''f'' cleaned_db = Inr ((), d') \<and>
    OpRelease ''r1'' ''f'' = OpRelease (claim_run sample_claim) (claim_token sample_claim)"
proof -
  have "\<not> isl (release_lease ''r1'' ''f'' cleaned_db)" by code_simp
  then obtain d' where d': "release_lease ''r1'' ''f'' cleaned_db = Inr ((), d')" by (auto dest: not_isl)
  have "sample_claim \<in> set (db_claims cleaned_db)" by (simp add: cleaned_db_def sample_db_def)
  moreover have "db_claims d' = del (\<lambda>c. claim_run c = ''r1'' \<and> claim_token c = ''f'') (db_claims cleaned_db)"
    using d' by (auto simp: release_lease_def split: if_splits)
  then have "sample_claim \<notin> set (db_claims d')" by (simp add: sample_claim_def)
  moreover have "run_step (\<lambda>s. s) (sample_env, OpRelease ''r1'' ''f'') cleaned_db = Inr ((), d')" using d' by simp
  ultimately have "OpRelease ''r1'' ''f'' = OpRelease (claim_run sample_claim) (claim_token sample_claim)"
    using release_needs_cleanup by blast
  with d' show ?thesis by blast
qed

text \<open>Queueing a run under a request key is idempotent: repeating the command, even with
  another candidate run of the same task and version, returns the run the first one queued and
  changes nothing, and with another payload it is refused.\<close>

theorem create_run_idempotent:
  assumes "create_run e sha r0 q d = Inr (r, d')" "rr_key q = Some k" "k \<noteq> []" "creator e' = creator e"
    and "run_task r1 = run_task r0" "run_version r1 = run_version r0"
  shows "create_run e' sha r1 q d' = Inr (r, d') \<and>
    (dumps_compact (JDict payload) \<noteq> dumps_compact (JDict (rr_payload q)) \<longrightarrow>
     create_run e' sha r1 (q\<lparr>rr_payload := payload\<rparr>) d' = Inl (ValidationError ''request key reused''))"
proof -
  let ?req = "dumps_compact (JDict (rr_payload q))"
  from assms(1) obtain due where due: "normalize_due (rr_due q) = Inr due"
    and act: "require_catalog_active ''task'' (JStr (run_task r0)) d = Inr ()"
    and refs: "(case find_version (run_version r0) d of None \<Rightarrow> Inr ()
         | Some v \<Rightarrow> require_catalog_references e (ver_definition v) d) = Inr ()"
    by (auto simp: create_run_def and_then_Inr Let_def)
  have pc: "prior_command t (rr_key q) x = find_command t k x" for t x
    using assms(2,3) by (simp add: prior_command_def)
  have after: "same_catalog e d e' d' \<and> db_versions d' = db_versions d \<and>
    (\<exists>c. find_command (run_task r0) k d' = Some c \<and> cmd_request c = ?req \<and> find_run (cmd_run c) d' = Some r)"
    using assms(1)
  proof (cases rule: create_run_tables)
    case (prior c)
    with assms(1) due act refs have "cmd_request c = ?req \<and> find_run (cmd_run c) d = Some r"
      by (simp add: create_run_def and_then_Inr Let_def split: if_splits option.splits)
    with prior assms(4) show ?thesis by (simp add: same_catalog_def pc)
  next
    case (new plans auths cmds)
    let ?c = "\<lparr>cmd_task = run_task r, cmd_key = k, cmd_run = run_id r, cmd_request = ?req\<rparr>"
    have cmds: "cmds = db_commands d @ [?c]"
      using new(6,9) assms(2,3) by (simp add: token_given_def)
    have "find_command (run_task r0) k d = None" using new(7) by (simp add: pc)
    then have "\<forall>x \<in> set (db_commands d). \<not> (cmd_task x = run_task r0 \<and> cmd_key x = k)"
      by (simp add: find_command_def sel1_None)
    then have "sel1 (\<lambda>x. cmd_task x = run_task r0 \<and> cmd_key x = k) (db_commands d @ [?c]) = Some ?c"
      using new(8) by (subst sel1_append_new) auto
    moreover have "\<forall>x \<in> set (db_runs d). run_id x \<noteq> run_id r"
      using new(1) by (simp add: run_constraints_def find_run_def sel1_None)
    then have "sel1 (\<lambda>x. run_id x = run_id r) (db_runs d @ [r]) = Some r"
      by (subst sel1_append_new) auto
    moreover have "db_runs d' = db_runs d @ [r]" using new(6) by simp
    ultimately show ?thesis using new(6) assms(4)
      by (simp add: same_catalog_def find_command_def find_run_def cmds)
  qed
  then obtain c where c: "find_command (run_task r0) k d' = Some c" "cmd_request c = ?req" "find_run (cmd_run c) d' = Some r"
    and same: "same_catalog e d e' d'" and vers: "db_versions d' = db_versions d" by blast
  have act': "require_catalog_active ''task'' (JStr (run_task r1)) d' = Inr ()"
    using act assms(5) by (simp add: guards_cong(1) [OF same])
  have refs': "(case find_version (run_version r1) d' of None \<Rightarrow> Inr ()
         | Some v \<Rightarrow> require_catalog_references e' (ver_definition v) d') = Inr ()"
    using refs assms(6) by (simp add: guards_cong(2) [OF same] find_version_def vers cong: option.case_cong)
  have key: "prior_command (run_task r1) (rr_key q) d' = Some c" using c(1) assms(5) by (simp add: pc)
  show ?thesis
    using due act' refs' key c(2,3) by (simp add: create_run_def Let_def)
qed

definition sample_request :: run_request where
  "sample_request = \<lparr>rr_due = ''2026-01-01T00:00:00+00:00'', rr_dry = False, rr_revision = 1, rr_key = Some ''k1'',
     rr_payload = [], rr_expected = Some ''v1'', rr_plan = Some sample_plan, rr_auth = None\<rparr>"

theorem create_run_idempotent_witness:
  "\<exists>r d'. create_run sample_env (\<lambda>s. ''h'') (sample_run ''r9'' ''t1'') sample_request sample_db = Inr (r, d')
     \<and> create_run sample_env (\<lambda>s. ''h'') (sample_run ''other'' ''t1'') sample_request d' = Inr (r, d')"
proof -
  have "\<not> isl (create_run sample_env (\<lambda>s. ''h'') (sample_run ''r9'' ''t1'') sample_request sample_db)" by code_simp
  then obtain r d' where r: "create_run sample_env (\<lambda>s. ''h'') (sample_run ''r9'' ''t1'') sample_request sample_db = Inr (r, d')"
    by (auto dest: not_isl)
  from create_run_idempotent [OF r, of "''k1''" sample_env "sample_run ''other'' ''t1''"]
  have "create_run sample_env (\<lambda>s. ''h'') (sample_run ''other'' ''t1'') sample_request d' = Inr (r, d')"
    by (simp add: sample_request_def sample_run_def)
  with r show ?thesis by blast
qed

end
