(* ===== verification/Task_Repo.thy ===== *)
theory Task_Repo imports Authorization begin

text \<open>
  \<open>TaskRepository\<close> of \<open>storage/repositories.py\<close>: sealed versions, publication,
  scheduling and delivery switches of the tasks. A version given by a caller is a version row
  whose definition is what \<open>TaskDefinition.to_dict\<close> gives; flags that the code checks to be
  booleans are booleans here. \<open>task_op\<close> collects the operations that write, and
  \<open>tasks_ok\<close> and \<open>tasks_le\<close> are what every history of them keeps.
\<close>

section \<open>Versions\<close>

text \<open>The \<open>name\<close> field of a definition as the text of a column.\<close>

definition def_name :: "dict \<Rightarrow> string res" where
  "def_name def = (case map_of def ''name'' of None \<Rightarrow> Inl (KeyError ''name'')
     | Some v \<Rightarrow> and_then (bind_text v) (\<lambda>m. case m of None \<Rightarrow> Inl (IntegrityError ''entity_catalog'') | Some s \<Rightarrow> Inr s))"

definition mode_of_definition :: "dict \<Rightarrow> json res" where
  "mode_of_definition def = and_then (dict_default def ''delivery'') (\<lambda>x. Inr (dget x ''mode''))"

definition same_content :: "version_row \<Rightarrow> version_row \<Rightarrow> bool" where
  "same_content x v = (ver_task x = ver_task v \<and> pyeq (JDict (ver_definition x)) (JDict (ver_definition v))
     \<and> pyeq (JDict (ver_files x)) (JDict (ver_files v)))"

definition id_matches :: "version_row \<Rightarrow> bool" where
  "id_matches v = (dget (ver_definition v) ''id'' = JStr (ver_task v))"

text \<open>\<open>INSERT INTO task_versions\<close> under its primary key; the task exists.\<close>

definition insert_version :: "version_row \<Rightarrow> db \<Rightarrow> db res" where
  "insert_version v d = (if find_task (ver_task v) d = None then Inl (IntegrityError ''foreign key'')
     else and_then (ins ''task_versions'' ver_hash v (db_versions d)) (\<lambda>t. Inr (d\<lparr>db_versions := t\<rparr>)))"

definition new_task :: "string \<Rightarrow> int \<Rightarrow> task_row" where
  "new_task task at = \<lparr>task_id = task, task_active = None, task_enabled = False, task_mode = MDryRun,
     task_approved = False, task_approved_version = None, task_approved_revision = None, task_dry_run = None,
     task_approved_at = None, task_updated = at\<rparr>"

definition save_version :: "env \<Rightarrow> version_row \<Rightarrow> db \<Rightarrow> (unit \<times> db) res" where
  "save_version e v d = (if \<not> id_matches v then Inl (ValidationError ''version identity'')
     else and_then (def_name (ver_definition v)) (\<lambda>name.
     and_then (ensure_task_catalog e (ver_task v) name (ver_sealed v) d) (\<lambda>d1.
       let d2 = d1\<lparr>db_tasks := ins_ignore task_id (new_task (ver_task v) (ver_sealed v)) (db_tasks d1)\<rparr> in
       case find_version (ver_hash v) d2 of
         Some x \<Rightarrow> if same_content x v then Inr ((), d2) else Inl (ValidationError ''sealed version immutable'')
       | None \<Rightarrow> and_then (insert_version (v\<lparr>ver_active := False\<rparr>) d2) (\<lambda>d3. Inr ((), d3)))))"

text \<open>\<open>TaskDefinition(**def_dict)\<close> raises on an unknown or a missing field.\<close>

definition definition_complete :: "dict \<Rightarrow> bool" where
  "definition_complete def =
    (list_all (\<lambda>k. k \<in> fst ` set def) [''id'', ''name'', ''enabled'', ''workspace'', ''runner'', ''instructions'', ''output'', ''delivery'']
     \<and> keys_within def [''id'', ''name'', ''enabled'', ''workspace'', ''runner'', ''instructions'', ''output'', ''delivery'',
        ''description'', ''schedule'', ''state'', ''retention'', ''alerting'', ''image_generation'', ''version''])"

definition get_version :: "string \<Rightarrow> db \<Rightarrow> version_row option res" where
  "get_version h d = (case find_version h d of None \<Rightarrow> Inr None
     | Some v \<Rightarrow> if definition_complete (ver_definition v) then Inr (Some v) else Inl (TypeError ''TaskDefinition''))"

definition list_versions :: "string \<Rightarrow> db \<Rightarrow> version_row list res" where
  "list_versions task d = (let rows = sort_key (\<lambda>v. - ver_sealed v) (sel (\<lambda>v. ver_task v = task) (db_versions d))
     in if list_all (\<lambda>v. definition_complete (ver_definition v)) rows then Inr rows else Inl (TypeError ''TaskDefinition''))"

section \<open>Publication\<close>

definition mode_of :: "string \<Rightarrow> delivery_mode option" where
  "mode_of s = (if s = ''disabled'' then Some MDisabled else if s = ''dry_run'' then Some MDryRun
     else if s = ''handoff'' then Some MHandoff else None)"

definition task_busy :: "string \<Rightarrow> db \<Rightarrow> bool" where
  "task_busy task d = (some_row (\<lambda>r. run_task r = task \<and> run_status r \<in> {Queued, Running, AwaitingReceipt}) (db_runs d)
     \<or> some_row (\<lambda>c. claim_task c = task) (db_claims d)
     \<or> some_row (\<lambda>h. ho_task h = task \<and> ho_mode h = ''handoff'' \<and> ho_status h \<in> {''prepared'', ''published''}) (db_handoffs d))"

definition require_idle_for_edit :: "string \<Rightarrow> db \<Rightarrow> unit res" where
  "require_idle_for_edit task d = check (\<not> task_busy task d) (ValidationError ''task busy'')"

text \<open>\<open>UPDATE task_versions\<close>: of all versions of the task only the given one is active.\<close>

definition activate :: "string \<Rightarrow> string \<Rightarrow> db \<Rightarrow> db" where
  "activate task h d = d\<lparr>db_versions := upd (\<lambda>v. ver_hash v = h) (\<lambda>v. v\<lparr>ver_active := True\<rparr>)
     (upd (\<lambda>v. ver_task v = task) (\<lambda>v. v\<lparr>ver_active := False\<rparr>) (db_versions d))\<rparr>"

definition unapproved :: "task_row \<Rightarrow> task_row" where
  "unapproved t = t\<lparr>task_approved := False, task_approved_version := None, task_approved_revision := None,
     task_dry_run := None, task_approved_at := None\<rparr>"

definition upsert_task :: "task_row \<Rightarrow> (task_row \<Rightarrow> task_row) \<Rightarrow> db \<Rightarrow> db" where
  "upsert_task new f d = d\<lparr>db_tasks := (if find_task (task_id new) d = None then db_tasks d @ [new]
     else upd (\<lambda>t. task_id t = task_id new) f (db_tasks d))\<rparr>"

definition publication_expected :: "string \<Rightarrow> string option \<Rightarrow> int option \<Rightarrow> db \<Rightarrow> bool" where
  "publication_expected task expected updated d = (expected = None \<and> updated = None \<or>
     (case find_task task d of None \<Rightarrow> False
      | Some t \<Rightarrow> (case expected of None \<Rightarrow> True | Some h \<Rightarrow> default [] (task_active t) = h)
          \<and> (case updated of None \<Rightarrow> True | Some u \<Rightarrow> task_updated t = u)))"

definition set_active_version ::
    "env \<Rightarrow> string \<Rightarrow> string \<Rightarrow> string \<Rightarrow> bool \<Rightarrow> bool \<Rightarrow> string option \<Rightarrow> int option \<Rightarrow> db \<Rightarrow> (unit \<times> db) res" where
  "set_active_version e task h mode enabled idle expected updated d =
     (case mode_of mode of None \<Rightarrow> Inl (ValidationError ''publication state'') | Some m \<Rightarrow>
     and_then (require_catalog_active ''task'' (JStr task) d) (\<lambda>_.
     if \<not> publication_expected task expected updated d then Inl (ValidationError ''task changed'')
     else and_then (if idle \<and> (case find_task task d of None \<Rightarrow> False | Some t \<Rightarrow> task_active t \<noteq> Some h)
         then require_idle_for_edit task d else Inr ()) (\<lambda>_.
     case find_version h d of None \<Rightarrow> Inl (ValidationError ''candidate'') | Some v \<Rightarrow>
       if ver_task v \<noteq> task then Inl (ValidationError ''candidate'')
       else and_then (require_catalog_references e (ver_definition v) d) (\<lambda>_.
       and_then (if m = MHandoff then mode_of_definition (ver_definition v) else Inr (JStr ''handoff'')) (\<lambda>sealed.
         if sealed \<noteq> JStr ''handoff'' then Inl (ValidationError ''live publication'')
         else let d1 = activate task h d;
              d2 = upsert_task ((new_task task (now e))\<lparr>task_active := Some h, task_enabled := enabled, task_mode := m\<rparr>)
                (\<lambda>t. (unapproved t)\<lparr>task_active := Some h, task_enabled := enabled, task_mode := m, task_updated := now e\<rparr>) d1
            in and_then (def_name (ver_definition v)) (\<lambda>name.
               and_then (rename_task_catalog e task name (now e) d2) (\<lambda>d3. Inr ((), d3))))))))"

definition publication_event :: "env \<Rightarrow> string \<Rightarrow> version_row \<Rightarrow> dict \<Rightarrow> db \<Rightarrow> db" where
  "publication_event e typ v details d =
     audit e ''task'' (ver_task v) typ details default_actor (isoformat (ver_sealed v)) d"

definition publish_new_production_task :: "env \<Rightarrow> version_row \<Rightarrow> bool \<Rightarrow> db \<Rightarrow> (unit \<times> db) res" where
  "publish_new_production_task e v enabled d =
     (if \<not> id_matches v then Inl (ValidationError ''task publication'')
      else and_then (mode_of_definition (ver_definition v)) (\<lambda>mode.
      if mode \<noteq> JStr ''handoff'' then Inl (ValidationError ''task publication'')
      else and_then (require_catalog_active ''task'' (JStr (ver_task v)) d) (\<lambda>_.
      and_then (require_catalog_references e (ver_definition v) d) (\<lambda>_.
      case find_task (ver_task v) d of
        Some t \<Rightarrow> if task_active t = Some (ver_hash v)
            \<and> (case find_version (ver_hash v) d of None \<Rightarrow> False | Some x \<Rightarrow> pyeq (JDict (ver_files x)) (JDict (ver_files v)))
          then Inr ((), d) else Inl (ValidationError ''task exists'')
      | None \<Rightarrow>
          let d1 = d\<lparr>db_tasks := db_tasks d @ [(new_task (ver_task v) (ver_sealed v))
                \<lparr>task_active := Some (ver_hash v), task_enabled := enabled, task_mode := MHandoff\<rparr>]\<rparr> in
          and_then (insert_version (v\<lparr>ver_active := True\<rparr>) d1) (\<lambda>d2.
          and_then (def_name (ver_definition v)) (\<lambda>name.
          and_then (rename_task_catalog e (ver_task v) name (ver_sealed v) d2) (\<lambda>d3.
            Inr ((), publication_event e ''production_task_published'' v
              [(''version_hash'', JStr (ver_hash v)), (''schedule_enabled'', JBool enabled),
               (''delivery_mode'', JStr ''handoff'')] d3))))))))"

definition set_watermark :: "string \<Rightarrow> int \<Rightarrow> db \<Rightarrow> db" where
  "set_watermark task at d = d\<lparr>db_watermarks := (if some_row (\<lambda>w. fst w = task) (db_watermarks d)
     then upd (\<lambda>w. fst w = task) (\<lambda>w. (task, at)) (db_watermarks d) else db_watermarks d @ [(task, at)])\<rparr>"

definition edit_unchanged :: "task_row \<Rightarrow> string \<Rightarrow> string \<Rightarrow> int option \<Rightarrow> bool" where
  "edit_unchanged t expected mode updated = (task_active t = Some expected \<and> mode_text (task_mode t) = mode
     \<and> (case updated of None \<Rightarrow> True | Some u \<Rightarrow> task_updated t = u))"

definition publish_production_update ::
    "env \<Rightarrow> version_row \<Rightarrow> string \<Rightarrow> bool \<Rightarrow> string \<Rightarrow> int option \<Rightarrow> db \<Rightarrow> (unit \<times> db) res" where
  "publish_production_update e v expected enabled mode updated d =
     (if \<not> id_matches v \<or> expected = [] then Inl (ValidationError ''task edit publication'')
      else and_then (require_catalog_active ''task'' (JStr (ver_task v)) d) (\<lambda>_.
      and_then (require_catalog_references e (ver_definition v) d) (\<lambda>_.
      case find_task (ver_task v) d of None \<Rightarrow> Inl (ValidationError ''task missing'') | Some t \<Rightarrow>
      let existing = find_version (ver_hash v) d in
      if (case existing of None \<Rightarrow> False | Some x \<Rightarrow> \<not> same_content x v) then Inl (ValidationError ''sealed version immutable'')
      else if task_active t = Some (ver_hash v) \<and> existing \<noteq> None \<and> expected \<noteq> ver_hash v then Inr ((), d)
      else if \<not> edit_unchanged t expected mode updated then Inl (ValidationError ''task changed'')
      else if task_active t = Some (ver_hash v) \<and> task_enabled t = enabled then Inr ((), d)
      else and_then (require_idle_for_edit (ver_task v) d) (\<lambda>_.
      and_then (if existing = None then insert_version (v\<lparr>ver_active := False\<rparr>) d else Inr d) (\<lambda>d1.
        let d2 = activate (ver_task v) (ver_hash v) d1;
            d3 = d2\<lparr>db_tasks := upd (\<lambda>x. task_id x = ver_task v) (\<lambda>x. (unapproved x)\<lparr>task_active := Some (ver_hash v),
                   task_enabled := enabled, task_updated := ver_sealed v\<rparr>) (db_tasks d2)\<rparr>;
            d4 = set_watermark (ver_task v) (ver_sealed v) d3
        in and_then (def_name (ver_definition v)) (\<lambda>name.
           and_then (rename_task_catalog e (ver_task v) name (ver_sealed v) d4) (\<lambda>d5.
             Inr ((), publication_event e ''production_task_edited'' v
               [(''previous_version_hash'', JStr expected), (''version_hash'', JStr (ver_hash v)),
                (''schedule_enabled'', JBool enabled), (''delivery_mode'', JStr (mode_text (task_mode t)))] d5))))))))"

definition get_active_version :: "string \<Rightarrow> db \<Rightarrow> version_row option res" where
  "get_active_version task d = (case find_task task d of None \<Rightarrow> Inr None
     | Some t \<Rightarrow> (case task_active t of None \<Rightarrow> Inr None | Some h \<Rightarrow> if h = [] then Inr None else get_version h d))"

section \<open>Switches\<close>

definition set_task_enabled :: "env \<Rightarrow> string \<Rightarrow> bool \<Rightarrow> db \<Rightarrow> (unit \<times> db) res" where
  "set_task_enabled e task enabled d =
     and_then (require_catalog_active ''task'' (JStr task) d) (\<lambda>_.
     and_then (if enabled then (case find_task task d of None \<Rightarrow> Inr () | Some t \<Rightarrow>
         (case task_active t of None \<Rightarrow> Inr () | Some h \<Rightarrow> (case find_version h d of None \<Rightarrow> Inr ()
            | Some v \<Rightarrow> require_catalog_references e (ver_definition v) d))) else Inr ()) (\<lambda>_.
       Inr ((), d\<lparr>db_tasks := upd (\<lambda>t. task_id t = task)
         (\<lambda>t. t\<lparr>task_enabled := enabled, task_updated := now e\<rparr>) (db_tasks d)\<rparr>)))"

text \<open>\<open>ORDER BY created_at DESC LIMIT 1\<close> over successful runs with a dry-run handoff.\<close>

definition dry_run_evidence :: "string \<Rightarrow> string \<Rightarrow> db \<Rightarrow> run_row option" where
  "dry_run_evidence task h d = greatest_by run_created (sel (\<lambda>r. run_task r = task \<and> run_version r = h
     \<and> run_status r = Succeeded \<and> some_row (\<lambda>x. ho_run x = run_id r \<and> ho_mode x = ''dry_run'') (db_handoffs d)) (db_runs d))"

definition approve_row :: "int \<Rightarrow> (string \<times> string \<times> string) option \<Rightarrow> task_row \<Rightarrow> task_row" where
  "approve_row at evidence t = (case evidence of
     None \<Rightarrow> (unapproved t)\<lparr>task_mode := MDryRun, task_updated := at\<rparr>
   | Some (h, rvn, run) \<Rightarrow> t\<lparr>task_approved := True, task_approved_version := Some h, task_approved_revision := Some rvn,
       task_dry_run := Some run, task_approved_at := Some at, task_mode := MHandoff, task_updated := at\<rparr>)"

definition approval_evidence :: "env \<Rightarrow> string \<Rightarrow> string option \<Rightarrow> db \<Rightarrow> (string \<times> string \<times> string) res" where
  "approval_evidence e task revision d = (case (case find_task task d of None \<Rightarrow> None | Some t \<Rightarrow> task_active t) of
     None \<Rightarrow> Inl (ValidationError ''approval needs version and revision'')
   | Some h \<Rightarrow> if h = [] \<or> default [] revision = [] then Inl (ValidationError ''approval needs version and revision'')
       else (case find_version h d of None \<Rightarrow> Inl (ValidationError ''handoff mode'') | Some v \<Rightarrow>
         and_then (mode_of_definition (ver_definition v)) (\<lambda>mode.
         if mode \<noteq> JStr ''handoff'' then Inl (ValidationError ''handoff mode'')
         else and_then (require_catalog_references e (ver_definition v) d) (\<lambda>_.
         case dry_run_evidence task h d of
           None \<Rightarrow> Inl (ValidationError ''approval needs dry run'')
         | Some r \<Rightarrow> Inr (h, default [] revision, run_id r)))))"

definition set_delivery_approved :: "env \<Rightarrow> string \<Rightarrow> bool \<Rightarrow> string option \<Rightarrow> db \<Rightarrow> (unit \<times> db) res" where
  "set_delivery_approved e task approved revision d =
     and_then (require_catalog_active ''task'' (JStr task) d) (\<lambda>_.
     and_then (if approved then and_then (approval_evidence e task revision d) (\<lambda>x. Inr (Some x)) else Inr None) (\<lambda>evidence.
       Inr ((), d\<lparr>db_tasks := upd (\<lambda>t. task_id t = task) (approve_row (now e) evidence) (db_tasks d)\<rparr>)))"

definition set_production_delivery_enabled :: "env \<Rightarrow> string \<Rightarrow> string \<Rightarrow> bool \<Rightarrow> db \<Rightarrow> (unit \<times> db) res" where
  "set_production_delivery_enabled e task h enabled d =
     and_then (require_catalog_active ''task'' (JStr task) d) (\<lambda>_.
     case find_version h d of None \<Rightarrow> Inl (ValidationError ''active version'') | Some v \<Rightarrow>
       if ver_task v \<noteq> task then Inl (ValidationError ''active version'')
       else and_then (if enabled then require_catalog_references e (ver_definition v) d else Inr ()) (\<lambda>_.
       and_then (if enabled then mode_of_definition (ver_definition v) else Inr (JStr ''handoff'')) (\<lambda>mode.
         if mode \<noteq> JStr ''handoff'' then Inl (ValidationError ''handoff mode'')
         else if count_rows (\<lambda>t. task_id t = task \<and> task_active t = Some h) (db_tasks d) \<noteq> 1
         then Inl (ValidationError ''active version changed'')
         else Inr ((), d\<lparr>db_tasks := upd (\<lambda>t. task_id t = task \<and> task_active t = Some h)
           (\<lambda>t. t\<lparr>task_mode := (if enabled then MHandoff else MDisabled), task_updated := now e\<rparr>) (db_tasks d)\<rparr>))))"

definition has_dry_run_evidence :: "string \<Rightarrow> string \<Rightarrow> db \<Rightarrow> bool" where
  "has_dry_run_evidence task h d = some_row (\<lambda>r. run_task r = task \<and> run_version r = h \<and> run_status r = Succeeded
     \<and> some_row (\<lambda>x. ho_run x = run_id r \<and> ho_mode x = ''dry_run'') (db_handoffs d)) (db_runs d)"

definition list_tasks :: "bool \<Rightarrow> bool \<Rightarrow> db \<Rightarrow> task_row list" where
  "list_tasks enabled_only include_deleted d = sort_key task_id (sel (\<lambda>t. (enabled_only \<longrightarrow> task_enabled t)
     \<and> (include_deleted \<or> (case find_entity ''task'' (task_id t) d of None \<Rightarrow> True | Some r \<Rightarrow> cat_deleted r = None))) (db_tasks d))"

section \<open>Histories of the tasks\<close>

datatype task_op =
    OpSave version_row
  | OpActivate string string string bool bool "string option" "int option"
  | OpPublish version_row bool
  | OpEdit version_row string bool string "int option"
  | OpEnable string bool
  | OpApprove string bool "string option"
  | OpDeliver string string bool

fun task_step :: "env \<times> task_op \<Rightarrow> db \<Rightarrow> (unit \<times> db) res" where
  "task_step (e, OpSave v) d = save_version e v d"
| "task_step (e, OpActivate t h m en idle ex u) d = set_active_version e t h m en idle ex u d"
| "task_step (e, OpPublish v en) d = publish_new_production_task e v en d"
| "task_step (e, OpEdit v ex en m u) d = publish_production_update e v ex en m u d"
| "task_step (e, OpEnable t en) d = set_task_enabled e t en d"
| "task_step (e, OpApprove t a r) d = set_delivery_approved e t a r d"
| "task_step (e, OpDeliver t h en) d = set_production_delivery_enabled e t h en d"

text \<open>The constraints of both tables, and the one active version of every task.\<close>

definition task_constraint :: "db \<Rightarrow> task_row \<Rightarrow> bool" where
  "task_constraint d t = ((case task_active t of None \<Rightarrow> True | Some h \<Rightarrow> list_ex (\<lambda>v. ver_hash v = h \<and> ver_task v = task_id t) (db_versions d))
     \<and> (task_approved t \<longrightarrow> task_active t \<noteq> None \<and> task_approved_version t = task_active t
          \<and> task_approved_revision t \<noteq> None \<and> task_dry_run t \<noteq> None \<and> task_approved_at t \<noteq> None))"

definition version_constraint :: "db \<Rightarrow> version_row \<Rightarrow> bool" where
  "version_constraint d v = (\<exists>t \<in> set (db_tasks d). task_id t = ver_task v \<and> ver_active v = (task_active t = Some (ver_hash v)))"

definition tasks_ok :: "db \<Rightarrow> bool" where
  "tasks_ok d = (distinct (map task_id (db_tasks d)) \<and> distinct (map ver_hash (db_versions d))
     \<and> (\<forall>t \<in> set (db_tasks d). task_constraint d t) \<and> (\<forall>v \<in> set (db_versions d). version_constraint d v))"

lemma task_constraint_iff: "task_constraint d t \<longleftrightarrow>
    (\<forall>h. task_active t = Some h \<longrightarrow> (\<exists>v \<in> set (db_versions d). ver_hash v = h \<and> ver_task v = task_id t))
     \<and> (task_approved t \<longrightarrow> task_active t \<noteq> None \<and> task_approved_version t = task_active t
          \<and> task_approved_revision t \<noteq> None \<and> task_dry_run t \<noteq> None \<and> task_approved_at t \<noteq> None)"
  by (auto simp: task_constraint_def list_ex_iff split: option.splits)

text \<open>Nothing of a version changes but its active flag, and no task or version disappears.\<close>

definition same_version :: "version_row \<Rightarrow> version_row \<Rightarrow> bool" where
  "same_version v w = (w = v\<lparr>ver_active := ver_active w\<rparr>)"

definition tasks_le :: "db \<Rightarrow> db \<Rightarrow> bool" where
  "tasks_le d d' = (extends same_version (db_versions d) (db_versions d')
     \<and> extends (\<lambda>t u. task_id t = task_id u) (db_tasks d) (db_tasks d'))"

lemma tasks_le_refl: "tasks_le d d"
  by (simp add: tasks_le_def extends_refl same_version_def)

lemma same_version_fields: "same_version v w \<longleftrightarrow> ver_hash w = ver_hash v \<and> ver_task w = ver_task v
    \<and> ver_definition w = ver_definition v \<and> ver_files w = ver_files v \<and> ver_sealed w = ver_sealed v"
  by (cases v, cases w) (auto simp: same_version_def)

lemma tasks_le_trans: "tasks_le a b \<Longrightarrow> tasks_le b c \<Longrightarrow> tasks_le a c"
  unfolding tasks_le_def by (auto elim!: extends_trans [rotated] simp: same_version_fields)

text \<open>The guards and the catalog leave both tables alone.\<close>

lemma catalog_frame:
  assumes "ensure_task_catalog e task name at d = Inr d'"
  shows "db_tasks d' = db_tasks d" "db_versions d' = db_versions d"
  using assms by (auto simp: ensure_task_catalog_def insert_entity_def and_then_Inr split: if_splits)

lemma rename_frame:
  assumes "rename_task_catalog e task name at d = Inr d'"
  shows "db_tasks d' = db_tasks d" "db_versions d' = db_versions d"
  using assms catalog_frame [of e task name at d]
  by (auto simp: rename_task_catalog_def rename_entity_def and_then_Inr)

lemma tasks_ok_cong:
  assumes "db_tasks d' = db_tasks d" "db_versions d' = db_versions d"
  shows "tasks_ok d' = tasks_ok d" "tasks_le x d' = tasks_le x d"
  using assms by (simp_all add: tasks_ok_def tasks_le_def task_constraint_iff version_constraint_def)

lemma find_task_mem: "find_task k d = Some t \<Longrightarrow> t \<in> set (db_tasks d) \<and> task_id t = k"
  by (auto simp: find_task_def dest: sel1_Some)

lemma find_version_mem: "find_version h d = Some v \<Longrightarrow> v \<in> set (db_versions d) \<and> ver_hash v = h"
  by (auto simp: find_version_def dest: sel1_Some)

lemma find_task_None: "find_task k d = None \<longleftrightarrow> (\<forall>t \<in> set (db_tasks d). task_id t \<noteq> k)"
  by (auto simp: find_task_def sel1_None)

lemma task_by_id: "tasks_ok d \<Longrightarrow> t \<in> set (db_tasks d) \<Longrightarrow> find_task (task_id t) d = Some t"
  by (simp add: tasks_ok_def find_task_def sel1_unique)

text \<open>A task row changed without touching its active version.\<close>

lemma update_tasks_ok:
  assumes "tasks_ok d" "\<And>t. task_id (f t) = task_id t" "\<And>t. task_active (f t) = task_active t"
    and "\<And>t. t \<in> set (db_tasks d) \<Longrightarrow> p t \<Longrightarrow> task_constraint d (f t)"
  shows "tasks_ok (d\<lparr>db_tasks := upd p f (db_tasks d)\<rparr>)" (is "tasks_ok ?d")
    and "tasks_le d (d\<lparr>db_tasks := upd p f (db_tasks d)\<rparr>)"
proof -
  have ids: "map task_id (upd p f (db_tasks d)) = map task_id (db_tasks d)"
    by (rule upd_map_key) (rule assms(2))
  have c: "task_constraint ?d t = task_constraint d t" for t by (simp add: task_constraint_iff)
  have "task_constraint ?d t" if "t \<in> set (db_tasks ?d)" for t
    using that assms(1,4) unfolding c by (auto simp: tasks_ok_def dest!: upd_mem)
  moreover have "version_constraint ?d v" if v: "v \<in> set (db_versions d)" for v
  proof -
    from v assms(1) obtain t where t: "t \<in> set (db_tasks d)" "task_id t = ver_task v"
        "ver_active v = (task_active t = Some (ver_hash v))"
      by (auto simp: tasks_ok_def version_constraint_def)
    then have "(if p t then f t else t) \<in> set (db_tasks ?d)" by (auto simp: upd_def)
    with t assms(2,3) show ?thesis unfolding version_constraint_def by (metis (full_types))
  qed
  ultimately show "tasks_ok ?d" using assms(1) ids by (simp add: tasks_ok_def)
  show "tasks_le d ?d"
    using assms(2) by (auto simp: tasks_le_def same_version_def intro: extends_refl extends_upd)
qed

lemma activate_rows:
  "db_tasks (activate task h d) = db_tasks d"
  "db_versions (activate task h d) = map (\<lambda>v. if ver_hash v = h then v\<lparr>ver_active := True\<rparr>
     else if ver_task v = task then v\<lparr>ver_active := False\<rparr> else v) (db_versions d)"
  by (auto simp: activate_def upd_def)

lemma bex_map: "(\<exists>y \<in> set (map a xs). P y) = (\<exists>x \<in> set xs. P (a x))"
  by simp

text \<open>Publication of a version that the task has: it becomes the only active one.\<close>

lemma publish_ok:
  assumes ok: "tasks_ok d" and v: "\<exists>v \<in> set (db_versions d). ver_hash v = h \<and> ver_task v = task"
    and f: "\<And>t. task_id (f t) = task_id t" "\<And>t. task_active (f t) = Some h" "\<And>t. \<not> task_approved (f t)"
  shows "tasks_ok ((activate task h d)\<lparr>db_tasks := upd (\<lambda>t. task_id t = task) f (db_tasks d)\<rparr>)" (is "tasks_ok ?d")
    and "tasks_le d ((activate task h d)\<lparr>db_tasks := upd (\<lambda>t. task_id t = task) f (db_tasks d)\<rparr>)"
proof -
  let ?a = "\<lambda>v. if ver_hash v = h then v\<lparr>ver_active := True\<rparr> else if ver_task v = task then v\<lparr>ver_active := False\<rparr> else v"
  have vs: "db_versions ?d = map ?a (db_versions d)" by (simp add: activate_rows)
  have ids: "map task_id (db_tasks ?d) = map task_id (db_tasks d)" by (simp add: upd_map_key f(1))
  have hs: "map ver_hash (db_versions ?d) = map ver_hash (db_versions d)" unfolding vs by simp
  have keep: "ver_hash (?a v) = ver_hash v \<and> ver_task (?a v) = ver_task v" for v by simp
  have own: "(\<exists>v \<in> set (db_versions ?d). ver_hash v = k \<and> ver_task v = x)
      \<longleftrightarrow> (\<exists>v \<in> set (db_versions d). ver_hash v = k \<and> ver_task v = x)" for k x
    unfolding vs bex_map by (simp only: keep)
  have "task_constraint ?d t" if "t \<in> set (db_tasks ?d)" for t
    using that ok v f unfolding task_constraint_iff own by (auto simp: tasks_ok_def task_constraint_iff dest!: upd_mem)
  moreover have "version_constraint ?d w" if "w \<in> set (db_versions ?d)" for w
  proof -
    from that vs obtain x where x: "x \<in> set (db_versions d)" "w = ?a x" by auto
    with ok obtain t where t: "t \<in> set (db_tasks d)" "task_id t = ver_task x"
        "ver_active x = (task_active t = Some (ver_hash x))"
      by (auto simp: tasks_ok_def version_constraint_def)
    let ?t = "if task_id t = task then f t else t"
    have "ver_hash x = h \<Longrightarrow> ver_task x = task"
      using v x(1) ok by (auto simp: tasks_ok_def dest: distinct_map_same)
    then have "ver_active w = (task_active ?t = Some (ver_hash w))"
      using x(2) t f(2) by auto
    moreover have "?t \<in> set (db_tasks ?d)" using t(1) by (auto simp: upd_def)
    moreover have "task_id ?t = ver_task w" using t(2) x(2) f(1) by auto
    ultimately show ?thesis unfolding version_constraint_def by blast
  qed
  ultimately show "tasks_ok ?d" using ok ids hs by (simp add: tasks_ok_def)
  have "extends same_version (db_versions d) (db_versions ?d)"
    unfolding vs extends_def by (simp add: list_all2_map2 list_all2_same same_version_fields)
  then show "tasks_le d ?d"
    using f(1) by (auto simp: tasks_le_def intro: extends_upd)
qed

text \<open>New rows.\<close>

lemma insert_version_ok:
  assumes "tasks_ok d" "insert_version v d = Inr d'" "\<not> ver_active v"
    "\<forall>t \<in> set (db_tasks d). task_active t \<noteq> Some (ver_hash v)"
  shows "tasks_ok d' \<and> tasks_le d d' \<and> db_tasks d' = db_tasks d \<and> db_versions d' = db_versions d @ [v]"
proof -
  from assms(2) have d': "d' = d\<lparr>db_versions := db_versions d @ [v]\<rparr>" and fresh: "ver_hash v \<notin> ver_hash ` set (db_versions d)"
    and t: "find_task (ver_task v) d \<noteq> None"
    by (auto simp: insert_version_def and_then_Inr ins_Inr split: if_splits)
  from t have "version_constraint d' v"
    using assms(3,4) d' by (auto simp: version_constraint_def dest: find_task_mem)
  moreover have "version_constraint d' w = version_constraint d w" for w by (simp add: version_constraint_def d')
  moreover have "task_constraint d t \<Longrightarrow> task_constraint d' t" for t by (auto simp: task_constraint_iff d')
  ultimately have "tasks_ok d'" using assms(1) fresh d' by (auto simp: tasks_ok_def)
  moreover have "tasks_le d d'" using d' by (auto simp: tasks_le_def same_version_fields intro: extends_append extends_refl)
  ultimately show ?thesis using d' by simp
qed

lemma new_task_ok:
  assumes "tasks_ok d"
  shows "tasks_ok (d\<lparr>db_tasks := ins_ignore task_id (new_task k at) (db_tasks d)\<rparr>)" (is "tasks_ok ?d")
    and "tasks_le d (d\<lparr>db_tasks := ins_ignore task_id (new_task k at) (db_tasks d)\<rparr>)"
proof -
  have "task_constraint ?d t = task_constraint d t" for t by (simp add: task_constraint_iff)
  moreover have "task_constraint d (new_task k at)" by (simp add: task_constraint_iff new_task_def)
  moreover have "version_constraint d v \<Longrightarrow> version_constraint ?d v" for v
    using ins_ignore_mono [of "db_tasks d" task_id "new_task k at"] by (fastforce simp: version_constraint_def)
  ultimately show "tasks_ok ?d"
    using assms set_ins_ignore [of task_id "new_task k at" "db_tasks d"]
    by (auto simp: tasks_ok_def intro: ins_ignore_distinct)
  show "tasks_le d ?d"
    by (auto simp: tasks_le_def same_version_fields ins_ignore_def intro: extends_append extends_refl)
qed

section \<open>Every operation keeps the constraints\<close>

lemma ensure_frame_ok:
  assumes "ensure_task_catalog e task name at d = Inr d'" "tasks_ok d"
  shows "tasks_ok d' \<and> tasks_le d d'"
  using assms(2) tasks_ok_cong [OF catalog_frame [OF assms(1)]] tasks_le_refl by simp

lemma rename_frame_ok:
  assumes "rename_task_catalog e task name at d = Inr d'" "tasks_ok d \<and> tasks_le c d"
  shows "tasks_ok d' \<and> tasks_le c d'"
  using assms(2) tasks_ok_cong [OF rename_frame [OF assms(1)]] by simp

lemma active_version_exists:
  "tasks_ok d \<Longrightarrow> find_version h d = None \<Longrightarrow> t \<in> set (db_tasks d) \<Longrightarrow> task_active t \<noteq> Some h"
  by (auto simp: tasks_ok_def task_constraint_iff find_version_def sel1_None)

lemma save_version_ok:
  assumes ok: "tasks_ok d" and s: "save_version e v d = Inr (u, d')"
  shows "tasks_ok d' \<and> tasks_le d d'"
proof -
  from s obtain name d1 where d1: "ensure_task_catalog e (ver_task v) name (ver_sealed v) d = Inr d1"
    and r: "(let d2 = d1\<lparr>db_tasks := ins_ignore task_id (new_task (ver_task v) (ver_sealed v)) (db_tasks d1)\<rparr> in
       case find_version (ver_hash v) d2 of
         Some x \<Rightarrow> if same_content x v then Inr ((), d2) else Inl (ValidationError ''sealed version immutable'')
       | None \<Rightarrow> and_then (insert_version (v\<lparr>ver_active := False\<rparr>) d2) (\<lambda>d3. Inr ((), d3))) = Inr (u, d')"
    by (auto simp: save_version_def and_then_Inr split: if_splits)
  from ensure_frame_ok [OF d1 ok] have 1: "tasks_ok d1" "tasks_le d d1" by auto
  let ?d2 = "d1\<lparr>db_tasks := ins_ignore task_id (new_task (ver_task v) (ver_sealed v)) (db_tasks d1)\<rparr>"
  note 2 = new_task_ok [OF 1(1), of "ver_task v" "ver_sealed v"]
  show ?thesis
  proof (cases "find_version (ver_hash v) ?d2")
    case None
    with r have i: "insert_version (v\<lparr>ver_active := False\<rparr>) ?d2 = Inr d'" by (auto simp: Let_def and_then_Inr)
    from insert_version_ok [OF 2(1) i] active_version_exists [OF 2(1) None] have "tasks_ok d' \<and> tasks_le ?d2 d'" by auto
    with 1(2) 2(2) show ?thesis by (meson tasks_le_trans)
  next
    case (Some x)
    with r have "d' = ?d2" by (auto simp: Let_def split: if_splits)
    with 1(2) 2 show ?thesis by (meson tasks_le_trans)
  qed
qed

lemma set_active_version_ok:
  assumes ok: "tasks_ok d" and s: "set_active_version e task h mode en idle ex up d = Inr (u, d')"
  shows "tasks_ok d' \<and> tasks_le d d'"
proof -
  let ?new = "\<lambda>m. (new_task task (now e))\<lparr>task_active := Some h, task_enabled := en, task_mode := m\<rparr>"
  let ?f = "\<lambda>m t. (unapproved t)\<lparr>task_active := Some h, task_enabled := en, task_mode := m, task_updated := now e\<rparr>"
  from s obtain m v name where v: "find_version h d = Some v" "ver_task v = task"
    and r: "rename_task_catalog e task name (now e) (upsert_task (?new m) (?f m) (activate task h d)) = Inr d'"
    by (auto simp: set_active_version_def and_then_Inr Let_def split: option.splits if_splits)
  from v ok obtain t where t: "t \<in> set (db_tasks d)" "task_id t = task"
    by (auto simp: tasks_ok_def version_constraint_def dest!: find_version_mem)
  then have "upsert_task (?new m) (?f m) (activate task h d)
      = (activate task h d)\<lparr>db_tasks := upd (\<lambda>t. task_id t = task) (?f m) (db_tasks d)\<rparr>"
    by (auto simp: upsert_task_def activate_rows find_task_None new_task_def)
  moreover have "\<exists>v \<in> set (db_versions d). ver_hash v = h \<and> ver_task v = task"
    using v find_version_mem by blast
  ultimately have "tasks_ok (upsert_task (?new m) (?f m) (activate task h d)) \<and> tasks_le d (upsert_task (?new m) (?f m) (activate task h d))"
    using publish_ok [OF ok, of h task "?f m"] by (simp add: unapproved_def)
  with r show ?thesis by (rule rename_frame_ok)
qed

lemma publish_new_ok:
  assumes ok: "tasks_ok d" and s: "publish_new_production_task e v en d = Inr (u, d')"
  shows "tasks_ok d' \<and> tasks_le d d'"
proof (cases "find_task (ver_task v) d")
  case (Some t)
  with s have "d' = d" by (auto simp: publish_new_production_task_def and_then_Inr split: if_splits)
  with ok tasks_le_refl show ?thesis by simp
next
  case None
  let ?t = "(new_task (ver_task v) (ver_sealed v))\<lparr>task_active := Some (ver_hash v), task_enabled := en, task_mode := MHandoff\<rparr>"
  let ?d1 = "d\<lparr>db_tasks := db_tasks d @ [?t]\<rparr>" and ?v = "v\<lparr>ver_active := True\<rparr>"
  from s None obtain d2 name d3 where i: "insert_version ?v ?d1 = Inr d2"
    and r: "rename_task_catalog e (ver_task v) name (ver_sealed v) d2 = Inr d3"
    and d': "d' = publication_event e ''production_task_published'' v
              [(''version_hash'', JStr (ver_hash v)), (''schedule_enabled'', JBool en), (''delivery_mode'', JStr ''handoff'')] d3"
    by (auto simp: publish_new_production_task_def and_then_Inr Let_def split: if_splits)
  from i have d2: "db_tasks d2 = db_tasks d @ [?t]" "db_versions d2 = db_versions d @ [?v]"
    and fresh: "ver_hash v \<notin> ver_hash ` set (db_versions d)"
    by (auto simp: insert_version_def and_then_Inr ins_Inr split: if_splits)
  have newid: "ver_task v \<notin> task_id ` set (db_tasks d)" using None by (auto simp: find_task_None)
  have tid: "task_id ?t = ver_task v" "task_active ?t = Some (ver_hash v)" "\<not> task_approved ?t" by (simp_all add: new_task_def)
  have "task_constraint d2 t" if "t \<in> set (db_tasks d2)" for t
    using that ok tid d2 by (auto simp: tasks_ok_def task_constraint_iff)
  moreover have "version_constraint d2 w" if "w \<in> set (db_versions d2)" for w
  proof (cases "w = ?v")
    case True
    with tid d2 show ?thesis unfolding version_constraint_def by (intro bexI [of _ ?t]) auto
  next
    case False
    with that d2 ok show ?thesis by (auto simp: tasks_ok_def version_constraint_def)
  qed
  moreover have "distinct (map task_id (db_tasks d2))" "distinct (map ver_hash (db_versions d2))"
    using ok d2 tid newid fresh by (auto simp: tasks_ok_def)
  moreover have "tasks_le d d2"
    using d2 by (auto simp: tasks_le_def same_version_fields intro: extends_append)
  ultimately have "tasks_ok d2 \<and> tasks_le d d2" by (simp add: tasks_ok_def)
  from rename_frame_ok [OF r this] d' show ?thesis
    by (simp add: publication_event_def tasks_ok_cong [of "audit _ _ _ _ _ _ _ _"])
qed

lemma watermark_frame:
  "db_tasks (set_watermark task at d) = db_tasks d" "db_versions (set_watermark task at d) = db_versions d"
  by (simp_all add: set_watermark_def)

text \<open>What an edit that is not a repetition went through.\<close>

lemma edit_cases:
  assumes "publish_production_update e v expected en mode up d = Inr (u, d')"
  obtains (same) t where "d' = d" "find_task (ver_task v) d = Some t" "task_active t = Some (ver_hash v)"
  | (edited) t d1 name d5 where "find_task (ver_task v) d = Some t" "edit_unchanged t expected mode up"
      "\<not> task_busy (ver_task v) d"
      "\<forall>x. find_version (ver_hash v) d = Some x \<longrightarrow> same_content x v"
      "(if find_version (ver_hash v) d = None then insert_version (v\<lparr>ver_active := False\<rparr>) d else Inr d) = Inr d1"
      "rename_task_catalog e (ver_task v) name (ver_sealed v) (set_watermark (ver_task v) (ver_sealed v)
         ((activate (ver_task v) (ver_hash v) d1)\<lparr>db_tasks := upd (\<lambda>x. task_id x = ver_task v)
           (\<lambda>x. (unapproved x)\<lparr>task_active := Some (ver_hash v), task_enabled := en, task_updated := ver_sealed v\<rparr>)
           (db_tasks d1)\<rparr>)) = Inr d5"
      "d' = publication_event e ''production_task_edited'' v
         [(''previous_version_hash'', JStr expected), (''version_hash'', JStr (ver_hash v)),
          (''schedule_enabled'', JBool en), (''delivery_mode'', JStr (mode_text (task_mode t)))] d5"
proof -
  from assms obtain t where t: "find_task (ver_task v) d = Some t"
    by (auto simp: publish_production_update_def and_then_Inr split: if_splits option.splits)
  show ?thesis
  proof (cases "task_active t = Some (ver_hash v) \<and> d' = d")
    case True
    with t same show ?thesis by blast
  next
    case False
    have neg: "(case m of None \<Rightarrow> False | Some x \<Rightarrow> \<not> P x) = (\<not> (\<forall>x. m = Some x \<longrightarrow> P x))" for m and P :: "version_row \<Rightarrow> bool"
      by (cases m) auto
    from assms t False show ?thesis
      by (auto simp: publish_production_update_def and_then_Inr Let_def require_idle_for_edit_def check_Inr activate_rows neg
        simp del: not_None_eq split: if_split_asm intro!: edited)
  qed
qed

lemma publish_update_ok:
  assumes ok: "tasks_ok d" and s: "publish_production_update e v ex en mode up d = Inr (u, d')"
  shows "tasks_ok d' \<and> tasks_le d d'"
  using s
proof (cases rule: edit_cases)
  case (same t)
  with ok tasks_le_refl show ?thesis by simp
next
  case (edited t d1 name d5)
  let ?f = "\<lambda>x. (unapproved x)\<lparr>task_active := Some (ver_hash v), task_enabled := en, task_updated := ver_sealed v\<rparr>"
  have 1: "tasks_ok d1 \<and> tasks_le d d1 \<and> (\<exists>w \<in> set (db_versions d1). ver_hash w = ver_hash v \<and> ver_task w = ver_task v)"
  proof (cases "find_version (ver_hash v) d")
    case None
    with edited(5) have i: "insert_version (v\<lparr>ver_active := False\<rparr>) d = Inr d1" by simp
    from insert_version_ok [OF ok i] active_version_exists [OF ok None] show ?thesis by auto
  next
    case (Some x)
    with edited(4,5) have "d1 = d" "same_content x v" by auto
    with ok find_version_mem [OF Some] show ?thesis by (auto simp: same_content_def tasks_le_refl)
  qed
  let ?d2 = "(activate (ver_task v) (ver_hash v) d1)\<lparr>db_tasks := upd (\<lambda>x. task_id x = ver_task v) ?f (db_tasks d1)\<rparr>"
  have "tasks_ok ?d2 \<and> tasks_le d1 ?d2"
    using publish_ok [of d1 "ver_hash v" "ver_task v" ?f] 1 by (simp add: unapproved_def)
  with 1 have "tasks_ok (set_watermark (ver_task v) (ver_sealed v) ?d2) \<and> tasks_le d (set_watermark (ver_task v) (ver_sealed v) ?d2)"
    using tasks_le_trans [of d d1 ?d2] by (simp add: tasks_ok_cong [OF watermark_frame])
  from rename_frame_ok [OF edited(6) this] edited(7) show ?thesis
    by (simp add: publication_event_def tasks_ok_cong [of "audit _ _ _ _ _ _ _ _"])
qed

lemma set_task_enabled_ok:
  assumes ok: "tasks_ok d" and s: "set_task_enabled e task en d = Inr (u, d')"
  shows "tasks_ok d' \<and> tasks_le d d'"
proof -
  from s have d': "d' = d\<lparr>db_tasks := upd (\<lambda>t. task_id t = task) (\<lambda>t. t\<lparr>task_enabled := en, task_updated := now e\<rparr>) (db_tasks d)\<rparr>"
    by (auto simp: set_task_enabled_def and_then_Inr simp del: not_None_eq)
  show ?thesis unfolding d' using ok
    by (intro conjI update_tasks_ok ok) (auto simp: tasks_ok_def task_constraint_iff)
qed

lemma approval_evidence_Inr:
  assumes "approval_evidence e task revision d = Inr (h, rvn, run)"
  shows "(\<exists>t. find_task task d = Some t \<and> task_active t = Some h) \<and> revision = Some rvn \<and> rvn \<noteq> [] \<and>
    (\<exists>r. dry_run_evidence task h d = Some r \<and> run = run_id r)"
  using assms by (auto simp: approval_evidence_def and_then_Inr default_def split: if_splits option.splits)

lemma set_delivery_approved_ok:
  assumes ok: "tasks_ok d" and s: "set_delivery_approved e task a r d = Inr (u, d')"
  shows "tasks_ok d' \<and> tasks_le d d'"
proof -
  from s obtain ev where ev: "(if a then and_then (approval_evidence e task r d) (\<lambda>x. Inr (Some x)) else Inr None) = Inr ev"
    and d': "d' = d\<lparr>db_tasks := upd (\<lambda>t. task_id t = task) (approve_row (now e) ev) (db_tasks d)\<rparr>"
    by (auto simp: set_delivery_approved_def and_then_Inr)
  have "task_constraint d (approve_row (now e) ev t)" if t: "t \<in> set (db_tasks d)" "task_id t = task" for t
  proof -
    from ok t(1) have "task_constraint d t" by (simp add: tasks_ok_def)
    moreover have "find_task task d = Some t" using task_by_id [OF ok t(1)] t(2) by simp
    moreover have "ev = Some (h, rvn, run) \<Longrightarrow> task_active t = Some h" for h rvn run
      using ev approval_evidence_Inr [of e task r d h rvn run] calculation(2) by (auto simp: and_then_Inr split: if_splits)
    ultimately show ?thesis by (auto simp: task_constraint_iff approve_row_def unapproved_def split: option.splits)
  qed
  then show ?thesis
    unfolding d' by (intro conjI update_tasks_ok ok) (auto simp: approve_row_def unapproved_def split: option.splits)
qed

lemma set_production_delivery_ok:
  assumes ok: "tasks_ok d" and s: "set_production_delivery_enabled e task h en d = Inr (u, d')"
  shows "tasks_ok d' \<and> tasks_le d d'"
proof -
  from s obtain v where "find_version h d = Some v" by (auto simp: set_production_delivery_enabled_def and_then_Inr split: option.splits)
  with s have d': "d' = d\<lparr>db_tasks := upd (\<lambda>t. task_id t = task \<and> task_active t = Some h)
      (\<lambda>t. t\<lparr>task_mode := (if en then MHandoff else MDisabled), task_updated := now e\<rparr>) (db_tasks d)\<rparr>"
    by (simp add: set_production_delivery_enabled_def and_then_Inr if_Inl_eq_Inr)
  show ?thesis unfolding d' using ok
    by (intro conjI update_tasks_ok ok) (auto simp: tasks_ok_def task_constraint_iff)
qed

lemma task_step_ok: "tasks_ok d \<Longrightarrow> task_step x d = Inr (u, d') \<Longrightarrow> tasks_ok d' \<and> tasks_le d d'"
  by (cases "(x, d)" rule: task_step.cases)
    (auto dest: save_version_ok set_active_version_ok publish_new_ok publish_update_ok set_task_enabled_ok
      set_delivery_approved_ok set_production_delivery_ok)

interpretation tasks: monotone_ops task_step tasks_ok tasks_le
  by unfold_locales (auto dest: task_step_ok intro: tasks_le_refl tasks_le_trans)

section \<open>Approval and publication\<close>

text \<open>The approval of a row as it was.\<close>

definition same_approval :: "task_row \<Rightarrow> task_row \<Rightarrow> bool" where
  "same_approval t u = (task_id u = task_id t \<and> task_active u = task_active t \<and> task_approved u = task_approved t
     \<and> task_approved_version u = task_approved_version t \<and> task_approved_revision u = task_approved_revision t
     \<and> task_dry_run u = task_dry_run t)"

definition approvals_kept :: "db \<Rightarrow> db \<Rightarrow> bool" where
  "approvals_kept d d' = (\<forall>u \<in> set (db_tasks d'). task_approved u \<longrightarrow> (\<exists>t \<in> set (db_tasks d). same_approval t u))"

lemma approvals_kept_refl: "db_tasks d' = db_tasks d \<Longrightarrow> approvals_kept d d'"
  by (auto simp: approvals_kept_def same_approval_def)

lemma approvals_kept_upd:
  assumes "db_tasks d' = upd p f (db_tasks d)" "\<And>t. \<not> task_approved (f t) \<or> same_approval t (f t)"
  shows "approvals_kept d d'"
  using assms by (auto simp: approvals_kept_def same_approval_def dest!: upd_mem)

lemma approvals_kept_append:
  assumes "set (db_tasks d') \<subseteq> insert t (set (db_tasks d))" "\<not> task_approved t"
  shows "approvals_kept d d'"
  using assms by (fastforce simp: approvals_kept_def same_approval_def)

lemma save_version_approvals: "save_version e v d = Inr (u, d') \<Longrightarrow> approvals_kept d d'"
proof -
  assume s: "save_version e v d = Inr (u, d')"
  have ins: "insert_version w x = Inr y \<Longrightarrow> db_tasks y = db_tasks x" for w x y
    by (auto simp: insert_version_def and_then_Inr split: if_splits)
  from s have "\<exists>name d1. ensure_task_catalog e (ver_task v) name (ver_sealed v) d = Inr d1 \<and>
      db_tasks d' = ins_ignore task_id (new_task (ver_task v) (ver_sealed v)) (db_tasks d1)"
    by (fastforce simp: save_version_def and_then_Inr Let_def dest: ins split: option.splits if_splits)
  then have "set (db_tasks d') \<subseteq> insert (new_task (ver_task v) (ver_sealed v)) (set (db_tasks d))"
    using catalog_frame set_ins_ignore by metis
  then show ?thesis by (rule approvals_kept_append) (simp add: new_task_def)
qed

lemma set_active_version_approvals: "set_active_version e k h m en idle ex up d = Inr (u, d') \<Longrightarrow> approvals_kept d d'"
proof -
  assume s: "set_active_version e k h m en idle ex up d = Inr (u, d')"
  let ?new = "\<lambda>md. (new_task k (now e))\<lparr>task_active := Some h, task_enabled := en, task_mode := md\<rparr>"
  let ?f = "\<lambda>md t. (unapproved t)\<lparr>task_active := Some h, task_enabled := en, task_mode := md, task_updated := now e\<rparr>"
  from s obtain md name where "rename_task_catalog e k name (now e) (upsert_task (?new md) (?f md) (activate k h d)) = Inr d'"
    by (auto simp: set_active_version_def and_then_Inr Let_def split: option.splits if_splits)
  then have t: "db_tasks d' = (if find_task k d = None then db_tasks d @ [?new md] else upd (\<lambda>t. task_id t = k) (?f md) (db_tasks d))"
    using rename_frame(1) by (force simp: upsert_task_def activate_rows new_task_def find_task_def)
  show ?thesis
  proof (cases "find_task k d = None")
    case True
    with t show ?thesis by (intro approvals_kept_append [of _ "?new md"]) (auto simp: new_task_def)
  next
    case False
    with t show ?thesis by (intro approvals_kept_upd [of _ "\<lambda>t. task_id t = k" "?f md"]) (auto simp: unapproved_def)
  qed
qed

lemma publish_new_approvals: "publish_new_production_task e v en d = Inr (u, d') \<Longrightarrow> approvals_kept d d'"
proof -
  assume s: "publish_new_production_task e v en d = Inr (u, d')"
  let ?t = "(new_task (ver_task v) (ver_sealed v))\<lparr>task_active := Some (ver_hash v), task_enabled := en, task_mode := MHandoff\<rparr>"
  have ins: "insert_version w x = Inr y \<Longrightarrow> db_tasks y = db_tasks x" for w x y
    by (auto simp: insert_version_def and_then_Inr split: if_splits)
  show ?thesis
  proof (cases "find_task (ver_task v) d")
    case (Some t)
    with s have "d' = d" by (auto simp: publish_new_production_task_def and_then_Inr split: if_splits)
    then show ?thesis by (simp add: approvals_kept_refl)
  next
    case None
    with s have "db_tasks d' = db_tasks d @ [?t]"
      by (auto simp: publish_new_production_task_def and_then_Inr Let_def publication_event_def
        dest!: rename_frame(1) ins split: if_splits)
    then show ?thesis by (intro approvals_kept_append [of _ ?t]) (auto simp: new_task_def)
  qed
qed

lemma insert_version_tasks: "(if b then insert_version w d else Inr d) = Inr d1 \<Longrightarrow> db_tasks d1 = db_tasks d"
  by (auto simp: insert_version_def and_then_Inr split: if_splits)

lemma publish_update_approvals: "publish_production_update e v ex en m up d = Inr (u, d') \<Longrightarrow> approvals_kept d d'"
proof (erule edit_cases)
  fix t d1 name d5
  let ?f = "\<lambda>x. (unapproved x)\<lparr>task_active := Some (ver_hash v), task_enabled := en, task_updated := ver_sealed v\<rparr>"
  assume i: "(if find_version (ver_hash v) d = None then insert_version (v\<lparr>ver_active := False\<rparr>) d else Inr d) = Inr d1"
    and r: "rename_task_catalog e (ver_task v) name (ver_sealed v) (set_watermark (ver_task v) (ver_sealed v)
         ((activate (ver_task v) (ver_hash v) d1)\<lparr>db_tasks := upd (\<lambda>x. task_id x = ver_task v) ?f (db_tasks d1)\<rparr>)) = Inr d5"
    and d': "d' = publication_event e ''production_task_edited'' v
         [(''previous_version_hash'', JStr ex), (''version_hash'', JStr (ver_hash v)),
          (''schedule_enabled'', JBool en), (''delivery_mode'', JStr (mode_text (task_mode t)))] d5"
  from insert_version_tasks [OF i] rename_frame(1) [OF r] d'
  have "db_tasks d' = upd (\<lambda>x. task_id x = ver_task v) ?f (db_tasks d)"
    by (simp add: publication_event_def watermark_frame)
  then show ?thesis by (intro approvals_kept_upd [of _ "\<lambda>x. task_id x = ver_task v" ?f]) (auto simp: unapproved_def)
qed (simp add: approvals_kept_refl)

lemma switch_approvals:
  "set_task_enabled e k en d = Inr (u, d') \<Longrightarrow> approvals_kept d d'"
  "set_production_delivery_enabled e k h en d = Inr (u, d') \<Longrightarrow> approvals_kept d d'"
proof -
  assume "set_task_enabled e k en d = Inr (u, d')"
  then have "db_tasks d' = upd (\<lambda>t. task_id t = k) (\<lambda>t. t\<lparr>task_enabled := en, task_updated := now e\<rparr>) (db_tasks d)"
    by (auto simp: set_task_enabled_def and_then_Inr simp del: not_None_eq)
  then show "approvals_kept d d'"
    by (rule approvals_kept_upd) (simp add: same_approval_def)
next
  assume s: "set_production_delivery_enabled e k h en d = Inr (u, d')"
  then obtain v where "find_version h d = Some v" by (auto simp: set_production_delivery_enabled_def and_then_Inr split: option.splits)
  with s have "db_tasks d' = upd (\<lambda>t. task_id t = k \<and> task_active t = Some h)
      (\<lambda>t. t\<lparr>task_mode := (if en then MHandoff else MDisabled), task_updated := now e\<rparr>) (db_tasks d)"
    by (auto simp: set_production_delivery_enabled_def and_then_Inr if_Inl_eq_Inr)
  then show "approvals_kept d d'"
    by (rule approvals_kept_upd) (simp add: same_approval_def)
qed

lemma approve_effect:
  assumes ok: "tasks_ok d" and s: "set_delivery_approved e k a r d = Inr (u, d')"
    and t: "t \<in> set (db_tasks d')" "task_approved t"
  shows "(\<exists>x \<in> set (db_tasks d). same_approval x t) \<or>
    (\<exists>rvn h run. task_id t = k \<and> a \<and> r = Some rvn \<and> task_active t = Some h \<and> task_approved_revision t = Some rvn
      \<and> run \<in> set (db_runs d) \<and> run_task run = k \<and> run_version run = h \<and> run_status run = Succeeded
      \<and> task_dry_run t = Some (run_id run) \<and> some_row (\<lambda>x. ho_run x = run_id run \<and> ho_mode x = ''dry_run'') (db_handoffs d))"
proof -
  from s obtain ev where ev: "(if a then and_then (approval_evidence e k r d) (\<lambda>x. Inr (Some x)) else Inr None) = Inr ev"
    and d': "db_tasks d' = upd (\<lambda>t. task_id t = k) (approve_row (now e) ev) (db_tasks d)"
    by (auto simp: set_delivery_approved_def and_then_Inr)
  from t(1) d' consider (kept) "t \<in> set (db_tasks d)"
    | (changed) x where "x \<in> set (db_tasks d)" "task_id x = k" "t = approve_row (now e) ev x"
    by (auto dest!: upd_mem)
  then show ?thesis
  proof cases
    case kept
    then show ?thesis by (auto simp: same_approval_def)
  next
    case changed
    with t(2) obtain h rvn run where e3: "ev = Some (h, rvn, run)" by (auto simp: approve_row_def unapproved_def split: option.splits)
    with ev have ae: "approval_evidence e k r d = Inr (h, rvn, run)" and a by (auto simp: and_then_Inr split: if_splits)
    from approval_evidence_Inr [OF ae] task_by_id [OF ok changed(1)] changed(2) obtain y where
      h: "task_active x = Some h" "r = Some rvn" and y: "dry_run_evidence k h d = Some y" "run = run_id y" by auto
    from greatest_by_Some [OF y(1) [unfolded dry_run_evidence_def]] have
      "y \<in> set (db_runs d)" "run_task y = k" "run_version y = h" "run_status y = Succeeded"
      "some_row (\<lambda>x. ho_run x = run_id y \<and> ho_mode x = ''dry_run'') (db_handoffs d)" by auto
    with h y changed e3 \<open>a\<close> show ?thesis by (intro disjI2) (auto simp: approve_row_def)
  qed
qed

text \<open>C8: an operation can leave a task approved for live delivery only if the task was approved
  before with the same active version, revision and evidence, or the operation is the approval of
  this task, for the given configuration revision, and then a succeeded run of exactly its active
  version with a dry-run handoff exists and is recorded as the evidence; so publishing another
  version always revokes the approval.\<close>

theorem approval_needs_evidence:
  assumes "tasks_ok d" "task_step (e, x) d = Inr (u, d')" "t \<in> set (db_tasks d')" "task_approved t"
  shows "(\<exists>s \<in> set (db_tasks d). same_approval s t) \<or>
    (\<exists>rvn h run. x = OpApprove (task_id t) True (Some rvn) \<and> task_active t = Some h \<and> task_approved_revision t = Some rvn
      \<and> run \<in> set (db_runs d) \<and> run_task run = task_id t \<and> run_version run = h \<and> run_status run = Succeeded
      \<and> task_dry_run t = Some (run_id run) \<and> some_row (\<lambda>y. ho_run y = run_id run \<and> ho_mode y = ''dry_run'') (db_handoffs d))"
proof (cases "\<exists>k a r. x = OpApprove k a r")
  case True
  then obtain k a r where x: "x = OpApprove k a r" by blast
  from approve_effect [of d e k a r u d' t] assms x show ?thesis by (fastforce simp: same_approval_def)
next
  case False
  with assms(2) have "approvals_kept d d'"
    by (cases x) (auto dest: save_version_approvals set_active_version_approvals publish_new_approvals
      publish_update_approvals switch_approvals)
  with assms(3,4) show ?thesis by (auto simp: approvals_kept_def)
qed

definition dry_run_handoff :: handoff_row where
  "dry_run_handoff = \<lparr>ho_id = ''h1'', ho_key = ''k'', ho_run = ''r1'', ho_task = ''t1'', ho_version = ''v1'', ho_revision = 1,
     ho_type = ''research_report'', ho_group = ''g'', ho_mode = ''dry_run'', ho_status = ''skipped'', ho_request = JNull,
     ho_request_sha = [], ho_published = None, ho_receipt = None, ho_acknowledged = None, ho_external = None,
     ho_receipt_sha = None, ho_trust = None, ho_reason = None, ho_created = 120\<rparr>"

definition proven_db :: db where
  "proven_db = sample_db\<lparr>db_runs := [(sample_run ''r1'' ''t1'')\<lparr>run_status := Succeeded\<rparr>],
     db_handoffs := [dry_run_handoff], db_leases := [], db_claims := []\<rparr>"

theorem approval_needs_evidence_witness:
  "\<exists>d' t. task_step (sample_env, OpApprove ''t1'' True (Some ''c1'')) proven_db = Inr ((), d') \<and> t \<in> set (db_tasks d')
     \<and> task_approved t \<and> ((\<exists>s \<in> set (db_tasks proven_db). same_approval s t) \<or> task_approved_revision t = Some ''c1'')"
proof -
  let ?m = "task_step (sample_env, OpApprove ''t1'' True (Some ''c1'')) proven_db"
  have ok: "tasks_ok proven_db" by code_simp
  have "\<not> isl ?m" "(case ?m of Inl x \<Rightarrow> False | Inr (u, d) \<Rightarrow> list_ex task_approved (db_tasks d))" by code_simp+
  then obtain u d' t where s: "?m = Inr (u, d')" and t: "t \<in> set (db_tasks d')" "task_approved t"
    by (auto simp: list_ex_iff split: sum.splits prod.splits)
  from approval_needs_evidence [OF ok s t] have
    "(\<exists>s \<in> set (db_tasks proven_db). same_approval s t) \<or> task_approved_revision t = Some ''c1''" by auto
  with s t show ?thesis by auto
qed

text \<open>An edit of a production task either changes nothing, because the version is already
  active, or it happened while the task was idle and the task row was still the one the editor
  saw; then the edited version is the active one, the delivery mode is kept, the approval is
  revoked, the schedule watermark is the seal time and every other task row is untouched.\<close>

theorem edit_needs_idle_task:
  assumes "tasks_ok d" "publish_production_update e v expected en mode up d = Inr (u, d')"
  shows "(d' = d \<and> (\<exists>t. find_task (ver_task v) d = Some t \<and> task_active t = Some (ver_hash v))) \<or>
    (\<exists>t. find_task (ver_task v) d = Some t \<and> \<not> task_busy (ver_task v) d \<and> task_active t = Some expected \<and> mode_text (task_mode t) = mode
      \<and> find_task (ver_task v) d' = Some ((unapproved t)\<lparr>task_active := Some (ver_hash v), task_enabled := en, task_updated := ver_sealed v\<rparr>)
      \<and> (\<exists>w. find_version (ver_hash v) d' = Some w \<and> ver_active w \<and> ver_task w = ver_task v \<and> (same_content w v \<or> same_version w v))
      \<and> (ver_task v, ver_sealed v) \<in> set (db_watermarks d')
      \<and> filter (\<lambda>x. task_id x \<noteq> ver_task v) (db_tasks d') = filter (\<lambda>x. task_id x \<noteq> ver_task v) (db_tasks d))"
  using assms(2)
proof (cases rule: edit_cases)
  case (same t)
  then show ?thesis by blast
next
  case (edited t d1 name d5)
  let ?f = "\<lambda>x. (unapproved x)\<lparr>task_active := Some (ver_hash v), task_enabled := en, task_updated := ver_sealed v\<rparr>"
  let ?a = "\<lambda>x. if ver_hash x = ver_hash v then x\<lparr>ver_active := True\<rparr> else if ver_task x = ver_task v then x\<lparr>ver_active := False\<rparr> else x"
  from edited(7) have d': "db_tasks d' = db_tasks d5" "db_versions d' = db_versions d5" "db_watermarks d' = db_watermarks d5"
    by (simp_all add: publication_event_def)
  from insert_version_tasks [OF edited(5)] rename_frame [OF edited(6)] d'
  have ts: "db_tasks d' = upd (\<lambda>x. task_id x = ver_task v) ?f (db_tasks d)" and vs: "db_versions d' = map ?a (db_versions d1)"
    by (simp_all add: watermark_frame activate_rows)
  have "sel1 (\<lambda>x. task_id x = ver_task v) (upd (\<lambda>x. task_id x = ver_task v) ?f ts)
      = map_option ?f (sel1 (\<lambda>x. task_id x = ver_task v) ts)" for ts
    by (induction ts) (auto simp: unapproved_def)
  then have task: "find_task (ver_task v) d' = Some (?f t)" using edited(1) by (simp add: find_task_def ts)
  obtain x where x: "sel1 (\<lambda>x. ver_hash x = ver_hash v) (db_versions d1) = Some x" "ver_task x = ver_task v" "same_content x v \<or> same_version x v"
  proof (cases "find_version (ver_hash v) d")
    case None
    with edited(5) have "db_versions d1 = db_versions d @ [v\<lparr>ver_active := False\<rparr>]"
      by (auto simp: insert_version_def and_then_Inr ins_Inr split: if_splits)
    with None show ?thesis
      by (intro that [of "v\<lparr>ver_active := False\<rparr>"]) (auto simp: find_version_def sel1_None sel1_append_new same_version_fields)
  next
    case (Some y)
    with edited(4,5) show ?thesis by (intro that [of y]) (auto simp: find_version_def same_content_def)
  qed
  have "sel1 (\<lambda>x. ver_hash x = ver_hash v) (map ?a ws) = map_option ?a (sel1 (\<lambda>x. ver_hash x = ver_hash v) ws)" for ws
    by (induction ws) auto
  from this [of "db_versions d1"] x vs have ver: "\<exists>w. find_version (ver_hash v) d' = Some w \<and> ver_active w \<and> ver_task w = ver_task v \<and> (same_content w v \<or> same_version w v)"
    by (auto simp: find_version_def same_content_def same_version_fields dest: sel1_Some)
  have "(ver_task v, ver_sealed v) \<in> set (db_watermarks (set_watermark (ver_task v) (ver_sealed v) y))" for y
    by (auto simp: set_watermark_def set_upd some_row_iff)
  then have mark: "(ver_task v, ver_sealed v) \<in> set (db_watermarks d')"
    using edited(6) d'(3) by (auto simp: rename_task_catalog_def ensure_task_catalog_def insert_entity_def rename_entity_def
      and_then_Inr split: if_splits)
  have "filter (\<lambda>x. task_id x \<noteq> ver_task v) (upd (\<lambda>x. task_id x = ver_task v) ?f ts)
      = filter (\<lambda>x. task_id x \<noteq> ver_task v) ts" for ts
    by (induction ts) (auto simp: unapproved_def)
  with ts task ver mark edited(1-3) show ?thesis by (intro disjI2) (auto simp: edit_unchanged_def)
qed

text \<open>A new version of the idle task of the example state.\<close>

definition idle_db :: db where
  "idle_db = sample_db\<lparr>db_runs := [], db_leases := [], db_claims := []\<rparr>"

definition edited_version :: version_row where
  "edited_version = sample_version\<lparr>ver_hash := ''v2'', ver_sealed := 300\<rparr>"

theorem edit_needs_idle_task_witness:
  "\<exists>d'. publish_production_update sample_env edited_version ''v1'' True ''handoff'' None idle_db = Inr ((), d')
     \<and> find_task ''t1'' d' = Some (sample_task\<lparr>task_active := Some ''v2'', task_updated := 300\<rparr>)"
proof -
  let ?m = "publish_production_update sample_env edited_version ''v1'' True ''handoff'' None idle_db"
  have "\<not> isl ?m" by code_simp
  then obtain u d' where s: "?m = Inr (u, d')" by (auto dest!: not_isl)
  have ok: "tasks_ok idle_db" by code_simp
  have t: "find_task ''t1'' idle_db = Some sample_task" "ver_task edited_version = ''t1''" "ver_hash edited_version = ''v2''"
      "ver_sealed edited_version = 300" by code_simp+
  from edit_needs_idle_task [OF ok s] t have "find_task ''t1'' d'
      = Some ((unapproved sample_task)\<lparr>task_active := Some ''v2'', task_enabled := True, task_updated := 300\<rparr>)"
    by (auto simp: sample_task_def)
  also have "(unapproved sample_task)\<lparr>task_active := Some ''v2'', task_enabled := True, task_updated := 300\<rparr>
      = sample_task\<lparr>task_active := Some ''v2'', task_updated := 300\<rparr>" by code_simp
  finally show ?thesis using s by simp
qed

text \<open>C9: every history of saving, publishing, editing and switching tasks keeps the constraints of
  both tables (keys unique, every version of a task that exists, an approved task has all its
  evidence for its active version), keeps exactly one active version per published task, never
  changes what a version sealed and never removes a task or a version.\<close>

theorem task_history:
  assumes "tasks_ok d"
  shows "tasks_ok (exec task_step ops d) \<and> tasks_le d (exec task_step ops d)"
  using assms tasks.exec_inv tasks.exec_le by blast

theorem task_history_witness:
  "tasks_ok (exec task_step [(sample_env, OpSave edited_version), (sample_env, OpPublish edited_version True)] idle_db)"
proof -
  have "tasks_ok idle_db" by code_simp
  from task_history [OF this] show ?thesis by blast
qed

end
