(* ===== verification/Delivery_Repo.thy ===== *)
theory Delivery_Repo imports Authorization begin

text \<open>
  \<open>DeliveryRepository\<close> and \<open>StateRepository\<close> of \<open>storage/repositories.py\<close>: handoffs,
  receipts, reported items and the audit log. A handoff or receipt given by a caller is a row
  whose creation or import time the operation sets. \<open>records_ok\<close> and \<open>records_le\<close> are
  what every history of the writing operations keeps.
\<close>

section \<open>Handoffs\<close>

definition find_handoff :: "string \<Rightarrow> db \<Rightarrow> handoff_row option" where
  "find_handoff h d = sel1 (\<lambda>x. ho_id x = h) (db_handoffs d)"

definition handoff_identity :: "handoff_row \<Rightarrow> string list \<times> int \<times> string list" where
  "handoff_identity h = ([ho_id h, ho_key h, ho_run h, ho_task h, ho_version h], ho_revision h,
     [ho_type h, ho_group h, ho_mode h, ho_request_sha h])"

definition insert_handoff :: "handoff_row \<Rightarrow> db \<Rightarrow> db res" where
  "insert_handoff h d = (if some_row (\<lambda>x. ho_id x = ho_id h \<or> ho_key x = ho_key h) (db_handoffs d)
       then Inl (IntegrityError ''delivery_handoffs'')
     else if find_run (ho_run h) d = None \<or> find_task (ho_task h) d = None \<or> find_version (ho_version h) d = None
       then Inl (IntegrityError ''foreign key'')
     else Inr (d\<lparr>db_handoffs := db_handoffs d @ [h]\<rparr>))"

definition published_as :: "handoff_row \<Rightarrow> handoff_row \<Rightarrow> handoff_row" where
  "published_as h y = y\<lparr>ho_status := ''published'', ho_published := ho_published h\<rparr>"

definition save_handoff :: "env \<Rightarrow> handoff_row \<Rightarrow> db \<Rightarrow> (unit \<times> db) res" where
  "save_handoff e h d = (case sel1 (\<lambda>x. ho_id x = ho_id h \<or> ho_key x = ho_key h) (db_handoffs d) of
     Some x \<Rightarrow> if handoff_identity x \<noteq> handoff_identity h \<or> \<not> pyeq (ho_request x) (ho_request h)
         then Inl (ValidationError ''delivery package immutable'')
       else if ho_status x = ''prepared'' \<and> ho_status h = ''published''
         then Inr ((), d\<lparr>db_handoffs := upd (\<lambda>y. ho_id y = ho_id h \<and> ho_status y = ''prepared'')
           (published_as h) (db_handoffs d)\<rparr>)
       else if ho_status x \<noteq> ho_status h then Inl (ConcurrencyError ''handoff status reset'') else Inr ((), d)
   | None \<Rightarrow> and_then (insert_handoff (h\<lparr>ho_created := now e\<rparr>) d) (\<lambda>d'. Inr ((), d')))"

definition get_handoff_by_idempotency_key :: "string \<Rightarrow> db \<Rightarrow> handoff_row option" where
  "get_handoff_by_idempotency_key k d = sel1 (\<lambda>x. ho_key x = k) (db_handoffs d)"

definition get_handoff_for_run :: "string \<Rightarrow> db \<Rightarrow> handoff_row option" where
  "get_handoff_for_run run d = greatest_by ho_created (sel (\<lambda>x. ho_run x = run) (db_handoffs d))"

definition filter_given :: "string option \<Rightarrow> string \<Rightarrow> bool" where
  "filter_given m s = (default [] m = [] \<or> m = Some s)"

definition list_handoffs :: "string option \<Rightarrow> string option \<Rightarrow> db \<Rightarrow> handoff_row list" where
  "list_handoffs task status d = sort_key (\<lambda>h. - ho_created h)
     (sel (\<lambda>h. filter_given task (ho_task h) \<and> filter_given status (ho_status h)) (db_handoffs d))"

section \<open>Receipts\<close>

definition find_receipt :: "string \<Rightarrow> db \<Rightarrow> receipt_row option" where
  "find_receipt r d = sel1 (\<lambda>x. rc_id x = r) (db_receipts d)"

definition insert_receipt :: "receipt_row \<Rightarrow> db \<Rightarrow> db res" where
  "insert_receipt r d = (if find_receipt (rc_id r) d \<noteq> None then Inl (IntegrityError ''delivery_receipts'')
     else if find_handoff (rc_handoff r) d = None then Inl (IntegrityError ''foreign key'')
     else Inr (d\<lparr>db_receipts := db_receipts d @ [r]\<rparr>))"

definition stored_error :: "json option \<Rightarrow> json option" where
  "stored_error m = (case m of None \<Rightarrow> None | Some v \<Rightarrow> if truthy v then Some v else None)"

definition save_receipt :: "env \<Rightarrow> receipt_row \<Rightarrow> string \<Rightarrow> string \<Rightarrow> db \<Rightarrow> (unit \<times> db) res" where
  "save_receipt e r raw digest d = (case find_receipt (rc_id r) d of
     Some x \<Rightarrow> if rc_sha x \<noteq> digest \<or> rc_raw x \<noteq> raw then Inl (ValidationError ''receipt evidence immutable'') else Inr ((), d)
   | None \<Rightarrow> and_then (insert_receipt (r\<lparr>rc_error := stored_error (rc_error r), rc_raw := raw, rc_sha := digest,
         rc_imported := now e\<rparr>) d) (\<lambda>d'. Inr ((), d')))"

definition get_receipt_for_handoff :: "string \<Rightarrow> db \<Rightarrow> receipt_row option" where
  "get_receipt_for_handoff h d = greatest_by rc_imported (sel (\<lambda>x. rc_handoff x = h) (db_receipts d))"

section \<open>Reported items and the audit log\<close>

definition reported_key :: "reported_row \<Rightarrow> string \<times> string \<times> string" where
  "reported_key r = (rep_task r, rep_entity r, rep_fingerprint r)"

text \<open>\<open>INSERT OR IGNORE\<close> ignores a repeated item, not a missing parent row.\<close>

definition insert_reported :: "reported_row \<Rightarrow> db \<Rightarrow> db res" where
  "insert_reported r d = (if some_row (\<lambda>x. reported_key x = reported_key r) (db_reported d) then Inr d
     else if find_task (rep_task r) d = None \<or> find_run (rep_run r) d = None \<or> find_handoff (rep_handoff r) d = None
       then Inl (IntegrityError ''foreign key'')
     else Inr (d\<lparr>db_reported := db_reported d @ [r]\<rparr>))"

definition save_reported_item :: "reported_row \<Rightarrow> db \<Rightarrow> (unit \<times> db) res" where
  "save_reported_item r d = and_then (insert_reported r d) (\<lambda>d'. Inr ((), d'))"

definition is_reported_item_unchanged :: "string \<Rightarrow> string \<Rightarrow> string \<Rightarrow> db \<Rightarrow> bool" where
  "is_reported_item_unchanged task key fingerprint d = some_row (\<lambda>r. rep_task r = task \<and> rep_entity r = key
     \<and> rep_fingerprint r = fingerprint \<and> some_row (\<lambda>h. ho_id h = rep_handoff r \<and> ho_status h = ''smtp_accepted''
          \<and> ho_trust h = Some ''verified_local_smtp'') (db_handoffs d)) (db_reported d)"

definition get_reported_items :: "string \<Rightarrow> db \<Rightarrow> reported_row list" where
  "get_reported_items task d = sort_key (\<lambda>r. - rep_at r) (sel (\<lambda>r. rep_task r = task) (db_reported d))"

definition save_audit_event :: "env \<Rightarrow> audit_row \<Rightarrow> db \<Rightarrow> (unit \<times> db) res" where
  "save_audit_event e v d = Inr ((), audit e (ev_entity v) (ev_key v) (ev_type v) (ev_details v) (ev_actor v) (ev_at v) d)"

definition list_audit_events :: "string option \<Rightarrow> string option \<Rightarrow> int \<Rightarrow> db \<Rightarrow> audit_row list" where
  "list_audit_events entity key limit d = (let rows = sort_key (\<lambda>v. - ev_id v)
       (sel (\<lambda>v. filter_given entity (ev_entity v) \<and> filter_given key (ev_key v)) (db_audit d))
     in if limit < 0 then rows else take (nat limit) rows)"

section \<open>Histories\<close>

datatype record_op =
    OpHandoff handoff_row
  | OpReceipt receipt_row string string
  | OpReported reported_row
  | OpAudit audit_row

fun record_step :: "env \<times> record_op \<Rightarrow> db \<Rightarrow> (unit \<times> db) res" where
  "record_step (e, OpHandoff h) d = save_handoff e h d"
| "record_step (e, OpReceipt r raw digest) d = save_receipt e r raw digest d"
| "record_step (e, OpReported r) d = save_reported_item r d"
| "record_step (e, OpAudit v) d = save_audit_event e v d"

definition records_ok :: "db \<Rightarrow> bool" where
  "records_ok d = (distinct (map ho_id (db_handoffs d)) \<and> distinct (map ho_key (db_handoffs d))
     \<and> distinct (map rc_id (db_receipts d)) \<and> distinct (map reported_key (db_reported d)) \<and> audit_ok d
     \<and> list_all (\<lambda>r. find_handoff (rc_handoff r) d \<noteq> None) (db_receipts d)
     \<and> list_all (\<lambda>r. find_handoff (rep_handoff r) d \<noteq> None) (db_reported d))"

text \<open>A handoff never changes its package, only its publication.\<close>

definition handoff_moves :: "handoff_row \<Rightarrow> handoff_row \<Rightarrow> bool" where
  "handoff_moves h x = (x = h \<or> ho_status h = ''prepared'' \<and> x = h\<lparr>ho_status := ''published'', ho_published := ho_published x\<rparr>)"

definition records_le :: "db \<Rightarrow> db \<Rightarrow> bool" where
  "records_le d d' = (extends handoff_moves (db_handoffs d) (db_handoffs d') \<and> extends (=) (db_receipts d) (db_receipts d')
     \<and> extends (=) (db_reported d) (db_reported d') \<and> extends (=) (db_audit d) (db_audit d'))"

lemma handoff_moves_trans: "handoff_moves a b \<Longrightarrow> handoff_moves b c \<Longrightarrow> handoff_moves a c"
  by (cases a; cases b; cases c; auto simp: handoff_moves_def)

lemma records_le_refl: "records_le d d"
  by (simp add: records_le_def extends_refl handoff_moves_def)

lemma records_le_trans: "records_le a b \<Longrightarrow> records_le b c \<Longrightarrow> records_le a c"
  unfolding records_le_def by (auto elim!: extends_trans [rotated] dest: handoff_moves_trans)

lemma find_handoff_iff: "find_handoff h d \<noteq> None \<longleftrightarrow> h \<in> ho_id ` set (db_handoffs d)"
  by (auto simp: find_handoff_def sel1_None)

lemma find_handoff_mem: "find_handoff h d = Some x \<Longrightarrow> x \<in> set (db_handoffs d) \<and> ho_id x = h"
  by (auto simp: find_handoff_def dest: sel1_Some)

lemma records_ok_iff: "records_ok d \<longleftrightarrow> distinct (map ho_id (db_handoffs d)) \<and> distinct (map ho_key (db_handoffs d))
     \<and> distinct (map rc_id (db_receipts d)) \<and> distinct (map reported_key (db_reported d)) \<and> audit_ok d
     \<and> (\<forall>r \<in> set (db_receipts d). rc_handoff r \<in> ho_id ` set (db_handoffs d))
     \<and> (\<forall>r \<in> set (db_reported d). rep_handoff r \<in> ho_id ` set (db_handoffs d))"
  by (simp add: records_ok_def list_all_iff find_handoff_iff del: not_None_eq)

lemma publish_handoff_ok:
  assumes ok: "records_ok d" and p: "\<And>y. p y \<Longrightarrow> ho_status y = ''prepared''"
  shows "records_ok (d\<lparr>db_handoffs := upd p (published_as h) (db_handoffs d)\<rparr>)"
    and "records_le d (d\<lparr>db_handoffs := upd p (published_as h) (db_handoffs d)\<rparr>)"
proof -
  have keys: "map ho_id (upd p (published_as h) t) = map ho_id t" "map ho_key (upd p (published_as h) t) = map ho_key t" for t
    by (rule upd_map_key, simp add: published_as_def)+
  have "ho_id ` set (upd p (published_as h) t) = ho_id ` set t" for t
    using arg_cong [OF keys(1) [of t], of set] by simp
  with ok keys show "records_ok (d\<lparr>db_handoffs := upd p (published_as h) (db_handoffs d)\<rparr>)"
    by (simp add: records_ok_iff audit_ok_def)
  have "extends handoff_moves (db_handoffs d) (upd p (published_as h) (db_handoffs d))"
    by (rule extends_upd) (simp_all add: handoff_moves_def published_as_def p)
  then show "records_le d (d\<lparr>db_handoffs := upd p (published_as h) (db_handoffs d)\<rparr>)"
    by (simp add: records_le_def extends_refl)
qed

lemma insert_handoff_ok:
  assumes ok: "records_ok d" and s: "insert_handoff h d = Inr d'"
  shows "records_ok d' \<and> records_le d d'"
proof -
  from s have d': "d' = d\<lparr>db_handoffs := db_handoffs d @ [h]\<rparr>" and new: "ho_id h \<notin> ho_id ` set (db_handoffs d)"
      "ho_key h \<notin> ho_key ` set (db_handoffs d)"
    by (auto simp: insert_handoff_def some_row_iff split: if_splits)
  have "extends handoff_moves (db_handoffs d) (db_handoffs d @ [h])" by (rule extends_append) (simp add: handoff_moves_def)
  with ok new show ?thesis
    by (simp add: d' records_ok_iff records_le_def audit_ok_def extends_refl)
qed

lemma guarded_result:
  "(if a then Inl e1 else if b then Inr (v, x) else if c then Inl e2 else Inr (v, y)) = Inr (u, z) \<Longrightarrow> z = x \<or> z = y"
  by (simp split: if_splits)

lemma save_handoff_ok:
  assumes ok: "records_ok d" and s: "save_handoff e h d = Inr (u, d')"
  shows "records_ok d' \<and> records_le d d'"
proof (cases "sel1 (\<lambda>x. ho_id x = ho_id h \<or> ho_key x = ho_key h) (db_handoffs d)")
  case None
  with s have "insert_handoff (h\<lparr>ho_created := now e\<rparr>) d = Inr d'"
    by (simp add: save_handoff_def and_then_Inr)
  with ok show ?thesis by (rule insert_handoff_ok)
next
  case (Some x)
  let ?p = "\<lambda>y. ho_id y = ho_id h \<and> ho_status y = ''prepared''"
  have "d' = d\<lparr>db_handoffs := upd ?p (published_as h) (db_handoffs d)\<rparr> \<or> d' = d"
    using s unfolding save_handoff_def Some option.case by (rule guarded_result)
  then show ?thesis
    using publish_handoff_ok [OF ok, of ?p h] ok records_le_refl by auto
qed

lemma save_receipt_ok:
  assumes ok: "records_ok d" and s: "save_receipt e r raw digest d = Inr (u, d')"
  shows "records_ok d' \<and> records_le d d'"
proof -
  let ?r = "r\<lparr>rc_error := stored_error (rc_error r), rc_raw := raw, rc_sha := digest, rc_imported := now e\<rparr>"
  have "d' = d \<or> d' = d\<lparr>db_receipts := db_receipts d @ [?r]\<rparr> \<and> rc_id r \<notin> rc_id ` set (db_receipts d)
      \<and> rc_handoff r \<in> ho_id ` set (db_handoffs d)"
  proof (cases "find_receipt (rc_id r) d")
    case None
    moreover from None have "rc_id r \<notin> rc_id ` set (db_receipts d)" by (auto simp: find_receipt_def sel1_None)
    ultimately show ?thesis using s find_handoff_iff [of "rc_handoff r" d]
      by (simp add: save_receipt_def insert_receipt_def and_then_Inr if_Inl_eq_Inr del: not_None_eq)
  next
    case (Some x)
    with s show ?thesis by (auto simp: save_receipt_def split: if_splits)
  qed
  then show ?thesis
  proof
    assume "d' = d"
    with ok records_le_refl show ?thesis by simp
  next
    assume "d' = d\<lparr>db_receipts := db_receipts d @ [?r]\<rparr> \<and> rc_id r \<notin> rc_id ` set (db_receipts d)
      \<and> rc_handoff r \<in> ho_id ` set (db_handoffs d)"
    with ok show ?thesis
      by (simp add: records_ok_iff records_le_def audit_ok_def handoff_moves_def extends_append extends_refl)
  qed
qed

lemma save_reported_ok:
  assumes ok: "records_ok d" and s: "save_reported_item r d = Inr (u, d')"
  shows "records_ok d' \<and> records_le d d'"
proof -
  have "d' = d \<or> d' = d\<lparr>db_reported := db_reported d @ [r]\<rparr> \<and> reported_key r \<notin> reported_key ` set (db_reported d)
      \<and> rep_handoff r \<in> ho_id ` set (db_handoffs d)"
    using s find_handoff_iff [of "rep_handoff r" d]
    by (auto simp: save_reported_item_def insert_reported_def and_then_Inr some_row_iff simp del: not_None_eq split: if_splits)
  then show ?thesis
  proof
    assume "d' = d"
    with ok records_le_refl show ?thesis by simp
  next
    assume "d' = d\<lparr>db_reported := db_reported d @ [r]\<rparr> \<and> reported_key r \<notin> reported_key ` set (db_reported d)
      \<and> rep_handoff r \<in> ho_id ` set (db_handoffs d)"
    with ok show ?thesis
      by (simp add: records_ok_iff records_le_def audit_ok_def handoff_moves_def extends_append extends_refl)
  qed
qed

lemma save_audit_ok:
  assumes ok: "records_ok d" and s: "save_audit_event e v d = Inr (u, d')"
  shows "records_ok d' \<and> records_le d d'"
proof -
  from s have d': "d' = audit e (ev_entity v) (ev_key v) (ev_type v) (ev_details v) (ev_actor v) (ev_at v) d"
    by (simp add: save_audit_event_def)
  have "\<exists>x. db_audit d' = db_audit d @ [x]" by (simp add: d' audit_def Let_def)
  then have "extends (=) (db_audit d) (db_audit d')" by (auto simp: extends_eq)
  with ok audit_ok_audit show ?thesis
    by (simp add: d' records_ok_iff records_le_def extends_refl handoff_moves_def)
qed

lemma record_step_ok: "records_ok d \<Longrightarrow> record_step x d = Inr (u, d') \<Longrightarrow> records_ok d' \<and> records_le d d'"
  by (cases "(x, d)" rule: record_step.cases)
    (auto dest: save_handoff_ok save_receipt_ok save_reported_ok save_audit_ok)

interpretation records: monotone_ops record_step records_ok records_le
  by unfold_locales (auto dest: record_step_ok intro: records_le_refl records_le_trans)

text \<open>Every history of saving handoffs, receipts, reported items and audit events keeps the keys
  of the four tables unique and the parents of receipts and reported items present, only appends to
  the receipts, the reported items and the audit log, and changes nothing of a stored handoff but
  its publication, which happens only to a prepared one.\<close>

theorem delivery_records_history:
  assumes "records_ok d"
  shows "records_ok (exec record_step ops d) \<and> records_le d (exec record_step ops d)"
  using assms records.exec_inv records.exec_le by blast

definition sample_handoff :: handoff_row where
  "sample_handoff = \<lparr>ho_id = ''h1'', ho_key = ''k1'', ho_run = ''r1'', ho_task = ''t1'', ho_version = ''v1'', ho_revision = 1,
     ho_type = ''research_report'', ho_group = ''g'', ho_mode = ''handoff'', ho_status = ''prepared'', ho_request = JDict [],
     ho_request_sha = ''q'', ho_published = None, ho_receipt = None, ho_acknowledged = None, ho_external = None,
     ho_receipt_sha = None, ho_trust = None, ho_reason = None, ho_created = 120\<rparr>"

theorem delivery_records_history_witness:
  "records_ok (exec record_step [(sample_env, OpHandoff sample_handoff),
     (sample_env, OpHandoff (sample_handoff\<lparr>ho_status := ''published''\<rparr>))] sample_db)"
proof -
  have "records_ok sample_db" by code_simp
  from delivery_records_history [OF this] show ?thesis by blast
qed

end
