(* ===== verification/Dedupe.thy ===== *)
theory Dedupe imports Delivery_Repo begin

text \<open>
  Opt-in exact deduplication, \<open>engine/dedupe.py\<close>: the entity key and the content
  fingerprint of a record, the operator's alias groups, and the partition of the records of a
  run into those to report and those already reported. Field names are strings, as the task
  schema demands; the digest is the parameter \<open>sha\<close>.
\<close>

section \<open>Keys and fingerprints\<close>

definition present :: "dict \<Rightarrow> string \<Rightarrow> bool" where
  "present record k = (case map_of record k of None \<Rightarrow> False | Some v \<Rightarrow> v \<noteq> JNull)"

text \<open>\<open>str(val).strip() == ""\<close>: of the JSON values only a string can be blank.\<close>

definition blank :: "json \<Rightarrow> bool" where
  "blank v = (case v of JStr s \<Rightarrow> strip s = [] | _ \<Rightarrow> False)"

definition derive_entity_key :: "dict \<Rightarrow> string list \<Rightarrow> string option" where
  "derive_entity_key record names =
    (if list_ex (\<lambda>k. dget record k = JNull \<or> blank (dget record k)) names \<or> names = [] then None
     else Some (jtext False '','' '':'' (canon (JList (map (dget record) names)))))"

definition content_map :: "dict \<Rightarrow> string list \<Rightarrow> dict" where
  "content_map record names = map (\<lambda>k. (k, dget record k)) (remdups (sort names))"

definition derive_content_fingerprint :: "(string \<Rightarrow> string) \<Rightarrow> dict \<Rightarrow> string list \<Rightarrow> string option" where
  "derive_content_fingerprint sha record names =
    (if names = [] \<or> list_ex (\<lambda>k. \<not> present record k) names then None
     else Some (sha (jtext False '', '' '': '' (canon (JDict (content_map record names))))))"

section \<open>Aliases\<close>

definition names_of :: "json \<Rightarrow> string list res" where
  "names_of v = and_then (iter_json v) (\<lambda>xs. if list_all is_str xs then Inr (map (\<lambda>x. default [] (as_str x)) xs)
     else Inl (TypeError ''field name''))"

definition identity_ok :: "string list \<Rightarrow> json \<Rightarrow> bool" where
  "identity_ok keys v = (case v of JDict i \<Rightarrow> set (map fst i) = set keys
       \<and> list_all (\<lambda>(k, x). case x of JStr s \<Rightarrow> strip s \<noteq> [] \<and> length s \<le> 256 | _ \<Rightarrow> False) i
     | _ \<Rightarrow> False)"

fun check_identities :: "string list \<Rightarrow> json list \<Rightarrow> string list \<Rightarrow> string list res" where
  "check_identities keys [] seen = Inr seen"
| "check_identities keys (i # is) seen = (if \<not> identity_ok keys i then Inl (ValidationError ''alias identity'')
     else case derive_entity_key (default [] (as_dict i)) keys of
       None \<Rightarrow> Inl (ValidationError ''alias identity'')
     | Some key \<Rightarrow> if key \<in> set seen then Inl (ValidationError ''alias overlap'') else check_identities keys is (key # seen))"

definition check_group :: "string list \<Rightarrow> json \<Rightarrow> string list \<Rightarrow> string list res" where
  "check_group keys g seen = (case g of
     JDict d \<Rightarrow> if \<not> same_keys d [''identities'', ''evidence''] then Inl (ValidationError ''alias group'')
       else if (case dget d ''evidence'' of JStr s \<Rightarrow> strip s = [] \<or> 2048 < length s | _ \<Rightarrow> True)
       then Inl (ValidationError ''alias evidence'')
       else (case dget d ''identities'' of
           JList is \<Rightarrow> if length is < 2 \<or> 8 < length is \<or> keys = [] then Inl (ValidationError ''alias identities'')
             else check_identities keys is seen
         | _ \<Rightarrow> Inl (ValidationError ''alias identities''))
   | _ \<Rightarrow> Inl (ValidationError ''alias group''))"

definition alias_groups :: "dict \<Rightarrow> json" where
  "alias_groups config = get_or config ''entity_aliases'' (JList [])"

definition validate_entity_aliases :: "dict \<Rightarrow> string list \<Rightarrow> unit res" where
  "validate_entity_aliases config keys = (case alias_groups config of
     JList gs \<Rightarrow> if 128 < length gs then Inl (ValidationError ''alias groups'')
       else and_then (fold_res (check_group keys) gs []) (\<lambda>_. Inr ())
   | _ \<Rightarrow> Inl (ValidationError ''alias groups''))"

definition group_identities :: "json \<Rightarrow> dict list" where
  "group_identities g = map (\<lambda>i. default [] (as_dict i)) (default [] (as_list (dget (default [] (as_dict g)) ''identities'')))"

text \<open>The records under the declared identities of the first group that has the record's key.\<close>

definition equivalent_records :: "dict \<Rightarrow> string list \<Rightarrow> json list \<Rightarrow> dict list" where
  "equivalent_records record keys groups = (case find (\<lambda>g. list_ex (\<lambda>i. derive_entity_key i keys
       = derive_entity_key record keys) (group_identities g)) groups of
     None \<Rightarrow> [record] | Some g \<Rightarrow> map (dmerge record) (group_identities g))"

section \<open>The partition\<close>

datatype dedupe_warning = MissingKey json | IncompleteFields json | MissingConfiguration

definition reported_before :: "(string \<Rightarrow> string) \<Rightarrow> string \<Rightarrow> string list \<Rightarrow> string list \<Rightarrow> db \<Rightarrow> dict \<Rightarrow> bool" where
  "reported_before sha task keys names d record = (case (derive_entity_key record keys, derive_content_fingerprint sha record names) of
     (Some k, Some f) \<Rightarrow> is_reported_item_unchanged task k f d | _ \<Rightarrow> False)"

definition key_json :: "string option \<Rightarrow> json" where
  "key_json m = (case m of None \<Rightarrow> JNull | Some s \<Rightarrow> JStr s)"

definition mark_excluded :: "string list \<Rightarrow> string \<Rightarrow> string \<Rightarrow> dict \<Rightarrow> dict \<Rightarrow> dict" where
  "mark_excluded keys key fingerprint record matched =
    (let r = dput ''_dedupe_status'' (JStr ''already_reported_exact'')
           (dput ''_content_fingerprint'' (JStr fingerprint) (dput ''_entity_key'' (JStr key) record))
     in if derive_entity_key matched keys \<noteq> Some key
        then dput ''_dedupe_match_basis'' (JStr ''configured_identity_alias'')
          (dput ''_matched_entity_key'' (key_json (derive_entity_key matched keys)) r)
        else r)"

datatype outcome = Report "dedupe_warning option" | Exclude dict

definition classify :: "(string \<Rightarrow> string) \<Rightarrow> string \<Rightarrow> string list \<Rightarrow> string list \<Rightarrow> json list \<Rightarrow> db \<Rightarrow> dict \<Rightarrow> outcome" where
  "classify sha task keys names groups d record = (case derive_entity_key record keys of
     None \<Rightarrow> Report (Some (MissingKey (dget record ''record_id'')))
   | Some key \<Rightarrow> (case derive_content_fingerprint sha record names of
       None \<Rightarrow> Report (Some (IncompleteFields (dget record ''record_id'')))
     | Some fingerprint \<Rightarrow> (case find (reported_before sha task keys names d) (equivalent_records record keys groups) of
         None \<Rightarrow> Report None
       | Some matched \<Rightarrow> Exclude (mark_excluded keys key fingerprint record matched))))"

fun partition_records :: "(dict \<Rightarrow> outcome) \<Rightarrow> dict list \<Rightarrow> dict list \<times> dict list \<times> dedupe_warning list" where
  "partition_records f [] = ([], [], [])"
| "partition_records f (r # rs) = (case partition_records f rs of (rep, exc, ws) \<Rightarrow>
     (case f r of Report w \<Rightarrow> (r # rep, exc, (case w of None \<Rightarrow> ws | Some x \<Rightarrow> x # ws)) | Exclude x \<Rightarrow> (rep, x # exc, ws)))"

definition process_records ::
    "(string \<Rightarrow> string) \<Rightarrow> string \<Rightarrow> dict \<Rightarrow> dict list \<Rightarrow> db \<Rightarrow> (dict list \<times> dict list \<times> dedupe_warning list) res" where
  "process_records sha task state records d =
     and_then (dict_or_empty state ''dedupe'') (\<lambda>conf.
     if \<not> truthy (get_or conf ''enabled'' (JBool False)) then Inr (records, [], [])
     else let ks = get_or conf ''key_fields'' (JList []); fs = get_or conf ''content_fields'' (JList []) in
       if \<not> truthy ks \<or> \<not> truthy fs then Inr (records, [], [MissingConfiguration])
       else and_then (names_of ks) (\<lambda>keys. and_then (names_of fs) (\<lambda>names.
         and_then (validate_entity_aliases conf keys) (\<lambda>_.
           Inr (partition_records (classify sha task keys names (default [] (as_list (alias_groups conf))) d) records)))))"

section \<open>What is excluded was reported\<close>

text \<open>Only declared key names of a record change under an alias.\<close>

lemma map_of_dmerge_other: "x \<notin> fst ` set b \<Longrightarrow> map_of (dmerge a b) x = map_of a x"
proof (induction b arbitrary: a)
  case (Cons p b)
  obtain k v where p: "p = (k, v)" by (cases p)
  with Cons.prems have "x \<noteq> k" "x \<notin> fst ` set b" by auto
  with p Cons.IH [of "dput k v a"] show ?case by (simp add: dmerge_def map_of_dput)
qed (simp add: dmerge_def)

section \<open>Alias groups are equivalence classes\<close>

definition key_of :: "string list \<Rightarrow> dict \<Rightarrow> string option" where
  "key_of keys i = derive_entity_key i keys"

definition group_keys :: "string list \<Rightarrow> json \<Rightarrow> string option set" where
  "group_keys keys g = key_of keys ` set (group_identities g)"

lemma check_identities_keys:
  assumes "check_identities keys is seen = Inr seen'"
  shows "Some ` set seen' = Some ` set seen \<union> key_of keys ` set (map (\<lambda>i. default [] (as_dict i)) is)
    \<and> Some ` set seen \<inter> key_of keys ` set (map (\<lambda>i. default [] (as_dict i)) is) = {}"
  using assms
proof (induction keys "is" seen rule: check_identities.induct)
  case (2 keys i "is" seen)
  from "2.prems" obtain key where key: "identity_ok keys i" "derive_entity_key (default [] (as_dict i)) keys = Some key"
    "key \<notin> set seen" "check_identities keys is (key # seen) = Inr seen'"
    by (auto split: if_splits option.splits)
  from "2.IH" [OF _ key(2,3,4)] key show ?case by (auto simp: key_of_def)
qed simp

lemma identity_ok_keys: "identity_ok keys v \<Longrightarrow> set (map fst (default [] (as_dict v))) = set keys"
  by (cases v) (auto simp: identity_ok_def)

lemma check_group_keys:
  assumes "check_group keys g seen = Inr seen'"
  shows "Some ` set seen' = Some ` set seen \<union> group_keys keys g \<and> Some ` set seen \<inter> group_keys keys g = {}
    \<and> (\<forall>i \<in> set (group_identities g). set (map fst i) = set keys)"
proof -
  from assms obtain d "is" where g: "g = JDict d" "dget d ''identities'' = JList is"
      "check_identities keys is seen = Inr seen'"
    by (auto simp: check_group_def split: json.splits if_splits)
  have "check_identities keys xs s = Inr t \<Longrightarrow> list_all (identity_ok keys) xs" for xs s t
    by (induction keys xs s rule: check_identities.induct) (auto split: if_splits option.splits)
  from this [OF g(3)] have "\<forall>i \<in> set (group_identities g). set (map fst i) = set keys"
    using identity_ok_keys by (simp add: group_identities_def g(1,2) list_all_iff)
  with check_identities_keys [OF g(3)] show ?thesis by (simp add: group_keys_def group_identities_def g(1,2))
qed

lemma groups_disjoint:
  assumes "fold_res (check_group keys) gs seen = Inr seen'"
  shows "(\<forall>g \<in> set gs. Some ` set seen \<inter> group_keys keys g = {} \<and> (\<forall>i \<in> set (group_identities g). set (map fst i) = set keys))
    \<and> (\<forall>g \<in> set gs. \<forall>h \<in> set gs. group_keys keys g \<inter> group_keys keys h \<noteq> {} \<longrightarrow> g = h)"
  using assms
proof (induction gs arbitrary: seen)
  case (Cons g gs)
  from Cons.prems obtain mid where mid: "check_group keys g seen = Inr mid" "fold_res (check_group keys) gs mid = Inr seen'"
    by (auto simp: and_then_Inr)
  from check_group_keys [OF mid(1)] Cons.IH [OF mid(2)] show ?case by (simp add: Int_Un_distrib2) blast
qed simp

lemma key_of_dmerge:
  assumes "set (map fst i) = set keys" "distinct (map fst i)"
  shows "key_of keys (dmerge r i) = key_of keys i"
proof -
  have "map_of (dmerge a b) k = (case map_of b k of None \<Rightarrow> map_of a k | Some v \<Rightarrow> Some v)"
    if "distinct (map fst b)" for a b k
    using that
  proof (induction b arbitrary: a)
    case (Cons p b)
    obtain x v where p: "p = (x, v)" by (cases p)
    with Cons.prems have "x \<notin> fst ` set b" by simp
    then have "map_of b x = None" by (simp add: map_of_eq_None_iff)
    with p Cons show ?case by (auto simp: dmerge_def map_of_dput split: option.splits)
  qed (simp add: dmerge_def)
  from this [OF assms(2)] assms(1) have get: "dget (dmerge r i) k = dget i k" if "k \<in> set keys" for k
    using that by (auto simp: dget_def split: option.splits dest: map_of_eq_None_iff [THEN iffD1])
  then have "map (dget (dmerge r i)) keys = map (dget i) keys"
    "list_ex (\<lambda>k. dget (dmerge r i) k = JNull \<or> blank (dget (dmerge r i) k)) keys
      = list_ex (\<lambda>k. dget i k = JNull \<or> blank (dget i k)) keys"
    by (auto simp: list_ex_iff)
  then show ?thesis by (simp only: key_of_def derive_entity_key_def)
qed

text \<open>The keys of the records that count as equivalent.\<close>

definition equivalent_keys :: "string list \<Rightarrow> json list \<Rightarrow> dict \<Rightarrow> string option set" where
  "equivalent_keys keys groups r = key_of keys ` set (equivalent_records r keys groups)"

definition distinct_keys :: "json list \<Rightarrow> bool" where
  "distinct_keys groups = list_all (\<lambda>g. list_all (\<lambda>i. distinct (map fst i)) (group_identities g)) groups"

lemma equivalent_keys_group:
  assumes "fold_res (check_group keys) groups seen = Inr seen'" "distinct_keys groups" "g \<in> set groups"
    and "key_of keys r \<in> group_keys keys g"
  shows "equivalent_records r keys groups = map (dmerge r) (group_identities g)"
    and "equivalent_keys keys groups r = group_keys keys g"
proof -
  let ?P = "\<lambda>g. list_ex (\<lambda>i. derive_entity_key i keys = derive_entity_key r keys) (group_identities g)"
  have P: "?P h \<longleftrightarrow> key_of keys r \<in> group_keys keys h" for h
    by (auto simp: list_ex_iff group_keys_def key_of_def image_iff) metis+
  from assms(3,4) P have "find ?P groups \<noteq> None" by (auto simp: find_none)
  then obtain h where h: "find ?P groups = Some h" by blast
  from find_mem [OF h] P have "h \<in> set groups" "key_of keys r \<in> group_keys keys h" by auto
  with groups_disjoint [OF assms(1)] assms(3,4) have "h = g" by blast
  with h show e: "equivalent_records r keys groups = map (dmerge r) (group_identities g)"
    by (simp add: equivalent_records_def)
  have "key_of keys (dmerge r i) = key_of keys i" if "i \<in> set (group_identities g)" for i
    using that assms(2,3) groups_disjoint [OF assms(1)] by (intro key_of_dmerge) (auto simp: distinct_keys_def list_all_iff)
  then have "(\<lambda>i. key_of keys (dmerge r i)) ` set (group_identities g) = group_keys keys g"
    unfolding group_keys_def by (rule image_cong [OF refl])
  then show "equivalent_keys keys groups r = group_keys keys g"
    by (simp add: equivalent_keys_def e image_image)
qed

text \<open>C14: alias groups that pass validation are equivalence classes: whichever of the declared
  identities a record carries, the same set of entity keys is looked up, so whether a record counts
  as already reported does not depend on the identity it was reported under.\<close>

theorem aliases_are_equivalences:
  assumes "validate_entity_aliases config keys = Inr ()" "alias_groups config = JList groups" "distinct_keys groups"
    and "m \<in> set (equivalent_records r keys groups)"
  shows "equivalent_keys keys groups m = equivalent_keys keys groups r"
proof (cases "\<exists>g \<in> set groups. key_of keys r \<in> group_keys keys g")
  case True
  then obtain g where g: "g \<in> set groups" "key_of keys r \<in> group_keys keys g" by blast
  from assms(1,2) obtain seen where seen: "fold_res (check_group keys) groups [] = Inr seen"
    by (auto simp: validate_entity_aliases_def and_then_Inr split: if_splits)
  note r = equivalent_keys_group [OF seen assms(3) g]
  from assms(4) r(2) have "key_of keys m \<in> group_keys keys g" by (auto simp: equivalent_keys_def)
  from equivalent_keys_group(2) [OF seen assms(3) g(1) this] r(2) show ?thesis by simp
next
  case False
  then have "find (\<lambda>g. list_ex (\<lambda>i. derive_entity_key i keys = derive_entity_key r keys) (group_identities g)) groups = None"
    by (auto simp: find_none list_ex_iff group_keys_def key_of_def image_iff) metis
  then have "equivalent_records r keys groups = [r]" by (simp add: equivalent_records_def)
  with assms(4) show ?thesis by simp
qed

definition sample_alias :: dict where
  "sample_alias = [(''enabled'', JBool True), (''key_fields'', JList [JStr ''id'']), (''content_fields'', JList [JStr ''v'']),
     (''entity_aliases'', JList [JDict [(''identities'', JList [JDict [(''id'', JStr ''a'')], JDict [(''id'', JStr ''b'')]]),
        (''evidence'', JStr ''same'')]])]"

theorem aliases_are_equivalences_witness:
  "equivalent_keys [''id''] (default [] (as_list (alias_groups sample_alias))) [(''id'', JStr ''b''), (''v'', JInt 1)]
    = equivalent_keys [''id''] (default [] (as_list (alias_groups sample_alias))) [(''id'', JStr ''a''), (''v'', JInt 1)]"
proof -
  obtain gs where gs: "alias_groups sample_alias = JList gs" "default [] (as_list (alias_groups sample_alias)) = gs"
    by (simp add: sample_alias_def alias_groups_def get_or_def)
  have "validate_entity_aliases sample_alias [''id''] = Inr ()" "distinct_keys (default [] (as_list (alias_groups sample_alias)))"
    "[(''id'', JStr ''b''), (''v'', JInt 1)] \<in> set (equivalent_records [(''id'', JStr ''a''), (''v'', JInt 1)] [''id'']
       (default [] (as_list (alias_groups sample_alias))))" by code_simp+
  from aliases_are_equivalences [OF this(1) gs(1) this(2) [unfolded gs(2)] this(3) [unfolded gs(2)]] show ?thesis
    unfolding gs(2) .
qed

text \<open>A record is already reported under a configuration when it has an entity key and a fingerprint, and both
  of one and the same equivalent record are those of an item that an accepted mail reported.\<close>

definition already_reported :: "(string \<Rightarrow> string) \<Rightarrow> string \<Rightarrow> string list \<Rightarrow> string list \<Rightarrow> json list \<Rightarrow> db \<Rightarrow> dict \<Rightarrow> bool" where
  "already_reported sha task keys names groups d r = (derive_entity_key r keys \<noteq> None \<and> derive_content_fingerprint sha r names \<noteq> None
     \<and> (\<exists>m \<in> set (equivalent_records r keys groups). \<exists>i \<in> set (db_reported d). \<exists>h \<in> set (db_handoffs d).
          rep_task i = task \<and> derive_entity_key m keys = Some (rep_entity i) \<and> derive_content_fingerprint sha m names = Some (rep_fingerprint i)
          \<and> ho_id h = rep_handoff i \<and> ho_status h = ''smtp_accepted'' \<and> ho_trust h = Some ''verified_local_smtp''))"

lemma reported_before_iff:
  "reported_before sha task keys names d m \<longleftrightarrow> (\<exists>i \<in> set (db_reported d). \<exists>h \<in> set (db_handoffs d).
     rep_task i = task \<and> derive_entity_key m keys = Some (rep_entity i) \<and> derive_content_fingerprint sha m names = Some (rep_fingerprint i)
     \<and> ho_id h = rep_handoff i \<and> ho_status h = ''smtp_accepted'' \<and> ho_trust h = Some ''verified_local_smtp'')"
  by (auto simp: reported_before_def is_reported_item_unchanged_def some_row_iff split: option.splits)

text \<open>An excluded record keeps every field but the marks of the deduplication.\<close>

definition marked :: "dict \<Rightarrow> dict \<Rightarrow> bool" where
  "marked r x = (dget x ''_dedupe_status'' = JStr ''already_reported_exact''
     \<and> (\<forall>k. k \<notin> {''_dedupe_status'', ''_content_fingerprint'', ''_entity_key'', ''_dedupe_match_basis'', ''_matched_entity_key''} \<longrightarrow> map_of x k = map_of r k))"

lemma mark_excluded_marked: "marked r (mark_excluded keys key f r m)"
  by (simp add: marked_def mark_excluded_def Let_def)

lemma classify_spec:
  "case classify sha task keys names groups d r of
     Exclude x \<Rightarrow> already_reported sha task keys names groups d r \<and> marked r x
   | Report w \<Rightarrow> \<not> already_reported sha task keys names groups d r"
proof (cases "derive_entity_key r keys")
  case None
  then show ?thesis by (simp add: classify_def already_reported_def)
next
  case (Some key)
  show ?thesis
  proof (cases "derive_content_fingerprint sha r names")
    case None
    with Some show ?thesis by (simp add: classify_def already_reported_def)
  next
    case (Some f)
    let ?m = "find (reported_before sha task keys names d) (equivalent_records r keys groups)"
    have iff: "already_reported sha task keys names groups d r \<longleftrightarrow> (\<exists>m \<in> set (equivalent_records r keys groups). reported_before sha task keys names d m)"
      unfolding already_reported_def reported_before_iff using Some \<open>derive_entity_key r keys = Some key\<close> by simp
    show ?thesis
    proof (cases ?m)
      case None
      then have "\<not> already_reported sha task keys names groups d r" unfolding iff by (simp add: find_none)
      with None Some \<open>derive_entity_key r keys = Some key\<close> show ?thesis by (simp add: classify_def)
    next
      case (Some m)
      from find_mem [OF Some] have "already_reported sha task keys names groups d r" unfolding iff by blast
      with Some \<open>derive_content_fingerprint sha r names = Some f\<close> \<open>derive_entity_key r keys = Some key\<close> mark_excluded_marked
      show ?thesis by (simp add: classify_def)
    qed
  qed
qed

lemma partition_exact:
  assumes "partition_records (classify sha task keys names groups d) rs = (rep, exc, ws)"
  shows "rep = filter (\<lambda>r. \<not> already_reported sha task keys names groups d r) rs
    \<and> list_all2 marked (filter (already_reported sha task keys names groups d) rs) exc"
  using assms
proof (induction rs arbitrary: rep exc ws)
  case (Cons r rs)
  obtain rep' exc' ws' where p: "partition_records (classify sha task keys names groups d) rs = (rep', exc', ws')" by (metis prod_cases3)
  from Cons.IH [OF p] Cons.prems p classify_spec [of sha task keys names groups d r] show ?case by (auto split: outcome.splits)
qed simp

text \<open>C15: deduplication is exact. When it is off or lacks its fields every record is passed on; otherwise,
  with the key fields, content fields and alias groups of the configuration, exactly the records that
  were already reported for the task by a verified accepted mail are excluded, each in order and with
  all its fields, and all others are passed on unchanged and in order.\<close>

theorem dedupe_excludes_only_reported:
  assumes "process_records sha task state records d = Inr (rep, exc, ws)"
  shows "\<exists>conf. dict_or_empty state ''dedupe'' = Inr conf \<and>
    (if \<not> truthy (get_or conf ''enabled'' (JBool False)) \<or> \<not> truthy (get_or conf ''key_fields'' (JList []))
        \<or> \<not> truthy (get_or conf ''content_fields'' (JList []))
     then rep = records \<and> exc = []
     else (\<exists>keys names groups. names_of (get_or conf ''key_fields'' (JList [])) = Inr keys
       \<and> names_of (get_or conf ''content_fields'' (JList [])) = Inr names \<and> alias_groups conf = JList groups
       \<and> rep = filter (\<lambda>r. \<not> already_reported sha task keys names groups d r) records
       \<and> list_all2 marked (filter (already_reported sha task keys names groups d) records) exc))"
proof -
  from assms obtain conf where conf: "dict_or_empty state ''dedupe'' = Inr conf" by (auto simp: process_records_def and_then_Inr)
  show ?thesis
  proof (cases "\<not> truthy (get_or conf ''enabled'' (JBool False)) \<or> \<not> truthy (get_or conf ''key_fields'' (JList []))
        \<or> \<not> truthy (get_or conf ''content_fields'' (JList []))")
    case True
    with assms conf show ?thesis by (auto simp: process_records_def Let_def split: if_splits)
  next
    case False
    with assms conf obtain keys names where n: "names_of (get_or conf ''key_fields'' (JList [])) = Inr keys"
        "names_of (get_or conf ''content_fields'' (JList [])) = Inr names" "validate_entity_aliases conf keys = Inr ()"
        "partition_records (classify sha task keys names (default [] (as_list (alias_groups conf))) d) records = (rep, exc, ws)"
      by (auto simp: process_records_def and_then_Inr Let_def)
    from n(3) obtain groups where g: "alias_groups conf = JList groups" by (auto simp: validate_entity_aliases_def split: json.splits)
    from partition_exact [OF n(4)] n(1,2) g conf False show ?thesis by simp
  qed
qed

definition reported_db :: db where
  "reported_db = sample_db\<lparr>db_handoffs := [sample_handoff\<lparr>ho_status := ''smtp_accepted'', ho_trust := Some ''verified_local_smtp''\<rparr>],
     db_reported := [\<lparr>rep_task = ''t1'', rep_entity = default [] (derive_entity_key [(''id'', JStr ''a'')] [''id'']),
       rep_fingerprint = ''f'', rep_run = ''r1'', rep_handoff = ''h1'', rep_at = 130\<rparr>]\<rparr>"

text \<open>The second record is an alias of the reported one; the third is not.\<close>

definition found_records :: "dict list" where
  "found_records = [[(''id'', JStr ''d''), (''v'', JInt 1)], [(''id'', JStr ''b''), (''v'', JInt 1)], [(''id'', JStr ''c''), (''v'', JInt 1)]]"

theorem dedupe_excludes_only_reported_witness:
  "\<exists>rep x ws. process_records (\<lambda>s. ''f'') ''t1'' [(''dedupe'', JDict sample_alias)] found_records reported_db = Inr (rep, [x], ws)
     \<and> rep = [found_records ! 0, found_records ! 2] \<and> marked (found_records ! 1) x"
proof -
  let ?m = "process_records (\<lambda>s. ''f'') ''t1'' [(''dedupe'', JDict sample_alias)] found_records reported_db"
  have "(case ?m of Inl x \<Rightarrow> False | Inr (rep, exc, ws) \<Rightarrow> True)" by code_simp
  then obtain rep exc ws where m: "?m = Inr (rep, exc, ws)" by (auto split: sum.splits)
  have conf: "dict_or_empty [(''dedupe'', JDict sample_alias)] ''dedupe'' = Inr sample_alias"
    "truthy (get_or sample_alias ''enabled'' (JBool False))" "truthy (get_or sample_alias ''key_fields'' (JList []))"
    "truthy (get_or sample_alias ''content_fields'' (JList []))" "names_of (get_or sample_alias ''key_fields'' (JList [])) = Inr [''id'']"
    "names_of (get_or sample_alias ''content_fields'' (JList [])) = Inr [''v'']" by code_simp+
  have "as_list (alias_groups sample_alias) \<noteq> None" by code_simp
  then obtain groups where g: "alias_groups sample_alias = JList groups" "groups = default [] (as_list (alias_groups sample_alias))"
    by (cases "alias_groups sample_alias") simp_all
  have f: "filter (already_reported (\<lambda>s. ''f'') ''t1'' [''id''] [''v''] groups reported_db) found_records = [found_records ! 1]"
    "filter (\<lambda>r. \<not> already_reported (\<lambda>s. ''f'') ''t1'' [''id''] [''v''] groups reported_db r) found_records = [found_records ! 0, found_records ! 2]"
    unfolding g(2) by code_simp+
  from dedupe_excludes_only_reported [OF m] conf g(1) f
  have "rep = [found_records ! 0, found_records ! 2] \<and> list_all2 marked [found_records ! 1] exc" by simp
  with m show ?thesis by (auto simp: list_all2_Cons1)
qed

end
