(* ===== verification/Smtp_Queue.thy ===== *)
theory Smtp_Queue imports Dedupe begin

text \<open>
  The durable mail queue, \<open>delivery/queue.py\<close>, with its timing events,
  \<open>delivery/timeline.py\<close>. Every method is one transaction on the store; fresh job
  identifiers and claim tokens are arguments, the process identifier of the dispatcher is one
  and whether a process is gone is the parameter \<open>gone\<close>. JSON columns hold values and the
  bytes of a message are a string. The upgrade of an old table is not modelled; its constraints
  are \<open>attempt_allowed\<close> and \<open>sending_allowed\<close>.
\<close>

section \<open>Timing events\<close>

text \<open>
  The double that \<open>total_seconds()\<close> and a product round to: a positive rational rounded to
  53 significant bits, ties to even, as numerator and denominator.
\<close>

fun bit_length :: "nat \<Rightarrow> nat" where
  "bit_length n = (if n = 0 then 0 else Suc (bit_length (n div 2)))"

declare bit_length.simps [simp del]

definition round_div :: "int \<Rightarrow> int \<Rightarrow> int" where
  "round_div n d = (let q = n div d; r = n mod d in if 2 * r < d \<or> (2 * r = d \<and> even q) then q else q + 1)"

definition to_double :: "int \<times> int \<Rightarrow> int \<times> int" where
  "to_double p = (case p of (n, d) \<Rightarrow> if n = 0 then (0, 1) else
     let k = int (bit_length (nat n)) - int (bit_length (nat d));
         t = (if (if 0 \<le> k then d * 2 ^ nat k \<le> n else d \<le> n * 2 ^ nat (- k)) then k else k - 1);
         s = t - 52
     in if 0 \<le> s then (round_div n (d * 2 ^ nat s) * 2 ^ nat s, 1) else (round_div (n * 2 ^ nat (- s)) d, 2 ^ nat (- s)))"

definition duration_ms :: "int \<Rightarrow> int" where
  "duration_ms us = (case to_double (us, 1000000) of (n, d) \<Rightarrow> case to_double (n * 1000, d) of (m, c) \<Rightarrow> round_div m c)"

text \<open>The handoff of an attempt that belongs to a run's mail, with its run.\<close>

definition find_job :: "string \<Rightarrow> db \<Rightarrow> smtp_row option" where
  "find_job job d = sel1 (\<lambda>a. sm_job a = job) (db_smtp d)"

definition business_step :: "string \<Rightarrow> db \<Rightarrow> (smtp_row \<times> run_row) option" where
  "business_step job d = (case find_job job d of None \<Rightarrow> None | Some a \<Rightarrow>
     (case (case sm_handoff a of None \<Rightarrow> None | Some h \<Rightarrow> find_handoff h d) of None \<Rightarrow> None | Some h \<Rightarrow>
       if ho_type h = ''system_alert'' then None
       else (case find_run (ho_run h) d of None \<Rightarrow> None | Some r \<Rightarrow> Some (a, r))))"

definition smtp_step_id :: "(string \<Rightarrow> string) \<Rightarrow> string \<Rightarrow> string" where
  "smtp_step_id sha job = ''smtp-'' @ take 32 (sha job)"

definition step_started_at :: "string \<Rightarrow> string \<Rightarrow> db \<Rightarrow> json" where
  "step_started_at run step d = (case find (\<lambda>v. dget (ev_details v) ''step_id'' = JStr step)
       (rev (sort_key ev_id (sel (\<lambda>v. ev_entity v = ''run'' \<and> ev_key v = run \<and> ev_type v = ''run_step_started'') (db_audit d)))) of
     None \<Rightarrow> JNull | Some v \<Rightarrow> dget (ev_details v) ''started_at'')"

definition observed_duration :: "int \<Rightarrow> json \<Rightarrow> json" where
  "observed_duration t started = (case started of
     JStr s \<Rightarrow> (case fromiso s of Some (Aware u off) \<Rightarrow> if u \<le> t then JInt (duration_ms (t - u)) else JNull | _ \<Rightarrow> JNull)
   | _ \<Rightarrow> JNull)"

definition delivery_times :: "string \<Rightarrow> string \<Rightarrow> json \<Rightarrow> string \<Rightarrow> int \<Rightarrow> db \<Rightarrow> dict" where
  "delivery_times typ run state step t d =
    (if typ = ''run_step_started'' then [(''state'', JStr ''running''), (''started_at'', JStr (isoformat t)),
       (''finished_at'', JNull), (''duration_ms'', JNull)]
     else if typ = ''run_step_finished'' then (let started = step_started_at run step d in
       [(''state'', state), (''started_at'', started), (''finished_at'', JStr (isoformat t)),
        (''duration_ms'', observed_duration t started)])
     else [])"

definition record_delivery_event :: "env \<Rightarrow> (string \<Rightarrow> string) \<Rightarrow> string \<Rightarrow> string \<Rightarrow> json \<Rightarrow> db \<Rightarrow> db" where
  "record_delivery_event e sha job typ state d = (case business_step job d of None \<Rightarrow> d | Some (a, r) \<Rightarrow>
     let step = smtp_step_id sha job in
     audit e ''run'' (run_id r) typ
       ([(''schema_version'', JInt 1), (''step_id'', JStr step), (''phase'', JStr ''smtp''), (''label'', JStr ''smtp''),
         (''attempt'', JInt (run_attempt r)), (''summary'', JDict [(''mime_bytes'', JInt (int (length (sm_mime a))))])]
        @ delivery_times typ (run_id r) state step (now e) d)
       ''smtp-dispatcher'' (isoformat (now e)) d)"

section \<open>Constraints of the table\<close>

definition pending :: "smtp_row \<Rightarrow> bool" where
  "pending a = (sm_status a \<in> {SQueued, SSending})"

definition attempt_allowed :: "smtp_row \<Rightarrow> smtp_row list \<Rightarrow> bool" where
  "attempt_allowed r t = list_all (\<lambda>a. sm_job a \<noteq> sm_job r
     \<and> (sm_request r \<noteq> None \<longrightarrow> sm_request a \<noteq> sm_request r)
     \<and> (sm_handoff r \<noteq> None \<longrightarrow> sm_handoff a = sm_handoff r \<longrightarrow>
          sm_attempt a \<noteq> sm_attempt r \<and> \<not> (pending a \<and> pending r))) t"

definition sending_allowed :: "string \<Rightarrow> smtp_row list \<Rightarrow> bool" where
  "sending_allowed job t = list_all (\<lambda>a. sm_status a = SSending \<longrightarrow> sm_job a = job) t"

definition insert_attempt :: "smtp_row \<Rightarrow> db \<Rightarrow> db res" where
  "insert_attempt r d = (if \<not> attempt_allowed r (db_smtp d) then Inl (IntegrityError ''smtp_attempts'')
     else if (case sm_handoff r of None \<Rightarrow> False | Some h \<Rightarrow> find_handoff h d = None) then Inl (IntegrityError ''foreign key'')
     else Inr (d\<lparr>db_smtp := db_smtp d @ [r]\<rparr>))"

section \<open>Enqueueing and reading\<close>

definition first_attempt :: "env \<Rightarrow> (string \<Rightarrow> string) \<Rightarrow> string \<Rightarrow> string option \<Rightarrow> string \<Rightarrow> string \<Rightarrow> dict \<Rightarrow> string \<Rightarrow> smtp_row" where
  "first_attempt e sha job handoff message mime envelope config =
     \<lparr>sm_job = job, sm_handoff = handoff, sm_status = SQueued, sm_phase = Prepared, sm_token = None, sm_pid = None,
      sm_message = message, sm_mime = mime, sm_mime_sha = sha mime, sm_envelope = envelope, sm_config = config,
      sm_created = now e, sm_updated = now e, sm_error = None, sm_reply = None, sm_parent = None, sm_attempt = 1,
      sm_request = None, sm_request_json = None, sm_next = None, sm_code = None, sm_retryable = False,
      sm_diagnostics = None, sm_expires = None\<rparr>"

text \<open>A row just inserted matches the request by construction.\<close>

definition enqueue :: "env \<Rightarrow> (string \<Rightarrow> string) \<Rightarrow> string \<Rightarrow> string option \<Rightarrow> string \<Rightarrow> string \<Rightarrow> dict \<Rightarrow> string \<Rightarrow> db \<Rightarrow> (unit \<times> db) res" where
  "enqueue e sha job handoff message mime envelope config d = (case find_job job d of
     Some a \<Rightarrow> if sm_message a \<noteq> message \<or> sm_mime a \<noteq> mime \<or> sm_config a \<noteq> config
         \<or> \<not> pyeq (JDict (sm_envelope a)) (JDict envelope)
       then Inl (DeliveryError ''immutable queue entry'') else Inr ((), d)
   | None \<Rightarrow> and_then (insert_attempt (first_attempt e sha job handoff message mime envelope config) d) (\<lambda>d1.
       Inr ((), record_delivery_event e sha job ''run_delivery_queued'' JNull d1)))"

definition latest :: "string \<Rightarrow> db \<Rightarrow> smtp_row option" where
  "latest h d = greatest_by sm_attempt (sel (\<lambda>a. sm_handoff a = Some h) (db_smtp d))"

definition history :: "string \<Rightarrow> db \<Rightarrow> smtp_row list" where
  "history h d = sort_key sm_attempt (sel (\<lambda>a. sm_handoff a = Some h) (db_smtp d))"

definition pending_jobs :: "int \<Rightarrow> db \<Rightarrow> smtp_row list" where
  "pending_jobs t d = sort_key (\<lambda>a. (sm_created a, sm_job a)) (sel (\<lambda>a. sm_status a = SQueued
     \<and> (case sm_next a of None \<Rightarrow> True | Some n \<Rightarrow> n \<le> t)) (db_smtp d))"

definition completed :: "int option \<Rightarrow> string option \<Rightarrow> int option \<Rightarrow> db \<Rightarrow> smtp_row list" where
  "completed cursor job limit d =
    (let rows = sort_key (\<lambda>a. (sm_updated a, sm_job a)) (sel (\<lambda>a. \<not> pending a \<and> (case cursor of None \<Rightarrow> True
          | Some u \<Rightarrow> (case job of None \<Rightarrow> u < sm_updated a | Some j \<Rightarrow> u < sm_updated a \<or> sm_updated a = u \<and> j < sm_job a))) (db_smtp d))
     in case limit of None \<Rightarrow> rows | Some n \<Rightarrow> if n < 0 then rows else take (nat n) rows)"

text \<open>The attempt an earlier request under the same key led to.\<close>

definition requested :: "string \<Rightarrow> dict \<Rightarrow> db \<Rightarrow> smtp_row option res" where
  "requested key request d = (case sel1 (\<lambda>q. rq_key q = key) (db_smtp_requests d) of
     Some q \<Rightarrow> if rq_json q \<noteq> dumps_sorted (JDict request) then Inl (DeliveryError ''retry request key reused'')
       else (case find_job (rq_job q) d of None \<Rightarrow> Inl (TypeError ''row'') | Some a \<Rightarrow> Inr (Some a))
   | None \<Rightarrow> (case sel1 (\<lambda>a. sm_request a = Some key) (db_smtp d) of
       None \<Rightarrow> Inr None
     | Some a \<Rightarrow> if sm_request_json a \<noteq> Some (dumps_sorted (JDict request))
         then Inl (DeliveryError ''retry request key reused'') else Inr (Some a)))"

section \<open>Retries\<close>

definition retry_attempt :: "env \<Rightarrow> smtp_row \<Rightarrow> string \<Rightarrow> int \<Rightarrow> string \<Rightarrow> dict \<Rightarrow> string \<Rightarrow> int option \<Rightarrow> smtp_row" where
  "retry_attempt e row job due key request config expires =
     \<lparr>sm_job = job, sm_handoff = sm_handoff row, sm_status = SQueued, sm_phase = Prepared, sm_token = None, sm_pid = None,
      sm_message = sm_message row, sm_mime = sm_mime row, sm_mime_sha = sm_mime_sha row, sm_envelope = sm_envelope row,
      sm_config = config, sm_created = now e, sm_updated = now e, sm_error = None, sm_reply = None,
      sm_parent = Some (sm_job row), sm_attempt = sm_attempt row + 1, sm_request = Some key,
      sm_request_json = Some (dumps_sorted (JDict request)), sm_next = Some due, sm_code = None, sm_retryable = False,
      sm_diagnostics = None, sm_expires = expires\<rparr>"

definition requeue_handoff :: "handoff_row \<Rightarrow> handoff_row" where
  "requeue_handoff h = h\<lparr>ho_status := ''queued'', ho_receipt := None, ho_acknowledged := None, ho_external := None,
     ho_receipt_sha := None, ho_trust := None, ho_reason := Some ''Email retry queued''\<rparr>"

definition reopen_run :: "run_row \<Rightarrow> run_row" where
  "reopen_run r = r\<lparr>run_status := AwaitingReceipt, run_phase := PhFinalize, run_finished := None, run_error := None\<rparr>"

definition same_mail :: "smtp_row \<Rightarrow> smtp_row \<Rightarrow> bool" where
  "same_mail row a = (sm_handoff a = sm_handoff row)"

definition retry_handoff :: "smtp_row \<Rightarrow> db \<Rightarrow> handoff_row option" where
  "retry_handoff row d = (case sm_handoff row of None \<Rightarrow> None | Some h \<Rightarrow> find_handoff h d)"

definition insert_retry ::
    "env \<Rightarrow> (string \<Rightarrow> string) \<Rightarrow> string \<Rightarrow> smtp_row \<Rightarrow> int \<Rightarrow> string \<Rightarrow> dict \<Rightarrow> string \<Rightarrow> int option \<Rightarrow> db \<Rightarrow> (smtp_row \<times> db) res" where
  "insert_retry e sha job row due key request config expires d =
     (case retry_handoff row d of None \<Rightarrow> Inl (DeliveryError ''research handoff'') | Some h \<Rightarrow>
      if ho_type h = ''system_alert'' then Inl (DeliveryError ''research handoff'')
      else and_then (require_retry_family_clear (ho_run h) True False d) (\<lambda>_.
      if (case ctl_of d (ho_run h) of None \<Rightarrow> True | Some k \<Rightarrow> ctl_cancel k \<or> ctl_dry k)
      then Inl (DeliveryError ''cancelled or dry-run email'')
      else if some_row (\<lambda>a. same_mail row a \<and> sm_status a \<in> {SQueued, SSending, SAccepted}) (db_smtp d)
      then Inl (DeliveryError ''pending or accepted'')
      else and_then (insert_attempt (retry_attempt e row job due key request config expires) d) (\<lambda>d1.
        let d2 = d1\<lparr>db_handoffs := upd (\<lambda>x. ho_id x = ho_id h) requeue_handoff (db_handoffs d1)\<rparr>;
            p = (\<lambda>r. run_id r = ho_run h \<and> run_status r \<in> {Failed, NeedsAttention})
        in if \<not> some_row p (db_runs d2) then Inl (DeliveryError ''run state changed'')
           else let d3 = d2\<lparr>db_runs := upd p reopen_run (db_runs d2)\<rparr>;
             d4 = audit e ''handoff'' (ho_id h) ''email_retry_queued''
               (dmerge [(''job_id'', JStr job), (''parent_job_id'', JStr (sm_job row)),
                  (''attempt_number'', JInt (sm_attempt row + 1)), (''next_attempt_at'', JStr (isoformat due))] request)
               ''smtp-queue'' (isoformat (now e)) d3;
             d5 = record_delivery_event e sha job ''run_delivery_queued'' JNull d4
           in (case find_job job d5 of None \<Rightarrow> Inl (TypeError ''row'') | Some a \<Rightarrow> Inr (a, d5)))))"

definition store_request :: "env \<Rightarrow> string \<Rightarrow> dict \<Rightarrow> string \<Rightarrow> db \<Rightarrow> db res" where
  "store_request e key request job d = and_then (ins ''smtp_retry_requests'' rq_key
     \<lparr>rq_key = key, rq_job = job, rq_json = dumps_sorted (JDict request), rq_created = now e\<rparr> (db_smtp_requests d))
     (\<lambda>t. Inr (d\<lparr>db_smtp_requests := t\<rparr>))"

text \<open>A delayed automatic retry is made due at once.\<close>

definition expedite :: "env \<Rightarrow> smtp_row \<Rightarrow> string \<Rightarrow> dict \<Rightarrow> db \<Rightarrow> (smtp_row \<times> db) res" where
  "expedite e row h request d =
     (if default [] (sm_parent row) = [] \<or> (case sm_next row of None \<Rightarrow> True | Some n \<Rightarrow> n \<le> now e)
      then Inl (DeliveryError ''queued for immediate dispatch'')
      else let d1 = d\<lparr>db_smtp := upd (\<lambda>a. sm_job a = sm_job row) (\<lambda>a. a\<lparr>sm_next := Some (now e), sm_updated := now e\<rparr>) (db_smtp d)\<rparr>;
             d2 = audit e ''handoff'' h ''email_retry_expedited'' (dmerge [(''job_id'', JStr (sm_job row))] request)
               default_actor (isoformat (now e)) d1
        in (case find_job (sm_job row) d2 of None \<Rightarrow> Inl (TypeError ''row'') | Some a \<Rightarrow> Inr (a, d2)))"

definition retry ::
    "env \<Rightarrow> (string \<Rightarrow> string) \<Rightarrow> string \<Rightarrow> string \<Rightarrow> string \<Rightarrow> dict \<Rightarrow> string \<Rightarrow> bool \<Rightarrow> db \<Rightarrow> (smtp_row \<times> db) res" where
  "retry e sha fresh job key request config allow d = and_then (requested key request d) (\<lambda>prior. case prior of
     Some a \<Rightarrow> Inr (a, d)
   | None \<Rightarrow> (case find_job job d of None \<Rightarrow> Inl (DeliveryError ''completed failed email'') | Some row \<Rightarrow>
       let h = default [] (sm_handoff row) in
       if h = [] \<or> sm_status row \<notin> {SFailed, SUncertain, SQueued} then Inl (DeliveryError ''completed failed email'')
       else if some_row (\<lambda>a. sm_handoff a = Some h \<and> sm_status a = SUncertain) (db_smtp d) \<and> \<not> allow
       then Inl (DeliveryError ''acknowledgement required'')
       else if map_option sm_job (latest h d) \<noteq> Some job then Inl (DeliveryError ''newer attempt'')
       else and_then (if sm_status row = SQueued then expedite e row h request d
           else insert_retry e sha fresh row (now e) key request config None d) (\<lambda>(result, d1).
         and_then (store_request e key request (sm_job result) d1) (\<lambda>d2. Inr (result, d2)))))"

section \<open>Dispatch\<close>

definition claimed_by :: "string \<Rightarrow> int \<Rightarrow> int \<Rightarrow> smtp_row \<Rightarrow> smtp_row" where
  "claimed_by token pid t a = a\<lparr>sm_status := SSending, sm_token := Some token, sm_pid := Some pid, sm_updated := t\<rparr>"

definition claimable :: "string \<Rightarrow> bool \<Rightarrow> int \<Rightarrow> smtp_row \<Rightarrow> bool" where
  "claimable job future t a = (sm_job a = job \<and> sm_status a = SQueued
     \<and> (future \<or> (case sm_next a of None \<Rightarrow> True | Some n \<Rightarrow> n \<le> t)))"

text \<open>The unique index over sending rows makes a second claim fail; it is reported as no claim.\<close>

definition claim :: "env \<Rightarrow> (string \<Rightarrow> string) \<Rightarrow> string \<Rightarrow> int \<Rightarrow> string \<Rightarrow> bool \<Rightarrow> db \<Rightarrow> string option \<times> db" where
  "claim e sha token pid job future d =
     (if \<not> some_row (claimable job future (now e)) (db_smtp d) then (None, d)
      else if \<not> sending_allowed job (db_smtp d) then (None, d)
      else (Some token, record_delivery_event e sha job ''run_step_started'' JNull
        (d\<lparr>db_smtp := upd (claimable job future (now e)) (claimed_by token pid (now e)) (db_smtp d)\<rparr>)))"

definition owned :: "string \<Rightarrow> string \<Rightarrow> smtp_row \<Rightarrow> bool" where
  "owned job token a = (sm_job a = job \<and> sm_status a = SSending \<and> sm_token a = Some token)"

definition permission_denied :: "bool \<Rightarrow> smtp_row \<Rightarrow> handoff_row \<Rightarrow> task_row \<Rightarrow> run_row \<Rightarrow> control_row \<Rightarrow> bool" where
  "permission_denied production a h t r k = (task_mode t \<noteq> MHandoff \<or> ctl_dry k \<or> run_trigger r = ''candidate_dry_run''
     \<or> \<not> production \<and> (\<not> task_approved t \<or> task_approved_version t \<noteq> Some (ho_version h)
          \<or> task_approved_revision t \<noteq> Some (sm_config a))
     \<or> ho_type h \<noteq> ''system_alert'' \<and> (ctl_cancel k \<or> run_status r \<noteq> AwaitingReceipt))"

definition permission_rows :: "string \<Rightarrow> db \<Rightarrow> (handoff_row \<times> task_row \<times> run_row \<times> control_row) option" where
  "permission_rows h d = (case find_handoff h d of None \<Rightarrow> None | Some x \<Rightarrow>
     (case (find_task (ho_task x) d, run_controls d (ho_run x)) of
        (Some t, Some (r, k)) \<Rightarrow> Some (x, t, r, k) | _ \<Rightarrow> None))"

definition data_permission :: "(string \<Rightarrow> string) \<Rightarrow> smtp_row \<Rightarrow> bool \<Rightarrow> db \<Rightarrow> unit res" where
  "data_permission sha a production d = (case sm_handoff a of None \<Rightarrow> Inr () | Some i \<Rightarrow> if i = [] then Inr () else
     (case permission_rows i d of None \<Rightarrow> Inl (DeliveryError ''permission revoked'') | Some (h, t, r, k) \<Rightarrow>
        if permission_denied production a h t r k then Inl (DeliveryError ''permission revoked'')
        else assert_delivery_version sha d (ho_task h) (ho_version h) (Some (ho_run h)) production (ho_type h = ''system_alert'')))"

definition start_data :: "env \<Rightarrow> (string \<Rightarrow> string) \<Rightarrow> string \<Rightarrow> string \<Rightarrow> bool \<Rightarrow> db \<Rightarrow> (unit \<times> db) res" where
  "start_data e sha job token production d =
     and_then (case find_job job d of None \<Rightarrow> Inr () | Some a \<Rightarrow>
         if (case sm_expires a of None \<Rightarrow> False | Some x \<Rightarrow> x \<le> now e) then Inl (DeliveryError ''retry expired'')
         else data_permission sha a production d) (\<lambda>_.
       let p = (\<lambda>a. owned job token a \<and> sm_phase a = Prepared) in
       if \<not> some_row p (db_smtp d) then Inl (DeliveryError ''ownership lost'')
       else Inr ((), record_delivery_event e sha job ''run_delivery_data_started'' JNull
         (d\<lparr>db_smtp := upd p (\<lambda>a. a\<lparr>sm_phase := DataStarted, sm_updated := now e\<rparr>) (db_smtp d)\<rparr>)))"

definition record_stage :: "env \<Rightarrow> string \<Rightarrow> string \<Rightarrow> json \<Rightarrow> db \<Rightarrow> (unit \<times> db) res" where
  "record_stage e job token diagnostics d = (if \<not> some_row (owned job token) (db_smtp d) then Inl (DeliveryError ''ownership lost'')
     else Inr ((), d\<lparr>db_smtp := upd (owned job token) (\<lambda>a. a\<lparr>sm_diagnostics := Some diagnostics, sm_updated := now e\<rparr>) (db_smtp d)\<rparr>))"

section \<open>Cancellation\<close>

definition run_mail :: "string \<Rightarrow> db \<Rightarrow> smtp_row \<Rightarrow> bool" where
  "run_mail run d a = (case sm_handoff a of None \<Rightarrow> False
     | Some i \<Rightarrow> some_row (\<lambda>h. ho_id h = i \<and> ho_run h = run \<and> ho_type h \<noteq> ''system_alert'') (db_handoffs d))"

definition receipt_of_job :: "string \<Rightarrow> db \<Rightarrow> receipt_row option" where
  "receipt_of_job job d = sel1 (\<lambda>r. rc_id r = ''smtp-'' @ job) (db_receipts d)"

text \<open>The receipt of the last attempt, of those satisfying a condition, that has one.\<close>

definition last_receipt :: "(smtp_row \<Rightarrow> bool) \<Rightarrow> db \<Rightarrow> receipt_row option" where
  "last_receipt p d = (case greatest_by sm_attempt (sel (\<lambda>a. p a \<and> receipt_of_job (sm_job a) d \<noteq> None) (db_smtp d)) of
     None \<Rightarrow> None | Some a \<Rightarrow> receipt_of_job (sm_job a) d)"

definition fail_cancelled :: "int \<Rightarrow> smtp_row \<Rightarrow> smtp_row" where
  "fail_cancelled t a = a\<lparr>sm_status := SFailed, sm_phase := Finished, sm_error := Some ''Cancelled before SMTP submission'', sm_updated := t\<rparr>"

definition cancelled_handoff :: "handoff_row \<Rightarrow> handoff_row" where
  "cancelled_handoff h = h\<lparr>ho_status := ''failed'', ho_reason := Some ''Cancelled before SMTP submission''\<rparr>"

definition uncertain_handoff :: "receipt_row \<Rightarrow> string \<Rightarrow> handoff_row \<Rightarrow> handoff_row" where
  "uncertain_handoff r reason h = h\<lparr>ho_status := ''uncertain'', ho_external := Some ''uncertain'', ho_receipt := Some (rc_id r),
     ho_receipt_sha := Some (rc_sha r), ho_acknowledged := Some (rc_occurred r), ho_reason := Some reason\<rparr>"

definition cancel_pending_for_run :: "env \<Rightarrow> (string \<Rightarrow> string) \<Rightarrow> string \<Rightarrow> db \<Rightarrow> bool \<times> db" where
  "cancel_pending_for_run e sha run d =
     (let waiting = (\<lambda>r. run_id r = run \<and> run_status r = AwaitingReceipt);
          reason = ''Retry cancelled; earlier SMTP delivery remains uncertain'' in
      if some_row (\<lambda>a. run_mail run d a \<and> sm_status a = SSending) (db_smtp d) then (False, d)
      else if \<not> some_row waiting (db_runs d) \<or> \<not> some_row (\<lambda>k. ctl_run k = run \<and> ctl_cancel k) (db_controls d) then (False, d)
      else
        let d1 = d\<lparr>db_runs := upd waiting (\<lambda>r. r\<lparr>run_status := Cancelled, run_phase := PhFinalize, run_finished := Some (now e),
                   run_error := Some ''Cancelled before SMTP submission''\<rparr>) (db_runs d)\<rparr>;
            queued = (\<lambda>a. run_mail run d a \<and> sm_status a = SQueued);
            jobs = map sm_job (sel queued (db_smtp d));
            d2 = d1\<lparr>db_smtp := upd queued (fail_cancelled (now e)) (db_smtp d1)\<rparr>;
            d3 = d2\<lparr>db_handoffs := upd (\<lambda>h. ho_run h = run \<and> ho_type h \<noteq> ''system_alert''
                   \<and> ho_status h \<in> {''prepared'', ''published'', ''queued''}) cancelled_handoff (db_handoffs d2)\<rparr>;
            d4 = (case last_receipt (\<lambda>a. run_mail run d3 a \<and> sm_status a = SUncertain
                     \<and> \<not> some_row (\<lambda>x. sm_handoff x = sm_handoff a \<and> sm_status x = SAccepted) (db_smtp d3)) d3 of
                None \<Rightarrow> d3
              | Some r \<Rightarrow> d3\<lparr>db_handoffs := upd (\<lambda>h. ho_id h = rc_handoff r)
                    (\<lambda>h. (uncertain_handoff r reason h)\<lparr>ho_trust := Some ''verified_local_smtp''\<rparr>) (db_handoffs d3),
                  db_runs := upd (\<lambda>x. run_id x = run) (\<lambda>x. x\<lparr>run_status := NeedsAttention, run_error := Some reason\<rparr>) (db_runs d3)\<rparr>)
        in (True, fold (\<lambda>job. record_delivery_event e sha job ''run_step_finished'' (JStr ''cancelled'')) jobs d4))"

section \<open>Completion\<close>

text \<open>The records of the message become dedupe evidence.\<close>

definition commit_record :: "env \<Rightarrow> (string \<Rightarrow> string) \<Rightarrow> string list \<Rightarrow> string list \<Rightarrow> handoff_row \<Rightarrow> json \<Rightarrow> db \<Rightarrow> db res" where
  "commit_record e sha keys names h record d = (case record of
     JDict r \<Rightarrow> if list_ex (\<lambda>k. \<not> present r k) (keys @ names) then Inr d
       else (case (derive_entity_key r keys, derive_content_fingerprint sha r names) of
           (Some k, Some f) \<Rightarrow> if k = [] \<or> f = [] then Inr d else
             insert_reported \<lparr>rep_task = ho_task h, rep_entity = k, rep_fingerprint = f, rep_run = ho_run h,
               rep_handoff = ho_id h, rep_at = now e\<rparr> d
         | _ \<Rightarrow> Inr d)
   | _ \<Rightarrow> Inl (TypeError ''record''))"

definition commit_reported :: "env \<Rightarrow> (string \<Rightarrow> string) \<Rightarrow> handoff_row \<Rightarrow> db \<Rightarrow> db res" where
  "commit_reported e sha h d =
     (case (sel1 (\<lambda>i. inp_run i = ho_run h \<and> inp_revision i = ho_revision h) (db_inputs d), find_version (ho_version h) d) of
        (Some i, Some v) \<Rightarrow> and_then (dict_default (ver_definition v) ''state'') (\<lambda>state. and_then (dict_default state ''dedupe'') (\<lambda>cfg.
          let ks = get_or cfg ''key_fields'' (JList []); fs = get_or cfg ''content_fields'' (JList []) in
          if \<not> truthy ks \<or> \<not> truthy fs then Inr d
          else and_then (names_of ks) (\<lambda>keys. and_then (names_of fs) (\<lambda>names.
            case inp_value i of
              JDict x \<Rightarrow> and_then (iter_json (get_or x ''reportable_records'' (JList []))) (\<lambda>rs.
                fold_res (commit_record e sha keys names h) rs d)
            | _ \<Rightarrow> Inl (AttributeError ''get'')))))
      | _ \<Rightarrow> Inr d)"

record smtp_result =
  rs_status :: smtp_state
  rs_error :: "string option"
  rs_reply :: "string option"
  rs_code :: "string option"
  rs_retryable :: bool
  rs_diagnostics :: "json option"

record retry_policy =
  rp_auto :: bool
  rp_max :: int
  rp_base :: int
  rp_expiry :: int

definition finished_by :: "smtp_result \<Rightarrow> int \<Rightarrow> smtp_row \<Rightarrow> smtp_row" where
  "finished_by res t a = a\<lparr>sm_status := rs_status res, sm_phase := Finished, sm_updated := t, sm_error := rs_error res,
     sm_reply := rs_reply res, sm_code := rs_code res, sm_retryable := rs_retryable res \<and> rs_status res = SFailed,
     sm_diagnostics := (case rs_diagnostics res of None \<Rightarrow> sm_diagnostics a | Some v \<Rightarrow> Some v)\<rparr>"

definition text_or :: "string option \<Rightarrow> string \<Rightarrow> string" where
  "text_or m s = (if default [] m = [] then s else default [] m)"

definition receipt_error :: "smtp_result \<Rightarrow> json option" where
  "receipt_error res = (if rs_status res = SAccepted then None else Some (JDict
     [(''code'', JStr (text_or (rs_code res) (''smtp_'' @ smtp_text (rs_status res)))),
      (''message'', JStr (text_or (rs_error res) (smtp_text (rs_status res)))),
      (''retryable'', JBool (rs_retryable res \<and> rs_status res = SFailed))]))"

definition receipt_dict :: "receipt_row \<Rightarrow> dict" where
  "receipt_dict r = [(''external_receipt_id'', JStr (rc_id r)), (''handoff_id'', JStr (rc_handoff r)),
     (''idempotency_key'', JStr (rc_key r)), (''delivery_request_sha256'', JStr (rc_request_sha r)),
     (''status'', JStr (rc_status r)), (''occurred_at'', JStr (isoformat (rc_occurred r))), (''proof'', rc_proof r),
     (''schema_version'', JInt 2)]
     @ (case rc_message r of None \<Rightarrow> [] | Some m \<Rightarrow> [(''external_message_ref'', JStr m)])
     @ (case rc_error r of None \<Rightarrow> [] | Some v \<Rightarrow> [(''error'', v)])"

definition smtp_receipt :: "env \<Rightarrow> (string \<Rightarrow> string) \<Rightarrow> smtp_result \<Rightarrow> smtp_row \<Rightarrow> handoff_row \<Rightarrow> receipt_row" where
  "smtp_receipt e sha res a h =
    (let r = \<lparr>rc_id = ''smtp-'' @ sm_job a, rc_handoff = ho_id h, rc_key = ho_key h, rc_request_sha = ho_request_sha h,
           rc_status = smtp_text (rs_status res), rc_occurred = now e, rc_message = Some (sm_message a),
           rc_error = receipt_error res, rc_proof = JDict [(''type'', JStr ''local_smtp_attempt''),
             (''issuer'', JStr ''researchops-smtp''), (''value'', JStr (sm_job a))], rc_raw = [], rc_sha = [], rc_imported = now e\<rparr>;
         raw = dumps_sorted (JDict (receipt_dict r))
     in r\<lparr>rc_raw := raw, rc_sha := sha raw\<rparr>)"

definition settled_handoff :: "smtp_result \<Rightarrow> receipt_row \<Rightarrow> handoff_row \<Rightarrow> handoff_row" where
  "settled_handoff res r h = h\<lparr>ho_status := rc_status r, ho_receipt := Some (rc_id r), ho_acknowledged := Some (rc_occurred r),
     ho_external := Some (rc_status r), ho_receipt_sha := Some (rc_sha r), ho_trust := Some ''verified_local_smtp'',
     ho_reason := (if rs_status res = SAccepted then Some ''SMTP server accepted all recipients and DATA'' else rs_error res)\<rparr>"

definition settled_status :: "smtp_state \<Rightarrow> run_state" where
  "settled_status s = (case s of SAccepted \<Rightarrow> Succeeded | SFailed \<Rightarrow> Failed | _ \<Rightarrow> NeedsAttention)"

definition prior_uncertain :: "smtp_row \<Rightarrow> db \<Rightarrow> receipt_row option" where
  "prior_uncertain a d = last_receipt (\<lambda>x. sm_handoff x = sm_handoff a \<and> sm_status x = SUncertain \<and> sm_job x \<noteq> sm_job a) d"

definition cancel_requested :: "string \<Rightarrow> db \<Rightarrow> bool option" where
  "cancel_requested run d = map_option ctl_cancel (ctl_of d run)"

definition run_outcome :: "smtp_result \<Rightarrow> smtp_row \<Rightarrow> receipt_row option \<Rightarrow> bool option \<Rightarrow> run_state" where
  "run_outcome res a uncertain cancel =
    (if rs_status res = SFailed \<and> uncertain \<noteq> None then NeedsAttention
     else if rs_status res = SFailed \<and> sm_phase a \<noteq> DataStarted \<and> cancel = Some True then Cancelled
     else settled_status (rs_status res))"

text \<open>What the mail of a run settles: the handoff under an older uncertain attempt, the run, the
  dedupe evidence and the timing event.\<close>

definition settle_run :: "env \<Rightarrow> (string \<Rightarrow> string) \<Rightarrow> smtp_result \<Rightarrow> smtp_row \<Rightarrow> handoff_row \<Rightarrow> db \<Rightarrow> db res" where
  "settle_run e sha res a h d =
    (let uncertain = prior_uncertain a d;
         outcome = run_outcome res a uncertain (cancel_requested (ho_run h) d);
         d1 = (case (if rs_status res = SFailed then uncertain else None) of None \<Rightarrow> d
           | Some r \<Rightarrow> d\<lparr>db_handoffs := upd (\<lambda>x. Some (ho_id x) = sm_handoff a)
               (uncertain_handoff r ''Previous SMTP attempt remains uncertain; latest retry failed'') (db_handoffs d)\<rparr>);
         d2 = d1\<lparr>db_runs := upd (\<lambda>r. run_id r = ho_run h \<and> run_status r \<in> {AwaitingReceipt, Running})
           (\<lambda>r. r\<lparr>run_status := outcome, run_phase := PhFinalize, run_finished := Some (now e), run_error := rs_error res\<rparr>) (db_runs d1)\<rparr>
     in and_then (if rs_status res = SAccepted then commit_reported e sha h d2 else Inr d2) (\<lambda>d3.
          Inr (record_delivery_event e sha (sm_job a) ''run_step_finished'' (JStr (run_text outcome)) d3)))"

definition first_created :: "smtp_row \<Rightarrow> db \<Rightarrow> int" where
  "first_created a d = (case least_by sm_attempt (sel (same_mail a) (db_smtp d)) of None \<Rightarrow> sm_created a | Some x \<Rightarrow> sm_created x)"

definition retry_due :: "retry_policy \<Rightarrow> env \<Rightarrow> smtp_row \<Rightarrow> int" where
  "retry_due p e a = now e + rp_base p * 2 ^ nat (sm_attempt a - 1) * 1000000"

definition retry_expiry :: "retry_policy \<Rightarrow> smtp_row \<Rightarrow> db \<Rightarrow> int" where
  "retry_expiry p a d = first_created a d + rp_expiry p * 1000000"

definition auto_retry_wanted :: "smtp_result \<Rightarrow> retry_policy \<Rightarrow> smtp_row \<Rightarrow> handoff_row \<Rightarrow> db \<Rightarrow> bool" where
  "auto_retry_wanted res p a h d = (rs_retryable res \<and> rs_status res = SFailed \<and> rp_auto p \<and> ho_type h \<noteq> ''system_alert''
     \<and> prior_uncertain a d = None \<and> sm_attempt a < rp_max p \<and> cancel_requested (ho_run h) d = Some False)"

text \<open>The savepoint: a delivery or constraint error of the retry leaves only an audit event.\<close>

definition schedule_retry :: "env \<Rightarrow> (string \<Rightarrow> string) \<Rightarrow> string \<Rightarrow> retry_policy \<Rightarrow> smtp_row \<Rightarrow> string \<Rightarrow> db \<Rightarrow> db res" where
  "schedule_retry e sha fresh p a h d =
    (let due = retry_due p e a; expiry = retry_expiry p a d in
     if \<not> representable due \<or> \<not> representable expiry then Inl (OverflowError ''date value'')
     else if expiry < due then Inr d
     else (case insert_retry e sha fresh a due (''auto-'' @ sm_job a)
           [(''handoff_id'', JStr h), (''mode'', JStr ''automatic''), (''allow_uncertain'', JBool False), (''reason'', JStr [])]
           (sm_config a) (Some expiry) d of
         Inr (x, d1) \<Rightarrow> Inr d1
       | Inl er \<Rightarrow> if is_delivery er \<or> is_integrity er then Inr (audit e ''handoff'' h ''email_auto_retry_blocked''
             [(''job_id'', JStr (sm_job a)), (''reason_code'', JStr ''retry_state_conflict'')] ''smtp-queue'' (isoformat (now e)) d)
           else Inl er))"

definition finish_guard :: "smtp_result \<Rightarrow> string option \<Rightarrow> smtp_row option \<Rightarrow> smtp_row res" where
  "finish_guard res token m = (if rs_status res \<in> {SQueued, SSending} then Inl (DeliveryError ''SMTP result'') else
     case m of None \<Rightarrow> Inl (DeliveryError ''ownership lost'') | Some a \<Rightarrow>
       if sm_status a \<noteq> SSending \<or> sm_token a \<noteq> token then Inl (DeliveryError ''ownership lost'')
       else if rs_status res = SAccepted \<and> sm_phase a \<noteq> DataStarted then Inl (DeliveryError ''acceptance without DATA'')
       else if rs_status res = SConnectionOk \<and> (default [] (sm_handoff a) \<noteq> [] \<or> \<not> truthy (dget (sm_envelope a) ''connection_test''))
       then Inl (DeliveryError ''connection evidence'') else Inr a)"

definition settle_job :: "env \<Rightarrow> string \<Rightarrow> string option \<Rightarrow> smtp_result \<Rightarrow> db \<Rightarrow> db" where
  "settle_job e job token res d = d\<lparr>db_smtp := upd (\<lambda>x. sm_job x = job \<and> sm_token x = token \<and> token \<noteq> None)
     (finished_by res (now e)) (db_smtp d)\<rparr>"

definition settle_mail :: "smtp_result \<Rightarrow> receipt_row \<Rightarrow> handoff_row \<Rightarrow> db \<Rightarrow> db" where
  "settle_mail res r h d = d\<lparr>db_handoffs := upd (\<lambda>x. ho_id x = ho_id h) (settled_handoff res r) (db_handoffs d)\<rparr>"

definition settle_audit :: "env \<Rightarrow> string \<Rightarrow> smtp_result \<Rightarrow> smtp_row \<Rightarrow> handoff_row \<Rightarrow> db \<Rightarrow> db" where
  "settle_audit e job res a h = audit e ''handoff'' (ho_id h) (''smtp_'' @ smtp_text (rs_status res))
     [(''job_id'', JStr job), (''message_id'', JStr (sm_message a))] ''smtp-dispatcher'' (isoformat (now e))"

definition after_settle :: "env \<Rightarrow> (string \<Rightarrow> string) \<Rightarrow> string \<Rightarrow> smtp_result \<Rightarrow> retry_policy option \<Rightarrow> smtp_row \<Rightarrow> handoff_row \<Rightarrow> db \<Rightarrow> db res" where
  "after_settle e sha fresh res policy a h d = (case policy of None \<Rightarrow> Inr d
     | Some p \<Rightarrow> if auto_retry_wanted res p a h d then schedule_retry e sha fresh p a (ho_id h) d else Inr d)"

definition finish ::
    "env \<Rightarrow> (string \<Rightarrow> string) \<Rightarrow> string \<Rightarrow> string \<Rightarrow> string option \<Rightarrow> smtp_result \<Rightarrow> retry_policy option \<Rightarrow> db \<Rightarrow> (receipt_row option \<times> db) res" where
  "finish e sha fresh job token res policy d =
     and_then (finish_guard res token (find_job job d)) (\<lambda>a.
       let d1 = settle_job e job token res d in
       if default [] (sm_handoff a) = [] then Inr (None, d1)
       else (case find_handoff (default [] (sm_handoff a)) d1 of None \<Rightarrow> Inl (TypeError ''row'') | Some h \<Rightarrow>
         let r = smtp_receipt e sha res a h in
         and_then (insert_receipt r d1) (\<lambda>d2. let d3 = settle_mail res r h d2 in
         and_then (if ho_type h \<noteq> ''system_alert'' then settle_run e sha res a h d3 else Inr d3) (\<lambda>d4.
         and_then (after_settle e sha fresh res policy a h (settle_audit e job res a h d4)) (\<lambda>d6. Inr (Some r, d6))))))"

text \<open>The jobs of dispatchers that are gone, each finished in a transaction of its own.\<close>

definition interrupted :: "smtp_row \<Rightarrow> smtp_result" where
  "interrupted a = \<lparr>rs_status = (if sm_phase a = DataStarted then SUncertain else SFailed),
     rs_error = Some ''Dispatcher exited before completion'', rs_reply = None, rs_code = None, rs_retryable = False,
     rs_diagnostics = None\<rparr>"

fun recover_rows :: "env \<Rightarrow> (string \<Rightarrow> string) \<Rightarrow> (int \<Rightarrow> bool) \<Rightarrow> smtp_row list \<Rightarrow> db \<Rightarrow> string list res \<times> db" where
  "recover_rows e sha gone [] d = (Inr [], d)"
| "recover_rows e sha gone (a # rows) d =
     (if \<not> (case sm_pid a of None \<Rightarrow> False | Some p \<Rightarrow> gone p) then recover_rows e sha gone rows d
      else (case finish e sha [] (sm_job a) (sm_token a) (interrupted a) None d of
          Inl er \<Rightarrow> (Inl er, d)
        | Inr (r, d1) \<Rightarrow> (case recover_rows e sha gone rows d1 of
            (Inl er, d2) \<Rightarrow> (Inl er, d2) | (Inr jobs, d2) \<Rightarrow> (Inr (sm_job a # jobs), d2))))"

definition recover_interrupted :: "env \<Rightarrow> (string \<Rightarrow> string) \<Rightarrow> (int \<Rightarrow> bool) \<Rightarrow> db \<Rightarrow> string list res \<times> db" where
  "recover_interrupted e sha gone d = recover_rows e sha gone (sel (\<lambda>a. sm_status a = SSending) (db_smtp d)) d"

end
