(* ===== verification/Queue_Safety.thy ===== *)
theory Queue_Safety imports Smtp_Queue begin

text \<open>
  The abstract specification of the mail queue and the proof that the code implements it. The
  abstract queue is a table of attempts with the step relation \<open>queue_step\<close>: what one
  transaction may do to the attempts, whatever it does to runs, handoffs and the audit log.
  Its invariant \<open>queue_ok\<close> and its order \<open>queue_le\<close> are proved by rule induction;
  every operation of \<open>Smtp_Queue\<close> is shown to take such steps.
\<close>

section \<open>The abstract queue\<close>

definition live :: "smtp_row \<Rightarrow> bool" where
  "live a = (sm_status a \<in> {SQueued, SSending, SAccepted})"

definition fresh_row :: "smtp_row \<Rightarrow> bool" where
  "fresh_row r = (sm_status r = SQueued \<and> sm_phase r = Prepared)"

definition resend_of :: "smtp_row \<Rightarrow> smtp_row \<Rightarrow> bool" where
  "resend_of a r = (sm_handoff a \<noteq> None \<and> sm_handoff r = sm_handoff a \<and> sm_attempt r = sm_attempt a + 1
     \<and> sm_parent r = Some (sm_job a) \<and> sm_message r = sm_message a \<and> sm_mime r = sm_mime a \<and> sm_mime_sha r = sm_mime_sha a
     \<and> sm_envelope r = sm_envelope a)"

inductive queue_step :: "smtp_row list \<Rightarrow> smtp_row list \<Rightarrow> bool" where
  Enqueue: "fresh_row r \<Longrightarrow> sm_attempt r = 1 \<Longrightarrow> attempt_allowed r t \<Longrightarrow> queue_step t (t @ [r])"
| Resend: "a \<in> set t \<Longrightarrow> fresh_row r \<Longrightarrow> resend_of a r \<Longrightarrow> \<forall>x \<in> set t. same_mail a x \<longrightarrow> \<not> live x \<Longrightarrow>
    attempt_allowed r t \<Longrightarrow> queue_step t (t @ [r])"
| Expedite: "(\<And>a. a \<in> set t \<Longrightarrow> p a \<Longrightarrow> sm_status a = SQueued) \<Longrightarrow>
    queue_step t (upd p (\<lambda>a. a\<lparr>sm_next := Some n, sm_updated := n\<rparr>) t)"
| Claim: "(\<And>a. p a \<Longrightarrow> sm_status a = SQueued \<and> sm_job a = job) \<Longrightarrow> sending_allowed job t \<Longrightarrow>
    queue_step t (upd p (claimed_by token pid n) t)"
| Data: "(\<And>a. p a \<Longrightarrow> sm_status a = SSending \<and> sm_phase a = Prepared) \<Longrightarrow>
    queue_step t (upd p (\<lambda>a. a\<lparr>sm_phase := DataStarted, sm_updated := n\<rparr>) t)"
| Stage: "(\<And>a. p a \<Longrightarrow> sm_status a = SSending) \<Longrightarrow>
    queue_step t (upd p (\<lambda>a. a\<lparr>sm_diagnostics := Some v, sm_updated := n\<rparr>) t)"
| Settle: "(\<And>a. a \<in> set t \<Longrightarrow> p a \<Longrightarrow> sm_status a = SSending \<and> (rs_status res = SAccepted \<longrightarrow> sm_phase a = DataStarted)) \<Longrightarrow>
    rs_status res \<notin> {SQueued, SSending} \<Longrightarrow> queue_step t (upd p (finished_by res n) t)"
| Cancel: "(\<And>a. p a \<Longrightarrow> sm_status a = SQueued) \<Longrightarrow> queue_step t (upd p (fail_cancelled n) t)"

inductive_cases queue_stepE: "queue_step t u"

text \<open>What always holds of the table: its keys and unique indexes, at most one attempt of a mail
  that is queued, being sent or accepted, and a phase that fits the status.\<close>

definition phase_fits :: "smtp_row \<Rightarrow> bool" where
  "phase_fits a = (case sm_status a of SQueued \<Rightarrow> sm_phase a = Prepared
     | SSending \<Rightarrow> sm_phase a \<noteq> Finished \<and> sm_token a \<noteq> None | _ \<Rightarrow> sm_phase a = Finished)"

definition compatible :: "smtp_row \<Rightarrow> smtp_row \<Rightarrow> bool" where
  "compatible a b = (sm_job a = sm_job b \<or>
     (sm_status a = SSending \<longrightarrow> sm_status b \<noteq> SSending) \<and>
     (sm_handoff a \<noteq> None \<longrightarrow> sm_handoff a = sm_handoff b \<longrightarrow> sm_attempt a \<noteq> sm_attempt b \<and> \<not> (live a \<and> live b)))"

definition queue_ok :: "smtp_row list \<Rightarrow> bool" where
  "queue_ok t = (distinct (map sm_job t) \<and> list_all phase_fits t
     \<and> (\<forall>a \<in> set t. \<forall>b \<in> set t. compatible a b)
     \<and> (\<forall>a \<in> set t. 1 \<le> sm_attempt a \<and> (sm_handoff a \<noteq> None \<longrightarrow> (\<exists>b \<in> set t. same_mail a b \<and> sm_attempt b = 1))))"

definition terminal_row :: "smtp_row \<Rightarrow> bool" where
  "terminal_row a = (sm_status a \<notin> {SQueued, SSending})"

definition stage_of :: "smtp_row \<Rightarrow> nat" where
  "stage_of a = (case sm_status a of SQueued \<Rightarrow> 0 | SSending \<Rightarrow> (if sm_phase a = DataStarted then 2 else 1) | _ \<Rightarrow> 3)"

definition same_attempt :: "smtp_row \<Rightarrow> smtp_row \<Rightarrow> bool" where
  "same_attempt a b = (sm_job b = sm_job a \<and> sm_handoff b = sm_handoff a \<and> sm_message b = sm_message a \<and> sm_mime b = sm_mime a
     \<and> sm_mime_sha b = sm_mime_sha a \<and> sm_envelope b = sm_envelope a \<and> sm_config b = sm_config a \<and> sm_created b = sm_created a
     \<and> sm_parent b = sm_parent a \<and> sm_attempt b = sm_attempt a \<and> sm_request b = sm_request a
     \<and> sm_request_json b = sm_request_json a \<and> sm_expires b = sm_expires a)"

text \<open>An attempt keeps its content and only moves forward; a settled one never changes.\<close>

definition attempt_moves :: "smtp_row \<Rightarrow> smtp_row \<Rightarrow> bool" where
  "attempt_moves a b = (same_attempt a b \<and> stage_of a \<le> stage_of b \<and> (terminal_row a \<longrightarrow> b = a))"

definition queue_le :: "smtp_row list \<Rightarrow> smtp_row list \<Rightarrow> bool" where
  "queue_le t u = extends attempt_moves t u"

lemma attempt_moves_refl [simp]: "attempt_moves a a"
  by (simp add: attempt_moves_def same_attempt_def)

lemma attempt_moves_trans: "attempt_moves a b \<Longrightarrow> attempt_moves b c \<Longrightarrow> attempt_moves a c"
  by (auto simp: attempt_moves_def same_attempt_def)

lemma queue_le_refl: "queue_le t t"
  by (simp add: queue_le_def extends_refl)

lemma queue_le_trans: "queue_le a b \<Longrightarrow> queue_le b c \<Longrightarrow> queue_le a c"
  unfolding queue_le_def by (auto elim!: extends_trans [rotated] intro: attempt_moves_trans)

lemmas row_defs = attempt_moves_def same_attempt_def stage_of_def terminal_row_def phase_fits_def live_def claimed_by_def
  finished_by_def fail_cancelled_def

lemma extends_upd_mem: "(\<And>r. R r r) \<Longrightarrow> (\<And>r. r \<in> set t \<Longrightarrow> p r \<Longrightarrow> R r (f r)) \<Longrightarrow> extends R t (upd p f t)"
  by (simp add: extends_def upd_def list_all2_map2 list_all2_same)

lemma queue_step_le: "queue_step t u \<Longrightarrow> queue_le t u"
proof (induction rule: queue_step.induct)
  case (Claim p job t token pid n)
  then show ?case unfolding queue_le_def by (intro extends_upd_mem) (auto simp: row_defs)
next
  case (Settle t p res n)
  then show ?case unfolding queue_le_def
    by (intro extends_upd_mem) (auto simp: row_defs split: smtp_state.splits)
qed (unfold queue_le_def, (rule extends_append, simp)+, (rule extends_upd_mem, simp, force simp: row_defs split: smtp_state.splits)+)

section \<open>Its invariant\<close>

lemma queue_ok_append:
  assumes ok: "queue_ok t" and r: "fresh_row r" "attempt_allowed r t" "1 \<le> sm_attempt r"
    and live: "\<And>a. a \<in> set t \<Longrightarrow> sm_handoff r \<noteq> None \<Longrightarrow> same_mail r a \<Longrightarrow> \<not> live a"
    and one: "sm_handoff r \<noteq> None \<Longrightarrow> \<exists>b \<in> set (t @ [r]). same_mail r b \<and> sm_attempt b = 1"
  shows "queue_ok (t @ [r])"
proof -
  have c: "compatible a r \<and> compatible r a" if a: "a \<in> set t" for a
  proof -
    from r(2) a have "sm_handoff r \<noteq> None \<longrightarrow> sm_handoff a = sm_handoff r \<longrightarrow> sm_attempt a \<noteq> sm_attempt r"
      by (simp add: attempt_allowed_def list_all_iff)
    with live [OF a] r(1) show ?thesis
      unfolding compatible_def fresh_row_def same_mail_def by (metis smtp_state.distinct(1))
  qed
  have "\<forall>a \<in> set t. \<forall>b \<in> set t. compatible a b" using ok by (simp add: queue_ok_def)
  with c have 1: "\<forall>a \<in> set (t @ [r]). \<forall>b \<in> set (t @ [r]). compatible a b" by (auto simp: compatible_def)
  have "\<forall>a \<in> set t. 1 \<le> sm_attempt a \<and> (sm_handoff a \<noteq> None \<longrightarrow> (\<exists>b \<in> set t. same_mail a b \<and> sm_attempt b = 1))"
    using ok by (simp add: queue_ok_def)
  with one r(3) have 2: "\<forall>a \<in> set (t @ [r]). 1 \<le> sm_attempt a \<and>
      (sm_handoff a \<noteq> None \<longrightarrow> (\<exists>b \<in> set (t @ [r]). same_mail a b \<and> sm_attempt b = 1))"
    by (metis UnE UnI1 empty_iff insert_iff list.set(1) list.set(2) set_append)
  have 3: "sm_job r \<notin> sm_job ` set t" using r(2) by (auto simp: attempt_allowed_def list_all_iff)
  have 4: "phase_fits r" using r(1) by (simp add: phase_fits_def fresh_row_def)
  have "distinct (map sm_job (t @ [r]))" "list_all phase_fits (t @ [r])" using ok 3 4 by (simp_all add: queue_ok_def)
  with 1 2 show ?thesis unfolding queue_ok_def by blast
qed

text \<open>An update that keeps identities and either keeps each row live as it was or settles it.\<close>

lemma queue_ok_upd:
  assumes ok: "queue_ok t"
    and keep: "\<And>a. sm_job (f a) = sm_job a \<and> sm_handoff (f a) = sm_handoff a \<and> sm_attempt (f a) = sm_attempt a"
    and fits: "\<And>a. a \<in> set t \<Longrightarrow> p a \<Longrightarrow> phase_fits a \<Longrightarrow> phase_fits (f a)"
    and live: "\<And>a. a \<in> set t \<Longrightarrow> p a \<Longrightarrow> live (f a) \<Longrightarrow> live a"
    and sending: "\<And>a b. a \<in> set t \<Longrightarrow> p a \<Longrightarrow> sm_status (f a) = SSending \<Longrightarrow> b \<in> set t \<Longrightarrow>
      sm_status b = SSending \<or> p b \<Longrightarrow> sm_job a = sm_job b"
  shows "queue_ok (upd p f t)"
proof -
  define g where "g a = (if p a then f a else a)" for a
  have u: "upd p f t = map g t" by (simp add: upd_def g_def)
  have g: "sm_job (g a) = sm_job a" "sm_handoff (g a) = sm_handoff a" "sm_attempt (g a) = sm_attempt a" for a
    using keep by (auto simp: g_def)
  have glive: "a \<in> set t \<Longrightarrow> live (g a) \<Longrightarrow> live a" for a using live by (auto simp: g_def split: if_splits)
  have gsend: "sm_job a = sm_job b" if "a \<in> set t" "b \<in> set t" "sm_status (g a) = SSending" "sm_status (g b) = SSending" for a b
  proof -
    have "sm_status a = SSending \<Longrightarrow> sm_status b = SSending \<Longrightarrow> sm_job a = sm_job b"
      using ok that(1,2) by (auto simp: queue_ok_def compatible_def)
    then show ?thesis using that sending [of a b] sending [of b a] by (auto simp: g_def split: if_splits)
  qed
  have "compatible (g a) (g b)" if ab: "a \<in> set t" "b \<in> set t" for a b
  proof -
    from ok ab have "compatible a b" by (simp add: queue_ok_def)
    with glive ab gsend [OF ab] show ?thesis unfolding compatible_def g by blast
  qed
  moreover have "distinct (map sm_job (map g t))" using ok by (simp add: queue_ok_def comp_def g(1))
  moreover have "list_all phase_fits (map g t)" using ok fits by (auto simp: queue_ok_def list_all_iff g_def)
  moreover have "1 \<le> sm_attempt (g a) \<and> (sm_handoff (g a) \<noteq> None \<longrightarrow> (\<exists>b \<in> set t. same_mail (g a) (g b) \<and> sm_attempt (g b) = 1))"
    if "a \<in> set t" for a
    using ok that unfolding queue_ok_def same_mail_def g by blast
  ultimately show ?thesis unfolding u queue_ok_def by simp
qed

lemma same_mail_refl [simp]: "same_mail a a"
  by (simp add: same_mail_def)

lemma one_sending: "queue_ok t \<Longrightarrow> a \<in> set t \<Longrightarrow> b \<in> set t \<Longrightarrow> sm_status a = SSending \<Longrightarrow> sm_status b = SSending \<Longrightarrow>
    sm_job a = sm_job b"
  by (auto simp: queue_ok_def compatible_def)

lemma job_row: "queue_ok t \<Longrightarrow> a \<in> set t \<Longrightarrow> b \<in> set t \<Longrightarrow> sm_job a = sm_job b \<Longrightarrow> a = b"
  by (auto simp: queue_ok_def dest: distinct_map_same)

lemma queue_step_ok: "queue_step t u \<Longrightarrow> queue_ok t \<Longrightarrow> queue_ok u"
proof (induction rule: queue_step.induct)
  case (Enqueue r t)
  have "\<not> live a" if "a \<in> set t" "sm_handoff r \<noteq> None" "same_mail r a" for a
  proof -
    from that Enqueue.prems obtain b where "b \<in> set t" "same_mail a b" "sm_attempt b = 1"
      by (force simp: queue_ok_def same_mail_def)
    with Enqueue.hyps(2,3) that show ?thesis by (auto simp: attempt_allowed_def list_all_iff same_mail_def)
  qed
  then show ?case using Enqueue by (intro queue_ok_append) (auto simp: same_mail_def)
next
  case (Resend a t r)
  have "1 \<le> sm_attempt a" "\<exists>b \<in> set t. same_mail a b \<and> sm_attempt b = 1"
    using Resend.prems Resend.hyps(1,3) by (auto simp: queue_ok_def resend_of_def)
  with Resend.hyps(3) have att: "1 \<le> sm_attempt r" and one: "\<exists>b \<in> set (t @ [r]). same_mail r b \<and> sm_attempt b = 1"
    by (auto simp: resend_of_def same_mail_def)
  from Resend.hyps(3,4) have dead: "\<And>x. x \<in> set t \<Longrightarrow> same_mail r x \<Longrightarrow> \<not> live x" by (simp add: same_mail_def resend_of_def)
  from Resend.prems Resend.hyps(2,5) att show ?case by (rule queue_ok_append) (use dead one in blast)+
next
  case (Expedite t p n)
  then show ?case by (intro queue_ok_upd) (auto simp: row_defs)
next
  case (Claim p job t token pid n)
  then show ?case by (intro queue_ok_upd) (auto simp: row_defs sending_allowed_def list_all_iff)
next
  case (Data p t n)
  then show ?case by (intro queue_ok_upd) (auto simp: row_defs intro: one_sending)
next
  case (Stage p t v n)
  then show ?case by (intro queue_ok_upd) (auto simp: row_defs intro: one_sending)
next
  case (Settle t p res n)
  then show ?case by (intro queue_ok_upd) (auto simp: row_defs split: smtp_state.splits)
next
  case (Cancel p t n)
  then show ?case by (intro queue_ok_upd) (auto simp: row_defs)
qed

lemma queue_steps_ok: "queue_step\<^sup>*\<^sup>* t u \<Longrightarrow> queue_ok t \<Longrightarrow> queue_ok u \<and> queue_le t u"
  by (induction rule: rtranclp_induct) (auto intro: queue_le_refl queue_le_trans queue_step_ok queue_step_le)

section \<open>The code takes abstract steps\<close>

lemma record_delivery_event_frame [simp]:
  "db_smtp (record_delivery_event e sha job typ v d) = db_smtp d"
  "db_handoffs (record_delivery_event e sha job typ v d) = db_handoffs d"
  "db_runs (record_delivery_event e sha job typ v d) = db_runs d"
  "db_receipts (record_delivery_event e sha job typ v d) = db_receipts d"
  "db_controls (record_delivery_event e sha job typ v d) = db_controls d"
  "db_reported (record_delivery_event e sha job typ v d) = db_reported d"
  "db_smtp_requests (record_delivery_event e sha job typ v d) = db_smtp_requests d"
  by (simp_all add: record_delivery_event_def Let_def split: option.splits prod.splits)

lemma commit_reported_frame:
  assumes "commit_reported e sha h d = Inr d'"
  shows "db_smtp d' = db_smtp d \<and> db_handoffs d' = db_handoffs d \<and> db_runs d' = db_runs d \<and> db_receipts d' = db_receipts d
    \<and> db_controls d' = db_controls d"
proof -
  define I where "I x \<longleftrightarrow> db_smtp x = db_smtp d \<and> db_handoffs x = db_handoffs d \<and> db_runs x = db_runs d
    \<and> db_receipts x = db_receipts d \<and> db_controls x = db_controls d" for x :: db
  have step: "commit_record e sha keys names h r x = Inr y \<Longrightarrow> I x \<Longrightarrow> I y" for keys names r x y
    by (auto simp: commit_record_def insert_reported_def I_def split: json.splits option.splits if_splits)
  have fold: "fold_res (commit_record e sha keys names h) rs d = Inr d' \<Longrightarrow> I d'" for keys names rs
    by (rule fold_res_invariant [of _ rs d d' I], assumption, simp add: I_def, rule step)
  have "I d'"
  proof (cases "sel1 (\<lambda>i. inp_run i = ho_run h \<and> inp_revision i = ho_revision h) (db_inputs d)")
    case None
    with assms show ?thesis by (simp add: commit_reported_def I_def)
  next
    case (Some i)
    have "I d" by (simp add: I_def)
    with assms fold Some show ?thesis
      by (cases "find_version (ho_version h) d"; cases "inp_value i")
        (auto simp: commit_reported_def and_then_Inr Let_def split: if_splits)
  qed
  then show ?thesis by (simp add: I_def)
qed

lemma insert_retry_effect:
  assumes "insert_retry e sha job row due key request config expires d = Inr (a, d')"
  shows "db_smtp d' = db_smtp d @ [retry_attempt e row job due key request config expires]
    \<and> attempt_allowed (retry_attempt e row job due key request config expires) (db_smtp d) \<and> sm_handoff row \<noteq> None
    \<and> (\<forall>x \<in> set (db_smtp d). same_mail row x \<longrightarrow> \<not> live x) \<and> a = retry_attempt e row job due key request config expires"
proof -
  let ?r = "retry_attempt e row job due key request config expires"
  from assms obtain h d1 where h: "retry_handoff row d = Some h"
    and live: "\<not> some_row (\<lambda>a. same_mail row a \<and> sm_status a \<in> {SQueued, SSending, SAccepted}) (db_smtp d)"
    and i: "insert_attempt ?r d = Inr d1" and smtp: "db_smtp d' = db_smtp d1" and found: "find_job job d' = Some a"
    by (auto simp: insert_retry_def and_then_Inr Let_def find_job_def split: if_splits option.splits)
  from h have hn: "sm_handoff row \<noteq> None" by (auto simp: retry_handoff_def split: option.splits)
  from i have al: "attempt_allowed ?r (db_smtp d)" and d1: "db_smtp d1 = db_smtp d @ [?r]"
    by (auto simp: insert_attempt_def split: if_splits)
  from al have "\<forall>x \<in> set (db_smtp d). sm_job x \<noteq> job" by (auto simp: attempt_allowed_def list_all_iff retry_attempt_def)
  then have "sel1 (\<lambda>a. sm_job a = job) (db_smtp d @ [?r]) = Some ?r"
    by (subst sel1_append_new) (auto simp: retry_attempt_def)
  with found smtp d1 have "a = ?r" by (simp add: find_job_def)
  with al d1 smtp live hn show ?thesis by (auto simp: some_row_iff live_def)
qed

lemma insert_retry_found: "insert_retry e sha job row due key request config expires d = Inr (a, d') \<Longrightarrow> find_job job d' = Some a"
  by (auto simp: insert_retry_def and_then_Inr Let_def split: if_splits option.splits)

lemma insert_retry_step:
  assumes "insert_retry e sha job row due key request config expires d = Inr (a, d')"
    and "x \<in> set (db_smtp d)" "sm_job x = sm_job row" "same_attempt row x"
  shows "queue_step (db_smtp d) (db_smtp d')"
proof -
  note f = insert_retry_effect [OF assms(1)]
  let ?r = "retry_attempt e row job due key request config expires"
  have "resend_of x ?r" using assms(4) f by (auto simp: resend_of_def retry_attempt_def same_attempt_def)
  moreover have "\<forall>y \<in> set (db_smtp d). same_mail x y \<longrightarrow> \<not> live y"
    using assms(4) f by (simp add: same_mail_def same_attempt_def)
  ultimately have "queue_step (db_smtp d) (db_smtp d @ [?r])"
    using f assms(2) by (intro queue_step.Resend [of x]) (auto simp: fresh_row_def retry_attempt_def)
  with f show ?thesis by simp
qed

lemma find_job_mem: "find_job job d = Some a \<Longrightarrow> a \<in> set (db_smtp d) \<and> sm_job a = job"
  by (auto simp: find_job_def dest: sel1_Some)

lemma enqueue_step:
  assumes "enqueue e sha job h m mime env cfg d = Inr (u, d')"
  shows "queue_step\<^sup>*\<^sup>* (db_smtp d) (db_smtp d')"
proof (cases "find_job job d")
  case (Some a)
  with assms have "d' = d" by (simp add: enqueue_def split: if_splits)
  then show ?thesis by simp
next
  case None
  let ?r = "first_attempt e sha job h m mime env cfg"
  from None assms have "attempt_allowed ?r (db_smtp d)" "db_smtp d' = db_smtp d @ [?r]"
    by (auto simp: enqueue_def insert_attempt_def and_then_Inr split: if_splits)
  then have "queue_step (db_smtp d) (db_smtp d')"
    by (simp add: queue_step.Enqueue fresh_row_def first_attempt_def)
  then show ?thesis by simp
qed

text \<open>A retry returns an earlier attempt of its key, expedites a queued one or adds one.\<close>

lemma three_guards:
  "(if b1 then Inl x1 else if b2 then Inl x2 else if b3 then Inl x3 else m) = Inr r \<Longrightarrow> \<not> b1 \<and> \<not> b2 \<and> \<not> b3 \<and> m = Inr r"
  by (simp split: if_split_asm)

lemma pair_result:
  "and_then m (\<lambda>(x, y). and_then (f x y) (\<lambda>z. Inr (x, z))) = Inr (a, c) \<Longrightarrow> \<exists>b. m = Inr (a, b) \<and> f a b = Inr c"
  by (cases m) (auto simp: and_then_Inr)

lemma retry_cases:
  assumes "retry e sha fresh job key request cfg allow d = Inr (a, d')"
  obtains (earlier) "requested key request d = Inr (Some a)" "d' = d"
  | (added) row h d1 where "requested key request d = Inr None" "find_job job d = Some row" "default [] (sm_handoff row) = h" "h \<noteq> []"
      "\<not> (some_row (\<lambda>a. sm_handoff a = Some h \<and> sm_status a = SUncertain) (db_smtp d) \<and> \<not> allow)"
      "sm_status row \<in> {SFailed, SUncertain, SQueued}" "map_option sm_job (latest h d) = Some job"
      "(if sm_status row = SQueued then expedite e row h request d
        else insert_retry e sha fresh row (now e) key request cfg None d) = Inr (a, d1)"
      "store_request e key request (sm_job a) d1 = Inr d'"
proof -
  from assms obtain prior where prior: "requested key request d = Inr prior" by (auto simp: retry_def and_then_Inr)
  show ?thesis
  proof (cases prior)
    case None
    with prior assms obtain row where row: "find_job job d = Some row" by (auto simp: retry_def split: option.splits)
    let ?h = "default [] (sm_handoff row)"
    let ?step = "if sm_status row = SQueued then expedite e row ?h request d
        else insert_retry e sha fresh row (now e) key request cfg None d"
    from three_guards [OF assms [unfolded retry_def prior and_then_simps None option.case row Let_def]]
    have ok: "?h \<noteq> []" "sm_status row \<in> {SFailed, SUncertain, SQueued}"
      "\<not> (some_row (\<lambda>a. sm_handoff a = Some ?h \<and> sm_status a = SUncertain) (db_smtp d) \<and> \<not> allow)"
      "map_option sm_job (latest ?h d) = Some job"
      and rest: "and_then ?step (\<lambda>(result, d1). and_then (store_request e key request (sm_job result) d1) (\<lambda>d2. Inr (result, d2))) = Inr (a, d')"
      by blast+
    from pair_result [OF rest] obtain d1 where last: "?step = Inr (a, d1)" "store_request e key request (sm_job a) d1 = Inr d'"
      by (elim exE conjE)
    show ?thesis by (rule added [OF prior [unfolded None] row refl ok(1,3,2,4) last])
  next
    case (Some x)
    with prior assms have "x = a" "d' = d" by (simp_all add: retry_def)
    with prior Some show ?thesis by (intro earlier) simp_all
  qed
qed

lemma expedite_effect:
  assumes "expedite e row h request d = Inr (a, d1)"
  shows "db_smtp d1 = upd (\<lambda>a. sm_job a = sm_job row) (\<lambda>a. a\<lparr>sm_next := Some (now e), sm_updated := now e\<rparr>) (db_smtp d)"
    and "find_job (sm_job row) d1 = Some a"
  using assms by (auto simp: expedite_def Let_def split: if_splits option.splits)

lemma store_request_effect:
  assumes "store_request e key request job d = Inr d'"
  shows "db_smtp d' = db_smtp d" and "find_job job d = Some a \<Longrightarrow> requested key request d' = Inr (Some a)"
proof -
  let ?q = "\<lparr>rq_key = key, rq_job = job, rq_json = dumps_sorted (JDict request), rq_created = now e\<rparr>"
  from assms have d': "d' = d\<lparr>db_smtp_requests := db_smtp_requests d @ [?q]\<rparr>" and new: "\<forall>q \<in> set (db_smtp_requests d). rq_key q \<noteq> key"
    by (auto simp: store_request_def and_then_Inr ins_Inr)
  then show "db_smtp d' = db_smtp d" by simp
  have "sel1 (\<lambda>q. rq_key q = key) (db_smtp_requests d') = Some ?q" unfolding d' using new by (simp add: sel1_append_new)
  then show "find_job job d = Some a \<Longrightarrow> requested key request d' = Inr (Some a)"
    by (simp add: requested_def d' find_job_def)
qed

lemma retry_step:
  assumes "queue_ok (db_smtp d)" "retry e sha fresh job key request cfg allow d = Inr (a, d')"
  shows "queue_step\<^sup>*\<^sup>* (db_smtp d) (db_smtp d')"
  using assms(2)
proof (cases rule: retry_cases)
  case earlier
  then show ?thesis by simp
next
  case (added row h d1)
  from find_job_mem [OF added(2)] have mem: "row \<in> set (db_smtp d)" "sm_job row = job" by auto
  have "queue_step (db_smtp d) (db_smtp d1)"
  proof (cases "sm_status row = SQueued")
    case True
    with added(8) have "expedite e row h request d = Inr (a, d1)" by simp
    from expedite_effect(1) [OF this] True mem job_row [OF assms(1)] show ?thesis
      by (simp only:) (rule queue_step.Expedite, metis)
  next
    case False
    with added(8) have "insert_retry e sha fresh row (now e) key request cfg None d = Inr (a, d1)" by simp
    from insert_retry_step [OF this mem(1)] show ?thesis by (simp add: same_attempt_def)
  qed
  with store_request_effect(1) [OF added(9)] show ?thesis by simp
qed

lemma claim_step: "claim e sha token pid job future d = (x, d') \<Longrightarrow> queue_step\<^sup>*\<^sup>* (db_smtp d) (db_smtp d')"
  using queue_step.Claim [of "claimable job future (now e)" job "db_smtp d" token pid "now e"]
  by (auto simp: claim_def claimable_def split: if_splits)

lemma start_data_step: "start_data e sha job token production d = Inr (u, d') \<Longrightarrow> queue_step\<^sup>*\<^sup>* (db_smtp d) (db_smtp d')"
  using queue_step.Data [of "\<lambda>a. owned job token a \<and> sm_phase a = Prepared" "db_smtp d" "now e"]
  by (auto simp: start_data_def and_then_Inr Let_def owned_def split: if_splits)

lemma record_stage_step: "record_stage e job token v d = Inr (u, d') \<Longrightarrow> queue_step\<^sup>*\<^sup>* (db_smtp d) (db_smtp d')"
  using queue_step.Stage [of "owned job token" "db_smtp d" "now e" v]
  by (auto simp: record_stage_def owned_def split: if_splits)

lemma fold_events_frame [simp]:
  "db_smtp (fold (\<lambda>job. record_delivery_event e sha job typ v) jobs d) = db_smtp d"
  "db_handoffs (fold (\<lambda>job. record_delivery_event e sha job typ v) jobs d) = db_handoffs d"
  "db_runs (fold (\<lambda>job. record_delivery_event e sha job typ v) jobs d) = db_runs d"
  by (induction jobs arbitrary: d) simp_all

lemma cancel_smtp:
  "db_smtp (snd (cancel_pending_for_run e sha run d)) = (if fst (cancel_pending_for_run e sha run d)
     then upd (\<lambda>a. run_mail run d a \<and> sm_status a = SQueued) (fail_cancelled (now e)) (db_smtp d) else db_smtp d)"
  by (simp add: cancel_pending_for_run_def Let_def split: option.split)

lemma cancel_step: "queue_step\<^sup>*\<^sup>* (db_smtp d) (db_smtp (snd (cancel_pending_for_run e sha run d)))"
  using queue_step.Cancel [of "\<lambda>a. run_mail run d a \<and> sm_status a = SQueued" "db_smtp d" "now e"]
  by (auto simp: cancel_smtp)

text \<open>Settling an attempt: the row found is the only one updated.\<close>

lemma finish_guard_Inr:
  "finish_guard res token m = Inr a \<longleftrightarrow> m = Some a \<and> rs_status res \<notin> {SQueued, SSending} \<and> sm_status a = SSending \<and> sm_token a = token
    \<and> (rs_status res = SAccepted \<longrightarrow> sm_phase a = DataStarted)
    \<and> (rs_status res = SConnectionOk \<longrightarrow> default [] (sm_handoff a) = [] \<and> truthy (dget (sm_envelope a) ''connection_test''))"
  by (cases m) (auto simp: finish_guard_def)

lemma settle_run_frame: "settle_run e sha res a h d = Inr d' \<Longrightarrow> db_smtp d' = db_smtp d"
  by (auto simp: settle_run_def and_then_Inr Let_def dest!: commit_reported_frame split: if_splits option.splits)

lemma schedule_retry_cases:
  assumes "schedule_retry e sha fresh p a h d = Inr d'"
  shows "db_smtp d' = db_smtp d \<or> (retry_due p e a \<le> retry_expiry p a d \<and> (\<exists>x row.
    insert_retry e sha fresh a (retry_due p e a) (''auto-'' @ sm_job a) x (sm_config a) (Some (retry_expiry p a d)) d = Inr (row, d')))"
  using assms unfolding schedule_retry_def Let_def by (auto split: if_splits sum.splits)

lemma insert_receipt_frame: "insert_receipt r d = Inr d' \<Longrightarrow> db_smtp d' = db_smtp d"
  by (auto simp: insert_receipt_def split: if_splits)

text \<open>The two ways an attempt ends: without a mail of a run or alert, or with one.\<close>

lemma finish_cases:
  assumes "finish e sha fresh job token res policy d = Inr (r, d')"
  obtains (bare) a where "finish_guard res token (find_job job d) = Inr a" "default [] (sm_handoff a) = []"
      "r = None" "d' = settle_job e job token res d"
  | (mail) a h d2 d4 where "finish_guard res token (find_job job d) = Inr a" "default [] (sm_handoff a) \<noteq> []"
      "find_handoff (default [] (sm_handoff a)) (settle_job e job token res d) = Some h" "r = Some (smtp_receipt e sha res a h)"
      "insert_receipt (smtp_receipt e sha res a h) (settle_job e job token res d) = Inr d2"
      "(if ho_type h \<noteq> ''system_alert'' then settle_run e sha res a h (settle_mail res (smtp_receipt e sha res a h) h d2)
        else Inr (settle_mail res (smtp_receipt e sha res a h) h d2)) = Inr d4"
      "after_settle e sha fresh res policy a h (settle_audit e job res a h d4) = Inr d'"
proof -
  from assms obtain a where g: "finish_guard res token (find_job job d) = Inr a" by (auto simp: finish_def and_then_Inr)
  show ?thesis
  proof (cases "default [] (sm_handoff a) = []")
    case True
    with assms g show ?thesis by (intro bare) (auto simp: finish_def Let_def)
  next
    case False
    let ?d1 = "settle_job e job token res d"
    from assms g False obtain h where h: "find_handoff (default [] (sm_handoff a)) ?d1 = Some h"
      by (auto simp: finish_def Let_def split: option.splits)
    let ?r = "smtp_receipt e sha res a h"
    have "finish e sha fresh job token res policy d = and_then (insert_receipt ?r ?d1) (\<lambda>d2.
        and_then (if ho_type h \<noteq> ''system_alert'' then settle_run e sha res a h (settle_mail res ?r h d2) else Inr (settle_mail res ?r h d2))
        (\<lambda>d4. and_then (after_settle e sha fresh res policy a h (settle_audit e job res a h d4)) (\<lambda>d6. Inr (Some ?r, d6))))"
      using g False h by (simp add: finish_def Let_def)
    with assms obtain d2 d4 where "insert_receipt ?r ?d1 = Inr d2"
      "(if ho_type h \<noteq> ''system_alert'' then settle_run e sha res a h (settle_mail res ?r h d2) else Inr (settle_mail res ?r h d2)) = Inr d4"
      "after_settle e sha fresh res policy a h (settle_audit e job res a h d4) = Inr d'" "r = Some ?r"
      by (auto simp: and_then_Inr)
    with g False h mail show ?thesis by blast
  qed
qed

lemma finish_effect:
  assumes ok: "queue_ok (db_smtp d)" and f: "finish e sha fresh job token res policy d = Inr (r, d')"
  obtains a where "finish_guard res token (find_job job d) = Inr a"
    "queue_step (db_smtp d) (upd (\<lambda>x. sm_job x = job) (finished_by res (now e)) (db_smtp d))"
    "db_smtp d' = upd (\<lambda>x. sm_job x = job) (finished_by res (now e)) (db_smtp d) \<or>
     (\<exists>p d5 x d6. policy = Some p \<and> (\<exists>h. auto_retry_wanted res p a h d5) \<and> retry_due p e a \<le> retry_expiry p a d5
        \<and> db_smtp d5 = upd (\<lambda>x. sm_job x = job) (finished_by res (now e)) (db_smtp d)
        \<and> insert_retry e sha fresh a (retry_due p e a) (''auto-'' @ job) x (sm_config a) (Some (retry_expiry p a d5)) d5
            = Inr (d6, d'))"
proof -
  let ?t = "upd (\<lambda>x. sm_job x = job) (finished_by res (now e)) (db_smtp d)"
  from f obtain a where g: "finish_guard res token (find_job job d) = Inr a" by (auto simp: finish_def and_then_Inr)
  then have a: "find_job job d = Some a" "rs_status res \<notin> {SQueued, SSending}" "sm_status a = SSending" "sm_token a = token"
      "rs_status res = SAccepted \<longrightarrow> sm_phase a = DataStarted" by (auto simp: finish_guard_Inr)
  from find_job_mem [OF a(1)] have mem: "a \<in> set (db_smtp d)" "sm_job a = job" by auto
  then have only: "x = a" if "x \<in> set (db_smtp d)" "sm_job x = job" for x using job_row [OF ok] that by simp
  have "phase_fits a" using ok mem(1) by (simp add: queue_ok_def list_all_iff)
  then have tok: "token \<noteq> None" using a(3,4) by (auto simp: phase_fits_def)
  have upd: "upd (\<lambda>x. sm_job x = job \<and> sm_token x = token \<and> token \<noteq> None) (finished_by res (now e)) (db_smtp d) = ?t"
    unfolding upd_def by (rule map_cong) (use only a(4) tok in auto)
  have "queue_step (db_smtp d) ?t" by (rule queue_step.Settle) (use only a in auto)
  moreover from f g have "db_smtp d' = ?t \<or> (\<exists>p d5 x d6. policy = Some p \<and> (\<exists>h. auto_retry_wanted res p a h d5)
        \<and> retry_due p e a \<le> retry_expiry p a d5 \<and> db_smtp d5 = ?t
        \<and> insert_retry e sha fresh a (retry_due p e a) (''auto-'' @ job) x (sm_config a) (Some (retry_expiry p a d5)) d5 = Inr (d6, d'))"
  proof -
    have d1: "db_smtp (settle_job e job token res d) = ?t" using upd by (simp add: settle_job_def del: not_None_eq)
    from f show ?thesis
    proof (cases rule: finish_cases)
      case (bare a')
      with d1 show ?thesis by simp
    next
      case (mail a' h d2 d4)
      with g have a': "a' = a" by simp
      let ?d5 = "settle_audit e job res a h d4"
      have t: "db_smtp ?d5 = ?t"
        using insert_receipt_frame [OF mail(5)] mail(6) d1 by (auto simp: settle_audit_def settle_mail_def dest: settle_run_frame split: if_splits)
      show ?thesis
      proof (cases "\<exists>p. policy = Some p \<and> auto_retry_wanted res p a h ?d5")
        case True
        then obtain p where p: "policy = Some p" "auto_retry_wanted res p a h ?d5" by blast
        with mail(7) a' have "schedule_retry e sha fresh p a (ho_id h) ?d5 = Inr d'" by (simp add: after_settle_def)
        from schedule_retry_cases [OF this] p t mem(2) show ?thesis by auto
      next
        case False
        with mail(7) a' have "d' = ?d5" by (auto simp: after_settle_def split: option.splits if_splits)
        with t show ?thesis by simp
      qed
    qed
  qed
  ultimately show ?thesis using g that by blast
qed

lemma finish_step:
  assumes "queue_ok (db_smtp d)" "finish e sha fresh job token res policy d = Inr (r, d')"
  shows "queue_step\<^sup>*\<^sup>* (db_smtp d) (db_smtp d')"
proof (rule finish_effect [OF assms])
  fix a
  let ?t = "upd (\<lambda>x. sm_job x = job) (finished_by res (now e)) (db_smtp d)"
  assume g: "finish_guard res token (find_job job d) = Inr a" and s: "queue_step (db_smtp d) ?t"
    and r: "db_smtp d' = ?t \<or>
     (\<exists>p d5 x d6. policy = Some p \<and> (\<exists>h. auto_retry_wanted res p a h d5) \<and> retry_due p e a \<le> retry_expiry p a d5 \<and> db_smtp d5 = ?t
        \<and> insert_retry e sha fresh a (retry_due p e a) (''auto-'' @ job) x (sm_config a) (Some (retry_expiry p a d5)) d5 = Inr (d6, d'))"
  from g have "find_job job d = Some a" by (simp add: finish_guard_Inr)
  then have mem: "a \<in> set (db_smtp d)" "sm_job a = job" by (auto dest: find_job_mem)
  from r show ?thesis
  proof
    assume "db_smtp d' = ?t"
    with s show ?thesis by simp
  next
    assume "\<exists>p d5 x d6. policy = Some p \<and> (\<exists>h. auto_retry_wanted res p a h d5) \<and> retry_due p e a \<le> retry_expiry p a d5 \<and> db_smtp d5 = ?t
        \<and> insert_retry e sha fresh a (retry_due p e a) (''auto-'' @ job) x (sm_config a) (Some (retry_expiry p a d5)) d5 = Inr (d6, d')"
    then obtain p d5 x d6 where t: "db_smtp d5 = ?t"
      and i: "insert_retry e sha fresh a (retry_due p e a) (''auto-'' @ job) x (sm_config a) (Some (retry_expiry p a d5)) d5 = Inr (d6, d')"
      by blast
    have "finished_by res (now e) a \<in> set (db_smtp d5)" unfolding t set_upd using mem by blast
    from insert_retry_step [OF i this] have "queue_step ?t (db_smtp d')"
      by (simp add: finished_by_def same_attempt_def t)
    with s show ?thesis by (meson converse_rtranclp_into_rtranclp r_into_rtranclp)
  qed
qed

section \<open>Histories of the queue\<close>

datatype smtp_op =
    OpEnqueue string "string option" string string dict string
  | OpRetry string string string dict string bool
  | OpClaim string int string bool
  | OpData string string bool
  | OpStage string string json
  | OpCancel string
  | OpFinish string string "string option" smtp_result "retry_policy option"

fun smtp_step :: "(string \<Rightarrow> string) \<Rightarrow> env \<times> smtp_op \<Rightarrow> db \<Rightarrow> (unit \<times> db) res" where
  "smtp_step sha (e, OpEnqueue job h m mime env cfg) d = enqueue e sha job h m mime env cfg d"
| "smtp_step sha (e, OpRetry fresh job key request cfg allow) d = keep (retry e sha fresh job key request cfg allow d)"
| "smtp_step sha (e, OpClaim token pid job future) d = Inr ((), snd (claim e sha token pid job future d))"
| "smtp_step sha (e, OpData job token production) d = start_data e sha job token production d"
| "smtp_step sha (e, OpStage job token v) d = record_stage e job token v d"
| "smtp_step sha (e, OpCancel run) d = Inr ((), snd (cancel_pending_for_run e sha run d))"
| "smtp_step sha (e, OpFinish fresh job token res policy) d = keep (finish e sha fresh job token res policy d)"

lemma keep_Inr: "keep m = Inr (u, d) \<longleftrightarrow> (\<exists>r. m = Inr (r, d))"
  by (auto simp: keep_def and_then_Inr)

lemma smtp_step_queue:
  assumes "queue_ok (db_smtp d)" "smtp_step sha x d = Inr (u, d')"
  shows "queue_step\<^sup>*\<^sup>* (db_smtp d) (db_smtp d')"
  using assms
  by (cases "(sha, x, d)" rule: smtp_step.cases)
    (auto simp: keep_Inr intro: enqueue_step retry_step start_data_step record_stage_step finish_step cancel_step
      claim_step [OF prod.collapse [symmetric]])

interpretation smtp: monotone_ops "smtp_step sha" "\<lambda>d. queue_ok (db_smtp d)" "\<lambda>d d'. queue_le (db_smtp d) (db_smtp d')" for sha
  using queue_steps_ok [OF smtp_step_queue] by unfold_locales (blast intro: queue_le_refl queue_le_trans)+

text \<open>C11: every operation of the mail queue, on whatever else it does to the store, is a sequence of
  steps of the abstract queue on the attempts; an operation that fails leaves them as they were.\<close>

theorem queue_refinement:
  assumes "queue_ok (db_smtp d)"
  shows "queue_step\<^sup>*\<^sup>* (db_smtp d) (db_smtp (commit (smtp_step sha x) d))"
proof (cases "smtp_step sha x d")
  case (Inl e)
  then show ?thesis by (simp add: commit_def)
next
  case (Inr p)
  obtain u d' where p: "p = (u, d')" by (cases p)
  with Inr smtp_step_queue [OF assms] show ?thesis by (auto simp: commit_def)
qed

text \<open>C12: every history of queue operations keeps the table's keys and unique indexes, at most one
  attempt being sent in the whole system, at most one attempt of a mail that is queued, being sent
  or accepted, and phases that fit; no attempt disappears, changes its content or moves back, and a
  settled attempt never changes.\<close>

theorem smtp_history:
  assumes "queue_ok (db_smtp d)"
  shows "queue_ok (db_smtp (exec (smtp_step sha) ops d)) \<and> queue_le (db_smtp d) (db_smtp (exec (smtp_step sha) ops d))"
  using assms smtp.exec_inv smtp.exec_le by blast

text \<open>C10: a mail is accepted at most once: once an attempt of a handoff was accepted by the server, in
  every later state that attempt is still there, and no other attempt of the handoff is queued,
  being sent or accepted, whatever operations, retries and recoveries came in between.\<close>

theorem accepted_mail_is_not_resent:
  assumes "queue_ok (db_smtp d)" "a \<in> set (db_smtp (exec (smtp_step sha) xs d))" "sm_status a = SAccepted" "sm_handoff a \<noteq> None"
  shows "a \<in> set (db_smtp (exec (smtp_step sha) (xs @ ys) d)) \<and>
    (\<forall>b \<in> set (db_smtp (exec (smtp_step sha) (xs @ ys) d)). same_mail a b \<and> live b \<longrightarrow> b = a)"
proof -
  let ?d = "exec (smtp_step sha) xs d"
  have split: "exec (smtp_step sha) (xs @ ys) d = exec (smtp_step sha) ys ?d" by (rule exec_append)
  have ok: "queue_ok (db_smtp ?d)" using assms(1) smtp.exec_inv by blast
  then have le: "queue_le (db_smtp ?d) (db_smtp (exec (smtp_step sha) (xs @ ys) d))"
    and ok': "queue_ok (db_smtp (exec (smtp_step sha) (xs @ ys) d))"
    unfolding split using smtp.exec_le smtp.exec_inv by blast+
  from extends_mem [OF le [unfolded queue_le_def] assms(2)] obtain b where
    "b \<in> set (db_smtp (exec (smtp_step sha) (xs @ ys) d))" "attempt_moves a b" by blast
  with assms(3) have mem: "a \<in> set (db_smtp (exec (smtp_step sha) (xs @ ys) d))" by (simp add: attempt_moves_def terminal_row_def)
  moreover have "b = a" if "b \<in> set (db_smtp (exec (smtp_step sha) (xs @ ys) d))" "same_mail a b" "live b" for b
  proof -
    have "live a" using assms(3) by (simp add: live_def)
    moreover have "compatible a b" using ok' mem that(1) by (simp add: queue_ok_def)
    ultimately have "sm_job a = sm_job b" using that assms(4) by (simp add: compatible_def same_mail_def)
    with job_row [OF ok' mem that(1)] show ?thesis by simp
  qed
  ultimately show ?thesis by blast
qed

text \<open>The body of a mail is submitted only with permission: if the DATA phase of an attempt with a
  handoff starts, the attempt has not expired and is owned by the caller, the task is in live mode,
  the run is no dry run, a research mail's run awaits its receipt and is not cancelled, outside
  production the exact version and configuration revision are approved, and the delivery version
  gate lets this version through.\<close>

theorem data_needs_permission:
  assumes "start_data e sha job token production d = Inr (u, d')" "find_job job d = Some a" "sm_handoff a = Some i" "i \<noteq> []"
  shows "\<exists>h t r k. find_handoff i d = Some h \<and> find_task (ho_task h) d = Some t \<and> run_controls d (ho_run h) = Some (r, k)
    \<and> (\<exists>x \<in> set (db_smtp d). owned job token x \<and> sm_phase x = Prepared)
    \<and> (case sm_expires a of None \<Rightarrow> True | Some x \<Rightarrow> now e < x)
    \<and> task_mode t = MHandoff \<and> \<not> ctl_dry k \<and> run_trigger r \<noteq> ''candidate_dry_run''
    \<and> (production \<or> task_approved t \<and> task_approved_version t = Some (ho_version h) \<and> task_approved_revision t = Some (sm_config a))
    \<and> (ho_type h = ''system_alert'' \<or> \<not> ctl_cancel k \<and> run_status r = AwaitingReceipt)
    \<and> assert_delivery_version sha d (ho_task h) (ho_version h) (Some (ho_run h)) production (ho_type h = ''system_alert'') = Inr ()"
proof -
  from assms have expiry: "case sm_expires a of None \<Rightarrow> True | Some x \<Rightarrow> now e < x"
    and perm: "data_permission sha a production d = Inr ()"
    and own: "\<exists>x \<in> set (db_smtp d). owned job token x \<and> sm_phase x = Prepared"
    by (auto simp: start_data_def and_then_Inr Let_def some_row_iff split: if_splits option.splits)
  from perm assms(3,4) obtain h t r k where rows: "permission_rows i d = Some (h, t, r, k)"
    and ok: "\<not> permission_denied production a h t r k"
      "assert_delivery_version sha d (ho_task h) (ho_version h) (Some (ho_run h)) production (ho_type h = ''system_alert'') = Inr ()"
    by (auto simp: data_permission_def split: option.splits if_splits)
  from rows have "find_handoff i d = Some h" "find_task (ho_task h) d = Some t" "run_controls d (ho_run h) = Some (r, k)"
    by (auto simp: permission_rows_def split: option.splits)
  with ok expiry own show ?thesis by (auto simp: permission_denied_def)
qed

text \<open>The creation time of the first attempt of a mail; settling an attempt does not move it.\<close>

lemma finished_by_keeps:
  "sm_handoff (finished_by res t a) = sm_handoff a" "sm_created (finished_by res t a) = sm_created a" "sm_attempt (finished_by res t a) = sm_attempt a"
  by (simp_all add: finished_by_def)

lemma first_created_settled:
  assumes "db_smtp d' = upd q (finished_by res t) (db_smtp d)" "a \<in> set (db_smtp d)"
  shows "\<exists>x \<in> set (db_smtp d). same_mail a x \<and> (\<forall>y \<in> set (db_smtp d). same_mail a y \<longrightarrow> sm_attempt x \<le> sm_attempt y)
    \<and> first_created a d' = sm_created x"
proof -
  let ?f = "\<lambda>x. if q x then finished_by res t x else x"
  have rows: "db_smtp d' = map ?f (db_smtp d)" by (simp add: assms(1) upd_def)
  have same: "same_mail a (?f x) = same_mail a x" "sm_attempt (?f x) = sm_attempt x" "sm_created (?f x) = sm_created x" for x
    by (simp_all add: same_mail_def finished_by_keeps)
  have "?f a \<in> set (sel (same_mail a) (db_smtp d'))" using assms(2) by (auto simp: rows sel_def same_mail_def finished_by_keeps)
  then have "sel (same_mail a) (db_smtp d') \<noteq> []" by (metis empty_iff list.set(1))
  then obtain x' where x': "least_by sm_attempt (sel (same_mail a) (db_smtp d')) = Some x'"
    by (cases "least_by sm_attempt (sel (same_mail a) (db_smtp d'))") (auto simp: least_by_None)
  note least = least_by_Some [OF x']
  from least obtain x where x: "x \<in> set (db_smtp d)" "x' = ?f x" by (auto simp: rows sel_def)
  have "sm_attempt x \<le> sm_attempt y" if y: "y \<in> set (db_smtp d)" "same_mail a y" for y
  proof -
    have "?f y \<in> set (sel (same_mail a) (db_smtp d'))" using y same(1) [of y] by (auto simp: rows sel_def)
    with least have "sm_attempt x' \<le> sm_attempt (?f y)" by blast
    then show ?thesis by (simp only: x(2) same(2))
  qed
  moreover have "same_mail a x" using least same(1) [of x] by (simp add: x(2) sel_def)
  moreover have "first_created a d' = sm_created x" using same(3) [of x] by (simp only: first_created_def x' x(2) option.case)
  ultimately show ?thesis using x(1) by blast
qed

text \<open>C13: automatic retries are bounded: if finishing an attempt queues another one, the result was a
  retryable failure under a policy that allows retries, the new attempt carries the same mail and a
  number within the policy's maximum, it is due after the back-off of its predecessor, and not
  later than the expiry counted from the creation of the first attempt of this mail, the one with the
  least number, which it carries along.\<close>

theorem auto_retry_bounded:
  assumes "queue_ok (db_smtp d)" "finish e sha fresh job token res policy d = Inr (r, d')"
    and "b \<in> set (db_smtp d')" "sm_job b \<notin> sm_job ` set (db_smtp d)"
  shows "\<exists>a p due expiry. a \<in> set (db_smtp d) \<and> sm_job a = job \<and> policy = Some p \<and> rp_auto p \<and> rs_status res = SFailed
    \<and> rs_retryable res \<and> resend_of a b \<and> sm_config b = sm_config a \<and> sm_attempt b \<le> rp_max p
    \<and> sm_next b = Some due \<and> sm_expires b = Some expiry \<and> due = now e + rp_base p * 2 ^ nat (sm_attempt a - 1) * 1000000
    \<and> due \<le> expiry \<and> (\<exists>x \<in> set (db_smtp d). same_mail a x \<and> (\<forall>y \<in> set (db_smtp d). same_mail a y \<longrightarrow> sm_attempt x \<le> sm_attempt y)
         \<and> expiry = sm_created x + rp_expiry p * 1000000)"
proof (rule finish_effect [OF assms(1,2)])
  fix a
  let ?t = "upd (\<lambda>x. sm_job x = job) (finished_by res (now e)) (db_smtp d)"
  assume g: "finish_guard res token (find_job job d) = Inr a"
    and r: "db_smtp d' = ?t \<or>
     (\<exists>p d5 x d6. policy = Some p \<and> (\<exists>h. auto_retry_wanted res p a h d5) \<and> retry_due p e a \<le> retry_expiry p a d5 \<and> db_smtp d5 = ?t
        \<and> insert_retry e sha fresh a (retry_due p e a) (''auto-'' @ job) x (sm_config a) (Some (retry_expiry p a d5)) d5 = Inr (d6, d'))"
  from g have mem: "a \<in> set (db_smtp d)" "sm_job a = job" by (auto simp: finish_guard_Inr dest: find_job_mem)
  have "map sm_job ?t = map sm_job (db_smtp d)" by (rule upd_map_key) (simp add: finished_by_def)
  then have jobs: "sm_job ` set ?t = sm_job ` set (db_smtp d)" by (metis list.set_map)
  with r assms(3,4) obtain p d5 x d6 h where p: "policy = Some p" "auto_retry_wanted res p a h d5"
    "retry_due p e a \<le> retry_expiry p a d5" "db_smtp d5 = ?t"
    "insert_retry e sha fresh a (retry_due p e a) (''auto-'' @ job) x (sm_config a) (Some (retry_expiry p a d5)) d5 = Inr (d6, d')"
    by auto
  let ?b = "retry_attempt e a fresh (retry_due p e a) (''auto-'' @ job) x (sm_config a) (Some (retry_expiry p a d5))"
  note eff = insert_retry_effect [OF p(5)]
  from eff p(4) assms(3,4) jobs have b: "b = ?b" by auto
  have res: "resend_of a b" using eff by (simp add: b resend_of_def retry_attempt_def)
  have first: "\<exists>x \<in> set (db_smtp d). same_mail a x \<and> (\<forall>y \<in> set (db_smtp d). same_mail a y \<longrightarrow> sm_attempt x \<le> sm_attempt y)
      \<and> retry_expiry p a d5 = sm_created x + rp_expiry p * 1000000"
    using first_created_settled [OF p(4) mem(1)] by (auto simp: retry_expiry_def)
  with p mem b res first show ?thesis
    by (intro exI [of _ a] exI [of _ p] exI [of _ "retry_due p e a"] exI [of _ "retry_expiry p a d5"])
      (auto simp: auto_retry_wanted_def retry_due_def retry_attempt_def)
qed

section \<open>Recovery\<close>

definition abandoned :: "(int \<Rightarrow> bool) \<Rightarrow> smtp_row \<Rightarrow> bool" where
  "abandoned gone a = (sm_status a = SSending \<and> (case sm_pid a of None \<Rightarrow> False | Some p \<Rightarrow> gone p))"

definition settled_by_recovery :: "(int \<Rightarrow> bool) \<Rightarrow> int \<Rightarrow> smtp_row list \<Rightarrow> smtp_row list" where
  "settled_by_recovery gone t rows = map (\<lambda>a. if abandoned gone a then finished_by (interrupted a) t a else a) rows"

lemma sending_rows:
  assumes "queue_ok t"
  shows "sel (\<lambda>a. sm_status a = SSending) t = [] \<or> (\<exists>a \<in> set t. sm_status a = SSending \<and> sel (\<lambda>a. sm_status a = SSending) t = [a])"
proof -
  define l where "l = sel (\<lambda>a. sm_status a = SSending) t"
  have "distinct (map sm_job l)" using assms by (simp add: l_def queue_ok_def sel_def distinct_map_filter)
  moreover have same: "sm_job a = sm_job b" if "a \<in> set l" "b \<in> set l" for a b
    using that one_sending [OF assms] by (simp add: l_def)
  moreover have mem: "a \<in> set t \<and> sm_status a = SSending" if "a \<in> set l" for a using that by (simp add: l_def)
  ultimately have "l = [] \<or> (\<exists>a \<in> set t. sm_status a = SSending \<and> l = [a])"
  proof (cases l)
    case (Cons a k)
    show ?thesis
    proof (cases k)
      case Nil
      with Cons mem [of a] show ?thesis by simp
    next
      case (Cons b m)
      with \<open>l = a # k\<close> same [of a b] \<open>distinct (map sm_job l)\<close> show ?thesis by simp
    qed
  qed simp
  then show ?thesis by (simp add: l_def)
qed

lemma recovery_table:
  assumes ok: "queue_ok t" and a: "a \<in> set t" "abandoned gone a"
  shows "settled_by_recovery gone n t = upd (\<lambda>x. sm_job x = sm_job a) (finished_by (interrupted a) n) t"
    and "sel (abandoned gone) t = [a]"
proof -
  from a(2) have st: "sm_status a = SSending" by (simp add: abandoned_def)
  have only: "abandoned gone x \<longleftrightarrow> x = a" if "x \<in> set t" for x
    using that a one_sending [OF ok] job_row [OF ok] unfolding abandoned_def by blast
  have "sm_job x = sm_job a \<longleftrightarrow> x = a" if "x \<in> set t" for x using that a(1) job_row [OF ok] by blast
  with only show "settled_by_recovery gone n t = upd (\<lambda>x. sm_job x = sm_job a) (finished_by (interrupted a) n) t"
    unfolding settled_by_recovery_def upd_def by (intro map_cong) auto
  have "filter (abandoned gone) t = filter ((=) a) t" using only by (intro filter_cong) auto
  moreover have "distinct t" using ok by (simp add: queue_ok_def distinct_map)
  then have "filter ((=) a) t = [a]" using a(1)
  proof (induction t)
    case (Cons x xs)
    have "a \<notin> set xs \<Longrightarrow> filter ((=) a) xs = []" by (auto simp: filter_empty_conv)
    with Cons show ?case by auto
  qed simp
  ultimately show "sel (abandoned gone) t = [a]" by (simp add: sel_def)
qed

text \<open>Recovery after a crash never resends: the attempts of dispatchers that are gone, and no
  others, are settled, as uncertain exactly if their DATA phase had started and as failed otherwise;
  no attempt is added, and if a settlement fails nothing changes.\<close>

theorem recovery_settles_abandoned:
  assumes "queue_ok (db_smtp d)" "recover_interrupted e sha gone d = (m, d')"
  shows "case m of Inl er \<Rightarrow> d' = d | Inr jobs \<Rightarrow> jobs = map sm_job (sel (abandoned gone) (db_smtp d))
    \<and> db_smtp d' = settled_by_recovery gone (now e) (db_smtp d) \<and> length (db_smtp d') = length (db_smtp d)"
proof -
  have len: "length (settled_by_recovery gone (now e) t) = length t" for t by (simp add: settled_by_recovery_def)
  have none: "settled_by_recovery gone (now e) t = t \<and> sel (abandoned gone) t = []" if "\<forall>a \<in> set t. \<not> abandoned gone a" for t
    using that by (simp add: settled_by_recovery_def sel_def map_idI filter_empty_conv)
  consider (empty) "sel (\<lambda>a. sm_status a = SSending) (db_smtp d) = []"
    | (one) a where "a \<in> set (db_smtp d)" "sm_status a = SSending" "sel (\<lambda>a. sm_status a = SSending) (db_smtp d) = [a]"
    using sending_rows [OF assms(1)] by blast
  then show ?thesis
  proof cases
    case empty
    then have "\<forall>a \<in> set (db_smtp d). \<not> abandoned gone a" by (auto simp: sel_def filter_empty_conv abandoned_def)
    with assms(2) empty none show ?thesis by (auto simp: recover_interrupted_def)
  next
    case one
    show ?thesis
    proof (cases "abandoned gone a")
      case False
      have "x = a" if "x \<in> set (db_smtp d)" "sm_status x = SSending" for x
      proof -
        from that have "x \<in> set (sel (\<lambda>a. sm_status a = SSending) (db_smtp d))" by simp
        with one(3) show ?thesis by simp
      qed
      then have "\<forall>x \<in> set (db_smtp d). \<not> abandoned gone x" using False by (auto simp: abandoned_def)
      with assms(2) one none False show ?thesis by (auto simp: recover_interrupted_def abandoned_def)
    next
      case True
      show ?thesis
      proof (cases "finish e sha [] (sm_job a) (sm_token a) (interrupted a) None d")
        case (Inl er)
        with assms(2) one True show ?thesis by (auto simp: recover_interrupted_def abandoned_def)
      next
        case (Inr p)
        obtain r d1 where p: "p = (r, d1)" by (cases p)
        from finish_effect [OF assms(1) Inr [unfolded p]] have
          "db_smtp d1 = upd (\<lambda>x. sm_job x = sm_job a) (finished_by (interrupted a) (now e)) (db_smtp d)" by blast
        with recovery_table [OF assms(1) one(1) True] have
          "db_smtp d1 = settled_by_recovery gone (now e) (db_smtp d)" "sel (abandoned gone) (db_smtp d) = [a]" by auto
        with assms(2) one True Inr p len show ?thesis by (auto simp: recover_interrupted_def abandoned_def)
      qed
    qed
  qed
qed

section \<open>Manual retries\<close>

text \<open>An operator's retry is idempotent and needs an acknowledgement: repeating the request under
  its key returns the same attempt and changes nothing; a retry that adds an attempt adds it for the
  latest attempt of a mail, which is settled, with no attempt of the mail accepted, and, if any
  attempt of the mail is uncertain, only with the duplicate acknowledged.\<close>

theorem retry_is_acknowledged:
  assumes "queue_ok (db_smtp d)" "retry e sha fresh job key request cfg allow d = Inr (a, d')"
  shows "retry e' sha fresh' job key request cfg' allow' d' = Inr (a, d') \<and>
    (db_smtp d' = db_smtp d \<or> sm_job a = job \<or>
     (\<exists>row h. find_job job d = Some row \<and> sm_handoff row = Some h \<and> latest h d = Some row \<and> terminal_row row
        \<and> db_smtp d' = db_smtp d @ [a] \<and> resend_of row a
        \<and> (\<forall>x \<in> set (db_smtp d). same_mail row x \<longrightarrow> \<not> live x \<and> (sm_status x = SUncertain \<longrightarrow> allow))))"
  using assms(2)
proof (cases rule: retry_cases)
  case earlier
  then show ?thesis by (simp add: retry_def)
next
  case (added row h d1)
  from find_job_mem [OF added(2)] have mem: "row \<in> set (db_smtp d)" "sm_job row = job" by auto
  note smtp = store_request_effect(1) [OF added(9)]
  show ?thesis
  proof (cases "sm_status row = SQueued")
    case True
    with added(8) have "expedite e row h request d = Inr (a, d1)" by simp
    from expedite_effect(2) [OF this] have a: "find_job (sm_job a) d1 = Some a" "sm_job a = job"
      using find_job_mem mem(2) by fastforce+
    from store_request_effect(2) [OF added(9) a(1)] a(2) show ?thesis by (simp add: retry_def)
  next
    case False
    with added(8) have i: "insert_retry e sha fresh row (now e) key request cfg None d = Inr (a, d1)" by simp
    note eff = insert_retry_effect [OF i]
    have "find_job (sm_job a) d1 = Some a" using insert_retry_found [OF i] find_job_mem by fastforce
    from store_request_effect(2) [OF added(9) this] have again: "retry e' sha fresh' job key request cfg' allow' d' = Inr (a, d')"
      by (simp add: retry_def)
    from eff added(3) have hs: "sm_handoff row = Some h" by (auto simp: default_def split: option.splits)
    from added(7) obtain z where z: "latest h d = Some z" "sm_job z = job" by auto
    from greatest_by_Some [OF z(1) [unfolded latest_def]] z mem job_row [OF assms(1)] have lz: "latest h d = Some row"
      by (metis IntD1 set_sel mem_Collect_eq)
    have "resend_of row a" using eff by (simp add: resend_of_def retry_attempt_def)
    moreover have "terminal_row row" using added(6) False by (auto simp: terminal_row_def)
    moreover have "\<forall>x \<in> set (db_smtp d). same_mail row x \<longrightarrow> \<not> live x \<and> (sm_status x = SUncertain \<longrightarrow> allow)"
      using eff added(5) hs by (auto simp: some_row_iff same_mail_def)
    ultimately show ?thesis using again added(2) hs lz eff smtp by (intro conjI disjI2) auto
  qed
qed

section \<open>Outcomes\<close>

lemma sel_upd_other: "(\<And>x. q x \<Longrightarrow> \<not> p x \<and> \<not> p (f x)) \<Longrightarrow> sel p (upd q f t) = sel p t"
  by (induction t) (auto simp: sel_def)

lemma prior_uncertain_settled:
  assumes "insert_receipt (smtp_receipt e sha res a h) (settle_job e (sm_job a) token res d) = Inr d2"
  shows "prior_uncertain a (settle_mail res r h d2) = prior_uncertain a d"
proof -
  let ?p = "\<lambda>x. sm_handoff x = sm_handoff a \<and> sm_status x = SUncertain \<and> sm_job x \<noteq> sm_job a"
  let ?d = "settle_mail res r h d2"
  from assms have d2: "db_smtp ?d = db_smtp (settle_job e (sm_job a) token res d)"
      "db_receipts ?d = db_receipts d @ [smtp_receipt e sha res a h]"
    by (auto simp: insert_receipt_def settle_mail_def settle_job_def split: if_splits)
  have rec: "receipt_of_job (sm_job x) ?d = receipt_of_job (sm_job x) d" if "sm_job x \<noteq> sm_job a" for x
  proof (cases "sel1 (\<lambda>r. rc_id r = ''smtp-'' @ sm_job x) (db_receipts d)")
    case None
    then have "sel1 (\<lambda>r. rc_id r = ''smtp-'' @ sm_job x) (db_receipts d @ [smtp_receipt e sha res a h]) = None"
      using that by (auto simp: sel1_None smtp_receipt_def Let_def)
    with None show ?thesis unfolding receipt_of_job_def d2(2) by simp
  next
    case (Some y)
    then show ?thesis by (simp add: receipt_of_job_def d2(2) sel1_append_old)
  qed
  have "(?p x \<and> receipt_of_job (sm_job x) ?d \<noteq> None) = (?p x \<and> receipt_of_job (sm_job x) d \<noteq> None)" for x
    by (cases "sm_job x = sm_job a") (simp_all add: rec)
  then have "sel (\<lambda>x. ?p x \<and> receipt_of_job (sm_job x) ?d \<noteq> None) (db_smtp ?d)
      = sel (\<lambda>x. ?p x \<and> receipt_of_job (sm_job x) d \<noteq> None) (db_smtp ?d)" unfolding sel_def by (rule filter_cong [OF refl])
  also have "\<dots> = sel (\<lambda>x. ?p x \<and> receipt_of_job (sm_job x) d \<noteq> None) (db_smtp d)"
    unfolding d2(1) settle_job_def by (simp del: not_None_eq) (rule sel_upd_other, auto simp: finished_by_def)
  finally have rows: "sel (\<lambda>x. ?p x \<and> receipt_of_job (sm_job x) ?d \<noteq> None) (db_smtp ?d)
      = sel (\<lambda>x. ?p x \<and> receipt_of_job (sm_job x) d \<noteq> None) (db_smtp d)" .
  show ?thesis
  proof (cases "greatest_by sm_attempt (sel (\<lambda>x. ?p x \<and> receipt_of_job (sm_job x) d \<noteq> None) (db_smtp d))")
    case None
    then show ?thesis unfolding prior_uncertain_def last_receipt_def rows by simp
  next
    case (Some y)
    from greatest_by_Some [OF Some] have "sm_job y \<noteq> sm_job a" by auto
    from rec [OF this] Some show ?thesis unfolding prior_uncertain_def last_receipt_def rows by simp
  qed
qed

definition settled_run :: "env \<Rightarrow> smtp_result \<Rightarrow> smtp_row \<Rightarrow> handoff_row \<Rightarrow> db \<Rightarrow> run_row \<Rightarrow> run_row" where
  "settled_run e res a h d x = (if run_id x = ho_run h \<and> run_status x \<in> {AwaitingReceipt, Running}
     then x\<lparr>run_status := run_outcome res a (prior_uncertain a d) (cancel_requested (ho_run h) d), run_phase := PhFinalize,
       run_finished := Some (now e), run_error := rs_error res\<rparr> else x)"

lemma settle_run_effect:
  assumes "settle_run e sha res a h d = Inr d'"
  shows "db_runs d' = map (settled_run e res a h d) (db_runs d)"
    and "db_handoffs d' = (case (if rs_status res = SFailed then prior_uncertain a d else None) of None \<Rightarrow> db_handoffs d
      | Some r \<Rightarrow> upd (\<lambda>x. Some (ho_id x) = sm_handoff a)
          (uncertain_handoff r ''Previous SMTP attempt remains uncertain; latest retry failed'') (db_handoffs d))"
    and "db_receipts d' = db_receipts d"
    and "rs_status res = SAccepted \<or> db_reported d' = db_reported d"
  using assms
  by (auto simp: settle_run_def and_then_Inr Let_def upd_def settled_run_def cong: map_cong
    dest!: commit_reported_frame split: if_splits option.splits)

text \<open>What the end of an attempt of a research mail means: the receipt it returns is stored; the
  handoff takes the attempt's status with this receipt as verified local evidence, except that a
  failed retry after an uncertain attempt leaves the mail uncertain; the run that awaited it
  succeeds exactly for an acceptance, needs attention if anything about the mail is uncertain, is
  cancelled if it was to be and no DATA was sent, and fails otherwise, while no other run changes;
  and dedupe evidence is recorded only for an acceptance after the DATA phase.\<close>

theorem finish_outcome:
  assumes "finish e sha fresh job token res None d = Inr (Some r, d')" "find_job job d = Some a" "sm_handoff a = Some i"
    and "find_handoff i d = Some h" "ho_type h \<noteq> ''system_alert''"
  shows "r \<in> set (db_receipts d') \<and> rc_status r = smtp_text (rs_status res) \<and> rc_handoff r = i
    \<and> (\<exists>x. find_handoff i d' = Some x \<and> ho_trust x = Some ''verified_local_smtp''
         \<and> (if rs_status res = SFailed \<and> prior_uncertain a d \<noteq> None then ho_status x = ''uncertain''
            else ho_status x = smtp_text (rs_status res) \<and> ho_receipt x = Some (rc_id r)))
    \<and> db_runs d' = map (settled_run e res a h d) (db_runs d)
    \<and> (db_reported d' = db_reported d \<or> rs_status res = SAccepted \<and> sm_phase a = DataStarted)"
  using assms(1)
proof (cases rule: finish_cases)
  case (bare a')
  then show ?thesis by simp
next
  case (mail a' h' d2 d4)
  from mail(1) assms(2) have a': "a' = a" and g: "finish_guard res token (Some a) = Inr a" by (auto simp: finish_guard_Inr)
  have "find_handoff i (settle_job e job token res d) = find_handoff i d" by (simp add: find_handoff_def settle_job_def)
  with mail(3) a' assms(3,4) have h': "h' = h" by simp
  have job: "sm_job a = job" using find_job_mem [OF assms(2)] by simp
  from find_handoff_mem [OF assms(4)] have hi: "ho_id h = i" by simp
  let ?r = "smtp_receipt e sha res a h" and ?d3 = "settle_mail res r h d2"
  have r: "r = ?r" using mail(4) a' h' by simp
  from mail(5) a' h' have i: "insert_receipt ?r (settle_job e job token res d) = Inr d2" by simp
  from mail(6) a' h' r assms(5) have s: "settle_run e sha res a h ?d3 = Inr d4" by simp
  from mail(7) a' h' have d': "d' = settle_audit e job res a h d4" by (simp add: after_settle_def)
  from i have d2: "db_receipts d2 = db_receipts d @ [?r]" "db_handoffs d2 = db_handoffs d" "db_runs d2 = db_runs d"
      "db_reported d2 = db_reported d" "db_controls d2 = db_controls d"
    by (auto simp: insert_receipt_def settle_job_def split: if_splits)
  have pu: "prior_uncertain a ?d3 = prior_uncertain a d" using prior_uncertain_settled [of e sha res a h token d d2 r] i job by simp
  have ca: "cancel_requested (ho_run h) ?d3 = cancel_requested (ho_run h) d"
    using d2(5) by (simp add: cancel_requested_def ctl_of_def settle_mail_def)
  have fr: "db_receipts d' = db_receipts d4" "db_handoffs d' = db_handoffs d4" "db_runs d' = db_runs d4" "db_reported d' = db_reported d4"
    by (simp_all add: d' settle_audit_def)
  note eff = settle_run_effect [OF s]
  have "settled_run e res a h ?d3 = settled_run e res a h d" by (rule ext) (simp only: settled_run_def pu ca)
  moreover have "db_runs ?d3 = db_runs d" by (simp add: settle_mail_def d2(3))
  ultimately have runs: "db_runs d' = map (settled_run e res a h d) (db_runs d)" using eff(1) fr by simp
  have rcv: "r \<in> set (db_receipts d')" using eff(3) fr d2(1) by (simp add: r settle_mail_def)
  have rst: "rc_status r = smtp_text (rs_status res)" "rc_handoff r = i" by (simp_all add: r smtp_receipt_def Let_def hi)
  let ?u = "\<lambda>y. uncertain_handoff y ''Previous SMTP attempt remains uncertain; latest retry failed''"
  have "find_handoff i ?d3 = Some (settled_handoff res r h)"
    using assms(4) sel1_upd_same [of "\<lambda>x. ho_id x = i" "settled_handoff res r" "\<lambda>x. ho_id x = ho_id h" "db_handoffs d"]
    by (simp add: find_handoff_def settle_mail_def d2(2) settled_handoff_def hi)
  then have "\<exists>x. find_handoff i d' = Some x \<and> ho_trust x = Some ''verified_local_smtp''
         \<and> (if rs_status res = SFailed \<and> prior_uncertain a d \<noteq> None then ho_status x = ''uncertain''
            else ho_status x = smtp_text (rs_status res) \<and> ho_receipt x = Some (rc_id r))"
    using sel1_upd_same [of "\<lambda>x. ho_id x = i" "?u y" "\<lambda>x. ho_id x = i" "db_handoffs ?d3" for y]
    by (auto simp: find_handoff_def fr eff(2) pu assms(3) settled_handoff_def uncertain_handoff_def hi rst split: option.splits)
  moreover have "db_reported d' = db_reported d \<or> rs_status res = SAccepted \<and> sm_phase a = DataStarted"
    using eff(4) fr d2(4) g by (auto simp: settle_mail_def finish_guard_Inr)
  ultimately show ?thesis using runs rcv rst by blast
qed

section \<open>An example mail\<close>

text \<open>The research mail of a run that awaits its receipt: queued, and with its DATA phase started.\<close>

definition mail_db :: db where
  "mail_db = sample_db\<lparr>db_runs := [(sample_run ''r1'' ''t1'')\<lparr>run_status := AwaitingReceipt, run_attempt := 1\<rparr>],
     db_handoffs := [sample_handoff\<lparr>ho_status := ''queued''\<rparr>],
     db_smtp := [first_attempt sample_env (\<lambda>s. ''q'') ''j1'' (Some ''h1'') ''m1'' ''body'' [] ''c1'']\<rparr>"

definition sent_ops :: "(env \<times> smtp_op) list" where
  "sent_ops = [(sample_env, OpClaim ''tok'' 7 ''j1'' False), (sample_env, OpData ''j1'' ''tok'' True)]"

definition accepted_result :: smtp_result where
  "accepted_result = \<lparr>rs_status = SAccepted, rs_error = None, rs_reply = Some ''250'', rs_code = None, rs_retryable = False,
     rs_diagnostics = None\<rparr>"

definition failed_result :: smtp_result where
  "failed_result = accepted_result\<lparr>rs_status := SFailed, rs_error := Some ''busy'', rs_retryable := True\<rparr>"

definition sample_policy :: retry_policy where
  "sample_policy = \<lparr>rp_auto = True, rp_max = 4, rp_base = 1800, rp_expiry = 86400\<rparr>"

abbreviation quiet_sha :: "string \<Rightarrow> string" where "quiet_sha \<equiv> (\<lambda>s. ''q'')"

definition claimed_db :: db where
  "claimed_db = mail_db\<lparr>db_smtp := map (claimed_by ''tok'' 7 150) (db_smtp mail_db)\<rparr>"

definition data_db :: db where
  "data_db = mail_db\<lparr>db_smtp := map (\<lambda>a. (claimed_by ''tok'' 7 150 a)\<lparr>sm_phase := DataStarted\<rparr>) (db_smtp mail_db)\<rparr>"

definition failed_db :: db where
  "failed_db = mail_db\<lparr>db_smtp := map (finished_by failed_result 150) (db_smtp mail_db),
     db_handoffs := [sample_handoff\<lparr>ho_status := ''failed''\<rparr>],
     db_runs := [(sample_run ''r1'' ''t1'')\<lparr>run_status := Failed, run_attempt := 1\<rparr>]\<rparr>"

lemma mail_queue_ok: "queue_ok (db_smtp mail_db)" "queue_ok (db_smtp claimed_db)" "queue_ok (db_smtp data_db)" "queue_ok (db_smtp failed_db)"
  by code_simp+

theorem queue_refinement_witness:
  "queue_step\<^sup>*\<^sup>* (db_smtp mail_db) (db_smtp (commit (smtp_step quiet_sha (sample_env, OpClaim ''tok'' 7 ''j1'' False)) mail_db))"
  by (rule queue_refinement [OF mail_queue_ok(1)])

theorem smtp_history_witness: "queue_ok (db_smtp (exec (smtp_step quiet_sha) sent_ops mail_db))"
  using smtp_history [OF mail_queue_ok(1)] by blast

definition accepted_row :: smtp_row where
  "accepted_row = finished_by accepted_result 150 (hd (db_smtp data_db))"

theorem accepted_mail_is_not_resent_witness:
  "accepted_row \<in> set (db_smtp (exec (smtp_step quiet_sha)
     ([(sample_env, OpFinish [] ''j1'' (Some ''tok'') accepted_result None)] @ [(sample_env, OpRetry ''j2'' ''j1'' ''k'' [] ''c1'' True)]) data_db))"
proof -
  have "accepted_row \<in> set (db_smtp (exec (smtp_step quiet_sha)
     [(sample_env, OpFinish [] ''j1'' (Some ''tok'') accepted_result None)] data_db))" by code_simp
  moreover have "sm_status accepted_row = SAccepted" "sm_handoff accepted_row \<noteq> None" by code_simp+
  ultimately show ?thesis using accepted_mail_is_not_resent [OF mail_queue_ok(3)] by blast
qed

theorem data_needs_permission_witness:
  "\<exists>d' h t. start_data sample_env quiet_sha ''j1'' ''tok'' True claimed_db = Inr ((), d') \<and> find_handoff ''h1'' claimed_db = Some h
     \<and> find_task (ho_task h) claimed_db = Some t \<and> task_mode t = MHandoff"
proof -
  have "\<not> isl (start_data sample_env quiet_sha ''j1'' ''tok'' True claimed_db)" by code_simp
  then obtain u d' where s: "start_data sample_env quiet_sha ''j1'' ''tok'' True claimed_db = Inr (u, d')" by (auto dest!: not_isl)
  obtain a where a: "find_job ''j1'' claimed_db = Some a" "sm_handoff a = Some ''h1''"
    by (simp add: find_job_def claimed_db_def mail_db_def first_attempt_def claimed_by_def)
  have ne: "''h1'' \<noteq> []" by simp
  from data_needs_permission [OF s a ne] obtain h t where "find_handoff ''h1'' claimed_db = Some h"
    "find_task (ho_task h) claimed_db = Some t" "task_mode t = MHandoff" by (elim exE conjE)
  with s show ?thesis by auto
qed

text \<open>The stages of a failed attempt that is retried, evaluated one by one.\<close>

definition retried_row :: smtp_row where "retried_row = hd (db_smtp claimed_db)"
definition retried_mail :: handoff_row where "retried_mail = hd (db_handoffs claimed_db)"

definition retried_receipt :: receipt_row where
  "retried_receipt = smtp_receipt sample_env quiet_sha failed_result retried_row retried_mail"

definition retried_2 :: db where
  "retried_2 = projr (insert_receipt retried_receipt (settle_job sample_env ''j1'' (Some ''tok'') failed_result claimed_db))"

definition retried_4 :: db where
  "retried_4 = projr (settle_run sample_env quiet_sha failed_result retried_row retried_mail (settle_mail failed_result retried_receipt retried_mail retried_2))"

definition retried_6 :: db where
  "retried_6 = projr (after_settle sample_env quiet_sha ''j2'' failed_result (Some sample_policy) retried_row retried_mail
     (settle_audit sample_env ''j1'' failed_result retried_row retried_mail retried_4))"

lemma projr_Inr: "\<not> isl m \<Longrightarrow> m = Inr (projr m)"
  by (cases m) auto

lemma retried_finish:
  "finish sample_env quiet_sha ''j2'' ''j1'' (Some ''tok'') failed_result (Some sample_policy) claimed_db = Inr (Some retried_receipt, retried_6)"
proof -
  have g: "finish_guard failed_result (Some ''tok'') (find_job ''j1'' claimed_db) = Inr retried_row" by code_simp
  have h: "default [] (sm_handoff retried_row) = ''h1''" "''h1'' \<noteq> []"
    "find_handoff ''h1'' (settle_job sample_env ''j1'' (Some ''tok'') failed_result claimed_db) = Some retried_mail"
    "ho_type retried_mail \<noteq> ''system_alert''" by code_simp+
  have "insert_receipt retried_receipt (settle_job sample_env ''j1'' (Some ''tok'') failed_result claimed_db) = Inr retried_2"
    unfolding retried_2_def by (rule projr_Inr) code_simp
  moreover have "settle_run sample_env quiet_sha failed_result retried_row retried_mail (settle_mail failed_result retried_receipt retried_mail retried_2)
      = Inr retried_4"
    unfolding retried_4_def by (rule projr_Inr) code_simp
  moreover have "after_settle sample_env quiet_sha ''j2'' failed_result (Some sample_policy) retried_row retried_mail
     (settle_audit sample_env ''j1'' failed_result retried_row retried_mail retried_4) = Inr retried_6"
    unfolding retried_6_def by (rule projr_Inr) code_simp
  ultimately show ?thesis
    using g h by (simp add: finish_def Let_def retried_receipt_def [symmetric])
qed

theorem auto_retry_bounded_witness:
  "\<exists>r d' b. finish sample_env quiet_sha ''j2'' ''j1'' (Some ''tok'') failed_result (Some sample_policy) claimed_db = Inr (r, d')
     \<and> b \<in> set (db_smtp d') \<and> sm_job b = ''j2'' \<and> sm_attempt b \<le> 4"
proof -
  have "list_ex (\<lambda>b. sm_job b = ''j2'') (db_smtp retried_6)" by code_simp
  then obtain b where b: "b \<in> set (db_smtp retried_6)" "sm_job b = ''j2''" by (auto simp: list_ex_iff)
  have "\<not> list_ex (\<lambda>b. sm_job b = ''j2'') (db_smtp claimed_db)" by code_simp
  with b(2) have new: "sm_job b \<notin> sm_job ` set (db_smtp claimed_db)" by (auto simp: list_ex_iff)
  have "rp_max sample_policy = 4" by (simp add: sample_policy_def)
  with auto_retry_bounded [OF mail_queue_ok(2) retried_finish b(1) new] have "sm_attempt b \<le> 4" by auto
  with b retried_finish show ?thesis by blast
qed

theorem recovery_settles_abandoned_witness:
  "map sm_status (db_smtp (snd (recover_interrupted sample_env quiet_sha (\<lambda>p. True) data_db))) = [SUncertain]"
proof -
  let ?m = "recover_interrupted sample_env quiet_sha (\<lambda>p. True) data_db"
  have inr: "\<not> isl (fst ?m)" by code_simp
  obtain m d' where p: "?m = (m, d')" by (cases ?m)
  from recovery_settles_abandoned [OF mail_queue_ok(3) p] inr p
  have "db_smtp d' = settled_by_recovery (\<lambda>p. True) 150 (db_smtp data_db)" by (auto simp: sample_env_def split: sum.splits)
  moreover have "map sm_status (settled_by_recovery (\<lambda>p. True) 150 (db_smtp data_db)) = [SUncertain]" by code_simp
  ultimately show ?thesis using p by simp
qed

theorem retry_is_acknowledged_witness:
  "\<exists>a d'. retry sample_env quiet_sha ''j2'' ''j1'' ''k'' [] ''c1'' False failed_db = Inr (a, d')
     \<and> retry sample_env quiet_sha ''j3'' ''j1'' ''k'' [] ''c1'' False d' = Inr (a, d')"
proof -
  have "\<not> isl (retry sample_env quiet_sha ''j2'' ''j1'' ''k'' [] ''c1'' False failed_db)" by code_simp
  then obtain a d' where s: "retry sample_env quiet_sha ''j2'' ''j1'' ''k'' [] ''c1'' False failed_db = Inr (a, d')"
    by (auto dest!: not_isl)
  from retry_is_acknowledged [OF mail_queue_ok(4) s] s show ?thesis by blast
qed

theorem finish_outcome_witness:
  "\<exists>r d' x. finish sample_env quiet_sha [] ''j1'' (Some ''tok'') accepted_result None data_db = Inr (Some r, d')
     \<and> find_handoff ''h1'' d' = Some x \<and> ho_status x = ''smtp_accepted''"
proof -
  let ?m = "finish sample_env quiet_sha [] ''j1'' (Some ''tok'') accepted_result None data_db"
  have "(case ?m of Inl e \<Rightarrow> False | Inr (r, d') \<Rightarrow> r \<noteq> None)" by code_simp
  then obtain r d' where m: "?m = Inr (Some r, d')" by (auto split: sum.splits)
  obtain a where a: "find_job ''j1'' data_db = Some a" "sm_handoff a = Some ''h1''"
    by (simp add: find_job_def data_db_def mail_db_def first_attempt_def claimed_by_def)
  obtain h where h: "find_handoff ''h1'' data_db = Some h" "ho_type h \<noteq> ''system_alert''"
    by (simp add: find_handoff_def data_db_def mail_db_def sample_handoff_def)
  from finish_outcome [OF m a h] m show ?thesis by (auto simp: accepted_result_def)
qed

end
