(* ===== verification/Auth_Service.thy ===== *)
theory Auth_Service imports Authorization begin

text \<open>
  \<open>services/auth_service.py\<close>: web accounts, sessions, login limits and task-scoped access.
  Values that come from a request are JSON values, because the code checks their types. The
  clock is read as \<open>now\<close>; \<open>scrypt\<close> and SHA-256 are parameters, random tokens, salts and
  identifiers are arguments, and so is the number of password derivations running in other
  threads. An operation that derives a password between two transactions takes what the other
  requests commit meanwhile as a function on the state; it returns its result beside the state,
  because the transactions before an error stay committed.
\<close>

section \<open>Accounts, sessions and limits\<close>

datatype role = Admin | User | Viewer

fun role_text :: "role \<Rightarrow> string" where
  "role_text Admin = ''admin''"
| "role_text User = ''user''"
| "role_text Viewer = ''viewer''"

definition role_of :: "json \<Rightarrow> role option" where
  "role_of v = (if v = JStr ''admin'' then Some Admin else if v = JStr ''user'' then Some User
     else if v = JStr ''viewer'' then Some Viewer else None)"

datatype session_kind = PreAuth | Authenticated

record account =
  ac_id :: string
  ac_username :: string
  ac_name :: string
  ac_hash :: string
  ac_role :: role
  ac_active :: bool
  ac_must_change :: bool
  ac_revision :: int
  ac_created :: int
  ac_updated :: int

record session_row =
  se_hash :: string
  se_user :: "string option"
  se_kind :: session_kind
  se_csrf :: string
  se_created :: int
  se_seen :: int
  se_expires :: int
  se_revision :: "int option"

record attempt_row =
  at_key :: string
  at_window :: int
  at_count :: int

record principal =
  pr_id :: string
  pr_username :: string
  pr_name :: string
  pr_role :: role
  pr_must_change :: bool

record browser_session =
  bs_principal :: "principal option"
  bs_digest :: string
  bs_csrf :: string
  bs_kind :: session_kind
  bs_created :: int
  bs_seen :: int
  bs_expires :: int

record grant =
  gr_token :: string
  gr_session :: browser_session

text \<open>The tables of the service beside the rest of the database. \<open>db_user_ids\<close> of the
  database holds the keys of the accounts, for the foreign keys of its tables.\<close>

record auth =
  au_users :: "account list"
  au_sessions :: "session_row list"
  au_setup :: "(string \<times> int) option"
  au_attempts :: "attempt_row list"
  au_grants :: "(string \<times> string) list"
  au_store :: db

type_synonym others = "auth \<Rightarrow> auth"

definition transact :: "(auth \<Rightarrow> ('r \<times> auth) res) \<Rightarrow> auth \<Rightarrow> 'r res \<times> auth" where
  "transact f s = (case f s of Inl e \<Rightarrow> (Inl e, s) | Inr (r, s') \<Rightarrow> (Inr r, s'))"

text \<open>A span of seconds in the microseconds of the clock.\<close>

definition secs :: "int \<Rightarrow> int" where "secs n = n * 1000000"

definition SESSION_IDLE_SECONDS :: int where "SESSION_IDLE_SECONDS = 2 * 60 * 60"
definition SESSION_ABSOLUTE_SECONDS :: int where "SESSION_ABSOLUTE_SECONDS = 12 * 60 * 60"
definition PREAUTH_SECONDS :: int where "PREAUTH_SECONDS = 15 * 60"
definition BOOTSTRAP_SECONDS :: int where "BOOTSTRAP_SECONDS = 30 * 60"
definition LOGIN_WINDOW_SECONDS :: int where "LOGIN_WINDOW_SECONDS = 5 * 60"
definition LOGIN_ACCOUNT_LIMIT :: int where "LOGIN_ACCOUNT_LIMIT = 10"
definition LOGIN_GLOBAL_LIMIT :: int where "LOGIN_GLOBAL_LIMIT = 60"
definition PASSWORD_SLOTS :: nat where "PASSWORD_SLOTS = 2"
definition PREAUTH_LIMIT :: nat where "PREAUTH_LIMIT = 1000"

section \<open>Bytes\<close>

definition utf8 :: "string \<Rightarrow> string" where
  "utf8 s = concat (map (\<lambda>c. let n = of_char c :: nat in
     if n < 128 then [c] else [char_of (192 + n div 64), char_of (128 + n mod 64)]) s)"

definition B64 :: string where
  "B64 = ''ABCDEFGHIJKLMNOPQRSTUVWXYZabcdefghijklmnopqrstuvwxyz0123456789+/''"

definition b64_char :: "nat \<Rightarrow> char" where "b64_char v = B64 ! v"

fun index_of :: "'a \<Rightarrow> 'a list \<Rightarrow> nat option" where
  "index_of x [] = None"
| "index_of x (y # ys) = (if x = y then Some 0 else map_option Suc (index_of x ys))"

definition b64_val :: "char \<Rightarrow> nat option" where "b64_val c = index_of c B64"

fun b64encode :: "string \<Rightarrow> string" where
  "b64encode [] = []"
| "b64encode [a] = (let x = of_char a :: nat in
     [b64_char (x div 4), b64_char (x mod 4 * 16), CHR ''='', CHR ''=''])"
| "b64encode [a, b] = (let x = of_char a :: nat; y = of_char b :: nat in
     [b64_char (x div 4), b64_char (x mod 4 * 16 + y div 16), b64_char (y mod 16 * 4), CHR ''=''])"
| "b64encode (a # b # c # s) = (let x = of_char a :: nat; y = of_char b :: nat; z = of_char c :: nat in
     b64_char (x div 4) # b64_char (x mod 4 * 16 + y div 16) # b64_char (y mod 16 * 4 + z div 64)
       # b64_char (z mod 64) # b64encode s)"

text \<open>\<open>base64.b64decode(text, validate=True)\<close>: groups of four, padding only at the end.\<close>

fun b64decode :: "string \<Rightarrow> string option" where
  "b64decode [] = Some []"
| "b64decode (p # q # r # t # s) = (case (b64_val p, b64_val q) of (Some x, Some y) \<Rightarrow>
     if r = CHR ''='' then (if t = CHR ''='' \<and> s = [] then Some [char_of (x * 4 + y div 16)] else None)
     else (case b64_val r of None \<Rightarrow> None | Some z \<Rightarrow>
       if t = CHR ''='' then (if s = [] then Some [char_of (x * 4 + y div 16), char_of (y mod 16 * 16 + z div 4)] else None)
       else (case (b64_val t, b64decode s) of (Some w, Some rest) \<Rightarrow>
           Some (char_of (x * 4 + y div 16) # char_of (y mod 16 * 16 + z div 4) # char_of (z mod 4 * 64 + w) # rest)
         | _ \<Rightarrow> None)) | _ \<Rightarrow> None)"
| "b64decode _ = None"

section \<open>Passwords and names\<close>

type_synonym kdf = "string \<Rightarrow> string \<Rightarrow> string"

definition validate_password :: "json \<Rightarrow> string res" where
  "validate_password v = (case v of
     JStr p \<Rightarrow> if length p < 15 \<or> 128 < length p then Inl (ValidationError ''password length'')
       else if CHR 0x00 \<in> set p then Inl (ValidationError ''password character'')
       else Inr (utf8 p)
   | _ \<Rightarrow> Inl (ValidationError ''password length''))"

definition derive :: "kdf \<Rightarrow> nat \<Rightarrow> string \<Rightarrow> string \<Rightarrow> string res" where
  "derive kdf busy password salt =
     (if PASSWORD_SLOTS \<le> busy then Inl (AuthRateLimitError ''password slots'') else Inr (kdf password salt))"

definition hash_password :: "kdf \<Rightarrow> nat \<Rightarrow> string \<Rightarrow> json \<Rightarrow> string res" where
  "hash_password kdf busy salt password =
     and_then (validate_password password) (\<lambda>value.
     and_then (derive kdf busy value salt) (\<lambda>derived.
       Inr (''scrypt$131072$8$1$'' @ b64encode salt @ ''$'' @ b64encode derived)))"

text \<open>The salt and digest of a stored credential, when it has the one supported form.\<close>

definition stored_credential :: "string option \<Rightarrow> (string \<times> string) option" where
  "stored_credential encoded = (case split_on CHR ''$'' (default [] encoded) of
     [algorithm, n, r, p, salt_text, digest_text] \<Rightarrow>
       if algorithm \<noteq> ''scrypt'' \<or> n \<noteq> ''131072'' \<or> r \<noteq> ''8'' \<or> p \<noteq> ''1'' then None
       else (case (b64decode salt_text, b64decode digest_text) of
         (Some salt, Some expected) \<Rightarrow> if length salt \<noteq> 16 \<or> length expected \<noteq> 64 then None else Some (salt, expected)
       | _ \<Rightarrow> None)
   | _ \<Rightarrow> None)"

definition verify_password :: "kdf \<Rightarrow> nat \<Rightarrow> string option \<Rightarrow> json \<Rightarrow> bool res" where
  "verify_password kdf busy encoded password =
    (let (candidate, ok) = (case validate_password password of Inr v \<Rightarrow> (v, True)
           | Inl _ \<Rightarrow> (''invalid-password-placeholder'', False));
         (salt, expected, valid) = (case stored_credential encoded of Some (a, b) \<Rightarrow> (a, b, ok)
           | None \<Rightarrow> (replicate 16 CHR 0x00, replicate 64 CHR 0x00, False))
     in and_then (derive kdf busy candidate salt) (\<lambda>derived. Inr (derived = expected \<and> valid)))"

definition username_char :: "char \<Rightarrow> bool" where
  "username_char c = (let n = of_char c :: nat in (48 \<le> n \<and> n \<le> 57) \<or> (97 \<le> n \<and> n \<le> 122))"

definition username_ok :: "string \<Rightarrow> bool" where
  "username_ok s = (3 \<le> length s \<and> length s \<le> 64 \<and> username_char (hd s)
     \<and> list_all (\<lambda>c. username_char c \<or> c \<in> set ''_.-'') s)"

definition normalized :: "json \<Rightarrow> string" where
  "normalized v = (case v of JStr s \<Rightarrow> lower (strip s) | _ \<Rightarrow> [])"

definition username :: "json \<Rightarrow> string res" where
  "username v = (if is_str v \<and> username_ok (normalized v) then Inr (normalized v)
     else Inl (ValidationError ''username''))"

definition display_name :: "json \<Rightarrow> string \<Rightarrow> string res" where
  "display_name v fallback =
    (let given = (case v of JStr s \<Rightarrow> strip s | _ \<Rightarrow> []); name = (if given = [] then fallback else given)
     in if 80 < length name \<or> list_ex control_char name then Inl (ValidationError ''display name'') else Inr name)"

definition token_char :: "char \<Rightarrow> bool" where
  "token_char c = (alnum c \<or> c = CHR ''_'' \<or> c = CHR ''-'')"

definition is_token :: "json \<Rightarrow> string option" where
  "is_token v = (case v of JStr s \<Rightarrow> if length s = 43 \<and> list_all token_char s then Some s else None | _ \<Rightarrow> None)"

definition principal_of :: "account \<Rightarrow> principal" where
  "principal_of a = \<lparr>pr_id = ac_id a, pr_username = ac_username a, pr_name = ac_name a, pr_role = ac_role a,
     pr_must_change = ac_must_change a\<rparr>"

definition is_admin :: "principal \<Rightarrow> bool" where
  "is_admin p = (pr_role p = Admin \<and> \<not> pr_must_change p)"

definition user_actor :: "string \<Rightarrow> string" where "user_actor u = ''user:'' @ u"

definition find_user :: "string \<Rightarrow> auth \<Rightarrow> account option" where
  "find_user u s = sel1 (\<lambda>a. ac_id a = u) (au_users s)"

definition find_username :: "string \<Rightarrow> auth \<Rightarrow> account option" where
  "find_username n s = sel1 (\<lambda>a. ac_username a = n) (au_users s)"

definition initialized :: "auth \<Rightarrow> bool" where "initialized s = (au_users s \<noteq> [])"

definition auth_audit :: "env \<Rightarrow> string \<Rightarrow> string \<Rightarrow> string \<Rightarrow> dict \<Rightarrow> auth \<Rightarrow> auth" where
  "auth_audit e actor typ user details s =
     s\<lparr>au_store := audit e ''user'' user typ details actor (isoformat (now e)) (au_store s)\<rparr>"

section \<open>Sessions\<close>

text \<open>A row of \<open>auth_sessions\<close> is dead after its end, or, for an account, after an idle span.\<close>

definition dead_session :: "int \<Rightarrow> session_row \<Rightarrow> bool" where
  "dead_session t x = (se_expires x \<le> t \<or> se_kind x = Authenticated \<and> se_seen x \<le> t - secs SESSION_IDLE_SECONDS)"

definition session_for :: "env \<Rightarrow> (string \<Rightarrow> string) \<Rightarrow> string \<times> string \<Rightarrow> account option \<Rightarrow> session_row" where
  "session_for e sha fresh user = \<lparr>se_hash = sha (fst fresh), se_user = map_option ac_id user,
     se_kind = (if user = None then PreAuth else Authenticated), se_csrf = snd fresh, se_created = now e, se_seen = now e,
     se_expires = now e + secs (if user = None then PREAUTH_SECONDS else SESSION_ABSOLUTE_SECONDS),
     se_revision = map_option ac_revision user\<rparr>"

definition browser_of :: "principal option \<Rightarrow> session_row \<Rightarrow> browser_session" where
  "browser_of p x = \<lparr>bs_principal = p, bs_digest = se_hash x, bs_csrf = se_csrf x, bs_kind = se_kind x,
     bs_created = se_created x, bs_seen = se_seen x, bs_expires = se_expires x\<rparr>"

definition new_session :: "env \<Rightarrow> (string \<Rightarrow> string) \<Rightarrow> string \<times> string \<Rightarrow> account option \<Rightarrow> auth \<Rightarrow> (grant \<times> auth) res" where
  "new_session e sha fresh user s =
    (let row = session_for e sha fresh user; kept = del (dead_session (now e)) (au_sessions s)
     in if user = None \<and> PREAUTH_LIMIT \<le> count_rows (\<lambda>x. se_kind x = PreAuth) kept
        then Inl (AuthRateLimitError ''preauth sessions'')
        else and_then (ins ''auth_sessions'' se_hash row kept) (\<lambda>t.
          Inr (\<lparr>gr_token = fst fresh, gr_session = browser_of (map_option principal_of user) row\<rparr>, s\<lparr>au_sessions := t\<rparr>)))"

definition new_preauth_session :: "env \<Rightarrow> (string \<Rightarrow> string) \<Rightarrow> string \<times> string \<Rightarrow> auth \<Rightarrow> (grant \<times> auth) res" where
  "new_preauth_session e sha fresh s = new_session e sha fresh None s"

definition session_owner :: "session_row \<Rightarrow> auth \<Rightarrow> account option" where
  "session_owner x s = (case se_user x of None \<Rightarrow> None | Some u \<Rightarrow> (case find_user u s of None \<Rightarrow> None
     | Some a \<Rightarrow> if ac_active a \<and> Some (ac_revision a) = se_revision x then Some a else None))"

text \<open>The row and account a token stands for at a moment.\<close>

definition session_at :: "env \<Rightarrow> (string \<Rightarrow> string) \<Rightarrow> string \<Rightarrow> auth \<Rightarrow> (session_row \<times> account option) option" where
  "session_at e sha token s = (case sel1 (\<lambda>x. se_hash x = sha token) (au_sessions s) of
     None \<Rightarrow> None
   | Some x \<Rightarrow> if se_expires x \<le> now e then None
     else if se_kind x \<noteq> Authenticated then Some (x, None)
     else if se_seen x + secs SESSION_IDLE_SECONDS \<le> now e then None
     else (case session_owner x s of None \<Rightarrow> None | Some a \<Rightarrow> Some (x, Some a)))"

definition touchable :: "env \<Rightarrow> string \<Rightarrow> auth \<Rightarrow> session_row \<Rightarrow> bool" where
  "touchable e digest s x = (se_hash x = digest \<and> now e < se_expires x \<and> now e - secs SESSION_IDLE_SECONDS < se_seen x
     \<and> session_owner x s \<noteq> None)"

definition resolve_session :: "env \<Rightarrow> (string \<Rightarrow> string) \<Rightarrow> json \<Rightarrow> bool \<Rightarrow> others \<Rightarrow> auth \<Rightarrow> browser_session option \<times> auth" where
  "resolve_session e sha raw touch mid s = (case is_token raw of
     None \<Rightarrow> (None, s)
   | Some token \<Rightarrow> (case session_at e sha token s of
       None \<Rightarrow> (None, s)
     | Some (x, None) \<Rightarrow> (Some (browser_of None x), s)
     | Some (x, Some a) \<Rightarrow> if \<not> touch then (Some (browser_of (Some (principal_of a)) x), s)
         else let s1 = mid s in
           if \<not> some_row (touchable e (se_hash x) s1) (au_sessions s1) then (None, s1)
           else (Some (browser_of (Some (principal_of a)) (x\<lparr>se_seen := now e\<rparr>)),
             s1\<lparr>au_sessions := upd (touchable e (se_hash x) s1) (\<lambda>y. y\<lparr>se_seen := now e\<rparr>) (au_sessions s1)\<rparr>)))"

definition logout :: "env \<Rightarrow> (string \<Rightarrow> string) \<Rightarrow> json \<Rightarrow> auth \<Rightarrow> auth" where
  "logout e sha raw s = (case is_token raw of
     None \<Rightarrow> s
   | Some token \<Rightarrow>
       let row = sel1 (\<lambda>x. se_hash x = sha token) (au_sessions s);
           s1 = s\<lparr>au_sessions := del (\<lambda>x. se_hash x = sha token) (au_sessions s)\<rparr>
       in (case row of None \<Rightarrow> s1 | Some x \<Rightarrow> (case se_user x of None \<Rightarrow> s1 | Some u \<Rightarrow>
         if u = [] then s1 else auth_audit e (user_actor u) ''auth_logout'' u [] s1)))"

section \<open>Setup and login\<close>

definition issue_setup_token :: "env \<Rightarrow> (string \<Rightarrow> string) \<Rightarrow> string \<Rightarrow> auth \<Rightarrow> (string \<times> auth) res" where
  "issue_setup_token e sha token s =
     (if initialized s then Inl (ValidationError ''already set up'')
      else Inr (token, auth_audit e ''host-cli'' ''auth_setup_token_issued'' ''bootstrap'' []
        (s\<lparr>au_setup := Some (sha token, now e + secs BOOTSTRAP_SECONDS)\<rparr>)))"

definition account_key :: "(string \<Rightarrow> string) \<Rightarrow> string \<Rightarrow> string" where
  "account_key sha name = ''account:'' @ sha (utf8 name)"

definition live_attempts :: "int \<Rightarrow> attempt_row list \<Rightarrow> attempt_row list" where
  "live_attempts t = del (\<lambda>a. at_window a \<le> t - secs LOGIN_WINDOW_SECONDS)"

definition exhausted :: "string \<Rightarrow> int \<Rightarrow> attempt_row list \<Rightarrow> bool" where
  "exhausted key limit t = (case sel1 (\<lambda>a. at_key a = key) t of None \<Rightarrow> False | Some a \<Rightarrow> limit \<le> at_count a)"

definition bump :: "int \<Rightarrow> string \<Rightarrow> attempt_row list \<Rightarrow> attempt_row list" where
  "bump t key rows = (if some_row (\<lambda>a. at_key a = key) rows
     then upd (\<lambda>a. at_key a = key) (\<lambda>a. a\<lparr>at_count := at_count a + 1\<rparr>) rows
     else rows @ [\<lparr>at_key = key, at_window = t, at_count = 1\<rparr>])"

definition reserve_attempt :: "env \<Rightarrow> (string \<Rightarrow> string) \<Rightarrow> string \<Rightarrow> auth \<Rightarrow> (string \<times> auth) res" where
  "reserve_attempt e sha name s =
    (let key = account_key sha name; rows = live_attempts (now e) (au_attempts s)
     in if exhausted ''global'' LOGIN_GLOBAL_LIMIT rows \<or> exhausted key LOGIN_ACCOUNT_LIMIT rows
        then Inl (AuthRateLimitError ''login attempts'')
        else Inr (key, s\<lparr>au_attempts := bump (now e) key (bump (now e) ''global'' rows)\<rparr>))"

definition setup_token_valid :: "env \<Rightarrow> (string \<Rightarrow> string) \<Rightarrow> json \<Rightarrow> auth \<Rightarrow> string option" where
  "setup_token_valid e sha raw s = (case (is_token raw, au_setup s) of
     (Some token, Some (digest, expires)) \<Rightarrow> if now e < expires \<and> digest = sha token then Some token else None
   | _ \<Rightarrow> None)"

definition new_account :: "env \<Rightarrow> string \<Rightarrow> string \<Rightarrow> string \<Rightarrow> string \<Rightarrow> role \<Rightarrow> bool \<Rightarrow> account" where
  "new_account e user name display encoded r must = \<lparr>ac_id = user, ac_username = name, ac_name = display,
     ac_hash = encoded, ac_role = r, ac_active = True, ac_must_change = must, ac_revision = 1,
     ac_created = now e, ac_updated = now e\<rparr>"

definition insert_account :: "account \<Rightarrow> auth \<Rightarrow> auth res" where
  "insert_account a s = and_then (ins ''auth_users'' ac_id a (au_users s)) (\<lambda>t.
     if some_row (\<lambda>b. ac_username b = ac_username a) (au_users s) then Inl (IntegrityError ''username'')
     else Inr (s\<lparr>au_users := t, au_store := (au_store s)\<lparr>db_user_ids := db_user_ids (au_store s) @ [ac_id a]\<rparr>\<rparr>))"

text \<open>The second transaction of \<open>AuthService.setup\<close>.\<close>

definition setup_commit :: "env \<Rightarrow> (string \<Rightarrow> string) \<Rightarrow> string \<Rightarrow> account \<Rightarrow> string \<times> string \<Rightarrow> auth \<Rightarrow> (grant \<times> auth) res" where
  "setup_commit e sha token a fresh s =
     (if initialized s then Inl (ValidationError ''already set up'')
      else if \<not> (case au_setup s of None \<Rightarrow> False | Some (digest, expires) \<Rightarrow> digest = sha token \<and> now e < expires)
      then Inl (AuthenticationError ''setup token'')
      else and_then (insert_account a (s\<lparr>au_setup := None\<rparr>)) (\<lambda>s1.
        and_then (adopt_unowned (ac_id a) (au_store s1)) (\<lambda>(owner, d).
          new_session e sha fresh (Some a) (auth_audit e (user_actor (ac_id a)) ''auth_initial_admin_created'' (ac_id a) []
            (s1\<lparr>au_store := d\<rparr>)))))"

definition setup_admin :: "env \<Rightarrow> env \<Rightarrow> (string \<Rightarrow> string) \<Rightarrow> kdf \<Rightarrow> nat \<Rightarrow> string \<Rightarrow> string \<Rightarrow> string \<times> string \<Rightarrow>
    json \<Rightarrow> json \<Rightarrow> json \<Rightarrow> json \<Rightarrow> others \<Rightarrow> auth \<Rightarrow> grant res \<times> auth" where
  "setup_admin e e2 sha kdf busy salt user fresh token name password display mid s =
    (case and_then (username name) (\<lambda>n. and_then (display_name display n) (\<lambda>shown. Inr (n, shown))) of
       Inl er \<Rightarrow> (Inl er, s)
     | Inr (n, shown) \<Rightarrow> (case transact (reserve_attempt e sha ''bootstrap'') s of
         (Inl er, s1) \<Rightarrow> (Inl er, s1)
       | (Inr key, s1) \<Rightarrow> (case setup_token_valid e sha token s1 of
           None \<Rightarrow> (Inl (AuthenticationError ''setup token''), s1)
         | Some t \<Rightarrow> (case hash_password kdf busy salt password of
             Inl er \<Rightarrow> (Inl er, s1)
           | Inr encoded \<Rightarrow>
               transact (setup_commit e2 sha t (new_account e2 user n shown encoded Admin False) fresh) (mid s1)))))"

definition login_commit :: "env \<Rightarrow> (string \<Rightarrow> string) \<Rightarrow> account \<Rightarrow> string \<Rightarrow> string \<times> string \<Rightarrow> auth \<Rightarrow> (grant \<times> auth) res" where
  "login_commit e sha user key fresh s = (case find_user (ac_id user) s of
     None \<Rightarrow> Inl (AuthenticationError ''login'')
   | Some current \<Rightarrow> if \<not> ac_active current \<or> ac_revision current \<noteq> ac_revision user then Inl (AuthenticationError ''login'')
     else new_session e sha fresh (Some current) (auth_audit e (user_actor (ac_id current)) ''auth_login'' (ac_id current) []
       (s\<lparr>au_attempts := del (\<lambda>a. at_key a = key) (au_attempts s)\<rparr>)))"

definition login :: "env \<Rightarrow> env \<Rightarrow> (string \<Rightarrow> string) \<Rightarrow> kdf \<Rightarrow> nat \<Rightarrow> string \<times> string \<Rightarrow> json \<Rightarrow> json \<Rightarrow> others \<Rightarrow> auth \<Rightarrow>
    grant res \<times> auth" where
  "login e e2 sha kdf busy fresh name password mid s =
    (case transact (reserve_attempt e sha (take 256 (normalized name))) s of
       (Inl er, s1) \<Rightarrow> (Inl er, s1)
     | (Inr key, s1) \<Rightarrow>
         let user = (if username_ok (normalized name) then find_username (normalized name) s1 else None)
         in (case verify_password kdf busy (map_option ac_hash user) password of
           Inl er \<Rightarrow> (Inl er, mid s1)
         | Inr valid \<Rightarrow> (case user of
             None \<Rightarrow> (Inl (AuthenticationError ''login''), mid s1)
           | Some a \<Rightarrow> if \<not> valid \<or> \<not> ac_active a then (Inl (AuthenticationError ''login''), mid s1)
             else transact (login_commit e2 sha a key fresh) (mid s1))))"

section \<open>Administration of accounts\<close>

text \<open>\<open>_current_user\<close>: a request carries a principal or none; the row is read again.\<close>

definition current_user :: "principal option \<Rightarrow> bool \<Rightarrow> bool \<Rightarrow> auth \<Rightarrow> account res" where
  "current_user p admin allow_change s = (case p of
     None \<Rightarrow> Inl (AuthRequiredError ''login required'')
   | Some q \<Rightarrow> (case find_user (pr_id q) s of
       None \<Rightarrow> Inl (AuthRequiredError ''login again'')
     | Some a \<Rightarrow> if \<not> ac_active a then Inl (AuthRequiredError ''login again'')
       else if \<not> allow_change \<and> ac_must_change a then Inl (AuthorizationError ''change password first'')
       else if admin \<and> ac_role a \<noteq> Admin then Inl (AuthorizationError ''admin required'')
       else Inr a))"

definition require_admin :: "principal option \<Rightarrow> auth \<Rightarrow> principal res" where
  "require_admin p s = and_then (current_user p True False s) (\<lambda>a. Inr (principal_of a))"

definition grant_text :: "json \<Rightarrow> string res" where
  "grant_text v = (case v of
     JStr t \<Rightarrow> if t = [] \<or> 128 < length t then Inl (ValidationError ''task list'') else Inr t
   | _ \<Rightarrow> Inl (ValidationError ''task list''))"

definition grant_ids :: "json \<Rightarrow> auth \<Rightarrow> string list res" where
  "grant_ids v s = (case v of
     JStr t \<Rightarrow> Inl (ValidationError ''task list'')
   | _ \<Rightarrow> (case iter_json v of
       Inl er \<Rightarrow> Inl (ValidationError ''task list'')
     | Inr items \<Rightarrow> if 10000 < length items then Inl (ValidationError ''task list'')
       else and_then (collect grant_text items) (\<lambda>ids.
         let values = sort (remdups ids)
         in if list_all (\<lambda>t. find_task t (au_store s) \<noteq> None) values then Inr values
            else Inl (ValidationError ''existing task''))))"

record user_view =
  uv_id :: string
  uv_username :: string
  uv_name :: string
  uv_role :: role
  uv_active :: bool
  uv_must_change :: bool
  uv_created :: int
  uv_updated :: int
  uv_tasks_owned :: nat
  uv_senders_owned :: nat
  uv_groups_owned :: nat
  uv_tasks :: "string list"

definition owned_count :: "string \<Rightarrow> string \<Rightarrow> auth \<Rightarrow> nat" where
  "owned_count kind user s = count_rows (\<lambda>r. cat_kind r = kind \<and> cat_owner r = Some user) (db_catalog (au_store s))"

definition granted_tasks :: "string \<Rightarrow> auth \<Rightarrow> string list" where
  "granted_tasks user s = sort (map snd (sel (\<lambda>(u, t). u = user) (au_grants s)))"

definition user_view :: "auth \<Rightarrow> account \<Rightarrow> user_view" where
  "user_view s a = \<lparr>uv_id = ac_id a, uv_username = ac_username a, uv_name = ac_name a, uv_role = ac_role a,
     uv_active = ac_active a, uv_must_change = ac_must_change a, uv_created = ac_created a, uv_updated = ac_updated a,
     uv_tasks_owned = owned_count ''task'' (ac_id a) s, uv_senders_owned = owned_count ''sender'' (ac_id a) s,
     uv_groups_owned = owned_count ''recipient_group'' (ac_id a) s, uv_tasks = granted_tasks (ac_id a) s\<rparr>"

definition list_users :: "principal option \<Rightarrow> auth \<Rightarrow> user_view list res" where
  "list_users actor s = and_then (current_user actor True False s) (\<lambda>_.
     Inr (map (user_view s) (sort_key ac_username (au_users s))))"

definition actor_text :: "principal option \<Rightarrow> string" where
  "actor_text p = user_actor (case p of None \<Rightarrow> [] | Some q \<Rightarrow> pr_id q)"

definition found_view :: "string \<Rightarrow> auth \<Rightarrow> (user_view \<times> auth) res" where
  "found_view user s = (case find_user user s of None \<Rightarrow> Inl (TypeError ''row'') | Some a \<Rightarrow> Inr (user_view s a, s))"

text \<open>The second transaction of \<open>create_user\<close>.\<close>

definition create_commit :: "env \<Rightarrow> principal option \<Rightarrow> account \<Rightarrow> json \<Rightarrow> auth \<Rightarrow> (user_view \<times> auth) res" where
  "create_commit e actor a tasks s = and_then (current_user actor True False s) (\<lambda>_.
     and_then (grant_ids tasks s) (\<lambda>grants.
       if find_username (ac_username a) s \<noteq> None then Inl (ValidationError ''username taken'')
       else and_then (insert_account a s) (\<lambda>s1.
         let given = (if ac_role a = Viewer then grants else []);
             s2 = s1\<lparr>au_grants := au_grants s1 @ map (Pair (ac_id a)) given\<rparr>
         in found_view (ac_id a) (auth_audit e (actor_text actor) ''auth_user_created'' (ac_id a)
              [(''role'', JStr (role_text (ac_role a))), (''task_ids'', JList (map JStr given))] s2))))"

definition create_user :: "env \<Rightarrow> kdf \<Rightarrow> nat \<Rightarrow> string \<Rightarrow> string \<Rightarrow> principal option \<Rightarrow> json \<Rightarrow> json \<Rightarrow> json \<Rightarrow> json \<Rightarrow> json \<Rightarrow>
    others \<Rightarrow> auth \<Rightarrow> user_view res \<times> auth" where
  "create_user e kdf busy salt user actor name display r password tasks mid s =
    (case and_then (require_admin actor s) (\<lambda>_. and_then (username name) (\<lambda>n.
        and_then (display_name display n) (\<lambda>shown. case role_of r of
          None \<Rightarrow> Inl (ValidationError ''role'')
        | Some rl \<Rightarrow> and_then (hash_password kdf busy salt password) (\<lambda>encoded. Inr (new_account e user n shown encoded rl True))))) of
       Inl er \<Rightarrow> (Inl er, s)
     | Inr a \<Rightarrow> transact (create_commit e actor a tasks) (mid s))"

definition active_admin :: "account \<Rightarrow> bool" where
  "active_admin a = (ac_role a = Admin \<and> ac_active a)"

text \<open>What \<open>update_user\<close> writes to the row, its sessions and its grants.\<close>

definition apply_update :: "env \<Rightarrow> account \<Rightarrow> string \<Rightarrow> role \<Rightarrow> bool \<Rightarrow> string list option \<Rightarrow> auth \<Rightarrow> auth" where
  "apply_update e row name new_role new_active grants s =
    (let u = ac_id row; revoke = (new_role \<noteq> ac_role row \<or> new_active \<noteq> ac_active row);
         users = upd (\<lambda>a. ac_id a = u) (\<lambda>a. a\<lparr>ac_name := name, ac_role := new_role, ac_active := new_active,
           ac_updated := now e, ac_revision := ac_revision a + (if revoke then 1 else 0)\<rparr>) (au_users s);
         sessions = (if revoke then del (\<lambda>x. se_user x = Some u) (au_sessions s) else au_sessions s);
         cleared = (if new_role \<noteq> Viewer \<or> grants \<noteq> None \<or> new_role \<noteq> ac_role row
           then del (\<lambda>(v, t). v = u) (au_grants s) else au_grants s);
         given = (if new_role = Viewer then default [] grants else [])
     in s\<lparr>au_users := users, au_sessions := sessions, au_grants := cleared @ map (Pair u) given\<rparr>)"

definition update_user :: "env \<Rightarrow> principal option \<Rightarrow> string \<Rightarrow> json \<Rightarrow> json \<Rightarrow> json \<Rightarrow> json \<Rightarrow> auth \<Rightarrow> (user_view \<times> auth) res" where
  "update_user e actor user display r active tasks s =
    (if r \<noteq> JNull \<and> role_of r = None then Inl (ValidationError ''role'')
     else if active \<noteq> JNull \<and> \<not> is_bool active then Inl (ValidationError ''account state'')
     else and_then (current_user actor True False s) (\<lambda>_. case find_user user s of
       None \<Rightarrow> Inl (NotFoundError ''account'')
     | Some row \<Rightarrow>
         let new_role = default (ac_role row) (role_of r);
             new_active = (case active of JBool b \<Rightarrow> b | _ \<Rightarrow> ac_active row)
         in if active_admin row \<and> (new_role \<noteq> Admin \<or> \<not> new_active) \<and> count_rows active_admin (au_users s) \<le> 1
            then Inl (ValidationError ''last active admin'')
            else and_then (if display = JNull then Inr (ac_name row) else display_name display (ac_username row)) (\<lambda>name.
              and_then (if tasks = JNull then Inr None else and_then (grant_ids tasks s) (\<lambda>g. Inr (Some g))) (\<lambda>grants.
                found_view user (auth_audit e (actor_text actor) ''auth_user_updated'' user
                  [(''role'', JStr (role_text new_role)), (''active'', JBool new_active), (''grants_changed'', JBool (grants \<noteq> None))]
                  (apply_update e row name new_role new_active grants s))))))"

definition replace_password :: "env \<Rightarrow> string \<Rightarrow> string \<Rightarrow> bool \<Rightarrow> auth \<Rightarrow> auth" where
  "replace_password e user encoded must s =
     s\<lparr>au_users := upd (\<lambda>a. ac_id a = user) (\<lambda>a. a\<lparr>ac_hash := encoded, ac_must_change := must,
          ac_revision := ac_revision a + 1, ac_updated := now e\<rparr>) (au_users s),
       au_sessions := del (\<lambda>x. se_user x = Some user) (au_sessions s)\<rparr>"

definition reset_commit :: "env \<Rightarrow> principal option \<Rightarrow> string \<Rightarrow> string \<Rightarrow> auth \<Rightarrow> (unit \<times> auth) res" where
  "reset_commit e actor user encoded s = and_then (current_user actor True False s) (\<lambda>_.
     if find_user user s = None then Inl (NotFoundError ''account'')
     else Inr ((), auth_audit e (actor_text actor) ''auth_password_reset'' user [] (replace_password e user encoded True s)))"

definition reset_password :: "env \<Rightarrow> kdf \<Rightarrow> nat \<Rightarrow> string \<Rightarrow> principal option \<Rightarrow> string \<Rightarrow> json \<Rightarrow> others \<Rightarrow> auth \<Rightarrow> unit res \<times> auth" where
  "reset_password e kdf busy salt actor user password mid s =
    (case and_then (require_admin actor s) (\<lambda>_. hash_password kdf busy salt password) of
       Inl er \<Rightarrow> (Inl er, s)
     | Inr encoded \<Rightarrow> transact (reset_commit e actor user encoded) (mid s))"

definition cli_reset_commit :: "env \<Rightarrow> string \<Rightarrow> string \<Rightarrow> auth \<Rightarrow> (unit \<times> auth) res" where
  "cli_reset_commit e name encoded s = (case find_username name s of
     None \<Rightarrow> Inl (NotFoundError ''account'')
   | Some a \<Rightarrow> Inr ((), auth_audit e ''host-cli'' ''auth_password_recovered'' (ac_id a) []
       (replace_password e (ac_id a) encoded False s)))"

definition reset_password_from_cli :: "env \<Rightarrow> kdf \<Rightarrow> nat \<Rightarrow> string \<Rightarrow> json \<Rightarrow> json \<Rightarrow> others \<Rightarrow> auth \<Rightarrow> unit res \<times> auth" where
  "reset_password_from_cli e kdf busy salt name password mid s =
    (case and_then (username name) (\<lambda>n. and_then (hash_password kdf busy salt password) (\<lambda>encoded. Inr (n, encoded))) of
       Inl er \<Rightarrow> (Inl er, s)
     | Inr (n, encoded) \<Rightarrow> transact (cli_reset_commit e n encoded) (mid s))"

definition change_commit :: "env \<Rightarrow> (string \<Rightarrow> string) \<Rightarrow> principal option \<Rightarrow> int \<Rightarrow> string \<Rightarrow> string \<times> string \<Rightarrow> auth \<Rightarrow> (grant \<times> auth) res" where
  "change_commit e sha p revision encoded fresh s = and_then (current_user p False True s) (\<lambda>current.
     if ac_revision current \<noteq> revision then Inl (AuthenticationError ''credentials changed'')
     else let s1 = auth_audit e (actor_text p) ''auth_password_changed'' (ac_id current) []
            (replace_password e (ac_id current) encoded False s)
       in new_session e sha fresh (find_user (ac_id current) s1) s1)"

definition change_password :: "env \<Rightarrow> env \<Rightarrow> (string \<Rightarrow> string) \<Rightarrow> kdf \<Rightarrow> nat \<Rightarrow> string \<Rightarrow> string \<times> string \<Rightarrow> principal option \<Rightarrow>
    json \<Rightarrow> json \<Rightarrow> others \<Rightarrow> auth \<Rightarrow> grant res \<times> auth" where
  "change_password e e2 sha kdf busy salt fresh p old new mid s =
    (case and_then (current_user p False True s) (\<lambda>row.
        and_then (verify_password kdf busy (Some (ac_hash row)) old) (\<lambda>valid.
        and_then (check valid (AuthenticationError ''current password'')) (\<lambda>_.
        and_then (check (\<not> pyeq old new) (ValidationError ''same password'')) (\<lambda>_.
        and_then (hash_password kdf busy salt new) (\<lambda>encoded. Inr (ac_revision row, encoded)))))) of
       Inl er \<Rightarrow> (Inl er, s)
     | Inr (revision, encoded) \<Rightarrow> transact (change_commit e2 sha p revision encoded fresh) (mid s))"

section \<open>Access to tasks and resources\<close>

definition owned_tasks :: "string \<Rightarrow> auth \<Rightarrow> string list" where
  "owned_tasks user s = sort (map cat_key (sel (\<lambda>r. cat_kind r = ''task'' \<and> cat_owner r = Some user) (db_catalog (au_store s))))"

definition allowed_task_ids :: "principal option \<Rightarrow> auth \<Rightarrow> string list option res" where
  "allowed_task_ids p s = and_then (current_user p False False s) (\<lambda>a. Inr (case ac_role a of
     Admin \<Rightarrow> None
   | User \<Rightarrow> Some (owned_tasks (ac_id a) s)
   | Viewer \<Rightarrow> Some (granted_tasks (ac_id a) s)))"

definition may_access :: "account \<Rightarrow> string \<Rightarrow> auth \<Rightarrow> bool" where
  "may_access a task s = (case ac_role a of
     Admin \<Rightarrow> True
   | User \<Rightarrow> some_row (\<lambda>r. is_entity ''task'' task r \<and> cat_owner r = Some (ac_id a)) (db_catalog (au_store s))
   | Viewer \<Rightarrow> some_row (\<lambda>(u, t). u = ac_id a \<and> t = task) (au_grants s))"

definition require_task :: "principal option \<Rightarrow> string \<Rightarrow> bool \<Rightarrow> auth \<Rightarrow> string res" where
  "require_task p task manage s = and_then (current_user p False False s) (\<lambda>a.
     if manage \<and> ac_role a = Viewer then Inl (AuthorizationError ''viewer'')
     else if find_task task (au_store s) = None then Inl (NotFoundError ''task'')
     else if may_access a task s then Inr task else Inl (NotFoundError ''task''))"

definition require_run :: "principal option \<Rightarrow> string \<Rightarrow> bool \<Rightarrow> auth \<Rightarrow> string res" where
  "require_run p run manage s = (case find_run run (au_store s) of
     None \<Rightarrow> Inl (NotFoundError ''run'') | Some r \<Rightarrow> require_task p (run_task r) manage s)"

definition handoff_task :: "string \<Rightarrow> auth \<Rightarrow> string option" where
  "handoff_task h s = map_option ho_task (sel1 (\<lambda>x. ho_id x = h) (db_handoffs (au_store s)))"

definition require_handoff :: "principal option \<Rightarrow> string \<Rightarrow> bool \<Rightarrow> auth \<Rightarrow> string res" where
  "require_handoff p h manage s = (case handoff_task h s of
     None \<Rightarrow> Inl (NotFoundError ''handoff'') | Some t \<Rightarrow> require_task p t manage s)"

definition require_resource :: "principal option \<Rightarrow> string \<Rightarrow> json \<Rightarrow> auth \<Rightarrow> json res" where
  "require_resource p kind key s = and_then (current_user p False False s) (\<lambda>a.
     if ac_role a = Viewer then Inl (AuthorizationError ''viewer'')
     else and_then (find_entity_json kind key (au_store s)) (\<lambda>m. case m of
       None \<Rightarrow> Inl (NotFoundError ''resource'')
     | Some r \<Rightarrow> if ac_role a \<noteq> Admin \<and> cat_owner r \<noteq> Some (ac_id a) then Inl (NotFoundError ''resource'') else Inr key))"

definition require_sender :: "principal option \<Rightarrow> json \<Rightarrow> auth \<Rightarrow> json res" where
  "require_sender p key s = require_resource p ''sender'' key s"

definition require_recipient_group :: "principal option \<Rightarrow> json \<Rightarrow> auth \<Rightarrow> json res" where
  "require_recipient_group p key s = require_resource p ''recipient_group'' key s"

definition require_smtp_job :: "principal option \<Rightarrow> string \<Rightarrow> auth \<Rightarrow> string option res" where
  "require_smtp_job p job s = and_then (current_user p False False s) (\<lambda>a.
     case sel1 (\<lambda>x. sm_job x = job) (db_smtp (au_store s)) of
       None \<Rightarrow> Inl (NotFoundError ''handoff'')
     | Some x \<Rightarrow> let task = (case sm_handoff x of None \<Rightarrow> None | Some h \<Rightarrow> handoff_task h s) in
         if task = None \<and> ac_role a = Viewer then Inl (NotFoundError ''handoff'')
         else and_then (if task = None \<and> ac_role a = User
             then require_resource p ''sender'' (get_or (sm_envelope x) ''sender_profile_id'' (JStr ''default'')) s
             else Inr JNull) (\<lambda>_.
           case task of None \<Rightarrow> Inr None
           | Some t \<Rightarrow> if t = [] then Inr None else and_then (require_task p t False s) (\<lambda>r. Inr (Some r))))"
end
