(* ===== verification/Auth_Safety.thy ===== *)
theory Auth_Safety imports Auth_Service begin

text \<open>
  What the account service guarantees: stored credentials verify exactly the password they were
  made from; every history of its transactions keeps sessions tied to the current credentials of
  active accounts, an active administrator and bounded login attempts; a session is resolved,
  and a task reached, only with the rights of the account as it is now.
\<close>

section \<open>Stored credentials\<close>

lemma b64_val_char: "v < 64 \<Longrightarrow> b64_val (b64_char v) = Some v"
proof -
  have "list_all (\<lambda>v. b64_val (b64_char v) = Some v) [0..<64]" by code_simp
  then show "v < 64 \<Longrightarrow> b64_val (b64_char v) = Some v" by (simp add: list_all_iff)
qed

lemma b64_char_in: "v < 64 \<Longrightarrow> b64_char v \<in> set B64"
  unfolding b64_char_def by (rule nth_mem) (simp add: B64_def)

lemma b64_char_plain: assumes "v < 64" shows "b64_char v \<noteq> CHR ''=''" "b64_char v \<noteq> CHR ''$''"
proof -
  have "CHR ''='' \<notin> set B64" "CHR ''$'' \<notin> set B64" by (simp_all add: B64_def)
  with b64_char_in [OF assms] show "b64_char v \<noteq> CHR ''=''" "b64_char v \<noteq> CHR ''$''" by metis+
qed

lemma of_char_less [simp]: "(of_char (c::char) :: nat) < 256"
  by (rule nat_of_char_less_256)

text \<open>The sextets of three octets give the octets back.\<close>

lemma sextets:
  fixes x y z :: nat
  assumes "x < 256" "y < 256" "z < 256"
  shows "x div 4 < 64" "x mod 4 * 16 + y div 16 < 64" "y mod 16 * 4 + z div 64 < 64" "z mod 64 < 64"
    "x mod 4 * 16 < 64" "y mod 16 * 4 < 64"
    "x div 4 * 4 + (x mod 4 * 16 + y div 16) div 16 = x"
    "x div 4 * 4 + (x mod 4 * 16) div 16 = x"
    "(x mod 4 * 16 + y div 16) mod 16 * 16 + (y mod 16 * 4 + z div 64) div 4 = y"
    "(x mod 4 * 16 + y div 16) mod 16 * 16 + (y mod 16 * 4) div 4 = y"
    "(y mod 16 * 4 + z div 64) mod 4 * 64 + z mod 64 = z"
proof -
  have q: "y div 16 < 16" "z div 64 < 4" using assms by linarith+
  show "x div 4 < 64" using assms by linarith
  show "x mod 4 * 16 + y div 16 < 64" using q mod_less_divisor [of 4 x] by linarith
  show "y mod 16 * 4 + z div 64 < 64" using q mod_less_divisor [of 16 y] by linarith
  show "z mod 64 < 64" "x mod 4 * 16 < 64" "y mod 16 * 4 < 64"
    using mod_less_divisor [of 4 x] mod_less_divisor [of 16 y] by (simp, linarith+)
  have "(x mod 4 * 16 + y div 16) div 16 = x mod 4" using q by simp
  then show "x div 4 * 4 + (x mod 4 * 16 + y div 16) div 16 = x" by simp
  show "x div 4 * 4 + (x mod 4 * 16) div 16 = x" by simp
  have m: "(x mod 4 * 16 + y div 16) mod 16 = y div 16" using q by simp
  have "(y mod 16 * 4 + z div 64) div 4 = y mod 16" using q by simp
  with m show "(x mod 4 * 16 + y div 16) mod 16 * 16 + (y mod 16 * 4 + z div 64) div 4 = y" by simp
  from m show "(x mod 4 * 16 + y div 16) mod 16 * 16 + (y mod 16 * 4) div 4 = y" by simp
  have "(y mod 16 * 4 + z div 64) mod 4 = z div 64" using q by simp
  then show "(y mod 16 * 4 + z div 64) mod 4 * 64 + z mod 64 = z" by simp
qed

lemma b64_roundtrip: "b64decode (b64encode s) = Some s"
proof (induction s rule: b64encode.induct)
  case 1
  then show ?case by simp
next
  case (2 a)
  let ?x = "of_char a :: nat"
  note n = sextets [of ?x 0 0]
  from n show ?case by (simp add: Let_def b64_val_char b64_char_plain del: div_mult_self1 mod_mult_self1)
next
  case (3 a b)
  let ?x = "of_char a :: nat" and ?y = "of_char b :: nat"
  note n = sextets [of ?x ?y 0]
  from n show ?case by (simp add: Let_def b64_val_char b64_char_plain)
next
  case (4 a b c s)
  let ?x = "of_char a :: nat" and ?y = "of_char b :: nat" and ?z = "of_char c :: nat"
  note n = sextets [of ?x ?y ?z]
  from n 4 show ?case by (simp add: Let_def b64_val_char b64_char_plain)
qed

lemma b64_no_dollar: "CHR ''$'' \<notin> set (b64encode s)"
proof (induction s rule: b64encode.induct)
  case 1
  then show ?case by simp
next
  case (2 a)
  from sextets [of "of_char a" 0 0] show ?case by (simp add: Let_def b64_char_plain [THEN not_sym])
next
  case (3 a b)
  from sextets [of "of_char a" "of_char b" 0] show ?case by (simp add: Let_def b64_char_plain [THEN not_sym])
next
  case (4 a b c s)
  with sextets [of "of_char a" "of_char b" "of_char c"] show ?case
    by (simp add: Let_def b64_char_plain [THEN not_sym])
qed

lemma stored_credential_hash:
  assumes "length salt = 16" "length digest = 64"
  shows "stored_credential (Some (''scrypt$131072$8$1$'' @ b64encode salt @ ''$'' @ b64encode digest)) = Some (salt, digest)"
proof -
  have "split_on CHR ''$'' (''scrypt$131072$8$1$'' @ b64encode salt @ ''$'' @ b64encode digest)
      = [''scrypt'', ''131072'', ''8'', ''1'', b64encode salt, b64encode digest]"
    by (simp add: split_on_sep [OF b64_no_dollar] split_on_plain [OF b64_no_dollar])
  with assms show ?thesis by (simp add: stored_credential_def b64_roundtrip)
qed

text \<open>A credential made by \<open>hash_password\<close> is parsed back and \<open>verify_password\<close> accepts
  with it exactly the valid passwords of the same derivation: the password itself, and no
  password outside the length and character rules. Derivations give 64 octets, as the call of
  \<open>scrypt\<close> asks, and a thread slot is free.\<close>

theorem password_roundtrip:
  assumes "\<And>p s. length (kdf p s) = 64" "length salt = 16"
    and "hash_password kdf busy salt password = Inr encoded" "busy' < PASSWORD_SLOTS"
  shows "verify_password kdf busy' (Some encoded) candidate = Inr (\<exists>p q. validate_password password = Inr p
    \<and> validate_password candidate = Inr q \<and> kdf q salt = kdf p salt)"
proof -
  from assms(3) obtain p where p: "validate_password password = Inr p"
    and enc: "encoded = ''scrypt$131072$8$1$'' @ b64encode salt @ ''$'' @ b64encode (kdf p salt)"
    by (auto simp: hash_password_def and_then_Inr derive_def split: if_splits)
  from stored_credential_hash [OF assms(2,1)] assms(4) p show ?thesis
    by (cases "validate_password candidate") (auto simp: verify_password_def enc derive_def)
qed

text \<open>An example with a derivation that keeps the first 64 octets of the padded password.\<close>

definition toy_kdf :: kdf where
  "toy_kdf p salt = take 64 (p @ replicate 64 CHR 0x00)"

definition toy_salt :: string where "toy_salt = replicate 16 CHR ''s''"

definition good_password :: json where "good_password = JStr ''correct horse battery''"

lemma length_toy_kdf: "length (toy_kdf p s) = 64"
  by (simp add: toy_kdf_def)

lemma password_roundtrip_witness:
  "verify_password toy_kdf 0 (Some (projr (hash_password toy_kdf 0 toy_salt good_password))) good_password = Inr True"
proof -
  have h: "hash_password toy_kdf 0 toy_salt good_password = Inr (projr (hash_password toy_kdf 0 toy_salt good_password))"
    by (simp add: hash_password_def good_password_def validate_password_def derive_def PASSWORD_SLOTS_def)
  have "\<exists>p q. validate_password good_password = Inr p \<and> validate_password good_password = Inr q \<and> toy_kdf q toy_salt = toy_kdf p toy_salt"
    by (simp add: good_password_def validate_password_def)
  then show ?thesis
    by (subst password_roundtrip [OF length_toy_kdf _ h]) (simp_all add: toy_salt_def PASSWORD_SLOTS_def)
qed

section \<open>Well-formed account tables\<close>

definition users_ok :: "account list \<Rightarrow> string list \<Rightarrow> bool" where
  "users_ok us ids = (distinct (map ac_id us) \<and> distinct (map ac_username us) \<and> ids = map ac_id us
     \<and> list_all (\<lambda>a. 1 \<le> ac_revision a) us \<and> (us \<noteq> [] \<longrightarrow> list_ex active_admin us))"

text \<open>A session stands for nobody, or for an active account at its current credentials.\<close>

definition stands_for :: "session_row \<Rightarrow> account \<Rightarrow> bool" where
  "stands_for x a = (se_user x = Some (ac_id a) \<and> ac_active a \<and> se_revision x = Some (ac_revision a))"

definition session_ok :: "account list \<Rightarrow> session_row \<Rightarrow> bool" where
  "session_ok us x = (if se_kind x = PreAuth then se_user x = None \<and> se_revision x = None else list_ex (stands_for x) us)"

definition sessions_ok :: "account list \<Rightarrow> session_row list \<Rightarrow> bool" where
  "sessions_ok us t = (distinct (map se_hash t) \<and> list_all (session_ok us) t
     \<and> count_rows (\<lambda>x. se_kind x = PreAuth) t \<le> PREAUTH_LIMIT)"

definition grants_ok :: "account list \<Rightarrow> task_row list \<Rightarrow> (string \<times> string) list \<Rightarrow> bool" where
  "grants_ok us tasks gs = (distinct gs \<and> list_all (\<lambda>(u, t).
     list_ex (\<lambda>a. ac_id a = u \<and> ac_role a = Viewer) us \<and> some_row (\<lambda>x. task_id x = t) tasks) gs)"

definition attempts_ok :: "attempt_row list \<Rightarrow> bool" where
  "attempts_ok t = (distinct (map at_key t) \<and> list_all (\<lambda>a. 1 \<le> at_count a
     \<and> at_count a \<le> (if at_key a = ''global'' then LOGIN_GLOBAL_LIMIT else LOGIN_ACCOUNT_LIMIT)) t)"

definition auth_ok :: "auth \<Rightarrow> bool" where
  "auth_ok s = (users_ok (au_users s) (db_user_ids (au_store s)) \<and> sessions_ok (au_users s) (au_sessions s)
     \<and> grants_ok (au_users s) (db_tasks (au_store s)) (au_grants s) \<and> attempts_ok (au_attempts s))"

definition same_account :: "account \<Rightarrow> account \<Rightarrow> bool" where
  "same_account a b = (ac_id a = ac_id b \<and> ac_username a = ac_username b \<and> ac_created a = ac_created b
     \<and> ac_revision a \<le> ac_revision b)"

definition auth_le :: "auth \<Rightarrow> auth \<Rightarrow> bool" where
  "auth_le s t = (extends same_account (au_users s) (au_users t)
     \<and> extends (=) (db_audit (au_store s)) (db_audit (au_store t)) \<and> db_tasks (au_store s) = db_tasks (au_store t))"

lemmas auth_defs = users_ok_def sessions_ok_def grants_ok_def attempts_ok_def

lemma same_account_refl [simp]: "same_account a a"
  by (simp add: same_account_def)

lemma auth_le_refl: "auth_le s s"
  by (simp add: auth_le_def extends_def list_all2_refl)

lemma auth_le_trans: "auth_le s t \<Longrightarrow> auth_le t u \<Longrightarrow> auth_le s u"
  unfolding auth_le_def
  by (auto intro: extends_eq_trans extends_trans [where R = same_account] simp: same_account_def)

subsection \<open>The log\<close>

lemma auth_audit_frame [simp]:
  "au_users (auth_audit e w t u d s) = au_users s" "au_sessions (auth_audit e w t u d s) = au_sessions s"
  "au_setup (auth_audit e w t u d s) = au_setup s" "au_attempts (auth_audit e w t u d s) = au_attempts s"
  "au_grants (auth_audit e w t u d s) = au_grants s"
  "db_user_ids (au_store (auth_audit e w t u d s)) = db_user_ids (au_store s)"
  "db_tasks (au_store (auth_audit e w t u d s)) = db_tasks (au_store s)"
  by (simp_all add: auth_audit_def)

lemma auth_audit_log: "extends (=) (db_audit (au_store s)) (db_audit (au_store (auth_audit e w t u d s)))"
  by (simp add: auth_audit_def audit_def Let_def extends_eq)

lemma auth_audit_ok [simp]: "auth_ok (auth_audit e w t u d s) = auth_ok s"
  by (simp add: auth_ok_def)

lemma auth_audit_le: "auth_le s r \<Longrightarrow> auth_le s (auth_audit e w t u d r)"
  using auth_audit_log [of r] by (auto simp: auth_le_def intro: extends_eq_trans)

subsection \<open>Sessions\<close>

lemma count_rows_del: "count_rows q (del p t) \<le> count_rows q t"
  by (induction t) (auto simp: le_SucI)

lemma sessions_ok_del: "sessions_ok us t \<Longrightarrow> sessions_ok us (del p t)"
  using count_rows_del [of "\<lambda>x. se_kind x = PreAuth" p t]
  by (auto simp: sessions_ok_def list_all_iff del_map_distinct)

lemma sessions_ok_users:
  assumes "sessions_ok us t"
    and "\<And>a x. a \<in> set us \<Longrightarrow> x \<in> set t \<Longrightarrow> stands_for x a \<Longrightarrow> \<exists>b \<in> set vs. ac_id b = ac_id a \<and> ac_active b \<and> ac_revision b = ac_revision a"
  shows "sessions_ok vs t"
proof -
  have "session_ok vs x" if "x \<in> set t" "session_ok us x" for x
  proof (cases "se_kind x = PreAuth")
    case True
    with that show ?thesis by (simp add: session_ok_def)
  next
    case False
    with that obtain a where "a \<in> set us" "stands_for x a" by (auto simp: session_ok_def list_ex_iff)
    moreover from assms(2) [OF this(1) that(1) this(2)]
    obtain b where "b \<in> set vs" "ac_id b = ac_id a" "ac_active b" "ac_revision b = ac_revision a" by blast
    ultimately have "stands_for x b" by (simp add: stands_for_def)
    with \<open>b \<in> set vs\<close> False show ?thesis by (auto simp: session_ok_def list_ex_iff)
  qed
  with assms(1) show ?thesis by (auto simp: sessions_ok_def list_all_iff)
qed

lemma sessions_ok_append: "sessions_ok us t \<Longrightarrow> sessions_ok (us @ vs) t"
  by (erule sessions_ok_users) (auto simp: stands_for_def)

lemma new_session_effect:
  assumes "new_session e sha fresh user s = Inr (g, s')"
  obtains t where "s' = s\<lparr>au_sessions := t\<rparr>"
    "sessions_ok (au_users s) (au_sessions s) \<Longrightarrow> (\<And>a. user = Some a \<Longrightarrow> a \<in> set (au_users s) \<and> ac_active a) \<Longrightarrow> sessions_ok (au_users s) t"
proof -
  let ?row = "session_for e sha fresh user" and ?kept = "del (dead_session (now e)) (au_sessions s)"
  from assms have s': "s' = s\<lparr>au_sessions := ?kept @ [?row]\<rparr>" "\<forall>x \<in> set ?kept. se_hash x \<noteq> se_hash ?row"
    "user = None \<Longrightarrow> count_rows (\<lambda>x. se_kind x = PreAuth) ?kept < PREAUTH_LIMIT"
    by (auto simp: new_session_def Let_def and_then_Inr ins_Inr split: if_splits)
  have "sessions_ok (au_users s) (?kept @ [?row])"
    if "sessions_ok (au_users s) (au_sessions s)" "\<And>a. user = Some a \<Longrightarrow> a \<in> set (au_users s) \<and> ac_active a"
  proof -
    have "session_ok (au_users s) ?row"
      using that(2) by (cases user) (auto simp: session_ok_def session_for_def stands_for_def list_ex_iff)
    moreover have "count_rows (\<lambda>x. se_kind x = PreAuth) (?kept @ [?row]) \<le> PREAUTH_LIMIT"
      using s'(3) sessions_ok_del [OF that(1), of "dead_session (now e)"]
      by (cases user) (auto simp: sessions_ok_def session_for_def)
    ultimately show ?thesis using s'(2) sessions_ok_del [OF that(1), of "dead_session (now e)"]
      by (auto simp: sessions_ok_def)
  qed
  with s'(1) show ?thesis by (rule that)
qed

lemma new_session_ok:
  assumes "new_session e sha fresh user s = Inr (g, s')" "auth_ok s" "\<And>a. user = Some a \<Longrightarrow> a \<in> set (au_users s) \<and> ac_active a"
  shows "auth_ok s' \<and> auth_le s s'"
proof -
  from new_session_effect [OF assms(1)] obtain t where t: "s' = s\<lparr>au_sessions := t\<rparr>"
    and ok: "sessions_ok (au_users s) (au_sessions s) \<Longrightarrow> (\<And>a. user = Some a \<Longrightarrow> a \<in> set (au_users s) \<and> ac_active a) \<Longrightarrow>
      sessions_ok (au_users s) t" by metis
  from ok [OF _ assms(3)] assms(2) have "sessions_ok (au_users s) t" by (simp add: auth_ok_def)
  with assms(2) auth_le_refl [of s] show ?thesis by (simp add: t auth_ok_def auth_le_def)
qed

lemma sessions_ok_upd:
  assumes "sessions_ok us t" "\<And>x. se_hash (f x) = se_hash x \<and> se_kind (f x) = se_kind x \<and> se_user (f x) = se_user x \<and> se_revision (f x) = se_revision x"
  shows "sessions_ok us (upd p f t)"
proof -
  have same: "session_ok us (f x) = session_ok us x" for x
    using assms(2) [of x] by (simp add: session_ok_def stands_for_def [abs_def])
  have "count_rows (\<lambda>x. se_kind x = PreAuth) (upd p f t) = count_rows (\<lambda>x. se_kind x = PreAuth) t"
    using assms(2) by (induction t) auto
  moreover have "map se_hash (upd p f t) = map se_hash t" using assms(2) by (simp add: upd_map_key)
  ultimately show ?thesis using assms(1) same by (auto simp: sessions_ok_def list_all_iff dest: upd_mem)
qed

lemma resolve_ok:
  assumes "auth_ok s"
  shows "auth_ok (snd (resolve_session e sha raw touch (\<lambda>s. s) s)) \<and> auth_le s (snd (resolve_session e sha raw touch (\<lambda>s. s) s))"
proof -
  have t: "sessions_ok (au_users s) (upd p (\<lambda>y. y\<lparr>se_seen := n\<rparr>) (au_sessions s))" for p n
    using assms by (intro sessions_ok_upd) (simp_all add: auth_ok_def)
  show ?thesis
    using assms t auth_le_refl [of s]
    by (auto simp: resolve_session_def Let_def auth_ok_def auth_le_def split: option.splits)
qed

lemma logout_ok:
  assumes "auth_ok s"
  shows "auth_ok (logout e sha raw s) \<and> auth_le s (logout e sha raw s)"
proof -
  let ?s1 = "\<lambda>h. s\<lparr>au_sessions := del (\<lambda>x. se_hash x = h) (au_sessions s)\<rparr>"
  have "auth_ok (?s1 h) \<and> auth_le s (?s1 h)" for h
    using assms sessions_ok_del auth_le_refl [of s] by (simp add: auth_ok_def auth_le_def)
  with assms show ?thesis
    by (auto simp: logout_def Let_def auth_le_refl intro!: auth_audit_le split: option.splits)
qed

subsection \<open>Login attempts\<close>

lemma attempts_ok_del: "attempts_ok t \<Longrightarrow> attempts_ok (del p t)"
  by (auto simp: attempts_ok_def list_all_iff del_map_distinct)

lemma bump_other: "key \<noteq> other \<Longrightarrow> sel1 (\<lambda>a. at_key a = key) (bump t other rows) = sel1 (\<lambda>a. at_key a = key) rows"
proof -
  assume "key \<noteq> other"
  then have "sel1 (\<lambda>a. at_key a = key) (upd (\<lambda>a. at_key a = other) (\<lambda>a. a\<lparr>at_count := at_count a + 1\<rparr>) rows) = sel1 (\<lambda>a. at_key a = key) rows"
    by (intro sel1_upd_other) auto
  moreover have "sel1 (\<lambda>a. at_key a = key) (rows @ [\<lparr>at_key = other, at_window = t, at_count = 1\<rparr>]) = sel1 (\<lambda>a. at_key a = key) rows"
    using \<open>key \<noteq> other\<close> by (induction rows) auto
  ultimately show ?thesis by (simp add: bump_def)
qed

lemma attempts_ok_bump:
  assumes "attempts_ok t" "\<not> exhausted key (if key = ''global'' then LOGIN_GLOBAL_LIMIT else LOGIN_ACCOUNT_LIMIT) t"
  shows "attempts_ok (bump n key t)"
proof (cases "some_row (\<lambda>a. at_key a = key) t")
  case True
  have "at_count a < (if key = ''global'' then LOGIN_GLOBAL_LIMIT else LOGIN_ACCOUNT_LIMIT)" if "a \<in> set t" "at_key a = key" for a
  proof -
    from that have "sel1 (\<lambda>a. at_key a = key) t \<noteq> None" by (auto simp: sel1_None)
    then obtain b where b: "sel1 (\<lambda>a. at_key a = key) t = Some b" by blast
    from sel1_Some [OF this] that assms(1) have "b = a" by (auto simp: attempts_ok_def dest: distinct_map_same)
    with b assms(2) show ?thesis by (simp add: exhausted_def)
  qed
  then have bound: "at_count a + 1 \<le> (if key = ''global'' then LOGIN_GLOBAL_LIMIT else LOGIN_ACCOUNT_LIMIT)" if "a \<in> set t" "at_key a = key" for a
    using that by force
  have "map at_key (bump n key t) = map at_key t" using True by (simp add: bump_def upd_map_key)
  with assms(1) True bound show ?thesis by (auto simp: attempts_ok_def list_all_iff bump_def dest!: upd_mem)
next
  case False
  with assms(1) show ?thesis
    by (auto simp: attempts_ok_def bump_def some_row_iff LOGIN_GLOBAL_LIMIT_def LOGIN_ACCOUNT_LIMIT_def)
qed

lemma account_key_not_global [simp]: "account_key sha name \<noteq> ''global''" "''global'' \<noteq> account_key sha name"
  by (simp_all add: account_key_def)

lemma reserve_ok:
  assumes "reserve_attempt e sha name s = Inr (key, s')" "auth_ok s"
  shows "auth_ok s' \<and> auth_le s s'"
proof -
  let ?rows = "live_attempts (now e) (au_attempts s)"
  from assms(1) have s': "s' = s\<lparr>au_attempts := bump (now e) (account_key sha name) (bump (now e) ''global'' ?rows)\<rparr>"
    and free: "\<not> exhausted ''global'' LOGIN_GLOBAL_LIMIT ?rows" "\<not> exhausted (account_key sha name) LOGIN_ACCOUNT_LIMIT ?rows"
    by (auto simp: reserve_attempt_def Let_def split: if_splits)
  have "attempts_ok ?rows" using assms(2) by (simp add: auth_ok_def live_attempts_def attempts_ok_del)
  then have "attempts_ok (bump (now e) ''global'' ?rows)" using free(1) by (intro attempts_ok_bump) simp_all
  then have "attempts_ok (au_attempts s')" unfolding s' using free(2)
    by (simp add: exhausted_def bump_other attempts_ok_bump)
  with assms(2) auth_le_refl [of s] show ?thesis by (simp add: s' auth_ok_def auth_le_def)
qed

subsection \<open>Accounts\<close>

lemma insert_account_ok:
  assumes "insert_account a s = Inr s'" "auth_ok s" "ac_revision a = 1" "initialized s \<or> active_admin a"
  shows "auth_ok s' \<and> auth_le s s' \<and> a \<in> set (au_users s') \<and> au_grants s' = au_grants s \<and> ac_id a \<notin> ac_id ` set (au_users s)
    \<and> (\<forall>b \<in> set (au_users s). b \<in> set (au_users s')) \<and> db_tasks (au_store s') = db_tasks (au_store s)"
proof -
  from assms(1) have s': "s' = s\<lparr>au_users := au_users s @ [a], au_store := (au_store s)\<lparr>db_user_ids := db_user_ids (au_store s) @ [ac_id a]\<rparr>\<rparr>"
    and new: "\<forall>b \<in> set (au_users s). ac_id b \<noteq> ac_id a \<and> ac_username b \<noteq> ac_username a"
    by (auto simp: insert_account_def and_then_Inr ins_Inr some_row_iff split: if_splits)
  from assms(2) have "users_ok (au_users s) (db_user_ids (au_store s))" by (simp add: auth_ok_def)
  then have "users_ok (au_users s') (db_user_ids (au_store s'))" using new assms(3,4)
    by (auto simp: users_ok_def s' initialized_def)
  moreover have "sessions_ok (au_users s') (au_sessions s')" using assms(2) by (simp add: s' auth_ok_def sessions_ok_append)
  moreover have "grants_ok (au_users s') (db_tasks (au_store s')) (au_grants s')" using assms(2)
    by (fastforce simp: s' auth_ok_def grants_ok_def list_all_iff list_ex_iff)
  ultimately show ?thesis using assms(2) new
    by (auto simp: auth_ok_def auth_le_def s' extends_def list_all2_refl)
qed

lemma adopt_frame:
  "adopt_unowned u d = Inr (r, d') \<Longrightarrow> db_user_ids d' = db_user_ids d \<and> db_tasks d' = db_tasks d \<and> db_audit d' = db_audit d"
  by (auto simp: adopt_unowned_def Let_def split: if_splits)

lemma store_frame_ok:
  assumes "auth_ok s" "db_user_ids d = db_user_ids (au_store s)" "db_tasks d = db_tasks (au_store s)" "db_audit d = db_audit (au_store s)"
  shows "auth_ok (s\<lparr>au_store := d\<rparr>) \<and> auth_le s (s\<lparr>au_store := d\<rparr>)"
  using assms auth_le_refl [of s] by (simp add: auth_ok_def auth_le_def)

lemma setup_commit_ok:
  assumes "setup_commit e sha token (new_account e user n shown enc Admin must) fresh s = Inr (g, s')" "auth_ok s"
  shows "auth_ok s' \<and> auth_le s s'"
proof -
  let ?a = "new_account e user n shown enc Admin must"
  from assms(1) obtain s1 r d where i: "insert_account ?a (s\<lparr>au_setup := None\<rparr>) = Inr s1"
    and d: "adopt_unowned (ac_id ?a) (au_store s1) = Inr (r, d)"
    and n: "new_session e sha fresh (Some ?a) (auth_audit e (user_actor (ac_id ?a)) ''auth_initial_admin_created'' (ac_id ?a) []
            (s1\<lparr>au_store := d\<rparr>)) = Inr (g, s')"
    by (auto simp: setup_commit_def and_then_Inr split: if_splits)
  have "auth_ok (s\<lparr>au_setup := None\<rparr>)" using assms(2) by (simp add: auth_ok_def)
  from insert_account_ok [OF i this] have 1: "auth_ok s1" "auth_le (s\<lparr>au_setup := None\<rparr>) s1" "?a \<in> set (au_users s1)"
    by (simp_all add: new_account_def active_admin_def)
  from store_frame_ok [OF 1(1), of d] adopt_frame [OF d] have 2: "auth_ok (s1\<lparr>au_store := d\<rparr>)" "auth_le s1 (s1\<lparr>au_store := d\<rparr>)"
    by auto
  from new_session_ok [OF n] 1(3) 2(1) have 3: "auth_ok s' \<and> auth_le (auth_audit e (user_actor (ac_id ?a)) ''auth_initial_admin_created'' (ac_id ?a) []
            (s1\<lparr>au_store := d\<rparr>)) s'" by (simp add: new_account_def)
  have "auth_le s s1" using 1(2) by (simp add: auth_le_def)
  with 2(2) 3 show ?thesis by (meson auth_audit_le auth_le_refl auth_le_trans)
qed

lemma find_user_mem: "find_user u s = Some a \<Longrightarrow> a \<in> set (au_users s) \<and> ac_id a = u"
  by (auto simp: find_user_def dest: sel1_Some)

lemma login_commit_ok:
  assumes "login_commit e sha user key fresh s = Inr (g, s')" "auth_ok s"
  shows "auth_ok s' \<and> auth_le s s'"
proof -
  let ?s1 = "s\<lparr>au_attempts := del (\<lambda>a. at_key a = key) (au_attempts s)\<rparr>"
  from assms(1) obtain current where c: "find_user (ac_id user) s = Some current" "ac_active current"
    and n: "new_session e sha fresh (Some current) (auth_audit e (user_actor (ac_id current)) ''auth_login'' (ac_id current) [] ?s1) = Inr (g, s')"
    by (auto simp: login_commit_def split: option.splits if_splits)
  have 1: "auth_ok ?s1" "auth_le s ?s1" using assms(2) attempts_ok_del auth_le_refl [of s] by (simp_all add: auth_ok_def auth_le_def)
  from new_session_ok [OF n] 1(1) find_user_mem [OF c(1)] c(2)
  have "auth_ok s' \<and> auth_le (auth_audit e (user_actor (ac_id current)) ''auth_login'' (ac_id current) [] ?s1) s'" by simp
  with 1(2) show ?thesis by (meson auth_audit_le auth_le_trans)
qed

lemma grant_ids_ok: "grant_ids v s = Inr ids \<Longrightarrow> distinct ids \<and> (\<forall>t \<in> set ids. some_row (\<lambda>x. task_id x = t) (db_tasks (au_store s)))"
proof -
  assume a: "grant_ids v s = Inr ids"
  have f: "find_task t d \<noteq> None \<longleftrightarrow> some_row (\<lambda>x. task_id x = t) (db_tasks d)" for t d
    using sel1_None [of "\<lambda>x. task_id x = t" "db_tasks d"] by (auto simp: find_task_def some_row_iff)
  from a show ?thesis unfolding grant_ids_def f
    by (auto simp: Let_def and_then_Inr list_all_iff split: json.splits sum.splits if_splits)
qed

lemma grants_ok_users:
  assumes "grants_ok us tasks gs"
    and "\<And>a t. a \<in> set us \<Longrightarrow> ac_role a = Viewer \<Longrightarrow> (ac_id a, t) \<in> set gs \<Longrightarrow> \<exists>b \<in> set vs. ac_id b = ac_id a \<and> ac_role b = Viewer"
  shows "grants_ok vs tasks gs"
  using assms unfolding grants_ok_def list_all_iff list_ex_iff by fast

lemma grants_ok_give:
  assumes "grants_ok us tasks gs" "\<forall>(v, t) \<in> set gs. v \<noteq> u" "distinct ids" "\<forall>t \<in> set ids. some_row (\<lambda>x. task_id x = t) tasks"
    and "ids \<noteq> [] \<Longrightarrow> \<exists>a \<in> set us. ac_id a = u \<and> ac_role a = Viewer"
  shows "grants_ok us tasks (gs @ map (Pair u) ids)"
  using assms by (fastforce simp: grants_ok_def list_all_iff list_ex_iff distinct_map inj_on_def)

lemma create_commit_ok:
  assumes "create_commit e actor (new_account e2 user n shown enc r must) tasks s = Inr (g, s')" "auth_ok s"
  shows "auth_ok s' \<and> auth_le s s'"
proof -
  let ?a = "new_account e2 user n shown enc r must"
  from assms(1) obtain c ids s1 w t p m where c: "current_user actor True False s = Inr c" and ids: "grant_ids tasks s = Inr ids"
    and i: "insert_account ?a s = Inr s1"
    and s': "s' = auth_audit e w t p m (s1\<lparr>au_grants := au_grants s1 @ map (Pair (ac_id ?a)) (if ac_role ?a = Viewer then ids else [])\<rparr>)"
    by (auto simp: create_commit_def and_then_Inr found_view_def Let_def split: if_splits option.splits)
  from c have "initialized s" by (auto simp: current_user_def initialized_def find_user_def split: option.splits)
  with insert_account_ok [OF i assms(2)]
  have 1: "auth_ok s1" "auth_le s s1" "?a \<in> set (au_users s1)" "au_grants s1 = au_grants s" "ac_id ?a \<notin> ac_id ` set (au_users s)"
      "db_tasks (au_store s1) = db_tasks (au_store s)"
    by (simp_all add: new_account_def)
  have "\<forall>(v, t) \<in> set (au_grants s). v \<noteq> ac_id ?a" using assms(2) 1(5)
    by (fastforce simp: auth_ok_def grants_ok_def list_all_iff list_ex_iff)
  then have "grants_ok (au_users s1) (db_tasks (au_store s1)) (au_grants s1 @ map (Pair (ac_id ?a)) (if ac_role ?a = Viewer then ids else []))"
    using 1 grant_ids_ok [OF ids] by (intro grants_ok_give) (auto simp: auth_ok_def)
  then have "auth_ok s' \<and> auth_le s1 s'" unfolding s' auth_audit_ok
    using 1(1) auth_le_refl [of s1] by (intro conjI auth_audit_le) (simp_all add: auth_ok_def auth_le_def)
  with 1(2) show ?thesis by (meson auth_le_trans)
qed

text \<open>An account update that keeps identity, and a state whose only active administrator may
  not go.\<close>

lemma in_upd: "a \<in> set t \<Longrightarrow> (if p a then f a else a) \<in> set (upd p f t)"
  by (simp add: upd_def)

lemma another_row:
  assumes "1 < count_rows p t" "distinct t" "r \<in> set t"
  shows "\<exists>x \<in> set t. p x \<and> x \<noteq> r"
proof (rule ccontr)
  assume "\<not> ?thesis"
  then have "set (filter p t) \<subseteq> {r}" by auto
  then have "card (set (filter p t)) \<le> 1" using card_mono [of "{r}"] by fastforce
  moreover have "length (filter p t) = card (set (filter p t))" using assms(2) by (metis distinct_card distinct_filter)
  ultimately show False using assms(1) by (simp add: count_rows_def)
qed

lemma users_ok_upd:
  assumes "users_ok us ids" "row \<in> set us"
    and "\<And>a. ac_id (f a) = ac_id a \<and> ac_username (f a) = ac_username a \<and> ac_revision a \<le> ac_revision (f a)"
    and "\<not> active_admin (f row) \<Longrightarrow> active_admin row \<Longrightarrow> 1 < count_rows active_admin us"
  shows "users_ok (upd (\<lambda>a. ac_id a = ac_id row) f us) ids"
proof -
  let ?vs = "upd (\<lambda>a. ac_id a = ac_id row) f us"
  have same: "map ac_id ?vs = map ac_id us" "map ac_username ?vs = map ac_username us" using assms(3) by (simp_all add: upd_map_key)
  have rev: "\<forall>a \<in> set ?vs. 1 \<le> ac_revision a"
  proof
    fix a assume "a \<in> set ?vs"
    then obtain b where b: "b \<in> set us" "a = b \<or> a = f b" by (auto dest: upd_mem)
    with assms(1) have "1 \<le> ac_revision b" by (simp add: users_ok_def list_all_iff)
    with b(2) assms(3) [of b] show "1 \<le> ac_revision a" by auto
  qed
  have d: "distinct (map ac_id us)" "distinct us" using assms(1) by (auto simp: users_ok_def distinct_map)
  have stays: "a \<in> set ?vs" if "a \<in> set us" "a \<noteq> row" for a
    using that d distinct_map_same [OF d(1) that(1) assms(2)] by (auto simp: set_upd)
  have "\<exists>a \<in> set ?vs. active_admin a"
  proof (cases "active_admin (f row)")
    case True
    with assms(2) show ?thesis by (auto simp: set_upd)
  next
    case False
    have "\<exists>a \<in> set us. active_admin a \<and> a \<noteq> row"
    proof (cases "active_admin row")
      case True
      with assms(4) False show ?thesis using another_row [OF _ d(2) assms(2)] by blast
    next
      case False
      with assms(1,2) show ?thesis by (auto simp: users_ok_def list_ex_iff)
    qed
    with stays show ?thesis by blast
  qed
  with same rev assms(1) show ?thesis by (simp add: users_ok_def list_all_iff list_ex_iff)
qed

lemma users_extends_upd:
  assumes "\<And>a. ac_id (f a) = ac_id a \<and> ac_username (f a) = ac_username a \<and> ac_created (f a) = ac_created a \<and> ac_revision a \<le> ac_revision (f a)"
  shows "extends same_account us (upd p f us)"
  using assms by (intro extends_upd) (auto simp: same_account_def)

lemma replace_password_ok:
  assumes "auth_ok s" "find_user u s = Some row"
  shows "auth_ok (replace_password e u enc must s) \<and> auth_le s (replace_password e u enc must s)"
proof -
  let ?f = "\<lambda>a. a\<lparr>ac_hash := enc, ac_must_change := must, ac_revision := ac_revision a + 1, ac_updated := now e\<rparr>"
  let ?vs = "upd (\<lambda>a. ac_id a = u) ?f (au_users s)"
  from find_user_mem [OF assms(2)] have row: "row \<in> set (au_users s)" "ac_id row = u" by auto
  from assms(1) have ok: "users_ok (au_users s) (db_user_ids (au_store s))" "sessions_ok (au_users s) (au_sessions s)"
    "grants_ok (au_users s) (db_tasks (au_store s)) (au_grants s)" "attempts_ok (au_attempts s)" by (simp_all add: auth_ok_def)
  have "users_ok ?vs (db_user_ids (au_store s))"
    using users_ok_upd [OF ok(1) row(1), of ?f] row(2) by (simp add: active_admin_def)
  moreover have "sessions_ok ?vs (del (\<lambda>x. se_user x = Some u) (au_sessions s))"
    by (rule sessions_ok_users [OF sessions_ok_del [OF ok(2)]]) (auto simp: set_upd stands_for_def)
  moreover have "grants_ok ?vs (db_tasks (au_store s)) (au_grants s)"
  proof (rule grants_ok_users [OF ok(3)])
    fix a t assume "a \<in> set (au_users s)" "ac_role a = Viewer"
    then show "\<exists>b \<in> set ?vs. ac_id b = ac_id a \<and> ac_role b = Viewer"
      using in_upd [of a _ "\<lambda>a. ac_id a = u" ?f] by (intro bexI [of _ "if ac_id a = u then ?f a else a"]) simp_all
  qed
  ultimately show ?thesis using ok(4) users_extends_upd [of ?f "au_users s"] auth_le_refl [of s]
    by (simp add: auth_ok_def auth_le_def replace_password_def)
qed

lemma apply_update_ok:
  assumes "auth_ok s" "find_user (ac_id row) s = Some row"
    and "active_admin row \<Longrightarrow> new_role \<noteq> Admin \<or> \<not> new_active \<Longrightarrow> 1 < count_rows active_admin (au_users s)"
    and "\<And>ids. grants = Some ids \<Longrightarrow> distinct ids \<and> (\<forall>t \<in> set ids. some_row (\<lambda>x. task_id x = t) (db_tasks (au_store s)))"
  shows "auth_ok (apply_update e row name new_role new_active grants s) \<and> auth_le s (apply_update e row name new_role new_active grants s)"
proof -
  let ?u = "ac_id row" and ?s' = "apply_update e row name new_role new_active grants s"
  define revoke where "revoke = (new_role \<noteq> ac_role row \<or> new_active \<noteq> ac_active row)"
  define f where "f a = a\<lparr>ac_name := name, ac_role := new_role, ac_active := new_active,
    ac_updated := now e, ac_revision := ac_revision a + (if revoke then 1 else 0)\<rparr>" for a :: account
  have f_eq: "f = (\<lambda>a. a\<lparr>ac_name := name, ac_role := new_role, ac_active := new_active,
    ac_updated := now e, ac_revision := ac_revision a + (if revoke then 1 else 0)\<rparr>)" by (rule ext) (rule f_def)
  define vs where "vs = upd (\<lambda>a. ac_id a = ?u) f (au_users s)"
  from find_user_mem [OF assms(2)] have row: "row \<in> set (au_users s)" by auto
  from assms(1) have ok: "users_ok (au_users s) (db_user_ids (au_store s))" "sessions_ok (au_users s) (au_sessions s)"
    "grants_ok (au_users s) (db_tasks (au_store s)) (au_grants s)" "attempts_ok (au_attempts s)" by (simp_all add: auth_ok_def)
  have only: "a = row" if "a \<in> set (au_users s)" "ac_id a = ?u" for a
    using ok(1) that row by (auto simp: users_ok_def dest: distinct_map_same)
  have "users_ok vs (db_user_ids (au_store s))"
    unfolding vs_def using assms(3) by (intro users_ok_upd [OF ok(1) row]) (auto simp: f_def active_admin_def)
  moreover have "sessions_ok vs (if revoke then del (\<lambda>x. se_user x = Some ?u) (au_sessions s) else au_sessions s)"
  proof (rule sessions_ok_users)
    show "sessions_ok (au_users s) (if revoke then del (\<lambda>x. se_user x = Some ?u) (au_sessions s) else au_sessions s)"
      using ok(2) by (simp add: sessions_ok_del)
  next
    fix a x assume a: "a \<in> set (au_users s)" "stands_for x a"
      and x: "x \<in> set (if revoke then del (\<lambda>x. se_user x = Some ?u) (au_sessions s) else au_sessions s)"
    have "revoke \<Longrightarrow> ac_id a \<noteq> ?u" using a(2) x by (auto simp: stands_for_def)
    then show "\<exists>b \<in> set vs. ac_id b = ac_id a \<and> ac_active b \<and> ac_revision b = ac_revision a"
      using in_upd [OF a(1), of "\<lambda>a. ac_id a = ?u" f] a only [OF a(1)] unfolding vs_def
      by (intro bexI [of _ "if ac_id a = ?u then f a else a"]) (auto simp: f_def revoke_def stands_for_def)
  qed
  moreover have "grants_ok vs (db_tasks (au_store s)) (au_grants ?s')"
  proof -
    define kept where "kept = (if new_role \<noteq> Viewer \<or> grants \<noteq> None \<or> new_role \<noteq> ac_role row
      then del (\<lambda>(v, t). v = ?u) (au_grants s) else au_grants s)"
    have "grants_ok (au_users s) (db_tasks (au_store s)) kept" using ok(3) by (auto simp: kept_def grants_ok_def list_all_iff del_def)
    then have k: "grants_ok vs (db_tasks (au_store s)) kept"
    proof (rule grants_ok_users)
      fix a t assume a: "a \<in> set (au_users s)" "ac_role a = Viewer" "(ac_id a, t) \<in> set kept"
      show "\<exists>b \<in> set vs. ac_id b = ac_id a \<and> ac_role b = Viewer"
        using in_upd [OF a(1), of "\<lambda>a. ac_id a = ?u" f] a unfolding vs_def kept_def
        by (intro bexI [of _ "if ac_id a = ?u then f a else a"]) (auto simp: f_def split: if_splits)
    qed
    have "\<exists>a \<in> set vs. ac_id a = ?u \<and> ac_role a = new_role"
      using in_upd [OF row, of "\<lambda>a. ac_id a = ?u" f] unfolding vs_def by (intro bexI [of _ "f row"]) (auto simp: f_def)
    then have "grants_ok vs (db_tasks (au_store s)) (kept @ map (Pair ?u) (if new_role = Viewer then default [] grants else []))"
      if "new_role = Viewer \<and> grants \<noteq> None"
      using that k assms(4) by (intro grants_ok_give) (auto simp: kept_def)
    with k show ?thesis by (cases grants) (auto simp: apply_update_def Let_def kept_def)
  qed
  moreover have "extends same_account (au_users s) vs" unfolding vs_def by (rule users_extends_upd) (simp add: f_def)
  moreover have "au_users ?s' = vs" "au_attempts ?s' = au_attempts s" "au_store ?s' = au_store s"
    "au_sessions ?s' = (if revoke then del (\<lambda>x. se_user x = Some ?u) (au_sessions s) else au_sessions s)"
    unfolding apply_update_def Let_def vs_def f_eq revoke_def by simp_all
  ultimately show ?thesis using ok(4) auth_le_refl [of s] by (simp add: auth_ok_def auth_le_def)
qed

lemma update_user_shape:
  assumes "update_user e actor user display r active tasks s = Inr (g, s')"
  shows "\<exists>row name new_role new_active grants w t p m. find_user user s = Some row
    \<and> \<not> (active_admin row \<and> (new_role \<noteq> Admin \<or> \<not> new_active) \<and> count_rows active_admin (au_users s) \<le> 1)
    \<and> (if tasks = JNull then Inr None else and_then (grant_ids tasks s) (\<lambda>g. Inr (Some g))) = Inr grants
    \<and> s' = auth_audit e w t p m (apply_update e row name new_role new_active grants s)"
proof -
  from assms obtain row where row: "find_user user s = Some row"
    by (auto simp: update_user_def and_then_Inr split: if_splits option.splits)
  define new_role where "new_role = default (ac_role row) (role_of r)"
  define new_active where "new_active = (case active of JBool b \<Rightarrow> b | _ \<Rightarrow> ac_active row)"
  from assms have "and_then (current_user actor True False s) (\<lambda>_. case find_user user s of
       None \<Rightarrow> Inl (NotFoundError ''account'')
     | Some row \<Rightarrow>
         let new_role = default (ac_role row) (role_of r);
             new_active = (case active of JBool b \<Rightarrow> b | _ \<Rightarrow> ac_active row)
         in if active_admin row \<and> (new_role \<noteq> Admin \<or> \<not> new_active) \<and> count_rows active_admin (au_users s) \<le> 1
            then Inl (ValidationError ''last active admin'')
            else and_then (if display = JNull then Inr (ac_name row) else display_name display (ac_username row)) (\<lambda>name.
              and_then (if tasks = JNull then Inr None else and_then (grant_ids tasks s) (\<lambda>g. Inr (Some g))) (\<lambda>grants.
                found_view user (auth_audit e (actor_text actor) ''auth_user_updated'' user
                  [(''role'', JStr (role_text new_role)), (''active'', JBool new_active), (''grants_changed'', JBool (grants \<noteq> None))]
                  (apply_update e row name new_role new_active grants s))))) = Inr (g, s')"
    unfolding update_user_def by (simp split: if_split_asm)
  from this [unfolded and_then_Inr row option.case Let_def, folded new_role_def new_active_def] obtain name grants where
    guard: "\<not> (active_admin row \<and> (new_role \<noteq> Admin \<or> \<not> new_active) \<and> count_rows active_admin (au_users s) \<le> 1)"
    and g: "(if tasks = JNull then Inr None else and_then (grant_ids tasks s) (\<lambda>g. Inr (Some g))) = Inr grants"
    and "found_view user (auth_audit e (actor_text actor) ''auth_user_updated'' user
      [(''role'', JStr (role_text new_role)), (''active'', JBool new_active), (''grants_changed'', JBool (grants \<noteq> None))]
      (apply_update e row name new_role new_active grants s)) = Inr (g, s')"
    by (simp only: if_Inl_eq_Inr and_then_Inr) blast
  then obtain w t p m where s': "s' = auth_audit e w t p m (apply_update e row name new_role new_active grants s)"
    by (simp add: found_view_def split: option.splits) blast
  with row guard g show ?thesis by blast
qed

lemma update_user_ok:
  assumes "update_user e actor user display r active tasks s = Inr (g, s')" "auth_ok s"
  shows "auth_ok s' \<and> auth_le s s'"
proof -
  from update_user_shape [OF assms(1)] obtain row name new_role new_active grants w t p m where row: "find_user user s = Some row"
    and guard: "\<not> (active_admin row \<and> (new_role \<noteq> Admin \<or> \<not> new_active) \<and> count_rows active_admin (au_users s) \<le> 1)"
    and g: "(if tasks = JNull then Inr None else and_then (grant_ids tasks s) (\<lambda>g. Inr (Some g))) = Inr grants"
    and s': "s' = auth_audit e w t p m (apply_update e row name new_role new_active grants s)" by blast
  from g have ids: "distinct ids \<and> (\<forall>t \<in> set ids. some_row (\<lambda>x. task_id x = t) (db_tasks (au_store s)))" if "grants = Some ids" for ids
    using that by (auto simp: and_then_Inr split: if_splits dest: grant_ids_ok)
  from find_user_mem [OF row] have "ac_id row = user" by simp
  with apply_update_ok [OF assms(2), of row new_role new_active grants e name] row guard ids
  show ?thesis unfolding s' by (auto intro: auth_audit_le)
qed

lemma current_user_Inr: "current_user p admin c s = Inr a \<Longrightarrow> \<exists>q. p = Some q \<and> find_user (pr_id q) s = Some a \<and> ac_active a
    \<and> (admin \<longrightarrow> ac_role a = Admin) \<and> (\<not> c \<longrightarrow> \<not> ac_must_change a)"
  by (auto simp: current_user_def split: option.splits if_splits)

lemma reset_commit_ok: "reset_commit e actor u enc s = Inr (x, s') \<Longrightarrow> auth_ok s \<Longrightarrow> auth_ok s' \<and> auth_le s s'"
  using replace_password_ok [of s u _ e enc True] by (auto simp: reset_commit_def and_then_Inr intro: auth_audit_le split: if_splits)

lemma find_user_own:
  assumes "users_ok (au_users s) ids" "a \<in> set (au_users s)"
  shows "find_user (ac_id a) s = Some a"
proof -
  have "find_user (ac_id a) s \<noteq> None" using assms(2) by (auto simp: find_user_def sel1_None)
  then obtain b where "find_user (ac_id a) s = Some b" by blast
  with find_user_mem [OF this] assms show ?thesis by (auto simp: users_ok_def dest: distinct_map_same)
qed

lemma cli_reset_ok:
  assumes "cli_reset_commit e name enc s = Inr (x, s')" "auth_ok s"
  shows "auth_ok s' \<and> auth_le s s'"
proof -
  from assms(1) obtain a w t p m where a: "find_username name s = Some a"
    and s': "s' = auth_audit e w t p m (replace_password e (ac_id a) enc False s)"
    by (auto simp: cli_reset_commit_def split: option.splits)
  from a have "a \<in> set (au_users s)" by (auto simp: find_username_def dest: sel1_Some)
  with find_user_own [OF _ this] assms(2) have "find_user (ac_id a) s = Some a" by (auto simp: auth_ok_def)
  from replace_password_ok [OF assms(2) this] show ?thesis by (simp add: s' auth_audit_le)
qed

lemma change_commit_ok:
  assumes "change_commit e sha p revision enc fresh s = Inr (g, s')" "auth_ok s"
  shows "auth_ok s' \<and> auth_le s s'"
proof -
  from assms(1) obtain c where u: "current_user p False True s = Inr c" and rest: "ac_revision c = revision"
    by (auto simp: change_commit_def and_then_Inr split: if_splits)
  from current_user_Inr [OF u] obtain q :: principal where c: "find_user (pr_id q) s = Some c" "ac_active c" by auto
  define s1 where "s1 = auth_audit e (actor_text p) ''auth_password_changed'' (ac_id c) [] (replace_password e (ac_id c) enc False s)"
  from assms(1) u rest have n: "new_session e sha fresh (find_user (ac_id c) s1) s1 = Inr (g, s')"
    by (simp add: change_commit_def s1_def Let_def)
  from find_user_mem [OF c(1)] have "find_user (ac_id c) s = Some c" using c(1) by simp
  from replace_password_ok [OF assms(2) this] have 1: "auth_ok s1" "auth_le s s1" by (simp_all add: s1_def auth_audit_le)
  have "ac_active a" if "find_user (ac_id c) s1 = Some a" for a
  proof -
    from that have "a \<in> set (upd (\<lambda>a. ac_id a = ac_id c) (\<lambda>a. a\<lparr>ac_hash := enc, ac_must_change := False,
        ac_revision := ac_revision a + 1, ac_updated := now e\<rparr>) (au_users s))" "ac_id a = ac_id c"
      using find_user_mem [of "ac_id c" s1 a] by (simp_all add: s1_def replace_password_def)
    with assms(2) c find_user_mem [OF c(1)] show ?thesis
      by (auto simp: auth_ok_def users_ok_def dest!: upd_mem dest: distinct_map_same)
  qed
  with new_session_ok [OF n 1(1)] find_user_mem 1(2) show ?thesis by (meson auth_le_trans)
qed

section \<open>Histories\<close>

text \<open>The transactions of the service. An operation that derives a password is one of these
  after another, with other transactions between them.\<close>

datatype auth_op =
    IssueToken env "string \<Rightarrow> string" string
  | NewPreAuth env "string \<Rightarrow> string" "string \<times> string"
  | Resolve env "string \<Rightarrow> string" json bool
  | Logout env "string \<Rightarrow> string" json
  | Reserve env "string \<Rightarrow> string" string
  | SetupCommit env "string \<Rightarrow> string" string string string string string "string \<times> string"
  | LoginCommit env "string \<Rightarrow> string" account string "string \<times> string"
  | CreateCommit env "principal option" string string string string role json
  | UpdateUser env "principal option" string json json json json
  | ResetCommit env "principal option" string string
  | CliReset env string string
  | ChangeCommit env "string \<Rightarrow> string" "principal option" int string "string \<times> string"

definition silent :: "('r \<times> auth) res \<Rightarrow> (unit \<times> auth) res" where
  "silent m = and_then m (\<lambda>(r, s). Inr ((), s))"

lemma silent_Inr: "silent m = Inr (u, s') \<longleftrightarrow> (\<exists>r. m = Inr (r, s'))"
  by (auto simp: silent_def and_then_Inr)

fun auth_step :: "auth_op \<Rightarrow> auth \<Rightarrow> (unit \<times> auth) res" where
  "auth_step (IssueToken e sha token) s = silent (issue_setup_token e sha token s)"
| "auth_step (NewPreAuth e sha fresh) s = silent (new_preauth_session e sha fresh s)"
| "auth_step (Resolve e sha raw touch) s = Inr ((), snd (resolve_session e sha raw touch (\<lambda>s. s) s))"
| "auth_step (Logout e sha raw) s = Inr ((), logout e sha raw s)"
| "auth_step (Reserve e sha name) s = silent (reserve_attempt e sha name s)"
| "auth_step (SetupCommit e sha token user n shown enc fresh) s =
     silent (setup_commit e sha token (new_account e user n shown enc Admin False) fresh s)"
| "auth_step (LoginCommit e sha user key fresh) s = silent (login_commit e sha user key fresh s)"
| "auth_step (CreateCommit e actor user n shown enc r tasks) s =
     silent (create_commit e actor (new_account e user n shown enc r True) tasks s)"
| "auth_step (UpdateUser e actor user display r active tasks) s = silent (update_user e actor user display r active tasks s)"
| "auth_step (ResetCommit e actor user enc) s = silent (reset_commit e actor user enc s)"
| "auth_step (CliReset e name enc) s = silent (cli_reset_commit e name enc s)"
| "auth_step (ChangeCommit e sha p revision enc fresh) s = silent (change_commit e sha p revision enc fresh s)"

lemma issue_ok: "issue_setup_token e sha token s = Inr (t, s') \<Longrightarrow> auth_ok s \<Longrightarrow> auth_ok s' \<and> auth_le s s'"
  using auth_le_refl [of s]
  by (auto simp: issue_setup_token_def auth_ok_def auth_le_def split: if_splits intro!: auth_audit_le [unfolded auth_le_def, THEN conjunct2, THEN conjunct1])

lemma auth_step_ok: "auth_ok s \<Longrightarrow> auth_step op s = Inr (u, s') \<Longrightarrow> auth_ok s' \<and> auth_le s s'"
  by (cases op)
    (auto simp: silent_Inr new_preauth_session_def simp del: split_paired_Ex
      dest: issue_ok new_session_ok reserve_ok setup_commit_ok login_commit_ok create_commit_ok update_user_ok
        reset_commit_ok cli_reset_ok change_commit_ok resolve_ok logout_ok)

interpretation accounts: monotone_ops auth_step auth_ok auth_le
  by unfold_locales (auto dest: auth_step_ok intro: auth_le_refl auth_le_trans)

text \<open>C16: from a well-formed state, every history of the account service is well formed: accounts
  have their own name and identity, every stored session is anonymous (at most 1000 of them) or
  stands for an active account at its current credential revision, grants belong to viewers and
  to existing tasks, the login counters stay within their limits, and once there are accounts
  there is an active administrator. Accounts are never removed or renamed, their revisions never
  go back and the audit log only grows.\<close>

theorem auth_history:
  assumes "auth_ok s"
  shows "auth_ok (exec auth_step ops s) \<and> auth_le s (exec auth_step ops s)"
  using accounts.exec_inv [OF assms] accounts.exec_le [OF assms] by simp

text \<open>The operations that derive a password keep the invariant when what runs meanwhile does.\<close>

lemma transact_ok:
  assumes "auth_ok s" "\<And>r s'. f s = Inr (r, s') \<Longrightarrow> auth_ok s'"
  shows "auth_ok (snd (transact f s))"
  using assms by (auto simp: transact_def split: sum.splits)

lemma after_reserve: "transact (reserve_attempt e sha n) s = (r, s1) \<Longrightarrow> auth_ok s \<Longrightarrow> auth_ok s1"
  by (auto simp: transact_def split: sum.splits dest: reserve_ok)

lemma login_keeps:
  assumes "auth_ok s" "\<And>s. auth_ok s \<Longrightarrow> auth_ok (mid s)"
  shows "auth_ok (snd (login e e2 sha kdf busy fresh name password mid s))"
proof -
  have "auth_ok (snd (transact (login_commit e2 sha a key fresh) (mid t)))" if "auth_ok t" for a key t
    using assms(2) [OF that] by (rule transact_ok) (use assms(2) [OF that] in \<open>auto dest: login_commit_ok\<close>)
  with assms show ?thesis
    by (auto simp: login_def Let_def split: prod.splits sum.splits option.splits dest: after_reserve)
qed

lemma setup_keeps:
  assumes "auth_ok s" "\<And>s. auth_ok s \<Longrightarrow> auth_ok (mid s)"
  shows "auth_ok (snd (setup_admin e e2 sha kdf busy salt user fresh token name password display mid s))"
proof -
  have "auth_ok (snd (transact (setup_commit e2 sha k (new_account e2 user n shown enc Admin False) fresh) (mid t)))"
    if "auth_ok t" for k n shown enc t
    using assms(2) [OF that] by (rule transact_ok) (use assms(2) [OF that] in \<open>auto dest: setup_commit_ok\<close>)
  with assms show ?thesis
    by (auto simp: setup_admin_def split: prod.splits sum.splits option.splits dest: after_reserve)
qed

section \<open>Resolving a session\<close>

lemma session_owner_Some: "session_owner x s = Some a \<Longrightarrow> a \<in> set (au_users s) \<and> stands_for x a"
  by (auto simp: session_owner_def stands_for_def dest: find_user_mem split: option.splits if_splits)

lemma session_at_Some:
  assumes "session_at e sha token s = Some (x, Some a)"
  shows "x \<in> set (au_sessions s)" "se_hash x = sha token" "now e < se_expires x" "now e < se_seen x + secs SESSION_IDLE_SECONDS"
    "a \<in> set (au_users s)" "stands_for x a"
  using assms by (auto simp: session_at_def dest: sel1_Some session_owner_Some split: option.splits if_splits)

lemma session_needs_current:
  assumes "resolve_session e sha raw touch mid s = (Some b, s')" "bs_principal b = Some p"
  obtains token x a where "is_token raw = Some token" "session_at e sha token s = Some (x, Some a)" "p = principal_of a"
    "touch \<Longrightarrow> some_row (touchable e (se_hash x) (mid s)) (au_sessions (mid s))"
proof -
  from assms(1) obtain token where token: "is_token raw = Some token"
    by (auto simp: resolve_session_def split: option.splits)
  moreover from assms token obtain x a where "session_at e sha token s = Some (x, Some a)" "p = principal_of a"
    "touch \<longrightarrow> some_row (touchable e (se_hash x) (mid s)) (au_sessions (mid s))"
    by (auto simp: resolve_session_def browser_of_def Let_def split: option.splits if_splits)
  ultimately show ?thesis using that by blast
qed

text \<open>A token is resolved to a principal only for a stored, unexpired, not idle session of an
  active account at its current credentials, and the principal is that account as it is in the
  database; when the session is touched, it is still so after whatever other requests committed
  in between.\<close>

theorem session_needs_current_account:
  assumes "resolve_session e sha raw touch mid s = (Some b, s')" "bs_principal b = Some p"
  shows "\<exists>token x a. raw = JStr token \<and> length token = 43 \<and> x \<in> set (au_sessions s) \<and> se_hash x = sha token
    \<and> now e < se_expires x \<and> now e < se_seen x + secs SESSION_IDLE_SECONDS \<and> a \<in> set (au_users s) \<and> stands_for x a
    \<and> p = principal_of a \<and> (\<not> touch \<or> (\<exists>y \<in> set (au_sessions (mid s)). \<exists>c \<in> set (au_users (mid s)).
      se_hash y = sha token \<and> stands_for y c \<and> now e < se_expires y))"
proof -
  from session_needs_current [OF assms] obtain token x a where token: "is_token raw = Some token"
    and x: "session_at e sha token s = Some (x, Some a)" "p = principal_of a"
    and t: "touch \<longrightarrow> some_row (touchable e (se_hash x) (mid s)) (au_sessions (mid s))" by metis
  from token have raw: "raw = JStr token" "length token = 43" by (auto simp: is_token_def split: json.splits if_splits)
  note at = session_at_Some [OF x(1)]
  have "\<not> touch \<or> (\<exists>y \<in> set (au_sessions (mid s)). \<exists>c \<in> set (au_users (mid s)). se_hash y = sha token \<and> stands_for y c \<and> now e < se_expires y)"
    using t at(2) by (auto simp: some_row_iff touchable_def dest!: session_owner_Some)
  with raw x(2) at show ?thesis by blast
qed

text \<open>Which step may open a session for an account.\<close>

fun opens_session :: "string \<Rightarrow> auth_op \<Rightarrow> bool" where
  "opens_session u (SetupCommit e sha token user n shown enc fresh) = (user = u)"
| "opens_session u (LoginCommit e sha a key fresh) = (ac_id a = u)"
| "opens_session u (ChangeCommit e sha p revision enc fresh) = (map_option pr_id p = Some u)"
| "opens_session u _ = False"

definition no_session :: "string \<Rightarrow> auth \<Rightarrow> bool" where
  "no_session u s = list_all (\<lambda>x. se_user x \<noteq> Some u) (au_sessions s)"

lemma no_session_new:
  assumes "new_session e sha fresh user s = Inr (g, s')" "map_option ac_id user \<noteq> Some u" "no_session u s"
  shows "no_session u s'"
  using assms by (auto simp: new_session_def Let_def and_then_Inr ins_Inr no_session_def list_all_iff session_for_def split: if_splits)

lemma no_session_frame [simp]:
  "no_session u (auth_audit e w t k m s) = no_session u s" "no_session u (s\<lparr>au_attempts := x\<rparr>) = no_session u s"
  "no_session u (s\<lparr>au_store := d\<rparr>) = no_session u s" "no_session u (s\<lparr>au_setup := y\<rparr>) = no_session u s"
  "no_session u (s\<lparr>au_grants := gs\<rparr>) = no_session u s"
  by (simp_all add: no_session_def)

lemma no_session_replace: "no_session u s \<Longrightarrow> no_session u (replace_password e v enc must s)"
  by (auto simp: no_session_def replace_password_def list_all_iff)

lemma no_session_replaced: "no_session u (replace_password e u enc must s)"
  by (auto simp: no_session_def replace_password_def list_all_iff)

lemma no_session_insert: "insert_account a s = Inr s' \<Longrightarrow> no_session u s \<Longrightarrow> no_session u s'"
  by (auto simp: insert_account_def and_then_Inr no_session_def split: if_splits)

lemma no_session_apply: "no_session u s \<Longrightarrow> no_session u (apply_update e row name r active grants s)"
  by (auto simp: no_session_def apply_update_def Let_def list_all_iff)

lemma find_user_id: "find_user u s = Some a \<Longrightarrow> ac_id a = u"
  by (simp add: find_user_mem)

lemma no_session_setup:
  "setup_commit e sha token a fresh s = Inr (g, s') \<Longrightarrow> ac_id a \<noteq> u \<Longrightarrow> no_session u s \<Longrightarrow> no_session u s'"
  by (auto simp: setup_commit_def and_then_Inr split: if_splits elim!: no_session_new dest!: no_session_insert)

lemma no_session_login:
  "login_commit e sha a key fresh s = Inr (g, s') \<Longrightarrow> ac_id a \<noteq> u \<Longrightarrow> no_session u s \<Longrightarrow> no_session u s'"
  by (auto simp: login_commit_def split: option.splits if_splits elim!: no_session_new dest: find_user_id)

lemma no_session_change:
  assumes "change_commit e sha p revision enc fresh s = Inr (g, s')" "map_option pr_id p \<noteq> Some u" "no_session u s"
  shows "no_session u s'"
proof -
  from assms(1) obtain c where c: "current_user p False True s = Inr c" "ac_revision c = revision"
    by (auto simp: change_commit_def and_then_Inr split: if_splits)
  let ?s1 = "auth_audit e (actor_text p) ''auth_password_changed'' (ac_id c) [] (replace_password e (ac_id c) enc False s)"
  from assms(1) c have n: "new_session e sha fresh (find_user (ac_id c) ?s1) ?s1 = Inr (g, s')"
    by (simp add: change_commit_def Let_def)
  from current_user_Inr [OF c(1)] assms(2) have "ac_id c \<noteq> u" by (auto dest: find_user_id)
  then have "map_option ac_id (find_user (ac_id c) ?s1) \<noteq> Some u" by (auto dest: find_user_id)
  from no_session_new [OF n this] assms(3) show ?thesis by (simp add: no_session_replace)
qed

lemma no_session_create:
  "create_commit e actor a tasks s = Inr (g, s') \<Longrightarrow> no_session u s \<Longrightarrow> no_session u s'"
  by (auto simp: create_commit_def and_then_Inr found_view_def Let_def split: if_splits option.splits dest!: no_session_insert)

lemma no_session_update:
  "update_user e actor user display r active tasks s = Inr (g, s') \<Longrightarrow> no_session u s \<Longrightarrow> no_session u s'"
  by (drule update_user_shape) (auto simp: no_session_apply)

lemma no_session_step:
  assumes "auth_step op s = Inr (x, s')" "\<not> opens_session u op" "no_session u s"
  shows "no_session u s'"
proof (cases op)
  case (Resolve e sha raw touch)
  have "no_session u (s\<lparr>au_sessions := upd p (\<lambda>y. y\<lparr>se_seen := n\<rparr>) (au_sessions s)\<rparr>)" for p n
    using assms(3) by (auto simp: no_session_def list_all_iff dest!: upd_mem)
  with Resolve assms show ?thesis by (auto simp: resolve_session_def Let_def split: option.splits)
next
  case (Logout e sha raw)
  have "no_session u (s\<lparr>au_sessions := del p (au_sessions s)\<rparr>)" for p
    using assms(3) by (auto simp: no_session_def list_all_iff)
  with Logout assms show ?thesis by (auto simp: logout_def Let_def split: option.splits)
next
  case (NewPreAuth e sha fresh)
  with assms show ?thesis by (auto simp: silent_Inr new_preauth_session_def elim!: no_session_new)
qed (use assms in \<open>auto simp: silent_Inr issue_setup_token_def reserve_attempt_def Let_def reset_commit_def cli_reset_commit_def
    and_then_Inr new_account_def no_session_replace split: if_splits option.splits
    dest: no_session_setup no_session_login no_session_change no_session_create no_session_update\<close>)

text \<open>After an administrator resets a password, no session of that account is resolved any more,
  whatever token is presented and whatever requests follow, until the account itself is logged in
  again (or created again by setup, or its own password change opens one).\<close>

theorem password_reset_revokes:
  assumes "reset_commit e actor u encoded s = Inr (r, s1)" "list_all (\<lambda>op. \<not> opens_session u op) ops"
    and "resolve_session e2 sha raw touch mid (exec auth_step ops s1) = (Some b, s')" "bs_principal b = Some p"
  shows "pr_id p \<noteq> u"
proof -
  have "no_session u s1"
    using assms(1) no_session_replaced by (auto simp: reset_commit_def and_then_Inr split: if_splits)
  with assms(2) have "no_session u (exec auth_step ops s1)"
    by (induction ops arbitrary: s1) (auto simp: commit_def split: sum.splits dest: no_session_step)
  moreover from session_needs_current [OF assms(3,4)] obtain token x a where
    "session_at e2 sha token (exec auth_step ops s1) = Some (x, Some a)" "p = principal_of a" by metis
  ultimately show ?thesis using session_at_Some [of e2 sha token _ x a]
    by (auto simp: no_session_def list_all_iff stands_for_def principal_of_def)
qed

section \<open>Logging in\<close>

lemma new_session_result:
  assumes "new_session e sha fresh (Some a) s = Inr (g, s')"
  shows "gr_token g = fst fresh \<and> bs_principal (gr_session g) = Some (principal_of a)
    \<and> (\<exists>x \<in> set (au_sessions s'). se_hash x = sha (fst fresh) \<and> stands_for x a = ac_active a \<and> se_expires x = now e + secs SESSION_ABSOLUTE_SECONDS)"
  using assms by (auto simp: new_session_def Let_def and_then_Inr session_for_def stands_for_def browser_of_def ins_Inr split: if_splits)

text \<open>What a granted login means.\<close>

definition justified_login ::
    "env \<Rightarrow> (string \<Rightarrow> string) \<Rightarrow> kdf \<Rightarrow> nat \<Rightarrow> json \<Rightarrow> json \<Rightarrow> auth \<Rightarrow> auth \<Rightarrow> grant \<Rightarrow> auth \<Rightarrow> bool" where
  "justified_login e2 sha kdf busy name password before between g after =
    (\<exists>a \<in> set (au_users before). \<exists>c \<in> set (au_users between).
       ac_username a = normalized name \<and> verify_password kdf busy (Some (ac_hash a)) password = Inr True \<and> ac_active a
       \<and> ac_id c = ac_id a \<and> ac_active c \<and> ac_revision c = ac_revision a \<and> bs_principal (gr_session g) = Some (principal_of c)
       \<and> (\<exists>x \<in> set (au_sessions after). se_hash x = sha (gr_token g) \<and> stands_for x c
            \<and> se_expires x = now e2 + secs SESSION_ABSOLUTE_SECONDS))"

text \<open>C17: once the attempt is counted and a derivation slot is free, a login either opens a session
  of the named, active account whose stored credential verifies the password and did not change
  during the derivation, or fails: with one and the same error and state whether the name is
  unknown, the password wrong, the account disabled or its credentials changed (the only other
  error is a collision of the random token with a stored one).\<close>

theorem login_outcome:
  assumes "reserve_attempt e sha (take 256 (normalized name)) s = Inr (key, s1)" "busy < PASSWORD_SLOTS"
  shows "case login e e2 sha kdf busy fresh name password mid s of
      (Inr g, s') \<Rightarrow> justified_login e2 sha kdf busy name password s1 (mid s1) g s'
    | (Inl er, s') \<Rightarrow> s' = mid s1 \<and> er \<in> {AuthenticationError ''login'', IntegrityError ''auth_sessions''}"
proof -
  let ?user = "if username_ok (normalized name) then find_username (normalized name) s1 else None"
  from assms(2) obtain valid where v: "verify_password kdf busy (map_option ac_hash ?user) password = Inr valid"
    by (simp add: verify_password_def derive_def Let_def case_prod_beta)
  have start: "transact (reserve_attempt e sha (take 256 (normalized name))) s = (Inr key, s1)" using assms(1) by (simp add: transact_def)
  show ?thesis
  proof (cases "\<exists>a. ?user = Some a \<and> valid \<and> ac_active a")
    case False
    with start v show ?thesis by (auto simp: login_def Let_def split: option.splits)
  next
    case True
    then obtain a where a: "?user = Some a" "valid" "ac_active a" by blast
    then have in_s1: "a \<in> set (au_users s1)" "ac_username a = normalized name"
      by (auto simp: find_username_def dest: sel1_Some split: if_splits)
    have l: "login e e2 sha kdf busy fresh name password mid s = transact (login_commit e2 sha a key fresh) (mid s1)"
      unfolding login_def start using v a by (simp add: Let_def)
    show ?thesis
    proof (cases "login_commit e2 sha a key fresh (mid s1)")
      case (Inl er)
      then have "er \<in> {AuthenticationError ''login'', IntegrityError ''auth_sessions''}"
        by (auto simp: login_commit_def new_session_def Let_def and_then_Inl ins_Inl split: option.splits if_splits)
      with Inl l show ?thesis by (simp add: transact_def)
    next
      case (Inr r)
      then obtain g s' where r: "login_commit e2 sha a key fresh (mid s1) = Inr (g, s')" by (cases r) auto
      then obtain c t where c: "find_user (ac_id a) (mid s1) = Some c" "ac_active c" "ac_revision c = ac_revision a"
        and n: "new_session e2 sha fresh (Some c) t = Inr (g, s')"
        by (auto simp: login_commit_def split: option.splits if_splits)
      from new_session_result [OF n] c(2) have "justified_login e2 sha kdf busy name password s1 (mid s1) g s'"
        unfolding justified_login_def using in_s1 a v find_user_mem [OF c(1)] c
        by (intro bexI [of _ a] bexI [of _ c]) auto
      with r l show ?thesis by (simp add: transact_def)
    qed
  qed
qed

section \<open>Counting attempts\<close>

text \<open>The attempts a key has in the table.\<close>

definition counted :: "string \<Rightarrow> attempt_row list \<Rightarrow> int" where
  "counted key t = (case sel1 (\<lambda>a. at_key a = key) t of None \<Rightarrow> 0 | Some a \<Rightarrow> at_count a)"

lemma counted_bump: "counted key (bump n k t) = counted key t + (if key = k then 1 else 0)"
proof (cases "key = k")
  case False
  then show ?thesis by (simp add: counted_def bump_other)
next
  case True
  show ?thesis
  proof (cases "some_row (\<lambda>a. at_key a = k) t")
    case True
    have "sel1 (\<lambda>a. at_key a = k) (upd (\<lambda>a. at_key a = k) (\<lambda>a. a\<lparr>at_count := at_count a + 1\<rparr>) t)
        = map_option (\<lambda>a. a\<lparr>at_count := at_count a + 1\<rparr>) (sel1 (\<lambda>a. at_key a = k) t)" by (induction t) auto
    moreover have "sel1 (\<lambda>a. at_key a = k) t \<noteq> None" using True by (auto simp: sel1_None some_row_iff)
    ultimately show ?thesis using True \<open>key = k\<close> by (auto simp: counted_def bump_def)
  next
    case False
    then have "\<forall>a \<in> set t. at_key a \<noteq> k" by (auto simp: some_row_iff)
    then have "sel1 (\<lambda>a. at_key a = k) t = None"
      "sel1 (\<lambda>a. at_key a = k) (t @ [\<lparr>at_key = k, at_window = n, at_count = 1\<rparr>]) = Some \<lparr>at_key = k, at_window = n, at_count = 1\<rparr>"
      by (simp_all add: sel1_None sel1_append_new)
    with False \<open>key = k\<close> show ?thesis by (simp add: counted_def bump_def)
  qed
qed

lemma bump_windows: "\<forall>a \<in> set t. w \<le> at_window a \<Longrightarrow> w \<le> n \<Longrightarrow> \<forall>a \<in> set (bump n k t). w \<le> at_window a"
  by (auto simp: bump_def dest: upd_mem)

text \<open>The keys of the attempts a history of account operations lets through.\<close>

definition passed_key :: "auth_op \<Rightarrow> auth \<Rightarrow> string list" where
  "passed_key x s = (case x of Reserve e sha n \<Rightarrow> (case reserve_attempt e sha n s of Inl er \<Rightarrow> [] | Inr (key, s') \<Rightarrow> [key]) | _ \<Rightarrow> [])"

fun let_through :: "auth_op list \<Rightarrow> auth \<Rightarrow> string list" where
  "let_through [] s = []"
| "let_through (x # xs) s = passed_key x s @ let_through xs (commit (auth_step x) s)"

text \<open>Attempts fall in the window; a login that succeeds clears the counter of an account.\<close>

definition clears :: "string \<Rightarrow> auth_op \<Rightarrow> bool" where
  "clears k x = (case x of LoginCommit e sha user key fresh \<Rightarrow> key = k | _ \<Rightarrow> False)"

definition window_op :: "int \<Rightarrow> auth_op \<Rightarrow> bool" where
  "window_op w x = ((case x of Reserve e sha n \<Rightarrow> w \<le> now e \<and> now e < w + secs LOGIN_WINDOW_SECONDS | _ \<Rightarrow> True) \<and> \<not> clears ''global'' x)"

lemma attempts_frame [simp]:
  "au_attempts (auth_audit e actor action u details s) = au_attempts s"
  "au_attempts (replace_password e user enc must s) = au_attempts s"
  "au_attempts (apply_update e row name r active grants s) = au_attempts s"
  "au_attempts (logout e sha raw s) = au_attempts s"
  "au_attempts (snd (resolve_session e sha raw touch (\<lambda>s. s) s)) = au_attempts s"
  by (auto simp: auth_audit_def replace_password_def apply_update_def logout_def resolve_session_def Let_def split: option.splits)

lemma attempts_kept [simp]:
  "new_session e sha fresh user s = Inr (g, s') \<Longrightarrow> au_attempts s' = au_attempts s"
  "insert_account a s = Inr t \<Longrightarrow> au_attempts t = au_attempts s"
  "found_view u s = Inr (v, s') \<Longrightarrow> au_attempts s' = au_attempts s"
  by (auto simp: new_session_def insert_account_def found_view_def Let_def and_then_Inr split: if_splits option.splits)

lemma commits_attempts:
  "issue_setup_token e sha token s = Inr (t, s') \<Longrightarrow> au_attempts s' = au_attempts s"
  "setup_commit e sha token a fresh s = Inr (g, s') \<Longrightarrow> au_attempts s' = au_attempts s"
  "login_commit e sha user key fresh s = Inr (g, s') \<Longrightarrow> au_attempts s' = del (\<lambda>a. at_key a = key) (au_attempts s)"
  "create_commit e actor a tasks s = Inr (v, s') \<Longrightarrow> au_attempts s' = au_attempts s"
  "update_user e actor u display r active tasks s = Inr (v, s') \<Longrightarrow> au_attempts s' = au_attempts s"
  "reset_commit e actor u enc s = Inr (x, s') \<Longrightarrow> au_attempts s' = au_attempts s"
  "cli_reset_commit e name enc s = Inr (x, s') \<Longrightarrow> au_attempts s' = au_attempts s"
  "change_commit e sha p revision enc fresh s = Inr (g, s') \<Longrightarrow> au_attempts s' = au_attempts s"
         apply (auto simp: issue_setup_token_def split: if_splits)[1]
        apply (auto simp: setup_commit_def and_then_Inr dest!: attempts_kept split: if_splits)[1]
       apply (auto simp: login_commit_def dest!: attempts_kept split: if_splits option.splits)[1]
      apply (auto simp: create_commit_def and_then_Inr Let_def dest!: attempts_kept split: if_splits)[1]
     apply (auto simp: update_user_def and_then_Inr Let_def dest!: attempts_kept split: if_splits option.splits)[1]
    apply (auto simp: reset_commit_def and_then_Inr split: if_splits)[1]
   apply (auto simp: cli_reset_commit_def split: option.splits)[1]
  apply (auto simp: change_commit_def and_then_Inr Let_def dest!: attempts_kept split: if_splits)[1]
  done

lemma commit_attempts:
  "au_attempts (commit (auth_step x) s) = (case x of
     Reserve e sha n \<Rightarrow> (case reserve_attempt e sha n s of Inl er \<Rightarrow> au_attempts s | Inr (key, s') \<Rightarrow> au_attempts s')
   | LoginCommit e sha user key fresh \<Rightarrow> (case login_commit e sha user key fresh s of Inl er \<Rightarrow> au_attempts s
       | Inr y \<Rightarrow> del (\<lambda>a. at_key a = key) (au_attempts s))
   | _ \<Rightarrow> au_attempts s)"
  by (cases x)
    (auto simp: commit_def silent_def and_then_def new_preauth_session_def commits_attempts split: sum.splits)

definition current_rows :: "int \<Rightarrow> attempt_row list \<Rightarrow> attempt_row list" where
  "current_rows w = filter (\<lambda>a. w \<le> at_window a)"

definition settled_rows :: "int \<Rightarrow> attempt_row list \<Rightarrow> bool" where
  "settled_rows w t = (\<forall>a \<in> set t. at_window a \<le> w - secs LOGIN_WINDOW_SECONDS \<or> w \<le> at_window a)"

lemma live_current:
  assumes "settled_rows w t" "w \<le> n" "n < w + secs LOGIN_WINDOW_SECONDS"
  shows "live_attempts n t = current_rows w t"
  using assms unfolding live_attempts_def del_def current_rows_def settled_rows_def
  by (intro filter_cong refl) (auto simp: secs_def LOGIN_WINDOW_SECONDS_def)

lemma current_all: "\<forall>a \<in> set t. w \<le> at_window a \<Longrightarrow> current_rows w t = t"
  by (simp add: current_rows_def)

lemma current_del: "current_rows w (del p t) = del p (current_rows w t)"
  by (induction t) (simp_all add: current_rows_def del_def)

lemma counted_del: "counted k (del (\<lambda>a. at_key a = key) t) = (if k = key then 0 else counted k t)"
proof -
  have "sel1 (\<lambda>a. at_key a = k) (del (\<lambda>a. at_key a = key) t) = (if k = key then None else sel1 (\<lambda>a. at_key a = k) t)"
    by (induction t) auto
  then show ?thesis by (simp add: counted_def)
qed

lemma reserve_current:
  assumes "reserve_attempt e sha n s = Inr (key, s')" "settled_rows w (au_attempts s)" "w \<le> now e" "now e < w + secs LOGIN_WINDOW_SECONDS"
  shows "settled_rows w (au_attempts s') \<and> key = account_key sha n \<and> key \<noteq> ''global''
    \<and> counted ''global'' (current_rows w (au_attempts s)) < LOGIN_GLOBAL_LIMIT \<and> counted key (current_rows w (au_attempts s)) < LOGIN_ACCOUNT_LIMIT
    \<and> counted k (current_rows w (au_attempts s')) = counted k (current_rows w (au_attempts s)) + (if k = ''global'' \<or> k = key then 1 else 0)"
proof -
  let ?t = "current_rows w (au_attempts s)" and ?key = "account_key sha n"
  note live = live_current [OF assms(2-4)]
  from assms(1) have y: "key = ?key" "s' = s\<lparr>au_attempts := bump (now e) ?key (bump (now e) ''global'' ?t)\<rparr>"
    and free: "\<not> exhausted ''global'' LOGIN_GLOBAL_LIMIT ?t" "\<not> exhausted ?key LOGIN_ACCOUNT_LIMIT ?t"
    unfolding reserve_attempt_def Let_def live by (auto split: if_splits)
  have ne: "?key \<noteq> ''global''" by (simp add: account_key_def)
  have "\<forall>a \<in> set ?t. w \<le> at_window a" by (auto simp: current_rows_def)
  from bump_windows [OF bump_windows [OF this assms(3)] assms(3)] have w: "\<forall>a \<in> set (au_attempts s'). w \<le> at_window a" by (simp add: y(2))
  from free have "counted ''global'' ?t < LOGIN_GLOBAL_LIMIT" "counted ?key ?t < LOGIN_ACCOUNT_LIMIT"
    by (auto simp: exhausted_def counted_def LOGIN_GLOBAL_LIMIT_def LOGIN_ACCOUNT_LIMIT_def split: option.splits)
  moreover have "counted k (current_rows w (au_attempts s')) = counted k ?t + (if k = ''global'' \<or> k = ?key then 1 else 0)"
    unfolding current_all [OF w] using ne by (auto simp: y(2) counted_bump)
  moreover have "settled_rows w (au_attempts s')" using w by (auto simp: settled_rows_def)
  ultimately show ?thesis using ne y(1) by simp
qed

lemma step_counts:
  assumes "settled_rows w (au_attempts s)" "window_op w x"
  shows "settled_rows w (au_attempts (commit (auth_step x) s))
    \<and> counted ''global'' (current_rows w (au_attempts (commit (auth_step x) s)))
        = counted ''global'' (current_rows w (au_attempts s)) + int (length (passed_key x s))
    \<and> (\<not> clears k x \<longrightarrow> k \<noteq> ''global'' \<longrightarrow> counted k (current_rows w (au_attempts (commit (auth_step x) s)))
        = counted k (current_rows w (au_attempts s)) + int (count_list (passed_key x s) k))
    \<and> (passed_key x s \<noteq> [] \<longrightarrow> counted ''global'' (current_rows w (au_attempts s)) < LOGIN_GLOBAL_LIMIT)
    \<and> (k \<in> set (passed_key x s) \<longrightarrow> counted k (current_rows w (au_attempts s)) < LOGIN_ACCOUNT_LIMIT)
    \<and> length (passed_key x s) \<le> 1"
proof (cases x)
  case (Reserve e sha n)
  show ?thesis
  proof (cases "reserve_attempt e sha n s")
    case (Inl er)
    with assms Reserve show ?thesis by (simp add: commit_attempts passed_key_def)
  next
    case (Inr y)
    obtain key s' where y: "y = (key, s')" by (cases y)
    from assms(2) Reserve have n: "w \<le> now e" "now e < w + secs LOGIN_WINDOW_SECONDS" by (simp_all add: window_op_def)
    note r = reserve_current [OF Inr [unfolded y] assms(1) n]
    from r [of k] r [of "''global''"] show ?thesis by (auto simp: commit_attempts passed_key_def Reserve Inr y)
  qed
next
  case (LoginCommit e sha user key fresh)
  with assms show ?thesis
    by (auto simp: commit_attempts passed_key_def window_op_def clears_def current_del counted_del settled_rows_def split: sum.splits)
qed (use assms in \<open>simp_all add: commit_attempts passed_key_def\<close>)

lemma counted_empty: "counted k (current_rows w t) = 0" if "\<forall>a \<in> set t. at_window a < w"
proof -
  from that have "current_rows w t = []" by (auto simp: current_rows_def filter_empty_conv)
  then show ?thesis by (simp add: counted_def)
qed

lemma global_counts:
  assumes "settled_rows w (au_attempts s)" "\<forall>x \<in> set xs. window_op w x" "counted ''global'' (current_rows w (au_attempts s)) \<le> LOGIN_GLOBAL_LIMIT"
  shows "settled_rows w (au_attempts (exec auth_step xs s))
    \<and> counted ''global'' (current_rows w (au_attempts s)) + int (length (let_through xs s)) \<le> LOGIN_GLOBAL_LIMIT"
  using assms
proof (induction xs arbitrary: s)
  case (Cons x xs)
  from Cons.prems(2) have x: "window_op w x" by simp
  note c = step_counts [OF Cons.prems(1) x]
  have "counted ''global'' (current_rows w (au_attempts (commit (auth_step x) s))) \<le> LOGIN_GLOBAL_LIMIT"
    using c [of "''global''"] Cons.prems(3) by (cases "passed_key x s = []") auto
  with Cons.IH [of "commit (auth_step x) s"] c Cons.prems(2) show ?case by auto
qed simp

lemma account_counts:
  assumes "settled_rows w (au_attempts s)" "\<forall>x \<in> set xs. window_op w x \<and> \<not> clears k x" "k \<noteq> ''global''"
    and "counted k (current_rows w (au_attempts s)) \<le> LOGIN_ACCOUNT_LIMIT"
  shows "counted k (current_rows w (au_attempts s)) + int (count_list (let_through xs s) k) \<le> LOGIN_ACCOUNT_LIMIT"
  using assms
proof (induction xs arbitrary: s)
  case (Cons x xs)
  from Cons.prems(2) have x: "window_op w x" "\<not> clears k x" by simp_all
  note c = step_counts [OF Cons.prems(1) x(1), of k]
  have l: "count_list (passed_key x s) k \<le> length (passed_key x s)" by (rule count_le_length)
  have "counted k (current_rows w (au_attempts (commit (auth_step x) s))) \<le> LOGIN_ACCOUNT_LIMIT"
  proof (cases "k \<in> set (passed_key x s)")
    case True
    with c x(2) Cons.prems(3) l show ?thesis by auto
  next
    case False
    then have "count_list (passed_key x s) k = 0" by (simp add: count_list_0_iff)
    with c x(2) Cons.prems(3,4) show ?thesis by simp
  qed
  with Cons.IH [of "commit (auth_step x) s"] c x(2) Cons.prems(2,3) show ?case by auto
qed simp

lemma account_bound:
  assumes "settled_rows w (au_attempts s)" "\<forall>x \<in> set xs. window_op w x" "k \<noteq> ''global''"
    and "counted k (current_rows w (au_attempts s)) \<in> {0..LOGIN_ACCOUNT_LIMIT}"
  shows "counted k (current_rows w (au_attempts (exec auth_step xs s))) \<in> {0..LOGIN_ACCOUNT_LIMIT}"
  using assms
proof (induction xs arbitrary: s)
  case (Cons x xs)
  from Cons.prems(2) have x: "window_op w x" by simp
  have "counted k (current_rows w (au_attempts (commit (auth_step x) s))) \<in> {0..LOGIN_ACCOUNT_LIMIT}"
  proof (cases "clears k x")
    case True
    with Cons.prems(4) show ?thesis
      by (auto simp: clears_def commit_attempts current_del counted_del LOGIN_ACCOUNT_LIMIT_def split: auth_op.splits sum.splits)
  next
    case False
    with account_counts [of w s "[x]" k] Cons.prems(1,3,4) x step_counts [OF Cons.prems(1) x, of k] show ?thesis by auto
  qed
  with Cons.IH [of "commit (auth_step x) s"] step_counts [OF Cons.prems(1) x] Cons.prems(2,3) show ?case by auto
qed simp

lemma let_through_append: "let_through (xs @ ys) s = let_through xs s @ let_through ys (exec auth_step xs s)"
  by (induction xs arbitrary: s) simp_all

text \<open>C18: in every history of account operations whose attempts are made within one window of five minutes,
  over a table whose rows are of earlier windows, at most 60 attempts are let through in all; and after any
  of its prefixes at most 10 are let through for an account until a login of that account succeeds, which is
  what clears its counter.\<close>

theorem login_attempts_bounded:
  assumes "\<forall>a \<in> set (au_attempts s). at_window a \<le> w - secs LOGIN_WINDOW_SECONDS"
    and "\<forall>x \<in> set (xs @ ys). window_op w x" "\<forall>x \<in> set ys. \<not> clears (account_key sha name) x"
  shows "length (let_through (xs @ ys) s) \<le> 60
    \<and> count_list (let_through ys (exec auth_step xs s)) (account_key sha name) \<le> 10"
proof -
  have ne: "account_key sha name \<noteq> ''global''" by (simp add: account_key_def)
  from assms(1) have s: "settled_rows w (au_attempts s)" by (simp add: settled_rows_def)
  from assms(1) have old: "\<forall>a \<in> set (au_attempts s). at_window a < w" by (force simp: secs_def LOGIN_WINDOW_SECONDS_def)
  note zero = counted_empty [OF old]
  from global_counts [OF s assms(2)] zero have g: "length (let_through (xs @ ys) s) \<le> 60" by (simp add: LOGIN_GLOBAL_LIMIT_def)
  from assms(2) have xs: "\<forall>x \<in> set xs. window_op w x" by simp
  from global_counts [OF s xs] zero have t: "settled_rows w (au_attempts (exec auth_step xs s))" by (simp add: LOGIN_GLOBAL_LIMIT_def)
  from account_bound [OF s xs ne] zero
  have b: "counted (account_key sha name) (current_rows w (au_attempts (exec auth_step xs s))) \<in> {0..LOGIN_ACCOUNT_LIMIT}"
    by (simp add: LOGIN_ACCOUNT_LIMIT_def)
  with account_counts [OF t _ ne, of ys] assms(2,3) have "int (count_list (let_through ys (exec auth_step xs s)) (account_key sha name)) \<le> LOGIN_ACCOUNT_LIMIT"
    by auto
  with g show ?thesis by (simp add: LOGIN_ACCOUNT_LIMIT_def)
qed

section \<open>Access to tasks\<close>

lemma owned_tasks_iff: "t \<in> set (owned_tasks u s) \<longleftrightarrow> (\<exists>r \<in> set (db_catalog (au_store s)). is_entity ''task'' t r \<and> cat_owner r = Some u)"
  by (auto simp: owned_tasks_def is_entity_def)

lemma granted_tasks_iff: "t \<in> set (granted_tasks u s) \<longleftrightarrow> (u, t) \<in> set (au_grants s)"
  by (force simp: granted_tasks_def)

text \<open>The task list an account sees and the check of a single task agree: a task passes
  \<open>require_task\<close> exactly when it exists and \<open>allowed_task_ids\<close> gives no restriction or
  lists it; managing one further needs the account not to be a viewer.\<close>

theorem task_access_agrees:
  "require_task p task manage s = Inr task \<longleftrightarrow> find_task task (au_store s) \<noteq> None
     \<and> (\<exists>ids a. allowed_task_ids p s = Inr ids \<and> current_user p False False s = Inr a
          \<and> (ids = None \<or> task \<in> set (default [] ids)) \<and> \<not> (manage \<and> ac_role a = Viewer))"
proof (cases "current_user p False False s")
  case (Inl er)
  then show ?thesis by (simp add: require_task_def)
next
  case (Inr a)
  have "may_access a task s \<longleftrightarrow> (\<exists>ids. allowed_task_ids p s = Inr ids \<and> (ids = None \<or> task \<in> set (default [] ids)))"
    using Inr by (cases "ac_role a") (auto simp: may_access_def allowed_task_ids_def owned_tasks_iff granted_tasks_iff some_row_iff)
  with Inr show ?thesis by (auto simp: require_task_def)
qed

section \<open>Examples\<close>

definition root_account :: account where
  "root_account = \<lparr>ac_id = ''usr-1'', ac_username = ''root'', ac_name = ''Root'', ac_hash = projr (hash_password toy_kdf 0 toy_salt good_password),
     ac_role = Admin, ac_active = True, ac_must_change = False, ac_revision = 3, ac_created = 10, ac_updated = 20\<rparr>"

definition viewer_account :: account where
  "viewer_account = \<lparr>ac_id = ''usr-2'', ac_username = ''viv'', ac_name = ''Viv'', ac_hash = [], ac_role = Viewer, ac_active = True,
     ac_must_change = False, ac_revision = 1, ac_created = 10, ac_updated = 20\<rparr>"

definition root_token :: string where "root_token = replicate 43 CHR ''a''"

definition root_session :: session_row where
  "root_session = \<lparr>se_hash = root_token, se_user = Some ''usr-1'', se_kind = Authenticated, se_csrf = ''c'', se_created = 100,
     se_seen = 100, se_expires = 1000, se_revision = Some 3\<rparr>"

definition sample_auth :: auth where
  "sample_auth = \<lparr>au_users = [root_account, viewer_account], au_sessions = [root_session], au_setup = None, au_attempts = [],
     au_grants = [(''usr-2'', ''t1'')], au_store = sample_db\<lparr>db_user_ids := [''usr-1'', ''usr-2'']\<rparr>\<rparr>"

definition root_principal :: principal where "root_principal = principal_of root_account"

definition plain_sha :: "string \<Rightarrow> string" where [simp]: "plain_sha x = x"

lemma sample_auth_ok: "auth_ok sample_auth"
  by (simp add: auth_ok_def auth_defs sample_auth_def root_account_def viewer_account_def root_session_def sample_db_def empty_db_def
      session_ok_def stands_for_def active_admin_def sample_task_def PREAUTH_LIMIT_def)

definition sample_ops :: "auth_op list" where
  "sample_ops = [Reserve sample_env plain_sha ''viv'', Logout sample_env plain_sha (JStr root_token),
     CliReset sample_env ''root'' ''new'', UpdateUser sample_env (Some root_principal) ''usr-1'' JNull (JStr ''viewer'') JNull JNull]"

lemma auth_history_witness:
  "auth_ok (exec auth_step sample_ops sample_auth) \<and> auth_le sample_auth (exec auth_step sample_ops sample_auth)"
  by (rule auth_history [OF sample_auth_ok])

lemma root_token_ok: "is_token (JStr root_token) = Some root_token"
  by code_simp

lemma sample_resolve:
  "resolve_session sample_env plain_sha (JStr root_token) True (\<lambda>s. s) sample_auth
    = (Some (browser_of (Some root_principal) (root_session\<lparr>se_seen := 150\<rparr>)), sample_auth\<lparr>au_sessions := [root_session\<lparr>se_seen := 150\<rparr>]\<rparr>)"
proof -
  have owner: "session_owner root_session sample_auth = Some root_account"
    by (simp add: session_owner_def root_session_def find_user_def sample_auth_def root_account_def)
  have sess: "au_sessions sample_auth = [root_session]" "se_hash root_session = root_token" "now sample_env = 150"
    by (simp_all add: sample_auth_def root_session_def sample_env_def)
  have at: "session_at sample_env plain_sha root_token sample_auth = Some (root_session, Some root_account)"
    using owner by (simp add: session_at_def sess) (simp add: root_session_def secs_def SESSION_IDLE_SECONDS_def)
  have "touchable sample_env root_token sample_auth root_session"
    using owner by (simp add: touchable_def sess) (simp add: root_session_def secs_def SESSION_IDLE_SECONDS_def)
  with root_token_ok at show ?thesis by (simp add: resolve_session_def Let_def sess root_principal_def)
qed

lemma session_needs_current_account_witness:
  "\<exists>token x a. JStr root_token = JStr token \<and> length token = 43 \<and> x \<in> set (au_sessions sample_auth) \<and> se_hash x = token
    \<and> now sample_env < se_expires x \<and> now sample_env < se_seen x + secs SESSION_IDLE_SECONDS \<and> a \<in> set (au_users sample_auth)
    \<and> stands_for x a \<and> root_principal = principal_of a"
  using session_needs_current_account [OF sample_resolve, of root_principal] by (simp add: browser_of_def) blast

definition viewer_session :: session_row where
  "viewer_session = root_session\<lparr>se_user := Some ''usr-2'', se_revision := Some 1\<rparr>"

definition two_sessions :: auth where
  "two_sessions = sample_auth\<lparr>au_sessions := [root_session, viewer_session\<lparr>se_hash := ''v''\<rparr>]\<rparr>"

lemma password_reset_revokes_witness:
  "pr_id root_principal \<noteq> ''usr-2''"
proof -
  define s1 where "s1 = snd (projr (reset_commit sample_env (Some root_principal) ''usr-2'' ''new'' two_sessions))"
  have reset: "reset_commit sample_env (Some root_principal) ''usr-2'' ''new'' two_sessions = Inr ((), s1)"
    by (simp add: s1_def reset_commit_def current_user_def two_sessions_def sample_auth_def find_user_def root_principal_def
        principal_of_def root_account_def viewer_account_def)
  have "au_sessions s1 = [root_session]" "au_users s1 = [root_account, viewer_account\<lparr>ac_hash := ''new'', ac_must_change := True,
      ac_revision := 2, ac_updated := 150\<rparr>]"
    by (simp_all add: s1_def reset_commit_def current_user_def two_sessions_def sample_auth_def find_user_def root_principal_def
        principal_of_def root_account_def viewer_account_def replace_password_def root_session_def viewer_session_def sample_env_def)
  then have owner: "session_owner root_session s1 = Some root_account"
    by (simp add: session_owner_def root_session_def find_user_def root_account_def)
  have "resolve_session sample_env plain_sha (JStr root_token) False (\<lambda>s. s) (exec auth_step [] s1)
      = (Some (browser_of (Some root_principal) root_session), s1)"
    using root_token_ok owner \<open>au_sessions s1 = [root_session]\<close>
    by (simp add: resolve_session_def session_at_def root_principal_def) (simp add: root_session_def secs_def SESSION_IDLE_SECONDS_def sample_env_def)
  from password_reset_revokes [OF reset _ this, of root_principal] show ?thesis by (simp add: browser_of_def)
qed

definition counted_auth :: auth where
  "counted_auth = sample_auth\<lparr>au_attempts := [\<lparr>at_key = ''global'', at_window = 150, at_count = 1\<rparr>,
     \<lparr>at_key = ''account:root'', at_window = 150, at_count = 1\<rparr>]\<rparr>"

lemma login_outcome_witness:
  "case login sample_env sample_env plain_sha toy_kdf 0 (''t'', ''c'') (JStr '' Root'') good_password (\<lambda>s. s) sample_auth of
      (Inr g, s') \<Rightarrow> justified_login sample_env plain_sha toy_kdf 0 (JStr '' Root'') good_password counted_auth counted_auth g s'
    | (Inl er, s') \<Rightarrow> s' = counted_auth \<and> er \<in> {AuthenticationError ''login'', IntegrityError ''auth_sessions''}"
proof -
  have "normalized (JStr '' Root'') = ''root''" by code_simp
  then have "reserve_attempt sample_env plain_sha (take 256 (normalized (JStr '' Root''))) sample_auth = Inr (''account:root'', counted_auth)"
    by (simp add: reserve_attempt_def Let_def live_attempts_def exhausted_def bump_def sample_auth_def counted_auth_def account_key_def
        utf8_def sample_env_def)
  from login_outcome [OF this, where mid = "\<lambda>s. s"] show ?thesis by (simp add: PASSWORD_SLOTS_def)
qed

text \<open>Eleven attempts for one account, a login of it, and another attempt.\<close>

definition guesses :: "auth_op list" where
  "guesses = replicate 11 (Reserve sample_env plain_sha ''root'')"

lemma login_attempts_bounded_witness:
  "length (let_through (guesses @ LoginCommit sample_env plain_sha root_account ''account:root'' (''t'', ''c'') # guesses) sample_auth) \<le> 60
    \<and> count_list (let_through guesses (exec auth_step (guesses @ [LoginCommit sample_env plain_sha root_account ''account:root'' (''t'', ''c'')]) sample_auth))
        (account_key plain_sha ''root'') \<le> 10"
proof -
  let ?login = "LoginCommit sample_env plain_sha root_account ''account:root'' (''t'', ''c'')"
  have "window_op 150 (Reserve sample_env plain_sha ''root'')" "window_op 150 ?login" "\<not> clears (account_key plain_sha ''root'') (Reserve sample_env plain_sha ''root'')"
    by (simp_all add: window_op_def clears_def sample_env_def secs_def LOGIN_WINDOW_SECONDS_def)
  moreover have "\<forall>a \<in> set (au_attempts sample_auth). at_window a \<le> 150 - secs LOGIN_WINDOW_SECONDS" by (simp add: sample_auth_def)
  ultimately show ?thesis using login_attempts_bounded [of sample_auth 150 "guesses @ [?login]" guesses plain_sha "''root''"]
    by (simp add: guesses_def)
qed

end
