(* ===== verification/Cron.thy ===== *)
theory Cron imports Smtp_Config begin

text \<open>
  Cron expressions of \<open>services/scheduler.py\<close>: parsing of the five fields, matching of a local
  minute and the search of one occurrence in a span of time. Local time is Asia/Seoul, whose
  offset has been nine hours since 1988; the zone data are outside the program. An instant is in
  microseconds, a local day is numbered from 1970-01-01. A set of values is a sorted list.
\<close>

section \<open>Fields\<close>

definition INT_DIGITS :: nat where "INT_DIGITS = 4300"

definition cron_int :: "string \<Rightarrow> int option" where
  "cron_int s = (if INT_DIGITS < length (filter is_digit s) then None else py_int s)"

text \<open>\<open>range(start, end + 1, step)\<close>\<close>

definition stepped :: "int \<Rightarrow> int \<Rightarrow> int \<Rightarrow> int list" where
  "stepped a b step = filter (\<lambda>x. (x - a) mod step = 0) [a..b]"

definition cron_span :: "int \<Rightarrow> int \<Rightarrow> string \<Rightarrow> bool \<Rightarrow> (int \<times> int) option" where
  "cron_span lo hi span has_step = (if span = ''*'' then Some (lo, hi)
     else if CHR ''-'' \<in> set span then (case split_on (CHR ''-'') span of
         [p, q] \<Rightarrow> (case (cron_int p, cron_int q) of (Some a, Some b) \<Rightarrow> Some (a, b) | _ \<Rightarrow> None)
       | _ \<Rightarrow> None)
     else (case cron_int span of None \<Rightarrow> None | Some a \<Rightarrow> Some (a, if has_step then hi else a)))"

definition cron_item :: "int \<Rightarrow> int \<Rightarrow> string \<Rightarrow> int list option" where
  "cron_item lo hi item = (if item = [] \<or> item \<noteq> strip item then None
     else (case split_on (CHR ''/'') item of
         span # rest \<Rightarrow> if 1 < length rest then None
           else (case (if rest = [] then Some 1 else cron_int (hd rest)) of None \<Rightarrow> None
             | Some step \<Rightarrow> if step \<le> 0 then None
                else (case cron_span lo hi span (rest \<noteq> []) of None \<Rightarrow> None
                  | Some (a, b) \<Rightarrow> if lo \<le> a \<and> a \<le> b \<and> b \<le> hi then Some (stepped a b step) else None))
       | [] \<Rightarrow> None))"

fun cron_items :: "int \<Rightarrow> int \<Rightarrow> string list \<Rightarrow> int list option" where
  "cron_items lo hi [] = Some []"
| "cron_items lo hi (i # is) = (case (cron_item lo hi i, cron_items lo hi is) of
     (Some a, Some b) \<Rightarrow> Some (a @ b) | _ \<Rightarrow> None)"

record cron_field =
  cf_text :: string
  cf_values :: "int list"

definition parse_cron_field :: "string \<Rightarrow> int \<Rightarrow> int \<Rightarrow> bool \<Rightarrow> cron_field res" where
  "parse_cron_field text lo hi is_dow = (let t = strip text in
     case cron_items lo hi (split_on (CHR '','') t) of
       None \<Rightarrow> Inl (ValidationError ''cron field'')
     | Some vs \<Rightarrow> if vs = [] then Inl (ValidationError ''no values'')
         else Inr \<lparr>cf_text = t, cf_values = sort (remdups (if is_dow \<and> (0 \<in> set vs \<or> 7 \<in> set vs) then vs @ [0, 7] else vs))\<rparr>)"

definition field_matches :: "cron_field \<Rightarrow> int \<Rightarrow> bool" where
  "field_matches f v = (v \<in> set (cf_values f))"

section \<open>Expressions\<close>

text \<open>\<open>text.split()\<close>: the words between runs of space.\<close>

fun words_acc :: "string \<Rightarrow> string \<Rightarrow> string list" where
  "words_acc w [] = (if w = [] then [] else [rev w])"
| "words_acc w (c # s) = (if py_space c then (if w = [] then words_acc [] s else rev w # words_acc [] s) else words_acc (c # w) s)"

definition split_space :: "string \<Rightarrow> string list" where "split_space s = words_acc [] s"

record cron =
  cr_text :: string
  cr_minute :: cron_field
  cr_hour :: cron_field
  cr_dom :: cron_field
  cr_month :: cron_field
  cr_dow :: cron_field

definition cron_expression :: "json \<Rightarrow> cron res" where
  "cron_expression v = (case v of
     JStr text \<Rightarrow> (case split_space text of
       [a, b, c, d, f] \<Rightarrow>
         and_then (parse_cron_field a 0 59 False) (\<lambda>mi. and_then (parse_cron_field b 0 23 False) (\<lambda>h.
         and_then (parse_cron_field c 1 31 False) (\<lambda>dm. and_then (parse_cron_field d 1 12 False) (\<lambda>mo.
         and_then (parse_cron_field f 0 7 True) (\<lambda>dw.
           Inr \<lparr>cr_text = strip text, cr_minute = mi, cr_hour = h, cr_dom = dm, cr_month = mo, cr_dow = dw\<rparr>)))))
     | _ \<Rightarrow> Inl (ValidationError ''five cron fields''))
   | _ \<Rightarrow> Inl (ValidationError ''five cron fields''))"

definition starred :: "cron_field \<Rightarrow> bool" where
  "starred f = (cf_text f \<noteq> [] \<and> hd (cf_text f) = CHR ''*'')"

text \<open>The day fields on a local day: both must match when one begins with a star, else one.\<close>

definition day_matches :: "cron \<Rightarrow> int \<Rightarrow> bool" where
  "day_matches c n = (case civil_of_days n of (y, m, d) \<Rightarrow>
     let dom = field_matches (cr_dom c) d; dow = field_matches (cr_dow c) ((weekday_of_days n + 1) mod 7)
     in field_matches (cr_month c) m
        \<and> (if starred (cr_dom c) \<or> starred (cr_dow c) then dom \<and> dow else dom \<or> dow))"

definition minute_usec :: int where "minute_usec = 60000000"

definition local_hour :: "int \<Rightarrow> int" where "local_hour t = t mod day_usec div (60 * minute_usec)"
definition local_minute :: "int \<Rightarrow> int" where "local_minute t = t div minute_usec mod 60"

text \<open>\<open>matches(dt)\<close> on a local time.\<close>

definition cron_matches :: "cron \<Rightarrow> int \<Rightarrow> bool" where
  "cron_matches c t = (day_matches c (t div day_usec) \<and> field_matches (cr_hour c) (local_hour t)
     \<and> field_matches (cr_minute c) (local_minute t))"

section \<open>The search\<close>

definition SEOUL :: int where "SEOUL = 9 * 60 * minute_usec"

definition ordered :: "bool \<Rightarrow> int list \<Rightarrow> int list" where
  "ordered latest xs = (if latest then rev xs else xs)"

text \<open>The candidates of a matching day, in the order the two loops visit them.\<close>

definition candidates :: "cron \<Rightarrow> bool \<Rightarrow> int \<Rightarrow> int list" where
  "candidates c latest day = concat (map (\<lambda>h. map (\<lambda>m. day * day_usec + (h * 60 + m) * minute_usec)
     (ordered latest (cf_values (cr_minute c)))) (ordered latest (cf_values (cr_hour c))))"

definition day_hit :: "cron \<Rightarrow> bool \<Rightarrow> int \<Rightarrow> int \<Rightarrow> int \<Rightarrow> int option" where
  "day_hit c latest a b day = (if day_matches c day then find (\<lambda>t. a < t \<and> t \<le> b) (candidates c latest day) else None)"

function search_days :: "cron \<Rightarrow> bool \<Rightarrow> int \<Rightarrow> int \<Rightarrow> int \<Rightarrow> int option" where
  "search_days c latest a b day =
     (if a div day_usec \<le> day \<and> day \<le> b div day_usec
      then (case day_hit c latest a b day of Some t \<Rightarrow> Some t
        | None \<Rightarrow> search_days c latest a b (if latest then day - 1 else day + 1))
      else None)"
  by auto

termination
  by (relation "measure (\<lambda>(c, latest, a, b, day). nat (if latest then day - a div day_usec + 1 else b div day_usec - day + 1))")
    auto

declare search_days.simps [simp del]

definition occurrence_between :: "cron \<Rightarrow> int \<Rightarrow> int \<Rightarrow> bool \<Rightarrow> int option" where
  "occurrence_between c start end_at latest =
     (let a = start + SEOUL; b = end_at + SEOUL
      in map_option (\<lambda>t. t - SEOUL) (search_days c latest a b (if latest then b div day_usec else a div day_usec)))"

section \<open>Fields hold ordered values in range\<close>

lemma cron_item_range: "cron_item lo hi i = Some vs \<Longrightarrow> v \<in> set vs \<Longrightarrow> lo \<le> v \<and> v \<le> hi"
  by (auto simp: cron_item_def stepped_def split: list.splits if_splits option.splits)

lemma cron_items_range: "cron_items lo hi is = Some vs \<Longrightarrow> v \<in> set vs \<Longrightarrow> lo \<le> v \<and> v \<le> hi"
  by (induction "is" arbitrary: vs) (auto dest: cron_item_range split: option.splits)

definition field_ok :: "int \<Rightarrow> int \<Rightarrow> cron_field \<Rightarrow> bool" where
  "field_ok lo hi f = (sorted_wrt (<) (cf_values f) \<and> cf_values f \<noteq> [] \<and> set (cf_values f) \<subseteq> {lo..hi})"

lemma parse_cron_field_ok:
  assumes "parse_cron_field text lo hi is_dow = Inr f" "is_dow \<Longrightarrow> lo \<le> 0 \<and> 7 \<le> hi"
  shows "field_ok lo hi f"
proof -
  from assms(1) obtain vs where vs: "cron_items lo hi (split_on (CHR '','') (strip text)) = Some vs" "vs \<noteq> []"
    and f: "cf_values f = sort (remdups (if is_dow \<and> (0 \<in> set vs \<or> 7 \<in> set vs) then vs @ [0, 7] else vs))"
    by (auto simp: parse_cron_field_def Let_def split: option.splits if_splits)
  define ws where "ws = (if is_dow \<and> (0 \<in> set vs \<or> 7 \<in> set vs) then vs @ [0, 7] else vs)"
  have vals: "cf_values f = sort (remdups ws)" "set (cf_values f) = set ws" by (simp_all add: f ws_def)
  have range: "v \<in> set vs \<Longrightarrow> lo \<le> v \<and> v \<le> hi" for v by (rule cron_items_range [OF vs(1)])
  have "set ws \<subseteq> {lo..hi}"
  proof
    fix v assume "v \<in> set ws"
    then have "v \<in> set vs \<or> is_dow \<and> (v = 0 \<or> v = 7)" by (auto simp: ws_def split: if_splits)
    then show "v \<in> {lo..hi}" using range [of v] assms(2) by auto
  qed
  moreover have "set ws \<noteq> {}" using vs(2) by (auto simp: ws_def)
  moreover from this vals(2) have "cf_values f \<noteq> []" by (metis set_empty)
  ultimately show ?thesis using vals by (auto simp: field_ok_def strict_sorted_iff)
qed

definition cron_ok :: "cron \<Rightarrow> bool" where
  "cron_ok c = (field_ok 0 59 (cr_minute c) \<and> field_ok 0 23 (cr_hour c))"

lemma cron_expression_ok: "cron_expression v = Inr c \<Longrightarrow> cron_ok c"
  by (auto simp: cron_expression_def cron_ok_def and_then_Inr dest: parse_cron_field_ok split: json.splits list.splits)

section \<open>The search finds the nearest occurrence\<close>

text \<open>A local time the expression names: a whole minute that matches.\<close>

definition due_at :: "cron \<Rightarrow> int \<Rightarrow> bool" where
  "due_at c t = (t mod minute_usec = 0 \<and> cron_matches c t)"

text \<open>Later times come first when the latest occurrence is wanted.\<close>

definition rank :: "bool \<Rightarrow> int \<Rightarrow> int" where
  "rank latest t = (if latest then - t else t)"

lemma slot:
  assumes "0 \<le> h" "h \<le> 23" "0 \<le> m" "m \<le> 59"
  shows "(day * day_usec + (h * 60 + m) * minute_usec) div day_usec = day"
    and "local_hour (day * day_usec + (h * 60 + m) * minute_usec) = h"
    and "local_minute (day * day_usec + (h * 60 + m) * minute_usec) = m"
    and "(day * day_usec + (h * 60 + m) * minute_usec) mod minute_usec = 0"
proof -
  let ?t = "day * day_usec + (h * 60 + m) * minute_usec"
  have r: "0 \<le> (h * 60 + m) * minute_usec" "(h * 60 + m) * minute_usec < day_usec"
    using assms by (simp_all add: minute_usec_def day_usec_def)
  then have md: "?t div day_usec = day" "?t mod day_usec = (h * 60 + m) * minute_usec" by simp_all
  then show "?t div day_usec = day" by simp
  have "(h * 60 + m) * minute_usec = h * (60 * minute_usec) + m * minute_usec" by (simp add: algebra_simps)
  moreover have "0 \<le> m * minute_usec" "m * minute_usec < 60 * minute_usec" using assms by (simp_all add: minute_usec_def)
  ultimately have "(h * 60 + m) * minute_usec div (60 * minute_usec) = h" by simp
  then show "local_hour ?t = h" unfolding local_hour_def md(2) by simp
  have all: "?t = (day * 1440 + h * 60 + m) * minute_usec" by (simp add: day_usec_def minute_usec_def)
  then show "?t mod minute_usec = 0" by simp
  have "?t div minute_usec = (day * 24 + h) * 60 + m" unfolding all by (simp add: minute_usec_def)
  moreover have "((day * 24 + h) * 60 + m) mod 60 = m" using assms by (simp only: mod_mult_self3 mod_pos_pos_trivial)
  ultimately show "local_minute ?t = m" by (simp only: local_minute_def)
qed

lemma slot_of:
  assumes "t mod minute_usec = 0"
  shows "t = t div day_usec * day_usec + (local_hour t * 60 + local_minute t) * minute_usec"
proof -
  define k where "k = t div minute_usec"
  have t: "t = k * minute_usec" using assms by (auto simp: k_def)
  have D: "day_usec = 1440 * minute_usec" "minute_usec > 0" by (simp_all add: day_usec_def minute_usec_def)
  have "t div day_usec = k div 1440" "t mod day_usec = k mod 1440 * minute_usec"
    unfolding t D(1) using D(2) by (simp_all add: mult_mod_left)
  then have "local_hour t = k mod 1440 div 60" "local_minute t = k mod 60"
    using D by (simp_all add: local_hour_def local_minute_def t)
  moreover have "k mod 60 = k mod 1440 mod 60" by (simp add: mod_mod_cancel)
  then have "k mod 1440 div 60 * 60 + k mod 60 = k mod 1440" by simp
  moreover have "k = k div 1440 * 1440 + k mod 1440" by simp
  ultimately show ?thesis using \<open>t div day_usec = k div 1440\<close> D(1) by (metis (no_types, lifting) distrib_right mult.assoc t)
qed

lemma sorted_wrt_concat:
  assumes "\<And>x. x \<in> set xs \<Longrightarrow> sorted_wrt R (f x)" "sorted_wrt (\<lambda>x y. \<forall>a \<in> set (f x). \<forall>b \<in> set (f y). R a b) xs"
  shows "sorted_wrt R (concat (map f xs))"
  using assms by (induction xs) (auto simp: sorted_wrt_append)

lemma sorted_wrt_weaken: "sorted_wrt R xs \<Longrightarrow> (\<And>x y. x \<in> set xs \<Longrightarrow> y \<in> set xs \<Longrightarrow> R x y \<Longrightarrow> S x y) \<Longrightarrow> sorted_wrt S xs"
  by (induction xs) auto

lemma ordered_sorted: "sorted_wrt (<) xs \<Longrightarrow> sorted_wrt (\<lambda>x y. rank latest x < rank latest y) (ordered latest xs)"
  by (auto simp: ordered_def rank_def sorted_wrt_rev)

lemma set_ordered [simp]: "set (ordered latest xs) = set xs"
  by (simp add: ordered_def)

lemma slot_less:
  assumes "h < k" "0 \<le> n" "m \<le> 59"
  shows "day * day_usec + (h * 60 + m) * minute_usec < day * day_usec + (k * 60 + n) * minute_usec"
proof -
  have "h * 60 + m < k * 60 + n" using assms by linarith
  then show ?thesis by (simp add: minute_usec_def)
qed

lemma candidates_sorted:
  assumes "cron_ok c"
  shows "sorted_wrt (\<lambda>x y. rank latest x < rank latest y) (candidates c latest day)"
proof -
  from assms have f: "sorted_wrt (<) (cf_values (cr_minute c))" "set (cf_values (cr_minute c)) \<subseteq> {0..59}"
    "sorted_wrt (<) (cf_values (cr_hour c))" by (auto simp: cron_ok_def field_ok_def)
  show ?thesis unfolding candidates_def
  proof (rule sorted_wrt_concat)
    fix h
    show "sorted_wrt (\<lambda>x y. rank latest x < rank latest y) (map (\<lambda>m. day * day_usec + (h * 60 + m) * minute_usec) (ordered latest (cf_values (cr_minute c))))"
      unfolding sorted_wrt_map using ordered_sorted [OF f(1), of latest]
      by (rule sorted_wrt_weaken) (auto simp: rank_def minute_usec_def split: if_splits)
  next
    show "sorted_wrt (\<lambda>h k. \<forall>x \<in> set (map (\<lambda>m. day * day_usec + (h * 60 + m) * minute_usec) (ordered latest (cf_values (cr_minute c)))).
        \<forall>y \<in> set (map (\<lambda>m. day * day_usec + (k * 60 + m) * minute_usec) (ordered latest (cf_values (cr_minute c)))).
        rank latest x < rank latest y) (ordered latest (cf_values (cr_hour c)))"
      using ordered_sorted [OF f(3), of latest]
    proof (rule sorted_wrt_weaken, intro ballI)
      fix h k x y assume r: "rank latest h < rank latest k"
        and x: "x \<in> set (map (\<lambda>m. day * day_usec + (h * 60 + m) * minute_usec) (ordered latest (cf_values (cr_minute c))))"
        and y: "y \<in> set (map (\<lambda>m. day * day_usec + (k * 60 + m) * minute_usec) (ordered latest (cf_values (cr_minute c))))"
      from x obtain m where m: "m \<in> set (cf_values (cr_minute c))" "x = day * day_usec + (h * 60 + m) * minute_usec" by auto
      from y obtain n where n: "n \<in> set (cf_values (cr_minute c))" "y = day * day_usec + (k * 60 + n) * minute_usec" by auto
      from f(2) m(1) n(1) have "0 \<le> m" "m \<le> 59" "0 \<le> n" "n \<le> 59" by auto
      with m(2) n(2) r slot_less [of h k n m day] slot_less [of k h m n day] show "rank latest x < rank latest y"
        by (simp add: rank_def split: if_splits)
    qed
  qed
qed

lemma candidates_due:
  assumes "cron_ok c" "day_matches c day"
  shows "t \<in> set (candidates c latest day) \<longleftrightarrow> due_at c t \<and> t div day_usec = day"
proof -
  have range: "h \<in> set (cf_values (cr_hour c)) \<Longrightarrow> 0 \<le> h \<and> h \<le> 23" "m \<in> set (cf_values (cr_minute c)) \<Longrightarrow> 0 \<le> m \<and> m \<le> 59" for h m
    using assms(1) by (auto simp: cron_ok_def field_ok_def)
  show ?thesis
  proof
    assume "t \<in> set (candidates c latest day)"
    then obtain h m where hm: "h \<in> set (cf_values (cr_hour c))" "m \<in> set (cf_values (cr_minute c))"
      and t: "t = day * day_usec + (h * 60 + m) * minute_usec" by (auto simp: candidates_def)
    from slot [of h m day] range(1) [OF hm(1)] range(2) [OF hm(2)] hm assms(2) show "due_at c t \<and> t div day_usec = day"
      unfolding t due_at_def cron_matches_def field_matches_def by simp
  next
    assume d: "due_at c t \<and> t div day_usec = day"
    then have "local_hour t \<in> set (cf_values (cr_hour c))" "local_minute t \<in> set (cf_values (cr_minute c))"
      and "t = day * day_usec + (local_hour t * 60 + local_minute t) * minute_usec"
      using slot_of [of t] by (auto simp: due_at_def cron_matches_def field_matches_def)
    then show "t \<in> set (candidates c latest day)" by (auto simp: candidates_def)
  qed
qed

lemma find_first:
  "sorted_wrt (\<lambda>x y. k x < (k y :: int)) xs \<Longrightarrow> find P xs = Some r \<Longrightarrow> r \<in> set xs \<and> P r \<and> (\<forall>x \<in> set xs. P x \<longrightarrow> k r \<le> k x)"
  by (induction xs) (auto split: if_splits)

lemma day_hit_Some:
  assumes "cron_ok c" "day_hit c latest a b day = Some r"
  shows "due_at c r \<and> r div day_usec = day \<and> a < r \<and> r \<le> b
    \<and> (\<forall>t. due_at c t \<and> t div day_usec = day \<and> a < t \<and> t \<le> b \<longrightarrow> rank latest r \<le> rank latest t)"
proof -
  from assms(2) have m: "day_matches c day" and f: "find (\<lambda>t. a < t \<and> t \<le> b) (candidates c latest day) = Some r"
    by (auto simp: day_hit_def split: if_splits)
  from find_first [OF candidates_sorted [OF assms(1)] f] candidates_due [OF assms(1) m, of _ latest] show ?thesis by auto
qed

lemma day_hit_None:
  assumes "cron_ok c" "day_hit c latest a b day = None" "due_at c t" "t div day_usec = day" "a < t" "t \<le> b"
  shows False
proof -
  from assms(3,4) have m: "day_matches c day" by (simp add: due_at_def cron_matches_def)
  with assms(2) have "\<forall>t \<in> set (candidates c latest day). \<not> (a < t \<and> t \<le> b)" by (simp add: day_hit_def find_none)
  with candidates_due [OF assms(1) m, of t latest] assms(3-6) show False by auto
qed

text \<open>The days still to visit from a day on, and what the search gives over them.\<close>

definition ahead :: "bool \<Rightarrow> int \<Rightarrow> int \<Rightarrow> bool" where
  "ahead latest day n = (if latest then n \<le> day else day \<le> n)"

lemma div_mono_rank: "ahead latest day (t div day_usec) \<Longrightarrow> t div day_usec \<noteq> day \<Longrightarrow> r div day_usec = day \<Longrightarrow> rank latest r \<le> rank latest t"
proof -
  assume a: "ahead latest day (t div day_usec)" "t div day_usec \<noteq> day" "r div day_usec = day"
  have le: "x \<le> y" if "x div day_usec < y div day_usec" for x y
  proof (rule ccontr)
    assume "\<not> x \<le> y"
    then have "y div day_usec \<le> x div day_usec" by (intro zdiv_mono1) (simp_all add: day_usec_def)
    with that show False by simp
  qed
  show ?thesis
  proof (cases latest)
    case True
    with a le [of t r] show ?thesis by (simp add: ahead_def rank_def)
  next
    case False
    with a le [of r t] show ?thesis by (simp add: ahead_def rank_def)
  qed
qed

lemma search_days_spec:
  assumes "cron_ok c" "if latest then day \<le> b div day_usec else a div day_usec \<le> day"
  shows "case search_days c latest a b day of
     Some r \<Rightarrow> due_at c r \<and> a < r \<and> r \<le> b
       \<and> (\<forall>t. due_at c t \<and> a < t \<and> t \<le> b \<and> ahead latest day (t div day_usec) \<longrightarrow> rank latest r \<le> rank latest t)
   | None \<Rightarrow> \<forall>t. due_at c t \<and> a < t \<and> t \<le> b \<longrightarrow> \<not> ahead latest day (t div day_usec)"
  using assms
proof (induction c latest a b day rule: search_days.induct)
  case (1 c latest a b day)
  let ?next = "if latest then day - 1 else day + 1"
  have within: "a < t \<Longrightarrow> t \<le> b \<Longrightarrow> a div day_usec \<le> t div day_usec \<and> t div day_usec \<le> b div day_usec" for t
    using zdiv_mono1 [of a t day_usec] zdiv_mono1 [of t b day_usec] by (simp add: day_usec_def)
  have split: "ahead latest day n \<longleftrightarrow> n = day \<or> ahead latest ?next n" for n by (auto simp: ahead_def)
  show ?case
  proof (cases "a div day_usec \<le> day \<and> day \<le> b div day_usec")
    case False
    moreover have "\<not> ahead latest day (t div day_usec) \<or> \<not> (a < t \<and> t \<le> b)" for t
      using within [of t] False "1.prems"(2) by (auto simp: ahead_def split: if_splits)
    ultimately show ?thesis by (subst search_days.simps) auto
  next
    case True
    show ?thesis
    proof (cases "day_hit c latest a b day")
      case None
      from True None have s: "search_days c latest a b day = search_days c latest a b ?next" by (subst search_days.simps) simp
      have "due_at c t \<Longrightarrow> a < t \<Longrightarrow> t \<le> b \<Longrightarrow> t div day_usec \<noteq> day" for t
        using day_hit_None [OF "1.prems"(1) None, of t] by blast
      moreover from True have "if latest then ?next \<le> b div day_usec else a div day_usec \<le> ?next" by simp
      ultimately show ?thesis using "1.IH" [OF True None "1.prems"(1)] unfolding s split by (auto split: option.splits)
    next
      case (Some r)
      from True Some have s: "search_days c latest a b day = Some r" by (subst search_days.simps) simp
      note hit = day_hit_Some [OF "1.prems"(1) Some]
      have "rank latest r \<le> rank latest t" if "due_at c t" "a < t" "t \<le> b" "ahead latest day (t div day_usec)" for t
        using hit that div_mono_rank [OF that(4), of r] by blast
      with hit show ?thesis by (simp add: s)
    qed
  qed
qed

text \<open>The occurrences of an expression in a span, as instants.\<close>

definition cron_minutes :: "cron \<Rightarrow> int \<Rightarrow> int \<Rightarrow> int set" where
  "cron_minutes c start end_at = {t \<in> {start<..end_at}. due_at c (t + SEOUL)}"

lemma finite_minutes: "finite (cron_minutes c start end_at)"
  unfolding cron_minutes_def by (rule finite_subset [of _ "{start<..end_at}"]) auto

lemma occurrence_exact:
  assumes "cron_expression v = Inr c"
  shows "occurrence_between c start end_at latest = (if cron_minutes c start end_at = {} then None
    else Some (if latest then Max (cron_minutes c start end_at) else Min (cron_minutes c start end_at)))"
proof -
  let ?a = "start + SEOUL" and ?b = "end_at + SEOUL" and ?D = "cron_minutes c start end_at"
  let ?day = "if latest then ?b div day_usec else ?a div day_usec"
  have in_D: "t \<in> ?D \<longleftrightarrow> due_at c (t + SEOUL) \<and> ?a < t + SEOUL \<and> t + SEOUL \<le> ?b" for t by (auto simp: cron_minutes_def)
  have all: "ahead latest ?day (t div day_usec)" if "?a < t" "t \<le> ?b" for t
    using zdiv_mono1 [of ?a t day_usec] zdiv_mono1 [of t ?b day_usec] that by (simp add: ahead_def day_usec_def)
  have spec: "case search_days c latest ?a ?b ?day of
     Some r \<Rightarrow> due_at c r \<and> ?a < r \<and> r \<le> ?b
       \<and> (\<forall>t. due_at c t \<and> ?a < t \<and> t \<le> ?b \<and> ahead latest ?day (t div day_usec) \<longrightarrow> rank latest r \<le> rank latest t)
   | None \<Rightarrow> \<forall>t. due_at c t \<and> ?a < t \<and> t \<le> ?b \<longrightarrow> \<not> ahead latest ?day (t div day_usec)"
    by (rule search_days_spec [OF cron_expression_ok [OF assms]]) simp
  have o: "occurrence_between c start end_at latest = map_option (\<lambda>t. t - SEOUL) (search_days c latest ?a ?b ?day)"
    by (simp add: occurrence_between_def Let_def)
  show ?thesis
  proof (cases "search_days c latest ?a ?b ?day")
    case None
    with spec have none: "\<not> (due_at c t \<and> ?a < t \<and> t \<le> ?b \<and> ahead latest ?day (t div day_usec))" for t by simp
    have "t \<notin> ?D" for t unfolding in_D using none [of "t + SEOUL"] all [of "t + SEOUL"] by blast
    then have "?D = {}" by blast
    with None o show ?thesis by simp
  next
    case (Some r)
    with spec have r: "r - SEOUL \<in> ?D" unfolding in_D by simp
    have best: "rank latest (r - SEOUL) \<le> rank latest t" if "t \<in> ?D" for t
    proof -
      from that have "due_at c (t + SEOUL)" "?a < t + SEOUL" "t + SEOUL \<le> ?b" unfolding in_D by simp_all
      with spec Some all have "rank latest r \<le> rank latest (t + SEOUL)" by auto
      then show ?thesis by (simp add: rank_def split: if_splits)
    qed
    have "latest \<Longrightarrow> t \<in> ?D \<Longrightarrow> t \<le> r - SEOUL" "\<not> latest \<Longrightarrow> t \<in> ?D \<Longrightarrow> r - SEOUL \<le> t" for t
      using best [of t] by (simp_all add: rank_def)
    then have "(if latest then Max ?D else Min ?D) = r - SEOUL"
      using Max_eqI [OF finite_minutes, of c start end_at "r - SEOUL"] Min_eqI [OF finite_minutes, of c start end_at "r - SEOUL"] r
      by (cases latest) simp_all
    with r Some o show ?thesis by auto
  qed
qed

text \<open>C19: the search is the reference function: over a span of time it returns the latest (or the
  earliest) whole minute after the start and up to the end that the expression names in Seoul
  time, and nothing exactly when there is none, although it visits days and not minutes.\<close>

theorem occurrence_between_exact:
  assumes "cron_expression v = Inr c"
  shows "occurrence_between c start end_at latest = (if cron_minutes c start end_at = {} then None
    else Some (if latest then Max (cron_minutes c start end_at) else Min (cron_minutes c start end_at)))"
  by (rule occurrence_exact [OF assms])

text \<open>Every weekday at 08:30 in Seoul, searched over a weekend.\<close>

definition weekdays_830 :: json where "weekdays_830 = JStr ''30 8 * * 1-5''"

definition friday :: int where "friday = days_of_civil 2024 5 31 * day_usec"

lemma weekdays_cron: "cron_expression weekdays_830 = Inr (projr (cron_expression weekdays_830))"
proof -
  have "\<not> isl (cron_expression weekdays_830)" by code_simp
  then show ?thesis by (cases "cron_expression weekdays_830") simp_all
qed

lemma occurrence_between_exact_witness:
  "Max (cron_minutes (projr (cron_expression weekdays_830)) (friday - 3 * day_usec) friday) = friday - 30 * minute_usec"
proof -
  have "occurrence_between (projr (cron_expression weekdays_830)) (friday - 3 * day_usec) friday True = Some (friday - 30 * minute_usec)"
    by code_simp
  with occurrence_between_exact [OF weekdays_cron, of "friday - 3 * day_usec" friday True] show ?thesis
    by (simp split: if_splits)
qed
end
