(* ===== verification/Scheduler.thy ===== *)
theory Scheduler imports Cron Run_Repo Task_Repo begin

text \<open>
  \<open>SchedulerService\<close> of \<open>services/scheduler.py\<close>: one tick over the enabled tasks, each task in
  its own transaction that reads and advances the task's watermark. What a tick reports is the
  dictionary the code builds. The identifier of a new run is an argument.
\<close>

section \<open>Texts of an instant\<close>

text \<open>\<open>astimezone(SEOUL).isoformat()\<close>, the local date, and the date with dots.\<close>

definition seoul_iso :: "int \<Rightarrow> string" where
  "seoul_iso t = (let s = isoformat (t + SEOUL) in take (length s - 6) s @ ''+09:00'')"

definition seoul_date :: "int \<Rightarrow> string" where
  "seoul_date t = take 10 (isoformat (t + SEOUL))"

definition dotted :: "string \<Rightarrow> string" where
  "dotted s = map (\<lambda>c. if c = CHR ''-'' then CHR ''.'' else c) s"

definition err_text :: "err \<Rightarrow> string" where
  "err_text e = (case e of ValidationError m \<Rightarrow> m | HardGateError m \<Rightarrow> m | KeyError m \<Rightarrow> m | _ \<Rightarrow> [])"

fun is_key_error :: "err \<Rightarrow> bool" where
  "is_key_error (KeyError _) = True"
| "is_key_error _ = False"

section \<open>One task\<close>

definition watermark :: "string \<Rightarrow> db \<Rightarrow> int option" where
  "watermark task d = map_option snd (sel1 (\<lambda>w. fst w = task) (db_watermarks d))"

definition skipped :: "string \<Rightarrow> string \<Rightarrow> dict" where
  "skipped task reason = [(''task_id'', JStr task), (''status'', JStr ''skipped''), (''reason'', JStr reason)]"

definition scheduled_at :: "string \<Rightarrow> int \<Rightarrow> run_row \<Rightarrow> bool" where
  "scheduled_at task due r = (run_task r = task \<and> run_trigger r = ''schedule'' \<and> run_due r = due)"

definition scheduled_run :: "env \<Rightarrow> string \<Rightarrow> string \<Rightarrow> string \<Rightarrow> int \<Rightarrow> run_row" where
  "scheduled_run e run task version due = \<lparr>run_id = run, run_task = task, run_version = version, run_due = due,
     run_timezone = ''Asia/Seoul'', run_local_date = seoul_date due, run_local_display = dotted (seoul_date due),
     run_trigger = ''schedule'', run_status = Queued, run_phase = PhQueued, run_attempt = 0, run_generation = 1,
     run_parent = None, run_created = now e, run_started = None, run_finished = None, run_heartbeat = None,
     run_progress = None, run_error = None\<rparr>"

text \<open>The insertion of the run with its controls and its execution plan.\<close>

definition enqueue_scheduled :: "(string \<Rightarrow> string) \<Rightarrow> run_row \<Rightarrow> version_row \<Rightarrow> db \<Rightarrow> db res" where
  "enqueue_scheduled sha run v d = and_then (insert_run run False 1 d) (\<lambda>d1.
     and_then (dict_default (ver_definition v) ''runner'') (\<lambda>runner.
     and_then (resolve_task_stages runner) (\<lambda>stages.
     and_then (build_execution_plan (JDict stages) (JStr ''full'') JNull
       (JDict [(''kind'', JStr ''task_version''), (''task_version_hash'', JStr (ver_hash v))]) JNull) (\<lambda>plan.
       insert_execution_plan sha (run_id run) (JDict plan) d1))))"

text \<open>What the occurrence leads to: the report, the new watermark and the database.\<close>

definition decide :: "env \<Rightarrow> (string \<Rightarrow> string) \<Rightarrow> string \<Rightarrow> string \<Rightarrow> version_row \<Rightarrow> cron \<Rightarrow> string \<Rightarrow> int \<Rightarrow> int \<Rightarrow> int \<Rightarrow>
    dict \<Rightarrow> db \<Rightarrow> ((dict \<times> int) \<times> db) res" where
  "decide e sha run task v c policy previous current occurrence result d =
    (case sel1 (scheduled_at task occurrence) (db_runs d) of
       Some x \<Rightarrow> Inr ((dmerge result [(''status'', JStr ''skipped''), (''reason'', JStr ''already_scheduled''),
           (''existing_run_id'', JStr (run_id x))], current), d)
     | None \<Rightarrow> (case least_by run_created (sel (\<lambda>r. run_task r = task \<and> run_status r = Queued) (db_runs d)) of
         Some x \<Rightarrow> Inr ((dmerge result [(''status'', JStr ''coalesced''), (''reason'', JStr ''task_already_active_in_status_queued''),
             (''active_run_id'', JStr (run_id x)), (''scheduled_for'', JStr (isoformat occurrence))],
             if policy = ''catch_up'' then previous else current), d)
       | None \<Rightarrow> and_then (enqueue_scheduled sha (scheduled_run e run task (ver_hash v) occurrence) v d) (\<lambda>d1.
           Inr ((dmerge result [(''status'', JStr ''enqueued''), (''run_id'', JStr run),
             (''scheduled_for'', JStr (isoformat occurrence)), (''cron'', JStr (cr_text c))],
             if policy = ''catch_up'' then occurrence else current), d1))))"

definition catalog_ready :: "env \<Rightarrow> string \<Rightarrow> version_row \<Rightarrow> db \<Rightarrow> bool res" where
  "catalog_ready e task v d = (case and_then (require_catalog_active ''task'' (JStr task) d) (\<lambda>_.
       require_catalog_references e (ver_definition v) d) of
     Inl er \<Rightarrow> if is_validation er then Inr False else Inl er
   | Inr _ \<Rightarrow> Inr True)"

definition unchanged_task :: "string \<Rightarrow> version_row \<Rightarrow> db \<Rightarrow> bool" where
  "unchanged_task task v d = (case find_task task d of None \<Rightarrow> False
     | Some t \<Rightarrow> task_enabled t \<and> task_active t = Some (ver_hash v))"

text \<open>The audit of a decision and the move of the watermark.\<close>

definition record_decision :: "env \<Rightarrow> string \<Rightarrow> string \<Rightarrow> int \<Rightarrow> (dict \<times> int) \<times> db \<Rightarrow> dict \<times> db" where
  "record_decision e task policy previous x = (case x of ((report, advance), d) \<Rightarrow> (report, set_watermark task advance
     (audit e ''task'' task ''schedule_decision'' (dmerge report [(''evaluated_from'', JStr (isoformat previous)),
        (''evaluated_through'', JStr (isoformat advance)), (''misfire_policy'', JStr policy)]) default_actor (isoformat (now e)) d)))"

definition tick_task :: "env \<Rightarrow> (string \<Rightarrow> string) \<Rightarrow> string \<Rightarrow> string \<Rightarrow> version_row \<Rightarrow> cron \<Rightarrow> string \<Rightarrow> int \<Rightarrow> db \<Rightarrow>
    (dict \<times> db) res" where
  "tick_task e sha run task v c policy current d =
     and_then (catalog_ready e task v d) (\<lambda>ready.
       if \<not> ready then Inr (skipped task ''catalog_item_deleted'', d)
       else if \<not> unchanged_task task v d then Inr (skipped task ''task_changed'', d)
       else let previous = default (current - minute_usec) (watermark task d) in
         if current \<le> previous then Inr (skipped task ''already_scheduled'', d)
         else let from = (if policy = ''skip'' then current - minute_usec else previous);
              result = [(''task_id'', JStr task), (''status'', JStr ''not_due''), (''task_time'', JStr (seoul_iso current))]
           in (case occurrence_between c from current (policy \<noteq> ''catch_up'') of
             None \<Rightarrow> Inr (result, set_watermark task current d)
           | Some occurrence \<Rightarrow>
               and_then (decide e sha run task v c policy previous current occurrence result d)
                 (\<lambda>x. Inr (record_decision e task policy previous x))))"

section \<open>A tick\<close>

definition scheduler_enabled :: "dict \<Rightarrow> bool res" where
  "scheduler_enabled config = and_then (dict_default config ''scheduler'') (\<lambda>s.
     Inr (get_or s ''enabled'' (JBool True) = JBool True))"

text \<open>The minute that a tick is about: a naive time is Seoul time.\<close>

definition tick_minute :: "env \<Rightarrow> pydatetime option \<Rightarrow> int" where
  "tick_minute e time = (let t = (case time of None \<Rightarrow> now e | Some (Naive n) \<Rightarrow> n - SEOUL | Some (Aware a off) \<Rightarrow> a)
     in t - t mod minute_usec)"

definition tick_config :: "env \<Rightarrow> (string \<Rightarrow> string) \<Rightarrow> string \<Rightarrow> string \<Rightarrow> version_row \<Rightarrow> dict \<Rightarrow> int \<Rightarrow> db \<Rightarrow> (dict \<times> db) res" where
  "tick_config e sha run task v config current d =
     and_then (check (get_or config ''timezone'' (JStr ''Asia/Seoul'') = JStr ''Asia/Seoul'') (ValidationError ''timezone'')) (\<lambda>_.
     and_then (dsub config ''cron'') (\<lambda>text. and_then (cron_expression text) (\<lambda>c.
     and_then (in_set (get_or config ''misfire_policy'' (JStr ''enqueue_once'')) [''skip'', ''enqueue_once'', ''catch_up'']) (\<lambda>ok.
       if \<not> ok then Inl (ValidationError ''misfire_policy'')
       else tick_task e sha run task v c (default [] (as_str (get_or config ''misfire_policy'' (JStr ''enqueue_once'')))) current d))))"

definition tick_one :: "env \<Rightarrow> (string \<Rightarrow> string) \<Rightarrow> string \<Rightarrow> string \<Rightarrow> int \<Rightarrow> db \<Rightarrow> (dict \<times> db) res" where
  "tick_one e sha run task current d = and_then (get_active_version task d) (\<lambda>mv. case mv of
     None \<Rightarrow> Inr (skipped task ''no_schedule_config'', d)
   | Some v \<Rightarrow> let schedule = dget (ver_definition v) ''schedule'' in
       if \<not> truthy schedule then Inr (skipped task ''no_schedule_config'', d)
       else (case schedule of
           JDict config \<Rightarrow> (case tick_config e sha run task v config current d of
               Inl er \<Rightarrow> if is_validation er \<or> is_key_error er
                 then Inr ([(''task_id'', JStr task), (''status'', JStr ''error''), (''reason'', JStr (err_text er))], d)
                 else Inl er
             | Inr r \<Rightarrow> Inr r)
         | _ \<Rightarrow> Inl (AttributeError ''get'')))"

fun tick_all :: "env \<Rightarrow> (string \<Rightarrow> string) \<Rightarrow> (string \<Rightarrow> string) \<Rightarrow> int \<Rightarrow> string list \<Rightarrow> db \<Rightarrow> dict list res \<times> db" where
  "tick_all e sha fresh current [] d = (Inr [], d)"
| "tick_all e sha fresh current (task # tasks) d = (case tick_one e sha (fresh task) task current d of
     Inl er \<Rightarrow> (Inl er, d)
   | Inr (report, d1) \<Rightarrow> (case tick_all e sha fresh current tasks d1 of
       (Inl er, d2) \<Rightarrow> (Inl er, d2) | (Inr reports, d2) \<Rightarrow> (Inr (report # reports), d2)))"

definition schedule_tick :: "env \<Rightarrow> (string \<Rightarrow> string) \<Rightarrow> (string \<Rightarrow> string) \<Rightarrow> dict \<Rightarrow> pydatetime option \<Rightarrow> db \<Rightarrow> dict list res \<times> db" where
  "schedule_tick e sha fresh config time d = (case scheduler_enabled config of
     Inl er \<Rightarrow> (Inl er, d)
   | Inr False \<Rightarrow> (Inr [[(''status'', JStr ''disabled''), (''reason'', JStr ''scheduler_disabled'')]], d)
   | Inr True \<Rightarrow> tick_all e sha fresh (tick_minute e time) (map task_id (list_tasks True False d)) d)"

section \<open>What a tick does to the runs\<close>

lemma set_watermark_runs [simp]: "db_runs (set_watermark task at d) = db_runs d"
  by (simp add: set_watermark_def)

lemma sel1_upd_pair: "some_row (\<lambda>w. fst w = k) ws \<Longrightarrow> sel1 (\<lambda>w. fst w = k) (upd (\<lambda>w. fst w = k) (\<lambda>w. (k, at)) ws) = Some (k, at)"
  by (induction ws) auto

lemma watermark_set: "watermark task (set_watermark task at d) = Some at"
proof (cases "some_row (\<lambda>w. fst w = task) (db_watermarks d)")
  case True
  then show ?thesis by (simp add: watermark_def set_watermark_def sel1_upd_pair)
next
  case False
  then have "sel1 (\<lambda>w. fst w = task) (db_watermarks d @ [(task, at)]) = Some (task, at)"
    by (subst sel1_append_new) (auto simp: some_row_iff)
  with False show ?thesis by (simp add: watermark_def set_watermark_def)
qed

lemma insert_plan_runs: "insert_execution_plan sha run plan d = Inr d' \<Longrightarrow> db_runs d' = db_runs d \<and> db_watermarks d' = db_watermarks d"
  by (auto simp: insert_execution_plan_def and_then_Inr)

lemma enqueue_scheduled_runs:
  "enqueue_scheduled sha r v d = Inr d' \<Longrightarrow> db_runs d' = db_runs d @ [r] \<and> db_watermarks d' = db_watermarks d"
  by (auto simp: enqueue_scheduled_def and_then_Inr insert_run_def dest!: insert_plan_runs split: if_splits)

text \<open>The four ways an occurrence is decided.\<close>

lemma decide_cases:
  assumes "decide e sha run task v c policy previous current occ result d = Inr ((rep, advance), d1)"
  obtains (existing) "some_row (scheduled_at task occ) (db_runs d)" "advance = current" "d1 = d"
  | (coalesced) "some_row (\<lambda>r. run_task r = task \<and> run_status r = Queued) (db_runs d)"
      "advance = (if policy = ''catch_up'' then previous else current)" "d1 = d" "\<not> some_row (scheduled_at task occ) (db_runs d)"
  | (enqueued) "\<not> some_row (scheduled_at task occ) (db_runs d)" "\<not> some_row (\<lambda>r. run_task r = task \<and> run_status r = Queued) (db_runs d)"
      "advance = (if policy = ''catch_up'' then occ else current)"
      "db_runs d1 = db_runs d @ [scheduled_run e run task (ver_hash v) occ]"
proof (cases "sel1 (scheduled_at task occ) (db_runs d)")
  case (Some x)
  with assms have "advance = current" "d1 = d" by (simp_all add: decide_def)
  with sel1_Some [OF Some] show ?thesis by (intro existing) (auto simp: some_row_iff)
next
  case None
  then have no: "\<not> some_row (scheduled_at task occ) (db_runs d)" by (simp add: sel1_None some_row_iff)
  show ?thesis
  proof (cases "least_by run_created (sel (\<lambda>r. run_task r = task \<and> run_status r = Queued) (db_runs d))")
    case (Some x)
    with None assms have "advance = (if policy = ''catch_up'' then previous else current)" "d1 = d" by (simp_all add: decide_def)
    with least_by_Some [OF Some] no show ?thesis by (intro coalesced) (auto simp: some_row_iff)
  next
    case None': None
    then have "\<not> some_row (\<lambda>r. run_task r = task \<and> run_status r = Queued) (db_runs d)"
      by (simp add: least_by_None some_row_iff sel_def filter_empty_conv)
    with None None' assms no show ?thesis
      by (intro enqueued) (auto simp: decide_def and_then_Inr dest: enqueue_scheduled_runs)
  qed
qed

definition evaluated :: "string \<Rightarrow> int \<Rightarrow> db \<Rightarrow> int" where
  "evaluated task current d = default (current - minute_usec) (watermark task d)"

definition search_from :: "string \<Rightarrow> string \<Rightarrow> int \<Rightarrow> db \<Rightarrow> int" where
  "search_from policy task current d = (if policy = ''skip'' then current - minute_usec else evaluated task current d)"

text \<open>An enabled, unchanged task whose watermark lies behind the tick.\<close>

lemma tick_task_eval:
  assumes "catalog_ready e task v d = Inr True" "unchanged_task task v d" "evaluated task current d < current"
  shows "\<exists>result. tick_task e sha run task v c policy current d =
    (case occurrence_between c (search_from policy task current d) current (policy \<noteq> ''catch_up'') of
       None \<Rightarrow> Inr (result, set_watermark task current d)
     | Some occ \<Rightarrow> and_then (decide e sha run task v c policy (evaluated task current d) current occ result d)
         (\<lambda>x. Inr (record_decision e task policy (evaluated task current d) x)))"
proof
  show "tick_task e sha run task v c policy current d =
    (case occurrence_between c (search_from policy task current d) current (policy \<noteq> ''catch_up'') of
       None \<Rightarrow> Inr ([(''task_id'', JStr task), (''status'', JStr ''not_due''), (''task_time'', JStr (seoul_iso current))], set_watermark task current d)
     | Some occ \<Rightarrow> and_then (decide e sha run task v c policy (evaluated task current d) current occ
           [(''task_id'', JStr task), (''status'', JStr ''not_due''), (''task_time'', JStr (seoul_iso current))] d)
         (\<lambda>x. Inr (record_decision e task policy (evaluated task current d) x)))"
    using assms(3) unfolding tick_task_def assms(1) and_then_simps Let_def evaluated_def search_from_def
    by (simp add: assms(2) cong: option.case_cong)
qed

lemma tick_task_idle:
  assumes "tick_task e sha run task v c policy current d = Inr (rep, d')"
    and "\<not> (catalog_ready e task v d = Inr True \<and> unchanged_task task v d \<and> evaluated task current d < current)"
  shows "d' = d"
proof (cases "catalog_ready e task v d")
  case (Inr ready)
  show ?thesis
  proof (cases "ready \<and> unchanged_task task v d")
    case True
    with Inr assms(2) have "current \<le> default (current - minute_usec) (watermark task d)" by (simp add: evaluated_def)
    with assms(1) Inr True show ?thesis unfolding tick_task_def Let_def by simp
  next
    case False
    with assms(1) Inr show ?thesis unfolding tick_task_def and_then_simps Inr by (cases ready) simp_all
  qed
qed (use assms(1) in \<open>simp add: tick_task_def\<close>)

lemma record_decision_state: "record_decision e task policy p x = (rep, d') \<Longrightarrow> db_runs d' = db_runs (snd x) \<and> watermark task d' = Some (snd (fst x))"
  by (auto simp: record_decision_def watermark_set split: prod.splits)

lemma tick_task_cases:
  assumes "tick_task e sha run task v c policy current d = Inr (rep, d')"
  obtains (idle) "d' = d" "\<not> (catalog_ready e task v d = Inr True \<and> unchanged_task task v d \<and> evaluated task current d < current)"
  | (not_due) "evaluated task current d < current" "d' = set_watermark task current d"
      "occurrence_between c (search_from policy task current d) current (policy \<noteq> ''catch_up'') = None"
  | (decided) occ advance rep' d1 result where "evaluated task current d < current"
      "occurrence_between c (search_from policy task current d) current (policy \<noteq> ''catch_up'') = Some occ"
      "decide e sha run task v c policy (evaluated task current d) current occ result d = Inr ((rep', advance), d1)"
      "db_runs d' = db_runs d1" "watermark task d' = Some advance"
proof (cases "catalog_ready e task v d = Inr True \<and> unchanged_task task v d \<and> evaluated task current d < current")
  case False
  show ?thesis by (rule idle [OF tick_task_idle [OF assms False] False])
next
  case True
  from tick_task_eval [of e task v d current sha run c policy] True obtain result where eval: "tick_task e sha run task v c policy current d =
    (case occurrence_between c (search_from policy task current d) current (policy \<noteq> ''catch_up'') of
       None \<Rightarrow> Inr (result, set_watermark task current d)
     | Some occ \<Rightarrow> and_then (decide e sha run task v c policy (evaluated task current d) current occ result d)
         (\<lambda>x. Inr (record_decision e task policy (evaluated task current d) x)))" by blast
  show ?thesis
  proof (cases "occurrence_between c (search_from policy task current d) current (policy \<noteq> ''catch_up'')")
    case None
    with assms eval have "d' = set_watermark task current d" by simp
    with None True show ?thesis by (intro not_due) simp_all
  next
    case (Some occ)
    from assms have "and_then (decide e sha run task v c policy (evaluated task current d) current occ result d)
         (\<lambda>x. Inr (record_decision e task policy (evaluated task current d) x)) = Inr (rep, d')" unfolding eval Some by simp
    then obtain x where x: "decide e sha run task v c policy (evaluated task current d) current occ result d = Inr x"
      and "record_decision e task policy (evaluated task current d) x = (rep, d')" by (auto simp: and_then_Inr)
    from record_decision_state [OF this(2)] have "db_runs d' = db_runs (snd x)" "watermark task d' = Some (snd (fst x))" by simp_all
    moreover from x have "decide e sha run task v c policy (evaluated task current d) current occ result d
      = Inr ((fst (fst x), snd (fst x)), snd x)" by simp
    ultimately show ?thesis using Some True by (intro decided [where occ = occ and advance = "snd (fst x)" and rep' = "fst (fst x)" and ?d1.0 = "snd x" and result = result]) simp_all
  qed
qed

lemma occurrence_in:
  assumes "cron_expression x = Inr c" "occurrence_between c a b latest = Some occ"
  shows "occ \<in> cron_minutes c a b" and "latest \<Longrightarrow> occ = Max (cron_minutes c a b)" and "\<not> latest \<Longrightarrow> occ = Min (cron_minutes c a b)"
proof -
  have o: "cron_minutes c a b \<noteq> {}" "occ = (if latest then Max (cron_minutes c a b) else Min (cron_minutes c a b))"
    using occurrence_exact [OF assms(1), of a b latest] assms(2) by (auto split: if_splits)
  then show "occ \<in> cron_minutes c a b" using Max_in [OF finite_minutes o(1)] Min_in [OF finite_minutes o(1)] by simp
  from o(2) show "latest \<Longrightarrow> occ = Max (cron_minutes c a b)" "\<not> latest \<Longrightarrow> occ = Min (cron_minutes c a b)" by simp_all
qed

lemma occurrence_none: "cron_expression x = Inr c \<Longrightarrow> occurrence_between c a b latest = None \<Longrightarrow> cron_minutes c a b = {}"
  by (simp add: occurrence_exact split: if_splits)

text \<open>C20: a tick of a task queues at most one run, and only for a minute the expression names in
  the span searched, when no scheduled run of that minute exists and no run of the task is queued;
  the watermark never moves back and never past the minute of the tick.\<close>

theorem tick_queues_due_run:
  assumes "cron_expression text = Inr c" "tick_task e sha run task v c policy current d = Inr (rep, d')"
  shows "(db_runs d' = db_runs d \<or> (\<exists>occ \<in> cron_minutes c (search_from policy task current d) current.
      db_runs d' = db_runs d @ [scheduled_run e run task (ver_hash v) occ] \<and> \<not> some_row (scheduled_at task occ) (db_runs d)
      \<and> \<not> some_row (\<lambda>r. run_task r = task \<and> run_status r = Queued) (db_runs d)))
    \<and> (d' = d \<or> (\<exists>w. watermark task d' = Some w \<and> evaluated task current d \<le> w \<and> w \<le> current))"
  using assms(2)
proof (cases rule: tick_task_cases)
  case idle
  then show ?thesis by simp
next
  case not_due
  then show ?thesis by (simp add: watermark_set)
next
  case (decided occ advance rep' d1 result)
  note occ = occurrence_in(1) [OF assms(1) decided(2)]
  then have bounds: "search_from policy task current d < occ" "occ \<le> current" by (auto simp: cron_minutes_def)
  from decided(3) show ?thesis
  proof (cases rule: decide_cases)
    case existing
    with decided show ?thesis by simp
  next
    case coalesced
    with decided show ?thesis by simp
  next
    case enqueued
    have "policy = ''catch_up'' \<Longrightarrow> evaluated task current d < occ" using bounds by (simp add: search_from_def)
    with enqueued decided occ bounds show ?thesis by auto
  qed
qed

text \<open>C21: what a tick decides for a task it evaluates, exactly. Nothing is due in a span without a minute of
  the expression. Otherwise one minute is decided, the earliest of the span under \<open>catch_up\<close> and the
  latest under the other policies: it gets its run unless it has one already or the task has a queued run.
  The watermark moves to the tick, but under \<open>catch_up\<close> it moves to the minute that got its run and stays
  where it was when the decision was put off. So under \<open>catch_up\<close> every minute the watermark passes has its
  run, unless the minute decided had its run before the tick.\<close>

theorem tick_decides_exactly:
  assumes "cron_expression text = Inr c" "tick_task e sha run task v c policy current d = Inr (rep, d')"
    and "catalog_ready e task v d = Inr True" "unchanged_task task v d" "evaluated task current d < current"
    and "due = cron_minutes c (search_from policy task current d) current"
    and "m = (if policy = ''catch_up'' then Min due else Max due)"
  shows "(db_runs d', watermark task d') =
      (if due = {} \<or> some_row (scheduled_at task m) (db_runs d) then (db_runs d, Some current)
       else if some_row (\<lambda>r. run_task r = task \<and> run_status r = Queued) (db_runs d)
         then (db_runs d, Some (if policy = ''catch_up'' then evaluated task current d else current))
       else (db_runs d @ [scheduled_run e run task (ver_hash v) m], Some (if policy = ''catch_up'' then m else current)))
    \<and> (policy = ''catch_up'' \<and> \<not> some_row (scheduled_at task m) (db_runs d) \<longrightarrow>
        (\<exists>w. watermark task d' = Some w \<and> cron_minutes c (evaluated task current d) w \<subseteq> {t. some_row (scheduled_at task t) (db_runs d')}))"
  using assms(2)
proof (cases rule: tick_task_cases)
  case idle
  with assms(3-5) show ?thesis by simp
next
  case not_due
  from occurrence_none [OF assms(1) not_due(3)] have "due = {}" by (simp add: assms(6))
  moreover from this assms(6) have "policy = ''catch_up'' \<Longrightarrow> cron_minutes c (evaluated task current d) current = {}" by (simp add: search_from_def)
  ultimately show ?thesis using not_due(2) by (simp add: watermark_set)
next
  case (decided occ advance rep' d1 result)
  note occ = occurrence_in [OF assms(1) decided(2)]
  have due: "due \<noteq> {}" "m = occ" using occ assms(6,7) by auto
  from decided(3) show ?thesis
  proof (cases rule: decide_cases)
    case existing
    with decided due show ?thesis by simp
  next
    case coalesced
    have "cron_minutes c (evaluated task current d) (evaluated task current d) = {}" by (auto simp: cron_minutes_def)
    with coalesced decided due show ?thesis by simp
  next
    case enqueued
    have "t = occ" if "policy = ''catch_up''" "t \<in> cron_minutes c (evaluated task current d) occ" for t
    proof -
      from that occ(1) have "t \<in> due" "t \<le> occ" by (auto simp: cron_minutes_def assms(6) search_from_def)
      moreover have "Min due \<le> t" using \<open>t \<in> due\<close> unfolding assms(6) by (rule Min_le [OF finite_minutes])
      ultimately show ?thesis using due(2) that(1) assms(7) by simp
    qed
    then have "policy = ''catch_up'' \<Longrightarrow> cron_minutes c (evaluated task current d) occ \<subseteq> {t. some_row (scheduled_at task t) (db_runs d')}"
      using enqueued decided by (auto simp: scheduled_at_def scheduled_run_def)
    with enqueued decided due show ?thesis by auto
  qed
qed

section \<open>Examples\<close>

definition cron_version :: version_row where
  "cron_version = sample_version\<lparr>ver_definition := [(''id'', JStr ''t1''), (''name'', JStr ''t1''), (''enabled'', JBool True),
     (''workspace'', JDict []), (''runner'', JDict [(''type'', JStr ''fake'')]), (''instructions'', JDict []), (''output'', JDict []),
     (''delivery'', JDict [(''mode'', JStr ''handoff'')]), (''schedule'', JDict [(''cron'', weekdays_830), (''misfire_policy'', JStr ''catch_up'')])]\<rparr>"

definition cron_db :: db where
  "cron_db = empty_db\<lparr>db_tasks := [sample_task], db_versions := [cron_version], db_watermarks := [(''t1'', friday - 3 * day_usec)]\<rparr>"

definition weekdays :: cron where "weekdays = projr (cron_expression weekdays_830)"

definition sample_tick :: "(dict \<times> db) res" where
  "sample_tick = tick_task sample_env (\<lambda>s. s) ''r9'' ''t1'' cron_version weekdays ''catch_up'' friday cron_db"

definition ticked :: db where "ticked = snd (projr sample_tick)"

definition tuesday :: int where "tuesday = friday - 2 * day_usec - 30 * minute_usec"

lemma cron_db_ready:
  "catalog_ready sample_env ''t1'' cron_version cron_db = Inr True" "unchanged_task ''t1'' cron_version cron_db"
  "evaluated ''t1'' friday cron_db = friday - 3 * day_usec" "db_runs cron_db = []"
  by (code_simp, code_simp, simp_all add: evaluated_def watermark_def cron_db_def empty_db_def)

lemma tuesday_next: "occurrence_between weekdays (friday - 3 * day_usec) friday False = Some tuesday"
  by code_simp

lemma tuesday_queued: "\<not> isl (enqueue_scheduled (\<lambda>s. s) (scheduled_run sample_env ''r9'' ''t1'' (ver_hash cron_version) tuesday) cron_version cron_db)"
  by code_simp

lemma sample_tick_ok: "tick_task sample_env (\<lambda>s. s) ''r9'' ''t1'' cron_version weekdays ''catch_up'' friday cron_db
    = Inr (fst (projr sample_tick), ticked)"
proof -
  have "evaluated ''t1'' friday cron_db < friday" unfolding cron_db_ready by (simp add: day_usec_def)
  from tick_task_eval [OF cron_db_ready(1,2) this, of "\<lambda>s. s" "''r9''" weekdays "''catch_up''"] obtain result where
    eval: "sample_tick = and_then (decide sample_env (\<lambda>s. s) ''r9'' ''t1'' cron_version weekdays ''catch_up'' (friday - 3 * day_usec) friday tuesday result cron_db)
      (\<lambda>x. Inr (record_decision sample_env ''t1'' ''catch_up'' (friday - 3 * day_usec) x))"
    by (auto simp: sample_tick_def search_from_def cron_db_ready(3) tuesday_next)
  obtain d1 where "enqueue_scheduled (\<lambda>s. s) (scheduled_run sample_env ''r9'' ''t1'' (ver_hash cron_version) tuesday) cron_version cron_db = Inr d1"
    using tuesday_queued by (auto dest: not_isl)
  then have "\<not> isl sample_tick" unfolding eval by (simp add: decide_def cron_db_ready(4) sel_def)
  then show ?thesis by (cases sample_tick) (simp_all add: ticked_def sample_tick_def [symmetric])
qed

lemma weekdays_parsed: "cron_expression weekdays_830 = Inr weekdays"
  unfolding weekdays_def by (rule weekdays_cron)

lemma tick_queues_due_run_witness:
  "(db_runs ticked = db_runs cron_db \<or> (\<exists>occ \<in> cron_minutes weekdays (search_from ''catch_up'' ''t1'' friday cron_db) friday.
      db_runs ticked = db_runs cron_db @ [scheduled_run sample_env ''r9'' ''t1'' (ver_hash cron_version) occ]
      \<and> \<not> some_row (scheduled_at ''t1'' occ) (db_runs cron_db)
      \<and> \<not> some_row (\<lambda>r. run_task r = ''t1'' \<and> run_status r = Queued) (db_runs cron_db)))
    \<and> (ticked = cron_db \<or> (\<exists>w. watermark ''t1'' ticked = Some w \<and> evaluated ''t1'' friday cron_db \<le> w \<and> w \<le> friday))"
  by (rule tick_queues_due_run [OF weekdays_parsed sample_tick_ok])

lemma tick_decides_exactly_witness:
  "db_runs ticked = [scheduled_run sample_env ''r9'' ''t1'' (ver_hash cron_version) tuesday] \<and> watermark ''t1'' ticked = Some tuesday"
proof -
  have "evaluated ''t1'' friday cron_db < friday" unfolding cron_db_ready by (simp add: day_usec_def)
  note t = tick_decides_exactly [OF weekdays_parsed sample_tick_ok cron_db_ready(1,2) this refl refl]
  note occ = occurrence_in [OF weekdays_parsed tuesday_next]
  from occ have "cron_minutes weekdays (search_from ''catch_up'' ''t1'' friday cron_db) friday \<noteq> {}"
      "Min (cron_minutes weekdays (search_from ''catch_up'' ''t1'' friday cron_db) friday) = tuesday"
    by (auto simp: search_from_def cron_db_ready(3))
  with t show ?thesis by (simp add: cron_db_ready(4))
qed

text \<open>The exception under \<open>catch_up\<close> is real: when the earliest missed minute already has its
  run, a \<open>catch_up\<close> tick moves the watermark to the tick itself, and the later missed minutes get
  no run. Here the watermark is on Tuesday morning's minute less one day, Tuesday's run exists, and
  Wednesday's minute is passed over.\<close>

definition late_db :: db where
  "late_db = cron_db\<lparr>db_runs := [(scheduled_run sample_env ''r8'' ''t1'' ''v1'' tuesday)\<lparr>run_status := Succeeded\<rparr>]\<rparr>"

lemma catch_up_passes_over:
  "\<exists>rep d'. tick_task sample_env (\<lambda>s. s) ''r9'' ''t1'' cron_version weekdays ''catch_up'' friday late_db = Inr (rep, d')
     \<and> watermark ''t1'' d' = Some friday \<and> tuesday + day_usec \<in> cron_minutes weekdays (friday - 3 * day_usec) friday
     \<and> \<not> some_row (scheduled_at ''t1'' (tuesday + day_usec)) (db_runs d')"
proof -
  have late: "catalog_ready sample_env ''t1'' cron_version late_db = Inr True" "unchanged_task ''t1'' cron_version late_db"
    "evaluated ''t1'' friday late_db = friday - 3 * day_usec"
    by (code_simp, code_simp, simp add: evaluated_def watermark_def late_db_def cron_db_def)
  have "evaluated ''t1'' friday late_db < friday" unfolding late by (simp add: day_usec_def)
  from tick_task_eval [OF late(1,2) this, of "\<lambda>s. s" "''r9''" weekdays "''catch_up''"] obtain result where
    eval: "tick_task sample_env (\<lambda>s. s) ''r9'' ''t1'' cron_version weekdays ''catch_up'' friday late_db
      = and_then (decide sample_env (\<lambda>s. s) ''r9'' ''t1'' cron_version weekdays ''catch_up'' (friday - 3 * day_usec) friday tuesday result late_db)
      (\<lambda>x. Inr (record_decision sample_env ''t1'' ''catch_up'' (friday - 3 * day_usec) x))"
    by (auto simp: search_from_def late(3) tuesday_next)
  obtain rep where d: "decide sample_env (\<lambda>s. s) ''r9'' ''t1'' cron_version weekdays ''catch_up'' (friday - 3 * day_usec) friday tuesday result late_db
      = Inr ((rep, friday), late_db)"
    by (simp add: decide_def late_db_def scheduled_at_def scheduled_run_def)
  obtain rep' d' where r: "record_decision sample_env ''t1'' ''catch_up'' (friday - 3 * day_usec) ((rep, friday), late_db) = (rep', d')"
    by (metis surj_pair)
  have "due_at weekdays (tuesday + day_usec + SEOUL)" by code_simp
  then have "tuesday + day_usec \<in> cron_minutes weekdays (friday - 3 * day_usec) friday"
    by (simp add: cron_minutes_def tuesday_def minute_usec_def day_usec_def)
  moreover have "\<not> some_row (scheduled_at ''t1'' (tuesday + day_usec)) (db_runs d')"
    using record_decision_state [OF r] by (simp add: late_db_def scheduled_at_def scheduled_run_def day_usec_def)
  ultimately show ?thesis using eval d r record_decision_state [OF r] by simp
qed
end
