(* ===== verification/Recipient_Routing.thy ===== *)
theory Recipient_Routing imports Run_Repo Task_Repo begin

text \<open>
  Who receives a mail: \<open>delivery/recipient_routing.py\<close>, with the public snapshot of the catalog,
  the resolution of a worker's selection and its binding to the stored run, revision and hashes,
  and the live approval of \<open>delivery/policy.py\<close> that every publication passes. A composition
  input is the dictionary it is built from; the JSON schema validator and the parser of addresses
  are parameters.
\<close>

section \<open>Composition inputs\<close>

definition COMP_REQUIRED :: "string list" where
  "COMP_REQUIRED = [''task_id'', ''run_id'', ''task_version_hash'', ''composition_revision'', ''run'', ''result'', ''coverage'',
     ''allowed_recipient_group_ids'', ''reportable_records'', ''inline_artifacts'', ''attachments'']"

definition COMP_DEFAULTS :: dict where
  "COMP_DEFAULTS = [(''schema_version'', JInt 2), (''recipient_routing_mode'', JStr ''legacy_ids''), (''recipient_groups'', JList []),
     (''artifact_report'', JNull), (''research_context'', JNull), (''delivery_history'', JNull)]"

text \<open>\<open>CompositionInput(**d)\<close>: every field, in the order of the class.\<close>

definition composition_input :: "dict \<Rightarrow> dict res" where
  "composition_input d = (if list_all (\<lambda>k. map_of d k \<noteq> None) COMP_REQUIRED \<and> keys_within d (COMP_REQUIRED @ map fst COMP_DEFAULTS)
     then Inr (map (\<lambda>k. (k, dget d k)) COMP_REQUIRED @ map (\<lambda>(k, v). (k, get_or d k v)) COMP_DEFAULTS)
     else Inl (TypeError ''CompositionInput''))"

definition composition_to_dict :: "dict \<Rightarrow> dict" where
  "composition_to_dict c =
    (let version = dget c ''schema_version'';
         a = (if pyeq version (JInt 2) then ddel ''recipient_groups'' (ddel ''recipient_routing_mode'' c) else c);
         b = (if pyeq version (JInt 2) \<or> pyeq version (JInt 3) then ddel ''artifact_report'' a else a)
     in filter (\<lambda>(k, v). \<not> (k \<in> {''research_context'', ''delivery_history''} \<and> v = JNull)) b)"

definition version_among :: "dict \<Rightarrow> int list \<Rightarrow> bool" where
  "version_among c vs = list_ex (\<lambda>i. pyeq (dget c ''schema_version'') (JInt i)) vs"

section \<open>Routing\<close>

text \<open>\<open>v in w\<close> for a value of any type.\<close>

definition value_in :: "json \<Rightarrow> json \<Rightarrow> bool res" where
  "value_in v w = (case w of
     JList xs \<Rightarrow> Inr (list_ex (pyeq v) xs)
   | _ \<Rightarrow> (case v of JStr s \<Rightarrow> py_in s w | _ \<Rightarrow> (case w of JDict d \<Rightarrow> in_set v (map fst d) | _ \<Rightarrow> Inl (TypeError ''in''))))"

definition routing_mode :: "dict \<Rightarrow> string res" where
  "routing_mode def = and_then (dict_default def ''delivery'') (\<lambda>delivery.
     let mode = get_or delivery ''recipient_routing_mode'' (JStr ''legacy_ids'')
     in if mode = JStr ''legacy_ids'' then Inr ''legacy_ids'' else if mode = JStr ''catalog_name'' then Inr ''catalog_name''
        else Inl (ValidationError ''routing mode''))"

definition mapped_addresses :: "delivery_config \<Rightarrow> string \<Rightarrow> json res" where
  "mapped_addresses cfg key = (case cfg_groups cfg of JDict g \<Rightarrow> Inr (dget g key) | _ \<Rightarrow> Inl (AttributeError ''get''))"

definition usable :: "(string \<Rightarrow> bool) \<Rightarrow> json \<Rightarrow> bool" where
  "usable addr_ok v = (case v of
     JList xs \<Rightarrow> xs \<noteq> [] \<and> distinct xs \<and> list_all (\<lambda>a. \<not> isl (validate_address addr_ok a)) xs | _ \<Rightarrow> False)"

datatype owner_choice = OfTask json | OfInstallation | OfOwner "string option"

definition chosen_owner :: "owner_choice \<Rightarrow> db \<Rightarrow> string option res" where
  "chosen_owner who d = (case who of OfTask t \<Rightarrow> entity_owner ''task'' t d | OfInstallation \<Rightarrow> Inr (installation_owner d)
     | OfOwner u \<Rightarrow> Inr u)"

definition catalog_recipient_snapshot :: "(string \<Rightarrow> bool) \<Rightarrow> delivery_config \<Rightarrow> owner_choice \<Rightarrow> db \<Rightarrow> json list res" where
  "catalog_recipient_snapshot addr_ok cfg who d = and_then (chosen_owner who d) (\<lambda>owner.
     let rows = sort_key cat_id (sel (\<lambda>r. cat_kind r = ''recipient_group'' \<and> cat_deleted r = None \<and> cat_owner r = owner) (db_catalog d))
     in and_then (collect (\<lambda>r. and_then (mapped_addresses cfg (cat_key r)) (\<lambda>v. Inr (if usable addr_ok v then [r] else []))) rows) (\<lambda>kept.
       Inr (map (\<lambda>r. JDict [(''recipient_group_id'', JStr (cat_key r)), (''display_name'', JStr (cat_name r))]) (concat kept))))"

definition public_group :: "json \<Rightarrow> string option" where
  "public_group v = (case v of
     JDict g \<Rightarrow> (case (dget g ''recipient_group_id'', dget g ''display_name'') of
       (JStr i, JStr n) \<Rightarrow> if same_keys g [''recipient_group_id'', ''display_name''] \<and> lower_id i \<and> strip n \<noteq> []
           \<and> \<not> list_ex control_char n \<and> n = strip n \<and> length n \<le> 200 then Some i else None
     | _ \<Rightarrow> None)
   | _ \<Rightarrow> None)"

definition validate_snapshot :: "json \<Rightarrow> string list res" where
  "validate_snapshot groups = (case groups of
     JList gs \<Rightarrow> if gs = [] then Inl (ValidationError ''active mapped group'')
       else and_then (collect (\<lambda>g. case public_group g of None \<Rightarrow> Inl (ValidationError ''recipient snapshot'') | Some i \<Rightarrow> Inr i) gs)
         (\<lambda>ids. if distinct ids then Inr ids else Inl (ValidationError ''duplicate group IDs''))
   | _ \<Rightarrow> Inl (ValidationError ''active mapped group''))"

definition group_named :: "string \<Rightarrow> json \<Rightarrow> bool" where
  "group_named name g = (pyeq (dget (default [] (as_dict g)) ''display_name'') (JStr name))"

definition resolve_legacy :: "dict \<Rightarrow> dict \<Rightarrow> dict \<Rightarrow> json res" where
  "resolve_legacy data c delivery =
    (let allowed = get_or delivery ''allowed_recipient_group_ids'' (JList []) in
     if \<not> version_among c [2, 4] \<or> \<not> pyeq (dget c ''recipient_routing_mode'') (JStr ''legacy_ids'') \<or> map_of data ''recipient_group_name'' \<noteq> None
     then Inl (ValidationError ''sealed task allowlist'')
     else and_then (value_in (dget data ''recipient_group_id'') allowed) (\<lambda>listed.
       if \<not> listed \<or> \<not> pyeq allowed (dget c ''allowed_recipient_group_ids'') then Inl (ValidationError ''sealed task allowlist'')
       else dsub data ''recipient_group_id''))"

definition resolve_named :: "dict \<Rightarrow> dict \<Rightarrow> json res" where
  "resolve_named data c =
    (if \<not> version_among c [3, 4] \<or> \<not> pyeq (dget c ''recipient_routing_mode'') (JStr ''catalog_name'') \<or> map_of data ''recipient_group_id'' \<noteq> None
     then Inl (ValidationError ''routing contract'')
     else and_then (validate_snapshot (dget c ''recipient_groups'')) (\<lambda>ids.
       if \<not> pyeq (dget c ''allowed_recipient_group_ids'') (JList (map JStr ids)) then Inl (ValidationError ''recipient IDs'')
       else (case dget data ''recipient_group_name'' of
           JStr name \<Rightarrow> if strip name = [] then Inl (ValidationError ''one recipient group name'')
             else (case filter (group_named (strip name)) (default [] (as_list (dget c ''recipient_groups''))) of
                 [] \<Rightarrow> Inl (ValidationError ''name not in snapshot'')
               | [g] \<Rightarrow> Inr (dget (default [] (as_dict g)) ''recipient_group_id'')
               | _ \<Rightarrow> Inl (ValidationError ''ambiguous name''))
         | _ \<Rightarrow> Inl (ValidationError ''one recipient group name''))))"

definition resolve_recipient :: "json \<Rightarrow> dict \<Rightarrow> dict \<Rightarrow> json res" where
  "resolve_recipient v c def = (case v of
     JDict data \<Rightarrow> and_then (routing_mode def) (\<lambda>mode. if mode = ''legacy_ids''
       then and_then (dict_default def ''delivery'') (resolve_legacy data c) else resolve_named data c)
   | _ \<Rightarrow> Inl (ValidationError ''selection object''))"

definition resolution_record :: "json \<Rightarrow> json \<Rightarrow> json \<Rightarrow> json \<Rightarrow> json \<Rightarrow> json \<Rightarrow> json \<Rightarrow> json \<Rightarrow> dict" where
  "resolution_record task run version revision name grp input_sha result_sha =
     [(''schema_version'', JInt 1), (''task_id'', task), (''run_id'', run), (''task_version_hash'', version),
      (''composition_revision'', revision), (''recipient_group_name'', name), (''recipient_group_id'', grp),
      (''composition_input_sha256'', input_sha), (''composition_result_sha256'', result_sha)]"

definition recipient_resolution :: "(string \<Rightarrow> string) \<Rightarrow> json \<Rightarrow> dict \<Rightarrow> dict \<Rightarrow> string \<Rightarrow> dict res" where
  "recipient_resolution sha v c def raw = and_then (resolve_recipient v c def) (\<lambda>grp.
     and_then (dsub (default [] (as_dict v)) ''recipient_group_name'') (\<lambda>name.
       Inr (resolution_record (dget c ''task_id'') (dget c ''run_id'') (dget c ''task_version_hash'') (dget c ''composition_revision'')
         name grp (JStr (sha (canonical_json (JDict (composition_to_dict c))))) (JStr (sha raw)))))"

section \<open>The stored selection\<close>

fun is_data_error :: "err \<Rightarrow> bool" where
  "is_data_error (TypeError _) = True"
| "is_data_error e = is_validation e"

fun is_value_error :: "err \<Rightarrow> bool" where
  "is_value_error (ValueError _) = True"
| "is_value_error e = is_data_error e"

definition recast :: "(err \<Rightarrow> bool) \<Rightarrow> err \<Rightarrow> 'a res \<Rightarrow> 'a res" where
  "recast p e m = (case m of Inl er \<Rightarrow> if p er then Inl e else Inl er | Inr x \<Rightarrow> Inr x)"

text \<open>\<open>CompositionResult.to_dict\<close> of the stored row.\<close>

definition stored_result :: "output_row \<Rightarrow> dict" where
  "stored_result r = output_payload r None None None"

definition stored_matches :: "json \<Rightarrow> string \<Rightarrow> string \<Rightarrow> json \<Rightarrow> string \<Rightarrow> input_row \<Rightarrow> dict \<Rightarrow> output_row \<Rightarrow> bool" where
  "stored_matches task run version revision grp i snapshot out =
     (pyeq (JStr (inp_task i)) task \<and> inp_version i = version \<and> pyeq (JStr (out_task out)) task \<and> pyeq (dget snapshot ''task_id'') task
      \<and> pyeq (dget snapshot ''run_id'') (JStr run) \<and> pyeq (dget snapshot ''task_version_hash'') (JStr version)
      \<and> pyeq (dget snapshot ''composition_revision'') revision \<and> out_group out = grp)"

definition verify_raw_selection :: "(string \<Rightarrow> string) \<Rightarrow> string \<Rightarrow> dict \<Rightarrow> dict \<Rightarrow> dict \<Rightarrow> output_row \<Rightarrow> unit res" where
  "verify_raw_selection sha raw snapshot def resolution out =
     and_then (recast is_value_error (DeliveryError ''original composition result'')
       (and_then (strict_json_loads raw DEFAULT_MAX_JSON_BYTES) (\<lambda>v.
        and_then (composition_input snapshot) (\<lambda>c. and_then (resolve_recipient v c def) (\<lambda>grp.
          Inr (dput ''recipient_group_id'' grp (ddel ''recipient_group_name'' (default [] (as_dict v))))))))) (\<lambda>normal.
       check (dget resolution ''composition_result_sha256'' = JStr (sha raw) \<and> pyeq (JDict normal) (JDict (stored_result out)))
         (DeliveryError ''differs from the stored selection''))"

record stored_evidence =
  sv_input :: "dict option"
  sv_result :: "dict option"
  sv_raw :: "string option"

definition no_evidence :: stored_evidence where
  "no_evidence = \<lparr>sv_input = None, sv_result = None, sv_raw = None\<rparr>"

definition check_stored :: "(string \<Rightarrow> string) \<Rightarrow> (json \<Rightarrow> bool) \<Rightarrow> dict \<Rightarrow> json \<Rightarrow> string \<Rightarrow> string \<Rightarrow> json \<Rightarrow> string \<Rightarrow>
    stored_evidence \<Rightarrow> input_row \<Rightarrow> output_row \<Rightarrow> dict res" where
  "check_stored sha schema_ok def task run version revision grp ev i out = (case inp_value i of
     JDict snapshot \<Rightarrow>
       if \<not> schema_ok (JDict snapshot) then Inl (DeliveryError ''composition input schema'')
       else if \<not> stored_matches task run version revision grp i snapshot out then Inl (DeliveryError ''different run, version or revision'')
       else (case dget (out_result out) ''recipient_resolution'' of
           JDict resolution \<Rightarrow>
             let digest = sha (canonical_json (JDict snapshot)) in
             if resolution = [] \<or> digest \<noteq> inp_sha i then Inl (DeliveryError ''hash or resolution evidence'')
             else if (case sv_input ev of None \<Rightarrow> False | Some c \<Rightarrow> \<not> pyeq (JDict (composition_to_dict c)) (JDict snapshot))
               \<or> (case sv_result ev of None \<Rightarrow> False | Some r \<Rightarrow> \<not> pyeq (JDict r) (JDict (stored_result out)))
             then Inl (DeliveryError ''exact stored revision'')
             else and_then (recast is_data_error (DeliveryError ''immutable snapshot'') (and_then (composition_input snapshot) (\<lambda>c.
                 resolve_recipient (JDict [(''recipient_group_name'', dget resolution ''recipient_group_name'')]) c def))) (\<lambda>selected.
               let expected = resolution_record task (JStr run) (JStr version) revision (dget resolution ''recipient_group_name'') selected
                     (JStr digest) (dget resolution ''composition_result_sha256'')
               in if \<not> pyeq (JDict resolution) (JDict expected) \<or> \<not> pyeq selected (JStr grp) \<or> \<not> hex64 (dget resolution ''composition_result_sha256'')
                  then Inl (DeliveryError ''resolution identity'')
                  else (case sv_raw ev of None \<Rightarrow> Inr resolution
                    | Some raw \<Rightarrow> and_then (verify_raw_selection sha raw snapshot def resolution out) (\<lambda>_. Inr resolution)))
         | _ \<Rightarrow> Inl (DeliveryError ''hash or resolution evidence''))
   | _ \<Rightarrow> Inl (DeliveryError ''composition input schema''))"

definition require_stored_selection :: "(string \<Rightarrow> string) \<Rightarrow> (json \<Rightarrow> bool) \<Rightarrow> dict \<Rightarrow> string option \<Rightarrow> string \<Rightarrow> json \<Rightarrow> string \<Rightarrow>
    stored_evidence \<Rightarrow> db \<Rightarrow> dict option res" where
  "require_stored_selection sha schema_ok def run version revision grp ev d = and_then (routing_mode def) (\<lambda>mode.
     if mode \<noteq> ''catalog_name'' then Inr None
     else (case (run, as_int revision) of
       (Some r, Some n) \<Rightarrow> if r = [] \<or> n < 1 then Inl (DeliveryError ''exact run and revision'')
         else and_then (dsub def ''id'') (\<lambda>task.
           if (case find_run r d of None \<Rightarrow> True | Some x \<Rightarrow> \<not> pyeq (JStr (run_task x)) task \<or> run_version x \<noteq> version)
           then Inl (DeliveryError ''does not belong to this stored run'')
           else (case (get_composition_input_record r (Some n) d, get_composition_result r (Some n) d) of
               (Some i, Some out) \<Rightarrow> and_then (check_stored sha schema_ok def task r version revision grp ev i out) (\<lambda>x. Inr (Some x))
             | _ \<Rightarrow> Inl (DeliveryError ''input or result unavailable'')))
     | _ \<Rightarrow> Inl (DeliveryError ''exact run and revision'')))"

section \<open>The current recipient\<close>

definition require_current_recipient :: "(string \<Rightarrow> bool) \<Rightarrow> delivery_config \<Rightarrow> string \<Rightarrow> bool \<Rightarrow> json option \<Rightarrow> db \<Rightarrow> unit res" where
  "require_current_recipient addr_ok cfg grp catalog_required task d =
    (let row = find_entity ''recipient_group'' grp d in
     and_then (case task of None \<Rightarrow> Inr () | Some t \<Rightarrow> and_then (entity_owner ''task'' t d) (\<lambda>owner.
         check (case row of None \<Rightarrow> owner = None | Some r \<Rightarrow> cat_owner r = owner) (DeliveryError ''task owner''))) (\<lambda>_.
       if catalog_required \<and> row = None \<or> (case row of None \<Rightarrow> False | Some r \<Rightarrow> cat_deleted r \<noteq> None)
       then Inl (DeliveryError ''group missing or deleted'')
       else and_then (mapped_addresses cfg grp) (\<lambda>v. case v of
           JList xs \<Rightarrow> if xs = [] then Inl (DeliveryError ''no mailbox mapping'')
             else each (\<lambda>a. and_then (validate_address addr_ok a) (\<lambda>_. Inr ())) xs
         | _ \<Rightarrow> Inl (DeliveryError ''no mailbox mapping''))))"

section \<open>Live approval\<close>

definition task_version :: "string \<Rightarrow> string \<Rightarrow> db \<Rightarrow> version_row res" where
  "task_version task h d = and_then (get_version h d) (\<lambda>m. case m of
     None \<Rightarrow> Inl (DeliveryError ''delivery task version'')
   | Some v \<Rightarrow> if ver_task v \<noteq> task then Inl (DeliveryError ''delivery task version'') else Inr v)"

definition sender_for_task_version :: "string \<Rightarrow> string \<Rightarrow> db \<Rightarrow> json res" where
  "sender_for_task_version task h d = and_then (task_version task h d) (\<lambda>v.
     and_then (dict_default (ver_definition v) ''delivery'') (\<lambda>delivery. Inr (get_or delivery ''sender_profile_id'' (JStr ''default''))))"

definition recipient_visibility :: "dict \<Rightarrow> string res" where
  "recipient_visibility def = and_then (dict_or_empty def ''delivery'') (\<lambda>delivery.
     let v = get_or delivery ''recipient_visibility'' (JStr ''to'')
     in if v = JStr ''to'' then Inr ''to'' else if v = JStr ''bcc'' then Inr ''bcc'' else Inl (DeliveryError ''recipient_visibility''))"

definition recipient_visibility_for_task_version :: "string \<Rightarrow> string \<Rightarrow> db \<Rightarrow> string res" where
  "recipient_visibility_for_task_version task h d = and_then (task_version task h d) (\<lambda>v. recipient_visibility (ver_definition v))"

record settings =
  set_kill_switch :: json
  set_production :: bool
  set_schema_ok :: "json \<Rightarrow> bool"

record delivery_claim =
  dc_task :: string
  dc_version :: string
  dc_group :: string
  dc_alert :: bool
  dc_run :: "string option"
  dc_revision :: json

text \<open>The development-only approval of \<open>tasks\<close> with its dry-run evidence.\<close>

definition approved_for :: "(string \<Rightarrow> string) \<Rightarrow> delivery_config \<Rightarrow> json \<Rightarrow> delivery_claim \<Rightarrow> db \<Rightarrow> bool res" where
  "approved_for sha cfg sender q d = (case find_task (dc_task q) d of
     None \<Rightarrow> Inr False
   | Some t \<Rightarrow> if \<not> task_approved t \<or> task_approved_version t \<noteq> Some (dc_version q) then Inr False
       else and_then (delivery_revision sha cfg (default [] (as_str sender)) (Some d)) (\<lambda>rev.
         Inr (task_approved_revision t = Some rev \<and> default [] (task_dry_run t) \<noteq> [])))"

definition run_allowed :: "delivery_claim \<Rightarrow> db \<Rightarrow> bool" where
  "run_allowed q d = (case dc_run q of None \<Rightarrow> True | Some r \<Rightarrow> r = [] \<or> (case find_run r d of None \<Rightarrow> False
     | Some x \<Rightarrow> let k = get_execution_controls r d in run_task x = dc_task q \<and> run_version x = dc_version q
         \<and> run_trigger x \<noteq> ''candidate_dry_run'' \<and> \<not> ctl_dry k \<and> \<not> (ctl_cancel k \<and> \<not> dc_alert q)))"

definition allowed_groups :: "(string \<Rightarrow> string) \<Rightarrow> settings \<Rightarrow> dict \<Rightarrow> string \<Rightarrow> delivery_claim \<Rightarrow> db \<Rightarrow> json res" where
  "allowed_groups sha s def mode q d = and_then (dict_default def ''delivery'') (\<lambda>delivery.
     if dc_alert q then and_then (dict_or_empty def ''alerting'') (\<lambda>a. Inr (JList [get_or a ''recipient_group_id'' (JStr ''researchops-admins'')]))
     else if mode = ''catalog_name''
       then and_then (require_stored_selection sha (set_schema_ok s) def (dc_run q) (dc_version q) (dc_revision q) (dc_group q) no_evidence d)
         (\<lambda>_. Inr (JList [JStr (dc_group q)]))
     else Inr (get_or delivery ''allowed_recipient_group_ids'' (JList [])))"

definition approve_version :: "(string \<Rightarrow> bool) \<Rightarrow> (string \<Rightarrow> string) \<Rightarrow> settings \<Rightarrow> delivery_config \<Rightarrow> dict \<Rightarrow> delivery_claim \<Rightarrow> db \<Rightarrow> unit res" where
  "approve_version addr_ok sha s cfg def q d = and_then (dict_default def ''delivery'') (\<lambda>delivery.
     and_then (check (get_or delivery ''mode'' (JStr ''dry_run'') = JStr ''handoff'') (DeliveryError ''not in live handoff mode'')) (\<lambda>_.
     and_then (check (map_option task_mode (find_task (dc_task q) d) = Some MHandoff) (DeliveryError ''live mode not enabled'')) (\<lambda>_.
     and_then (check (run_allowed q d) (DeliveryError ''run not authorized'')) (\<lambda>_.
     and_then (routing_mode def) (\<lambda>mode.
     and_then (allowed_groups sha s def mode q d) (\<lambda>allowed.
     and_then (value_in (JStr (dc_group q)) allowed) (\<lambda>listed.
     and_then (check listed (DeliveryError ''group not approved'')) (\<lambda>_.
       require_current_recipient addr_ok cfg (dc_group q) (mode = ''catalog_name'' \<and> \<not> dc_alert q) (Some (JStr (dc_task q))) d))))))))"

definition require_approval :: "env \<Rightarrow> (string \<Rightarrow> bool) \<Rightarrow> (string \<Rightarrow> string) \<Rightarrow> settings \<Rightarrow> delivery_config \<Rightarrow> delivery_claim \<Rightarrow> db \<Rightarrow> unit res" where
  "require_approval e addr_ok sha s cfg q d =
     and_then (task_version (dc_task q) (dc_version q) d) (\<lambda>v.
     and_then (sender_for_task_version (dc_task q) (dc_version q) d) (\<lambda>sender.
     and_then (recast is_validation (DeliveryError ''delivery ownership'') (require_task_delivery_ownership e (ver_definition v) d)) (\<lambda>_.
     and_then (require_live addr_ok (set_kill_switch s) cfg sender) (\<lambda>_.
     and_then (assert_delivery_version sha d (dc_task q) (dc_version q) (dc_run q) (set_production s) (dc_alert q)) (\<lambda>_.
     and_then (is_deleted ''task'' (JStr (dc_task q)) d) (\<lambda>del.
     and_then (check (\<not> del) (DeliveryError ''task deleted'')) (\<lambda>_.
     and_then (if set_production s then Inr True else approved_for sha cfg sender q d) (\<lambda>approved.
     and_then (check approved (DeliveryError ''approval with dry-run evidence'')) (\<lambda>_.
       approve_version addr_ok sha s cfg (ver_definition v) q d)))))))))"

section \<open>What an approval establishes\<close>

text \<open>A selection by name resolves to the one group of the snapshot that has the name.\<close>

lemma resolve_named_unique:
  assumes "resolve_named data c = Inr grp"
  shows "\<exists>name g. dget data ''recipient_group_name'' = JStr name
    \<and> filter (group_named (strip name)) (default [] (as_list (dget c ''recipient_groups''))) = [g]
    \<and> grp = dget (default [] (as_dict g)) ''recipient_group_id''"
  using assms by (auto simp: resolve_named_def and_then_Inr split: if_splits json.splits list.splits)

lemma composition_input_fields:
  "composition_input d = Inr c \<Longrightarrow> dget c ''recipient_groups'' = get_or d ''recipient_groups'' (JList [])"
  by (auto simp: composition_input_def COMP_REQUIRED_def COMP_DEFAULTS_def dget_def split: if_splits)

text \<open>The groups a stored input offers under a name.\<close>

definition offered :: "input_row \<Rightarrow> string \<Rightarrow> json list" where
  "offered i name = filter (group_named (strip name))
     (default [] (as_list (get_or (default [] (as_dict (inp_value i))) ''recipient_groups'' (JList []))))"

definition bound_selection :: "(string \<Rightarrow> string) \<Rightarrow> delivery_claim \<Rightarrow> db \<Rightarrow> bool" where
  "bound_selection sha q d = (\<exists>r n i out name g. dc_run q = Some r \<and> dc_revision q = JInt n
     \<and> get_composition_input_record r (Some n) d = Some i \<and> get_composition_result r (Some n) d = Some out
     \<and> inp_version i = dc_version q \<and> inp_sha i = sha (canonical_json (inp_value i)) \<and> out_group out = dc_group q
     \<and> offered i name = [g] \<and> pyeq (dget (default [] (as_dict g)) ''recipient_group_id'') (JStr (dc_group q)))"

lemma recast_Inr: "recast p e m = Inr x \<longleftrightarrow> m = Inr x"
  by (auto simp: recast_def split: sum.splits)

lemma int_of_value: "as_int v = Some n \<Longrightarrow> v = JInt n"
  by (cases v) auto

lemma check_stored_bound:
  assumes "check_stored sha schema_ok def task run version revision grp ev i out = Inr x" "routing_mode def = Inr ''catalog_name''"
  shows "inp_version i = version \<and> inp_sha i = sha (canonical_json (inp_value i)) \<and> out_group out = grp
    \<and> (\<exists>name g. offered i name = [g] \<and> pyeq (dget (default [] (as_dict g)) ''recipient_group_id'') (JStr grp))"
proof -
  from assms(1) obtain snapshot resolution where i: "inp_value i = JDict snapshot"
    and r: "dget (out_result out) ''recipient_resolution'' = JDict resolution"
    by (auto simp: check_stored_def split: json.splits if_splits)
  from assms(1) have m: "stored_matches task run version revision grp i snapshot out" "sha (canonical_json (JDict snapshot)) = inp_sha i"
    unfolding check_stored_def i r by (auto simp: Let_def split: if_splits)
  from assms(1) obtain selected where
    sel: "and_then (composition_input snapshot) (\<lambda>c. resolve_recipient (JDict [(''recipient_group_name'', dget resolution ''recipient_group_name'')]) c def) = Inr selected"
    and eq: "pyeq selected (JStr grp)"
    unfolding check_stored_def i r json.case Let_def and_then_Inr by (auto simp: recast_Inr and_then_Inr split: if_split_asm)
  from sel assms(2) obtain c where c: "composition_input snapshot = Inr c"
    and n: "resolve_named [(''recipient_group_name'', dget resolution ''recipient_group_name'')] c = Inr selected"
    by (auto simp: and_then_Inr resolve_recipient_def)
  from resolve_named_unique [OF n] obtain name g where
    "filter (group_named (strip name)) (default [] (as_list (dget c ''recipient_groups''))) = [g]"
    "selected = dget (default [] (as_dict g)) ''recipient_group_id''" by auto
  with composition_input_fields [OF c] eq have "offered i name = [g] \<and> pyeq (dget (default [] (as_dict g)) ''recipient_group_id'') (JStr grp)"
    by (simp add: offered_def i)
  then have "\<exists>name g. offered i name = [g] \<and> pyeq (dget (default [] (as_dict g)) ''recipient_group_id'') (JStr grp)" by blast
  with m(1) m(2) [symmetric] show ?thesis by (simp add: stored_matches_def i)
qed

lemma stored_selection_bound:
  assumes "require_stored_selection sha schema_ok def (dc_run q) (dc_version q) (dc_revision q) (dc_group q) ev d = Inr x"
    "routing_mode def = Inr ''catalog_name''"
  shows "bound_selection sha q d"
proof -
  from assms obtain r n where r: "dc_run q = Some r" "as_int (dc_revision q) = Some n"
    by (auto simp: require_stored_selection_def split: option.splits)
  from assms obtain task i out y where "get_composition_input_record r (Some n) d = Some i" "get_composition_result r (Some n) d = Some out"
    and c: "check_stored sha schema_ok def task r (dc_version q) (dc_revision q) (dc_group q) ev i out = Inr y"
    unfolding require_stored_selection_def r by (auto simp: and_then_Inr split: if_split_asm option.splits)
  with check_stored_bound [OF c assms(2)] r int_of_value [OF r(2)] show ?thesis unfolding bound_selection_def by blast
qed

lemma current_recipient:
  assumes "require_current_recipient addr_ok cfg grp required (Some t) d = Inr u"
  shows "\<exists>owner addrs. entity_owner ''task'' t d = Inr owner
    \<and> (case find_entity ''recipient_group'' grp d of None \<Rightarrow> owner = None \<and> \<not> required | Some r \<Rightarrow> cat_owner r = owner \<and> cat_deleted r = None)
    \<and> mapped_addresses cfg grp = Inr (JList addrs) \<and> addrs \<noteq> [] \<and> list_all (\<lambda>a. \<not> isl (validate_address addr_ok a)) addrs"
proof -
  let ?row = "find_entity ''recipient_group'' grp d"
  from assms obtain owner v where o: "entity_owner ''task'' t d = Inr owner"
    and c: "case ?row of None \<Rightarrow> owner = None | Some r \<Rightarrow> cat_owner r = owner"
    and n: "\<not> (required \<and> ?row = None \<or> (case ?row of None \<Rightarrow> False | Some r \<Rightarrow> cat_deleted r \<noteq> None))"
    and v: "mapped_addresses cfg grp = Inr v"
    and e: "(case v of JList xs \<Rightarrow> if xs = [] then Inl (DeliveryError ''no mailbox mapping'')
             else each (\<lambda>a. and_then (validate_address addr_ok a) (\<lambda>_. Inr ())) xs
         | _ \<Rightarrow> Inl (DeliveryError ''no mailbox mapping'')) = Inr u"
    unfolding require_current_recipient_def Let_def
    by (simp add: and_then_Inr check_Inr split: if_split_asm) blast
  from e obtain addrs where a: "v = JList addrs" "addrs \<noteq> []"
    and "each (\<lambda>a. and_then (validate_address addr_ok a) (\<lambda>_. Inr ())) addrs = Inr u"
    by (auto split: json.splits if_split_asm)
  then have "list_all (\<lambda>a. \<not> isl (validate_address addr_ok a)) addrs"
    by (auto simp: each_Inr and_then_Inr list_all_iff)
  moreover from c n have "case ?row of None \<Rightarrow> owner = None \<and> \<not> required | Some r \<Rightarrow> cat_owner r = owner \<and> cat_deleted r = None"
    by (cases ?row) auto
  ultimately show ?thesis using o v a by blast
qed

lemma approved_for_True:
  "approved_for sha cfg sender q d = Inr True \<Longrightarrow> \<exists>t. find_task (dc_task q) d = Some t \<and> task_approved t
     \<and> task_approved_version t = Some (dc_version q) \<and> default [] (task_dry_run t) \<noteq> []"
  by (auto simp: approved_for_def and_then_Inr split: option.splits if_splits)

lemma require_live_flags: "require_live addr_ok k cfg sender = Inr u \<Longrightarrow> k = JBool False \<and> cfg_enabled cfg = JBool True"
  by (auto simp: require_live_def and_then_Inr check_Inr)

text \<open>C22: a live approval is given only when the kill switch is off and delivery enabled, the task
  is live and not deleted, outside production it was approved for this very version with dry-run
  evidence, a named run is neither a dry run nor cancelled nor of another version, and the group is
  a current recipient of the owner of the task with valid addresses. The group is the alerting
  group of an alert, a member of the sealed allowlist, or, under routing by name, the group of the
  stored result whose immutable, hash-checked input offers exactly one group of that name.\<close>

theorem approval_gate:
  assumes "require_approval e addr_ok sha s cfg q d = Inr u"
  shows "set_kill_switch s = JBool False \<and> cfg_enabled cfg = JBool True
    \<and> (\<exists>t. find_task (dc_task q) d = Some t \<and> task_mode t = MHandoff \<and> (set_production s \<or> task_approved t
         \<and> task_approved_version t = Some (dc_version q) \<and> default [] (task_dry_run t) \<noteq> []))
    \<and> is_deleted ''task'' (JStr (dc_task q)) d = Inr False \<and> run_allowed q d
    \<and> (\<exists>owner addrs. entity_owner ''task'' (JStr (dc_task q)) d = Inr owner
         \<and> (case find_entity ''recipient_group'' (dc_group q) d of None \<Rightarrow> owner = None | Some r \<Rightarrow> cat_owner r = owner \<and> cat_deleted r = None)
         \<and> mapped_addresses cfg (dc_group q) = Inr (JList addrs) \<and> addrs \<noteq> [] \<and> list_all (\<lambda>a. \<not> isl (validate_address addr_ok a)) addrs)
    \<and> (dc_alert q \<or> bound_selection sha q d
         \<or> (\<exists>v delivery. find_version (dc_version q) d = Some v \<and> dict_default (ver_definition v) ''delivery'' = Inr delivery
              \<and> value_in (JStr (dc_group q)) (get_or delivery ''allowed_recipient_group_ids'' (JList [])) = Inr True))"
proof -
  from assms obtain v sender approved where v: "task_version (dc_task q) (dc_version q) d = Inr v"
    and live: "require_live addr_ok (set_kill_switch s) cfg sender = Inr ()"
    and del: "is_deleted ''task'' (JStr (dc_task q)) d = Inr False"
    and approved: "(if set_production s then Inr True else approved_for sha cfg sender q d) = Inr True"
    and a: "approve_version addr_ok sha s cfg (ver_definition v) q d = Inr u"
    by (auto simp: require_approval_def and_then_Inr check_Inr)
  from a obtain delivery mode allowed where dl: "dict_default (ver_definition v) ''delivery'' = Inr delivery"
    and md: "map_option task_mode (find_task (dc_task q) d) = Some MHandoff" and run: "run_allowed q d"
    and mode: "routing_mode (ver_definition v) = Inr mode"
    and al: "allowed_groups sha s (ver_definition v) mode q d = Inr allowed" "value_in (JStr (dc_group q)) allowed = Inr True"
    and cur: "require_current_recipient addr_ok cfg (dc_group q) (mode = ''catalog_name'' \<and> \<not> dc_alert q) (Some (JStr (dc_task q))) d = Inr u"
    by (auto simp: approve_version_def and_then_Inr check_Inr)
  from v have fv: "find_version (dc_version q) d = Some v"
    by (auto simp: task_version_def get_version_def and_then_Inr split: option.splits if_splits)
  have "dc_alert q \<or> bound_selection sha q d \<or> value_in (JStr (dc_group q)) (get_or delivery ''allowed_recipient_group_ids'' (JList [])) = Inr True"
    using al dl mode stored_selection_bound [of sha "set_schema_ok s" "ver_definition v" q no_evidence d]
    by (auto simp: allowed_groups_def and_then_Inr split: if_splits)
  moreover from md obtain t where "find_task (dc_task q) d = Some t" "task_mode t = MHandoff" by auto
  moreover from this approved have "set_production s \<or> task_approved t \<and> task_approved_version t = Some (dc_version q) \<and> default [] (task_dry_run t) \<noteq> []"
    by (auto dest!: approved_for_True split: if_splits)
  moreover from current_recipient [OF cur] have "\<exists>owner addrs. entity_owner ''task'' (JStr (dc_task q)) d = Inr owner
         \<and> (case find_entity ''recipient_group'' (dc_group q) d of None \<Rightarrow> owner = None | Some r \<Rightarrow> cat_owner r = owner \<and> cat_deleted r = None)
         \<and> mapped_addresses cfg (dc_group q) = Inr (JList addrs) \<and> addrs \<noteq> [] \<and> list_all (\<lambda>a. \<not> isl (validate_address addr_ok a)) addrs"
    by (auto split: option.splits)
  ultimately show ?thesis using require_live_flags [OF live] del run fv dl by blast
qed

definition live_version :: version_row where
  "live_version = sample_version\<lparr>ver_definition := map (\<lambda>k. (k, JDict [])) [''enabled'', ''workspace'', ''runner'', ''instructions'', ''output'']
     @ [(''id'', JStr ''t1''), (''name'', JStr ''t1''), (''delivery'', JDict [(''mode'', JStr ''handoff''),
        (''allowed_recipient_group_ids'', JList [JStr ''release-team''])])]\<rparr>"

definition catalog_entry :: "int \<Rightarrow> string \<Rightarrow> string \<Rightarrow> catalog_row" where
  "catalog_entry i kind key = \<lparr>cat_id = i, cat_kind = kind, cat_key = key, cat_name = key, cat_deleted = None, cat_created = 50,
     cat_updated = 50, cat_request = None, cat_owner = None\<rparr>"

definition live_db :: db where
  "live_db = sample_db\<lparr>db_versions := [live_version],
     db_catalog := [catalog_entry 1 ''task'' ''t1'', catalog_entry 2 ''recipient_group'' ''release-team'']\<rparr>"

definition live_config :: delivery_config where
  "live_config = \<lparr>cfg_enabled = JBool True, cfg_auto_dispatch = JBool False,
     cfg_smtp = default_smtp\<lparr>st_host := JStr ''mail'', st_sender_email := JStr ''a''\<rparr>,
     cfg_groups = JDict [(''release-team'', JList [JStr ''b''])], cfg_senders = []\<rparr>"

definition live_settings :: settings where
  "live_settings = \<lparr>set_kill_switch = JBool False, set_production = True, set_schema_ok = (\<lambda>v. True)\<rparr>"

definition live_claim :: delivery_claim where
  "live_claim = \<lparr>dc_task = ''t1'', dc_version = ''v1'', dc_group = ''release-team'', dc_alert = False, dc_run = Some ''r1'',
     dc_revision = JInt 1\<rparr>"

theorem approval_gate_witness:
  "run_allowed live_claim live_db \<and> (\<exists>t. find_task ''t1'' live_db = Some t \<and> task_mode t = MHandoff)"
proof -
  have "require_approval sample_env (\<lambda>s. s \<noteq> []) (\<lambda>s. s) live_settings live_config live_claim live_db = Inr ()" by code_simp
  from approval_gate [OF this] show ?thesis by (auto simp: live_claim_def)
qed

end
