(* ===== verification/Workspace.thy ===== *)
theory Workspace imports Store Py_Datetime "HOL-Library.AList" begin

text \<open>
  The task workspaces of \<open>workspace/manager.py\<close>: for every task the lock file and the files
  below its directory. A lock file is absent, unreadable (not JSON, or refused by the safe
  reader) or a value. The guard file makes every operation atomic; an operation returns its
  result together with the directories, because a refused one has still created the workspace.
  Permissions, symbolic links in the path and the disk are not modelled.
\<close>

section \<open>Directories\<close>

datatype file_kind = PlainFile | HardLinked | SymbolicLink

record task_ws =
  tw_lock :: "json option option"
  tw_files :: "(string list \<times> file_kind) list"

type_synonym workspaces = "(string \<times> task_ws) list"

definition empty_ws :: task_ws where "empty_ws = \<lparr>tw_lock = None, tw_files = []\<rparr>"

definition ws_of :: "string \<Rightarrow> workspaces \<Rightarrow> task_ws" where
  "ws_of t w = default empty_ws (map_of w t)"

text \<open>\<open>re.fullmatch(r"[A-Za-z0-9][A-Za-z0-9_.-]\{0,127\}", s)\<close> without two dots in a row.\<close>

definition alnum :: "char \<Rightarrow> bool" where
  "alnum c = (is_digit c \<or> (let n = of_char c :: nat in (65 \<le> n \<and> n \<le> 90) \<or> (97 \<le> n \<and> n \<le> 122)))"

fun two_dots :: "string \<Rightarrow> bool" where
  "two_dots (a # b # s) = (a = CHR ''.'' \<and> b = CHR ''.'' \<or> two_dots (b # s))"
| "two_dots s = False"

definition path_name :: "string \<Rightarrow> bool" where
  "path_name s = (s \<noteq> [] \<and> length s \<le> 128 \<and> alnum (hd s)
     \<and> list_all (\<lambda>c. alnum c \<or> c \<in> {CHR ''_'', CHR ''.'', CHR ''-''}) (List.tl s) \<and> \<not> two_dots s)"

definition get_task_workspace_dir :: "string \<Rightarrow> unit res" where
  "get_task_workspace_dir t = check (path_name t) (WorkspaceError ''task_id'')"

definition init_task_workspace :: "string \<Rightarrow> workspaces \<Rightarrow> unit res \<times> workspaces" where
  "init_task_workspace t w = (case get_task_workspace_dir t of
     Inl er \<Rightarrow> (Inl er, w) | Inr _ \<Rightarrow> (Inr (), AList.update t (ws_of t w) w))"

definition validate_attempt :: "string \<Rightarrow> int \<Rightarrow> unit res" where
  "validate_attempt run attempt = and_then (check (path_name run) (WorkspaceError ''run_id''))
     (\<lambda>_. check (1 \<le> attempt) (WorkspaceError ''attempt''))"

definition attempt_dir :: "string \<Rightarrow> int \<Rightarrow> string list" where
  "attempt_dir run attempt = [''.runs'', run, ''attempt-'' @ int_text attempt]"

text \<open>The three directories of a phase.\<close>

definition prepare_attempt_staging :: "string \<Rightarrow> string \<Rightarrow> int \<Rightarrow> string \<Rightarrow> workspaces \<Rightarrow>
    (string list \<times> string list \<times> string list) res \<times> workspaces" where
  "prepare_attempt_staging t run attempt phase w =
    (if phase \<noteq> ''research'' \<and> phase \<noteq> ''compose'' then (Inl (WorkspaceError ''staging phase''), w)
     else (case validate_attempt run attempt of
         Inl er \<Rightarrow> (Inl er, w)
       | Inr _ \<Rightarrow> (case init_task_workspace t w of
             (Inl er, w') \<Rightarrow> (Inl er, w')
           | (Inr _, w') \<Rightarrow> let dir = attempt_dir run attempt @ [phase]
               in (Inr (dir @ [''input''], dir @ [''tmp''], dir @ [''output'']), w'))))"

definition inside :: "string list \<Rightarrow> string list \<times> file_kind \<Rightarrow> bool" where
  "inside dir f = (take (length dir) (fst f) = dir)"

definition cleanup_attempt_staging :: "string \<Rightarrow> string \<Rightarrow> int \<Rightarrow> workspaces \<Rightarrow> unit res \<times> workspaces" where
  "cleanup_attempt_staging t run attempt w =
    (case and_then (get_task_workspace_dir t) (\<lambda>_. validate_attempt run attempt) of
       Inl er \<Rightarrow> (Inl er, w)
     | Inr _ \<Rightarrow> (case map_of w t of None \<Rightarrow> (Inr (), w)
         | Some x \<Rightarrow> (Inr (), AList.update t (x\<lparr>tw_files := filter (\<lambda>f. \<not> inside (attempt_dir run attempt) f) (tw_files x)\<rparr>) w)))"

section \<open>The lock\<close>

text \<open>\<open>_lock_guard\<close>: the body works on the initialised workspace; it may remove it.\<close>

definition lock_guard :: "string \<Rightarrow> (task_ws \<Rightarrow> 'a res \<times> task_ws option) \<Rightarrow> workspaces \<Rightarrow> 'a res \<times> workspaces" where
  "lock_guard t body w = (case get_task_workspace_dir t of
     Inl er \<Rightarrow> (Inl er, w)
   | Inr _ \<Rightarrow> (case body (ws_of t w) of
         (r, Some x) \<Rightarrow> (r, AList.update t x w)
       | (r, None) \<Rightarrow> (r, AList.delete t w)))"

definition read_lock :: "json option \<Rightarrow> dict res" where
  "read_lock f = (case f of
     Some (JDict v) \<Rightarrow> if truthy (dget v ''run_id'') \<and> truthy (dget v ''fencing_token'') then Inr v
       else Inl (ConcurrencyError ''lock corrupt'')
   | _ \<Rightarrow> Inl (ConcurrencyError ''lock corrupt''))"

definition held_by :: "string \<Rightarrow> string \<Rightarrow> dict \<Rightarrow> bool" where
  "held_by run token data = (pyeq (dget data ''run_id'') (JStr run) \<and> pyeq (dget data ''fencing_token'') (JStr token))"

definition lock_data :: "string \<Rightarrow> string \<Rightarrow> string \<Rightarrow> string \<Rightarrow> json" where
  "lock_data t run token at = JDict [(''task_id'', JStr t), (''run_id'', JStr run), (''fencing_token'', JStr token),
     (''locked_at'', JStr at), (''child_groups'', JList [])]"

definition acquire_workspace_lock :: "string \<Rightarrow> string \<Rightarrow> string \<Rightarrow> string \<Rightarrow> workspaces \<Rightarrow> bool res \<times> workspaces" where
  "acquire_workspace_lock t run token at w =
    (case and_then (validate_attempt run 1) (\<lambda>_. check (token \<noteq> []) (WorkspaceError ''fencing_token'')) of
       Inl er \<Rightarrow> (Inl er, w)
     | Inr _ \<Rightarrow> lock_guard t (\<lambda>x. case tw_lock x of
           None \<Rightarrow> (Inr True, Some (x\<lparr>tw_lock := Some (Some (lock_data t run token at))\<rparr>))
         | Some f \<Rightarrow> (case read_lock f of
               Inl er \<Rightarrow> (Inl er, Some x)
             | Inr data \<Rightarrow> (if held_by run token data then Inr True else Inl (ConcurrencyError ''already locked''), Some x))) w)"

definition release_workspace_lock :: "string \<Rightarrow> string \<Rightarrow> string \<Rightarrow> bool \<Rightarrow> workspaces \<Rightarrow> unit res \<times> workspaces" where
  "release_workspace_lock t run token cleanup_verified = lock_guard t (\<lambda>x. case tw_lock x of
       None \<Rightarrow> (Inr (), Some x)
     | Some f \<Rightarrow> (case read_lock f of
           Inl er \<Rightarrow> (Inl er, Some x)
         | Inr data \<Rightarrow> if \<not> held_by run token data then (Inl (ConcurrencyError ''owner mismatch''), Some x)
             else if \<not> cleanup_verified then (Inl (ConcurrencyError ''cleanup evidence''), Some x)
             else (Inr (), Some (x\<lparr>tw_lock := None\<rparr>))))"

definition force_unlock_workspace :: "string \<Rightarrow> bool \<Rightarrow> workspaces \<Rightarrow> unit res \<times> workspaces" where
  "force_unlock_workspace t cleanup_verified w =
    (if \<not> cleanup_verified then (Inl (ConcurrencyError ''descendant termination''), w)
     else lock_guard t (\<lambda>x. (Inr (), Some (x\<lparr>tw_lock := None\<rparr>))) w)"

definition is_locked :: "string \<Rightarrow> workspaces \<Rightarrow> (bool \<times> dict option) res" where
  "is_locked t w = and_then (get_task_workspace_dir t) (\<lambda>_. case tw_lock (ws_of t w) of
     None \<Rightarrow> Inr (False, None)
   | Some f \<Rightarrow> Inr (True, Some (case read_lock f of Inr data \<Rightarrow> data
       | Inl _ \<Rightarrow> [(''error'', JStr ''corrupt lock; explicit recovery required'')])))"

section \<open>Operations that need a free workspace\<close>

definition when_unlocked :: "(task_ws \<Rightarrow> 'a res \<times> task_ws option) \<Rightarrow> task_ws \<Rightarrow> 'a res \<times> task_ws option" where
  "when_unlocked body x = (if tw_lock x \<noteq> None then (Inl (ConcurrencyError ''active lock''), Some x) else body x)"

definition reset_workspace :: "string \<Rightarrow> workspaces \<Rightarrow> unit res \<times> workspaces" where
  "reset_workspace t = lock_guard t (when_unlocked (\<lambda>x.
     (Inr (), Some (x\<lparr>tw_files := filter (\<lambda>f. \<not> inside [''project''] f) (tw_files x)\<rparr>))))"

definition purge_workspace :: "string \<Rightarrow> workspaces \<Rightarrow> unit res \<times> workspaces" where
  "purge_workspace t = lock_guard t (when_unlocked (\<lambda>x. (Inr (), None)))"

definition EXCLUDED :: "string list" where
  "EXCLUDED = [''.codex'', ''.gemini'', ''.config'', ''.env'', ''.lock.json'', ''.lock.guard'']"

definition safe_member :: "string list \<times> file_kind \<Rightarrow> bool" where
  "safe_member f = (\<not> list_ex (\<lambda>p. p \<in> set EXCLUDED) (fst f) \<and> snd f = PlainFile)"

text \<open>The members of the archive.\<close>

definition snapshot_workspace :: "string \<Rightarrow> workspaces \<Rightarrow> string list list res \<times> workspaces" where
  "snapshot_workspace t = lock_guard t (when_unlocked (\<lambda>x.
     (Inr (map (\<lambda>f. t # fst f) (filter safe_member (tw_files x))), Some x)))"

section \<open>What the operations do to a lock\<close>

lemma ws_of_update [simp]: "ws_of t (AList.update s x w) = (if t = s then x else ws_of t w)"
  by (simp add: ws_of_def update_conv')

lemma ws_of_delete [simp]: "ws_of t (AList.delete s w) = (if t = s then empty_ws else ws_of t w)"
  by (auto simp: ws_of_def delete_conv')

lemma lock_guard_other: "lock_guard s body w = (r, w') \<Longrightarrow> t \<noteq> s \<Longrightarrow> ws_of t w' = ws_of t w"
  by (auto simp: lock_guard_def split: sum.splits prod.splits option.splits)

lemma lock_guard_same:
  "lock_guard s body w = (r, w') \<Longrightarrow> (\<exists>er. r = Inl er \<and> w' = w) \<or> (\<exists>y. body (ws_of s w) = (r, y) \<and> ws_of s w' = default empty_ws y)"
  by (auto simp: lock_guard_def split: sum.splits prod.splits option.splits)

text \<open>A successful release leaves no lock of the task, whatever the order of its tests.\<close>

lemma release_unlocks:
  "release_workspace_lock t run token v w = (Inr u, w') \<Longrightarrow> tw_lock (ws_of t w') = None"
  by (auto simp: release_workspace_lock_def dest!: lock_guard_same split: option.splits sum.splits if_splits)

lemma release_other:
  "release_workspace_lock t run token v w = (x, w') \<Longrightarrow> s \<noteq> t \<Longrightarrow> ws_of s w' = ws_of s w"
  unfolding release_workspace_lock_def by (rule lock_guard_other)

lemma release_needs_owner:
  assumes "release_workspace_lock t run token v w = (Inr u, w')" "tw_lock (ws_of t w) = Some f"
  shows "v \<and> (\<exists>data. read_lock f = Inr data \<and> held_by run token data)"
  using assms by (auto simp: release_workspace_lock_def dest!: lock_guard_same split: option.splits sum.splits if_splits)

text \<open>A held workspace is neither taken by another execution nor reset, purged or archived.\<close>

lemma acquire_exclusive:
  assumes "acquire_workspace_lock t run token at w = (Inr b, w')" "tw_lock (ws_of t w) = Some f"
  shows "\<exists>data. read_lock f = Inr data \<and> held_by run token data"
  using assms
  by (auto simp: acquire_workspace_lock_def dest!: lock_guard_same split: option.splits sum.splits if_splits)

lemma locked_refuses:
  assumes "tw_lock (ws_of t w) \<noteq> None"
  shows "isl (fst (reset_workspace t w))" "isl (fst (purge_workspace t w))" "isl (fst (snapshot_workspace t w))"
  using assms by (auto simp: reset_workspace_def purge_workspace_def snapshot_workspace_def lock_guard_def when_unlocked_def
      split: sum.splits)

end
