(* ===== verification/Worker.thy ===== *)
theory Worker imports Workspace Run_Repo Delivery_Repo begin

text \<open>
  The queue consumer of \<open>services/worker.py\<close>: recovery of expired leases, the claim of the next
  run, its execution and the release, over the store and the workspaces. Every call is a
  transaction of its own, so an operation returns its result together with the state it reached.
  The orchestrator is a parameter: a function of the claimed run, the lease, the dry-run flag and
  the state (with everything the heartbeat thread and other processes did meanwhile).
\<close>

section \<open>State and outcomes\<close>

record world =
  wo_db :: db
  wo_ws :: workspaces

text \<open>A repository call inside a larger operation: its error leaves the state unchanged.\<close>

definition call :: "(db \<Rightarrow> ('a \<times> db) res) \<Rightarrow> world \<Rightarrow> 'a res \<times> world" where
  "call f w = (case f (wo_db w) of Inl er \<Rightarrow> (Inl er, w) | Inr (x, d) \<Rightarrow> (Inr x, w\<lparr>wo_db := d\<rparr>))"

definition seq :: "'a res \<times> 's \<Rightarrow> ('a \<Rightarrow> 's \<Rightarrow> 'b res \<times> 's) \<Rightarrow> 'b res \<times> 's" where
  "seq m f = (case m of (Inl er, w) \<Rightarrow> (Inl er, w) | (Inr x, w) \<Rightarrow> f x w)"

lemma seq_Inr: "seq m f = (Inr y, w') \<longleftrightarrow> (\<exists>x w. m = (Inr x, w) \<and> f x w = (Inr y, w'))"
  by (cases m) (auto simp: seq_def split: sum.splits)

lemma call_Inr: "call f w = (Inr x, w') \<longleftrightarrow> (\<exists>d. f (wo_db w) = Inr (x, d) \<and> w' = w\<lparr>wo_db := d\<rparr>)"
  by (auto simp: call_def split: sum.splits)

definition unlock :: "string \<Rightarrow> string \<Rightarrow> string \<Rightarrow> world \<Rightarrow> unit res \<times> world" where
  "unlock t run token w = (case release_workspace_lock t run token True (wo_ws w) of (r, ws) \<Rightarrow> (r, w\<lparr>wo_ws := ws\<rparr>))"

section \<open>Recovery\<close>

definition attention_audit :: "env \<Rightarrow> string \<Rightarrow> lease_row \<Rightarrow> db \<Rightarrow> db" where
  "attention_audit e run l d = audit e ''run'' run ''stale_lease_blocked''
     [(''worker_id'', JStr (lease_worker l)), (''reason'', JStr ''Descendant cleanup has not been verified; task claim retained'')]
     default_actor (isoformat (now e)) d"

definition recover_lease :: "env \<Rightarrow> lease_row \<Rightarrow> world \<Rightarrow> bool res \<times> world" where
  "recover_lease e l w = (case find_run (lease_run l) (wo_db w) of
     None \<Rightarrow> (Inr False, w)
   | Some r \<Rightarrow>
       if ctl_cleanup (get_execution_controls (run_id r) (wo_db w))
       then seq (if run_status r = Running then call (mark_stale_attention e (run_id r) (lease_token l)) w else (Inr (), w)) (\<lambda>_ w1.
            seq (unlock (run_task r) (run_id r) (lease_token l) w1) (\<lambda>_ w2.
            seq (call (release_lease (run_id r) (lease_token l)) w2) (\<lambda>_ w3. (Inr True, w3))))
       else if run_status r = Running
       then seq (call (mark_stale_attention e (run_id r) (lease_token l)) w) (\<lambda>_ w1.
            (Inr True, w1\<lparr>wo_db := attention_audit e (run_id r) l (wo_db w1)\<rparr>))
       else (Inr False, w))"

fun recover_leases :: "env \<Rightarrow> lease_row list \<Rightarrow> world \<Rightarrow> nat res \<times> world" where
  "recover_leases e [] w = (Inr 0, w)"
| "recover_leases e (l # ls) w = seq (recover_lease e l w) (\<lambda>b w1. seq (recover_leases e ls w1) (\<lambda>n w2. (Inr (if b then Suc n else n), w2)))"

definition recover_stale_leases :: "env \<Rightarrow> world \<Rightarrow> nat res \<times> world" where
  "recover_stale_leases e w = recover_leases e (list_expired_leases (now e) (wo_db w)) w"

section \<open>The heartbeat\<close>

text \<open>One turn of the monitor: whether the execution is cancelled and whether the monitor ends.\<close>

definition heartbeat_turn :: "env \<Rightarrow> int \<Rightarrow> string \<Rightarrow> string \<Rightarrow> bool \<Rightarrow> bool \<Rightarrow> world \<Rightarrow> bool \<times> bool \<times> world" where
  "heartbeat_turn e lease_seconds run token stopped due w =
    (let cancel = (stopped \<or> ctl_cancel (get_execution_controls run (wo_db w)))
     in if \<not> due then (cancel, False, w)
        else (case call (heartbeat_lease e run token (now e + lease_seconds * 1000000)) w of
            (Inr True, w1) \<Rightarrow> (cancel, False, w1)
          | (_, w1) \<Rightarrow> (True, True, w1)))"

section \<open>Execution of a claim\<close>

fun error_class :: "err \<Rightarrow> string" where
  "error_class (ValidationError _) = ''ValidationError''"
| "error_class (HardGateError _) = ''HardGateError''"
| "error_class (WorkspaceError _) = ''WorkspaceError''"
| "error_class (RunnerError _) = ''RunnerError''"
| "error_class (DeliveryError _) = ''DeliveryError''"
| "error_class (ReceiptError _) = ''ReceiptError''"
| "error_class (ConcurrencyError _) = ''ConcurrencyError''"
| "error_class (NotFoundError _) = ''NotFoundError''"
| "error_class (AuthRequiredError _) = ''AuthRequiredError''"
| "error_class (AuthenticationError _) = ''AuthenticationError''"
| "error_class (AuthorizationError _) = ''AuthorizationError''"
| "error_class (AuthRateLimitError _) = ''AuthRateLimitError''"
| "error_class (IntegrityError _) = ''IntegrityError''"
| "error_class (ValueError _) = ''ValueError''"
| "error_class (TypeError _) = ''TypeError''"
| "error_class (KeyError _) = ''KeyError''"
| "error_class (AttributeError _) = ''AttributeError''"
| "error_class (OSError _) = ''OSError''"
| "error_class (OverflowError _) = ''OverflowError''"

type_synonym executor = "run_row \<Rightarrow> lease_row \<Rightarrow> bool option \<Rightarrow> world \<Rightarrow> run_row res \<times> world"

definition preflight_failure :: "env \<Rightarrow> err \<Rightarrow> string \<Rightarrow> status_update" where
  "preflight_failure e er token = \<lparr>su_status = Failed, su_phase = PhFinalize, su_attempt = None, su_started = None,
     su_finished = Some (now e), su_error = Some (''Worker preflight failed: '' @ error_class er), su_token = Some token,
     su_expected = None\<rparr>"

text \<open>The \<open>except\<close> branch: a run still running gets a terminal state; the error is raised again,
  unless storing that state raises another.\<close>

definition record_failure :: "env \<Rightarrow> string \<Rightarrow> string \<Rightarrow> err \<Rightarrow> world \<Rightarrow> err \<times> world" where
  "record_failure e run token er w =
    (if map_option run_status (find_run run (wo_db w)) \<noteq> Some Running then (er, w)
     else (case call (update_run_status e run (preflight_failure e er token)) w of
         (Inr _, w1) \<Rightarrow> (er, w1)
       | (Inl er1, w1) \<Rightarrow> if \<not> is_concurrency er1 then (er1, w1)
           else (case call (mark_stale_attention e run token) w1 of (Inr _, w2) \<Rightarrow> (er, w2) | (Inl er2, w2) \<Rightarrow> (er2, w2))))"

text \<open>The \<open>finally\<close> branch: an unlocked workspace is the evidence of the cleanup.\<close>

definition settle_claim :: "string \<Rightarrow> string \<Rightarrow> string \<Rightarrow> 'a res \<Rightarrow> world \<Rightarrow> 'a res \<times> world" where
  "settle_claim t run token r w = (case is_locked t (wo_ws w) of
     Inl er \<Rightarrow> (Inl er, w)
   | Inr (locked, _) \<Rightarrow> if locked then (r, w)
       else seq (call (mark_cleanup_verified run token) w) (\<lambda>_ w1.
            seq (call (release_lease run token) w1) (\<lambda>_ w2. (r, w2))))"

definition claimed_audit :: "env \<Rightarrow> string \<Rightarrow> run_row \<Rightarrow> lease_row \<Rightarrow> db \<Rightarrow> db" where
  "claimed_audit e worker r l d = audit e ''run'' (run_id r) ''worker_claimed_lease''
     [(''worker_id'', JStr worker), (''fencing_token'', JStr (lease_token l))] default_actor (isoformat (now e)) d"

text \<open>The claim is taken at \<open>e\<close>, its execution ends at \<open>e'\<close>.\<close>

definition execute_claim :: "env \<Rightarrow> env \<Rightarrow> string \<Rightarrow> executor \<Rightarrow> run_row \<times> lease_row \<Rightarrow> world \<Rightarrow> run_row res \<times> world" where
  "execute_claim e e' worker orchestrate claim w = (case claim of (r, l) \<Rightarrow>
     let w1 = w\<lparr>wo_db := claimed_audit e worker r l (wo_db w)\<rparr>;
         k = get_execution_controls (run_id r) (wo_db w1)
     in (case orchestrate r l (if ctl_dry k then Some True else None) w1 of
          (Inr x, w2) \<Rightarrow> settle_claim (run_task r) (run_id r) (lease_token l) (Inr x) w2
        | (Inl er, w2) \<Rightarrow> (case record_failure e' (run_id r) (lease_token l) er w2 of (er', w3) \<Rightarrow>
            settle_claim (run_task r) (run_id r) (lease_token l) (Inl er') w3)))"

record round =
  ro_start :: env
  ro_end :: env
  ro_token :: string
  ro_stopped :: bool
  ro_executor :: executor

definition execute_next_run :: "string \<Rightarrow> int \<Rightarrow> int \<Rightarrow> round \<Rightarrow> world \<Rightarrow> run_row option res \<times> world" where
  "execute_next_run worker lease_seconds max_running q w =
     seq (recover_stale_leases (ro_start q) w) (\<lambda>_ w1.
     seq (call (claim_next_run (ro_start q) worker lease_seconds max_running None (ro_token q)) w1) (\<lambda>claim w2.
       case claim of None \<Rightarrow> (Inr None, w2)
       | Some c \<Rightarrow> seq (execute_claim (ro_start q) (ro_end q) worker (ro_executor q) c w2) (\<lambda>r w3. (Inr (Some r), w3))))"

definition execute_run_id :: "string \<Rightarrow> int \<Rightarrow> int \<Rightarrow> round \<Rightarrow> string \<Rightarrow> bool \<Rightarrow> world \<Rightarrow> run_row option res \<times> world" where
  "execute_run_id worker lease_seconds max_running q run force_dry w = (case find_run run (wo_db w) of
     None \<Rightarrow> (Inl (NotFoundError ''run''), w)
   | Some r \<Rightarrow> if run_status r \<noteq> Queued then (Inr (Some r), w)
       else seq (if force_dry then call (set_force_dry_run run True) w else (Inr (), w)) (\<lambda>_ w1.
            seq (call (claim_next_run (ro_start q) worker lease_seconds max_running (Some run) (ro_token q)) w1) (\<lambda>claim w2.
              case claim of None \<Rightarrow> (Inr (find_run run (wo_db w2)), w2)
              | Some c \<Rightarrow> seq (execute_claim (ro_start q) (ro_end q) worker (ro_executor q) c w2) (\<lambda>x w3. (Inr (Some x), w3)))))"

text \<open>The polling loop over the rounds it lives through: the number of executed runs, and whether
  it returned before the rounds ended. A limit of zero is no limit.\<close>

fun run_worker :: "string \<Rightarrow> int \<Rightarrow> int \<Rightarrow> bool \<Rightarrow> nat option \<Rightarrow> round list \<Rightarrow> nat \<Rightarrow> world \<Rightarrow> nat \<times> bool \<times> world" where
  "run_worker worker secs mx once limit [] n w = (n, False, w)"
| "run_worker worker secs mx once limit (q # qs) n w =
    (if ro_stopped q then (n, True, w)
     else (case execute_next_run worker secs mx q w of
         (Inr (Some r), w1) \<Rightarrow> if limit \<noteq> None \<and> limit \<noteq> Some 0 \<and> default 0 limit \<le> Suc n then (Suc n, True, w1)
           else run_worker worker secs mx once limit qs (Suc n) w1
       | (_, w1) \<Rightarrow> if once then (n, True, w1) else run_worker worker secs mx once limit qs n w1))"

section \<open>What recovery does\<close>

definition attention :: "int \<Rightarrow> run_row \<Rightarrow> run_row" where
  "attention t r = r\<lparr>run_status := NeedsAttention, run_phase := PhFinalize,
     run_error := Some ''Stale worker lease expired; process cleanup not verified'', run_finished := Some t\<rparr>"

definition cleaned :: "db \<Rightarrow> string \<Rightarrow> bool" where
  "cleaned d run = ctl_cleanup (get_execution_controls run d)"

lemma del_del: "del p (del q t) = del (\<lambda>x. q x \<or> p x) t"
  by (induction t) auto

lemma upd_upd: "(\<And>r. q r \<Longrightarrow> \<not> p (f r)) \<Longrightarrow> upd p f (upd q f t) = upd (\<lambda>r. q r \<or> p r) f t"
  by (induction t) auto

lemma del_cong: "(\<And>x. x \<in> set t \<Longrightarrow> p x = q x) \<Longrightarrow> del p t = del q t"
  by (induction t) auto

text \<open>An expired lease in a well-formed store: its run, and the claim under the same token.\<close>

lemma lease_claim:
  assumes "runs_ok d" "l \<in> set (db_leases d)"
  shows "\<exists>c r. c \<in> set (db_claims d) \<and> claim_run c = lease_run l \<and> claim_token c = lease_token l
    \<and> find_run (lease_run l) d = Some r \<and> run_task r = claim_task c"
proof -
  from assms obtain c where c: "c \<in> set (db_claims d)" "claim_run c = lease_run l" "claim_token c = lease_token l"
    by (auto simp: runs_ok_def keys_ok_def lease_key_def)
  with assms(1) obtain r where "r \<in> set (db_runs d)" "run_id r = lease_run l" "run_task r = claim_task c"
    by (fastforce simp: runs_ok_def keys_ok_def run_key_def)
  with find_run_mem [OF assms(1)] c show ?thesis by metis
qed

lemma same_lease:
  "runs_ok d \<Longrightarrow> l \<in> set (db_leases d) \<Longrightarrow> m \<in> set (db_leases d) \<Longrightarrow> lease_run l = lease_run m \<Longrightarrow> l = m"
  by (rule distinct_map_same [of lease_run "db_leases d"]) (auto simp: runs_ok_def keys_ok_def lease_key_def comp_def)

lemma same_claim:
  "runs_ok d \<Longrightarrow> b \<in> set (db_claims d) \<Longrightarrow> c \<in> set (db_claims d) \<Longrightarrow> claim_run b = claim_run c \<Longrightarrow> b = c"
  by (rule distinct_map_same [of claim_run "db_claims d"]) (auto simp: runs_ok_def keys_ok_def)

lemma mark_stale_expired:
  assumes "l \<in> set (db_leases d)" "lease_expires l < now e"
  shows "mark_stale_attention e (lease_run l) (lease_token l) d
    = Inr ((), d\<lparr>db_runs := upd (\<lambda>r. run_id r = lease_run l \<and> run_status r = Running) (attention (now e)) (db_runs d)\<rparr>)"
proof -
  have "some_row (\<lambda>x. lease_run x = lease_run l \<and> lease_token x = lease_token l \<and> lease_expires x < now e) (db_leases d)"
    using assms by (auto simp: some_row_iff)
  then show ?thesis by (simp add: mark_stale_attention_def attention_def [abs_def])
qed

lemma release_lease_tables:
  assumes "runs_ok d" "l \<in> set (db_leases d)" "release_lease (lease_run l) (lease_token l) d = Inr (u, d')"
  shows "d' = d\<lparr>db_leases := del (\<lambda>x. lease_run x = lease_run l) (db_leases d),
      db_claims := del (\<lambda>c. claim_run c = lease_run l) (db_claims d)\<rparr>"
proof -
  from lease_claim [OF assms(1,2)] obtain c where c: "c \<in> set (db_claims d)" "claim_run c = lease_run l" "claim_token c = lease_token l"
    by blast
  have "del (\<lambda>x. lease_run x = lease_run l \<and> lease_token x = lease_token l) (db_leases d) = del (\<lambda>x. lease_run x = lease_run l) (db_leases d)"
    by (rule del_cong) (metis same_lease [OF assms(1,2)])
  moreover have "del (\<lambda>x. claim_run x = lease_run l \<and> claim_token x = lease_token l) (db_claims d) = del (\<lambda>x. claim_run x = lease_run l) (db_claims d)"
    by (rule del_cong) (metis same_claim [OF assms(1) c(1)] c(2,3))
  ultimately show ?thesis using assms(3) by (auto simp: release_lease_def split: if_splits)
qed

lemma running_upd:
  assumes "runs_ok d" "find_run k d = Some r" "run_status r \<noteq> Running"
  shows "upd (\<lambda>r. run_id r = k \<and> run_status r = Running) f (db_runs d) = db_runs d"
proof (rule upd_none)
  fix x assume "x \<in> set (db_runs d)"
  with find_run_unique [OF assms(1,2)] assms(3) show "\<not> (run_id x = k \<and> run_status x = Running)" by blast
qed

definition locks_after :: "string \<Rightarrow> bool \<Rightarrow> workspaces \<Rightarrow> workspaces \<Rightarrow> bool" where
  "locks_after t p ws ws' = (\<forall>s. tw_lock (ws_of s ws') = (if s = t \<and> p then None else tw_lock (ws_of s ws)))"

text \<open>One lease: the tables after it, on every branch that returns.\<close>

lemma recover_lease_step:
  assumes "runs_ok (wo_db w)" "l \<in> set (db_leases (wo_db w))" "lease_expires l < now e" "recover_lease e l w = (Inr b, w')"
  shows "runs_ok (wo_db w') \<and> db_controls (wo_db w') = db_controls (wo_db w)
    \<and> db_runs (wo_db w') = upd (\<lambda>r. run_id r = lease_run l \<and> run_status r = Running) (attention (now e)) (db_runs (wo_db w))
    \<and> db_leases (wo_db w') = del (\<lambda>x. cleaned (wo_db w) (lease_run l) \<and> lease_run x = lease_run l) (db_leases (wo_db w))
    \<and> db_claims (wo_db w') = del (\<lambda>c. cleaned (wo_db w) (lease_run l) \<and> claim_run c = lease_run l) (db_claims (wo_db w))
    \<and> (\<exists>r. find_run (lease_run l) (wo_db w) = Some r \<and> locks_after (run_task r) (cleaned (wo_db w) (lease_run l)) (wo_ws w) (wo_ws w'))"
proof -
  let ?d = "wo_db w"
  let ?stale = "?d\<lparr>db_runs := upd (\<lambda>r. run_id r = lease_run l \<and> run_status r = Running) (attention (now e)) (db_runs ?d)\<rparr>"
  from lease_claim [OF assms(1,2)] obtain r where r: "find_run (lease_run l) ?d = Some r" by blast
  then have id: "run_id r = lease_run l" using sel1_Some by (fastforce simp: find_run_def)
  note ms = mark_stale_expired [OF assms(2,3)]
  have ok: "runs_ok ?stale" using mark_stale_ok [OF assms(1) ms] by simp
  have idle: "?stale = ?d" if "run_status r \<noteq> Running" using running_upd [OF assms(1) r that] by simp
  show ?thesis
  proof (cases "cleaned ?d (lease_run l)")
    case True
    have "(if run_status r = Running then call (mark_stale_attention e (run_id r) (lease_token l)) w else (Inr (), w)) = (Inr (), w\<lparr>wo_db := ?stale\<rparr>)"
      using ms idle by (auto simp: call_def id)
    with assms(4) r True id obtain w2 where u: "unlock (run_task r) (lease_run l) (lease_token l) (w\<lparr>wo_db := ?stale\<rparr>) = (Inr (), w2)"
      and rel: "call (release_lease (lease_run l) (lease_token l)) w2 = (Inr (), w')"
      by (auto simp: recover_lease_def cleaned_def seq_Inr)
    from u have w2: "wo_db w2 = ?stale" "release_workspace_lock (run_task r) (lease_run l) (lease_token l) True (wo_ws w) = (Inr (), wo_ws w2)"
      by (auto simp: unlock_def split: prod.splits)
    from w2(2) have locks: "locks_after (run_task r) True (wo_ws w) (wo_ws w2)"
      using release_unlocks release_other unfolding locks_after_def by metis
    from rel w2(1) obtain d' where d': "release_lease (lease_run l) (lease_token l) ?stale = Inr ((), d')" "w' = w2\<lparr>wo_db := d'\<rparr>"
      by (auto simp: call_Inr)
    have "l \<in> set (db_leases ?stale)" using assms(2) by simp
    from release_lease_tables [OF ok this d'(1)] release_lease_ok [OF ok d'(1)] d'(2) True r locks
    show ?thesis by simp
  next
    case False
    then have n: "\<not> ctl_cleanup (get_execution_controls (run_id r) ?d)" by (simp add: cleaned_def id)
    show ?thesis
    proof (cases "run_status r = Running")
      case True
      with assms(4) r n ms id have "w' = w\<lparr>wo_db := attention_audit e (lease_run l) l ?stale\<rparr>"
        by (auto simp: recover_lease_def seq_def call_def)
      then show ?thesis using ok False r by (simp add: attention_audit_def runs_ok_def del_def locks_after_def)
    next
      case nr: False
      with assms(4) r n have "w' = w" by (auto simp: recover_lease_def)
      with idle [OF nr] False r assms(1) show ?thesis by (simp add: del_def locks_after_def running_upd [OF assms(1) r nr])
    qed
  qed
qed

definition released :: "db \<Rightarrow> lease_row list \<Rightarrow> string \<Rightarrow> bool" where
  "released d ls run = (cleaned d run \<and> run \<in> lease_run ` set ls)"

definition freed :: "db \<Rightarrow> lease_row list \<Rightarrow> string \<Rightarrow> bool" where
  "freed d ls t = (\<exists>l \<in> set ls. cleaned d (lease_run l) \<and> map_option run_task (find_run (lease_run l) d) = Some t)"

lemma run_task_upd:
  "map_option run_task (find_run k (d\<lparr>db_runs := upd p (attention t) rs\<rparr>)) = map_option run_task (sel1 (\<lambda>r. run_id r = k) rs)"
proof -
  have "sel1 (\<lambda>r. run_id r = k) (upd p (attention t) rs) = map_option (\<lambda>r. if p r then attention t r else r) (sel1 (\<lambda>r. run_id r = k) rs)"
    by (rule sel1_upd_same) (simp add: attention_def)
  then show ?thesis by (cases "sel1 (\<lambda>r. run_id r = k) rs") (simp_all add: find_run_def attention_def)
qed

lemma recover_leases_tables:
  assumes "runs_ok (wo_db w)" "set ls \<subseteq> set (db_leases (wo_db w))" "distinct (map lease_run ls)"
    "\<forall>l \<in> set ls. lease_expires l < now e" "recover_leases e ls w = (Inr n, w')"
  shows "db_runs (wo_db w') = upd (\<lambda>r. run_id r \<in> lease_run ` set ls \<and> run_status r = Running) (attention (now e)) (db_runs (wo_db w))
    \<and> db_leases (wo_db w') = del (\<lambda>x. released (wo_db w) ls (lease_run x)) (db_leases (wo_db w))
    \<and> db_claims (wo_db w') = del (\<lambda>c. released (wo_db w) ls (claim_run c)) (db_claims (wo_db w))
    \<and> (\<forall>s. tw_lock (ws_of s (wo_ws w')) = (if freed (wo_db w) ls s then None else tw_lock (ws_of s (wo_ws w))))"
  using assms
proof (induction ls arbitrary: w n)
  case Nil
  then show ?case by (simp add: upd_none released_def freed_def del_def)
next
  case (Cons l ls)
  let ?d = "wo_db w"
  from Cons.prems(5) obtain b w1 m where h: "recover_lease e l w = (Inr b, w1)" "recover_leases e ls w1 = (Inr m, w')"
    by (auto simp: seq_Inr)
  let ?d1 = "wo_db w1"
  from recover_lease_step [OF Cons.prems(1) _ _ h(1)] Cons.prems(2,4) obtain r where ok: "runs_ok ?d1"
    and ctl: "db_controls ?d1 = db_controls ?d"
    and rs: "db_runs ?d1 = upd (\<lambda>r. run_id r = lease_run l \<and> run_status r = Running) (attention (now e)) (db_runs ?d)"
    and le: "db_leases ?d1 = del (\<lambda>x. cleaned ?d (lease_run l) \<and> lease_run x = lease_run l) (db_leases ?d)"
    and cl: "db_claims ?d1 = del (\<lambda>c. cleaned ?d (lease_run l) \<and> claim_run c = lease_run l) (db_claims ?d)"
    and r: "find_run (lease_run l) ?d = Some r" and lk: "locks_after (run_task r) (cleaned ?d (lease_run l)) (wo_ws w) (wo_ws w1)"
    by auto
  have "lease_run x \<noteq> lease_run l" if "x \<in> set ls" for x using Cons.prems(3) that by (auto simp: image_iff)
  then have "set ls \<subseteq> set (db_leases ?d1)" using Cons.prems(2) le by auto
  from Cons.IH [OF ok this _ _ h(2)] Cons.prems(3,4)
  have ih: "db_runs (wo_db w') = upd (\<lambda>r. run_id r \<in> lease_run ` set ls \<and> run_status r = Running) (attention (now e)) (db_runs ?d1)"
    "db_leases (wo_db w') = del (\<lambda>x. released ?d1 ls (lease_run x)) (db_leases ?d1)"
    "db_claims (wo_db w') = del (\<lambda>c. released ?d1 ls (claim_run c)) (db_claims ?d1)"
    "\<forall>s. tw_lock (ws_of s (wo_ws w')) = (if freed ?d1 ls s then None else tw_lock (ws_of s (wo_ws w1)))" by auto
  have cleaned1: "cleaned ?d1 = cleaned ?d" by (simp add: cleaned_def [abs_def] get_execution_controls_def ctl_of_def ctl)
  then have rel: "released ?d (l # ls) k \<longleftrightarrow> cleaned ?d (lease_run l) \<and> k = lease_run l \<or> released ?d1 ls k" for k
    by (auto simp: released_def)
  have task: "map_option run_task (find_run k ?d1) = map_option run_task (find_run k ?d)" for k
    using run_task_upd [of k _ _ _ ?d1] rs by (simp add: find_run_def)
  have fr: "freed ?d (l # ls) s \<longleftrightarrow> cleaned ?d (lease_run l) \<and> s = run_task r \<or> freed ?d1 ls s" for s
    using r by (auto simp: freed_def cleaned1 task)
  have "db_runs (wo_db w') = upd (\<lambda>r. (run_id r = lease_run l \<and> run_status r = Running) \<or> (run_id r \<in> lease_run ` set ls \<and> run_status r = Running))
      (attention (now e)) (db_runs ?d)" unfolding ih(1) rs by (rule upd_upd) (simp add: attention_def)
  then have "db_runs (wo_db w') = upd (\<lambda>r. run_id r \<in> lease_run ` set (l # ls) \<and> run_status r = Running) (attention (now e)) (db_runs ?d)"
    by (simp add: conj_disj_distribR)
  moreover have "db_leases (wo_db w') = del (\<lambda>x. released ?d (l # ls) (lease_run x)) (db_leases ?d)"
    unfolding ih(2) le del_del rel by simp
  moreover have "db_claims (wo_db w') = del (\<lambda>c. released ?d (l # ls) (claim_run c)) (db_claims ?d)"
    unfolding ih(3) cl del_del rel by simp
  moreover have "tw_lock (ws_of s (wo_ws w')) = (if freed ?d (l # ls) s then None else tw_lock (ws_of s (wo_ws w)))" for s
    using ih(4) lk by (simp add: fr locks_after_def)
  ultimately show ?case by simp
qed

text \<open>The claim of an expired lease whose cleanup is verified.\<close>

definition stale_claim :: "env \<Rightarrow> db \<Rightarrow> claim_row \<Rightarrow> bool" where
  "stale_claim e d c = (cleaned d (claim_run c)
     \<and> some_row (\<lambda>l. lease_run l = claim_run c \<and> lease_expires l < now e) (db_leases d))"

text \<open>C23: recovery is exact and conservative. When it returns, it has released the claims and leases of
  exactly the expired leases whose recorded cleanup is verified and the workspace locks of exactly
  those tasks; every run still running under an expired lease, verified or not, needs attention, and
  no other run, claim, lease or lock has changed. A timeout alone never frees a task.\<close>

theorem recovery_exact:
  assumes "runs_ok (wo_db w)" "recover_stale_leases e w = (Inr n, w')"
  shows "db_claims (wo_db w') = del (stale_claim e (wo_db w)) (db_claims (wo_db w))
    \<and> db_leases (wo_db w') = del (\<lambda>l. lease_expires l < now e \<and> cleaned (wo_db w) (lease_run l)) (db_leases (wo_db w))
    \<and> db_runs (wo_db w') = upd (\<lambda>r. run_status r = Running
        \<and> some_row (\<lambda>l. lease_run l = run_id r \<and> lease_expires l < now e) (db_leases (wo_db w))) (attention (now e)) (db_runs (wo_db w))
    \<and> (\<forall>t. tw_lock (ws_of t (wo_ws w')) = (if some_row (\<lambda>c. claim_task c = t \<and> stale_claim e (wo_db w) c) (db_claims (wo_db w))
        then None else tw_lock (ws_of t (wo_ws w))))"
proof -
  let ?d = "wo_db w" and ?ls = "list_expired_leases (now e) (wo_db w)"
  have mem: "k \<in> lease_run ` set ?ls \<longleftrightarrow> some_row (\<lambda>l. lease_run l = k \<and> lease_expires l < now e) (db_leases ?d)" for k
    by (auto simp: list_expired_leases_def some_row_iff)
  have "distinct (map lease_run (db_leases ?d))" using assms(1) by (simp add: runs_ok_def keys_ok_def lease_key_def comp_def)
  then have "distinct (map lease_run ?ls)" by (simp add: list_expired_leases_def sel_def distinct_map_filter)
  moreover have sub: "set ?ls \<subseteq> set (db_leases ?d)" "\<forall>l \<in> set ?ls. lease_expires l < now e"
    by (auto simp: list_expired_leases_def)
  ultimately have t: "db_runs (wo_db w') = upd (\<lambda>r. run_id r \<in> lease_run ` set ?ls \<and> run_status r = Running) (attention (now e)) (db_runs ?d)
    \<and> db_leases (wo_db w') = del (\<lambda>x. released ?d ?ls (lease_run x)) (db_leases ?d)
    \<and> db_claims (wo_db w') = del (\<lambda>c. released ?d ?ls (claim_run c)) (db_claims ?d)
    \<and> (\<forall>s. tw_lock (ws_of s (wo_ws w')) = (if freed ?d ?ls s then None else tw_lock (ws_of s (wo_ws w))))"
    using recover_leases_tables [OF assms(1) _ _ _ assms(2) [unfolded recover_stale_leases_def]] by blast
  have a: "del (\<lambda>x. released ?d ?ls (lease_run x)) (db_leases ?d) = del (\<lambda>l. lease_expires l < now e \<and> cleaned ?d (lease_run l)) (db_leases ?d)"
  proof (rule del_cong)
    fix x assume x: "x \<in> set (db_leases ?d)"
    have "lease_run x \<in> lease_run ` set ?ls \<longleftrightarrow> x \<in> set ?ls" using same_lease [OF assms(1) x] sub(1) by (auto simp: image_iff)
    with x show "released ?d ?ls (lease_run x) = (lease_expires x < now e \<and> cleaned ?d (lease_run x))"
      by (auto simp: released_def list_expired_leases_def)
  qed
  have b: "(\<lambda>c. released ?d ?ls (claim_run c)) = stale_claim e ?d"
    by (rule ext) (simp add: released_def stale_claim_def mem)
  have c: "(\<lambda>r. run_id r \<in> lease_run ` set ?ls \<and> run_status r = Running) = (\<lambda>r. run_status r = Running
        \<and> some_row (\<lambda>l. lease_run l = run_id r \<and> lease_expires l < now e) (db_leases ?d))"
    by (rule ext) (auto simp: mem)
  have "freed ?d ?ls s \<longleftrightarrow> some_row (\<lambda>c. claim_task c = s \<and> stale_claim e ?d c) (db_claims ?d)" for s
  proof
    assume "freed ?d ?ls s"
    then obtain l where l: "l \<in> set (db_leases ?d)" "lease_expires l < now e" "cleaned ?d (lease_run l)"
      "map_option run_task (find_run (lease_run l) ?d) = Some s" by (auto simp: freed_def list_expired_leases_def)
    from lease_claim [OF assms(1) l(1)] obtain c r where c: "c \<in> set (db_claims ?d)" "claim_run c = lease_run l"
      "find_run (lease_run l) ?d = Some r" "run_task r = claim_task c" by blast
    then have "claim_task c = s \<and> stale_claim e ?d c" using l by (auto simp: stale_claim_def some_row_iff)
    with c(1) show "some_row (\<lambda>c. claim_task c = s \<and> stale_claim e ?d c) (db_claims ?d)" unfolding some_row_iff by blast
  next
    assume "some_row (\<lambda>c. claim_task c = s \<and> stale_claim e ?d c) (db_claims ?d)"
    then obtain c l where c: "c \<in> set (db_claims ?d)" "claim_task c = s" "cleaned ?d (claim_run c)"
      and l: "l \<in> set (db_leases ?d)" "lease_run l = claim_run c" "lease_expires l < now e"
      by (auto simp: some_row_iff stale_claim_def)
    from lease_claim [OF assms(1) l(1)] obtain b r where b: "b \<in> set (db_claims ?d)" "claim_run b = lease_run l"
      "find_run (lease_run l) ?d = Some r" "run_task r = claim_task b" by blast
    from same_claim [OF assms(1) b(1) c(1)] b(2) l(2) have "b = c" by simp
    with b l c have "l \<in> set ?ls \<and> cleaned ?d (lease_run l) \<and> map_option run_task (find_run (lease_run l) ?d) = Some s"
      by (simp add: list_expired_leases_def)
    then show "freed ?d ?ls s" unfolding freed_def by blast
  qed
  then show ?thesis using t unfolding a b c by simp
qed


definition recovered_world :: world where
  "recovered_world = \<lparr>wo_db = cleaned_db, wo_ws = [(''t1'', empty_ws\<lparr>tw_lock := Some (Some (lock_data ''t1'' ''r1'' ''f'' []))\<rparr>)]\<rparr>"

definition late_env :: env where
  "late_env = sample_env\<lparr>now := 300\<rparr>"

theorem recovery_exact_witness:
  "\<exists>n w'. recover_stale_leases late_env recovered_world = (Inr n, w') \<and> db_claims (wo_db w') = [] \<and> tw_lock (ws_of ''t1'' (wo_ws w')) = None"
proof -
  have ok: "runs_ok (wo_db recovered_world)" by code_simp
  have "\<not> isl (fst (recover_stale_leases late_env recovered_world))" by code_simp
  then obtain n w' where r: "recover_stale_leases late_env recovered_world = (Inr n, w')"
    by (cases "recover_stale_leases late_env recovered_world") (auto dest: not_isl)
  have c: "del (stale_claim late_env (wo_db recovered_world)) (db_claims (wo_db recovered_world)) = []"
    "some_row (\<lambda>c. claim_task c = ''t1'' \<and> stale_claim late_env (wo_db recovered_world) c) (db_claims (wo_db recovered_world))" by code_simp+
  from recovery_exact [OF ok r] c r show ?thesis by auto
qed

section \<open>A workspace lock that cannot be released stops recovery\<close>

text \<open>Recovery raises at the first verified lease whose workspace lock is corrupt or held under
  another token. The error leaves the whole round, so no run of any other task is claimed in it.\<close>

definition foreign_lock :: "string \<Rightarrow> string \<Rightarrow> json option \<Rightarrow> bool" where
  "foreign_lock run token f = (case read_lock f of Inl _ \<Rightarrow> True | Inr data \<Rightarrow> \<not> held_by run token data)"

lemma recovery_needs_lock:
  assumes "runs_ok (wo_db w)" "l \<in> set (db_leases (wo_db w))" "lease_expires l < now e"
    "cleaned (wo_db w) (lease_run l)" "find_run (lease_run l) (wo_db w) = Some r"
    "tw_lock (ws_of (run_task r) (wo_ws w)) = Some f" "foreign_lock (lease_run l) (lease_token l) f"
  shows "isl (fst (recover_lease e l w))"
proof (rule ccontr)
  assume "\<not> isl (fst (recover_lease e l w))"
  then obtain b w' where h: "recover_lease e l w = (Inr b, w')" by (cases "recover_lease e l w") (auto dest: not_isl)
  from assms(5) have id: "run_id r = lease_run l" using sel1_Some by (fastforce simp: find_run_def)
  from h assms(4,5) id obtain w1 w2 where u: "unlock (run_task r) (lease_run l) (lease_token l) w1 = (Inr (), w2)" "wo_ws w1 = wo_ws w"
    by (auto simp: recover_lease_def cleaned_def seq_Inr call_Inr split: if_splits)
  then obtain ws' where "release_workspace_lock (run_task r) (lease_run l) (lease_token l) True (wo_ws w) = (Inr (), ws')"
    by (auto simp: unlock_def split: prod.splits)
  from release_needs_owner [OF this assms(6)] assms(7) show False by (auto simp: foreign_lock_def)
qed

lemma stopped_recovery_claims_nothing:
  "isl (fst (recover_stale_leases (ro_start q) w)) \<Longrightarrow>
    execute_next_run worker secs mx q w = (Inl (projl (fst (recover_stale_leases (ro_start q) w))), snd (recover_stale_leases (ro_start q) w))"
  by (cases "recover_stale_leases (ro_start q) w") (auto simp: execute_next_run_def seq_def split: sum.splits)

section \<open>The loop\<close>

lemma run_worker_limit:
  "run_worker worker secs mx once limit qs n w = (m, stopped, w') \<Longrightarrow> limit = Some k \<Longrightarrow> n < k \<Longrightarrow> m \<le> k"
  by (induction qs arbitrary: n w) (fastforce split: if_splits prod.splits sum.splits option.splits)+

text \<open>With \<open>once\<close> the worker leaves at the first round that executes nothing.\<close>

lemma run_worker_once:
  "\<not> ro_stopped q \<Longrightarrow> fst (execute_next_run worker secs mx q w) = Inr None \<Longrightarrow>
    run_worker worker secs mx True limit (q # qs) n w = (n, True, snd (execute_next_run worker secs mx q w))"
  by (cases "execute_next_run worker secs mx q w") auto

end
