(* ===== verification/Smtp_Transport.thy ===== *)
theory Smtp_Transport imports Smtp_Config begin

text \<open>
  One SMTP submission over an open connection, \<open>delivery/smtp_transport.py\<close>: the dot-stuffed
  wire form, the dialogue of MAIL, RCPT, DATA, body and final reply, and the classification of
  failures. The server is a parameter: what it answers, or the exception the call raises, at every
  step. The callbacks of the caller act on a state of any type and may raise. Clock readings are
  left out of the diagnostics.
\<close>

section \<open>Exceptions\<close>

text \<open>An exception with its class, error number and SMTP code, and its chain of causes.\<close>

record exc =
  ex_class :: string
  ex_errno :: "int option"
  ex_code :: "int option"

definition EXCEPTION_TYPES :: "string list" where
  "EXCEPTION_TYPES = [''TimeoutError'', ''ConnectionResetError'', ''ConnectionRefusedError'', ''ConnectionAbortedError'',
     ''BrokenPipeError'', ''SSLCertVerificationError'', ''SSLError'', ''gaierror'', ''SMTPAuthenticationError'', ''SMTPDataError'',
     ''SMTPConnectError'', ''SMTPHeloError'', ''SMTPResponseException'', ''SMTPServerDisconnected'', ''SMTPNotSupportedError'',
     ''SMTPException'', ''PermissionError'', ''OSError'', ''DeliveryError'', ''ValueError'', ''TypeError'']"

text \<open>The known base classes of a class, itself first.\<close>

definition bases :: "string \<Rightarrow> string list" where
  "bases c = c # (if c \<in> {''TimeoutError'', ''ConnectionResetError'', ''ConnectionRefusedError'', ''ConnectionAbortedError'',
        ''BrokenPipeError'', ''gaierror'', ''PermissionError'', ''SSLError'', ''SMTPException''} then [''OSError'']
     else if c = ''SSLCertVerificationError'' then [''SSLError'', ''OSError'', ''ValueError'']
     else if c \<in> {''SMTPAuthenticationError'', ''SMTPDataError'', ''SMTPConnectError'', ''SMTPHeloError''}
       then [''SMTPResponseException'', ''SMTPException'', ''OSError'']
     else if c \<in> {''SMTPResponseException'', ''SMTPServerDisconnected'', ''SMTPNotSupportedError''} then [''SMTPException'', ''OSError'']
     else [])"

definition isinst :: "exc \<Rightarrow> string \<Rightarrow> bool" where
  "isinst x c = (c \<in> set (bases (ex_class x)))"

definition exception_name :: "exc \<Rightarrow> string" where
  "exception_name x = (case find (isinst x) EXCEPTION_TYPES of None \<Rightarrow> ''Exception'' | Some c \<Rightarrow> c)"

text \<open>\<open>_exception_chain\<close>: the exception and its distinct causes, at most eight.\<close>

definition exception_chain :: "exc list \<Rightarrow> exc list" where
  "exception_chain xs = take 8 xs"

definition delivery_error :: exc where
  "delivery_error = \<lparr>ex_class = ''DeliveryError'', ex_errno = None, ex_code = None\<rparr>"

section \<open>Results\<close>

definition SMTP_STAGES :: "string list" where
  "SMTP_STAGES = [''connect'', ''greeting'', ''tls'', ''auth'', ''mail'', ''rcpt'', ''data_command'', ''body_transfer'', ''final_reply'', ''preflight'']"

record progress =
  pg_stage :: string
  pg_body_started :: bool
  pg_body_completed :: bool
  pg_final_reply :: bool
  pg_mime_bytes :: nat
  pg_wire_bytes :: nat
  pg_confirmed :: nat

record failure_details =
  fd_class :: string
  fd_causes :: "string list"
  fd_errno :: "int option"
  fd_timed_out :: bool

datatype exchange_status = XAccepted | XFailed | XUncertain

record exchange_result =
  xr_status :: exchange_status
  xr_error :: "string option"
  xr_code :: "string option"
  xr_retryable :: bool
  xr_reply :: "int option"
  xr_progress :: progress
  xr_failure :: "failure_details option"

definition TRANSIENT_ERRNOS :: "int list" where
  "TRANSIENT_ERRNOS = [110, 104, 111, 103, 32, 113, 101, 100, 112]"

definition timed_out :: "exc list \<Rightarrow> bool" where
  "timed_out chain = list_ex (\<lambda>x. isinst x ''TimeoutError'' \<or> isinst x ''OSError'' \<and> ex_errno x = Some 110) chain"

definition refusal_code :: "exc list \<Rightarrow> int option" where
  "refusal_code chain = (case find (\<lambda>x. isinst x ''SMTPResponseException'') chain of None \<Rightarrow> None
     | Some x \<Rightarrow> (case ex_code x of None \<Rightarrow> None | Some n \<Rightarrow> if 400 \<le> n \<and> n \<le> 599 then Some n else None))"

definition os_errno :: "exc list \<Rightarrow> int option" where
  "os_errno chain = (case find (\<lambda>x. isinst x ''OSError'') (rev chain) of None \<Rightarrow> None | Some x \<Rightarrow> ex_errno x)"

text \<open>Error code, message and whether the failure is transient; \<open>EAI_AGAIN\<close> is -3.\<close>

definition classify_failure :: "exc list \<Rightarrow> string \<times> string \<times> bool" where
  "classify_failure chain =
    (if timed_out chain then (''smtp_timeout'', ''SMTP operation timed out'', True)
     else if list_ex (\<lambda>x. isinst x ''SSLCertVerificationError'') chain
       then (''smtp_tls_verification_failed'', ''SMTP TLS verification failed'', False)
     else (case refusal_code chain of
         Some n \<Rightarrow> (if (case find (\<lambda>x. isinst x ''SMTPResponseException'') chain of None \<Rightarrow> False | Some x \<Rightarrow> isinst x ''SMTPAuthenticationError'')
             then ''smtp_auth_rejected'' else ''smtp_reply_rejected'', ''SMTP server rejected the operation'', n < 500)
       | None \<Rightarrow> (case find (\<lambda>x. isinst x ''gaierror'') chain of
           Some x \<Rightarrow> (''smtp_dns_failed'', ''SMTP hostname lookup failed'', ex_errno x = Some (-3))
         | None \<Rightarrow> if chain \<noteq> [] \<and> isinst (hd chain) ''SMTPServerDisconnected''
             then (''smtp_disconnected'', ''SMTP connection interrupted'', True)
             else if (case os_errno chain of None \<Rightarrow> False | Some n \<Rightarrow> n \<in> set TRANSIENT_ERRNOS)
             then (''smtp_connection_failed'', ''SMTP connection failed'', True)
             else if chain \<noteq> [] \<and> isinst (hd chain) ''DeliveryError''
             then (''smtp_preflight_rejected'', ''SMTP submission checks failed'', False)
             else (''smtp_transport_failed'', ''SMTP operation failed'', False))))"

definition failure_result :: "exc list \<Rightarrow> progress \<Rightarrow> bool \<Rightarrow> exchange_result" where
  "failure_result raised p body_started = (let chain = exception_chain raised in case classify_failure chain of (code, message, transient) \<Rightarrow>
     \<lparr>xr_status = (if body_started then XUncertain else XFailed), xr_error = Some message, xr_code = Some code,
      xr_retryable = (transient \<and> \<not> body_started), xr_reply = refusal_code chain,
      xr_progress = p\<lparr>pg_stage := (if pg_stage p \<in> set SMTP_STAGES then pg_stage p else ''preflight''), pg_body_started := body_started\<rparr>,
      xr_failure = Some \<lparr>fd_class = (case chain of [] \<Rightarrow> ''Exception'' | x # _ \<Rightarrow> exception_name x),
        fd_causes = remdups (map exception_name (tl chain)),
        fd_errno = (case os_errno chain of Some n \<Rightarrow> if -65535 \<le> n \<and> n \<le> 65535 then Some n else None | None \<Rightarrow> None),
        fd_timed_out = timed_out chain\<rparr>\<rparr>)"

section \<open>The wire form\<close>

text \<open>\<open>re.sub(br"(?m)^\\.", b"..", mime)\<close>: a dot at the start of a line is doubled.\<close>

fun dot_stuff :: "bool \<Rightarrow> string \<Rightarrow> string" where
  "dot_stuff start [] = []"
| "dot_stuff start (c # s) = (if start \<and> c = CHR ''.'' then CHR ''.'' # c # dot_stuff False s
     else c # dot_stuff (c = CHR 0x0A) s)"

definition CRLF :: string where "CRLF = [CHR 0x0D, CHR 0x0A]"

definition ends_line :: "string \<Rightarrow> bool" where
  "ends_line s = (2 \<le> length s \<and> drop (length s - 2) s = CRLF)"

definition wire :: "string \<Rightarrow> string" where
  "wire mime = (let w = dot_stuff True mime in (if ends_line w then w else w @ CRLF) @ CHR ''.'' # CRLF)"

section \<open>The dialogue\<close>

datatype reaction = Answer int | Malformed | Raises "exc list"

record smtp_server =
  sv_mail :: reaction
  sv_rcpt :: "string \<Rightarrow> reaction"
  sv_data :: reaction
  sv_body :: "exc list option"
  sv_final :: reaction

record 's callbacks =
  cb_stage :: "progress \<Rightarrow> 's \<Rightarrow> exc list option \<times> 's"
  cb_body :: "'s \<Rightarrow> exc list option \<times> 's"

definition reply_code :: "reaction \<Rightarrow> int option" where
  "reply_code r = (case r of Answer n \<Rightarrow> if 100 \<le> n \<and> n \<le> 599 then Some n else None | _ \<Rightarrow> None)"

definition positive :: "reaction \<Rightarrow> bool" where
  "positive r = (case reply_code r of None \<Rightarrow> False | Some n \<Rightarrow> 200 \<le> n \<and> n < 300)"

definition rejected :: "reaction \<Rightarrow> string \<Rightarrow> progress \<Rightarrow> exchange_result" where
  "rejected r operation p =
    (let valid = (case reply_code r of None \<Rightarrow> False | Some n \<Rightarrow> 400 \<le> n)
     in \<lparr>xr_status = (if valid \<or> \<not> pg_body_started p then XFailed else XUncertain),
         xr_error = Some (if valid then ''SMTP server rejected '' @ operation else ''Unexpected SMTP reply''),
         xr_code = Some (if valid then ''smtp_'' @ pg_stage p @ ''_rejected'' else ''smtp_invalid_reply''),
         xr_retryable = (case reply_code r of None \<Rightarrow> False | Some n \<Rightarrow> 400 \<le> n \<and> n < 500),
         xr_reply = reply_code r, xr_progress = p, xr_failure = None\<rparr>)"

definition accepted :: "reaction \<Rightarrow> progress \<Rightarrow> exchange_result" where
  "accepted r p = \<lparr>xr_status = XAccepted, xr_error = None, xr_code = None, xr_retryable = False, xr_reply = reply_code r,
     xr_progress = p, xr_failure = None\<rparr>"

text \<open>One command: the stage is announced first, then the server reacts. \<open>Inl\<close> ends the exchange.\<close>

definition command :: "'s callbacks \<Rightarrow> string \<Rightarrow> reaction \<Rightarrow> (reaction \<Rightarrow> bool) \<Rightarrow> string \<Rightarrow> progress \<Rightarrow> 's \<Rightarrow> (exchange_result + progress) \<times> 's" where
  "command cb stage r good operation p s =
    (let p1 = p\<lparr>pg_stage := stage\<rparr> in case cb_stage cb p1 s of
       (Some x, s1) \<Rightarrow> (Inl (failure_result x p1 (pg_body_started p1)), s1)
     | (None, s1) \<Rightarrow> (case r of
         Raises x \<Rightarrow> (Inl (failure_result x p1 (pg_body_started p1)), s1)
       | _ \<Rightarrow> if good r then (Inr p1, s1) else (Inl (rejected r operation p1), s1)))"

fun recipients_accepted :: "'s callbacks \<Rightarrow> smtp_server \<Rightarrow> string list \<Rightarrow> progress \<Rightarrow> 's \<Rightarrow> (exchange_result + progress) \<times> 's" where
  "recipients_accepted cb sv [] p s = (Inr p, s)"
| "recipients_accepted cb sv (a # as) p s = (case command cb ''rcpt'' (sv_rcpt sv a) positive ''RCPT'' p s of
     (Inl x, s1) \<Rightarrow> (Inl x, s1) | (Inr p1, s1) \<Rightarrow> recipients_accepted cb sv as p1 s1)"

text \<open>After the 354 reply: the caller's permission, then the only transfer of the body. The third
  component holds the bytes handed to the connection.\<close>

definition transfer :: "'s callbacks \<Rightarrow> smtp_server \<Rightarrow> string \<Rightarrow> progress \<Rightarrow> 's \<Rightarrow> exchange_result \<times> 's \<times> string option" where
  "transfer cb sv w p s = (case cb_body cb s of
     (Some x, s1) \<Rightarrow> (failure_result x p False, s1, None)
   | (None, s1) \<Rightarrow>
       let p1 = p\<lparr>pg_body_started := True, pg_stage := ''body_transfer''\<rparr> in (case cb_stage cb p1 s1 of
         (Some x, s2) \<Rightarrow> (failure_result x p1 True, s2, None)
       | (None, s2) \<Rightarrow> (case sv_body sv of
           Some x \<Rightarrow> (failure_result x p1 True, s2, Some w)
         | None \<Rightarrow> let p2 = p1\<lparr>pg_body_completed := True, pg_confirmed := length w, pg_stage := ''final_reply''\<rparr> in
             (case cb_stage cb p2 s2 of
               (Some x, s3) \<Rightarrow> (failure_result x p2 True, s3, Some w)
             | (None, s3) \<Rightarrow> (case sv_final sv of
                 Raises x \<Rightarrow> (failure_result x p2 True, s3, Some w)
               | r \<Rightarrow> let p3 = p2\<lparr>pg_final_reply := (reply_code r \<noteq> None)\<rparr> in
                   (if positive r then accepted r p3 else rejected r ''message body'' p3, s3, Some w))))))"

record envelope =
  en_sender :: json
  en_recipients :: json

definition envelope_recipients :: "(string \<Rightarrow> bool) \<Rightarrow> envelope \<Rightarrow> string list res" where
  "envelope_recipients addr_ok v = and_then (validate_address addr_ok (en_sender v)) (\<lambda>_. case en_recipients v of
     JList xs \<Rightarrow> if xs = [] then Inl (DeliveryError ''recipient snapshot'') else collect (validate_address addr_ok) xs
   | _ \<Rightarrow> Inl (DeliveryError ''recipient snapshot''))"

definition first_progress :: "string \<Rightarrow> progress" where
  "first_progress mime = \<lparr>pg_stage = ''preflight'', pg_body_started = False, pg_body_completed = False, pg_final_reply = False,
     pg_mime_bytes = length mime, pg_wire_bytes = 0, pg_confirmed = 0\<rparr>"

definition is_354 :: "reaction \<Rightarrow> bool" where
  "is_354 r = (reply_code r = Some 354)"

definition send_message :: "(string \<Rightarrow> bool) \<Rightarrow> 's callbacks \<Rightarrow> smtp_server \<Rightarrow> smtp_settings \<Rightarrow> string \<Rightarrow> envelope \<Rightarrow> 's \<Rightarrow>
    exchange_result \<times> 's \<times> string option" where
  "send_message addr_ok cb sv limits mime v s =
    (let p = first_progress mime in
     case and_then (validate_smtp addr_ok False limits) (\<lambda>_. and_then (check (mime \<noteq> []) (DeliveryError ''message snapshot''))
         (\<lambda>_. envelope_recipients addr_ok v)) of
       Inl er \<Rightarrow> (failure_result [delivery_error] p False, s, None)
     | Inr recipients \<Rightarrow>
         let w = wire mime; p0 = p\<lparr>pg_wire_bytes := length w\<rparr> in
         (case command cb ''mail'' (sv_mail sv) positive ''MAIL'' p0 s of
            (Inl x, s1) \<Rightarrow> (x, s1, None)
          | (Inr p1, s1) \<Rightarrow> (case recipients_accepted cb sv recipients p1 s1 of
              (Inl x, s2) \<Rightarrow> (x, s2, None)
            | (Inr p2, s2) \<Rightarrow> (case command cb ''data_command'' (sv_data sv) is_354 ''DATA'' p2 s2 of
                (Inl x, s3) \<Rightarrow> (x, s3, None)
              | (Inr p3, s3) \<Rightarrow> transfer cb sv w p3 s3))))"

section \<open>The receiver\<close>

text \<open>The reader of a DATA section in RFC 5321: lines end with CRLF, a line of one dot ends the
  message, a leading dot of any other line is dropped. The rest is the next command.\<close>

datatype line_state = Bol | Mid | Cr | Dot | DotCr

definition prepend :: "string \<Rightarrow> (string \<times> string) option \<Rightarrow> (string \<times> string) option" where
  "prepend u = map_option (\<lambda>(m, rest). (u @ m, rest))"

fun receive :: "line_state \<Rightarrow> string \<Rightarrow> (string \<times> string) option" where
  "receive st [] = None"
| "receive Bol (c # s) = (if c = CHR ''.'' then receive Dot s else prepend [c] (receive (if c = CHR 0x0D then Cr else Mid) s))"
| "receive Mid (c # s) = prepend [c] (receive (if c = CHR 0x0D then Cr else Mid) s)"
| "receive Cr (c # s) = prepend [c] (receive (if c = CHR 0x0A then Bol else if c = CHR 0x0D then Cr else Mid) s)"
| "receive Dot (c # s) = (if c = CHR 0x0D then receive DotCr s else prepend [c] (receive Mid s))"
| "receive DotCr (c # s) = (if c = CHR 0x0A then Some ([], s)
     else prepend [CHR 0x0D, c] (receive (if c = CHR 0x0D then Cr else Mid) s))"

fun no_bare_lf :: "bool \<Rightarrow> string \<Rightarrow> bool" where
  "no_bare_lf cr [] = True"
| "no_bare_lf cr (c # s) = ((c = CHR 0x0A \<longrightarrow> cr) \<and> no_bare_lf (c = CHR 0x0D) s)"

definition state_for :: "bool \<Rightarrow> bool \<Rightarrow> line_state" where
  "state_for start cr = (if start then Bol else if cr then Cr else Mid)"

lemma prepend_prepend [simp]: "prepend u (prepend v m) = prepend (u @ v) m"
  by (cases m) (auto simp: prepend_def)

lemma prepend_simps [simp]: "prepend u (Some (m, rest)) = Some (u @ m, rest)" "prepend [] x = x"
  by (simp add: prepend_def) (cases x; auto simp: prepend_def)

lemma receive_plain:
  "c \<noteq> CHR ''.'' \<Longrightarrow> c \<noteq> CHR 0x0A \<Longrightarrow> st \<in> {Bol, Mid, Cr} \<Longrightarrow>
    receive st (c # s) = prepend [c] (receive (if c = CHR 0x0D then Cr else Mid) s)"
  by (cases st) auto

text \<open>Stuffing is transparent: reading it gives the message back and the state it ends in.\<close>

fun after :: "bool \<Rightarrow> bool \<Rightarrow> string \<Rightarrow> bool \<times> bool" where
  "after start cr [] = (start, cr)"
| "after start cr (c # s) = after (c = CHR 0x0A) (c = CHR 0x0D) s"

lemma receive_stuffed:
  "no_bare_lf cr m \<Longrightarrow> \<not> (start \<and> cr) \<Longrightarrow>
    receive (state_for start cr) (dot_stuff start m @ t) = prepend m (receive (case after start cr m of (b, k) \<Rightarrow> state_for b k) t)"
proof (induction m arbitrary: start cr)
  case (Cons c m)
  show ?case
  proof (cases "c = CHR 0x0A")
    case True
    with Cons.IH [of False True] Cons.prems show ?thesis by (auto simp: state_for_def split: if_splits)
  next
    case False
    have ih: "receive (if c = CHR 0x0D then Cr else Mid) (dot_stuff False m @ t)
        = prepend m (receive (case after False (c = CHR 0x0D) m of (b, k) \<Rightarrow> state_for b k) t)"
      using Cons.IH [of "c = CHR 0x0D" False] Cons.prems by (auto simp: state_for_def)
    show ?thesis
    proof (cases "c = CHR ''.''")
      case True
      with ih show ?thesis by (auto simp: state_for_def)
    next
      case nd: False
      have "state_for start cr \<in> {Bol, Mid, Cr}" by (simp add: state_for_def)
      from receive_plain [OF nd False this] ih nd False show ?thesis by simp
    qed
  qed
qed (simp add: state_for_def)

lemma dot_stuff_append:
  "dot_stuff b (u @ v) = dot_stuff b u @ dot_stuff (if u = [] then b else last u = CHR 0x0A) v"
  by (induction u arbitrary: b) auto

lemma ends_line_iff: "ends_line s \<longleftrightarrow> (\<exists>u. s = u @ CRLF)"
proof
  assume "ends_line s"
  then have "drop (length s - 2) s = CRLF" by (simp add: ends_line_def)
  then show "\<exists>u. s = u @ CRLF" by (metis append_take_drop_id)
next
  assume "\<exists>u. s = u @ CRLF"
  then show "ends_line s" by (auto simp: ends_line_def CRLF_def)
qed

lemma ends_line_stuffed: "ends_line (dot_stuff b m) = ends_line m"
proof
  assume "ends_line m"
  then show "ends_line (dot_stuff b m)" by (auto simp: ends_line_iff dot_stuff_append CRLF_def)
next
  assume e: "ends_line (dot_stuff b m)"
  then obtain u where u: "dot_stuff b m = u @ [CHR 0x0D, CHR 0x0A]" by (auto simp: ends_line_iff CRLF_def)
  show "ends_line m"
  proof (cases m rule: rev_cases)
    case Nil
    with u show ?thesis by simp
  next
    case (snoc n c)
    show ?thesis
    proof (cases n rule: rev_cases)
      case Nil
      with u snoc show ?thesis by (auto split: if_splits)
    next
      case (snoc k a)
      with u \<open>m = n @ [c]\<close> have "c = CHR 0x0A \<and> a = CHR 0x0D" by (auto simp: dot_stuff_append split: if_splits)
      with snoc \<open>m = n @ [c]\<close> show ?thesis by (auto simp: ends_line_iff CRLF_def)
    qed
  qed
qed

lemma after_append: "after b k (u @ v) = (case after b k u of (b', k') \<Rightarrow> after b' k' v)"
  by (induction u arbitrary: b k) auto

text \<open>C24: the wire form is transparent: for every message without a bare line feed, whatever dots its
  lines begin with, a conforming server reads exactly the message, completed to whole lines, and
  stops exactly at its end.\<close>

theorem wire_roundtrip:
  assumes "no_bare_lf False m"
  shows "receive Bol (wire m @ rest) = Some (if ends_line m then m else m @ CRLF, rest)"
proof -
  have fin: "receive Bol (CHR ''.'' # CRLF @ rest) = Some ([], rest)" by (simp add: CRLF_def)
  have e: "receive Bol (dot_stuff True m @ t) = prepend m (receive (case after True False m of (b, k) \<Rightarrow> state_for b k) t)" for t
    using receive_stuffed [OF assms, of True t] by (simp add: state_for_def)
  show ?thesis
  proof (cases "ends_line m")
    case True
    then obtain u where "m = u @ CRLF" by (auto simp: ends_line_iff)
    then have "after True False m = (True, False)" by (auto simp: after_append CRLF_def split: prod.splits)
    with e [of "CHR ''.'' # CRLF @ rest"] fin True show ?thesis
      by (simp add: wire_def ends_line_stuffed state_for_def)
  next
    case False
    have "receive st (CRLF @ CHR ''.'' # CRLF @ rest) = Some (CRLF, rest)" if "st \<in> {Bol, Mid, Cr}" for st
      using that by (auto simp: CRLF_def)
    moreover have "(case after True False m of (b, k) \<Rightarrow> state_for b k) \<in> {Bol, Mid, Cr}"
      by (simp add: state_for_def split: prod.splits)
    ultimately show ?thesis using e [of "CRLF @ CHR ''.'' # CRLF @ rest"] False
      by (simp add: wire_def ends_line_stuffed)
  qed
qed

theorem wire_roundtrip_witness:
  "receive Bol (wire ''..a'') = Some (''..a'' @ CRLF, [])"
  using wire_roundtrip [of "''..a''" "[]"] by (simp add: ends_line_def CRLF_def)

section \<open>Outcomes\<close>

text \<open>What the caller may conclude: acceptance needs the whole body and a positive final reply; after
  the body was handed over, only an explicit refusal of the server counts as a failure.\<close>

definition honest :: "smtp_server \<Rightarrow> string \<Rightarrow> exchange_result \<Rightarrow> string option \<Rightarrow> bool" where
  "honest sv mime x sent = ((sent = None \<or> sent = Some (wire mime))
     \<and> (xr_status x = XAccepted \<longrightarrow> sent \<noteq> None \<and> sv_body sv = None \<and> positive (sv_final sv))
     \<and> (sent \<noteq> None \<and> (xr_status x = XFailed \<or> xr_retryable x) \<longrightarrow>
          sv_body sv = None \<and> (\<exists>n. reply_code (sv_final sv) = Some n \<and> 400 \<le> n \<and> n \<le> 599 \<and> (xr_retryable x \<longrightarrow> n < 500))))"

lemma failure_result_status: "xr_status (failure_result x p b) = (if b then XUncertain else XFailed)"
  "xr_retryable (failure_result x p True) = False"
  by (simp_all add: failure_result_def Let_def split: prod.splits)

lemma reply_code_bounds: "reply_code r = Some n \<Longrightarrow> 100 \<le> n \<and> n \<le> 599"
  by (auto simp: reply_code_def split: reaction.splits if_splits)

lemma rejected_honest:
  "sv_body sv = None \<Longrightarrow> pg_body_started p \<Longrightarrow> sv_final sv = r \<Longrightarrow> honest sv mime (rejected r o' p) (Some (wire mime))"
  by (auto simp: honest_def rejected_def Let_def dest: reply_code_bounds split: option.splits if_splits)

lemma failure_honest: "sent = None \<or> sent = Some (wire mime) \<and> b \<Longrightarrow> honest sv mime (failure_result x p b) sent"
  by (auto simp: honest_def failure_result_status)

lemma accepted_honest: "sv_body sv = None \<Longrightarrow> positive (sv_final sv) \<Longrightarrow> honest sv mime (accepted r p) (Some (wire mime))"
  by (simp add: honest_def accepted_def)

lemma transfer_honest:
  assumes "transfer cb sv (wire mime) p s = (x, s', sent)"
  shows "honest sv mime x sent"
  using assms
  by (auto simp: transfer_def Let_def intro: rejected_honest failure_honest accepted_honest
      split: prod.splits option.splits reaction.splits if_splits)

lemma command_ends:
  "command cb stage r good operation p s = (Inl x, s') \<Longrightarrow> \<not> pg_body_started p \<Longrightarrow> xr_status x = XFailed"
  by (auto simp: command_def Let_def failure_result_status rejected_def split: prod.splits option.splits reaction.splits if_splits)

lemma command_goes_on: "command cb stage r good operation p s = (Inr p', s') \<Longrightarrow> pg_body_started p' = pg_body_started p"
  by (auto simp: command_def Let_def split: prod.splits option.splits reaction.splits if_splits)

lemma recipients_ends:
  "recipients_accepted cb sv as p s = (Inl x, s') \<Longrightarrow> \<not> pg_body_started p \<Longrightarrow> xr_status x = XFailed"
  by (induction as arbitrary: p s)
    (auto split: prod.splits sum.splits dest: command_ends command_goes_on)

lemma recipients_go_on:
  "recipients_accepted cb sv as p s = (Inr p', s') \<Longrightarrow> pg_body_started p' = pg_body_started p"
  by (induction as arbitrary: p s) (auto split: prod.splits sum.splits dest: command_goes_on)

theorem send_message_honest:
  assumes "send_message addr_ok cb sv limits mime v s = (x, s', sent)"
  shows "honest sv mime x sent"
proof (cases "sent")
  case None
  have unsent: "xr_status x = XFailed \<Longrightarrow> honest sv mime x None" by (simp add: honest_def)
  show ?thesis
  proof (cases "\<exists>p s1. transfer cb sv (wire mime) p s1 = (x, s', sent)")
    case True
    then obtain p s1 where "transfer cb sv (wire mime) p s1 = (x, s', sent)" by blast
    then show ?thesis by (rule transfer_honest)
  next
    case False
    with assms unsent None show ?thesis
      by (auto simp: send_message_def Let_def failure_result_status first_progress_def split: sum.splits prod.splits
          dest!: command_goes_on recipients_go_on dest: command_ends recipients_ends)
  qed
next
  case (Some w)
  with assms obtain p s1 where "transfer cb sv (wire mime) p s1 = (x, s', sent)"
    by (auto simp: send_message_def Let_def split: sum.splits prod.splits)
  then show ?thesis by (rule transfer_honest)
qed

section \<open>The contract of the callbacks\<close>

text \<open>
  What a caller may rely on: if its state satisfies \<open>prior\<close> before the exchange, the stages
  keep it, and a granted body permission leads to \<open>begun\<close>, then the exchange ends in
  \<open>prior\<close> with nothing sent and a failure, or in \<open>begun\<close>.
\<close>

locale submission =
  fixes cb :: "'s callbacks" and prior :: "'s \<Rightarrow> bool" and begun :: "'s \<Rightarrow> bool"
  assumes stage_prior: "cb_stage cb p s = (r, s') \<Longrightarrow> prior s \<Longrightarrow> prior s'"
    and stage_begun: "cb_stage cb p s = (r, s') \<Longrightarrow> begun s \<Longrightarrow> begun s'"
    and body_granted: "cb_body cb s = (None, s') \<Longrightarrow> prior s \<Longrightarrow> begun s'"
    and body_refused: "cb_body cb s = (Some x, s') \<Longrightarrow> prior s \<Longrightarrow> prior s'"
begin

definition ends_well :: "exchange_result \<Rightarrow> 's \<Rightarrow> string option \<Rightarrow> bool" where
  "ends_well x s sent = (prior s \<and> sent = None \<and> xr_status x = XFailed \<or> begun s)"

lemma command_keeps: "command cb stage r good operation p s = (x, s') \<Longrightarrow> prior s \<Longrightarrow> prior s'"
  by (auto simp: command_def Let_def split: prod.splits option.splits reaction.splits if_splits dest: stage_prior)

lemma recipients_keep: "recipients_accepted cb sv as p s = (x, s') \<Longrightarrow> prior s \<Longrightarrow> prior s'"
  by (induction as arbitrary: p s) (auto split: prod.splits sum.splits dest: command_keeps)

lemma transfer_ends:
  assumes "transfer cb sv w p s = (x, s', sent)" "prior s"
  shows "ends_well x s' sent"
proof (cases "cb_body cb s")
  case (Pair r s1)
  show ?thesis
  proof (cases r)
    case None
    with Pair assms(2) have "begun s1" by (blast intro: body_granted)
    with assms(1) Pair None have "begun s'"
      by (auto simp: transfer_def Let_def split: prod.splits option.splits reaction.splits dest!: stage_begun)
    then show ?thesis by (simp add: ends_well_def)
  next
    case (Some y)
    with Pair assms show ?thesis
      by (auto simp: transfer_def ends_well_def failure_result_status intro: body_refused)
  qed
qed

lemma command_fails:
  "command cb stage r good operation p s = (Inl x, s') \<Longrightarrow> prior s \<Longrightarrow> \<not> pg_body_started p \<Longrightarrow> ends_well x s' None"
  by (simp add: ends_well_def command_ends command_keeps)

lemma recipients_fail:
  "recipients_accepted cb sv as p s = (Inl x, s') \<Longrightarrow> prior s \<Longrightarrow> \<not> pg_body_started p \<Longrightarrow> ends_well x s' None"
  by (simp add: ends_well_def recipients_ends recipients_keep)

lemma command_passes:
  "command cb stage r good operation p s = (Inr p', s') \<Longrightarrow> prior s \<and> \<not> pg_body_started p \<Longrightarrow> prior s' \<and> \<not> pg_body_started p'"
  by (auto dest: command_keeps command_goes_on)

lemma recipients_pass:
  "recipients_accepted cb sv as p s = (Inr p', s') \<Longrightarrow> prior s \<and> \<not> pg_body_started p \<Longrightarrow> prior s' \<and> \<not> pg_body_started p'"
  by (auto dest: recipients_keep recipients_go_on)

lemma send_message_ends:
  assumes "send_message addr_ok cb sv limits mime v s = (x, s', sent)" "prior s"
  shows "ends_well x s' sent"
proof -
  have "prior s \<and> \<not> pg_body_started (first_progress mime\<lparr>pg_wire_bytes := length (wire mime)\<rparr>)"
    using assms(2) by (simp add: first_progress_def)
  note go = command_passes [OF _ this] command_fails [OF _ conjunct1 [OF this] conjunct2 [OF this]]
  have unsent: "prior t \<Longrightarrow> ends_well (failure_result c q False) t None" for c q t by (simp add: ends_well_def failure_result_status)
  show ?thesis
    using assms unfolding send_message_def Let_def
    by (auto split: sum.splits prod.splits intro: unsent transfer_ends command_fails recipients_fail
        dest!: go(1) recipients_pass command_passes dest: go(2))
qed

end

end
