(* ===== verification/Dispatch.thy ===== *)
theory Dispatch imports Smtp_Transport Queue_Safety Recipient_Routing begin

text \<open>
  The dispatcher of the mail queue, \<open>delivery/smtp_dispatcher.py\<close>: preparation of a job,
  its submission with the callbacks that record stages and ask for the DATA permission, completion
  and reconciliation, the connection test and the dispatch loop. The transactions of a dispatch are
  the operations of \<open>Smtp_Queue\<close>, the exchange is \<open>send_message\<close>; between two
  transactions other processes may commit, which is the function \<open>io_other\<close>. Reading the
  archive and the outbox and composing the MIME text are file and email library work and functions of
  the surroundings, as are the server and the configuration file. The exported evidence of an
  attempt is not modelled.
\<close>

section \<open>The surroundings of a dispatch\<close>

text \<open>The moments of a dispatch; a stage of the exchange is named by the protocol.\<close>

datatype moment = Preflight | Claiming | Stage string | Body | Permitting | Settling | Reconciling

record connection =
  cn_open :: "exc list option"
  cn_ehlo :: "exc list option"
  cn_starttls :: "exc list option"
  cn_ehlo_again :: "exc list option"
  cn_login :: "exc list option"
  cn_noop :: reaction

record mail_settings = settings +
  ms_max_bytes :: nat
  ms_policy :: retry_policy

record mail_io =
  io_env :: "moment \<Rightarrow> env"
  io_other :: "moment \<Rightarrow> db \<Rightarrow> db"
  io_config :: "moment \<Rightarrow> delivery_config res"
  io_archive :: "handoff_row \<Rightarrow> db \<Rightarrow> unit res"
  io_outbox :: "handoff_row \<Rightarrow> (dict \<times> (string \<times> string) list) res"
  io_mime :: "dict \<Rightarrow> (string \<times> string) list \<Rightarrow> smtp_settings \<Rightarrow> json \<Rightarrow> string \<Rightarrow> string \<Rightarrow> string res"
  io_connection :: connection
  io_server :: smtp_server
  io_token :: string
  io_pid :: int
  io_fresh :: string
  io_addr_ok :: "string \<Rightarrow> bool"
  io_sha :: "string \<Rightarrow> string"

section \<open>Preparation\<close>

definition run_ready :: "bool \<Rightarrow> handoff_row \<Rightarrow> db \<Rightarrow> bool" where
  "run_ready again h d = (case find_run (ho_run h) d of None \<Rightarrow> False | Some r \<Rightarrow>
     run_status r \<in> (if ho_type h = ''system_alert'' then {Failed, NeedsAttention, Cancelled, Succeeded}
       else if again then {AwaitingReceipt, Failed, NeedsAttention} else {AwaitingReceipt}))"

definition handoff_claim :: "handoff_row \<Rightarrow> delivery_claim" where
  "handoff_claim h = \<lparr>dc_task = ho_task h, dc_version = ho_version h, dc_group = ho_group h,
     dc_alert = (ho_type h = ''system_alert''), dc_run = Some (ho_run h), dc_revision = JInt (ho_revision h)\<rparr>"

text \<open>\<open>_check_handoff\<close>: the row, the live approval and the run before the archive and the outbox.\<close>

definition check_handoff :: "mail_io \<Rightarrow> mail_settings \<Rightarrow> moment \<Rightarrow> handoff_row option \<Rightarrow> delivery_config \<Rightarrow> bool \<Rightarrow> db \<Rightarrow>
    (dict \<times> (string \<times> string) list) res" where
  "check_handoff io s m handoff cfg again d = (case handoff of None \<Rightarrow> Inl (DeliveryError ''not queued for live delivery'') | Some h \<Rightarrow>
     and_then (check (ho_mode h = ''handoff'' \<and> ho_status h \<in> (if again then {''published'', ''queued'', ''failed'', ''uncertain''}
         else {''published'', ''queued''})) (DeliveryError ''not queued for live delivery'')) (\<lambda>_.
     and_then (require_approval (io_env io m) (io_addr_ok io) (io_sha io) (settings.truncate s) cfg (handoff_claim h) d) (\<lambda>_.
     and_then (check (run_ready again h d) (DeliveryError ''run archive not finalized'')) (\<lambda>_.
     and_then (io_archive io h d) (\<lambda>_. io_outbox io h)))))"

definition sender_address :: "smtp_settings \<Rightarrow> json" where
  "sender_address smtp = (if truthy (st_sender_email smtp) then st_sender_email smtp else st_username smtp)"

definition group_addresses :: "delivery_config \<Rightarrow> string \<Rightarrow> json res" where
  "group_addresses cfg grp = (case cfg_groups cfg of JDict g \<Rightarrow> dsub g grp | _ \<Rightarrow> Inl (TypeError ''subscript''))"

definition mail_envelope :: "smtp_settings \<Rightarrow> json \<Rightarrow> json option \<Rightarrow> dict" where
  "mail_envelope smtp recipients sender = [(''sender'', sender_address smtp), (''recipients'', recipients)]
     @ (case sender of None \<Rightarrow> [] | Some v \<Rightarrow> [(''sender_profile_id'', v)])"

text \<open>The mail of a handoff, encoded again from its package.\<close>

definition expected_mail :: "mail_io \<Rightarrow> mail_settings \<Rightarrow> moment \<Rightarrow> handoff_row option \<Rightarrow> delivery_config \<Rightarrow> smtp_settings \<Rightarrow> json \<Rightarrow> string \<Rightarrow>
    bool \<Rightarrow> db \<Rightarrow> (string \<times> json) res" where
  "expected_mail io s m handoff cfg smtp sender message again d =
     and_then (check_handoff io s m handoff cfg again d) (\<lambda>(request, files). case handoff of None \<Rightarrow> Inl (AttributeError ''task_id'') | Some h \<Rightarrow>
     and_then (sender_for_task_version (ho_task h) (ho_version h) d) (\<lambda>v.
     and_then (check (sender = v) (DeliveryError ''sender profile'')) (\<lambda>_.
     and_then (recipient_visibility_for_task_version (ho_task h) (ho_version h) d) (\<lambda>visibility.
     and_then (group_addresses cfg (ho_group h)) (\<lambda>recipients.
     and_then (io_mime io request files smtp recipients message visibility) (\<lambda>mime. Inr (mime, recipients)))))))"

definition is_diagnostic :: "smtp_row \<Rightarrow> bool" where
  "is_diagnostic a = (dget (sm_envelope a) ''connection_test'' = JBool True \<and> sm_handoff a = None)"

definition envelope_checked :: "mail_io \<Rightarrow> dict \<Rightarrow> unit res" where
  "envelope_checked io v = and_then (dsub v ''sender'') (\<lambda>x. and_then (validate_address (io_addr_ok io) x) (\<lambda>_.
     and_then (dsub v ''recipients'') (\<lambda>y. and_then (iter_json y) (\<lambda>rs.
     and_then (each (\<lambda>r. and_then (validate_address (io_addr_ok io) r) (\<lambda>_. Inr ())) rs) (\<lambda>_.
     check (truthy y) (DeliveryError ''a recipient''))))))"

text \<open>What the snapshot must be: the mail of its handoff, or an explicit test.\<close>

definition snapshot_checked :: "mail_io \<Rightarrow> mail_settings \<Rightarrow> moment \<Rightarrow> smtp_row \<Rightarrow> delivery_config \<Rightarrow> smtp_settings \<Rightarrow> bool \<Rightarrow> db \<Rightarrow> unit res" where
  "snapshot_checked io s m a cfg smtp again d = (let sender = get_or (sm_envelope a) ''sender_profile_id'' (JStr ''default'') in
     if default [] (sm_handoff a) \<noteq> [] then
       (let handoff = find_handoff (default [] (sm_handoff a)) d in
        and_then (if again then (case handoff of None \<Rightarrow> Inl (AttributeError ''run_id'') | Some h \<Rightarrow> require_retry_family_clear (ho_run h) True False d)
          else Inr ()) (\<lambda>_.
        and_then (expected_mail io s m handoff cfg smtp sender (sm_message a) again d) (\<lambda>(mime, recipients).
        check (mime = sm_mime a \<and> pyeq (JDict (sm_envelope a)) (JDict (mail_envelope smtp recipients
            (if map_of (sm_envelope a) ''sender_profile_id'' = None then None else Some sender))))
          (DeliveryError ''snapshot differs''))))
     else check (dget (sm_envelope a) ''test'' = JBool True \<or> is_diagnostic a) (DeliveryError ''not an explicit test''))"

definition sender_text :: "json \<Rightarrow> string" where
  "sender_text v = (case v of JStr x \<Rightarrow> x | _ \<Rightarrow> [])"

definition prepare_job :: "mail_io \<Rightarrow> mail_settings \<Rightarrow> moment \<Rightarrow> smtp_row \<Rightarrow> bool \<Rightarrow> bool \<Rightarrow> db \<Rightarrow> smtp_settings res" where
  "prepare_job io s m a again revision d =
     and_then (io_config io m) (\<lambda>cfg. let sender = get_or (sm_envelope a) ''sender_profile_id'' (JStr ''default'') in
     and_then (get_sender cfg sender) (\<lambda>smtp.
     and_then (if is_diagnostic a then validate_smtp (io_addr_ok io) False smtp
       else require_live (io_addr_ok io) (set_kill_switch s) cfg sender) (\<lambda>_.
     and_then (if revision then Inr () else and_then (delivery_revision (io_sha io) cfg (sender_text sender) (Some d)) (\<lambda>v.
       check (sm_config a = v) (DeliveryError ''configuration changed''))) (\<lambda>_.
     and_then (check (io_sha io (sm_mime a) = sm_mime_sha a) (DeliveryError ''snapshot hash'')) (\<lambda>_.
     and_then (check (length (sm_mime a) \<le> ms_max_bytes s) (DeliveryError ''message size'')) (\<lambda>_.
     and_then (snapshot_checked io s m a cfg smtp again d) (\<lambda>_.
     and_then (if is_diagnostic a then Inr () else envelope_checked io (sm_envelope a)) (\<lambda>_. Inr smtp))))))))"

section \<open>The exchange\<close>

definition exception_of :: "err \<Rightarrow> exc list" where
  "exception_of er = (case er of DeliveryError _ \<Rightarrow> [delivery_error]
     | ValueError _ \<Rightarrow> [\<lparr>ex_class = ''ValueError'', ex_errno = None, ex_code = None\<rparr>]
     | TypeError _ \<Rightarrow> [\<lparr>ex_class = ''TypeError'', ex_errno = None, ex_code = None\<rparr>]
     | OSError _ \<Rightarrow> [\<lparr>ex_class = ''OSError'', ex_errno = None, ex_code = None\<rparr>]
     | _ \<Rightarrow> [\<lparr>ex_class = ''Exception'', ex_errno = None, ex_code = None\<rparr>])"

definition progress_json :: "progress \<Rightarrow> json" where
  "progress_json p = JDict [(''schema_version'', JInt 1), (''stage'', JStr (pg_stage p)), (''body_started'', JBool (pg_body_started p)),
     (''body_completed'', JBool (pg_body_completed p)), (''final_reply_received'', JBool (pg_final_reply p)),
     (''mime_bytes'', JInt (int (pg_mime_bytes p))), (''wire_bytes'', JInt (int (pg_wire_bytes p))),
     (''body_bytes_confirmed'', JInt (int (pg_confirmed p)))]"

definition connecting :: "string \<Rightarrow> progress" where
  "connecting stage = \<lparr>pg_stage = stage, pg_body_started = False, pg_body_completed = False, pg_final_reply = False,
     pg_mime_bytes = 0, pg_wire_bytes = 0, pg_confirmed = 0\<rparr>"

text \<open>The state of an exchange: the store, and \<open>data_started\<close>.\<close>

type_synonym exchange = "db \<times> bool"

definition on_stage :: "mail_io \<Rightarrow> smtp_row \<Rightarrow> progress \<Rightarrow> exchange \<Rightarrow> exc list option \<times> exchange" where
  "on_stage io a p x = (case x of (d, b) \<Rightarrow>
     let m = Stage (pg_stage p); d1 = io_other io m d
     in (case record_stage (io_env io m) (sm_job a) (io_token io) (progress_json p) d1 of
           Inl er \<Rightarrow> (Some (exception_of er), (d1, b)) | Inr (_, d2) \<Rightarrow> (None, (d2, b))))"

definition past_expiry :: "smtp_row \<Rightarrow> int \<Rightarrow> bool" where
  "past_expiry a t = (case sm_expires a of None \<Rightarrow> False | Some x \<Rightarrow> x \<le> t)"

text \<open>After the 354 reply: content, policy and cancellation are read once more, then a transaction of its own gives
  the permission; another process may commit in between.\<close>

definition before_body :: "mail_io \<Rightarrow> mail_settings \<Rightarrow> smtp_row \<Rightarrow> exchange \<Rightarrow> exc list option \<times> exchange" where
  "before_body io s a x = (case x of (d, b) \<Rightarrow>
     let d1 = io_other io Body d
     in if past_expiry a (now (io_env io Body)) then (Some [delivery_error], (d1, b))
        else (case prepare_job io s Body a False False d1 of
           Inl er \<Rightarrow> (Some (exception_of er), (d1, b))
         | Inr _ \<Rightarrow> let d2 = io_other io Permitting d1 in
             (case start_data (io_env io Permitting) (io_sha io) (sm_job a) (io_token io) (set_production s) d2 of
                Inl er \<Rightarrow> (Some (exception_of er), (d2, b)) | Inr (_, d3) \<Rightarrow> (None, (d3, True)))))"

definition mail_callbacks :: "mail_io \<Rightarrow> mail_settings \<Rightarrow> smtp_row \<Rightarrow> exchange callbacks" where
  "mail_callbacks io s a = \<lparr>cb_stage = on_stage io a, cb_body = before_body io s a\<rparr>"

text \<open>The steps of \<open>_connect\<close>: a stage to announce, or an exchange with the server.\<close>

datatype connect_step = Observe string | Perform "exc list option"

definition connect_steps :: "connection \<Rightarrow> smtp_settings \<Rightarrow> connect_step list" where
  "connect_steps c smtp = Observe ''connect'' # Perform (cn_open c)
     # (if truthy (st_use_ssl smtp) then []
        else [Observe ''greeting'', Perform (cn_ehlo c), Observe ''tls'', Perform (cn_starttls c)])
     @ [Observe ''greeting'', Perform (cn_ehlo_again c)]
     @ (if truthy (st_username smtp) then [Observe ''auth'', Perform (if truthy (st_password smtp) then cn_login c else Some [delivery_error]),
          Observe ''auth''] else [Observe ''greeting''])"

fun perform :: "(progress \<Rightarrow> 's \<Rightarrow> exc list option \<times> 's) \<Rightarrow> string \<Rightarrow> connect_step list \<Rightarrow> 's \<Rightarrow> (exc list \<times> string) option \<times> 's" where
  "perform f stage [] s = (None, s)"
| "perform f stage (Observe name # xs) s = (case f (connecting name) s of
     (Some x, s1) \<Rightarrow> (Some (x, name), s1) | (None, s1) \<Rightarrow> perform f name xs s1)"
| "perform f stage (Perform (Some x) # xs) s = (Some (x, stage), s)"
| "perform f stage (Perform None # xs) s = perform f stage xs s"

text \<open>A failure is observed once more before it is raised, whatever the observer does.\<close>

definition connect_server :: "mail_io \<Rightarrow> (progress \<Rightarrow> 's \<Rightarrow> exc list option \<times> 's) \<Rightarrow> smtp_settings \<Rightarrow> 's \<Rightarrow> (exc list \<times> string) option \<times> 's" where
  "connect_server io f smtp s = (case validate_smtp (io_addr_ok io) False smtp of
     Inl er \<Rightarrow> (Some (exception_of er, ''connect''), s)
   | Inr _ \<Rightarrow> (case perform f ''connect'' (connect_steps (io_connection io) smtp) s of
       (Some (x, stage), s1) \<Rightarrow> (Some (x, stage), snd (f (connecting stage) s1)) | (None, s1) \<Rightarrow> (None, s1)))"

definition row_envelope :: "smtp_row \<Rightarrow> envelope" where
  "row_envelope a = \<lparr>en_sender = dget (sm_envelope a) ''sender'', en_recipients = dget (sm_envelope a) ''recipients''\<rparr>"

definition submit :: "mail_io \<Rightarrow> mail_settings \<Rightarrow> smtp_row \<Rightarrow> smtp_settings \<Rightarrow> exchange \<Rightarrow> exchange_result \<times> exchange \<times> string option" where
  "submit io s a smtp x = (case on_stage io a (connecting ''connect'') x of
     (Some err, x1) \<Rightarrow> (failure_result err (connecting ''connect'') (snd x1), x1, None)
   | (None, x1) \<Rightarrow> (case connect_server io (on_stage io a) smtp x1 of
       (Some (err, stage), x2) \<Rightarrow> (failure_result err (connecting stage) (snd x2), x2, None)
     | (None, x2) \<Rightarrow> send_message (io_addr_ok io) (mail_callbacks io s a) (io_server io) smtp (sm_mime a) (row_envelope a) x2))"

section \<open>Completion\<close>

definition exchange_state :: "exchange_status \<Rightarrow> smtp_state" where
  "exchange_state x = (case x of XAccepted \<Rightarrow> SAccepted | XFailed \<Rightarrow> SFailed | XUncertain \<Rightarrow> SUncertain)"

definition failure_json :: "failure_details \<Rightarrow> dict" where
  "failure_json f = [(''exception_class'', JStr (fd_class f)), (''cause_classes'', JList (map JStr (fd_causes f)))]
     @ (case fd_errno f of None \<Rightarrow> [] | Some n \<Rightarrow> [(''errno'', JInt n)]) @ [(''timed_out'', JBool (fd_timed_out f))]"

definition diagnostics_json :: "exchange_result \<Rightarrow> json" where
  "diagnostics_json x = (case progress_json (xr_progress x) of
     JDict v \<Rightarrow> JDict (v @ (case xr_failure x of None \<Rightarrow> [] | Some f \<Rightarrow> failure_json f)) | v \<Rightarrow> v)"

definition smtp_result_of :: "exchange_result \<Rightarrow> smtp_result" where
  "smtp_result_of x = \<lparr>rs_status = exchange_state (xr_status x), rs_error = xr_error x, rs_reply = map_option int_text (xr_reply x),
     rs_code = xr_code x, rs_retryable = xr_retryable x, rs_diagnostics = Some (diagnostics_json x)\<rparr>"

definition unreconciled :: "exchange_result \<Rightarrow> smtp_result" where
  "unreconciled x = (smtp_result_of x)\<lparr>rs_status := SUncertain,
     rs_error := Some ''SMTP exchange completed but local result reconciliation failed'',
     rs_code := Some ''smtp_reconciliation_failed'', rs_retryable := False\<rparr>"

type_synonym dispatched = "(bool \<times> receipt_row option) res \<times> db"

definition finish_at :: "mail_io \<Rightarrow> moment \<Rightarrow> smtp_row \<Rightarrow> smtp_result \<Rightarrow> retry_policy option \<Rightarrow> db \<Rightarrow> (receipt_row option \<times> db) res" where
  "finish_at io m a res policy d = finish (io_env io m) (io_sha io) (io_fresh io) (sm_job a) (Some (io_token io)) res policy d"

text \<open>The result of the exchange is stored; after the DATA permission a failure of that is
  stored as uncertainty.\<close>

definition complete :: "mail_io \<Rightarrow> mail_settings \<Rightarrow> smtp_row \<Rightarrow> exchange_result \<Rightarrow> exchange \<Rightarrow> dispatched" where
  "complete io s a x st = (case st of (d, b) \<Rightarrow> let d1 = io_other io Settling d in
     (case finish_at io Settling a (smtp_result_of x) (Some (ms_policy s)) d1 of
        Inr (receipt, d2) \<Rightarrow> (Inr (xr_status x = XAccepted, receipt), d2)
      | Inl er \<Rightarrow> if \<not> b then (Inl er, d1)
          else (let d3 = io_other io Reconciling d1 in
            (case finish_at io Reconciling a (unreconciled x) None d3 of
               Inr (receipt, d4) \<Rightarrow> (Inr (False, receipt), d4) | Inl er' \<Rightarrow> (Inl er', d3)))))"

text \<open>An attempt that ends before any submission.\<close>

definition preflight_failure :: "string \<Rightarrow> string \<Rightarrow> smtp_result" where
  "preflight_failure message code = \<lparr>rs_status = SFailed, rs_error = Some message, rs_reply = None, rs_code = Some code,
     rs_retryable = False, rs_diagnostics = Some (JDict [(''schema_version'', JInt 1), (''stage'', JStr ''preflight''), (''body_started'', JBool False)])\<rparr>"

definition claim_job :: "mail_io \<Rightarrow> smtp_row \<Rightarrow> db \<Rightarrow> string option \<times> db" where
  "claim_job io a d = claim (io_env io Claiming) (io_sha io) (io_token io) (io_pid io) (sm_job a) False (io_other io Claiming d)"

definition retire_job :: "mail_io \<Rightarrow> smtp_row \<Rightarrow> smtp_result \<Rightarrow> db \<Rightarrow> dispatched" where
  "retire_job io a res d = (case claim_job io a d of
     (None, d1) \<Rightarrow> (Inr (False, None), d1)
   | (Some _, d1) \<Rightarrow> let d2 = io_other io Settling d1 in (case finish_at io Settling a res None d2 of
       Inl er \<Rightarrow> (Inl er, d2) | Inr (receipt, d3) \<Rightarrow> (Inr (False, receipt), d3)))"

definition connection_result :: "bool \<Rightarrow> smtp_result" where
  "connection_result ok = \<lparr>rs_status = (if ok then SConnectionOk else SFailed),
     rs_error = (if ok then None else Some ''SMTP diagnostic failed''), rs_reply = None, rs_code = None, rs_retryable = False,
     rs_diagnostics = None\<rparr>"

definition connection_job :: "mail_io \<Rightarrow> smtp_row \<Rightarrow> smtp_settings \<Rightarrow> db \<Rightarrow> dispatched" where
  "connection_job io a smtp d =
     (let silent = (\<lambda>p x. (None, x)); ok = (fst (connect_server io silent smtp ()) = None \<and> positive (cn_noop (io_connection io)));
          d1 = io_other io Settling d
      in (case finish_at io Settling a (connection_result ok) None d1 of
            Inl er \<Rightarrow> (Inl er, d1) | Inr (_, d2) \<Rightarrow> (Inr (ok, None), d2)))"

text \<open>One job. The last component holds the bytes that were handed to the server.\<close>

definition dispatch_job :: "mail_io \<Rightarrow> mail_settings \<Rightarrow> string \<Rightarrow> db \<Rightarrow> dispatched \<times> string option" where
  "dispatch_job io s job d = (case find_job job d of
     None \<Rightarrow> ((Inr (False, None), d), None)
   | Some a \<Rightarrow>
       if sm_status a \<noteq> SQueued then ((Inr (False, None), d), None)
       else if past_expiry a (now (io_env io Preflight)) then
         (retire_job io a (preflight_failure ''Automatic email retry expired before submission'' ''smtp_retry_expired'') d, None)
       else (case prepare_job io s Preflight a False False d of
           Inl er \<Rightarrow> if is_delivery er \<and> default [] (sm_parent a) \<noteq> [] then
               (retire_job io a (preflight_failure ''Email retry blocked by current settings or snapshot validation''
                  ''smtp_retry_preflight_rejected'') d, None)
             else ((Inl er, d), None)
         | Inr smtp \<Rightarrow> (case claim_job io a d of
             (None, d1) \<Rightarrow> ((Inr (False, None), d1), None)
           | (Some _, d1) \<Rightarrow> if is_diagnostic a then (connection_job io a smtp d1, None)
               else (case submit io s a smtp (d1, False) of (x, st, sent) \<Rightarrow> (complete io s a x st, sent)))))"

section \<open>Queueing\<close>

definition message_id :: "mail_io \<Rightarrow> handoff_row \<Rightarrow> string" where
  "message_id io h = ''<ro-'' @ io_sha io (ho_key h) @ ''@researchops.local>''"

text \<open>A job queued before sender profiles existed keeps its envelope without one.\<close>

definition legacy_job :: "string \<Rightarrow> json \<Rightarrow> db \<Rightarrow> bool" where
  "legacy_job job sender d = (sender = JStr ''default'' \<and> (case find_job job d of None \<Rightarrow> False
     | Some a \<Rightarrow> map_of (sm_envelope a) ''sender_profile_id'' = None))"

definition enqueue_handoff :: "mail_io \<Rightarrow> mail_settings \<Rightarrow> string \<Rightarrow> db \<Rightarrow> (unit \<times> db) res" where
  "enqueue_handoff io s i d =
     and_then (io_config io Preflight) (\<lambda>cfg. let handoff = find_handoff i d in
     and_then (check_handoff io s Preflight handoff cfg False d) (\<lambda>(request, files). case handoff of None \<Rightarrow> Inl (AttributeError ''task_id'') | Some h \<Rightarrow>
     and_then (sender_for_task_version (ho_task h) (ho_version h) d) (\<lambda>sender.
     and_then (recipient_visibility_for_task_version (ho_task h) (ho_version h) d) (\<lambda>visibility.
     and_then (get_sender cfg sender) (\<lambda>smtp.
     and_then (group_addresses cfg (ho_group h)) (\<lambda>recipients.
     and_then (io_mime io request files smtp recipients (message_id io h) visibility) (\<lambda>mime.
     and_then (check (length mime \<le> ms_max_bytes s) (DeliveryError ''message size'')) (\<lambda>_.
     and_then (delivery_revision (io_sha io) cfg (sender_text sender) (Some d)) (\<lambda>revision.
       enqueue (io_env io Preflight) (io_sha io) i (Some i) (message_id io h) mime
         (mail_envelope smtp recipients (if legacy_job i sender d then None else Some sender)) revision d)))))))))"

text \<open>\<open>test_connection\<close> and \<open>send_test_email\<close>; every exception becomes a refusal.\<close>

definition test_connection :: "mail_io \<Rightarrow> smtp_settings option \<Rightarrow> json \<Rightarrow> db \<Rightarrow> (unit \<times> db) res" where
  "test_connection io given sender d = (let job = ''smtp-check-'' @ io_fresh io in
     and_then (io_config io Preflight) (\<lambda>cfg. and_then (get_sender cfg sender) (\<lambda>smtp.
     and_then (check (given = None \<or> given = Some smtp) (DeliveryError ''save settings first'')) (\<lambda>_.
     and_then (validate_smtp (io_addr_ok io) False smtp) (\<lambda>_.
     and_then (delivery_revision (io_sha io) cfg (sender_text sender) (Some d)) (\<lambda>revision.
       enqueue (io_env io Preflight) (io_sha io) job None (''<'' @ job @ ''@researchops.local>'') []
         [(''connection_test'', JBool True), (''sender_profile_id'', sender)] revision d))))))"

definition send_test_email :: "mail_io \<Rightarrow> mail_settings \<Rightarrow> json \<Rightarrow> smtp_settings option \<Rightarrow> json \<Rightarrow> (dict \<times> (string \<times> string) list) \<Rightarrow> db \<Rightarrow> (unit \<times> db) res" where
  "send_test_email io s address given sender content d =
     (let job = ''smtp-test-'' @ io_fresh io; message = ''<'' @ job @ ''@researchops.local>'' in
     and_then (validate_address (io_addr_ok io) address) (\<lambda>_.
     and_then (io_config io Preflight) (\<lambda>cfg. and_then (require_live (io_addr_ok io) (set_kill_switch s) cfg sender) (\<lambda>_.
     and_then (get_sender cfg sender) (\<lambda>smtp.
     and_then (check (given = None \<or> given = Some smtp) (DeliveryError ''save settings first'')) (\<lambda>_.
     and_then (io_mime io (fst content) (snd content) smtp (JList [address]) message ''to'') (\<lambda>mime.
     and_then (delivery_revision (io_sha io) cfg (sender_text sender) (Some d)) (\<lambda>revision.
       enqueue (io_env io Preflight) (io_sha io) job None message mime
         [(''sender'', sender_address smtp), (''recipients'', JList [address]), (''test'', JBool True), (''sender_profile_id'', sender)]
         revision d))))))))"

section \<open>Manual retries\<close>

record retry_view =
  rv_eligible :: bool
  rv_uncertain :: bool
  rv_can_retry_uncertain :: bool
  rv_can_republish :: bool
  rv_blocked :: string
  rv_attempts :: "smtp_row list"
  rv_next :: "int option"

definition blocked_view :: "smtp_row list \<Rightarrow> bool \<Rightarrow> string \<Rightarrow> retry_view" where
  "blocked_view attempts republish reason = \<lparr>rv_eligible = False, rv_uncertain = False, rv_can_retry_uncertain = False,
     rv_can_republish = republish, rv_blocked = reason, rv_attempts = attempts, rv_next = None\<rparr>"

definition due_at_once :: "smtp_row \<Rightarrow> int \<Rightarrow> bool" where
  "due_at_once a t = (default [] (sm_parent a) = [] \<or> (case sm_next a of None \<Rightarrow> True | Some n \<Rightarrow> n \<le> t))"

definition attempted_view :: "mail_io \<Rightarrow> mail_settings \<Rightarrow> handoff_row \<Rightarrow> smtp_row list \<Rightarrow> smtp_row \<Rightarrow> db \<Rightarrow> retry_view" where
  "attempted_view io s h attempts job d =
     (let accepted = list_ex (\<lambda>a. sm_status a = SAccepted) attempts;
          uncertain = list_ex (\<lambda>a. sm_status a = SUncertain) attempts \<and> \<not> accepted;
          v = (blocked_view attempts False [])\<lparr>rv_uncertain := uncertain, rv_next := (if sm_status job = SQueued then sm_next job else None)\<rparr>
      in if accepted then v\<lparr>rv_blocked := ''already accepted''\<rparr>
         else if sm_status job = SSending then v\<lparr>rv_blocked := ''transmission in progress''\<rparr>
         else if sm_status job = SQueued \<and> due_at_once job (now (io_env io Preflight)) then v\<lparr>rv_blocked := ''queued for immediate dispatch''\<rparr>
         else if ho_type h = ''system_alert'' then v\<lparr>rv_blocked := ''system alert''\<rparr>
         else if isl (prepare_job io s Preflight job True True d) then v\<lparr>rv_blocked := ''snapshot not verified''\<rparr>
         else if uncertain then v\<lparr>rv_can_retry_uncertain := True, rv_blocked := ''uncertain''\<rparr>
         else v\<lparr>rv_eligible := True\<rparr>)"

definition retry_status :: "mail_io \<Rightarrow> mail_settings \<Rightarrow> string \<Rightarrow> db \<Rightarrow> retry_view" where
  "retry_status io s i d = (let attempts = history i d in case find_handoff i d of
     None \<Rightarrow> blocked_view attempts False ''handoff not found''
   | Some h \<Rightarrow> (case latest i d of
       None \<Rightarrow> blocked_view attempts (ho_status h = ''published'' \<and> (case io_config io Preflight of Inl er \<Rightarrow> False
           | Inr cfg \<Rightarrow> \<not> isl (check_handoff io s Preflight (Some h) cfg False d))) ''no attempt exists''
     | Some job \<Rightarrow> attempted_view io s h attempts job d))"

definition key_ok :: "string \<Rightarrow> bool" where
  "key_ok key = (1 \<le> length key \<and> length key \<le> 128 \<and> list_all (\<lambda>c. 33 \<le> (of_char c :: nat)) key)"

definition retry_request :: "string \<Rightarrow> bool \<Rightarrow> string \<Rightarrow> dict" where
  "retry_request i allow reason = [(''handoff_id'', JStr i), (''mode'', JStr ''manual''), (''allow_uncertain'', JBool allow), (''reason'', JStr reason)]"

text \<open>A queued retry whose settings changed is retired before the new attempt is added.\<close>

definition retire_changed :: "mail_io \<Rightarrow> smtp_row \<Rightarrow> string \<Rightarrow> db \<Rightarrow> unit res \<times> db" where
  "retire_changed io job revision d =
     (if sm_status job \<noteq> SQueued \<or> sm_config job = revision then (Inr (), d)
      else (case claim (io_env io Claiming) (io_sha io) (io_token io) (io_pid io) (sm_job job) True d of
          (None, d1) \<Rightarrow> (Inl (DeliveryError ''transmission state changed''), d1)
        | (Some t, d1) \<Rightarrow> (case finish_at io Settling job (preflight_failure ''Queued retry superseded by current SMTP settings''
              ''smtp_retry_settings_changed'') None d1 of Inl er \<Rightarrow> (Inl er, d1) | Inr (r, d2) \<Rightarrow> (Inr (), d2))))"

definition retry_attempted :: "mail_io \<Rightarrow> mail_settings \<Rightarrow> string \<Rightarrow> string \<Rightarrow> dict \<Rightarrow> bool \<Rightarrow> db \<Rightarrow> smtp_row res \<times> db" where
  "retry_attempted io s i key request allow d = (case latest i d of None \<Rightarrow> (Inl (TypeError ''row''), d) | Some job \<Rightarrow>
     (case and_then (prepare_job io s Preflight job True True d) (\<lambda>_. and_then (io_config io Preflight) (\<lambda>cfg.
         delivery_revision (io_sha io) cfg (sender_text (get_or (sm_envelope job) ''sender_profile_id'' (JStr ''default''))) (Some d))) of
        Inl er \<Rightarrow> (Inl er, d)
      | Inr revision \<Rightarrow> (case retire_changed io job revision d of
          (Inl er, d1) \<Rightarrow> (Inl er, d1)
        | (Inr _, d1) \<Rightarrow> (case retry (io_env io Preflight) (io_sha io) (io_fresh io) (sm_job job) key request revision allow d1 of
            Inl er \<Rightarrow> (Inl er, d1) | Inr (a, d2) \<Rightarrow> (Inr a, d2)))))"

definition retry_email :: "mail_io \<Rightarrow> mail_settings \<Rightarrow> string \<Rightarrow> string \<Rightarrow> bool \<Rightarrow> string \<Rightarrow> db \<Rightarrow> smtp_row res \<times> db" where
  "retry_email io s i key allow reason d =
     (if \<not> key_ok key then (Inl (DeliveryError ''retry request key''), d)
      else if 500 < length reason then (Inl (DeliveryError ''acknowledgement''), d)
      else let r = strip reason; request = retry_request i allow r in
        if allow \<and> r = [] then (Inl (DeliveryError ''explain the acknowledgement''), d)
        else (case requested key request d of
            Inl er \<Rightarrow> (Inl er, d)
          | Inr (Some a) \<Rightarrow> (Inr a, d)
          | Inr None \<Rightarrow> let v = retry_status io s i d in
              if \<not> rv_eligible v \<and> \<not> (rv_can_retry_uncertain v \<and> allow) then (Inl (DeliveryError (rv_blocked v)), d)
              else retry_attempted io s i key request allow d))"

section \<open>The dispatch loop\<close>

text \<open>\<open>dispatch_handoff\<close> and one round of \<open>dispatch_all_pending\<close>; every job has its own
  surroundings, and the last component lists what was handed to the server, by job.\<close>

definition dispatch_handoff :: "mail_io \<Rightarrow> mail_settings \<Rightarrow> string \<Rightarrow> db \<Rightarrow> dispatched \<times> string option" where
  "dispatch_handoff io s i d = (case latest i d of
     Some a \<Rightarrow> if sm_status a \<noteq> SQueued then ((Inr (False, None), d), None) else dispatch_job io s (sm_job a) d
   | None \<Rightarrow> (case enqueue_handoff io s i d of Inl er \<Rightarrow> ((Inr (False, None), d), None) | Inr (_, d1) \<Rightarrow> dispatch_job io s i d1))"

fun enqueue_published :: "(string \<Rightarrow> mail_io) \<Rightarrow> mail_settings \<Rightarrow> handoff_row list \<Rightarrow> db \<Rightarrow> string list \<times> db" where
  "enqueue_published ios s [] d = ([], d)"
| "enqueue_published ios s (h # hs) d = (if find_job (ho_id h) d \<noteq> None then enqueue_published ios s hs d
     else (case enqueue_handoff (ios (ho_id h)) s (ho_id h) d of
         Inl er \<Rightarrow> (case enqueue_published ios s hs d of (refused, d1) \<Rightarrow> (ho_id h # refused, d1))
       | Inr (_, d1) \<Rightarrow> enqueue_published ios s hs d1))"

fun dispatch_jobs :: "(string \<Rightarrow> mail_io) \<Rightarrow> mail_settings \<Rightarrow> string list \<Rightarrow> db \<Rightarrow> (string \<times> bool) list \<times> db \<times> (string \<times> string) list" where
  "dispatch_jobs ios s [] d = ([], d, [])"
| "dispatch_jobs ios s (job # jobs) d = (case dispatch_job (ios job) s job d of ((r, d1), sent) \<Rightarrow>
     (case dispatch_jobs ios s jobs d1 of (rs, d2, ws) \<Rightarrow>
        ((job, case r of Inl er \<Rightarrow> False | Inr (ok, _) \<Rightarrow> ok) # rs, d2, (case sent of None \<Rightarrow> ws | Some w \<Rightarrow> (job, w) # ws))))"

definition dispatch_all_pending :: "env \<Rightarrow> (string \<Rightarrow> string) \<Rightarrow> (int \<Rightarrow> bool) \<Rightarrow> (string \<Rightarrow> mail_io) \<Rightarrow> mail_settings \<Rightarrow> db \<Rightarrow>
    (string \<times> bool) list res \<times> db \<times> (string \<times> string) list" where
  "dispatch_all_pending e sha gone ios s d = (case recover_interrupted e sha gone d of
     (Inl er, d1) \<Rightarrow> (Inl er, d1, [])
   | (Inr _, d1) \<Rightarrow> (case enqueue_published ios s (list_handoffs None (Some ''published'') d1) d1 of (refused, d2) \<Rightarrow>
       (case dispatch_jobs ios s (map sm_job (pending_jobs (now e) d2)) d2 of (rs, d3, ws) \<Rightarrow>
         (Inr (map (\<lambda>i. (i, False)) refused @ rs), d3, ws))))"

section \<open>The claim is held throughout\<close>

text \<open>
  What is relied on of the other processes: they take steps of the abstract queue, and leave the
  attempt alone that this dispatcher is sending.
\<close>

definition disciplined :: "mail_io \<Rightarrow> bool" where
  "disciplined io = (\<forall>m d. queue_step\<^sup>*\<^sup>* (db_smtp d) (db_smtp (io_other io m d)) \<and>
     (\<forall>a \<in> set (db_smtp d). sm_token a = Some (io_token io) \<and> sm_status a = SSending \<longrightarrow> a \<in> set (db_smtp (io_other io m d))))"

definition holding :: "mail_io \<Rightarrow> smtp_row list \<Rightarrow> smtp_row \<Rightarrow> smtp_phase \<Rightarrow> db \<Rightarrow> bool" where
  "holding io t a ph d = (queue_step\<^sup>*\<^sup>* t (db_smtp d) \<and> queue_ok (db_smtp d) \<and> (\<exists>r. find_job (sm_job a) d = Some r \<and> sm_status r = SSending
     \<and> sm_token r = Some (io_token io) \<and> same_attempt a r \<and> sm_phase r = ph))"

text \<open>The content, the policy and the cancellation were checked, and then the DATA permission given, each in a store
  that another process may have changed just before.\<close>

definition permitted :: "mail_io \<Rightarrow> mail_settings \<Rightarrow> smtp_row \<Rightarrow> bool" where
  "permitted io s a = (\<exists>t d0 d1 d2 r smtp. d1 = io_other io Body d0 \<and> d2 = io_other io Permitting d1
     \<and> holding io t a Prepared d1 \<and> prepare_job io s Body a False False d1 = Inr smtp
     \<and> holding io t a Prepared d2 \<and> find_job (sm_job a) d2 = Some r \<and> data_permission (io_sha io) r (set_production s) d2 = Inr ())"

lemma find_job_row: "queue_ok (db_smtp d) \<Longrightarrow> r \<in> set (db_smtp d) \<Longrightarrow> find_job (sm_job r) d = Some r"
  unfolding find_job_def queue_ok_def by (rule sel1_unique) (auto dest: distinct_map_same)

lemma disciplined_ok: "disciplined io \<Longrightarrow> queue_ok (db_smtp d) \<Longrightarrow>
    queue_ok (db_smtp (io_other io m d)) \<and> queue_le (db_smtp d) (db_smtp (io_other io m d))"
  by (rule queue_steps_ok) (simp_all add: disciplined_def)

lemma holding_other:
  assumes "disciplined io" "holding io t a ph d"
  shows "holding io t a ph (io_other io m d)"
proof -
  from assms(2) obtain r where ok: "queue_ok (db_smtp d)" "queue_step\<^sup>*\<^sup>* t (db_smtp d)"
    and r: "find_job (sm_job a) d = Some r" "sm_status r = SSending" "sm_token r = Some (io_token io)" "same_attempt a r" "sm_phase r = ph"
    by (auto simp: holding_def)
  have "queue_step\<^sup>*\<^sup>* t (db_smtp (io_other io m d))" using ok(2) assms(1) by (simp add: disciplined_def) (meson rtranclp_trans)
  moreover from assms(1) r find_job_mem [OF r(1)] have "r \<in> set (db_smtp (io_other io m d))" by (simp add: disciplined_def)
  with find_job_row disciplined_ok [OF assms(1) ok(1)] find_job_mem [OF r(1)] have "find_job (sm_job a) (io_other io m d) = Some r"
    by metis
  ultimately show ?thesis using r disciplined_ok [OF assms(1) ok(1)] unfolding holding_def by blast
qed

text \<open>An update of the attempts held under the token keeps the claim.\<close>

lemma holding_upd:
  assumes "holding io t a ph d" "queue_step\<^sup>*\<^sup>* (db_smtp d) (db_smtp d')" "db_smtp d' = upd p f (db_smtp d)"
    and keep: "\<And>r. same_attempt a r \<Longrightarrow> sm_token r = Some (io_token io) \<Longrightarrow> sm_status r = SSending \<Longrightarrow> sm_phase r = ph \<Longrightarrow>
      same_attempt a (if p r then f r else r) \<and> sm_token (if p r then f r else r) = Some (io_token io)
      \<and> sm_status (if p r then f r else r) = SSending \<and> sm_phase (if p r then f r else r) = ph'"
  shows "holding io t a ph' d'"
proof -
  from assms(1) obtain r where ok: "queue_ok (db_smtp d)" and st: "queue_step\<^sup>*\<^sup>* t (db_smtp d)"
    and r: "find_job (sm_job a) d = Some r" "same_attempt a r" "sm_token r = Some (io_token io)" "sm_status r = SSending" "sm_phase r = ph"
    by (auto simp: holding_def)
  from st assms(2) have "queue_step\<^sup>*\<^sup>* t (db_smtp d')" by (rule rtranclp_trans)
  moreover let ?r = "if p r then f r else r"
  note k = keep [OF r(2-5)]
  from queue_steps_ok [OF assms(2) ok] have ok': "queue_ok (db_smtp d')" by blast
  from find_job_mem [OF r(1)] have "?r \<in> set (db_smtp d')" unfolding assms(3) by (simp add: set_upd) blast
  from find_job_row [OF ok' this] k have "find_job (sm_job a) d' = Some ?r" by (simp only: same_attempt_def)
  ultimately show ?thesis using ok' k unfolding holding_def by blast
qed

lemma record_stage_holds:
  assumes "holding io t a ph d" "record_stage e (sm_job a) (io_token io) v d = Inr (u, d')"
  shows "holding io t a ph d'"
proof -
  from assms(2) have "db_smtp d' = upd (owned (sm_job a) (io_token io)) (\<lambda>a. a\<lparr>sm_diagnostics := Some v, sm_updated := now e\<rparr>) (db_smtp d)"
    by (auto simp: record_stage_def split: if_splits)
  from holding_upd [OF assms(1) record_stage_step [OF assms(2)] this] show ?thesis by (simp add: same_attempt_def)
qed

lemma start_data_holds:
  assumes "holding io t a Prepared d" "start_data e sha (sm_job a) (io_token io) production d = Inr (u, d')"
  shows "holding io t a DataStarted d'"
proof -
  from assms(2) have "db_smtp d' = upd (\<lambda>x. owned (sm_job a) (io_token io) x \<and> sm_phase x = Prepared)
      (\<lambda>a. a\<lparr>sm_phase := DataStarted, sm_updated := now e\<rparr>) (db_smtp d)"
    by (auto simp: start_data_def and_then_Inr Let_def split: if_splits)
  from holding_upd [OF assms(1) start_data_step [OF assms(2)] this] show ?thesis by (auto simp: same_attempt_def owned_def)
qed

lemma start_data_permission:
  "start_data e sha job token production d = Inr (u, d') \<Longrightarrow> find_job job d = Some r \<Longrightarrow> data_permission sha r production d = Inr ()"
  by (auto simp: start_data_def and_then_Inr Let_def split: if_splits)

lemma claim_holds:
  assumes "disciplined io" "queue_ok (db_smtp d)" "find_job (sm_job a) d = Some a" "claim_job io a d = (Some token, d')"
  shows "holding io (db_smtp d) a Prepared d'"
proof -
  let ?d = "io_other io Claiming d" and ?e = "io_env io Claiming"
  let ?f = "claimed_by (io_token io) (io_pid io) (now ?e)"
  from disciplined_ok [OF assms(1,2)] have ok: "queue_ok (db_smtp ?d)" and le: "queue_le (db_smtp d) (db_smtp ?d)" by blast+
  from assms(4) obtain b where b: "b \<in> set (db_smtp ?d)" "claimable (sm_job a) False (now ?e) b"
    and d': "db_smtp d' = upd (claimable (sm_job a) False (now ?e)) ?f (db_smtp ?d)"
    by (auto simp: claim_job_def claim_def some_row_iff split: if_splits)
  note cs = claim_step [OF assms(4) [unfolded claim_job_def]]
  from queue_steps_ok [OF cs ok] have ok': "queue_ok (db_smtp d')" by blast
  have steps: "queue_step\<^sup>*\<^sup>* (db_smtp d) (db_smtp d')" using assms(1) cs unfolding disciplined_def by (meson rtranclp_trans)
  from find_job_mem [OF assms(3)] le obtain c where c: "c \<in> set (db_smtp ?d)" "attempt_moves a c"
    by (meson extends_mem queue_le_def)
  with b have "c = b" using job_row [OF ok] by (simp add: claimable_def attempt_moves_def same_attempt_def)
  with c have same: "same_attempt a b" by (simp add: attempt_moves_def)
  have ph: "sm_phase b = Prepared" using ok b by (auto simp: queue_ok_def list_all_iff phase_fits_def claimable_def)
  have "?f b \<in> set (db_smtp d')" unfolding d' set_upd using b by blast
  from find_job_row [OF ok' this] same have "find_job (sm_job a) d' = Some (?f b)" by (simp add: claimed_by_def same_attempt_def)
  with ok' same ph steps show ?thesis by (auto simp: holding_def claimed_by_def same_attempt_def)
qed

section \<open>The exchange keeps the contract\<close>

definition held :: "mail_io \<Rightarrow> mail_settings \<Rightarrow> smtp_row list \<Rightarrow> smtp_row \<Rightarrow> bool \<Rightarrow> exchange \<Rightarrow> bool" where
  "held io s t a b x = (disciplined io \<longrightarrow> snd x = b \<and> holding io t a (if b then DataStarted else Prepared) (fst x) \<and> (b \<longrightarrow> permitted io s a))"

lemma on_stage_held: "on_stage io a p x = (r, x') \<Longrightarrow> held io s t a b x \<Longrightarrow> held io s t a b x'"
  by (auto simp: on_stage_def held_def Let_def split: prod.splits sum.splits intro: holding_other)
    (metis holding_other record_stage_holds)+

lemma before_body_granted: "before_body io s a x = (None, x') \<Longrightarrow> held io s t a False x \<Longrightarrow> held io s t a True x'"
proof -
  assume g: "before_body io s a x = (None, x')" and h: "held io s t a False x"
  obtain d b where x: "x = (d, b)" by (cases x)
  let ?d1 = "io_other io Body d" let ?d = "io_other io Permitting ?d1"
  from g obtain smtp d2 where p: "prepare_job io s Body a False False ?d1 = Inr smtp"
    and sd: "start_data (io_env io Permitting) (io_sha io) (sm_job a) (io_token io) (set_production s) ?d = Inr ((), d2)" and x': "x' = (d2, True)"
    by (auto simp: before_body_def x Let_def split: if_splits sum.splits)
  show ?thesis
    unfolding held_def
  proof
    assume "disciplined io"
    with h x have hold: "holding io t a Prepared ?d1" "holding io t a Prepared ?d" by (simp_all add: held_def holding_other)
    then obtain r where r: "find_job (sm_job a) ?d = Some r" by (auto simp: holding_def)
    have "permitted io s a" unfolding permitted_def using hold r p start_data_permission [OF sd r] by blast
    with x' start_data_holds [OF hold(2) sd] show "snd x' = True \<and> holding io t a (if True then DataStarted else Prepared) (fst x') \<and> (True \<longrightarrow> permitted io s a)"
      by simp
  qed
qed

lemma before_body_refused: "before_body io s a x = (Some er, x') \<Longrightarrow> held io s t a False x \<Longrightarrow> held io s t a False x'"
  by (auto simp: before_body_def held_def Let_def split: prod.splits sum.splits if_splits intro: holding_other holding_other [OF _ holding_other])

interpretation mail: submission "mail_callbacks io s a" "held io s t a False" "held io s t a True" for io s t a
  by unfold_locales
    (auto simp: mail_callbacks_def intro: on_stage_held before_body_granted before_body_refused)

lemma perform_held: "perform (on_stage io a) stage xs x = (r, x') \<Longrightarrow> held io s t a b x \<Longrightarrow> held io s t a b x'"
  by (induction "on_stage io a" stage xs x arbitrary: r x' rule: perform.induct)
    (auto split: prod.splits option.splits dest: on_stage_held)

lemma connect_held:
  assumes "connect_server io (on_stage io a) smtp x = (r, x')" "held io s t a b x"
  shows "held io s t a b x'"
proof -
  obtain y x1 where p: "perform (on_stage io a) ''connect'' (connect_steps (io_connection io) smtp) x = (y, x1)" by (metis surj_pair)
  from perform_held [OF p assms(2)] have h: "held io s t a b x1" .
  then have "held io s t a b (snd (on_stage io a q x1))" for q by (metis on_stage_held prod.collapse)
  with assms p h show ?thesis
    by (auto simp: connect_server_def split: sum.splits option.splits prod.splits)
qed

lemma failure_ends_well: "held io s t a False x \<Longrightarrow> mail.ends_well io s t a (failure_result er p (snd x)) x None"
  by (auto simp: mail.ends_well_def failure_result_status held_def)

lemma submit_ends:
  assumes "submit io s a smtp x = (y, x', sent)" "held io s t a False x"
  shows "mail.ends_well io s t a y x' sent \<and> honest (io_server io) (sm_mime a) y sent"
proof -
  obtain r x1 where st: "on_stage io a (connecting ''connect'') x = (r, x1)" by (cases "on_stage io a (connecting ''connect'') x")
  obtain q x2 where cn: "connect_server io (on_stage io a) smtp x1 = (q, x2)" by (cases "connect_server io (on_stage io a) smtp x1")
  have h: "held io s t a False x1" "held io s t a False x2"
    using on_stage_held [OF st assms(2)] connect_held [OF cn] by blast+
  show ?thesis
  proof (cases "r = None \<and> q = None")
    case True
    with assms(1) st cn have "send_message (io_addr_ok io) (mail_callbacks io s a) (io_server io) smtp (sm_mime a) (row_envelope a) x2 = (y, x', sent)"
      by (simp add: submit_def)
    with h(2) show ?thesis by (blast intro: mail.send_message_ends send_message_honest)
  next
    case False
    with assms(1) st cn h show ?thesis
      by (auto simp: submit_def failure_ends_well failure_honest split: option.splits)
  qed
qed

section \<open>How an attempt ends\<close>

lemma finish_at_row:
  assumes "holding io t a ph d" "finish_at io m a res policy d = Inr (r, d')"
  shows "queue_step\<^sup>*\<^sup>* t (db_smtp d') \<and> queue_ok (db_smtp d')
    \<and> (\<exists>b. find_job (sm_job a) d' = Some b \<and> same_attempt a b \<and> sm_status b = rs_status res)"
proof -
  from assms(1) obtain c where ok: "queue_ok (db_smtp d)" and steps: "queue_step\<^sup>*\<^sup>* t (db_smtp d)" and c: "find_job (sm_job a) d = Some c" "same_attempt a c"
    by (auto simp: holding_def)
  note f = assms(2) [unfolded finish_at_def]
  from steps finish_step [OF ok f] have steps': "queue_step\<^sup>*\<^sup>* t (db_smtp d')" by (rule rtranclp_trans)
  from queue_steps_ok [OF finish_step [OF ok f] ok] have ok': "queue_ok (db_smtp d')" by blast
  let ?t = "upd (\<lambda>x. sm_job x = sm_job a) (finished_by res (now (io_env io m))) (db_smtp d)"
  let ?b = "finished_by res (now (io_env io m)) c"
  from find_job_mem [OF c(1)] have "?b \<in> set ?t" by (auto simp: set_upd)
  moreover have "set ?t \<subseteq> set (db_smtp d')"
    using f by (rule finish_effect [OF ok]) (auto dest!: insert_retry_effect)
  ultimately have "?b \<in> set (db_smtp d')" by blast
  from find_job_row [OF ok' this] c(2) have "find_job (sm_job a) d' = Some ?b"
    by (simp add: finished_by_def same_attempt_def)
  with ok' c(2) steps' show ?thesis by (auto simp: finished_by_def same_attempt_def)
qed

lemma holding_row: "holding io t a ph d \<Longrightarrow> queue_step\<^sup>*\<^sup>* t (db_smtp d) \<and> queue_ok (db_smtp d) \<and> (\<exists>b. find_job (sm_job a) d = Some b \<and> same_attempt a b
    \<and> sm_status b = SSending \<and> sm_phase b = ph)"
  by (auto simp: holding_def)

text \<open>The states an attempt may be left in after bytes went to the server.\<close>

definition sent_state :: "smtp_server \<Rightarrow> smtp_row \<Rightarrow> bool" where
  "sent_state sv b = (case sm_status b of
     SAccepted \<Rightarrow> sv_body sv = None \<and> positive (sv_final sv)
   | SFailed \<Rightarrow> sv_body sv = None \<and> (\<exists>n. reply_code (sv_final sv) = Some n \<and> 400 \<le> n \<and> n \<le> 599)
   | SUncertain \<Rightarrow> True
   | SSending \<Rightarrow> sm_phase b = DataStarted
   | _ \<Rightarrow> False)"

definition ended :: "mail_io \<Rightarrow> smtp_row list \<Rightarrow> smtp_row \<Rightarrow> string option \<Rightarrow> (bool \<times> receipt_row option) res \<Rightarrow> db \<Rightarrow> bool" where
  "ended io t a sent r d = (queue_step\<^sup>*\<^sup>* t (db_smtp d) \<and> queue_ok (db_smtp d) \<and> (\<exists>b. find_job (sm_job a) d = Some b \<and> same_attempt a b
     \<and> (sent \<noteq> None \<longrightarrow> sent_state (io_server io) b) \<and> (\<forall>v. r = Inr (True, v) \<longrightarrow> sent \<noteq> None \<and> sm_status b = SAccepted)))"

lemma honest_state:
  assumes "honest sv mime x sent" "sent \<noteq> None" "sm_status b = exchange_state (xr_status x)"
  shows "sent_state sv b"
  using assms by (cases "xr_status x") (auto simp: honest_def sent_state_def exchange_state_def)

lemma complete_ended:
  assumes dis: "disciplined io" and h: "held io s t a (snd st) st" and hon: "honest (io_server io) mime x sent"
    and unsent: "snd st \<or> sent = None" and c: "complete io s a x st = (r, d')"
  shows "ended io t a sent r d'"
proof -
  obtain d b where st: "st = (d, b)" by (cases st)
  let ?ph = "if b then DataStarted else Prepared"
  let ?d1 = "io_other io Settling d" and ?d3 = "io_other io Reconciling (io_other io Settling d)"
  from h dis st have "holding io t a ?ph d" by (simp add: held_def)
  then have h1: "holding io t a ?ph ?d1" and h3: "holding io t a ?ph ?d3" using dis by (blast intro: holding_other)+
  show ?thesis
  proof (cases "finish_at io Settling a (smtp_result_of x) (Some (ms_policy s)) ?d1")
    case (Inr p)
    obtain rc d2 where p: "p = (rc, d2)" by (cases p)
    from c st Inr p have res: "r = Inr (xr_status x = XAccepted, rc)" "d' = d2" by (simp_all add: complete_def)
    from finish_at_row [OF h1 Inr [unfolded p]] obtain b' where b': "queue_ok (db_smtp d2)" "queue_step\<^sup>*\<^sup>* t (db_smtp d2)" "find_job (sm_job a) d2 = Some b'"
      "same_attempt a b'" "sm_status b' = exchange_state (xr_status x)" by (auto simp: smtp_result_of_def)
    from honest_state [OF hon _ b'(5)] have "sent \<noteq> None \<longrightarrow> sent_state (io_server io) b'" by blast
    moreover from hon have "xr_status x = XAccepted \<longrightarrow> sent \<noteq> None \<and> sm_status b' = SAccepted"
      using b'(5) by (simp add: honest_def exchange_state_def)
    ultimately show ?thesis using b' res by (auto simp: ended_def)
  next
    case (Inl er)
    show ?thesis
    proof (cases b)
      case False
      with c st Inl have "r = Inl er" "d' = ?d1" by (simp_all add: complete_def)
      with holding_row [OF h1] unsent st False show ?thesis by (auto simp: ended_def)
    next
      case True
      show ?thesis
      proof (cases "finish_at io Reconciling a (unreconciled x) None ?d3")
        case (Inl er')
        with c st \<open>finish_at io Settling a _ _ _ = _\<close> True have "r = Inl er'" "d' = ?d3" by (simp_all add: complete_def Let_def)
        with holding_row [OF h3] True show ?thesis by (auto simp: ended_def sent_state_def)
      next
        case (Inr p)
        obtain rc d4 where p: "p = (rc, d4)" by (cases p)
        with c st Inr \<open>finish_at io Settling a _ _ _ = _\<close> True have "r = Inr (False, rc)" "d' = d4"
          by (simp_all add: complete_def Let_def)
        with finish_at_row [OF h3 Inr [unfolded p]] show ?thesis by (auto simp: ended_def sent_state_def unreconciled_def)
      qed
    qed
  qed
qed

lemma other_steps: "disciplined io \<Longrightarrow> queue_step\<^sup>*\<^sup>* t (db_smtp d) \<Longrightarrow> queue_step\<^sup>*\<^sup>* t (db_smtp (io_other io m d))"
  unfolding disciplined_def by (meson rtranclp_trans)

lemma claim_steps: "disciplined io \<Longrightarrow> claim_job io a d = (x, d') \<Longrightarrow> queue_step\<^sup>*\<^sup>* (db_smtp d) (db_smtp d')"
  unfolding claim_job_def using claim_step other_steps by (meson rtranclp_trans rtranclp.rtrancl_refl)

lemma finish_at_steps:
  assumes "disciplined io" "queue_ok (db_smtp t)" "queue_step\<^sup>*\<^sup>* (db_smtp t) (db_smtp d)"
    "finish_at io m a res p (io_other io m' d) = Inr (r, d')"
  shows "queue_step\<^sup>*\<^sup>* (db_smtp t) (db_smtp d')"
proof -
  from other_steps [OF assms(1,3)] have s: "queue_step\<^sup>*\<^sup>* (db_smtp t) (db_smtp (io_other io m' d))" .
  with queue_steps_ok [OF s assms(2)] finish_step assms(4) [unfolded finish_at_def] show ?thesis by (meson rtranclp_trans)
qed

lemma retire_steps:
  assumes "disciplined io" "queue_ok (db_smtp d)" "retire_job io a res d = (r, d')"
  shows "queue_step\<^sup>*\<^sup>* (db_smtp d) (db_smtp d') \<and> (\<forall>v. r \<noteq> Inr (True, v))"
proof -
  obtain x d1 where cl: "claim_job io a d = (x, d1)" by (cases "claim_job io a d")
  from claim_steps [OF assms(1) cl] have s: "queue_step\<^sup>*\<^sup>* (db_smtp d) (db_smtp d1)" .
  with assms cl show ?thesis
    by (auto simp: retire_job_def Let_def split: option.splits sum.splits intro: other_steps finish_at_steps)
qed

lemma connection_steps:
  assumes "disciplined io" "queue_ok (db_smtp t)" "queue_step\<^sup>*\<^sup>* (db_smtp t) (db_smtp d)" "connection_job io a smtp d = (r, d')"
  shows "queue_step\<^sup>*\<^sup>* (db_smtp t) (db_smtp d')"
  using assms by (auto simp: connection_job_def Let_def split: sum.splits intro: other_steps finish_at_steps)

text \<open>One dispatch: nothing sent, or an exchange that \<open>ended\<close> describes.\<close>

lemma dispatch_cases:
  assumes dis: "disciplined io" and ok: "queue_ok (db_smtp d)" and run: "dispatch_job io s job d = ((r, d'), sent)"
  obtains (idle) "sent = None" "queue_step\<^sup>*\<^sup>* (db_smtp d) (db_smtp d')"
      "\<And>a v. find_job job d = Some a \<Longrightarrow> r = Inr (True, v) \<Longrightarrow> is_diagnostic a"
  | (mail) a x where "find_job job d = Some a" "ended io (db_smtp d) a sent r d'" "honest (io_server io) (sm_mime a) x sent"
      "sent \<noteq> None \<longrightarrow> permitted io s a"
proof (cases "\<exists>a smtp token d1. find_job job d = Some a \<and> sm_status a = SQueued \<and> \<not> past_expiry a (now (io_env io Preflight))
    \<and> \<not> is_diagnostic a \<and> prepare_job io s Preflight a False False d = Inr smtp \<and> claim_job io a d = (Some token, d1)")
  case False
  from run False have "sent = None \<and> ((r, d') = (Inr (False, None), d) \<or> (\<exists>a res. retire_job io a res d = (r, d'))
      \<or> isl r \<and> d' = d \<or> (\<exists>a. claim_job io a d = (None, d') \<and> r = Inr (False, None))
      \<or> (\<exists>a smtp x d1. find_job job d = Some a \<and> is_diagnostic a \<and> claim_job io a d = (x, d1) \<and> connection_job io a smtp d1 = (r, d')))"
    unfolding dispatch_job_def by (auto split: option.splits if_splits sum.splits prod.splits)
  moreover have "retire_job io a res d \<noteq> (Inr (True, v), d')" for a res v using retire_steps [OF dis ok] by blast
  ultimately show ?thesis
    using conjunct1 [OF retire_steps [OF dis ok]] claim_steps [OF dis] connection_steps [OF dis ok claim_steps [OF dis]]
    by (intro idle) auto
next
  case True
  then obtain a smtp token d1 where t: "find_job job d = Some a" "sm_status a = SQueued" "\<not> past_expiry a (now (io_env io Preflight))"
    "\<not> is_diagnostic a" "prepare_job io s Preflight a False False d = Inr smtp" "claim_job io a d = (Some token, d1)" by blast
  from find_job_mem [OF t(1)] have job: "sm_job a = job" by blast
  obtain x st where sub: "submit io s a smtp (d1, False) = (x, st, sent)" and c: "complete io s a x st = (r, d')"
    using run t by (auto simp: dispatch_job_def split: prod.splits)
  have "held io s (db_smtp d) a False (d1, False)"
    using claim_holds [OF dis ok _ t(6)] t(1) job by (simp add: held_def)
  from submit_ends [OF sub this] have e: "mail.ends_well io s (db_smtp d) a x st sent" and hon: "honest (io_server io) (sm_mime a) x sent" by blast+
  from e dis have h: "held io s (db_smtp d) a (snd st) st" "snd st \<or> sent = None" "snd st \<longrightarrow> permitted io s a"
    by (auto simp: mail.ends_well_def held_def)
  from complete_ended [OF dis h(1) hon h(2) c] t(1) hon h show ?thesis by (intro mail) auto
qed

text \<open>C25: whatever the server, the files and the other processes do, if a dispatch hands bytes to the
  server they are the wire form of the stored message, the permission for them was given after the
  354 reply, and the attempt is not offered for sending again: it ends accepted only on a positive
  final reply to the whole body, failed only on an explicit refusal, and otherwise uncertain or still
  marked as in transmission. A dispatch reports success only for such an acceptance.\<close>

theorem dispatch_honest:
  assumes "disciplined io" "queue_ok (db_smtp d)" "find_job job d = Some a" "dispatch_job io s job d = ((r, d'), sent)"
  shows "queue_step\<^sup>*\<^sup>* (db_smtp d) (db_smtp d')
    \<and> (\<forall>w. sent = Some w \<longrightarrow> w = wire (sm_mime a) \<and> permitted io s a \<and> (\<exists>b. find_job job d' = Some b \<and> sent_state (io_server io) b))
    \<and> (\<forall>v. r = Inr (True, v) \<and> \<not> is_diagnostic a \<longrightarrow> sent \<noteq> None \<and> (\<exists>b. find_job job d' = Some b \<and> sm_status b = SAccepted))"
  using assms(1,2,4)
proof (cases rule: dispatch_cases)
  case idle
  with assms(3) show ?thesis by blast
next
  case (mail b x)
  with assms(3) find_job_mem [OF assms(3)] show ?thesis by (auto simp: ended_def honest_def)
qed

text \<open>A test mail on a server that takes everything; another process cancels a run meanwhile.\<close>

definition test_smtp :: smtp_settings where
  "test_smtp = default_smtp\<lparr>st_host := JStr ''mail.example.org'', st_sender_email := JStr ''a@b.org''\<rparr>"

definition test_config :: delivery_config where
  "test_config = \<lparr>cfg_enabled = JBool True, cfg_auto_dispatch = JBool False, cfg_smtp = test_smtp, cfg_groups = JDict [], cfg_senders = []\<rparr>"

definition test_io :: mail_io where
  "test_io = \<lparr>io_env = (\<lambda>m. \<lparr>now = 100, creator = None, request_actor = []\<rparr>),
     io_other = (\<lambda>m d. d\<lparr>db_controls := upd (\<lambda>k. True) (\<lambda>k. k\<lparr>ctl_cancel := True\<rparr>) (db_controls d)\<rparr>),
     io_config = (\<lambda>m. Inr test_config), io_archive = (\<lambda>h d. Inr ()), io_outbox = (\<lambda>h. Inr ([], [])),
     io_mime = (\<lambda>r f x v m w. Inr []), io_connection = \<lparr>cn_open = None, cn_ehlo = None, cn_starttls = None, cn_ehlo_again = None,
       cn_login = None, cn_noop = Answer 250\<rparr>,
     io_server = \<lparr>sv_mail = Answer 250, sv_rcpt = (\<lambda>r. Answer 250), sv_data = Answer 354, sv_body = None, sv_final = Answer 250\<rparr>,
     io_token = ''t'', io_pid = 7, io_fresh = ''f'', io_addr_ok = (\<lambda>x. True), io_sha = (\<lambda>x. x)\<rparr>"

definition test_mail_settings :: mail_settings where
  "test_mail_settings = \<lparr>set_kill_switch = JBool False, set_production = False, set_schema_ok = (\<lambda>x. True), ms_max_bytes = 100,
     ms_policy = \<lparr>rp_auto = False, rp_max = 1, rp_base = 1, rp_expiry = 1\<rparr>\<rparr>"

definition test_row :: smtp_row where
  "test_row = first_attempt \<lparr>now = 0, creator = None, request_actor = []\<rparr> (\<lambda>x. x) ''j'' None ''m'' ''.x''
     [(''sender'', JStr ''a@b.org''), (''recipients'', JList [JStr ''c@d.org'']), (''test'', JBool True)]
     (projr (delivery_revision (\<lambda>x. x) test_config ''default'' (Some empty_db)))"

definition test_db :: db where
  "test_db = empty_db\<lparr>db_smtp := [test_row]\<rparr>"

lemma test_disciplined: "disciplined test_io"
  by (simp add: disciplined_def test_io_def)

lemma test_dispatch: "snd (dispatch_job test_io test_mail_settings ''j'' test_db) = Some (wire ''.x'')"
  by code_simp

theorem dispatch_honest_witness:
  "\<exists>b. find_job ''j'' (snd (fst (dispatch_job test_io test_mail_settings ''j'' test_db))) = Some b \<and> sent_state (io_server test_io) b"
proof -
  have f: "find_job ''j'' test_db = Some test_row" by (simp add: find_job_def test_db_def test_row_def first_attempt_def)
  have "queue_ok (db_smtp test_db)" by (simp add: queue_ok_def test_db_def test_row_def first_attempt_def phase_fits_def compatible_def)
  from dispatch_honest [OF test_disciplined this f, of test_mail_settings] test_dispatch show ?thesis
    by (metis prod.collapse)
qed

section \<open>A round of the dispatcher\<close>

lemma recover_rows_steps: "queue_ok (db_smtp d) \<Longrightarrow> recover_rows e sha gone rows d = (m, d') \<Longrightarrow> queue_step\<^sup>*\<^sup>* (db_smtp d) (db_smtp d')"
proof (induction rows arbitrary: d m)
  case (Cons a rows)
  show ?case
  proof (cases "\<not> (case sm_pid a of None \<Rightarrow> False | Some p \<Rightarrow> gone p)")
    case True
    with Cons show ?thesis by simp
  next
    case alive: False
    show ?thesis
    proof (cases "finish e sha [] (sm_job a) (sm_token a) (interrupted a) None d")
      case (Inl er)
      with Cons.prems alive show ?thesis by simp
    next
      case (Inr p)
      obtain r d1 where p: "p = (r, d1)" by (cases p)
      obtain m' d2 where rest: "recover_rows e sha gone rows d1 = (m', d2)" by (cases "recover_rows e sha gone rows d1")
      with Cons.prems alive Inr p have d2: "d' = d2" by (auto split: sum.splits)
      note st = finish_step [OF Cons.prems(1) Inr [unfolded p]]
      have "queue_ok (db_smtp d1)" using queue_steps_ok [OF st Cons.prems(1)] by blast
      from Cons.IH [OF this rest [folded d2]] st show ?thesis by (meson rtranclp_trans)
    qed
  qed
qed simp

lemma recover_steps: "queue_ok (db_smtp d) \<Longrightarrow> recover_interrupted e sha gone d = (m, d') \<Longrightarrow> queue_step\<^sup>*\<^sup>* (db_smtp d) (db_smtp d')"
  unfolding recover_interrupted_def by (rule recover_rows_steps)

lemma enqueue_handoff_steps: "enqueue_handoff io s i d = Inr (u, d') \<Longrightarrow> queue_step\<^sup>*\<^sup>* (db_smtp d) (db_smtp d')"
  by (auto simp: enqueue_handoff_def and_then_Inr Let_def split: option.splits prod.splits dest: enqueue_step)

lemma enqueue_published_steps: "enqueue_published ios s hs d = (r, d') \<Longrightarrow> queue_step\<^sup>*\<^sup>* (db_smtp d) (db_smtp d')"
proof (induction hs arbitrary: d r)
  case (Cons h hs)
  then show ?case
    by (auto split: if_splits sum.splits prod.splits dest!: enqueue_handoff_steps intro: rtranclp_trans)
qed simp

text \<open>An attempt whose bytes were handed over stays out of the queue, whatever follows.\<close>

definition handed_over :: "string \<Rightarrow> string \<Rightarrow> db \<Rightarrow> bool" where
  "handed_over job w d = (\<exists>b. find_job job d = Some b \<and> w = wire (sm_mime b) \<and> 2 \<le> stage_of b)"

lemma find_job_le:
  assumes "queue_ok u" "queue_le t u" "u = db_smtp d'" "t = db_smtp d" "find_job job d = Some a"
  shows "\<exists>b. find_job job d' = Some b \<and> attempt_moves a b"
proof -
  from find_job_mem [OF assms(5)] assms(2,4) obtain b where b: "b \<in> set u" "attempt_moves a b" by (meson extends_mem queue_le_def)
  with find_job_row [of d' b] assms(1,3) find_job_mem [OF assms(5)] show ?thesis
    by (auto simp: attempt_moves_def same_attempt_def)
qed

lemma handed_over_steps:
  assumes "handed_over job w d" "queue_ok (db_smtp d)" "queue_step\<^sup>*\<^sup>* (db_smtp d) (db_smtp d')"
  shows "handed_over job w d'"
proof -
  from assms(1) obtain a where a: "find_job job d = Some a" "w = wire (sm_mime a)" "2 \<le> stage_of a" by (auto simp: handed_over_def)
  from queue_steps_ok [OF assms(3,2)] find_job_le [OF _ _ refl refl a(1)] obtain b where "find_job job d' = Some b" "attempt_moves a b" by blast
  with a(2,3) show ?thesis by (auto simp: handed_over_def attempt_moves_def same_attempt_def)
qed

lemma sent_state_stage: "sent_state sv b \<Longrightarrow> 2 \<le> stage_of b"
  by (auto simp: sent_state_def stage_of_def split: smtp_state.splits)

lemma dispatch_job_steps:
  assumes "disciplined io" "queue_ok (db_smtp d)" "dispatch_job io s job d = ((r, d'), sent)"
  shows "queue_step\<^sup>*\<^sup>* (db_smtp d) (db_smtp d') \<and> (\<forall>w. sent = Some w \<longrightarrow> handed_over job w d')"
  using assms
proof (cases rule: dispatch_cases)
  case idle
  then show ?thesis by simp
next
  case (mail a x)
  then show ?thesis
    using find_job_mem [OF mail(1)] by (auto simp: ended_def honest_def handed_over_def same_attempt_def dest: sent_state_stage)
qed

lemma dispatch_jobs_steps:
  assumes "\<forall>job. disciplined (ios job)" "queue_ok (db_smtp d)" "dispatch_jobs ios s jobs d = (rs, d', sent)"
  shows "queue_step\<^sup>*\<^sup>* (db_smtp d) (db_smtp d') \<and> (\<forall>p \<in> set sent. handed_over (fst p) (snd p) d')
    \<and> map fst sent = filter (\<lambda>j. j \<in> fst ` set sent) jobs \<or> \<not> distinct jobs"
  using assms(2,3)
proof (induction jobs arbitrary: d rs sent)
  case (Cons job jobs)
  obtain r d1 o1 where one: "dispatch_job (ios job) s job d = ((r, d1), o1)" by (metis surj_pair)
  obtain rs' d2 ws where rest: "dispatch_jobs ios s jobs d1 = (rs', d2, ws)" by (metis surj_pair)
  from dispatch_job_steps [OF spec [OF assms(1)] Cons.prems(1) one] have s1: "queue_step\<^sup>*\<^sup>* (db_smtp d) (db_smtp d1)"
    and h1: "\<And>w. o1 = Some w \<Longrightarrow> handed_over job w d1" by blast+
  from queue_steps_ok [OF s1 Cons.prems(1)] have ok1: "queue_ok (db_smtp d1)" by blast
  from Cons.prems(2) one rest have d': "d' = d2" "sent = (case o1 of None \<Rightarrow> ws | Some w \<Rightarrow> (job, w) # ws)" by auto
  show ?case
  proof (cases "distinct (job # jobs)")
    case True
    with Cons.IH [OF ok1 rest [folded d'(1)]] have ih: "queue_step\<^sup>*\<^sup>* (db_smtp d1) (db_smtp d')"
      "\<forall>p \<in> set ws. handed_over (fst p) (snd p) d'" "map fst ws = filter (\<lambda>j. j \<in> fst ` set ws) jobs" by auto
    from ih(3) have "set (map fst ws) \<subseteq> set jobs" by (metis filter_is_subset)
    with True have new: "job \<notin> fst ` set ws" by auto
    have "\<And>w. o1 = Some w \<Longrightarrow> handed_over job w d'" using handed_over_steps [OF h1 ok1 ih(1)] by blast
    moreover have "map fst sent = filter (\<lambda>j. j \<in> fst ` set sent) (job # jobs)"
    proof (cases o1)
      case None
      with d'(2) ih(3) new show ?thesis by simp
    next
      case (Some w)
      have "filter (\<lambda>j. j = job \<or> j \<in> fst ` set ws) jobs = filter (\<lambda>j. j \<in> fst ` set ws) jobs"
        by (rule filter_cong) (use True in auto)
      with d'(2) ih(3) Some show ?thesis by simp
    qed
    ultimately show ?thesis using ih(2) d'(2) rtranclp_trans [OF s1 ih(1)] by (auto split: option.splits)
  qed simp
qed simp

lemma pending_jobs_spec:
  assumes "queue_ok (db_smtp d)"
  shows "distinct (map sm_job (pending_jobs t d))" "a \<in> set (pending_jobs t d) \<Longrightarrow> a \<in> set (db_smtp d) \<and> sm_status a = SQueued"
proof -
  have "distinct (map sm_job (db_smtp d))" using assms by (simp add: queue_ok_def)
  then show "distinct (map sm_job (pending_jobs t d))"
    by (simp add: pending_jobs_def sel_def distinct_map inj_on_def)
qed (simp add: pending_jobs_def)

lemma sent_jobs_queued:
  assumes "queue_ok (db_smtp d)" "map fst ws = filter f (map sm_job (pending_jobs t d))" "p \<in> set ws"
  shows "\<exists>c. find_job (fst p) d = Some c \<and> sm_status c = SQueued"
proof -
  from assms(3) have "fst p \<in> set (map fst ws)" by simp
  then have "fst p \<in> sm_job ` set (pending_jobs t d)" unfolding assms(2) by auto
  then obtain c where "c \<in> set (pending_jobs t d)" "fst p = sm_job c" by blast
  with pending_jobs_spec(2) [OF assms(1)] find_job_row [OF assms(1)] show ?thesis by auto
qed

lemma queued_mail_once:
  assumes "queue_ok (db_smtp d)" "queue_ok (db_smtp d')" "queue_le (db_smtp d) (db_smtp d')"
    and x: "find_job i d = Some x" "sm_status x = SQueued" and y: "find_job j d = Some y" "sm_status y = SQueued"
    and ab: "find_job i d' = Some a" "find_job j d' = Some b" "sm_handoff a \<noteq> None" "sm_handoff a = sm_handoff b"
  shows "i = j"
proof -
  from find_job_le [OF assms(2,3) refl refl x(1)] ab(1) have "sm_handoff x = sm_handoff a"
    by (simp add: attempt_moves_def same_attempt_def)
  moreover from find_job_le [OF assms(2,3) refl refl y(1)] ab(2) have "sm_handoff y = sm_handoff b"
    by (simp add: attempt_moves_def same_attempt_def)
  moreover have "compatible x y" using assms(1) find_job_mem [OF x(1)] find_job_mem [OF y(1)] by (simp add: queue_ok_def)
  ultimately have "sm_job x = sm_job y" using ab(3,4) x(2) y(2) by (auto simp: compatible_def live_def)
  then show ?thesis using find_job_mem [OF x(1)] find_job_mem [OF y(1)] by simp
qed

text \<open>C26: a round of the dispatcher, with its recovery of dead dispatchers and its queueing of
  published handoffs, moves every attempt only forward, hands at most one message per attempt and per
  mail to the server, the stored one, and leaves each of these attempts past the point from which it
  could be sent again.\<close>

theorem dispatch_round:
  assumes "\<forall>job. disciplined (ios job)" "queue_ok (db_smtp d)" "dispatch_all_pending e sha gone ios s d = (r, d', sent)"
  shows "queue_ok (db_smtp d') \<and> queue_le (db_smtp d) (db_smtp d') \<and> distinct (map fst sent)
    \<and> (\<forall>p \<in> set sent. handed_over (fst p) (snd p) d')
    \<and> (\<forall>p \<in> set sent. \<forall>q \<in> set sent. \<forall>a b. find_job (fst p) d' = Some a \<and> find_job (fst q) d' = Some b
        \<and> sm_handoff a \<noteq> None \<and> sm_handoff a = sm_handoff b \<longrightarrow> p = q)"
proof -
  obtain m d1 where rec: "recover_interrupted e sha gone d = (m, d1)" by (metis surj_pair)
  obtain refused d2 where enq: "enqueue_published ios s (list_handoffs None (Some ''published'') d1) d1 = (refused, d2)" by (metis surj_pair)
  note s1 = recover_steps [OF assms(2) rec]
  from queue_steps_ok [OF rtranclp_trans [OF s1 enqueue_published_steps [OF enq]] assms(2)]
  have ok2: "queue_ok (db_smtp d2)" and le2: "queue_le (db_smtp d) (db_smtp d2)" by blast+
  show ?thesis
  proof (cases m)
    case (Inl er)
    with assms(3) rec have "d' = d1" "sent = []" by (simp_all add: dispatch_all_pending_def)
    with queue_steps_ok [OF s1 assms(2)] show ?thesis by simp
  next
    case (Inr ids)
    let ?jobs = "map sm_job (pending_jobs (now e) d2)"
    obtain rs where jobs: "dispatch_jobs ios s ?jobs d2 = (rs, d', sent)"
      using assms(3) rec enq Inr by (auto simp: dispatch_all_pending_def split: prod.splits)
    have n: "\<not> \<not> distinct ?jobs" using pending_jobs_spec(1) [OF ok2] by simp
    note r = disjE [OF dispatch_jobs_steps [OF assms(1) ok2 jobs]]
    have s3: "queue_step\<^sup>*\<^sup>* (db_smtp d2) (db_smtp d')" by (rule r) (use n in simp_all)
    have h: "\<forall>p \<in> set sent. handed_over (fst p) (snd p) d'" by (rule r) (use n in simp_all)
    have f: "map fst sent = filter (\<lambda>j. j \<in> fst ` set sent) ?jobs" by (rule r) (use n in simp_all)
    from queue_steps_ok [OF s3 ok2] have ok': "queue_ok (db_smtp d')" and le': "queue_le (db_smtp d2) (db_smtp d')" by blast+
    have dist: "distinct (map fst sent)" by (subst f) (use n in simp)
    have "p = q" if pq: "p \<in> set sent" "q \<in> set sent" and ab: "find_job (fst p) d' = Some a" "find_job (fst q) d' = Some b"
      and same: "sm_handoff a \<noteq> None" "sm_handoff a = sm_handoff b" for p q a b
    proof -
      from sent_jobs_queued [OF ok2 f pq(1)] obtain x where x: "find_job (fst p) d2 = Some x" "sm_status x = SQueued" by blast
      from sent_jobs_queued [OF ok2 f pq(2)] obtain y where y: "find_job (fst q) d2 = Some y" "sm_status y = SQueued" by blast
      from queued_mail_once [OF ok2 ok' le' x y ab same] have "fst p = fst q" .
      with dist pq show ?thesis by (simp add: distinct_map inj_on_def)
    qed
    then have u: "\<forall>p \<in> set sent. \<forall>q \<in> set sent. \<forall>a b. find_job (fst p) d' = Some a \<and> find_job (fst q) d' = Some b
        \<and> sm_handoff a \<noteq> None \<and> sm_handoff a = sm_handoff b \<longrightarrow> p = q" by (intro ballI allI impI) (elim conjE)
    show ?thesis by (intro conjI) (rule ok' queue_le_trans [OF le2 le'] dist h u)+
  qed
qed

lemma test_round: "snd (snd (dispatch_all_pending (io_env test_io Preflight) (\<lambda>x. x) (\<lambda>p. False) (\<lambda>j. test_io) test_mail_settings test_db))
    = [(''j'', wire ''.x'')]"
  by code_simp

theorem dispatch_round_witness:
  "handed_over ''j'' (wire ''.x'') (fst (snd (dispatch_all_pending (io_env test_io Preflight) (\<lambda>x. x) (\<lambda>p. False) (\<lambda>j. test_io)
     test_mail_settings test_db)))"
proof -
  have ok: "queue_ok (db_smtp test_db)"
    by (simp add: queue_ok_def test_db_def test_row_def first_attempt_def phase_fits_def compatible_def)
  obtain r d' sent where run: "dispatch_all_pending (io_env test_io Preflight) (\<lambda>x. x) (\<lambda>p. False) (\<lambda>j. test_io)
      test_mail_settings test_db = (r, d', sent)" by (metis surj_pair)
  from test_round have sent: "sent = [(''j'', wire ''.x'')]" unfolding run by simp
  have "\<forall>p \<in> set sent. handed_over (fst p) (snd p) d'"
    using dispatch_round [OF _ ok run] test_disciplined by blast
  then show ?thesis unfolding run sent by simp
qed

end
