(* ===== verification/Artifact_Integrity.thy ===== *)
theory Artifact_Integrity imports Recipient_Routing begin

text \<open>
  The evidence that binds the media of a message to one composition revision,
  \<open>delivery/artifact_integrity.py\<close>: the contract between the controller's artifact report
  and the media of a composition, the binding of a stored composition to its hashes and files, and
  the projection on the attachments of a delivery request. Files are read through a function of the
  directory and the path; the JSON schema validator and SHA-256 are parameters.
\<close>

section \<open>Subscripts\<close>

text \<open>\<open>v[k]\<close>, \<open>v.get(k)\<close> and \<open>v in set\<close> for a value read from JSON.\<close>

definition sub :: "json \<Rightarrow> string \<Rightarrow> json res" where
  "sub v k = (case v of JDict d \<Rightarrow> dsub d k | _ \<Rightarrow> Inl (TypeError ''subscript''))"

definition getk :: "json \<Rightarrow> string \<Rightarrow> json res" where
  "getk v k = (case v of JDict d \<Rightarrow> Inr (dget d k) | _ \<Rightarrow> Inl (AttributeError ''get''))"

definition hash_in :: "json \<Rightarrow> json list \<Rightarrow> bool res" where
  "hash_in v xs = (case v of JList _ \<Rightarrow> Inl (TypeError ''unhashable'') | JDict _ \<Rightarrow> Inl (TypeError ''unhashable'')
     | _ \<Rightarrow> Inr (list_ex (pyeq v) xs))"

definition id_char :: "char \<Rightarrow> bool" where
  "id_char c = (c \<in> set ''ABCDEFGHIJKLMNOPQRSTUVWXYZabcdefghijklmnopqrstuvwxyz0123456789._:-'')"

text \<open>\<open>re.fullmatch(r"[A-Za-z0-9][A-Za-z0-9._:-]\{0,n\}", v)\<close> of a string.\<close>

definition ident_like :: "nat \<Rightarrow> json \<Rightarrow> bool" where
  "ident_like n v = (case v of JStr (c # s) \<Rightarrow> id_char c \<and> c \<notin> set ''._:-'' \<and> list_all id_char s \<and> length s \<le> n | _ \<Rightarrow> False)"

definition digest_of :: "(string \<Rightarrow> string) \<Rightarrow> json \<Rightarrow> string" where
  "digest_of sha v = sha (canonical_json v)"

definition identity_of :: "dict \<Rightarrow> dict" where
  "identity_of c = map (\<lambda>k. (k, dget c k)) [''task_id'', ''run_id'', ''task_version_hash'', ''composition_revision'']"

section \<open>The contract\<close>

definition validate_acquisition_references :: "json \<Rightarrow> unit res" where
  "validate_acquisition_references v = check (case v of
      JList rs \<Rightarrow> rs \<noteq> [] \<and> length rs \<le> 64 \<and> list_all (\<lambda>r. case r of
          JDict d \<Rightarrow> same_keys d [''acquisition_id'', ''source_sha256''] \<and> ident_like 127 (dget d ''acquisition_id'') \<and> hex64 (dget d ''source_sha256'')
        | _ \<Rightarrow> False) rs \<and> distinct (map (\<lambda>r. dget (default [] (as_dict r)) ''acquisition_id'') rs)
    | _ \<Rightarrow> False) (ValidationError ''acquisition provenance'')"

definition evidence_ok :: "json \<Rightarrow> bool" where
  "evidence_ok v = (case v of JDict d \<Rightarrow> same_keys d [''run_id'', ''attempt'', ''ledger_sha256''] \<and> ident_like 254 (dget d ''run_id'')
      \<and> (case dget d ''attempt'' of JInt n \<Rightarrow> 1 \<le> n | _ \<Rightarrow> False) \<and> hex64 (dget d ''ledger_sha256'')
    | _ \<Rightarrow> False)"

text \<open>A relative path without empty, dot or parent parts, backslashes and control characters.\<close>

definition safe_report_path :: "json \<Rightarrow> unit res" where
  "safe_report_path v = (case v of
      JStr s \<Rightarrow> check (CHR 0x5C \<notin> set s \<and> list_all (\<lambda>p. p \<notin> {[], ''.'', ''..''}) (split_on (CHR ''/'') s)
          \<and> list_all (\<lambda>c. 32 \<le> (of_char c :: nat) \<and> (of_char c :: nat) \<noteq> 127) s) (ValidationError ''artifact path'')
    | _ \<Rightarrow> Inl (TypeError ''path''))"

definition known_ids :: "dict \<Rightarrow> json list res" where
  "known_ids c = and_then (iter_json (dget c ''reportable_records'')) (collect (\<lambda>r. and_then (sub r ''record_id'') (\<lambda>i.
     and_then (hash_in i []) (\<lambda>_. Inr i))))"

definition known_only :: "json list \<Rightarrow> json list \<Rightarrow> json list res" where
  "known_only known rs = and_then (collect (\<lambda>r. and_then (hash_in r known) (\<lambda>b. Inr (r, b))) rs) (\<lambda>ps. Inr (map fst (filter snd ps)))"

definition str_is :: "json \<Rightarrow> string \<Rightarrow> bool" where
  "str_is v s = (v = JStr s)"

definition check_scope :: "json list \<Rightarrow> json \<Rightarrow> unit res" where
  "check_scope known entry = and_then (sub entry ''requested_record_ids'') (\<lambda>requested. and_then (sub entry ''record_ids'') (\<lambda>remaining.
     and_then (sub entry ''scope'') (\<lambda>scope.
     if str_is scope ''record'' then
       (if \<not> truthy requested then Inl (ValidationError ''record associations'')
        else and_then (iter_json requested) (\<lambda>rs. and_then (known_only known rs) (\<lambda>ks.
          check (pyeq remaining (JList ks)) (ValidationError ''record associations''))))
     else check (\<not> truthy requested \<and> \<not> truthy remaining) (ValidationError ''product associations''))))"

definition entry_source :: "json \<Rightarrow> json res" where
  "entry_source entry = and_then (sub entry ''source'') (\<lambda>v. Inr (if truthy v then v else JDict []))"

definition is_available :: "json \<Rightarrow> bool res" where
  "is_available entry = and_then (sub entry ''status'') (\<lambda>v. Inr (str_is v ''available''))"

definition check_availability :: "json \<Rightarrow> unit res" where
  "check_availability entry = and_then (is_available entry) (\<lambda>available. if \<not> available then Inr () else
     and_then (sub entry ''sha256'') (\<lambda>h. and_then (if h = JNull then Inr JNull else sub entry ''size_bytes'') (\<lambda>n.
       check (h \<noteq> JNull \<and> n \<noteq> JNull) (ValidationError ''verified hash or size''))))"

definition check_source :: "json \<Rightarrow> unit res" where
  "check_source entry = and_then (entry_source entry) (\<lambda>source. and_then (sub entry ''scope'') (\<lambda>scope. and_then (sub entry ''role'') (\<lambda>role.
     and_then (check (\<not> (truthy source \<and> \<not> str_is scope ''record'') \<and> \<not> (str_is scope ''run'' \<and> \<not> str_in role [''attachment'', ''evidence'']))
        (ValidationError ''artifact scope'')) (\<lambda>_.
     and_then (getk source ''kind'') (\<lambda>kind. if \<not> str_is kind ''cardrag_pdf'' then Inr () else
       and_then (check (str_is role ''attachment'') (ValidationError ''source PDF'')) (\<lambda>_.
       and_then (is_available entry) (\<lambda>available. if \<not> available then Inr () else
         and_then (sub entry ''sha256'') (\<lambda>h. and_then (sub source ''sha256'') (\<lambda>h'.
         and_then (check (pyeq h h') (ValidationError ''source descriptor'')) (\<lambda>_. and_then (sub entry ''size_bytes'') (\<lambda>n.
         and_then (sub source ''size_bytes'') (\<lambda>n'. check (pyeq n n') (ValidationError ''source descriptor'')))))))))))))"

definition is_selected :: "json \<Rightarrow> bool res" where
  "is_selected entry = and_then (sub entry ''include_in_compose'') (\<lambda>v. if \<not> truthy v then Inr False else
     and_then (is_available entry) (\<lambda>available. and_then (sub entry ''role'') (\<lambda>role. and_then (sub entry ''scope'') (\<lambda>scope.
     and_then (sub entry ''record_ids'') (\<lambda>remaining.
       if \<not> available \<or> \<not> str_in role [''attachment'', ''inline_image''] \<or> (str_is scope ''record'' \<and> \<not> truthy remaining)
       then Inl (ValidationError ''excluded artifact'') else Inr True)))))"

record contract =
  ct_ids :: "json list"
  ct_paths :: "json list"
  ct_selected :: "(json \<times> json) list"

definition check_entry :: "json list \<Rightarrow> json \<Rightarrow> contract \<Rightarrow> contract res" where
  "check_entry known entry st = and_then (sub entry ''artifact_id'') (\<lambda>i. and_then (sub entry ''path'') (\<lambda>path.
     and_then (safe_report_path path) (\<lambda>_. and_then (hash_in i (ct_ids st)) (\<lambda>a. and_then (hash_in path (ct_paths st)) (\<lambda>b.
     and_then (check (\<not> a \<and> \<not> b) (ValidationError ''duplicate artifact'')) (\<lambda>_. and_then (getk entry ''derived_from'') (\<lambda>refs.
     and_then (if refs = JNull then Inr () else validate_acquisition_references refs) (\<lambda>_. and_then (check_scope known entry) (\<lambda>_.
     and_then (check_availability entry) (\<lambda>_. and_then (check_source entry) (\<lambda>_. and_then (is_selected entry) (\<lambda>yes.
       Inr \<lparr>ct_ids = i # ct_ids st, ct_paths = path # ct_paths st,
            ct_selected = (if yes then (i, entry) # ct_selected st else ct_selected st)\<rparr>))))))))))))"

text \<open>A medium of the composition against the entry selected under its identity.\<close>

definition same_field :: "json \<Rightarrow> json \<Rightarrow> string \<Rightarrow> unit res" where
  "same_field a entry k = and_then (sub a k) (\<lambda>v. and_then (sub entry k) (\<lambda>w. check (pyeq v w) (ValidationError ''artifact metadata'')))"

definition check_medium :: "(json \<times> json) list \<Rightarrow> string \<times> json \<Rightarrow> json list \<Rightarrow> json list res" where
  "check_medium selected m observed = (case m of (role, a) \<Rightarrow> and_then (sub a ''artifact_id'') (\<lambda>i. and_then (hash_in i observed) (\<lambda>seen.
     case find (\<lambda>p. pyeq i (fst p)) selected of
       None \<Rightarrow> Inl (ValidationError ''approved artifact decisions'')
     | Some (j, entry) \<Rightarrow> and_then (sub entry ''role'') (\<lambda>r. if seen \<or> \<not> str_is r role then Inl (ValidationError ''approved artifact decisions'') else
         and_then (each (same_field a entry) [''path'', ''sha256'', ''size_bytes'', ''record_ids'']) (\<lambda>_.
         and_then (getk a ''source'') (\<lambda>s. and_then (sub entry ''source'') (\<lambda>s'. and_then (getk a ''derived_from'') (\<lambda>f. and_then (getk entry ''derived_from'') (\<lambda>f'.
         and_then (check (pyeq s s' \<and> pyeq f f') (ValidationError ''artifact associations'')) (\<lambda>_.
         and_then (entry_source entry) (\<lambda>source. and_then (getk source ''kind'') (\<lambda>kind.
         and_then (if str_is kind ''cardrag_pdf'' then and_then (sub a ''mime_type'') (\<lambda>t. check (str_is t ''application/pdf'') (ValidationError ''source PDF MIME''))
           else Inr ()) (\<lambda>_. Inr (i # observed))))))))))))))"

definition media_of :: "dict \<Rightarrow> (string \<times> json) list res" where
  "media_of c = and_then (iter_json (dget c ''inline_artifacts'')) (\<lambda>a. and_then (iter_json (dget c ''attachments'')) (\<lambda>b.
     Inr (map (Pair ''inline_image'') a @ map (Pair ''attachment'') b)))"

definition validate_artifact_contract :: "dict \<Rightarrow> unit res" where
  "validate_artifact_contract c = (if \<not> pyeq (dget c ''schema_version'') (JInt 4) then Inr () else (case dget c ''artifact_report'' of
     JDict report \<Rightarrow>
       and_then (check (list_all (\<lambda>(k, v). pyeq (dget report k) v) (identity_of c)) (ValidationError ''another revision'')) (\<lambda>_.
       and_then (check (map_of report ''acquisition_evidence'' = None \<or> evidence_ok (dget report ''acquisition_evidence'')) (ValidationError ''ledger binding'')) (\<lambda>_.
       and_then (known_ids c) (\<lambda>known. and_then (dsub report ''entries'') (\<lambda>es. and_then (iter_json es) (\<lambda>entries.
       and_then (fold_res (check_entry known) entries \<lparr>ct_ids = [], ct_paths = [], ct_selected = []\<rparr>) (\<lambda>st.
       and_then (media_of c) (\<lambda>media. and_then (fold_res (check_medium (ct_selected st)) media []) (\<lambda>observed.
         check (list_all (\<lambda>p. list_ex (pyeq (fst p)) observed) (ct_selected st)) (ValidationError ''omits an approved artifact'')))))))))
   | _ \<Rightarrow> Inl (ValidationError ''another revision'')))"

section \<open>The binding\<close>

definition composition_binding :: "(string \<Rightarrow> string) \<Rightarrow> dict \<Rightarrow> string \<Rightarrow> json \<Rightarrow> json \<Rightarrow> dict" where
  "composition_binding sha c raw files artifacts = (''schema_version'', JInt 1) # identity_of c
     @ [(''composition_input_sha256'', JStr (digest_of sha (JDict (composition_to_dict c)))), (''composition_result_sha256'', JStr (sha raw)),
        (''artifact_report_sha256'', JStr (digest_of sha (dget c ''artifact_report''))), (''files'', files)]
     @ (if truthy artifacts then [(''compose_artifacts'', artifacts)] else [])"

text \<open>\<open>Path(p).name\<close>\<close>

definition path_name :: "string \<Rightarrow> string" where
  "path_name s = (case rev (filter (\<lambda>p. p \<noteq> [] \<and> p \<noteq> ''.'') (split_on (CHR ''/'') s)) of [] \<Rightarrow> [] | p # _ \<Rightarrow> p)"

definition file_label :: "json \<Rightarrow> json \<Rightarrow> json res" where
  "file_label a path = and_then (getk a ''filename'') (\<lambda>v. if truthy v then Inr v else (case path of JStr s \<Rightarrow> Inr (JStr (path_name s)) | _ \<Rightarrow> Inl (TypeError ''path'')))"

definition delivery_item :: "string \<Rightarrow> json \<Rightarrow> bool \<Rightarrow> json \<Rightarrow> json res" where
  "delivery_item disposition media cid a = and_then (sub a ''path'') (\<lambda>path. and_then (file_label a path) (\<lambda>name.
     and_then (sub a ''size_bytes'') (\<lambda>n. and_then (sub a ''sha256'') (\<lambda>h. and_then (if cid then sub a ''cid'' else Inr JNull) (\<lambda>c.
       Inr (JDict ([(''path'', path), (''filename'', name), (''media_type'', get_or (default [] (as_dict a)) ''mime_type'' media),
         (''size_bytes'', n), (''sha256'', h), (''disposition'', JStr disposition)] @ (if cid then [(''content_id'', c)] else []))))))))"

definition media_default :: "json \<Rightarrow> json" where
  "media_default a = get_or (default [] (as_dict a)) ''media_type'' (JStr ''application/octet-stream'')"

definition delivery_artifacts :: "dict \<Rightarrow> json \<Rightarrow> json list res" where
  "delivery_artifacts c artifacts = and_then (iter_json (dget c ''inline_artifacts'')) (\<lambda>xs. and_then (iter_json (dget c ''attachments'')) (\<lambda>ys.
     and_then (if truthy artifacts then iter_json artifacts else Inr []) (\<lambda>zs.
     and_then (collect (\<lambda>a. delivery_item ''inline'' (media_default a) True a) xs) (\<lambda>r1.
     and_then (collect (\<lambda>a. delivery_item ''attachment'' (media_default a) False a) ys) (\<lambda>r2.
     and_then (collect (delivery_item ''inline'' (JStr ''image/png'') True) zs) (\<lambda>r3. Inr (r1 @ r2 @ r3)))))))"

section \<open>The stored composition\<close>

type_synonym file_reader = "string \<Rightarrow> string res"

record evidence_request =
  er_input :: "dict option"
  er_result :: "dict option"
  er_raw :: "string option"
  er_files :: "file_reader option"
  er_archive :: "file_reader option"
  er_request :: "json option"

definition binding_required :: "evidence_request \<Rightarrow> output_row option \<Rightarrow> bool res" where
  "binding_required q out = and_then (case er_request q of None \<Rightarrow> Inr False | Some v \<Rightarrow> if \<not> truthy v then Inr False
       else and_then (getk v ''composition_binding_sha256'') (\<lambda>x. Inr (truthy x))) (\<lambda>a.
     Inr (a \<or> (case out of None \<Rightarrow> False | Some r \<Rightarrow> truthy (dget (out_result r) ''composition_binding''))))"

definition stored_v4 :: "input_row option \<Rightarrow> bool res" where
  "stored_v4 i = (case i of None \<Rightarrow> Inr False | Some r \<Rightarrow> and_then (getk (inp_value r) ''schema_version'') (\<lambda>v. Inr (pyeq v (JInt 4))))"

text \<open>Whether the version 4 evidence applies to this message.\<close>

definition evidence_applies :: "evidence_request \<Rightarrow> input_row option \<Rightarrow> output_row option \<Rightarrow> bool res" where
  "evidence_applies q i out = and_then (binding_required q out) (\<lambda>required. case er_input q of
     None \<Rightarrow> if required then Inr True else stored_v4 i
   | Some c \<Rightarrow> if pyeq (dget c ''schema_version'') (JInt 4) then Inr True
       else if required then Inl (DeliveryError ''legacy input substituted'')
       else and_then (stored_v4 i) (\<lambda>v4. if v4 then Inl (DeliveryError ''legacy input substituted'') else Inr False))"

definition message_identity :: "json \<Rightarrow> string \<Rightarrow> string \<Rightarrow> int \<Rightarrow> dict" where
  "message_identity task run version revision = [(''task_id'', task), (''run_id'', JStr run), (''task_version_hash'', JStr version),
     (''composition_revision'', JInt revision)]"

definition rows_match :: "(string \<Rightarrow> string) \<Rightarrow> evidence_request \<Rightarrow> dict \<Rightarrow> json \<Rightarrow> string \<Rightarrow> string \<Rightarrow> int \<Rightarrow> string \<Rightarrow> input_row \<Rightarrow> output_row \<Rightarrow> bool" where
  "rows_match sha q c task run version revision grp i out =
     (pyeq (dget c ''schema_version'') (JInt 4) \<and> pyeq (JDict (identity_of c)) (JDict (message_identity task run version revision))
      \<and> pyeq (JStr (inp_task i)) task \<and> inp_version i = version \<and> pyeq (JStr (out_task out)) task \<and> out_revision out = revision
      \<and> out_group out = grp \<and> digest_of sha (inp_value i) = inp_sha i
      \<and> (case er_input q of None \<Rightarrow> True | Some x \<Rightarrow> pyeq (JDict (composition_to_dict x)) (inp_value i))
      \<and> (case er_result q of None \<Rightarrow> True | Some x \<Rightarrow> pyeq (JDict x) (JDict (stored_result out))))"

text \<open>A compose-only revision carries the entries of the report it was derived from.\<close>

definition parent_matches :: "(string \<Rightarrow> string) \<Rightarrow> json \<Rightarrow> string \<Rightarrow> dict \<Rightarrow> json \<Rightarrow> db \<Rightarrow> unit res" where
  "parent_matches sha task version report parent d = and_then (sub parent ''run_id'') (\<lambda>run. and_then (sub parent ''composition_revision'') (\<lambda>rv.
     case (case (run, as_int rv) of (JStr r, Some n) \<Rightarrow> get_composition_input_record r (Some n) d | _ \<Rightarrow> None) of
       None \<Rightarrow> Inl (DeliveryError ''stored parent revision'')
     | Some i \<Rightarrow> and_then (getk (inp_value i) ''artifact_report'') (\<lambda>previous.
         and_then (check (pyeq (JStr (inp_task i)) task \<and> inp_version i = version \<and> digest_of sha (inp_value i) = inp_sha i \<and> is_dict previous)
           (DeliveryError ''stored parent revision'')) (\<lambda>_. and_then (sub parent ''artifact_report_sha256'') (\<lambda>h.
         and_then (check (pyeq (JStr (digest_of sha previous)) h) (DeliveryError ''stored parent revision'')) (\<lambda>_.
         and_then (dsub report ''entries'') (\<lambda>entries.
           check (pyeq (dget (default [] (as_dict previous)) ''entries'') entries) (DeliveryError ''stored parent revision'')))))))) "

definition original_result :: "evidence_request \<Rightarrow> string res" where
  "original_result q = (case er_raw q of Some raw \<Rightarrow> Inr raw
   | None \<Rightarrow> (case (er_archive q, er_files q) of
       (Some f, _) \<Rightarrow> f ''composition-result.json'' | (None, Some f) \<Rightarrow> f ''composition-result.json''
     | _ \<Rightarrow> Inl (DeliveryError ''original composition result'')))"

definition selection_matches :: "string \<Rightarrow> dict \<Rightarrow> dict \<Rightarrow> string \<Rightarrow> output_row \<Rightarrow> unit res" where
  "selection_matches raw c def grp out = and_then (recast is_value_error (DeliveryError ''original artifact result'')
      (and_then (strict_json_loads raw DEFAULT_MAX_JSON_BYTES) (\<lambda>v. and_then (resolve_recipient v c def) (\<lambda>g.
        Inr (g, dput ''recipient_group_id'' g (ddel ''recipient_group_name'' (default [] (as_dict v)))))))) (\<lambda>(g, normal).
     check (pyeq g (JStr grp) \<and> pyeq (JDict normal) (JDict (stored_result out))) (DeliveryError ''stored normalized result''))"

definition byte_evidence :: "json \<Rightarrow> json res" where
  "byte_evidence a = and_then (sub a ''sha256'') (\<lambda>h. and_then (sub a ''size_bytes'') (\<lambda>n. Inr (JDict [(''sha256'', h), (''size_bytes'', n)])))"

definition inventory_path :: "json \<Rightarrow> string res" where
  "inventory_path a = and_then (sub a ''path'') (\<lambda>v. case v of JStr s \<Rightarrow> Inr s | _ \<Rightarrow> Inl (DeliveryError ''file inventory''))"

definition inventory_matches :: "output_row \<Rightarrow> json list \<Rightarrow> json \<Rightarrow> unit res" where
  "inventory_matches out artifacts files = and_then (collect inventory_path artifacts) (\<lambda>paths. case files of
     JDict fs \<Rightarrow> and_then (check (distinct (out_html out # out_text out # paths) \<and> same_keys fs (out_html out # out_text out # paths))
         (DeliveryError ''file inventory'')) (\<lambda>_.
       each (\<lambda>a. and_then (inventory_path a) (\<lambda>p. and_then (byte_evidence a) (\<lambda>ev. check (pyeq (dget fs p) ev) (DeliveryError ''byte evidence'')))) artifacts)
   | _ \<Rightarrow> Inl (DeliveryError ''file inventory''))"

definition archived_evidence :: "file_reader \<Rightarrow> json \<Rightarrow> json \<Rightarrow> json \<Rightarrow> unit res" where
  "archived_evidence f value report binding = each (\<lambda>(name, v). and_then (f name) (\<lambda>raw. check (raw = canonical_json v) (DeliveryError ''archived evidence'')))
     [(''composition-input.json'', value), (''artifact-report.json'', report), (''composition-binding.json'', binding)]"

definition bytes_match :: "(string \<Rightarrow> string) \<Rightarrow> dict \<Rightarrow> file_reader \<Rightarrow> unit res" where
  "bytes_match sha files f = each (\<lambda>(path, ev). and_then (f path) (\<lambda>content.
     check (pyeq ev (JDict [(''sha256'', JStr (sha content)), (''size_bytes'', JInt (int (length content)))])) (DeliveryError ''bytes changed''))) files"

definition body_path :: "json \<Rightarrow> string \<Rightarrow> json res" where
  "body_path request kind = and_then (sub request ''body'') (\<lambda>b. and_then (sub b kind) (\<lambda>x. sub x ''path''))"

definition request_matches :: "dict \<Rightarrow> json \<Rightarrow> dict \<Rightarrow> output_row \<Rightarrow> json \<Rightarrow> unit res" where
  "request_matches c artifacts files out request =
     and_then (sub request ''subject'') (\<lambda>s. and_then (body_path request ''html'') (\<lambda>h. and_then (body_path request ''text'') (\<lambda>t.
     and_then (check (pyeq s (JStr (out_subject out)) \<and> pyeq h (JStr (out_html out)) \<and> pyeq t (JStr (out_text out))) (DeliveryError ''delivery body'')) (\<lambda>_.
     and_then (sub request ''body'') (\<lambda>b. and_then (each (\<lambda>(k, x). and_then (byte_evidence x) (\<lambda>ev. and_then (sub x ''path'') (\<lambda>p.
         and_then (sub (JDict files) (default [] (as_str p))) (\<lambda>f. check (pyeq ev f) (DeliveryError ''delivery body hash''))))) (default [] (as_dict b))) (\<lambda>_.
     and_then (sub request ''attachments'') (\<lambda>at. and_then (delivery_artifacts c artifacts) (\<lambda>items.
       check (pyeq at (JList items)) (DeliveryError ''delivery attachments'')))))))))"

definition binding_of :: "dict \<Rightarrow> output_row \<Rightarrow> dict res" where
  "binding_of identity out = (case dget (out_result out) ''composition_binding'' of
     JDict b \<Rightarrow> and_then (check (list_all (\<lambda>(k, v). pyeq (dget b k) v) identity) (DeliveryError ''artifact binding'')) (\<lambda>_. Inr b)
   | _ \<Rightarrow> Inl (DeliveryError ''artifact binding''))"

definition roots_of :: "evidence_request \<Rightarrow> file_reader list" where
  "roots_of q = (case er_files q of None \<Rightarrow> [] | Some f \<Rightarrow> [f]) @ (case er_archive q of None \<Rightarrow> [] | Some f \<Rightarrow> [f])"

definition bound_composition :: "(string \<Rightarrow> string) \<Rightarrow> evidence_request \<Rightarrow> dict \<Rightarrow> dict \<Rightarrow> string \<Rightarrow> input_row \<Rightarrow> output_row \<Rightarrow> dict \<Rightarrow> unit res" where
  "bound_composition sha q c def grp i out binding =
     (let artifacts = (if truthy (dget binding ''compose_artifacts'') then dget binding ''compose_artifacts'' else JList []) in
     and_then (original_result q) (\<lambda>raw. and_then (selection_matches raw c def grp out) (\<lambda>_.
     and_then (media_of c) (\<lambda>media. and_then (iter_json artifacts) (\<lambda>extra.
     and_then (inventory_matches out (map snd media @ extra) (dget binding ''files'')) (\<lambda>_.
     and_then (check (pyeq (JDict binding) (JDict (composition_binding sha c raw (dget binding ''files'') artifacts))) (DeliveryError ''binding hashes'')) (\<lambda>_.
     and_then (case er_request q of None \<Rightarrow> Inr () | Some v \<Rightarrow> and_then (getk v ''composition_binding_sha256'') (\<lambda>h.
         check (pyeq h (JStr (digest_of sha (JDict binding)))) (DeliveryError ''request not bound''))) (\<lambda>_.
     and_then (case er_archive q of None \<Rightarrow> Inr () | Some f \<Rightarrow> archived_evidence f (inp_value i) (dget c ''artifact_report'') (JDict binding)) (\<lambda>_.
     and_then (check (roots_of q \<noteq> []) (DeliveryError ''artifact bytes'')) (\<lambda>_.
     and_then (each (bytes_match sha (default [] (as_dict (dget binding ''files'')))) (roots_of q)) (\<lambda>_.
       case er_request q of None \<Rightarrow> Inr () | Some v \<Rightarrow> request_matches c artifacts (default [] (as_dict (dget binding ''files''))) out v)))))))))))"

definition require_stored_composition :: "(string \<Rightarrow> string) \<Rightarrow> (json \<Rightarrow> bool) \<Rightarrow> dict \<Rightarrow> string \<Rightarrow> string \<Rightarrow> int \<Rightarrow> string \<Rightarrow> evidence_request \<Rightarrow> db \<Rightarrow> dict option res" where
  "require_stored_composition sha schema_ok def run version revision grp q d =
     (let record = get_composition_input_record run (Some revision) d; result = get_composition_result run (Some revision) d in
     and_then (evidence_applies q record result) (\<lambda>applies. if \<not> applies then Inr None else
     and_then (dsub def ''id'') (\<lambda>task. case (find_run run d, record, result) of
       (Some r, Some i, Some out) \<Rightarrow>
         if revision < 1 \<or> \<not> pyeq (JStr (run_task r)) task \<or> run_version r \<noteq> version then Inl (DeliveryError ''exact stored run and revision'')
         else (case inp_value i of
             JDict value \<Rightarrow> and_then (check (schema_ok (JDict value)) (DeliveryError ''artifact input schema'')) (\<lambda>_.
               and_then (composition_input value) (\<lambda>c.
               and_then (check (rows_match sha q c task run version revision grp i out) (DeliveryError ''artifact composition identity'')) (\<lambda>_.
               and_then (recast (\<lambda>er. is_data_error er \<or> (case er of KeyError k \<Rightarrow> True | _ \<Rightarrow> False)) (DeliveryError ''artifact associations'')
                  (validate_artifact_contract c)) (\<lambda>_.
               let report = default [] (as_dict (dget c ''artifact_report'')) in
               and_then (if truthy (dget report ''derived_from'') then parent_matches sha task version report (dget report ''derived_from'') d else Inr ()) (\<lambda>_.
               and_then (binding_of (message_identity task run version revision) out) (\<lambda>binding.
               and_then (bound_composition sha q c def grp i out binding) (\<lambda>_. Inr (Some binding))))))))
           | _ \<Rightarrow> Inl (DeliveryError ''artifact input schema''))
     | _ \<Rightarrow> Inl (DeliveryError ''exact stored run and revision''))))"

section \<open>What a contract establishes\<close>

text \<open>A medium is approved by an entry that is available, included, safe to write and equal to it.\<close>

definition approved_by :: "string \<Rightarrow> json \<Rightarrow> json \<Rightarrow> bool" where
  "approved_by role a entry =
     ((\<exists>i j. sub a ''artifact_id'' = Inr i \<and> sub entry ''artifact_id'' = Inr j \<and> pyeq i j)
      \<and> sub entry ''status'' = Inr (JStr ''available'') \<and> sub entry ''role'' = Inr (JStr role)
      \<and> (\<exists>v. sub entry ''include_in_compose'' = Inr v \<and> truthy v)
      \<and> (\<exists>p. sub entry ''path'' = Inr p \<and> safe_report_path p = Inr ())
      \<and> (\<forall>k \<in> {''path'', ''sha256'', ''size_bytes'', ''record_ids''}. \<exists>v w. sub a k = Inr v \<and> sub entry k = Inr w \<and> pyeq v w))"

definition included :: "json \<Rightarrow> bool" where
  "included entry = (\<exists>v. sub entry ''include_in_compose'' = Inr v \<and> truthy v)"

definition entry_fine :: "json list \<Rightarrow> json \<times> json \<Rightarrow> bool" where
  "entry_fine entries p = (snd p \<in> set entries \<and> sub (snd p) ''artifact_id'' = Inr (fst p) \<and> included (snd p)
     \<and> sub (snd p) ''status'' = Inr (JStr ''available'') \<and> (\<exists>q. sub (snd p) ''path'' = Inr q \<and> safe_report_path q = Inr ()))"

lemma is_selected_True:
  "is_selected entry = Inr True \<Longrightarrow> included entry \<and> sub entry ''status'' = Inr (JStr ''available'')"
  by (auto simp: is_selected_def is_available_def str_is_def included_def and_then_Inr split: if_splits)

lemma is_selected_False: "is_selected entry = Inr False \<Longrightarrow> \<not> included entry"
  by (auto simp: is_selected_def included_def and_then_Inr split: if_splits)

lemma check_entry_selected:
  assumes "check_entry known entry st = Inr st'"
  shows "ct_selected st' = ct_selected st \<and> \<not> included entry
    \<or> (\<exists>i. ct_selected st' = (i, entry) # ct_selected st \<and> included entry \<and> entry_fine [entry] (i, entry))"
proof -
  from assms obtain i path yes where e: "sub entry ''artifact_id'' = Inr i" "sub entry ''path'' = Inr path" "safe_report_path path = Inr ()"
    "is_selected entry = Inr yes" "ct_selected st' = (if yes then (i, entry) # ct_selected st else ct_selected st)"
    unfolding check_entry_def by (auto simp: and_then_Inr)
  then show ?thesis by (cases yes) (auto simp: entry_fine_def dest: is_selected_True is_selected_False)
qed

lemma entry_fine_mono: "entry_fine [e] p \<Longrightarrow> e \<in> set entries \<Longrightarrow> entry_fine entries p"
  by (auto simp: entry_fine_def)

lemma entries_selected:
  assumes "fold_res (check_entry known) es st = Inr st'"
    and "list_all (entry_fine entries) (ct_selected st)" "set es \<subseteq> set entries"
  shows "list_all (entry_fine entries) (ct_selected st') \<and> set (ct_selected st) \<subseteq> set (ct_selected st')
    \<and> (\<forall>e \<in> set es. included e \<longrightarrow> e \<in> snd ` set (ct_selected st'))"
  using assms
proof (induction es arbitrary: st)
  case (Cons e es)
  from Cons.prems(1) obtain s1 where s1: "check_entry known e st = Inr s1" "fold_res (check_entry known) es s1 = Inr st'"
    by (auto simp: and_then_Inr)
  note c = check_entry_selected [OF s1(1)]
  then have "list_all (entry_fine entries) (ct_selected s1)" using Cons.prems(2,3) by (auto intro: entry_fine_mono)
  from Cons.IH [OF s1(2) this] Cons.prems(3) c show ?case by force
qed simp

lemma check_medium_approved:
  assumes "check_medium selected (role, a) obs = Inr obs'" "list_all (entry_fine entries) selected"
  shows "\<exists>i. obs' = i # obs \<and> sub a ''artifact_id'' = Inr i \<and> (\<forall>j \<in> set obs. \<not> pyeq i j) \<and> (\<exists>entry \<in> set entries. approved_by role a entry)"
proof -
  from assms(1) obtain i seen j entry r where e: "sub a ''artifact_id'' = Inr i" "hash_in i obs = Inr seen"
      "find (\<lambda>p. pyeq i (fst p)) selected = Some (j, entry)" "sub entry ''role'' = Inr r" "\<not> seen" "str_is r role"
      "each (same_field a entry) [''path'', ''sha256'', ''size_bytes'', ''record_ids''] = Inr ()" "obs' = i # obs"
    unfolding check_medium_def by (auto simp: and_then_Inr split: option.splits if_splits)
  from e(3) have j: "(j, entry) \<in> set selected" "pyeq i j" by (auto simp: find_Some_iff) (metis fst_conv)
  from j(1) assms(2) have f: "entry_fine entries (j, entry)" by (auto simp: list_all_iff)
  have "\<forall>k \<in> {''path'', ''sha256'', ''size_bytes'', ''record_ids''}. \<exists>v w. sub a k = Inr v \<and> sub entry k = Inr w \<and> pyeq v w"
    using e(7) by (auto simp: each_Inr same_field_def and_then_Inr check_Inr)
  with e j f have "approved_by role a entry" "entry \<in> set entries"
    by (auto simp: approved_by_def entry_fine_def included_def str_is_def)
  moreover have "\<forall>j \<in> set obs. \<not> pyeq i j" using e(2,5) by (auto simp: hash_in_def list_ex_iff split: json.splits)
  ultimately show ?thesis using e(1,8) by blast
qed

lemma media_approved:
  assumes "fold_res (check_medium selected) ms obs = Inr obs'" "list_all (entry_fine entries) selected"
  shows "\<exists>ids. obs' = rev ids @ obs \<and> map (\<lambda>m. sub (snd m) ''artifact_id'') ms = map Inr ids
    \<and> sorted_wrt (\<lambda>i j. \<not> pyeq j i) (rev obs @ ids) = sorted_wrt (\<lambda>i j. \<not> pyeq j i) (rev obs)
    \<and> (\<forall>m \<in> set ms. \<exists>entry \<in> set entries. approved_by (fst m) (snd m) entry)"
  using assms(1)
proof (induction ms arbitrary: obs)
  case (Cons m ms)
  obtain role a where m: "m = (role, a)" by (cases m)
  from Cons.prems obtain o1 where o1: "check_medium selected (role, a) obs = Inr o1" "fold_res (check_medium selected) ms o1 = Inr obs'"
    by (auto simp: m and_then_Inr)
  from check_medium_approved [OF o1(1) assms(2)] obtain i where i: "o1 = i # obs" "sub a ''artifact_id'' = Inr i"
    "\<forall>j \<in> set obs. \<not> pyeq i j" "\<exists>entry \<in> set entries. approved_by role a entry" by blast
  from Cons.IH [OF o1(2)] obtain ids where ids: "obs' = rev ids @ o1" "map (\<lambda>m. sub (snd m) ''artifact_id'') ms = map Inr ids"
    "sorted_wrt (\<lambda>i j. \<not> pyeq j i) (rev o1 @ ids) = sorted_wrt (\<lambda>i j. \<not> pyeq j i) (rev o1)"
    "\<forall>m \<in> set ms. \<exists>entry \<in> set entries. approved_by (fst m) (snd m) entry" by blast
  have "sorted_wrt (\<lambda>i j. \<not> pyeq j i) (rev obs @ i # ids) = sorted_wrt (\<lambda>i j. \<not> pyeq j i) (rev obs)"
    using ids(3) i(1,3) by (simp add: sorted_wrt_append)
  with ids i m show ?case by (intro exI [of _ "i # ids"]) simp
qed simp

text \<open>C27: the media of a composition under the version 4 contract are exactly the approved artifacts:
  every inline image and attachment is an available entry of the report with the same path, hash,
  size and records and a safe path, no artifact occurs twice, and every included entry occurs.\<close>

theorem contract_media_exact:
  assumes "validate_artifact_contract c = Inr ()" "dget c ''schema_version'' = JInt 4"
  shows "\<exists>report es entries media ids. dget c ''artifact_report'' = JDict report \<and> dsub report ''entries'' = Inr es \<and> iter_json es = Inr entries
    \<and> media_of c = Inr media \<and> map (\<lambda>m. sub (snd m) ''artifact_id'') media = map Inr ids \<and> sorted_wrt (\<lambda>i j. \<not> pyeq j i) ids
    \<and> (\<forall>m \<in> set media. \<exists>entry \<in> set entries. approved_by (fst m) (snd m) entry)
    \<and> (\<forall>entry \<in> set entries. included entry \<longrightarrow> (\<exists>i \<in> set ids. \<exists>j. sub entry ''artifact_id'' = Inr j \<and> pyeq j i))"
proof -
  from assms obtain report where r: "dget c ''artifact_report'' = JDict report"
    by (auto simp: validate_artifact_contract_def split: json.splits)
  with assms obtain known es entries st media observed where h: "dsub report ''entries'' = Inr es" "iter_json es = Inr entries"
      "fold_res (check_entry known) entries \<lparr>ct_ids = [], ct_paths = [], ct_selected = []\<rparr> = Inr st"
      "media_of c = Inr media" "fold_res (check_medium (ct_selected st)) media [] = Inr observed"
      "list_all (\<lambda>p. list_ex (pyeq (fst p)) observed) (ct_selected st)"
    by (auto simp: validate_artifact_contract_def and_then_Inr check_Inr split: if_splits)
  from entries_selected [OF h(3), of entries] have s: "list_all (entry_fine entries) (ct_selected st)"
    "\<forall>e \<in> set entries. included e \<longrightarrow> e \<in> snd ` set (ct_selected st)" by auto
  from media_approved [OF h(5) s(1)] obtain ids where ids: "observed = rev ids" "map (\<lambda>m. sub (snd m) ''artifact_id'') media = map Inr ids"
    "sorted_wrt (\<lambda>i j. \<not> pyeq j i) ids" "\<forall>m \<in> set media. \<exists>entry \<in> set entries. approved_by (fst m) (snd m) entry" by auto
  have "\<exists>i \<in> set ids. \<exists>j. sub e ''artifact_id'' = Inr j \<and> pyeq j i" if "e \<in> set entries" "included e" for e
  proof -
    from s(2) that obtain p where p: "p \<in> set (ct_selected st)" "e = snd p" by auto
    with s(1) have "sub e ''artifact_id'' = Inr (fst p)" by (auto simp: list_all_iff entry_fine_def)
    moreover from h(6) p ids(1) have "\<exists>i \<in> set ids. pyeq (fst p) i" by (auto simp: list_all_iff list_ex_iff)
    ultimately show ?thesis by blast
  qed
  with r h(1,2,4) ids show ?thesis
    by (intro exI [of _ report] exI [of _ es] exI [of _ entries] exI [of _ media] exI [of _ ids] conjI ballI impI) simp_all
qed

definition sample_entry :: json where
  "sample_entry = JDict [(''artifact_id'', JStr ''a1''), (''path'', JStr ''media/a.png''), (''requested_record_ids'', JList [JStr ''r1'']),
     (''record_ids'', JList [JStr ''r1'']), (''scope'', JStr ''record''), (''status'', JStr ''available''), (''sha256'', JStr ''h''),
     (''size_bytes'', JInt 3), (''source'', JNull), (''role'', JStr ''inline_image''), (''include_in_compose'', JBool True)]"

definition sample_medium :: json where
  "sample_medium = JDict [(''artifact_id'', JStr ''a1''), (''path'', JStr ''media/a.png''), (''sha256'', JStr ''h''), (''size_bytes'', JInt 3),
     (''record_ids'', JList [JStr ''r1'']), (''source'', JNull)]"

definition sample_composition :: dict where
  "sample_composition = [(''task_id'', JStr ''t''), (''run_id'', JStr ''r''), (''task_version_hash'', JStr ''v''), (''composition_revision'', JInt 1),
     (''schema_version'', JInt 4), (''reportable_records'', JList [JDict [(''record_id'', JStr ''r1'')]]), (''inline_artifacts'', JList [sample_medium]),
     (''attachments'', JList []), (''artifact_report'', JDict [(''task_id'', JStr ''t''), (''run_id'', JStr ''r''), (''task_version_hash'', JStr ''v''),
        (''composition_revision'', JInt 1), (''entries'', JList [sample_entry])])]"

theorem contract_media_exact_witness:
  "\<exists>ids media. media_of sample_composition = Inr media \<and> map (\<lambda>m. sub (snd m) ''artifact_id'') media = map Inr ids"
proof -
  have "validate_artifact_contract sample_composition = Inr ()" by code_simp
  moreover have "dget sample_composition ''schema_version'' = JInt 4" by code_simp
  ultimately show ?thesis using contract_media_exact [of sample_composition] by blast
qed

text \<open>C28: a stored composition is accepted only with its exact evidence: the stored input has the hash
  it was stored with, its result has the given recipient group, the artifact contract holds, the
  binding has the hashes of input, original result, report and files, every file of the inventory
  has, in every directory, the recorded hash and size, and a request names the hash of the binding.\<close>

theorem stored_composition_evidence:
  assumes "require_stored_composition sha schema_ok def run version revision grp q d = Inr (Some b)"
  shows "\<exists>i ou val c raw. get_composition_input_record run (Some revision) d = Some i \<and> get_composition_result run (Some revision) d = Some ou
    \<and> inp_value i = JDict val \<and> composition_input val = Inr c \<and> validate_artifact_contract c = Inr ()
    \<and> inp_sha i = digest_of sha (JDict val) \<and> out_group ou = grp \<and> original_result q = Inr raw
    \<and> (\<exists>artifacts. pyeq (JDict b) (JDict (composition_binding sha c raw (dget b ''files'') artifacts)))
    \<and> roots_of q \<noteq> [] \<and> (\<forall>root \<in> set (roots_of q). \<forall>(path, ev) \<in> set (default [] (as_dict (dget b ''files''))).
        \<exists>content. root path = Inr content \<and> pyeq ev (JDict [(''sha256'', JStr (sha content)), (''size_bytes'', JInt (int (length content)))]))
    \<and> (\<forall>v. er_request q = Some v \<longrightarrow> (\<exists>h. getk v ''composition_binding_sha256'' = Inr h \<and> pyeq h (JStr (digest_of sha (JDict b)))))"
proof -
  let ?i = "get_composition_input_record run (Some revision) d" and ?ou = "get_composition_result run (Some revision) d"
  from assms obtain task where task: "dsub def ''id'' = Inr task"
    by (auto simp: require_stored_composition_def Let_def and_then_Inr split: if_splits)
  with assms obtain r i ou val where rows: "find_run run d = Some r" "?i = Some i" "?ou = Some ou" "inp_value i = JDict val"
    by (auto simp: require_stored_composition_def Let_def and_then_Inr split: if_splits option.splits json.splits)
  with assms task obtain c where c: "composition_input val = Inr c" "rows_match sha q c task run version revision grp i ou"
      "validate_artifact_contract c = Inr ()" "bound_composition sha q c def grp i ou b = Inr ()"
    by (auto simp: require_stored_composition_def Let_def and_then_Inr check_Inr recast_def split: if_splits sum.splits)
  from c(4) obtain raw where raw: "original_result q = Inr raw" by (auto simp: bound_composition_def Let_def and_then_Inr)
  with c(4) have b: "\<exists>artifacts. pyeq (JDict b) (JDict (composition_binding sha c raw (dget b ''files'') artifacts))" "roots_of q \<noteq> []"
    "each (bytes_match sha (default [] (as_dict (dget b ''files'')))) (roots_of q) = Inr ()"
    "\<forall>v. er_request q = Some v \<longrightarrow> (\<exists>h. getk v ''composition_binding_sha256'' = Inr h \<and> pyeq h (JStr (digest_of sha (JDict b))))"
    by (auto simp: bound_composition_def Let_def and_then_Inr check_Inr)
  from b(3) have "\<forall>root \<in> set (roots_of q). \<forall>(path, ev) \<in> set (default [] (as_dict (dget b ''files''))).
        \<exists>content. root path = Inr content \<and> pyeq ev (JDict [(''sha256'', JStr (sha content)), (''size_bytes'', JInt (int (length content)))])"
    by (force simp: each_Inr bytes_match_def and_then_Inr check_Inr)
  with rows c raw b show ?thesis by (auto simp: rows_match_def)
qed

definition stored_input :: dict where
  "stored_input = sample_composition @ [(''run'', JDict []), (''result'', JDict []), (''coverage'', JDict []),
     (''allowed_recipient_group_ids'', JList [JStr ''g''])]"

definition stored_files :: json where
  "stored_files = JDict [(''m.html'', JDict [(''sha256'', JStr ''h''), (''size_bytes'', JInt 1)]),
     (''m.txt'', JDict [(''sha256'', JStr ''h''), (''size_bytes'', JInt 2)]), (''media/a.png'', JDict [(''sha256'', JStr ''h''), (''size_bytes'', JInt 3)])]"

definition stored_output :: output_row where
  "stored_output = (let r = \<lparr>out_run = ''r'', out_task = ''t'', out_revision = 1, out_group = ''g'', out_reason = [], out_subject = ''s'',
       out_html = ''m.html'', out_text = ''m.txt'', out_included = JList [], out_result = [], out_created = 0\<rparr>
     in r\<lparr>out_result := output_payload r None (Some (JDict (composition_binding (\<lambda>x. ''h'')
       (projr (composition_input stored_input)) [] stored_files JNull))) None\<rparr>)"

definition stored_db :: db where
  "stored_db = empty_db\<lparr>db_runs := [(sample_run ''r'' ''t'')\<lparr>run_version := ''v''\<rparr>],
     db_inputs := [\<lparr>inp_run = ''r'', inp_task = ''t'', inp_version = ''v'', inp_revision = 1, inp_value = JDict stored_input, inp_sha = ''h'', inp_created = 0\<rparr>],
     db_outputs := [stored_output]\<rparr>"

definition stored_request :: evidence_request where
  "stored_request = \<lparr>er_input = None, er_result = None, er_raw = Some (dumps (JDict (stored_result stored_output))),
     er_files = Some (\<lambda>p. Inr (if p = ''media/a.png'' then ''abc'' else if p = ''m.txt'' then ''ab'' else ''a'')), er_archive = None, er_request = None\<rparr>"

definition stored_task :: dict where
  "stored_task = [(''id'', JStr ''t''), (''delivery'', JDict [(''allowed_recipient_group_ids'', JList [JStr ''g''])])]"

lemma stored_accepted: "require_stored_composition (\<lambda>x. ''h'') (\<lambda>x. True) stored_task ''r'' ''v'' 1 ''g'' stored_request stored_db
    = Inr (as_dict (dget (out_result stored_output) ''composition_binding''))"
  by code_simp

theorem stored_composition_evidence_witness:
  "\<exists>i. get_composition_input_record ''r'' (Some 1) stored_db = Some i \<and> inp_sha i = digest_of (\<lambda>x. ''h'') (inp_value i)"
proof -
  obtain b where "as_dict (dget (out_result stored_output) ''composition_binding'') = Some b"
    by (simp add: stored_output_def output_payload_def dget_def default_def Let_def)
  with stored_accepted have "require_stored_composition (\<lambda>x. ''h'') (\<lambda>x. True) stored_task ''r'' ''v'' 1 ''g'' stored_request stored_db = Inr (Some b)"
    by simp
  from stored_composition_evidence [OF this] show ?thesis by auto
qed

end
