(* ===== verification/Run_Archive.thy ===== *)
theory Run_Archive imports Worker begin

text \<open>
  The immutable archive of a run, \<open>engine/archive.py\<close>: evidence is written once into a pending
  directory and published by one rename. A pending archive is a list of files by relative path, the
  published archives are a list of trees by task and run. Bytes are text; SHA-256, the two JSON
  schemas, the MIME table and the failures of the disk are parameters. An exception value carries a
  label of its message, which the retained warnings quote.
\<close>

section \<open>The pending archive\<close>

type_synonym files = "(string \<times> string) list"
type_synonym archives = "((string \<times> string) \<times> files) list"

record pending =
  pa_task :: string
  pa_run :: string
  pa_files :: files
  pa_warnings :: "string list"

record archive_io =
  ai_sha :: "string \<Rightarrow> string"
  ai_mime :: "string \<Rightarrow> json"
  ai_disk :: "string \<Rightarrow> err option"
  ai_manifest_ok :: "json \<Rightarrow> bool"
  ai_index_ok :: "json \<Rightarrow> bool"
  ai_trace_max :: int
  ai_sync :: "err option"
  ai_rename :: "err option"
  ai_parent :: "err option"

definition new_archive :: "string \<Rightarrow> string \<Rightarrow> archives \<Rightarrow> pending res" where
  "new_archive task run archives = (if map_of archives (task, run) \<noteq> None then Inl (ValidationError ''immutable archive exists'')
     else Inr \<lparr>pa_task = task, pa_run = run, pa_files = [], pa_warnings = []\<rparr>)"

definition unsafe_name :: "string \<Rightarrow> bool" where
  "unsafe_name name = (take 1 name = ''/'' \<or> ''..'' \<in> set (path_parts name) \<or> CHR 0x5C \<in> set name)"

text \<open>\<open>open("xb")\<close> and \<open>mkdir\<close>: a path is free when no file lies at, above or below it.\<close>

definition occupied :: "string list \<Rightarrow> files \<Rightarrow> bool" where
  "occupied ps fs = list_ex (\<lambda>(q, _). take (length (path_parts q)) ps = path_parts q \<or> take (length ps) (path_parts q) = ps) fs"

definition archive_write :: "archive_io \<Rightarrow> string \<Rightarrow> string \<Rightarrow> pending \<Rightarrow> pending res" where
  "archive_write io name raw A = (let ps = path_parts name; path = join ''/'' ps in
     if unsafe_name name then Inl (ValidationError ''archive path'')
     else if ps = [] \<or> occupied ps (pa_files A) then Inl (OSError ''file exists'')
     else (case ai_disk io path of Some er \<Rightarrow> Inl er | None \<Rightarrow> Inr (A\<lparr>pa_files := pa_files A @ [(path, raw)]\<rparr>)))"

definition archive_json :: "archive_io \<Rightarrow> string \<Rightarrow> json \<Rightarrow> pending \<Rightarrow> pending res" where
  "archive_json io name v A = archive_write io name (canonical_json v) A"

text \<open>A log is copied within its limit; a log the runner streamed into place is only inspected.\<close>

definition bounded :: "int \<Rightarrow> string res \<Rightarrow> string res" where
  "bounded limit content = and_then content (\<lambda>c. if limit < int (length c) then Inl (WorkspaceError ''file size'') else Inr c)"

definition capture_log :: "archive_io \<Rightarrow> string \<Rightarrow> bool \<Rightarrow> string res \<Rightarrow> int \<Rightarrow> pending \<Rightarrow> pending res" where
  "capture_log io name in_place content limit A = (if unsafe_name name then Inl (ValidationError ''archive log path'')
     else and_then (bounded limit content) (\<lambda>c. if in_place then Inr A else archive_write io name c A))"

text \<open>The label of an exception value.\<close>

fun err_label :: "err \<Rightarrow> string" where
  "err_label (ValidationError s) = s"
| "err_label (HardGateError s) = s"
| "err_label (WorkspaceError s) = s"
| "err_label (RunnerError s) = s"
| "err_label (DeliveryError s) = s"
| "err_label (ReceiptError s) = s"
| "err_label (ConcurrencyError s) = s"
| "err_label (NotFoundError s) = s"
| "err_label (AuthRequiredError s) = s"
| "err_label (AuthenticationError s) = s"
| "err_label (AuthorizationError s) = s"
| "err_label (AuthRateLimitError s) = s"
| "err_label (IntegrityError s) = s"
| "err_label (ValueError s) = s"
| "err_label (TypeError s) = s"
| "err_label (KeyError s) = s"
| "err_label (AttributeError s) = s"
| "err_label (OSError s) = s"
| "err_label (OverflowError s) = s"

text \<open>What a walk of a worker directory meets, in its order.\<close>

datatype walk_item = LinkDir string | FileItem string "string res"

definition refusal :: "string \<Rightarrow> string \<Rightarrow> string" where
  "refusal prefix rel = ''Rejected '' @ prefix @ ''/'' @ rel"

definition captured_bytes :: "nat \<Rightarrow> string res \<Rightarrow> int \<Rightarrow> int" where
  "captured_bytes count content bytes = (if 1000 < count then bytes else (case bounded 50000000 content of Inl _ \<Rightarrow> bytes | Inr c \<Rightarrow> bytes + int (length c)))"

definition capture_file :: "archive_io \<Rightarrow> string \<Rightarrow> string \<Rightarrow> string res \<Rightarrow> nat \<Rightarrow> int \<Rightarrow> pending \<Rightarrow> pending res" where
  "capture_file io prefix rel content count bytes A = (if 1000 < count then Inl (ValidationError ''Evidence file count limit exceeded'')
     else and_then (bounded 50000000 content) (\<lambda>c. if 100000000 < bytes then Inl (ValidationError ''Evidence byte limit exceeded'')
       else archive_write io (prefix @ ''/'' @ rel) c A))"

fun capture :: "archive_io \<Rightarrow> string \<Rightarrow> walk_item list \<Rightarrow> nat \<Rightarrow> int \<Rightarrow> pending \<Rightarrow> pending" where
  "capture io prefix [] count bytes A = A"
| "capture io prefix (LinkDir rel # ws) count bytes A = capture io prefix ws count bytes
     (A\<lparr>pa_warnings := pa_warnings A @ [''Rejected symlink directory: '' @ prefix @ ''/'' @ rel]\<rparr>)"
| "capture io prefix (FileItem rel content # ws) count bytes A =
     (let n = Suc count; size = captured_bytes n content bytes in
      case capture_file io prefix rel content n size A of
        Inr A' \<Rightarrow> capture io prefix ws n size A'
      | Inl er \<Rightarrow> let A' = A\<lparr>pa_warnings := pa_warnings A @ [refusal prefix rel @ '': '' @ err_label er]\<rparr> in
          if 1000 < n \<or> 100000000 < size then A' else capture io prefix ws n size A')"

section \<open>Publication\<close>

definition archive_roles :: "(string \<times> string) list" where
  "archive_roles = [(''result.json'', ''research_result''), (''composition-input.json'', ''composition_input''),
     (''composition-result.json'', ''composition_result''), (''email.html'', ''composed_html''), (''email.txt'', ''composed_text''),
     (''delivery-request.json'', ''delivery_request''), (''validation-report.json'', ''validation_report'')]"

definition archive_entry :: "archive_io \<Rightarrow> string \<times> string \<Rightarrow> json" where
  "archive_entry io f = (case f of (name, raw) \<Rightarrow> JDict [(''relative_path'', JStr name),
     (''role'', JStr (default ''evidence'' (map_of archive_roles name))), (''sha256'', JStr (ai_sha io raw)),
     (''size_bytes'', JInt (int (length raw))),
     (''mime_type'', if truthy (ai_mime io name) then ai_mime io name else JStr ''application/octet-stream'')])"

definition file_limit :: "archive_io \<Rightarrow> string \<Rightarrow> int" where
  "file_limit io name = (if take 5 name = ''logs/'' then max 100000000 (ai_trace_max io) else 100000000)"

definition evidence_files :: "pending \<Rightarrow> files" where
  "evidence_files A = sort_key (\<lambda>f. path_parts (fst f)) (filter (\<lambda>f. fst f \<noteq> ''run-manifest.json'') (pa_files A))"

definition archive_index :: "archive_io \<Rightarrow> string \<Rightarrow> pending \<Rightarrow> dict" where
  "archive_index io raw A = [(''task_id'', JStr (pa_task A)), (''run_id'', JStr (pa_run A)),
     (''artifacts'', JList (map (archive_entry io) (evidence_files A))),
     (''run_manifest'', JDict [(''relative_path'', JStr ''run-manifest.json''), (''sha256'', JStr (ai_sha io raw))])]"

definition with_warnings :: "dict \<Rightarrow> pending \<Rightarrow> dict" where
  "with_warnings manifest A = dput ''warnings'' (JList (default [] (as_list (dget manifest ''warnings'')) @ map JStr (pa_warnings A))) manifest"

text \<open>The staged tree up to the synchronisation, and its publication: the guard is asked right
  before the rename, after which only the directory itself is synchronised.\<close>

definition stage_manifest :: "archive_io \<Rightarrow> dict \<Rightarrow> pending \<Rightarrow> pending res" where
  "stage_manifest io manifest A = (let m = JDict (with_warnings manifest A); raw = canonical_json m in
     and_then (check (ai_manifest_ok io m) (ValidationError ''run manifest schema'')) (\<lambda>_.
     and_then (archive_write io ''run-manifest.json'' raw A) (\<lambda>A1.
     and_then (each (\<lambda>(name, c). check (int (length c) \<le> file_limit io name) (WorkspaceError ''file size'')) (evidence_files A1)) (\<lambda>_.
     and_then (check (ai_index_ok io (JDict (archive_index io raw A1))) (ValidationError ''artifact manifest schema'')) (\<lambda>_.
     and_then (archive_json io ''artifact-manifest.json'' (JDict (archive_index io raw A1)) A1) (\<lambda>A2.
       case ai_sync io of Some er \<Rightarrow> Inl er | None \<Rightarrow> Inr A2))))))"

definition archive_finish :: "archive_io \<Rightarrow> dict \<Rightarrow> unit res \<Rightarrow> pending \<Rightarrow> archives \<Rightarrow> unit res \<times> archives" where
  "archive_finish io manifest guard A archives = (case stage_manifest io manifest A of
     Inl er \<Rightarrow> (Inl er, archives)
   | Inr A' \<Rightarrow> (case guard of Inl er \<Rightarrow> (Inl er, archives) | Inr _ \<Rightarrow>
       if map_of archives (pa_task A', pa_run A') \<noteq> None then (Inl (ValidationError ''archive collision''), archives)
       else (case ai_rename io of Some er \<Rightarrow> (Inl er, archives) | None \<Rightarrow>
         (case ai_parent io of Some er \<Rightarrow> Inl er | None \<Rightarrow> Inr (), archives @ [((pa_task A', pa_run A'), pa_files A')]))))"

section \<open>What is published\<close>

lemma archive_write_Inr: "archive_write io name raw A = Inr A' \<longleftrightarrow> \<not> unsafe_name name \<and> path_parts name \<noteq> []
    \<and> \<not> occupied (path_parts name) (pa_files A) \<and> ai_disk io (join ''/'' (path_parts name)) = None
    \<and> A' = A\<lparr>pa_files := pa_files A @ [(join ''/'' (path_parts name), raw)]\<rparr>"
  by (auto simp: archive_write_def Let_def split: option.splits)

lemma plain_names: "join ''/'' (path_parts ''run-manifest.json'') = ''run-manifest.json''"
  "join ''/'' (path_parts ''artifact-manifest.json'') = ''artifact-manifest.json''"
  by code_simp+

lemma stage_manifest_files:
  assumes "stage_manifest io manifest A = Inr A'"
  shows "pa_task A' = pa_task A \<and> pa_run A' = pa_run A \<and> (\<exists>raw. raw = canonical_json (JDict (with_warnings manifest A))
    \<and> (let A1 = A\<lparr>pa_files := pa_files A @ [(''run-manifest.json'', raw)]\<rparr>; index = archive_index io raw A1 in
       ai_manifest_ok io (JDict (with_warnings manifest A)) \<and> ai_index_ok io (JDict index)
       \<and> pa_files A' = pa_files A1 @ [(''artifact-manifest.json'', canonical_json (JDict index))]))"
  using assms by (auto simp: stage_manifest_def archive_json_def Let_def and_then_Inr check_Inr archive_write_Inr plain_names split: option.splits)

lemma archive_finish_kept: "archive_finish io manifest guard A ar = (r, ar) \<Longrightarrow> r \<noteq> Inr ()"
  by (auto simp: archive_finish_def split: sum.splits if_splits option.splits)

lemma archive_finish_published:
  assumes "archive_finish io manifest guard A ar = (r, ar')" "ar' \<noteq> ar"
  obtains A' where "stage_manifest io manifest A = Inr A'" "guard = Inr ()" "map_of ar (pa_task A, pa_run A) = None"
    "ar' = ar @ [((pa_task A, pa_run A), pa_files A')]"
proof (cases "stage_manifest io manifest A")
  case (Inl er)
  with assms show ?thesis by (simp add: archive_finish_def)
next
  case (Inr A')
  from stage_manifest_files [OF Inr] have key: "pa_task A' = pa_task A" "pa_run A' = pa_run A" by simp_all
  from assms Inr key have "guard = Inr () \<and> map_of ar (pa_task A, pa_run A) = None \<and> ar' = ar @ [((pa_task A, pa_run A), pa_files A')]"
    unfolding archive_finish_def by (simp split: sum.splits if_splits option.splits)
  with Inr that show ?thesis by blast
qed

text \<open>C30: a run archive is published once and whole: publication never changes an archive that exists,
  needs the guard at the last moment, and publishes exactly the files staged before, the manifest
  with the warnings of the evidence capture, and an index with the hash and size of every one of
  them; a result without error means it was published.\<close>

theorem archive_published_whole:
  assumes "archive_finish io manifest guard A ar = (r, ar')"
  shows "(r = Inr () \<longrightarrow> ar' \<noteq> ar) \<and> (ar' = ar \<or> guard = Inr () \<and> map_of ar (pa_task A, pa_run A) = None
    \<and> (\<exists>files raw index. ar' = ar @ [((pa_task A, pa_run A), files)]
        \<and> files = pa_files A @ [(''run-manifest.json'', raw), (''artifact-manifest.json'', canonical_json (JDict index))]
        \<and> raw = canonical_json (JDict (with_warnings manifest A))
        \<and> dget index ''run_manifest'' = JDict [(''relative_path'', JStr ''run-manifest.json''), (''sha256'', JStr (ai_sha io raw))]
        \<and> (\<exists>entries. dget index ''artifacts'' = JList entries \<and> set entries = archive_entry io ` {f \<in> set (pa_files A). fst f \<noteq> ''run-manifest.json''})))"
proof (cases "ar' = ar")
  case True
  with assms archive_finish_kept show ?thesis by blast
next
  case False
  with assms obtain A' where a: "stage_manifest io manifest A = Inr A'" "guard = Inr ()" "map_of ar (pa_task A, pa_run A) = None"
      "ar' = ar @ [((pa_task A, pa_run A), pa_files A')]"
    by (rule archive_finish_published)
  note f = stage_manifest_files [OF a(1)]
  let ?raw = "canonical_json (JDict (with_warnings manifest A))"
  let ?index = "archive_index io ?raw (A\<lparr>pa_files := pa_files A @ [(''run-manifest.json'', ?raw)]\<rparr>)"
  have entries: "dget ?index ''artifacts'' = JList (map (archive_entry io) (evidence_files (A\<lparr>pa_files := pa_files A @ [(''run-manifest.json'', ?raw)]\<rparr>)))"
    "dget ?index ''run_manifest'' = JDict [(''relative_path'', JStr ''run-manifest.json''), (''sha256'', JStr (ai_sha io ?raw))]"
    by (simp_all add: archive_index_def dget_def)
  have "set (map (archive_entry io) (evidence_files (A\<lparr>pa_files := pa_files A @ [(''run-manifest.json'', ?raw)]\<rparr>)))
      = archive_entry io ` {f \<in> set (pa_files A). fst f \<noteq> ''run-manifest.json''}"
    by (auto simp: evidence_files_def)
  with a f entries False show ?thesis
    by (intro conjI disjI2 exI [of _ ?raw] exI [of _ ?index] exI [of _ "pa_files A'"]) (auto simp: Let_def)
qed

definition sample_archive_io :: archive_io where
  "sample_archive_io = \<lparr>ai_sha = (\<lambda>s. ''h''), ai_mime = (\<lambda>n. JNull), ai_disk = (\<lambda>n. None), ai_manifest_ok = (\<lambda>v. True),
     ai_index_ok = (\<lambda>v. True), ai_trace_max = 10, ai_sync = None, ai_rename = None, ai_parent = None\<rparr>"

definition sample_pending :: pending where
  "sample_pending = \<lparr>pa_task = ''t1'', pa_run = ''r1'', pa_files = [(''result.json'', ''x'')], pa_warnings = []\<rparr>"

theorem archive_published_whole_witness:
  "\<exists>files. snd (archive_finish sample_archive_io [(''status'', JStr ''succeeded''), (''warnings'', JList [])] (Inr ()) sample_pending [])
      = [((''t1'', ''r1''), files)] \<and> (''result.json'', ''x'') \<in> set files"
proof -
  let ?f = "archive_finish sample_archive_io [(''status'', JStr ''succeeded''), (''warnings'', JList [])] (Inr ()) sample_pending []"
  have ok: "fst ?f = Inr ()" by code_simp
  have "?f = (fst ?f, snd ?f)" by simp
  from archive_published_whole [OF this] ok show ?thesis by (auto simp: sample_pending_def)
qed

end
