(* ===== verification/Publication.thy ===== *)
theory Publication imports Artifact_Integrity Dispatch Run_Archive begin

text \<open>
  Publication of a message to the outbox of the mail queue, \<open>delivery/handoff.py\<close> with the
  package operations of \<open>delivery/package.py\<close> and the operator alerts of
  \<open>delivery/system_alert.py\<close>. The
  outbox is a list of immutable packages, each its request text and files; a disk failure, the
  UTF-8 decoder and the JSON schema validator are parameters. Every repository call is a transaction
  of its own, so an operation returns its result with the state it reached.
\<close>

section \<open>The site: store, workspaces, outbox and archives\<close>

type_synonym package = "string \<times> (string \<times> string) list"

record site =
  si_db :: db
  si_ws :: workspaces
  si_outbox :: "(string \<times> package) list"
  si_archives :: archives

record publisher = settings +
  pb_env :: env
  pb_sha :: "string \<Rightarrow> string"
  pb_addr_ok :: "string \<Rightarrow> bool"
  pb_config :: "delivery_config res"
  pb_request_ok :: "json \<Rightarrow> bool"
  pb_utf8 :: "string \<Rightarrow> bool"
  pb_disk :: "err option"

definition tx :: "(db \<Rightarrow> ('a \<times> db) res) \<Rightarrow> site \<Rightarrow> 'a res \<times> site" where
  "tx f w = (case f (si_db w) of Inl er \<Rightarrow> (Inl er, w) | Inr (x, d) \<Rightarrow> (Inr x, w\<lparr>si_db := d\<rparr>))"

definition peek :: "(db \<Rightarrow> 'a res) \<Rightarrow> site \<Rightarrow> 'a res \<times> site" where
  "peek f w = (f (si_db w), w)"

lemma tx_Inr: "tx f w = (Inr x, w') \<longleftrightarrow> (\<exists>d. f (si_db w) = Inr (x, d) \<and> w' = w\<lparr>si_db := d\<rparr>)"
  by (auto simp: tx_def split: sum.splits)

lemma tx_Inl: "tx f w = (Inl er, w') \<longleftrightarrow> f (si_db w) = Inl er \<and> w' = w"
  by (auto simp: tx_def split: sum.splits)

lemma seq_cases: "seq m f = (r, w') \<longleftrightarrow> (\<exists>er w. m = (Inl er, w) \<and> r = Inl er \<and> w' = w) \<or> (\<exists>x w. m = (Inr x, w) \<and> f x w = (r, w'))"
  by (cases m) (auto simp: seq_def split: sum.splits)

section \<open>Packages\<close>

definition MAX_PACKAGE_BYTES :: int where "MAX_PACKAGE_BYTES = 50 * 1024 * 1024"

text \<open>One file of a request: its hash, size and content identifier, and the running total.\<close>

definition validated_file :: "publisher \<Rightarrow> file_reader \<Rightarrow> json \<Rightarrow> (string \<times> string) list \<times> nat \<times> json list \<Rightarrow>
    ((string \<times> string) list \<times> nat \<times> json list) res" where
  "validated_file p f info st = (case st of (files, bytes, cids) \<Rightarrow> and_then (inventory_path info) (\<lambda>path.
     if map_of files path \<noteq> None \<or> path = ''delivery-request.json'' then Inl (DeliveryError ''duplicate or reserved path'')
     else and_then (f path) (\<lambda>content. and_then (byte_evidence info) (\<lambda>ev.
       if \<not> pyeq ev (JDict [(''sha256'', JStr (pb_sha p content)), (''size_bytes'', JInt (int (length content)))])
       then Inl (DeliveryError ''hash or size mismatch'')
       else and_then (getk info ''content_id'') (\<lambda>cid.
         if truthy cid \<and> (list_ex (pyeq cid) cids \<or> list_ex (\<lambda>c. c \<in> {CHR 0x0D, CHR 0x0A, CHR ''<'', CHR ''>''}) (default [] (as_str cid)))
         then Inl (DeliveryError ''Content-ID'')
         else and_then (sub info ''media_type'') (\<lambda>media.
           if str_in media [''text/html'', ''text/plain''] \<and> \<not> pb_utf8 p content then Inl (DeliveryError ''valid UTF-8'')
           else if MAX_PACKAGE_BYTES < int (bytes + length content) then Inl (DeliveryError ''total size limit'')
           else Inr (files @ [(path, content)], bytes + length content, if truthy cid then cid # cids else cids)))))))"

definition request_infos :: "json \<Rightarrow> json list res" where
  "request_infos request = and_then (sub request ''body'') (\<lambda>b. and_then (sub b ''html'') (\<lambda>h. and_then (sub b ''text'') (\<lambda>t.
     and_then (sub request ''attachments'') (\<lambda>at. and_then (iter_json at) (\<lambda>as. Inr (h # t # as))))))"

definition validated_files :: "publisher \<Rightarrow> file_reader \<Rightarrow> json \<Rightarrow> (string \<times> string) list res" where
  "validated_files p f request = and_then (check (pb_request_ok p request) (DeliveryError ''delivery request'')) (\<lambda>_.
     and_then (request_infos request) (\<lambda>infos. and_then (fold_res (validated_file p f) infos ([], 0, [])) (\<lambda>st. Inr (fst st))))"

text \<open>A package is published once; publishing it again compares every byte.\<close>

definition publish_package :: "err option \<Rightarrow> string \<Rightarrow> string \<Rightarrow> (string \<times> string) list \<Rightarrow> (string \<times> package) list \<Rightarrow> (string \<times> package) list res" where
  "publish_package disk i raw files outbox = (case map_of outbox i of
     Some (raw', files') \<Rightarrow> if raw' \<noteq> raw then Inl (DeliveryError ''immutable package'')
       else and_then (each (\<lambda>(path, content). check (map_of files' path = Some content) (DeliveryError ''package contents changed'')) files) (\<lambda>_. Inr outbox)
   | None \<Rightarrow> (case disk of Some er \<Rightarrow> Inl er | None \<Rightarrow> Inr (outbox @ [(i, (raw, files))])))"

definition read_package :: "string \<Rightarrow> (string \<times> package) list \<Rightarrow> file_reader" where
  "read_package i outbox path = (case map_of outbox i of None \<Rightarrow> Inl (DeliveryError ''read package file'')
     | Some (raw, files) \<Rightarrow> (case map_of ((''delivery-request.json'', raw) # files) path of
         None \<Rightarrow> Inl (DeliveryError ''read package file'') | Some c \<Rightarrow> Inr c))"

definition handoff_char :: "char \<Rightarrow> bool" where
  "handoff_char c = (alnum c \<or> c = CHR ''-'' \<or> c = CHR ''_'')"

definition handoff_fields :: "handoff_row \<Rightarrow> dict" where
  "handoff_fields h = [(''handoff_id'', JStr (ho_id h)), (''idempotency_key'', JStr (ho_key h)), (''task_id'', JStr (ho_task h)),
     (''run_id'', JStr (ho_run h)), (''task_version_hash'', JStr (ho_version h)), (''message_revision'', JInt (ho_revision h)),
     (''message_type'', JStr (ho_type h)), (''recipient_group_id'', JStr (ho_group h))]"

text \<open>The request text was printed by \<open>json.dumps\<close>; on such text \<open>json.loads\<close> is the strict decoder.\<close>

definition validate_outbox :: "publisher \<Rightarrow> handoff_row \<Rightarrow> (string \<times> package) list \<Rightarrow> (json \<times> (string \<times> string) list) res" where
  "validate_outbox p h outbox = and_then (check (ho_id h \<noteq> [] \<and> list_all handoff_char (ho_id h)) (DeliveryError ''handoff ID'')) (\<lambda>_.
     and_then (read_package (ho_id h) outbox ''delivery-request.json'') (\<lambda>raw.
     and_then (check (pb_sha p raw = ho_request_sha h) (DeliveryError ''request hash'')) (\<lambda>_.
     and_then (case json_loads raw of None \<Rightarrow> Inl (ValueError ''request'') | Some v \<Rightarrow> Inr v) (\<lambda>request.
     and_then (check (pyeq request (ho_request h)) (DeliveryError ''durable handoff'')) (\<lambda>_.
     and_then (each (\<lambda>(k, v). and_then (sub request k) (\<lambda>x. check (pyeq x v) (DeliveryError ''request identity''))) (handoff_fields h)) (\<lambda>_.
     and_then (validated_files p (read_package (ho_id h) outbox) request) (\<lambda>files. Inr (request, files))))))))"

section \<open>The publisher\<close>

definition approve :: "publisher \<Rightarrow> handoff_row \<Rightarrow> db \<Rightarrow> unit res" where
  "approve p h d = and_then (pb_config p) (\<lambda>cfg.
     require_approval (pb_env p) (pb_addr_ok p) (pb_sha p) (settings.truncate p) cfg (handoff_claim h) d)"

definition publish :: "publisher \<Rightarrow> handoff_row \<Rightarrow> string \<Rightarrow> (string \<times> string) list \<Rightarrow> site \<Rightarrow> handoff_row res \<times> site" where
  "publish p h raw files w = seq (peek (approve p h) w) (\<lambda>_ w1.
     case publish_package (pb_disk p) (ho_id h) raw files (si_outbox w1) of
       Inl er \<Rightarrow> (Inl er, w1)
     | Inr outbox \<Rightarrow> (let h' = h\<lparr>ho_status := ''published'', ho_published := Some (now (pb_env p))\<rparr> in
         seq (tx (save_handoff (pb_env p) h') (w1\<lparr>si_outbox := outbox\<rparr>)) (\<lambda>_ w2. (Inr h', w2))))"

record publication =
  pu_task :: dict
  pu_run :: run_row
  pu_input :: dict
  pu_result :: output_row
  pu_files :: file_reader
  pu_hashes :: dict
  pu_force :: "string option"

definition publication_mode :: "publication \<Rightarrow> string res" where
  "publication_mode u = and_then (case pu_force u of Some m \<Rightarrow> if m \<noteq> [] then Inr (JStr m) else and_then (dict_default (pu_task u) ''delivery'') (\<lambda>x. Inr (get_or x ''mode'' (JStr ''dry_run'')))
       | None \<Rightarrow> and_then (dict_default (pu_task u) ''delivery'') (\<lambda>x. Inr (get_or x ''mode'' (JStr ''dry_run'')))) (\<lambda>v. case v of
     JStr m \<Rightarrow> if m \<in> {''disabled'', ''dry_run'', ''handoff''} then Inr m else Inl (DeliveryError ''delivery mode'')
   | _ \<Rightarrow> Inl (DeliveryError ''delivery mode''))"

definition publication_identity :: "publication \<Rightarrow> unit res" where
  "publication_identity u = (let r = pu_run u; c = pu_input u in
     and_then (dsub (pu_task u) ''id'') (\<lambda>task. check (pyeq task (JStr (run_task r)) \<and> pyeq (dget c ''task_id'') (JStr (run_task r))
       \<and> pyeq (dget c ''run_id'') (JStr (run_id r)) \<and> pyeq (dget c ''task_version_hash'') (JStr (run_version r))) (DeliveryError ''identity mismatch'')))"

definition composition_revision :: "publication \<Rightarrow> int" where
  "composition_revision u = default 0 (as_int (dget (pu_input u) ''composition_revision''))"

definition composition_evidence :: "publisher \<Rightarrow> publication \<Rightarrow> db \<Rightarrow> dict option res" where
  "composition_evidence p u d = require_stored_composition (pb_sha p) (set_schema_ok p) (pu_task u) (run_id (pu_run u)) (run_version (pu_run u))
     (composition_revision u) (out_group (pu_result u)) \<lparr>er_input = Some (pu_input u), er_result = Some (stored_result (pu_result u)), er_raw = None,
       er_files = Some (pu_files u), er_archive = None, er_request = None\<rparr> d"

text \<open>A recipient selected by name is checked against the stored selection and the current catalog.\<close>

definition named_recipient :: "publisher \<Rightarrow> publication \<Rightarrow> db \<Rightarrow> unit res" where
  "named_recipient p u d = and_then (routing_mode (pu_task u)) (\<lambda>mode. if mode \<noteq> ''catalog_name'' then Inr () else
     and_then (pu_files u ''composition-result.json'') (\<lambda>raw.
     and_then (check (dget (pu_hashes u) ''composition_result'' = JStr (pb_sha p raw)) (DeliveryError ''composition result changed'')) (\<lambda>_.
     and_then (require_stored_selection (pb_sha p) (set_schema_ok p) (pu_task u) (Some (run_id (pu_run u))) (run_version (pu_run u))
        (dget (pu_input u) ''composition_revision'') (out_group (pu_result u))
        \<lparr>sv_input = Some (pu_input u), sv_result = Some (stored_result (pu_result u)), sv_raw = Some raw\<rparr> d) (\<lambda>_.
     and_then (pb_config p) (\<lambda>cfg. require_current_recipient (pb_addr_ok p) cfg (out_group (pu_result u)) True (Some (JStr (run_task (pu_run u)))) d)))))"

definition body_info :: "publisher \<Rightarrow> publication \<Rightarrow> string \<Rightarrow> string \<Rightarrow> string \<Rightarrow> json res" where
  "body_info p u kind path media = and_then (pu_files u path) (\<lambda>content. and_then (dsub (pu_hashes u) kind) (\<lambda>h.
     if h \<noteq> JStr (pb_sha p content) then Inl (DeliveryError ''composition body changed'')
     else Inr (JDict [(''path'', JStr path), (''sha256'', h), (''media_type'', JStr media), (''size_bytes'', JInt (int (length content)))])))"

definition publication_key :: "publication \<Rightarrow> string" where
  "publication_key u = ''ro-'' @ run_task (pu_run u) @ ''-'' @ run_id (pu_run u) @ ''-r'' @ int_text (composition_revision u)"

definition publication_id :: "publisher \<Rightarrow> publication \<Rightarrow> string" where
  "publication_id p u = ''handoff-'' @ take 32 (pb_sha p (publication_key u))"

definition binding_artifacts :: "publication \<Rightarrow> dict option \<Rightarrow> json" where
  "binding_artifacts u binding = (let v = (case binding of None \<Rightarrow> JNull | Some b \<Rightarrow> if b = [] then JNull else dget b ''compose_artifacts'')
     in if truthy v then v else dget (pu_hashes u) ''compose_artifacts'')"

text \<open>The delivery request; a repeated publication keeps the time of the first.\<close>

definition delivery_request :: "publisher \<Rightarrow> publication \<Rightarrow> dict option \<Rightarrow> handoff_row option \<Rightarrow> json res" where
  "delivery_request p u binding existing =
     and_then (body_info p u ''html'' (out_html (pu_result u)) ''text/html'') (\<lambda>html.
     and_then (body_info p u ''text'' (out_text (pu_result u)) ''text/plain'') (\<lambda>text.
     and_then (delivery_artifacts (pu_input u) (binding_artifacts u binding)) (\<lambda>attachments.
     and_then (dict_default (pu_task u) ''delivery'') (\<lambda>delivery.
     and_then (case existing of None \<Rightarrow> Inr (JStr (isoformat (now (pb_env p)))) | Some h \<Rightarrow> sub (ho_request h) ''created_at'') (\<lambda>created.
       Inr (JDict ([(''schema_version'', JInt 2), (''handoff_id'', JStr (publication_id p u)), (''idempotency_key'', JStr (publication_key u)),
         (''task_id'', JStr (run_task (pu_run u))), (''run_id'', JStr (run_id (pu_run u))), (''task_version_hash'', JStr (run_version (pu_run u))),
         (''message_revision'', dget (pu_input u) ''composition_revision''),
         (''message_type'', get_or delivery ''message_type'' (JStr ''market_digest'')), (''recipient_group_id'', JStr (out_group (pu_result u))),
         (''subject'', JStr (out_subject (pu_result u))), (''body'', JDict [(''html'', html), (''text'', text)]),
         (''attachments'', JList attachments), (''created_at'', created)]
         @ (case binding of None \<Rightarrow> [] | Some b \<Rightarrow> [(''composition_binding_sha256'', JStr (digest_of (pb_sha p) (JDict b)))]))))))))"

definition handoff_of :: "publisher \<Rightarrow> publication \<Rightarrow> string \<Rightarrow> json \<Rightarrow> string \<Rightarrow> handoff_row" where
  "handoff_of p u mode request raw = \<lparr>ho_id = publication_id p u, ho_key = publication_key u, ho_run = run_id (pu_run u), ho_task = run_task (pu_run u),
     ho_version = run_version (pu_run u), ho_revision = composition_revision u,
     ho_type = default [] (as_str (dget (default [] (as_dict request)) ''message_type'')), ho_group = out_group (pu_result u), ho_mode = mode,
     ho_status = (if mode = ''disabled'' then ''not_requested'' else ''prepared''), ho_request = request, ho_request_sha = pb_sha p raw,
     ho_published = None, ho_receipt = None, ho_acknowledged = None, ho_external = None, ho_receipt_sha = None, ho_trust = None,
     ho_reason = None, ho_created = 0\<rparr>"

definition prepare_publication :: "publisher \<Rightarrow> publication \<Rightarrow> db \<Rightarrow> (handoff_row option \<times> string \<times> json \<times> string \<times> (string \<times> string) list) res" where
  "prepare_publication p u d = and_then (publication_mode u) (\<lambda>mode. and_then (publication_identity u) (\<lambda>_.
     and_then (require_task_delivery_ownership (pb_env p) (pu_task u) d) (\<lambda>_.
     and_then (value_in (JStr (out_group (pu_result u))) (dget (pu_input u) ''allowed_recipient_group_ids'')) (\<lambda>listed.
     and_then (check listed (DeliveryError ''unapproved recipient group'')) (\<lambda>_.
     and_then (composition_evidence p u d) (\<lambda>binding. and_then (named_recipient p u d) (\<lambda>_.
     let existing = get_handoff_by_idempotency_key (publication_key u) d in
     and_then (delivery_request p u binding existing) (\<lambda>request.
     and_then (validated_files p (pu_files u) request) (\<lambda>files.
       Inr (existing, mode, request, dumps_indented request, files))))))))))"

definition publication_audit :: "publisher \<Rightarrow> handoff_row \<Rightarrow> string \<Rightarrow> db \<Rightarrow> (unit \<times> db) res" where
  "publication_audit p h visibility d = Inr ((), audit (pb_env p) ''handoff'' (ho_id h) (''handoff_'' @ ho_status h)
     [(''mode'', JStr (ho_mode h)), (''idempotency_key'', JStr (ho_key h)), (''recipient_group_id'', JStr (ho_group h)),
      (''recipient_visibility'', JStr visibility)] default_actor (isoformat (now (pb_env p))) d)"

definition create_and_publish_handoff :: "publisher \<Rightarrow> publication \<Rightarrow> site \<Rightarrow> handoff_row res \<times> site" where
  "create_and_publish_handoff p u w = seq (peek (prepare_publication p u) w) (\<lambda>(existing, mode, request, raw, files) w1.
     case existing of
       Some h \<Rightarrow> if ho_request_sha h \<noteq> pb_sha p raw \<or> ho_mode h \<noteq> mode then (Inl (DeliveryError ''immutable revision''), w1)
         else if ho_status h = ''prepared'' \<and> mode = ''handoff'' then publish p h raw files w1 else (Inr h, w1)
     | None \<Rightarrow> let h = handoff_of p u mode request raw in
         seq (peek (\<lambda>d. if mode = ''handoff'' then approve p h d else Inr ()) w1) (\<lambda>_ w2.
         seq (tx (save_handoff (pb_env p) h) w2) (\<lambda>_ w3.
         seq (if mode = ''handoff'' then publish p h raw files w3 else (Inr h, w3)) (\<lambda>h' w4.
         seq (peek (\<lambda>d. recipient_visibility (pu_task u)) w4) (\<lambda>visibility w5.
         seq (tx (publication_audit p h' visibility) w5) (\<lambda>_ w6. (Inr h', w6)))))))"

definition republish_handoff :: "publisher \<Rightarrow> string \<Rightarrow> file_reader \<Rightarrow> site \<Rightarrow> handoff_row res \<times> site" where
  "republish_handoff p i archive w = (case find_handoff i (si_db w) of
     None \<Rightarrow> (Inl (DeliveryError ''published live handoff''), w)
   | Some h \<Rightarrow> if ho_mode h \<noteq> ''handoff'' \<or> ho_status h \<noteq> ''published'' then (Inl (DeliveryError ''published live handoff''), w)
       else seq (peek (\<lambda>d. and_then (approve p h d) (\<lambda>_. and_then (check (find_job i d = None) (DeliveryError ''SMTP job exists'')) (\<lambda>_.
          and_then (validate_outbox p h (si_outbox w)) (\<lambda>_. and_then (get_version (ho_version h) d) (\<lambda>v. case v of None \<Rightarrow> Inl (AttributeError ''definition'')
            | Some x \<Rightarrow> require_stored_composition (pb_sha p) (set_schema_ok p) (ver_definition x) (ho_run h) (ho_version h) (ho_revision h) (ho_group h)
                \<lparr>er_input = None, er_result = None, er_raw = None, er_files = Some (read_package (ho_id h) (si_outbox w)), er_archive = Some archive,
                 er_request = Some (ho_request h)\<rparr> d))))) w) (\<lambda>_ w1.
          seq (tx (\<lambda>d. Inr ((), audit (pb_env p) ''handoff'' i ''handoff_republish_verified'' [(''idempotency_key'', JStr (ho_key h))] default_actor
             (isoformat (now (pb_env p))) d)) w1) (\<lambda>_ w2. (Inr h, w2))))"

section \<open>Operator alerts\<close>

definition html_escape :: "string \<Rightarrow> string" where
  "html_escape s = concat (map (\<lambda>c. if c = CHR ''&'' then ''&amp;'' else if c = CHR ''<'' then ''&lt;'' else if c = CHR ''>'' then ''&gt;''
     else if c = CHR 0x22 then ''&quot;'' else if c = CHR 0x27 then ''&#x27;'' else [c]) s)"

definition words_of :: "string \<Rightarrow> string list" where
  "words_of s = filter (\<lambda>w. w \<noteq> []) (split_on (CHR '' '') (map (\<lambda>c. if strip [c] = [] then CHR '' '' else c) s))"

definition safe_event :: "string \<Rightarrow> string" where
  "safe_event s = take 100 (join '' '' (words_of s))"

definition alert_text :: "string \<Rightarrow> json \<Rightarrow> string \<Rightarrow> string \<Rightarrow> string" where
  "alert_text event task run reason = ''System alert: '' @ event @ [CHR 0x0A] @ ''Task: '' @ default [] (as_str task) @ [CHR 0x0A]
     @ ''Run: '' @ run @ [CHR 0x0A] @ ''Reason: '' @ reason @ [CHR 0x0A]"

definition alert_files :: "string \<Rightarrow> (string \<times> string) list" where
  "alert_files text = [(''alert.html'', ''<html><body><h2>ResearchOps system alert</h2><pre>'' @ html_escape text @ ''</pre></body></html>''),
     (''alert.txt'', text)]"

definition alert_body :: "publisher \<Rightarrow> string \<times> string \<Rightarrow> string \<Rightarrow> json" where
  "alert_body p f media = JDict [(''path'', JStr (fst f)), (''media_type'', JStr media), (''size_bytes'', JInt (int (length (snd f)))), (''sha256'', JStr (pb_sha p (snd f)))]"

definition alert_request :: "publisher \<Rightarrow> json \<Rightarrow> run_row \<Rightarrow> string \<Rightarrow> string \<Rightarrow> json \<Rightarrow> string \<Rightarrow> (string \<times> string) list \<Rightarrow> json" where
  "alert_request p task r key i grp subject files = JDict [(''schema_version'', JInt 2), (''handoff_id'', JStr i), (''idempotency_key'', JStr key),
     (''task_id'', task), (''run_id'', JStr (run_id r)), (''task_version_hash'', JStr (run_version r)), (''message_revision'', JInt 1),
     (''message_type'', JStr ''system_alert''), (''recipient_group_id'', grp), (''subject'', JStr subject),
     (''body'', JDict [(''html'', alert_body p (files ! 0) ''text/html''), (''text'', alert_body p (files ! 1) ''text/plain'')]),
     (''attachments'', JList []), (''created_at'', JStr (isoformat (now (pb_env p))))]"

definition alert_handoff :: "publisher \<Rightarrow> json \<Rightarrow> run_row \<Rightarrow> string \<Rightarrow> json \<Rightarrow> json \<Rightarrow> handoff_row" where
  "alert_handoff p task r key grp request = \<lparr>ho_id = ''alert-'' @ take 32 (pb_sha p key), ho_key = key, ho_run = run_id r,
     ho_task = default [] (as_str task), ho_version = run_version r, ho_revision = 1, ho_type = ''system_alert'',
     ho_group = default [] (as_str grp), ho_mode = ''handoff'', ho_status = ''prepared'', ho_request = request,
     ho_request_sha = pb_sha p (dumps_indented request), ho_published = None, ho_receipt = None, ho_acknowledged = None, ho_external = None,
     ho_receipt_sha = None, ho_trust = None, ho_reason = None, ho_created = 0\<rparr>"

definition alert_audit :: "publisher \<Rightarrow> string \<Rightarrow> string \<Rightarrow> string \<Rightarrow> string \<Rightarrow> db \<Rightarrow> (unit \<times> db) res" where
  "alert_audit p entity key typ event d = Inr ((), audit (pb_env p) entity key typ [(''event'', JStr event)] default_actor (isoformat (now (pb_env p))) d)"

definition queue_alert :: "publisher \<Rightarrow> handoff_row \<Rightarrow> string \<Rightarrow> (string \<times> string) list \<Rightarrow> run_row \<Rightarrow> string \<Rightarrow> site \<Rightarrow> handoff_row option res \<times> site" where
  "queue_alert p h raw files r safe w =
     (case seq (peek (approve p h) w) (\<lambda>_ w1. seq (tx (save_handoff (pb_env p) h) w1) (\<lambda>_ w2. publish p h raw files w2)) of
        (Inr h', w3) \<Rightarrow> seq (tx (alert_audit p ''handoff'' (ho_id h) ''system_alert_queued'' safe) w3) (\<lambda>_ w4. (Inr (Some h'), w4))
      | (Inl er, w3) \<Rightarrow> if is_delivery er then seq (tx (alert_audit p ''run'' (run_id r) ''system_alert_blocked'' safe) w3) (\<lambda>_ w4. (Inr None, w4))
          else (Inl er, w3))"

definition emit_alert :: "publisher \<Rightarrow> dict \<Rightarrow> run_row \<Rightarrow> string \<Rightarrow> string \<Rightarrow> site \<Rightarrow> handoff_row option res \<times> site" where
  "emit_alert p def r event reason w = (let config = (if truthy (dget def ''alerting'') then dget def ''alerting'' else JDict []) in
     case and_then (getk config ''events'') (\<lambda>es. and_then (py_in event (if es = JNull \<and> map_of (default [] (as_dict config)) ''events'' = None then JList [] else es)) (\<lambda>listed.
         and_then (dsub def ''id'') (\<lambda>task. Inr (listed, task)))) of
       Inl er \<Rightarrow> (Inl er, w)
     | Inr (listed, task) \<Rightarrow> if \<not> listed then (Inr None, w) else
         (let key = ''alert-'' @ default [] (as_str task) @ ''-'' @ run_id r @ ''-'' @ event in
         (case get_handoff_by_idempotency_key key (si_db w) of
            Some h \<Rightarrow> (Inr (Some h), w)
          | None \<Rightarrow>
            let safe = safe_event event; files = alert_files (alert_text safe task (run_id r) reason);
                grp = get_or (default [] (as_dict config)) ''recipient_group_id'' (JStr ''researchops-admins'');
                i = ''alert-'' @ take 32 (pb_sha p key);
                request = alert_request p task r key i grp (''[ResearchOps] '' @ safe @ '': '' @ default [] (as_str task)) files;
                h = alert_handoff p task r key grp request
            in queue_alert p h (dumps_indented request) files r safe w)))"

section \<open>Publication needs approval\<close>

text \<open>The rows a save leaves, and what a publication changes.\<close>

lemma save_handoff_cases:
  assumes "save_handoff e h d = Inr (u, d')"
  obtains (insert) "ho_id h \<notin> ho_id ` set (db_handoffs d)" "d' = d\<lparr>db_handoffs := db_handoffs d @ [h\<lparr>ho_created := now e\<rparr>]\<rparr>"
  | (same) "d' = d"
  | (publish) y where "y \<in> set (db_handoffs d)" "handoff_identity y = handoff_identity h" "ho_status h = ''published''"
      "d' = d\<lparr>db_handoffs := upd (\<lambda>y. ho_id y = ho_id h \<and> ho_status y = ''prepared'') (published_as h) (db_handoffs d)\<rparr>"
proof (cases "sel1 (\<lambda>x. ho_id x = ho_id h \<or> ho_key x = ho_key h) (db_handoffs d)")
  case None
  have "\<forall>x \<in> set (db_handoffs d). ho_id x \<noteq> ho_id h" using None by (simp add: sel1_None)
  then have "ho_id h \<notin> ho_id ` set (db_handoffs d)" by fastforce
  moreover from assms None have "d' = d\<lparr>db_handoffs := db_handoffs d @ [h\<lparr>ho_created := now e\<rparr>]\<rparr>"
    by (simp add: save_handoff_def insert_handoff_def and_then_Inr split: if_splits)
  ultimately show ?thesis by (rule insert)
next
  case (Some y)
  from sel1_Some [OF Some] have "y \<in> set (db_handoffs d)" by simp
  moreover from Some assms have "handoff_identity y = handoff_identity h \<and> (d' = d \<or> ho_status h = ''published''
      \<and> d' = d\<lparr>db_handoffs := upd (\<lambda>y. ho_id y = ho_id h \<and> ho_status y = ''prepared'') (published_as h) (db_handoffs d)\<rparr>)"
    unfolding save_handoff_def by (simp split: if_splits)
  ultimately show ?thesis using same publish by blast
qed

lemma published_rows:
  assumes "y \<in> set hs" "handoff_identity y = handoff_identity h" "ho_status h = ''published''" "distinct (map ho_id hs)"
    and "x \<in> set (upd (\<lambda>y. ho_id y = ho_id h \<and> ho_status y = ''prepared'') (published_as h) hs)"
  shows "x \<in> set hs \<or> handoff_identity x = handoff_identity h \<and> ho_status x = ho_status h"
proof -
  have only: "z = y" if "z \<in> set hs" "ho_id z = ho_id h" for z
    using that assms(1,2,4) by (intro distinct_map_same [of ho_id hs]) (simp_all add: handoff_identity_def)
  from upd_mem [OF assms(5)] consider "x \<in> set hs" | z where "z \<in> set hs" "ho_id z = ho_id h" "x = published_as h z" by blast
  then show ?thesis
  proof cases
    case 1
    then show ?thesis ..
  next
    case (2 z)
    from only [OF 2(1,2)] 2(3) assms(2,3) show ?thesis by (simp add: published_as_def handoff_identity_def)
  qed
qed

lemma save_handoff_rows:
  assumes "save_handoff e h d = Inr (u, d')" "distinct (map ho_id (db_handoffs d))"
  shows "d' = d\<lparr>db_handoffs := db_handoffs d'\<rparr>" "distinct (map ho_id (db_handoffs d'))"
    "x \<in> set (db_handoffs d') \<Longrightarrow> x \<in> set (db_handoffs d) \<or> handoff_identity x = handoff_identity h \<and> ho_status x = ho_status h"
proof -
  have "d' = d\<lparr>db_handoffs := db_handoffs d'\<rparr> \<and> distinct (map ho_id (db_handoffs d')) \<and>
    (x \<in> set (db_handoffs d') \<longrightarrow> x \<in> set (db_handoffs d) \<or> handoff_identity x = handoff_identity h \<and> ho_status x = ho_status h)"
    using assms(1)
  proof (cases rule: save_handoff_cases)
    case insert
    then show ?thesis using assms(2) by (simp add: handoff_identity_def)
  next
    case same
    then show ?thesis using assms(2) by simp
  next
    case (publish y)
    have "map ho_id (db_handoffs d') = map ho_id (db_handoffs d)" unfolding publish(4) by (simp add: upd_map_key published_as_def)
    with published_rows [OF publish(1-3) assms(2), of x] publish(4) assms(2) show ?thesis by simp
  qed
  then show "d' = d\<lparr>db_handoffs := db_handoffs d'\<rparr>" "distinct (map ho_id (db_handoffs d'))"
    "x \<in> set (db_handoffs d') \<Longrightarrow> x \<in> set (db_handoffs d) \<or> handoff_identity x = handoff_identity h \<and> ho_status x = ho_status h" by simp_all
qed

lemma publish_package_kept:
  "publish_package disk i raw files o1 = Inr o2 \<Longrightarrow> \<exists>fs. map_of o2 i = Some (raw, fs)"
  by (auto simp: publish_package_def map_add_def and_then_Inr split: option.splits if_splits)

definition approved_in :: "publisher \<Rightarrow> handoff_row \<Rightarrow> db \<Rightarrow> bool" where
  "approved_in p h d = (\<exists>hs. approve p h (d\<lparr>db_handoffs := hs\<rparr>) = Inr ())"

definition in_outbox :: "publisher \<Rightarrow> handoff_row \<Rightarrow> site \<Rightarrow> bool" where
  "in_outbox p h w = (\<exists>raw fs. map_of (si_outbox w) (ho_id h) = Some (raw, fs) \<and> pb_sha p raw = ho_request_sha h)"

lemma approve_cong: "handoff_claim h = handoff_claim h' \<Longrightarrow> approve p h d = approve p h' d"
  by (simp add: approve_def)

lemma identity_claim: "handoff_identity x = handoff_identity h \<Longrightarrow> handoff_claim x = handoff_claim h \<and> ho_id x = ho_id h
    \<and> ho_request_sha x = ho_request_sha h \<and> ho_mode x = ho_mode h"
  by (simp add: handoff_identity_def handoff_claim_def)

text \<open>What a publication leaves: no new published row, or the row of this handoff, approved and packed.\<close>

definition newly :: "handoff_row \<Rightarrow> db \<Rightarrow> site \<Rightarrow> bool" where
  "newly x d w = (x \<in> set (db_handoffs (si_db w)) \<and> ho_status x = ''published'' \<and> x \<notin> set (db_handoffs d))"

lemma publish_rows:
  assumes "publish p h raw files w = (r, w')" "distinct (map ho_id (db_handoffs (si_db w)))" "pb_sha p raw = ho_request_sha h"
    and "newly x (si_db w) w'"
  shows "handoff_identity x = handoff_identity h \<and> approve p x (si_db w) = Inr () \<and> in_outbox p x w' \<and> (\<exists>h'. r = Inr h')"
proof -
  let ?h = "h\<lparr>ho_status := ''published'', ho_published := Some (now (pb_env p))\<rparr>"
  have "si_db w' \<noteq> si_db w" using assms(4) by (auto simp: newly_def)
  with assms(1) obtain o2 where o2: "approve p h (si_db w) = Inr ()" "publish_package (pb_disk p) (ho_id h) raw files (si_outbox w) = Inr o2"
      "save_handoff (pb_env p) ?h (si_db w) = Inr ((), si_db w')" "si_outbox w' = o2" "r = Inr ?h"
    by (auto simp: publish_def peek_def seq_cases tx_Inr tx_Inl Let_def split: sum.splits)
  from save_handoff_rows [OF o2(3) assms(2)] assms(4) have x: "handoff_identity x = handoff_identity ?h" by (auto simp: newly_def)
  then have x': "handoff_identity x = handoff_identity h" by (simp add: handoff_identity_def)
  from identity_claim [OF x'] o2(1) have "approve p x (si_db w) = Inr ()" by (simp cong: approve_cong add: approve_def)
  moreover from publish_package_kept [OF o2(2)] o2(4) assms(3) identity_claim [OF x'] have "in_outbox p x w'" by (auto simp: in_outbox_def)
  ultimately show ?thesis using x' o2(5) by blast
qed

lemma publish_error_kept: "publish p h raw files w = (Inl er, w') \<Longrightarrow> si_db w' = si_db w"
  by (auto simp: publish_def peek_def seq_cases tx_Inr tx_Inl Let_def split: sum.splits)

lemma prepare_facts:
  assumes "prepare_publication p u d = Inr (existing, mode, request, raw, files)"
  shows "publication_mode u = Inr mode" "\<exists>b. composition_evidence p u d = Inr b" "existing = get_handoff_by_idempotency_key (publication_key u) d"
  using assms by (auto simp: prepare_publication_def and_then_Inr Let_def)

lemma publication_audit_rows: "publication_audit p h v d = Inr (a, d') \<Longrightarrow> db_handoffs d' = db_handoffs d"
  by (auto simp: publication_audit_def audit_def)

text \<open>A handoff that existed is published again only while it is prepared and only for the same request.\<close>

lemma republication_rows:
  assumes "create_and_publish_handoff p u w = (r, w')" "prepare_publication p u (si_db w) = Inr (Some h, mode, request, raw, files)"
    and "distinct (map ho_id (db_handoffs (si_db w)))" "newly x (si_db w) w'"
  shows "ho_mode x = ''handoff'' \<and> mode = ''handoff'' \<and> ho_key x = publication_key u \<and> approved_in p x (si_db w) \<and> in_outbox p x w'"
proof -
  have "\<not> newly x (si_db w) w" by (auto simp: newly_def)
  with assms(1,2,4) have m: "ho_request_sha h = pb_sha p raw" "ho_mode h = mode" "mode = ''handoff''" "publish p h raw files w = (r, w')"
    by (auto simp: create_and_publish_handoff_def peek_def seq_cases split: if_splits)
  from publish_rows [OF m(4) assms(3) m(1) [symmetric] assms(4)]
  have x: "handoff_identity x = handoff_identity h" "approve p x (si_db w) = Inr ()" "in_outbox p x w'" by simp_all
  from prepare_facts(3) [OF assms(2)] have "ho_key h = publication_key u"
    using sel1_Some [of "\<lambda>x. ho_key x = publication_key u" "db_handoffs (si_db w)" h] by (simp add: get_handoff_by_idempotency_key_def)
  with x(1) have k: "ho_key x = publication_key u" by (simp add: handoff_identity_def)
  from x(2) have a: "approved_in p x (si_db w)" unfolding approved_in_def by (intro exI [of _ "db_handoffs (si_db w)"]) simp
  show ?thesis using identity_claim [OF x(1)] m(2,3) x(3) k a by simp
qed

lemma first_publication_rows:
  assumes "create_and_publish_handoff p u w = (r, w')" "prepare_publication p u (si_db w) = Inr (None, mode, request, raw, files)"
    and "distinct (map ho_id (db_handoffs (si_db w)))" "newly x (si_db w) w'"
  shows "ho_mode x = ''handoff'' \<and> mode = ''handoff'' \<and> ho_key x = publication_key u \<and> approved_in p x (si_db w) \<and> in_outbox p x w'"
proof -
  let ?h = "handoff_of p u mode request raw"
  have none: "\<not> newly x (si_db w) v" if "si_db v = si_db w" for v using that by (auto simp: newly_def)
  from assms(1,2) consider "w' = w" | d1 r4 w4 where "save_handoff (pb_env p) ?h (si_db w) = Inr ((), d1)"
      "(if mode = ''handoff'' then publish p ?h raw files (w\<lparr>si_db := d1\<rparr>) else (Inr ?h, w\<lparr>si_db := d1\<rparr>)) = (r4, w4)"
      "db_handoffs (si_db w') = db_handoffs (si_db w4)" "si_outbox w' = si_outbox w4"
    by (fastforce simp: create_and_publish_handoff_def peek_def seq_cases tx_Inr tx_Inl Let_def dest!: publication_audit_rows)
  then show ?thesis
  proof cases
    case 1
    with none assms(4) show ?thesis by simp
  next
    case (2 d1 r4 w4)
    note rows = save_handoff_rows [OF 2(1) assms(3)]
    have st: "ho_status ?h \<noteq> ''published''" by (simp add: handoff_of_def)
    have old: "x \<notin> set (db_handoffs d1)" using rows(3) [of x] assms(4) st by (auto simp: newly_def)
    with assms(4) 2(3) have new: "newly x (si_db (w\<lparr>si_db := d1\<rparr>)) w4" by (simp add: newly_def)
    have mode: "mode = ''handoff''" using 2(2) new by (auto simp: newly_def split: if_splits)
    with 2(2) have pub: "publish p ?h raw files (w\<lparr>si_db := d1\<rparr>) = (r4, w4)" by simp
    have "distinct (map ho_id (db_handoffs (si_db (w\<lparr>si_db := d1\<rparr>))))" using rows(2) by simp
    from publish_rows [OF pub this _ new] have x: "handoff_identity x = handoff_identity ?h" "approve p x d1 = Inr ()" "in_outbox p x w4"
      by (simp_all add: handoff_of_def)
    from x(1) mode have k: "ho_mode x = ''handoff''" "ho_key x = publication_key u" by (simp_all add: handoff_identity_def handoff_of_def)
    from rows(1) x(2) have a: "approved_in p x (si_db w)" unfolding approved_in_def by (metis)
    from x(3) 2(4) have "in_outbox p x w'" by (simp add: in_outbox_def)
    with k a mode show ?thesis by simp
  qed
qed

text \<open>C29: Whatever the publisher does, a delivery row that becomes published by it stands for a publication in
  live mode: the composition evidence of the message was verified, the row carries the idempotency key of this very run
  and revision, its recipient group passed the approval of the store before it was published, and the package in
  the outbox is the request whose hash the row records.\<close>

theorem publication_is_approved:
  assumes "create_and_publish_handoff p u w = (r, w')" "distinct (map ho_id (db_handoffs (si_db w)))" "newly x (si_db w) w'"
  shows "publication_mode u = Inr ''handoff'' \<and> (\<exists>b. composition_evidence p u (si_db w) = Inr b) \<and> ho_mode x = ''handoff''
    \<and> ho_key x = publication_key u \<and> approved_in p x (si_db w) \<and> in_outbox p x w'"
proof -
  have "\<not> newly x (si_db w) w" by (auto simp: newly_def)
  with assms(1,3) obtain existing mode request raw files
    where p: "prepare_publication p u (si_db w) = Inr (existing, mode, request, raw, files)"
    by (cases "prepare_publication p u (si_db w)") (auto simp: create_and_publish_handoff_def peek_def seq_cases)
  have "ho_mode x = ''handoff'' \<and> mode = ''handoff'' \<and> ho_key x = publication_key u \<and> approved_in p x (si_db w) \<and> in_outbox p x w'"
  proof (cases existing)
    case None
    show ?thesis by (rule first_publication_rows [OF assms(1) p [unfolded None] assms(2,3)])
  next
    case (Some h)
    show ?thesis by (rule republication_rows [OF assms(1) p [unfolded Some] assms(2,3)])
  qed
  with prepare_facts [OF p] show ?thesis by simp
qed

definition live_publisher :: publisher where
  "live_publisher = \<lparr>set_kill_switch = JBool False, set_production = True, set_schema_ok = (\<lambda>v. True),
     pb_env = sample_env, pb_sha = (\<lambda>x. ''h''), pb_addr_ok = (\<lambda>x. x \<noteq> []), pb_config = Inr live_config,
     pb_request_ok = (\<lambda>v. True), pb_utf8 = (\<lambda>x. True), pb_disk = None\<rparr>"

definition live_publication :: publication where
  "live_publication = \<lparr>pu_task = ver_definition live_version, pu_run = sample_run ''r1'' ''t1'',
     pu_input = [(''task_id'', JStr ''t1''), (''run_id'', JStr ''r1''), (''task_version_hash'', JStr ''v1''), (''composition_revision'', JInt 1),
       (''allowed_recipient_group_ids'', JList [JStr ''release-team'']), (''inline_artifacts'', JList []), (''attachments'', JList [])],
     pu_result = \<lparr>out_run = ''r1'', out_task = ''t1'', out_revision = 1, out_group = ''release-team'', out_reason = [], out_subject = ''s'',
       out_html = ''m.html'', out_text = ''m.txt'', out_included = JList [], out_result = [], out_created = 0\<rparr>,
     pu_files = (\<lambda>p. Inr ''ok''), pu_hashes = [(''html'', JStr ''h''), (''text'', JStr ''h'')], pu_force = None\<rparr>"

definition live_site :: site where
  "live_site = \<lparr>si_db = live_db, si_ws = [], si_outbox = [], si_archives = []\<rparr>"

theorem publication_is_approved_witness:
  "\<exists>x. ho_key x = ''ro-t1-r1-r1'' \<and> ho_mode x = ''handoff'' \<and> approved_in live_publisher x live_db"
proof -
  define w' where "w' = snd (create_and_publish_handoff live_publisher live_publication live_site)"
  then have run: "create_and_publish_handoff live_publisher live_publication live_site
      = (fst (create_and_publish_handoff live_publisher live_publication live_site), w')" by simp
  have "list_ex (\<lambda>x. ho_status x = ''published'') (db_handoffs (si_db w'))" unfolding w'_def by code_simp
  then obtain x where x: "x \<in> set (db_handoffs (si_db w'))" "ho_status x = ''published''" by (auto simp: list_ex_iff)
  have none: "db_handoffs (si_db live_site) = []" by code_simp
  with x have new: "newly x (si_db live_site) w'" by (simp add: newly_def)
  from none have "distinct (map ho_id (db_handoffs (si_db live_site)))" by simp
  from publication_is_approved [OF run this new] have "ho_mode x = ''handoff'' \<and> ho_key x = publication_key live_publication
    \<and> approved_in live_publisher x live_db" by (simp add: live_site_def)
  moreover have "publication_key live_publication = ''ro-t1-r1-r1''" by code_simp
  ultimately show ?thesis by auto
qed

end
