(* ===== verification/Finalization.thy ===== *)
theory Finalization imports Publication Run_Archive begin

text \<open>
  The end of a run, \<open>engine/orchestrator.py\<close>: \<open>_finalize_run\<close> publishes the
  evidence of an attempt and the terminal state of the run under one fenced transaction, and
  \<open>execute_run\<close> turns every error outside the stages into a state of the run. The locals of
  the attempt are the record \<open>attempt\<close>. Clock readings are numbered in the order the code
  takes them.
\<close>

section \<open>The attempt and its surroundings\<close>

record attempt =
  at_archive :: pending
  at_timeline :: timeline
  at_research :: "(string \<times> nat) option"
  at_input :: "(int \<times> nat) option"
  at_result :: "dict option"
  at_handoff :: "handoff_row option"
  at_warnings :: "string list"
  at_executions :: "json list"
  at_errors :: "json list"
  at_outputs :: "(string \<times> walk_item list) list"
  at_cleanup :: bool
  at_locked :: bool
  at_status :: run_state
  at_failure :: "string option"
  at_report :: "json option"
  at_acquired :: bool
  at_stopped :: bool

record finisher =
  fi_env :: "nat \<Rightarrow> env"
  fi_ns :: "nat \<Rightarrow> int"
  fi_hex :: string
  fi_archive :: archive_io
  fi_str :: "json \<Rightarrow> string"
  fi_pub :: publisher

text \<open>The state while an attempt is closed: the site, the step timeline and the pending archive.\<close>

record closing =
  cl_site :: site
  cl_steps :: timeline
  cl_files :: pending

definition record_step :: "(timeline \<Rightarrow> db \<Rightarrow> (timeline \<times> db) res) \<Rightarrow> closing \<Rightarrow> unit res \<times> closing" where
  "record_step f c = (case f (cl_steps c) (si_db (cl_site c)) of Inl er \<Rightarrow> (Inl er, c)
     | Inr (t, d) \<Rightarrow> (Inr (), c\<lparr>cl_steps := t, cl_site := (cl_site c)\<lparr>si_db := d\<rparr>\<rparr>))"

definition record_file :: "(pending \<Rightarrow> pending res) \<Rightarrow> closing \<Rightarrow> unit res \<times> closing" where
  "record_file f c = (case f (cl_files c) of Inl er \<Rightarrow> (Inl er, c) | Inr A \<Rightarrow> (Inr (), c\<lparr>cl_files := A\<rparr>))"

text \<open>\<open>failure or text\<close>: an empty message counts as none.\<close>

definition given :: "string option \<Rightarrow> bool" where
  "given f = (default [] f \<noteq> [])"

definition failure_or :: "string option \<Rightarrow> string \<Rightarrow> string" where
  "failure_or f s = (if given f then default [] f else s)"

section \<open>The timeline before publication\<close>

definition event_json :: "audit_row \<Rightarrow> json" where
  "event_json v = JDict [(''entity_type'', JStr (ev_entity v)), (''entity_id'', JStr (ev_key v)), (''event_type'', JStr (ev_type v)),
     (''details'', JDict (ev_details v)), (''actor'', JStr (ev_actor v)), (''occurred_at'', JStr (ev_at v)), (''event_id'', JInt (ev_id v))]"

definition timeline_snapshot :: "env \<Rightarrow> timeline \<Rightarrow> db \<Rightarrow> json res" where
  "timeline_snapshot e tm d = and_then (get_run_event_snapshot (tl_run tm) 2000 50 d) (\<lambda>s.
     Inr (JDict [(''schema_version'', JInt 1), (''run_id'', JStr (tl_run tm)), (''attempt'', JInt (tl_attempt tm)),
       (''captured_at'', JStr (isoformat (now e))), (''snapshot_scope'', JStr ''before_archive_publication''),
       (''events'', JList (map event_json (snap_steps s))), (''event_count'', JInt (int (snap_step_total s))),
       (''truncated'', JBool (length (snap_steps s) < snap_step_total s))]))"

definition step_state :: "run_state \<Rightarrow> string option \<Rightarrow> string" where
  "step_state s f = (if s = Succeeded \<and> given f then ''skipped'' else if s \<in> {Succeeded, AwaitingReceipt} then ''succeeded'' else run_text s)"

definition before_publication :: "finisher \<Rightarrow> attempt \<Rightarrow> closing \<Rightarrow> unit res \<times> closing" where
  "before_publication fi a c =
     seq (check (at_acquired a) (HardGateError ''acquisition cleanup unverified''), c) (\<lambda>_ c1.
     seq (record_step (\<lambda>t d. and_then (finish_step (fi_env fi 0) (fi_ns fi 0) (step_state (at_status a) (at_failure a))
        [(''validation_error_count'', JInt (int (length (at_errors a))))] True False t d) (\<lambda>((_, t'), d'). Inr (t', d'))) c1) (\<lambda>_ c2.
     seq (record_step (transition (fi_env fi 1) (fi_ns fi 1) (fi_hex fi) ''finalize'' (Some PhFinalize) [] True) c2) (\<lambda>_ c3.
     seq (record_step (\<lambda>t d. and_then (summarize [(''warning_count'', JInt (int (length (at_warnings a)))),
        (''cleanup_verified'', JInt (if at_cleanup a then 1 else 0))] t) (\<lambda>t'. Inr (t', d))) c3) (\<lambda>_ c4.
     seq (case at_report a of None \<Rightarrow> (Inr (), c4) | Some v \<Rightarrow> record_file (archive_json (fi_archive fi) ''artifact-report.json'' v) c4) (\<lambda>_ c5.
     record_file (\<lambda>A. and_then (timeline_snapshot (fi_env fi 2) (cl_steps c5) (si_db (cl_site c5))) (\<lambda>v.
        archive_json (fi_archive fi) ''timeline.json'' v A)) c5)))))"

section \<open>The fenced commit\<close>

definition commit_guard :: "env \<Rightarrow> string \<Rightarrow> string \<Rightarrow> db \<Rightarrow> unit res" where
  "commit_guard e run token d = (case owner_row run token d of
     Some (r, l, k) \<Rightarrow> check (run_status r = Running \<and> now e < lease_expires l) (ConcurrencyError ''lease no longer current'')
   | None \<Rightarrow> Inl (ConcurrencyError ''lease no longer current''))"

definition live_owner :: "env \<Rightarrow> string \<Rightarrow> string \<Rightarrow> db \<Rightarrow> bool" where
  "live_owner e run token d = list_ex (\<lambda>l. lease_run l = run \<and> lease_token l = token \<and> now e < lease_expires l
     \<and> some_row (\<lambda>c. claim_run c = run \<and> claim_token c = token) (db_claims d)) (db_leases d)"

definition decide :: "attempt \<Rightarrow> string \<Rightarrow> db \<Rightarrow> run_state \<times> string option" where
  "decide a run d = (let (s, f) = (if ctl_cancel (get_execution_controls run d) then (Cancelled, Some ''Cancelled before finalization'')
       else if at_stopped a then (NeedsAttention, Some ''Execution stopped before finalization'') else (at_status a, at_failure a))
     in if at_cleanup a then (s, f) else (NeedsAttention, Some (failure_or f ''Child process cleanup could not be verified'')))"

definition open_handoff :: "handoff_row \<Rightarrow> bool" where
  "open_handoff x = (ho_status x \<in> {''prepared'', ''published''})"

definition fail_handoffs :: "(handoff_row \<Rightarrow> bool) \<Rightarrow> string \<Rightarrow> db \<Rightarrow> db" where
  "fail_handoffs p reason d = d\<lparr>db_handoffs := upd (\<lambda>x. p x \<and> open_handoff x) (\<lambda>x. x\<lparr>ho_status := ''failed'', ho_reason := Some reason\<rparr>) (db_handoffs d)\<rparr>"

definition withdraw :: "run_state \<times> string option \<Rightarrow> handoff_row option \<Rightarrow> db \<Rightarrow> handoff_row option \<times> db" where
  "withdraw vd m d = (case m of None \<Rightarrow> (None, d) | Some h \<Rightarrow> if ho_mode h = ''handoff'' \<and> fst vd \<noteq> AwaitingReceipt
       then (Some (h\<lparr>ho_status := ''failed''\<rparr>),
             fail_handoffs (\<lambda>x. ho_id x = ho_id h) (failure_or (snd vd) ''Run did not complete delivery preparation'') d)
       else (Some h, d))"

definition opt_text :: "string option \<Rightarrow> json" where
  "opt_text m = (case m of None \<Rightarrow> JNull | Some s \<Rightarrow> JStr s)"

definition opt_time :: "int option \<Rightarrow> json" where
  "opt_time m = (case m of None \<Rightarrow> JNull | Some t \<Rightarrow> JStr (isoformat t))"

definition delivery_part :: "handoff_row option \<Rightarrow> json" where
  "delivery_part m = (case m of None \<Rightarrow> JDict [(''mode'', JStr ''disabled''), (''status'', JStr ''not_requested'')]
     | Some h \<Rightarrow> JDict ([(''mode'', JStr (ho_mode h)), (''status'', JStr (ho_status h))] @
         (if open_handoff h then [(''message_type'', JStr (ho_type h)), (''recipient_group_id'', JStr (ho_group h)),
            (''message_revision'', JInt (ho_revision h)), (''handoff_id'', JStr (ho_id h)), (''idempotency_key'', JStr (ho_key h)),
            (''delivery_request_path'', JStr ''delivery-request.json''), (''delivery_request_sha256'', JStr (ho_request_sha h))]
            @ (case ho_published h of None \<Rightarrow> [] | Some t \<Rightarrow> [(''published_at'', JStr (isoformat t))]) else [])))"

definition composition_part :: "attempt \<Rightarrow> json" where
  "composition_part a = (case (at_result a, at_input a) of
     (Some r, Some (revision, _)) \<Rightarrow> JDict (dmerge [(''status'', JStr ''validated''), (''revision'', JInt revision)] r)
   | _ \<Rightarrow> JDict [(''status'', JStr ''not_produced'')])"

text \<open>The control groups of the executions, as text; \<open>str\<close> of a value that is no string is a parameter.\<close>

definition group_ids :: "(json \<Rightarrow> string) \<Rightarrow> json list \<Rightarrow> json list" where
  "group_ids st xs = map (\<lambda>v. JStr (case v of JStr s \<Rightarrow> s | _ \<Rightarrow> st v)) (filter truthy (map (\<lambda>x. dget (default [] (as_dict (dget (default [] (as_dict x)) ''isolation''))) ''cgroup'') xs))"

definition run_manifest :: "(json \<Rightarrow> string) \<Rightarrow> env \<Rightarrow> attempt \<Rightarrow> run_row \<Rightarrow> string \<Rightarrow> string \<Rightarrow> run_state \<times> string option \<Rightarrow> handoff_row option \<Rightarrow> dict" where
  "run_manifest st e a run task token vd h = [(''run_id'', JStr (run_id run)), (''task_id'', JStr task), (''task_hash'', JStr (run_version run)),
     (''status'', JStr (run_text (fst vd))), (''phase'', JStr ''finalize''), (''attempt'', JInt (run_attempt run)),
     (''trigger_type'', JStr (run_trigger run)), (''scheduled_for'', JStr (isoformat (run_due run))), (''started_at'', opt_time (run_started run)),
     (''finished_at'', if fst vd = AwaitingReceipt then JNull else JStr (isoformat (now e))),
     (''result_outcome'', JDict [(''status'', case at_research a of None \<Rightarrow> JStr ''not_produced'' | Some (s, _) \<Rightarrow> JStr s),
        (''record_count'', JInt (case at_research a of None \<Rightarrow> 0 | Some (_, n) \<Rightarrow> int n)),
        (''reportable_record_count'', JInt (case at_input a of None \<Rightarrow> 0 | Some (_, n) \<Rightarrow> int n))]),
     (''composition'', composition_part a), (''handoff'', delivery_part h), (''warnings'', JList (map JStr (at_warnings a))),
     (''failure'', if given (snd vd) then JDict [(''message'', opt_text (snd vd)), (''errors'', JList (at_errors a))] else JNull),
     (''workspace'', JDict [(''task_workspace_id'', JStr task), (''generation'', JInt (run_generation run)),
        (''attempt_root'', JStr (''.runs/'' @ run_id run @ ''/attempt-'' @ int_text (run_attempt run))), (''fencing_token'', JStr token),
        (''child_group_ids'', JList (group_ids st (at_executions a)))])]"

definition validation_report :: "attempt \<Rightarrow> string option \<Rightarrow> json" where
  "validation_report a f = JDict [(''errors'', JList (at_errors a)), (''warnings'', JList (map JStr (at_warnings a))),
     (''failure'', opt_text f), (''executions'', JList (at_executions a)), (''cleanup_verified'', JBool (at_cleanup a))]"

fun capture_outputs :: "archive_io \<Rightarrow> (string \<times> walk_item list) list \<Rightarrow> pending \<Rightarrow> pending" where
  "capture_outputs io [] A = A"
| "capture_outputs io ((stage, items) # os) A = capture_outputs io os (capture io (''outputs/'' @ stage) items 0 0 A)"

definition end_run :: "string \<Rightarrow> run_state \<Rightarrow> int option \<Rightarrow> string option \<Rightarrow> int \<Rightarrow> db \<Rightarrow> db" where
  "end_run run s finished er t d = d\<lparr>db_runs := upd (\<lambda>r. run_id r = run \<and> run_status r = Running)
     (\<lambda>r. r\<lparr>run_status := s, run_phase := PhFinalize, run_finished := finished, run_error := er, run_progress := Some t\<rparr>) (db_runs d)\<rparr>"

text \<open>The transaction: its error drops the changes of the store, never a published archive. The
  decided state and message outlive it.\<close>

definition commit_attempt :: "finisher \<Rightarrow> attempt \<Rightarrow> run_row \<Rightarrow> string \<Rightarrow> string \<Rightarrow> run_state \<times> string option \<Rightarrow> closing \<Rightarrow> db res \<times> archives" where
  "commit_attempt fi a run task token vd c = (let d = si_db (cl_site c); ars = si_archives (cl_site c); (h, d1) = withdraw vd (at_handoff a) d in
     case archive_json (fi_archive fi) ''validation-report.json'' (validation_report a (snd vd)) (capture_outputs (fi_archive fi) (at_outputs a) (cl_files c)) of
       Inl er \<Rightarrow> (Inl er, ars)
     | Inr A \<Rightarrow> (case archive_finish (fi_archive fi) (run_manifest (fi_str fi) (fi_env fi 4) a run task token vd h) (commit_guard (fi_env fi 5) (run_id run) token d1) A ars of
         (Inl er, ars') \<Rightarrow> (Inl er, ars')
       | (Inr _, ars') \<Rightarrow> (case finish_step (fi_env fi 6) (fi_ns fi 6) ''succeeded'' [] False False (cl_steps c) d1 of
           Inl er \<Rightarrow> (Inl er, ars')
         | Inr ((final, _), d2) \<Rightarrow> if fst vd \<noteq> AwaitingReceipt \<and> final = None then (Inl (TypeError ''final step''), ars')
             else (Inr (end_run (run_id run) (fst vd) (if fst vd = AwaitingReceipt then None else Some (now (fi_env fi 6)))
                (if fst vd \<in> {Succeeded, AwaitingReceipt} then None else snd vd) (now (fi_env fi 7)) d2), ars'))))"

section \<open>The error path\<close>

definition archive_failure :: "string option \<Rightarrow> err \<Rightarrow> string" where
  "archive_failure f er = (if given f then default [] f @ ''; '' else []) @ ''Archive finalization failed: '' @ error_class er @ ''; pending evidence retained''"

definition abandon :: "finisher \<Rightarrow> string \<Rightarrow> string \<Rightarrow> string option \<Rightarrow> err \<Rightarrow> timeline \<Rightarrow> db \<Rightarrow> db" where
  "abandon fi run token f er tm d = (if \<not> live_owner (fi_env fi 8) run token d then d
     else let d1 = (case finish_step (fi_env fi 8) (fi_ns fi 8) ''needs_attention'' [] False True tm d of Inl _ \<Rightarrow> d | Inr (_, d1) \<Rightarrow> d1);
              d2 = d1\<lparr>db_runs := upd (\<lambda>r. run_id r = run \<and> run_status r = Running)
                 (\<lambda>r. r\<lparr>run_status := NeedsAttention, run_phase := PhFinalize, run_finished := Some (now (fi_env fi 8)),
                     run_error := Some (archive_failure f er)\<rparr>) (db_runs d1)\<rparr>
          in fail_handoffs (\<lambda>x. ho_run x = run) (archive_failure f er) d2)"

text \<open>\<open>finally\<close>: a verified cleanup frees the workspace; lost ownership is only logged.\<close>

definition free_workspace :: "attempt \<Rightarrow> string \<Rightarrow> string \<Rightarrow> string \<Rightarrow> site \<Rightarrow> unit res \<times> site" where
  "free_workspace a task run token w = (if \<not> (at_locked a \<and> at_cleanup a) then (Inr (), w)
     else (case release_workspace_lock task run token True (si_ws w) of
         (Inl er, ws) \<Rightarrow> (if is_concurrency er then Inr () else Inl er, w\<lparr>si_ws := ws\<rparr>)
       | (Inr _, ws) \<Rightarrow> (case tx (mark_cleanup_verified run token) (w\<lparr>si_ws := ws\<rparr>) of
           (Inl er, w1) \<Rightarrow> (if is_concurrency er then Inr () else Inl er, w1) | (Inr _, w1) \<Rightarrow> (Inr (), w1))))"

definition operator_alert :: "finisher \<Rightarrow> dict \<Rightarrow> run_row \<Rightarrow> run_state \<times> string option \<Rightarrow> site \<Rightarrow> site" where
  "operator_alert fi def run vd w = (if fst vd \<in> {Failed, TimedOut, NeedsAttention}
     then snd (emit_alert (fi_pub fi) def run (run_text (fst vd)) (failure_or (snd vd) ''Execution failed'') w) else w)"

definition close_attempt :: "finisher \<Rightarrow> attempt \<Rightarrow> run_row \<Rightarrow> string \<Rightarrow> string \<Rightarrow> site \<Rightarrow> (run_state \<times> string option) res \<times> site" where
  "close_attempt fi a run task token w =
     (case before_publication fi a \<lparr>cl_site = w, cl_steps = at_timeline a, cl_files = at_archive a\<rparr> of
       (Inl er, c) \<Rightarrow> (Inl er, (cl_site c)\<lparr>si_db := abandon fi (run_id run) token (at_failure a) er (cl_steps c) (si_db (cl_site c))\<rparr>)
     | (Inr _, c) \<Rightarrow> let d = si_db (cl_site c) in
         (case commit_guard (fi_env fi 3) (run_id run) token d of
           Inl er \<Rightarrow> (Inl er, (cl_site c)\<lparr>si_db := abandon fi (run_id run) token (at_failure a) er (cl_steps c) d\<rparr>)
         | Inr _ \<Rightarrow> let vd = decide a (run_id run) d in
             (case commit_attempt fi a run task token vd c of
               (Inl er, ars) \<Rightarrow> (Inl er, (cl_site c)\<lparr>si_db := abandon fi (run_id run) token (snd vd) er (cl_steps c) d, si_archives := ars\<rparr>)
             | (Inr d', ars) \<Rightarrow> (Inr vd, (cl_site c)\<lparr>si_db := d', si_archives := ars\<rparr>))))"

definition finalize_run :: "finisher \<Rightarrow> attempt \<Rightarrow> run_row \<Rightarrow> dict \<Rightarrow> string \<Rightarrow> string \<Rightarrow> site \<Rightarrow> unit res \<times> site" where
  "finalize_run fi a run def task token w = (case close_attempt fi a run task token w of
     (r, w1) \<Rightarrow> (case free_workspace a task (run_id run) token w1 of
         (Inl er, w2) \<Rightarrow> (Inl er, w2)
       | (Inr _, w2) \<Rightarrow> (case r of Inl er \<Rightarrow> (Inl er, w2) | Inr vd \<Rightarrow> (Inr (), operator_alert fi def run vd w2))))"

section \<open>What finalization leaves\<close>

text \<open>Step events and the phase of a run leave leases, claims, controls, handoffs and states alone.\<close>

definition kept_db :: "string \<Rightarrow> db \<Rightarrow> db \<Rightarrow> bool" where
  "kept_db run d d' = (db_leases d' = db_leases d \<and> db_claims d' = db_claims d \<and> db_controls d' = db_controls d
     \<and> db_handoffs d' = db_handoffs d \<and> map_option run_status (find_run run d') = map_option run_status (find_run run d))"

definition kept :: "string \<Rightarrow> closing \<Rightarrow> closing \<Rightarrow> bool" where
  "kept run c c' = (kept_db run (si_db (cl_site c)) (si_db (cl_site c')) \<and> si_archives (cl_site c') = si_archives (cl_site c)
     \<and> pa_task (cl_files c') = pa_task (cl_files c) \<and> pa_run (cl_files c') = pa_run (cl_files c))"

lemma kept_trans: "kept run c c1 \<Longrightarrow> kept run c1 c2 \<Longrightarrow> kept run c c2"
  by (simp add: kept_def kept_db_def)

lemma kept_refl: "kept run c c"
  by (simp add: kept_def kept_db_def)

lemma find_run_upd:
  "(\<And>r. run_id (f r) = run_id r) \<Longrightarrow> find_run run (d\<lparr>db_runs := upd p f rs\<rparr>) = map_option (\<lambda>r. if p r then f r else r) (sel1 (\<lambda>r. run_id r = run) rs)"
  by (simp add: find_run_def sel1_upd_same)

lemma append_events_kept: "append_events e run evs s d = Inr d' \<Longrightarrow> kept_db i d d' \<and> db_runs d' = db_runs d"
proof (induction e run evs s d rule: append_events.induct)
  case (2 e run ty v evs s d)
  from "2.prems" obtain s' where s': "track ty v s = Inr s'"
    "append_events e run evs s' (audit e ''run'' run ty v ''run-worker'' (step_instant ty v) d) = Inr d'" by (auto simp: and_then_Inr)
  from "2.IH" [OF s'(2)] show ?case by (simp add: kept_db_def audit_def find_run_def Let_def)
qed (simp add: kept_db_def)

lemma append_step_kept:
  assumes "append_run_step_events e run token attempt events coarse ac at d = Inr (u, d')"
  shows "kept_db i d d'"
proof -
  from assms obtain evs s d1 where d1: "append_events e run evs s d = Inr d1" "d' = set_coarse_phase (now e) run coarse d1"
    by (rule append_step_events_cases)
  have "kept_db i d1 (set_coarse_phase (now e) run coarse d1)"
    by (cases coarse) (auto simp: set_coarse_phase_def kept_db_def find_run_def sel1_upd_same option.map_comp comp_def intro!: map_option_cong)
  with append_events_kept [OF d1(1), of i] d1(2) show ?thesis by (simp add: kept_db_def)
qed

lemma finish_step_kept: "finish_step e ns state summary own at tm d = Inr (x, d') \<Longrightarrow> kept_db i d d'"
  by (auto simp: finish_step_def and_then_Inr kept_db_def split: option.splits dest: append_step_kept [of _ _ _ _ _ _ _ _ _ _ _ i])

lemma transition_kept: "transition e ns hex phase coarse summary ac tm d = Inr (x, d') \<Longrightarrow> kept_db i d d'"
  by (auto simp: transition_def and_then_Inr Let_def split: option.splits dest!: append_step_kept [of _ _ _ _ _ _ _ _ _ _ _ i])

lemma record_step_kept:
  assumes "record_step f c = (r, c')" "\<And>t d t' d'. f t d = Inr (t', d') \<Longrightarrow> kept_db run d d'"
  shows "kept run c c'"
  using assms by (auto simp: record_step_def kept_def kept_db_def split: sum.splits prod.splits)

lemma archive_json_key: "archive_json io name v A = Inr A' \<Longrightarrow> pa_task A' = pa_task A \<and> pa_run A' = pa_run A"
  by (auto simp: archive_json_def archive_write_Inr)

lemma record_file_kept:
  assumes "record_file f c = (r, c')" "\<And>A A'. f A = Inr A' \<Longrightarrow> pa_task A' = pa_task A \<and> pa_run A' = pa_run A"
  shows "kept run c c'"
  using assms by (auto simp: record_file_def kept_def kept_db_def split: sum.splits)

lemma seq_kept:
  assumes "seq m f = (r, c')" "\<And>x c1. m = (x, c1) \<Longrightarrow> kept run c c1" "\<And>x c1. f x c1 = (r, c') \<Longrightarrow> kept run c1 c'"
  shows "kept run c c'"
  using assms by (cases m) (auto simp: seq_def split: sum.splits intro: kept_trans)

lemma before_publication_kept: "before_publication fi a c = (r, c') \<Longrightarrow> kept run c c'"
  unfolding before_publication_def
  apply (erule seq_kept, simp add: kept_refl)
  apply (erule seq_kept, erule record_step_kept, force simp: and_then_Inr dest: finish_step_kept)
  apply (erule seq_kept, erule record_step_kept, erule transition_kept)
  apply (erule seq_kept, erule record_step_kept, force simp: and_then_Inr kept_db_def)
  apply (erule seq_kept, force simp: kept_refl split: option.splits elim: record_file_kept dest: archive_json_key)
  apply (erule record_file_kept, auto simp: and_then_Inr dest: archive_json_key)
  done

lemma live_owner_kept: "kept_db run d d' \<Longrightarrow> live_owner e i token d' = live_owner e i token d"
  by (simp add: live_owner_def kept_db_def)

lemma decide_kept: "kept_db run d d' \<Longrightarrow> decide a i d' = decide a i d"
  by (simp add: decide_def kept_db_def get_execution_controls_def ctl_of_def)

lemma fail_handoffs_runs: "find_run run (fail_handoffs p reason d) = find_run run d"
  by (simp add: fail_handoffs_def find_run_def)

lemma fail_handoffs_closed: "x \<in> set (db_handoffs (fail_handoffs p reason d)) \<Longrightarrow> (\<And>y. p (y\<lparr>ho_status := ''failed'', ho_reason := Some reason\<rparr>) = p y) \<Longrightarrow> p x \<Longrightarrow> \<not> open_handoff x"
  by (auto simp: fail_handoffs_def open_handoff_def dest!: upd_mem)

lemma abandon_live:
  assumes "live_owner (fi_env fi 8) run token d" "map_option run_status (find_run run d) = Some Running"
  shows "map_option run_status (find_run run (abandon fi run token f er tm d)) = Some NeedsAttention
    \<and> (\<forall>x \<in> set (db_handoffs (abandon fi run token f er tm d)). ho_run x = run \<longrightarrow> \<not> open_handoff x)"
proof -
  define d1 where "d1 = (case finish_step (fi_env fi 8) (fi_ns fi 8) ''needs_attention'' [] False True tm d of Inl _ \<Rightarrow> d | Inr (_, d1) \<Rightarrow> d1)"
  have "kept_db run d d1" unfolding d1_def by (auto simp: kept_db_def split: sum.splits dest: finish_step_kept [of _ _ _ _ _ _ _ _ _ _ run])
  with assms(2) obtain r where r: "sel1 (\<lambda>r. run_id r = run) (db_runs d1) = Some r" "run_status r = Running"
    by (auto simp: kept_db_def find_run_def)
  from sel1_Some [OF r(1)] have "run_id r = run" by simp
  note r = r this
  let ?a = "abandon fi run token f er tm d"
  let ?d2 = "d1\<lparr>db_runs := upd (\<lambda>r. run_id r = run \<and> run_status r = Running)
    (\<lambda>r. r\<lparr>run_status := NeedsAttention, run_phase := PhFinalize, run_finished := Some (now (fi_env fi 8)),
      run_error := Some (archive_failure f er)\<rparr>) (db_runs d1)\<rparr>"
  have a: "?a = fail_handoffs (\<lambda>x. ho_run x = run) (archive_failure f er) ?d2"
    using assms(1) by (simp add: abandon_def d1_def Let_def)
  have "map_option run_status (find_run run ?a) = Some NeedsAttention"
    unfolding a fail_handoffs_runs using r by (simp add: find_run_upd)
  moreover have "\<forall>x \<in> set (db_handoffs ?a). ho_run x = run \<longrightarrow> \<not> open_handoff x"
    unfolding a by (auto dest: fail_handoffs_closed)
  ultimately show ?thesis by simp
qed

lemma abandon_dead: "\<not> live_owner (fi_env fi 8) run token d \<Longrightarrow> abandon fi run token f er tm d = d"
  by (simp add: abandon_def)

text \<open>The archive of an attempt, published with a state.\<close>

definition published_as_state :: "attempt \<Rightarrow> run_state \<Rightarrow> archives \<Rightarrow> archives \<Rightarrow> bool" where
  "published_as_state a s ars ars' = (map_of ars (pa_task (at_archive a), pa_run (at_archive a)) = None
     \<and> (\<exists>files m. ars' = ars @ [((pa_task (at_archive a), pa_run (at_archive a)), files)]
          \<and> (''run-manifest.json'', canonical_json (JDict m)) \<in> set files \<and> dget m ''status'' = JStr (run_text s)))"

lemma capture_key: "pa_task (capture io prefix items n bts A) = pa_task A \<and> pa_run (capture io prefix items n bts A) = pa_run A"
proof (induction io prefix items n bts A rule: capture.induct)
  case (3 io prefix rel content ws count bts A)
  have "pa_task A' = pa_task A \<and> pa_run A' = pa_run A" if "capture_file io prefix rel content n b A = Inr A'" for n b A'
    using that by (auto simp: capture_file_def and_then_Inr archive_write_Inr split: if_splits)
  with "3.IH" show ?case by (auto simp: Let_def split: sum.splits)
qed auto

lemma capture_outputs_key: "pa_task (capture_outputs io os A) = pa_task A \<and> pa_run (capture_outputs io os A) = pa_run A"
  by (induction io os A rule: capture_outputs.induct) (simp_all add: capture_key)

lemma manifest_status: "dget (with_warnings (run_manifest st e a run task token vd h) A) ''status'' = JStr (run_text (fst vd))"
  by (simp add: with_warnings_def run_manifest_def dget_def)

lemma withdraw_runs: "withdraw vd m d = (h, d') \<Longrightarrow> find_run run d' = find_run run d \<and> db_runs d' = db_runs d"
  by (auto simp: withdraw_def fail_handoffs_def find_run_def split: option.splits if_splits)

lemma finish_archive_status:
  assumes "archive_finish io (run_manifest st e a run task token vd h) guard A ars = (r, ars')" "pa_task A = pa_task (at_archive a)" "pa_run A = pa_run (at_archive a)"
  shows "(ars' = ars \<and> r \<noteq> Inr ()) \<or> guard = Inr () \<and> published_as_state a (fst vd) ars ars'"
proof (cases "ars' = ars")
  case True
  with assms(1) archive_finish_kept show ?thesis by blast
next
  case False
  with assms(1) obtain A' where A': "stage_manifest io (run_manifest st e a run task token vd h) A = Inr A'" "guard = Inr ()"
      "map_of ars (pa_task A, pa_run A) = None" "ars' = ars @ [((pa_task A, pa_run A), pa_files A')]"
    by (rule archive_finish_published)
  from stage_manifest_files [OF A'(1)] have "(''run-manifest.json'', canonical_json (JDict (with_warnings (run_manifest st e a run task token vd h) A))) \<in> set (pa_files A')"
    by (auto simp: Let_def)
  with A' assms(2,3) show ?thesis
    unfolding published_as_state_def by (auto intro!: exI [of _ "with_warnings (run_manifest st e a run task token vd h) A"] simp: manifest_status)
qed

text \<open>The commit stores the decided state and has published the archive with that state; its error
  leaves the archives, or one published with that state.\<close>

lemma commit_attempt_ok:
  assumes "commit_attempt fi a run task token vd c = (Inr d', ars)" "map_option run_status (find_run (run_id run) (si_db (cl_site c))) = Some Running"
    and "pa_task (cl_files c) = pa_task (at_archive a)" "pa_run (cl_files c) = pa_run (at_archive a)"
  shows "map_option run_status (find_run (run_id run) d') = Some (fst vd) \<and> published_as_state a (fst vd) (si_archives (cl_site c)) ars"
proof -
  obtain h d1 where w: "withdraw vd (at_handoff a) (si_db (cl_site c)) = (h, d1)" by (metis surj_pair)
  from assms(1) w obtain A where A: "archive_json (fi_archive fi) ''validation-report.json'' (validation_report a (snd vd))
      (capture_outputs (fi_archive fi) (at_outputs a) (cl_files c)) = Inr A"
    by (auto simp: commit_attempt_def Let_def split: sum.splits)
  let ?fin = "archive_finish (fi_archive fi) (run_manifest (fi_str fi) (fi_env fi 4) a run task token vd h) (commit_guard (fi_env fi 5) (run_id run) token d1) A (si_archives (cl_site c))"
  from assms(1) w A have fin: "?fin = (Inr (), ars)" and "\<exists>final tm d2. finish_step (fi_env fi 6) (fi_ns fi 6) ''succeeded'' [] False False (cl_steps c) d1 = Inr ((final, tm), d2)
      \<and> (\<exists>t er t'. d' = end_run (run_id run) (fst vd) t er t' d2)"
    by (auto simp: commit_attempt_def Let_def split: sum.splits prod.splits if_splits)
  then obtain final tm d2 t er t' where d2: "finish_step (fi_env fi 6) (fi_ns fi 6) ''succeeded'' [] False False (cl_steps c) d1 = Inr ((final, tm), d2)"
      "d' = end_run (run_id run) (fst vd) t er t' d2" by blast
  from archive_json_key [OF A] assms(3,4) have "pa_task A = pa_task (at_archive a)" "pa_run A = pa_run (at_archive a)" by (simp_all add: capture_outputs_key)
  from finish_archive_status [OF fin this] have pub: "published_as_state a (fst vd) (si_archives (cl_site c)) ars" by simp
  have "kept_db (run_id run) d1 d2" by (rule finish_step_kept [OF d2(1)])
  with assms(2) withdraw_runs [OF w] have "map_option run_status (find_run (run_id run) d2) = Some Running" by (simp add: kept_db_def)
  then obtain r where r: "sel1 (\<lambda>r. run_id r = run_id run) (db_runs d2) = Some r" "run_status r = Running" by (auto simp: find_run_def)
  from sel1_Some [OF r(1)] have "run_id r = run_id run" by simp
  with r d2(2) have "map_option run_status (find_run (run_id run) d') = Some (fst vd)" by (simp add: end_run_def find_run_upd)
  with pub show ?thesis by simp
qed

lemma commit_guard_live: "commit_guard e run token d = Inr u \<Longrightarrow> map_option run_status (find_run run d) = Some Running"
  by (auto simp: commit_guard_def owner_row_def find_run_def check_Inr split: option.splits if_splits)

text \<open>The three ways an attempt ends: the decided state with its archive, a run that needs attention
  and no open delivery, or an untouched run under a lease that was lost.\<close>

definition decided :: "attempt \<Rightarrow> string \<Rightarrow> site \<Rightarrow> site \<Rightarrow> bool" where
  "decided a run w w' = (map_option run_status (find_run run (si_db w')) = Some (fst (decide a run (si_db w))) \<and> at_acquired a
     \<and> published_as_state a (fst (decide a run (si_db w))) (si_archives w) (si_archives w'))"

definition ended :: "finisher \<Rightarrow> attempt \<Rightarrow> string \<Rightarrow> string \<Rightarrow> site \<Rightarrow> site \<Rightarrow> bool" where
  "ended fi a run token w w' = (decided a run w w'
     \<or> (map_option run_status (find_run run (si_db w')) = Some NeedsAttention
        \<and> (\<forall>x \<in> set (db_handoffs (si_db w')). ho_run x = run \<longrightarrow> \<not> open_handoff x))
     \<or> (map_option run_status (find_run run (si_db w')) = Some Running \<and> \<not> live_owner (fi_env fi 8) run token (si_db w)))"

lemma abandon_ended:
  assumes "kept_db run (si_db w) d" "map_option run_status (find_run run (si_db w)) = Some Running"
    and "si_db w' = abandon fi run token f er tm d"
  shows "ended fi a run token w w'"
proof (cases "live_owner (fi_env fi 8) run token d")
  case True
  from assms(1,2) have "map_option run_status (find_run run d) = Some Running" by (simp add: kept_db_def)
  from abandon_live [OF True this] assms(3) show ?thesis by (simp add: ended_def)
next
  case False
  with live_owner_kept [OF assms(1)] abandon_dead [OF False] assms show ?thesis by (simp add: ended_def kept_db_def)
qed

lemma close_attempt_ended:
  assumes "close_attempt fi a run task token w = (r, w')" "map_option run_status (find_run (run_id run) (si_db w)) = Some Running"
  shows "ended fi a (run_id run) token w w' \<and> (isl r \<or> decided a (run_id run) w w')"
proof -
  obtain r1 c where c: "before_publication fi a \<lparr>cl_site = w, cl_steps = at_timeline a, cl_files = at_archive a\<rparr> = (r1, c)" by (metis surj_pair)
  from before_publication_kept [OF c, of "run_id run"] have k: "kept_db (run_id run) (si_db w) (si_db (cl_site c))"
    "si_archives (cl_site c) = si_archives w" "pa_task (cl_files c) = pa_task (at_archive a)" "pa_run (cl_files c) = pa_run (at_archive a)"
    by (simp_all add: kept_def)
  note ab = abandon_ended [OF k(1) assms(2)]
  let ?g = "commit_guard (fi_env fi 3) (run_id run) token (si_db (cl_site c))"
  let ?d = "decide a (run_id run) (si_db (cl_site c))"
  show ?thesis
  proof (cases r1)
    case (Inl er)
    with assms(1) c have "si_db w' = abandon fi (run_id run) token (at_failure a) er (cl_steps c) (si_db (cl_site c))" "isl r"
      by (auto simp: close_attempt_def)
    from ab [OF this(1)] this(2) show ?thesis by simp
  next
    case (Inr u)
    note first = Inr
    have "at_acquired a" using c Inr by (auto simp: before_publication_def seq_cases check_Inr)
    show ?thesis
    proof (cases ?g)
      case (Inl er)
      with assms(1) c first have "si_db w' = abandon fi (run_id run) token (at_failure a) er (cl_steps c) (si_db (cl_site c))" "isl r"
        by (auto simp: close_attempt_def Let_def)
      from ab [OF this(1)] this(2) show ?thesis by simp
    next
      case (Inr g)
      obtain q ars where q: "commit_attempt fi a run task token ?d c = (q, ars)" by (metis surj_pair)
      show ?thesis
      proof (cases q)
        case (Inl er)
        with assms(1) c first Inr q have "si_db w' = abandon fi (run_id run) token (snd ?d) er (cl_steps c) (si_db (cl_site c))" "isl r"
          by (auto simp: close_attempt_def Let_def)
        from ab [OF this(1)] this(2) show ?thesis by simp
      next
        case (Inr d')
        with q have q: "commit_attempt fi a run task token ?d c = (Inr d', ars)" by simp
        with assms(1) c first \<open>?g = Inr g\<close> have w': "si_db w' = d'" "si_archives w' = ars" by (auto simp: close_attempt_def Let_def)
        from assms(2) k(1) have "map_option run_status (find_run (run_id run) (si_db (cl_site c))) = Some Running" by (simp add: kept_db_def)
        from commit_attempt_ok [OF q this k(3,4)] w' \<open>at_acquired a\<close> decide_kept [OF k(1)] k(2) show ?thesis by (simp add: ended_def decided_def)
      qed
    qed
  qed
qed

lemma free_workspace_kept:
  "free_workspace a task run token w = (r, w') \<Longrightarrow> db_runs (si_db w') = db_runs (si_db w) \<and> db_handoffs (si_db w') = db_handoffs (si_db w)
    \<and> si_archives w' = si_archives w"
  by (auto simp: free_workspace_def tx_def mark_cleanup_verified_def split: if_splits sum.splits prod.splits)

lemma save_handoff_runs: "save_handoff e h d = Inr (u, d') \<Longrightarrow> db_runs d' = db_runs d"
  by (erule save_handoff_cases) simp_all

definition same_runs :: "site \<Rightarrow> site \<Rightarrow> bool" where
  "same_runs w w' = (db_runs (si_db w') = db_runs (si_db w) \<and> si_archives w' = si_archives w)"

lemma same_runs_refl: "same_runs w w"
  by (simp add: same_runs_def)

lemma seq_same_runs:
  assumes "\<And>r v. m = (r, v) \<Longrightarrow> same_runs w v" "\<And>x v. m = (Inr x, v) \<Longrightarrow> same_runs v (snd (f x v))"
  shows "same_runs w (snd (seq m f))"
  using assms by (cases m) (auto simp: seq_def same_runs_def split: sum.splits)

lemma tx_same_runs: "tx f w = (r, w') \<Longrightarrow> (\<And>x d. f (si_db w) = Inr (x, d) \<Longrightarrow> db_runs d = db_runs (si_db w)) \<Longrightarrow> same_runs w w'"
  by (auto simp: tx_def same_runs_def split: sum.splits prod.splits)

lemma publish_same_runs: "same_runs w (snd (publish p h raw files w))"
  unfolding publish_def
proof (rule seq_same_runs)
  fix x v assume v: "peek (approve p h) w = (Inr x, v)"
  show "same_runs v (snd (case publish_package (pb_disk p) (ho_id h) raw files (si_outbox v) of Inl er \<Rightarrow> (Inl er, v)
     | Inr outbox \<Rightarrow> let h' = h\<lparr>ho_status := ''published'', ho_published := Some (now (pb_env p))\<rparr>
         in seq (tx (save_handoff (pb_env p) h') (v\<lparr>si_outbox := outbox\<rparr>)) (\<lambda>_ w2. (Inr h', w2))))"
    by (auto simp: Let_def same_runs_def seq_def tx_def dest: save_handoff_runs split: sum.splits prod.splits)
qed (auto simp: peek_def same_runs_refl)

lemma alert_audit_runs: "alert_audit p entity key typ event d = Inr (u, d') \<Longrightarrow> db_runs d' = db_runs d"
  by (auto simp: alert_audit_def audit_def)

lemma alert_publication_runs:
  "same_runs w (snd (seq (peek (approve p h) w) (\<lambda>_ w1. seq (tx (save_handoff (pb_env p) h) w1) (\<lambda>_ w2. publish p h raw files w2))))"
  by (intro seq_same_runs publish_same_runs) (auto simp: peek_def same_runs_refl elim!: tx_same_runs dest: save_handoff_runs)

lemma queue_alert_runs: "same_runs w (snd (queue_alert p h raw files r safe w))"
proof (cases "seq (peek (approve p h) w) (\<lambda>_ w1. seq (tx (save_handoff (pb_env p) h) w1) (\<lambda>_ w2. publish p h raw files w2))")
  case (Pair q w3)
  with alert_publication_runs [of w p h raw files] have "same_runs w w3" by simp
  then show ?thesis unfolding queue_alert_def Pair
    by (cases q) (auto simp: same_runs_def seq_def tx_def dest: alert_audit_runs split: sum.splits prod.splits)
qed

lemma emit_alert_runs: "same_runs w (snd (emit_alert p def run event reason w))"
  unfolding emit_alert_def Let_def
  by (simp add: queue_alert_runs same_runs_refl split: sum.split prod.split option.split)

lemma operator_alert_runs: "same_runs w (operator_alert fi def run vd w)"
  by (simp add: operator_alert_def emit_alert_runs same_runs_refl)

text \<open>C31: a finalized run ends in one of three ways: in the decided state, with its archive published
  under that very state and all acquisition processes gone; needing attention, with no delivery of
  the run left prepared or published; or still running, and then its lease was lost to a later
  owner. It awaits a receipt only when the stages published its message, every child process was
  cleaned up, nobody had asked to cancel it and the archive that says so is published.\<close>

theorem finalization_outcome:
  assumes "finalize_run fi a run def task token w = (r, w')" "map_option run_status (find_run (run_id run) (si_db w)) = Some Running"
  shows "ended fi a (run_id run) token w w' \<and> (map_option run_status (find_run (run_id run) (si_db w')) = Some AwaitingReceipt \<longrightarrow>
    at_status a = AwaitingReceipt \<and> at_cleanup a \<and> \<not> at_stopped a \<and> \<not> ctl_cancel (get_execution_controls (run_id run) (si_db w))
    \<and> published_as_state a AwaitingReceipt (si_archives w) (si_archives w'))"
proof -
  obtain r1 w1 where w1: "close_attempt fi a run task token w = (r1, w1)" by (metis surj_pair)
  obtain r2 w2 where w2: "free_workspace a task (run_id run) token w1 = (r2, w2)" by (metis surj_pair)
  note close = close_attempt_ended [OF w1 assms(2)] and free = free_workspace_kept [OF w2]
  let ?vd = "decide a (run_id run) (si_db w)"
  have same: "same_runs w2 w'" using assms(1) w1 w2 operator_alert_runs [of w2]
    by (auto simp: finalize_run_def same_runs_refl split: sum.splits)
  with free have runs: "find_run i (si_db w') = find_run i (si_db w1)" "si_archives w' = si_archives w1" for i
    by (simp_all add: same_runs_def find_run_def)
  have "ended fi a (run_id run) token w w'"
  proof (cases "isl r1")
    case True
    with assms(1) w1 w2 have "w' = w2" by (auto simp: finalize_run_def split: sum.splits)
    with close free runs show ?thesis by (simp add: ended_def decided_def)
  next
    case False
    with close runs show ?thesis by (simp add: ended_def decided_def)
  qed
  moreover have "at_status a = AwaitingReceipt \<and> at_cleanup a \<and> \<not> at_stopped a \<and> \<not> ctl_cancel (get_execution_controls (run_id run) (si_db w))"
    if "fst ?vd = AwaitingReceipt" using that by (auto simp: decide_def split: if_splits)
  ultimately show ?thesis unfolding ended_def decided_def by auto
qed

definition sample_attempt :: attempt where
  "sample_attempt = \<lparr>at_archive = \<lparr>pa_task = ''t1'', pa_run = ''r1'', pa_files = [], pa_warnings = []\<rparr>, at_timeline = new_timeline ''r1'' 1 ''f'',
     at_research = None, at_input = None, at_result = None, at_handoff = None, at_warnings = [], at_executions = [], at_errors = [],
     at_outputs = [], at_cleanup = True, at_locked = False, at_status = AwaitingReceipt, at_failure = None, at_report = None,
     at_acquired = True, at_stopped = False\<rparr>"

definition sample_finisher :: finisher where
  "sample_finisher = \<lparr>fi_env = (\<lambda>n. sample_env), fi_ns = (\<lambda>n. 0), fi_hex = ''0'', fi_archive = sample_archive_io, fi_str = (\<lambda>v. ''value''), fi_pub = live_publisher\<rparr>"

definition sample_row :: run_row where
  "sample_row = (sample_run ''r1'' ''t1'')\<lparr>run_status := Running, run_attempt := 1\<rparr>"

lemma sample_awaits: "map_option run_status (find_run ''r1'' (si_db (snd (finalize_run sample_finisher sample_attempt sample_row [] ''t1'' ''f'' live_site))))
    = Some AwaitingReceipt"
  by code_simp

theorem finalization_outcome_witness:
  "published_as_state sample_attempt AwaitingReceipt [] (si_archives (snd (finalize_run sample_finisher sample_attempt sample_row [] ''t1'' ''f'' live_site)))"
proof -
  let ?f = "finalize_run sample_finisher sample_attempt sample_row [] ''t1'' ''f'' live_site"
  have f: "?f = (fst ?f, snd ?f)" by simp
  have run: "run_id sample_row = ''r1''" by code_simp
  have "map_option run_status (find_run (run_id sample_row) (si_db live_site)) = Some Running" by code_simp
  from finalization_outcome [OF f this] sample_awaits show ?thesis by (simp add: run live_site_def)
qed

end
