(* ===== verification/Prepared_Delivery.thy ===== *)
theory Prepared_Delivery imports Publication begin

text \<open>
  The reading of an already validated message from its run archive,
  \<open>services/prepared_delivery.py\<close>: which run the message belongs to, the state that run must
  be in, the hashes that bind the archive index, the stored rows and every byte of the message. The
  message validator (\<open>engine/message_validator.py\<close>), the size limit and SHA-256 are
  parameters; an archive is read by the name of a file.
\<close>

section \<open>The source of a message\<close>

record message_reader =
  mr_sha :: "string \<Rightarrow> string"
  mr_schema_ok :: "json \<Rightarrow> bool"
  mr_max :: int
  mr_validate :: "file_reader \<Rightarrow> dict \<Rightarrow> dict \<Rightarrow> json \<Rightarrow> json \<Rightarrow> (dict \<times> dict) res"

record prepared_message =
  pm_run :: run_row
  pm_composition :: dict
  pm_message :: dict
  pm_input :: dict
  pm_result :: output_row
  pm_hashes :: dict
  pm_files :: "(string \<times> string) list"
  pm_research :: result_row

text \<open>The walk to the source: at most 128 parents, none of them twice, all of the same task version.\<close>

fun ancestor_walk :: "nat \<Rightarrow> db \<Rightarrow> run_row \<Rightarrow> string \<Rightarrow> string list \<Rightarrow> run_row \<Rightarrow> unit res" where
  "ancestor_walk 0 d asked source visited r = Inl (ValidationError ''SOURCE_ANCESTRY_LIMIT'')"
| "ancestor_walk (Suc n) d asked source visited r =
    (if default [] (run_parent r) = [] \<or> default [] (run_parent r) \<in> set visited then Inl (ValidationError ''SOURCE_NOT_ANCESTOR'')
     else (case find_run (default [] (run_parent r)) d of
         None \<Rightarrow> Inl (ValidationError ''SOURCE_IDENTITY_MISMATCH'')
       | Some a \<Rightarrow> if run_task a \<noteq> run_task asked \<or> run_version a \<noteq> run_version asked then Inl (ValidationError ''SOURCE_IDENTITY_MISMATCH'')
           else if run_id a = source then Inr () else ancestor_walk n d asked source (run_id a # visited) a))"

definition message_reference :: "json option \<Rightarrow> json option \<Rightarrow> json option res" where
  "message_reference expected plan = (case plan of None \<Rightarrow> Inr expected
     | Some p \<Rightarrow> if \<not> truthy p then Inr expected
       else and_then (sub p ''scope'') (\<lambda>scope. if \<not> pyeq scope (JStr ''delivery_only'') then Inr expected
         else and_then (sub p ''source_message'') (\<lambda>m. case expected of
             Some x \<Rightarrow> if pyeq x m then Inr (Some m) else Inl (ValidationError ''SOURCE_CHANGED'')
           | None \<Rightarrow> Inr (Some m))))"

definition text_field :: "json option \<Rightarrow> string \<Rightarrow> string \<Rightarrow> string res" where
  "text_field m k other = (case m of None \<Rightarrow> Inr other | Some v \<Rightarrow> and_then (sub v k) (\<lambda>x. case x of JStr s \<Rightarrow> Inr s | _ \<Rightarrow> Inl (TypeError k)))"

definition same_occurrence :: "run_row \<Rightarrow> run_row \<Rightarrow> bool" where
  "same_occurrence a b = (run_task a = run_task b \<and> run_version a = run_version b \<and> run_local_date a = run_local_date b
     \<and> run_due a = run_due b \<and> run_timezone a = run_timezone b \<and> run_local_display a = run_local_display b)"

definition message_source :: "run_row \<Rightarrow> string \<Rightarrow> db \<Rightarrow> run_row res" where
  "message_source asked source d =
     and_then (if source = run_id asked then Inr () else ancestor_walk 128 d asked source [run_id asked] asked) (\<lambda>_.
       case find_run source d of
         None \<Rightarrow> Inl (ValidationError ''SOURCE_IDENTITY_MISMATCH'')
       | Some r \<Rightarrow> let k = get_execution_controls source d in
           and_then (check (same_occurrence r asked) (ValidationError ''SOURCE_IDENTITY_MISMATCH'')) (\<lambda>_.
           and_then (check (run_status r \<in> {Failed, TimedOut}) (ValidationError ''SOURCE_NOT_FAILED'')) (\<lambda>_.
           and_then (check (\<not> ctl_cancel k \<and> \<not> ctl_dry k \<and> ctl_cleanup k) (ValidationError ''SOURCE_NOT_RECOVERABLE'')) (\<lambda>_.
           and_then (check (get_handoff_for_run source d = None) (ValidationError ''HANDOFF_ALREADY_EXISTS'')) (\<lambda>_. Inr r)))))"

section \<open>The archive\<close>

text \<open>\<open>read_safe_bytes\<close> on the published tree of the run.\<close>

definition archive_reader :: "archives \<Rightarrow> string \<Rightarrow> string \<Rightarrow> int \<Rightarrow> file_reader" where
  "archive_reader ars task run limit name = (case map_of ars (task, run) of None \<Rightarrow> Inl (WorkspaceError ''unreadable file'')
     | Some files \<Rightarrow> (case map_of files name of None \<Rightarrow> Inl (WorkspaceError ''unreadable file'')
         | Some c \<Rightarrow> if limit < int (length c) then Inl (WorkspaceError ''file size'') else Inr c))"

definition manifest_identity :: "(string \<Rightarrow> string) \<Rightarrow> run_row \<Rightarrow> int \<Rightarrow> output_row \<Rightarrow> json \<Rightarrow> json \<Rightarrow> string \<Rightarrow> bool res" where
  "manifest_identity sha r revision out index manifest raw =
     and_then (collect (getk index) [''task_id'', ''run_id'', ''run_manifest'']) (\<lambda>i.
     and_then (collect (getk manifest) [''task_id'', ''run_id'', ''task_hash'', ''scheduled_for'', ''composition'']) (\<lambda>m.
       Inr (list_all2 pyeq i [JStr (run_task r), JStr (run_id r),
              JDict [(''relative_path'', JStr ''run-manifest.json''), (''sha256'', JStr (sha raw))]]
         \<and> list_all2 pyeq m [JStr (run_task r), JStr (run_id r), JStr (run_version r), JStr (isoformat (run_due r)),
              JDict (dmerge [(''status'', JStr ''validated''), (''revision'', JInt revision)] (stored_result out))])))"

definition index_entries :: "json \<Rightarrow> json list res" where
  "index_entries index = and_then (getk index ''artifacts'') (\<lambda>v. case v of
     JList es \<Rightarrow> if 4096 < int (length es) \<or> \<not> list_all is_dict es then Inl (ValidationError ''ARCHIVE_INDEX_INVALID'')
       else and_then (fold_res (\<lambda>e ks. let k = dget (default [] (as_dict e)) ''relative_path'' in
           and_then (hash_in k ks) (\<lambda>dup. if dup then Inl (ValidationError ''ARCHIVE_INDEX_INVALID'') else Inr (k # ks))) es []) (\<lambda>_. Inr es)
   | _ \<Rightarrow> Inl (ValidationError ''ARCHIVE_INDEX_INVALID''))"

definition indexed :: "json list \<Rightarrow> string \<Rightarrow> dict option" where
  "indexed es name = find (\<lambda>d. dget d ''relative_path'' = JStr name) (map (\<lambda>e. default [] (as_dict e)) es)"

text \<open>\<open>read(name, limit)\<close>: the bytes the index vouches for, remembered by name.\<close>

definition read_indexed :: "(string \<Rightarrow> string) \<Rightarrow> (int \<Rightarrow> file_reader) \<Rightarrow> json list \<Rightarrow> string \<Rightarrow> int \<Rightarrow> (string \<times> string) list \<Rightarrow>
    (string \<times> (string \<times> string) list) res" where
  "read_indexed sha rd es name limit files = (case indexed es name of
     None \<Rightarrow> Inl (ValidationError ''FILE_NOT_INDEXED'')
   | Some e \<Rightarrow> and_then (rd limit name) (\<lambda>raw.
       and_then (check (pyeq (dget e ''size_bytes'') (JInt (int (length raw))) \<and> pyeq (dget e ''sha256'') (JStr (sha raw)))
         (ValidationError ''FILE_HASH_MISMATCH'')) (\<lambda>_. Inr (raw, AList.update name raw files))))"

definition list_of :: "json \<Rightarrow> json list res" where
  "list_of v = (case v of JList xs \<Rightarrow> Inr xs | _ \<Rightarrow> Inl (TypeError ''list''))"

definition path_of :: "json \<Rightarrow> string res" where
  "path_of a = and_then (sub a ''path'') (\<lambda>v. case v of JStr s \<Rightarrow> Inr s | _ \<Rightarrow> Inl (ValidationError ''FILE_NOT_INDEXED''))"

text \<open>\<open>(binding or \{\}).get(k) or record.get(k) or []\<close>\<close>

definition extra_media :: "output_row \<Rightarrow> json res" where
  "extra_media out = (let b = dget (out_result out) ''composition_binding''; own = dget (out_result out) ''compose_artifacts'';
       rest = (if truthy own then own else JList []) in
     if \<not> truthy b then Inr rest else and_then (getk b ''compose_artifacts'') (\<lambda>v. Inr (if truthy v then v else rest)))"

definition media_paths :: "dict \<Rightarrow> output_row \<Rightarrow> string list res" where
  "media_paths c out = and_then (list_of (dget c ''inline_artifacts'')) (\<lambda>xs. and_then (list_of (dget c ''attachments'')) (\<lambda>ys.
     and_then (extra_media out) (\<lambda>v. and_then (list_of v) (\<lambda>zs. collect path_of (xs @ ys @ zs)))))"

definition sidecars :: "dict \<Rightarrow> output_row \<Rightarrow> (string \<times> json) list" where
  "sidecars c out = filter (\<lambda>(name, v). v \<noteq> JNull)
     [(''artifact-report.json'', if pyeq (dget c ''schema_version'') (JInt 4) then dget c ''artifact_report'' else JNull),
      (''composition-binding.json'', dget (out_result out) ''composition_binding''),
      (''recipient-resolution.json'', dget (out_result out) ''recipient_resolution''),
      (''research-context.json'', dget c ''research_context''), (''delivery-history.json'', dget c ''delivery_history'')]"

section \<open>The message\<close>

definition controlled_input :: "message_reader \<Rightarrow> (int \<Rightarrow> file_reader) \<Rightarrow> json list \<Rightarrow> run_row \<Rightarrow> int \<Rightarrow> input_row \<Rightarrow> (dict \<times> (string \<times> string) list) res" where
  "controlled_input mr rd es r revision i = and_then (read_indexed (mr_sha mr) rd es ''validation-report.json'' 2000000 []) (\<lambda>(report, fs1).
     and_then (strict_json_loads report 2000000) (\<lambda>v. and_then (getk v ''cleanup_verified'') (\<lambda>ok.
     and_then (check (ok = JBool True) (ValidationError ''CLEANUP_UNVERIFIED'')) (\<lambda>_.
     and_then (read_indexed (mr_sha mr) rd es ''composition-input.json'' 20000000 fs1) (\<lambda>(raw, fs2).
     and_then (check (raw = canonical_json (inp_value i) \<and> mr_sha mr raw = inp_sha i) (ValidationError ''INPUT_HASH_MISMATCH'')) (\<lambda>_.
     and_then (case inp_value i of JDict d \<Rightarrow> composition_input d | _ \<Rightarrow> Inl (TypeError ''CompositionInput'')) (\<lambda>c.
     and_then (check (pyeq (JDict (identity_of c)) (JDict (message_identity (JStr (run_task r)) (run_id r) (run_version r) revision)))
        (ValidationError ''INPUT_IDENTITY_MISMATCH'')) (\<lambda>_. Inr (c, fs2)))))))))"

definition message_names :: "json list \<Rightarrow> output_row \<Rightarrow> string list \<Rightarrow> string list" where
  "message_names es out paths = out_html out # out_text out # paths
     @ (if indexed es ''.image-ledger.json'' \<noteq> None then [''.image-ledger.json''] else [])"

definition message_files :: "message_reader \<Rightarrow> (int \<Rightarrow> file_reader) \<Rightarrow> json list \<Rightarrow> dict \<Rightarrow> output_row \<Rightarrow> result_row \<Rightarrow> (string \<times> string) list \<Rightarrow>
    (string \<times> string) list res" where
  "message_files mr rd es c out research fs2 = and_then (read_indexed (mr_sha mr) rd es ''composition-result.json'' 1000000 fs2) (\<lambda>(_, fs3).
     and_then (media_paths c out) (\<lambda>paths.
     and_then (fold_res (\<lambda>name fs. and_then (read_indexed (mr_sha mr) rd es name (mr_max mr) fs) (\<lambda>(_, fs'). Inr fs')) (message_names es out paths) fs3) (\<lambda>fs4.
     and_then (read_indexed (mr_sha mr) rd es ''result.json'' 20000000 fs4) (\<lambda>(result, fs5).
     and_then (check (result = res_raw research) (ValidationError ''RESEARCH_HASH_MISMATCH'')) (\<lambda>_.
       fold_res (\<lambda>(name, v) fs. and_then (read_indexed (mr_sha mr) rd es name 2000000 fs) (\<lambda>(side, fs').
        and_then (check (side = canonical_json v) (ValidationError ''SIDECAR_HASH_MISMATCH'')) (\<lambda>_. Inr fs'))) (sidecars c out) fs5)))))"

definition message_bytes :: "message_reader \<Rightarrow> (int \<Rightarrow> file_reader) \<Rightarrow> json list \<Rightarrow> run_row \<Rightarrow> int \<Rightarrow> input_row \<Rightarrow> output_row \<Rightarrow> result_row \<Rightarrow>
    (dict \<times> (string \<times> string) list) res" where
  "message_bytes mr rd es r revision i out research = and_then (controlled_input mr rd es r revision i) (\<lambda>(c, fs).
     and_then (message_files mr rd es c out research fs) (\<lambda>files. Inr (c, files)))"

definition task_schema :: "version_row \<Rightarrow> json res" where
  "task_schema v = and_then (getk (dget (ver_definition v) ''output'') ''composition_schema'') (\<lambda>name. case name of
     JStr s \<Rightarrow> (case map_of (ver_files v) s of Some (JStr text) \<Rightarrow> strict_json_loads text DEFAULT_MAX_JSON_BYTES | _ \<Rightarrow> Inr JNull)
   | JList _ \<Rightarrow> Inl (TypeError ''unhashable'') | JDict _ \<Rightarrow> Inl (TypeError ''unhashable'') | _ \<Rightarrow> Inr JNull)"

definition image_ledger :: "(string \<times> string) list \<Rightarrow> json res" where
  "image_ledger files = (case map_of files ''.image-ledger.json'' of None \<Rightarrow> Inr JNull | Some raw \<Rightarrow> strict_json_loads raw DEFAULT_MAX_JSON_BYTES)"

definition hashes_confirmed :: "message_reader \<Rightarrow> dict \<Rightarrow> output_row \<Rightarrow> (string \<times> string) list \<Rightarrow> unit res" where
  "hashes_confirmed mr hashes out files = each (\<lambda>(k, name). and_then (dsub hashes k) (\<lambda>h. case map_of files name of None \<Rightarrow> Inl (KeyError name)
        | Some raw \<Rightarrow> check (pyeq h (JStr (mr_sha mr raw))) (ValidationError ''CHANGED_DURING_VALIDATION'')))
        [(''composition_result'', ''composition-result.json''), (''html'', out_html out), (''text'', out_text out)]"

text \<open>The validator reads the files again: its hashes must be those of the bytes that are returned.\<close>

definition validated_message :: "message_reader \<Rightarrow> (int \<Rightarrow> file_reader) \<Rightarrow> version_row \<Rightarrow> run_row \<Rightarrow> int \<Rightarrow> dict \<Rightarrow> output_row \<Rightarrow>
    (string \<times> string) list \<Rightarrow> db \<Rightarrow> dict res" where
  "validated_message mr rd v r revision c out files d =
     and_then (task_schema v) (\<lambda>schema. and_then (image_ledger files) (\<lambda>ledger.
     and_then (mr_validate mr (rd (mr_max mr)) c (ver_definition v) schema ledger) (\<lambda>(result, hashes).
     and_then (check (pyeq (JDict result) (JDict (stored_result out))) (ValidationError ''RESULT_CHANGED'')) (\<lambda>_.
     and_then (check (list_all (\<lambda>k. pyeq (dget hashes k) (dget (out_result out) k)) [''composition_binding'', ''recipient_resolution''])
        (ValidationError ''STORED_BINDING_CHANGED'')) (\<lambda>_.
     and_then (require_stored_composition (mr_sha mr) (mr_schema_ok mr) (ver_definition v) (run_id r) (run_version r) revision (out_group out)
        \<lparr>er_input = Some c, er_result = Some (stored_result out), er_raw = None, er_files = Some (rd (mr_max mr)), er_archive = Some (rd (mr_max mr)),
         er_request = None\<rparr> d) (\<lambda>_.
     and_then (hashes_confirmed mr hashes out files) (\<lambda>_. Inr hashes)))))))"

definition composition_reference :: "string \<Rightarrow> int \<Rightarrow> string \<Rightarrow> dict" where
  "composition_reference run revision sha = [(''run_id'', JStr run), (''revision'', JInt revision), (''input_sha256'', JStr sha)]"

definition message_pin :: "message_reader \<Rightarrow> dict \<Rightarrow> dict \<Rightarrow> (string \<times> string) list \<Rightarrow> string \<Rightarrow> dict" where
  "message_pin mr ref hashes files index = ref @ [(''result_sha256'', dget hashes ''composition_result''), (''html_sha256'', dget hashes ''html''),
     (''text_sha256'', dget hashes ''text''), (''files_sha256'', JDict (map (\<lambda>(name, raw). (name, JStr (mr_sha mr raw))) (sort_key fst files))),
     (''artifact_manifest_sha256'', JStr (mr_sha mr index))]"

definition stored_rows :: "run_row \<Rightarrow> int \<Rightarrow> db \<Rightarrow> (input_row \<times> output_row \<times> result_row) res" where
  "stored_rows r revision d = (case (get_composition_input_record (run_id r) (Some revision) d, get_composition_result (run_id r) (Some revision) d,
       get_research_result (run_id r) d) of
     (Some i, Some out, Some research) \<Rightarrow> if inp_task i = run_task r \<and> out_task out = run_task r \<and> inp_version i = run_version r
       then Inr (i, out, research) else Inl (ValidationError ''VALIDATED_RESULT_UNAVAILABLE'')
   | _ \<Rightarrow> Inl (ValidationError ''VALIDATED_RESULT_UNAVAILABLE''))"

definition source_version :: "run_row \<Rightarrow> db \<Rightarrow> version_row res" where
  "source_version r d = and_then (get_version (run_version r) d) (\<lambda>v. case v of None \<Rightarrow> Inl (ValidationError ''TASK_UNAVAILABLE'')
     | Some x \<Rightarrow> if ver_task x \<noteq> run_task r then Inl (ValidationError ''TASK_UNAVAILABLE'') else Inr x)"

definition read_message :: "message_reader \<Rightarrow> archives \<Rightarrow> run_row \<Rightarrow> json option \<Rightarrow> db \<Rightarrow> prepared_message res" where
  "read_message mr ars r ref d = (let rd = archive_reader ars (run_task r) (run_id r) in
     and_then (source_version r d) (\<lambda>v.
     and_then (case ref of None \<Rightarrow> Inr (ctl_revision (get_execution_controls (run_id r) d))
        | Some p \<Rightarrow> and_then (sub p ''revision'') (\<lambda>n. case as_int n of None \<Rightarrow> Inl (ValidationError ''VALIDATED_RESULT_UNAVAILABLE'') | Some n \<Rightarrow> Inr n)) (\<lambda>revision.
     and_then (stored_rows r revision d) (\<lambda>(i, out, research).
     and_then (rd 2000000 ''artifact-manifest.json'') (\<lambda>index_raw. and_then (strict_json_loads index_raw 2000000) (\<lambda>index.
     and_then (rd 2000000 ''run-manifest.json'') (\<lambda>manifest_raw. and_then (strict_json_loads manifest_raw 2000000) (\<lambda>manifest.
     and_then (manifest_identity (mr_sha mr) r revision out index manifest manifest_raw) (\<lambda>same.
     and_then (check same (ValidationError ''ARCHIVE_IDENTITY_MISMATCH'')) (\<lambda>_. and_then (index_entries index) (\<lambda>es.
     and_then (message_bytes mr rd es r revision i out research) (\<lambda>(c, files).
     and_then (validated_message mr rd v r revision c out files d) (\<lambda>hashes.
       let source = composition_reference (run_id r) revision (inp_sha i); pin = message_pin mr source hashes files index_raw in
       if (case ref of None \<Rightarrow> False | Some p \<Rightarrow> \<not> pyeq p (JDict pin)) then Inl (ValidationError ''SOURCE_CHANGED'')
       else Inr \<lparr>pm_run = r, pm_composition = source, pm_message = pin, pm_input = c, pm_result = out, pm_hashes = hashes,
         pm_files = files, pm_research = research\<rparr>)))))))))))))"

fun is_archive_error :: "err \<Rightarrow> bool" where
  "is_archive_error (KeyError _) = True"
| "is_archive_error (TypeError _) = True"
| "is_archive_error (ValueError _) = True"
| "is_archive_error (AttributeError _) = True"
| "is_archive_error (OSError _) = True"
| "is_archive_error (WorkspaceError _) = True"
| "is_archive_error _ = False"

definition load_prepared_message :: "message_reader \<Rightarrow> archives \<Rightarrow> string \<Rightarrow> json option \<Rightarrow> db \<Rightarrow> prepared_message res" where
  "load_prepared_message mr ars run expected d = recast is_archive_error (ValidationError ''ARCHIVE_INVALID'') (case find_run run d of
     None \<Rightarrow> Inl (ValidationError ''RUN_UNAVAILABLE'')
   | Some asked \<Rightarrow> and_then (get_execution_plan (mr_sha mr) run d) (\<lambda>plan. and_then (message_reference expected plan) (\<lambda>ref.
       and_then (text_field ref ''run_id'' run) (\<lambda>source. and_then (message_source asked source d) (\<lambda>r. read_message mr ars r ref d)))))"

section \<open>What a prepared message is\<close>

lemma ancestor_walk_reaches:
  "ancestor_walk n d asked source visited r = Inr () \<Longrightarrow> r \<in> set (db_runs d) \<Longrightarrow> (parent_edge d)\<^sup>*\<^sup>* source (run_id r)"
proof (induction n d asked source visited r rule: ancestor_walk.induct)
  case (2 n d asked source visited r)
  from "2.prems"(1) obtain a where a: "find_run (default [] (run_parent r)) d = Some a" "default [] (run_parent r) \<noteq> []"
      "run_id a = source \<or> run_id a \<noteq> source \<and> ancestor_walk n d asked source (run_id a # visited) a = Inr ()"
    by (auto split: if_splits option.splits)
  from a(1) have m: "a \<in> set (db_runs d)" "run_id a = default [] (run_parent r)" using sel1_Some [of _ "db_runs d" a] by (auto simp: find_run_def)
  with a(2) "2.prems"(2) have "parent_edge d (run_id a) (run_id r)" by (cases "run_parent r") (auto simp: parent_edge_def)
  moreover have "(parent_edge d)\<^sup>*\<^sup>* source (run_id a)"
  proof (cases "run_id a = source")
    case False
    with a(3) have "ancestor_walk n d asked source (run_id a # visited) a = Inr ()" by simp
    from "2.IH" [OF _ a(1) _ False this m(1)] a(2) "2.prems"(1) a(1) show ?thesis by (simp split: if_splits)
  qed simp
  ultimately show ?case by (rule rtranclp.rtrancl_into_rtrancl [rotated])
qed simp

lemma message_source_facts:
  assumes "message_source asked source d = Inr r" "find_run run d = Some asked"
  shows "(parent_edge d)\<^sup>*\<^sup>* source run \<and> find_run source d = Some r \<and> run_id r = source \<and> same_occurrence r asked \<and> run_status r \<in> {Failed, TimedOut}
    \<and> ctl_cleanup (get_execution_controls source d) \<and> \<not> ctl_cancel (get_execution_controls source d)
    \<and> \<not> ctl_dry (get_execution_controls source d) \<and> get_handoff_for_run source d = None"
proof -
  from assms(2) have a: "asked \<in> set (db_runs d)" "run_id asked = run" using sel1_Some [of _ "db_runs d" asked] by (auto simp: find_run_def)
  from assms(1) have "source = run \<or> ancestor_walk 128 d asked source [run_id asked] asked = Inr ()"
    unfolding message_source_def and_then_Inr a(2) by (auto split: if_splits)
  with ancestor_walk_reaches [of 128 d asked source "[run_id asked]" asked] a have "(parent_edge d)\<^sup>*\<^sup>* source run" by auto
  moreover from assms(1) have r: "find_run source d = Some r" and "same_occurrence r asked \<and> run_status r \<in> {Failed, TimedOut}
    \<and> ctl_cleanup (get_execution_controls source d) \<and> \<not> ctl_cancel (get_execution_controls source d)
    \<and> \<not> ctl_dry (get_execution_controls source d) \<and> get_handoff_for_run source d = None"
    unfolding message_source_def and_then_Inr by (auto simp: Let_def and_then_Inr check_Inr split: option.splits)
  moreover from r have "run_id r = source" using sel1_Some [of _ "db_runs d" r] by (auto simp: find_run_def)
  ultimately show ?thesis by simp
qed

text \<open>Bytes the archive holds under a name and the index vouches for.\<close>

definition vouches :: "(string \<Rightarrow> string) \<Rightarrow> (int \<Rightarrow> file_reader) \<Rightarrow> json list \<Rightarrow> string \<Rightarrow> string \<Rightarrow> bool" where
  "vouches sha rd es name raw = (\<exists>limit e. rd limit name = Inr raw \<and> indexed es name = Some e
     \<and> pyeq (dget e ''size_bytes'') (JInt (int (length raw))) \<and> pyeq (dget e ''sha256'') (JStr (sha raw)))"

definition vouched :: "(string \<Rightarrow> string) \<Rightarrow> (int \<Rightarrow> file_reader) \<Rightarrow> json list \<Rightarrow> (string \<times> string) list \<Rightarrow> bool" where
  "vouched sha rd es files = (\<forall>name raw. map_of files name = Some raw \<longrightarrow> vouches sha rd es name raw)"

lemma read_indexed_vouched:
  assumes "read_indexed sha rd es name limit fs = Inr (raw, fs')" "vouched sha rd es fs"
  shows "vouched sha rd es fs'"
proof -
  from assms(1) have "vouches sha rd es name raw" "fs' = AList.update name raw fs"
    by (auto simp: read_indexed_def and_then_Inr check_Inr vouches_def split: option.splits)
  with assms(2) show ?thesis by (simp add: vouched_def update_conv')
qed

lemma controlled_input_facts:
  assumes "controlled_input mr rd es r revision i = Inr (c, fs)"
  shows "vouched (mr_sha mr) rd es fs" "inp_sha i = mr_sha mr (canonical_json (inp_value i))" "\<exists>d. inp_value i = JDict d \<and> composition_input d = Inr c"
proof -
  from assms obtain report fs1 raw where h: "read_indexed (mr_sha mr) rd es ''validation-report.json'' 2000000 [] = Inr (report, fs1)"
    "read_indexed (mr_sha mr) rd es ''composition-input.json'' 20000000 fs1 = Inr (raw, fs)"
    and c: "raw = canonical_json (inp_value i)" "mr_sha mr raw = inp_sha i" "\<exists>d. inp_value i = JDict d \<and> composition_input d = Inr c"
    unfolding controlled_input_def by (auto simp: and_then_Inr check_Inr split: json.splits)
  have "vouched (mr_sha mr) rd es []" by (simp add: vouched_def)
  with h read_indexed_vouched show "vouched (mr_sha mr) rd es fs" by metis
  from c show "inp_sha i = mr_sha mr (canonical_json (inp_value i))" "\<exists>d. inp_value i = JDict d \<and> composition_input d = Inr c" by simp_all
qed

lemma message_files_vouched:
  assumes "message_files mr rd es c out research fs = Inr files" "vouched (mr_sha mr) rd es fs"
  shows "vouched (mr_sha mr) rd es files"
proof -
  let ?ok = "vouched (mr_sha mr) rd es"
  from assms(1) obtain x fs3 ns fs4 y fs5 where h: "read_indexed (mr_sha mr) rd es ''composition-result.json'' 1000000 fs = Inr (x, fs3)"
    "fold_res (\<lambda>name fs. and_then (read_indexed (mr_sha mr) rd es name (mr_max mr) fs) (\<lambda>(_, fs'). Inr fs')) ns fs3 = Inr fs4"
    "read_indexed (mr_sha mr) rd es ''result.json'' 20000000 fs4 = Inr (y, fs5)"
    "fold_res (\<lambda>(name, v) fs. and_then (read_indexed (mr_sha mr) rd es name 2000000 fs) (\<lambda>(side, fs').
        and_then (check (side = canonical_json v) (ValidationError ''SIDECAR_HASH_MISMATCH'')) (\<lambda>_. Inr fs'))) (sidecars c out) fs5 = Inr files"
    unfolding message_files_def by (auto simp: and_then_Inr check_Inr)
  from h(1) assms(2) read_indexed_vouched have "?ok fs3" by metis
  with h(2) have "?ok fs4" by (rule fold_res_invariant) (auto simp: and_then_Inr dest: read_indexed_vouched)
  with h(3) read_indexed_vouched have "?ok fs5" by metis
  with h(4) show ?thesis by (rule fold_res_invariant) (auto simp: and_then_Inr dest: read_indexed_vouched)
qed

text \<open>What holds of a message read from its source. The index of the archive is the one whose hash is pinned; each
  returned file is the one of the archive, and has the size and the hash of its entry in the index.\<close>

definition genuine :: "message_reader \<Rightarrow> archives \<Rightarrow> db \<Rightarrow> prepared_message \<Rightarrow> bool" where
  "genuine mr ars d pm = (\<exists>revision i tree index_raw index es. get_composition_input_record (run_id (pm_run pm)) (Some revision) d = Some i
     \<and> get_composition_result (run_id (pm_run pm)) (Some revision) d = Some (pm_result pm)
     \<and> pm_composition pm = composition_reference (run_id (pm_run pm)) revision (inp_sha i)
     \<and> inp_sha i = mr_sha mr (canonical_json (inp_value i)) \<and> inp_version i = run_version (pm_run pm)
     \<and> map_of ars (run_task (pm_run pm), run_id (pm_run pm)) = Some tree
     \<and> map_of tree ''artifact-manifest.json'' = Some index_raw \<and> dget (pm_message pm) ''artifact_manifest_sha256'' = JStr (mr_sha mr index_raw)
     \<and> strict_json_loads index_raw 2000000 = Inr index \<and> index_entries index = Inr es
     \<and> (\<forall>name raw. map_of (pm_files pm) name = Some raw \<longrightarrow> map_of tree name = Some raw \<and> (\<exists>e. indexed es name = Some e
          \<and> pyeq (dget e ''size_bytes'') (JInt (int (length raw))) \<and> pyeq (dget e ''sha256'') (JStr (mr_sha mr raw))))
     \<and> (\<forall>(k, name) \<in> {(''composition_result'', ''composition-result.json''), (''html'', out_html (pm_result pm)), (''text'', out_text (pm_result pm))}.
          \<exists>raw. map_of (pm_files pm) name = Some raw \<and> dget (pm_hashes pm) k = JStr (mr_sha mr raw)))"

lemma archive_reader_tree: "archive_reader ars task run limit name = Inr raw \<Longrightarrow> \<exists>tree. map_of ars (task, run) = Some tree \<and> map_of tree name = Some raw"
  by (auto simp: archive_reader_def split: option.splits if_splits)

lemma dsub_dget: "dsub d k = Inr v \<Longrightarrow> dget d k = v"
  by (auto simp: dsub_def dget_def split: option.splits)

lemma validated_message_hashes:
  assumes "validated_message mr rd v r revision c out files d = Inr hashes"
    and "(k, name) \<in> {(''composition_result'', ''composition-result.json''), (''html'', out_html out), (''text'', out_text out)}"
  shows "\<exists>raw. map_of files name = Some raw \<and> dget hashes k = JStr (mr_sha mr raw)"
proof -
  from assms(1) have "hashes_confirmed mr hashes out files = Inr ()"
    unfolding validated_message_def by (auto simp: and_then_Inr)
  with assms(2) have "and_then (dsub hashes k) (\<lambda>h. case map_of files name of None \<Rightarrow> Inl (KeyError name)
        | Some raw \<Rightarrow> check (pyeq h (JStr (mr_sha mr raw))) (ValidationError ''CHANGED_DURING_VALIDATION'')) = Inr ()"
    unfolding hashes_confirmed_def each_Inr by auto
  then show ?thesis by (auto simp: and_then_Inr check_Inr dest: dsub_dget split: option.splits)
qed

lemma read_message_genuine:
  assumes "read_message mr ars r ref d = Inr pm"
  shows "pm_run pm = r \<and> genuine mr ars d pm \<and> (\<forall>p. ref = Some p \<longrightarrow> pyeq p (JDict (pm_message pm)))"
proof -
  let ?rd = "archive_reader ars (run_task r) (run_id r)"
  from assms obtain v revision i out research es c files hashes index_raw index where h: "stored_rows r revision d = Inr (i, out, research)"
      "message_bytes mr ?rd es r revision i out research = Inr (c, files)" "validated_message mr ?rd v r revision c out files d = Inr hashes"
      "?rd 2000000 ''artifact-manifest.json'' = Inr index_raw" "strict_json_loads index_raw 2000000 = Inr index" "index_entries index = Inr es"
    and pm: "pm = \<lparr>pm_run = r, pm_composition = composition_reference (run_id r) revision (inp_sha i),
         pm_message = message_pin mr (composition_reference (run_id r) revision (inp_sha i)) hashes files index_raw, pm_input = c, pm_result = out, pm_hashes = hashes,
         pm_files = files, pm_research = research\<rparr>" "\<forall>p. ref = Some p \<longrightarrow> pyeq p (JDict (pm_message pm))"
    unfolding read_message_def Let_def by (auto simp: and_then_Inr check_Inr split: if_splits option.splits)
  from h(1) have rows: "get_composition_input_record (run_id r) (Some revision) d = Some i" "get_composition_result (run_id r) (Some revision) d = Some out"
    "inp_version i = run_version r" by (auto simp: stored_rows_def split: option.splits if_splits)
  from h(2) obtain fs where m: "controlled_input mr ?rd es r revision i = Inr (c, fs)" "message_files mr ?rd es c out research fs = Inr files"
    by (auto simp: message_bytes_def and_then_Inr)
  note ok = controlled_input_facts [OF m(1)] and hashes = validated_message_hashes [OF h(3)]
  from archive_reader_tree [OF h(4)] obtain tree where tree: "map_of ars (run_task r, run_id r) = Some tree" "map_of tree ''artifact-manifest.json'' = Some index_raw"
    by blast
  from message_files_vouched [OF m(2) ok(1)] have all_files: "\<forall>name raw. map_of files name = Some raw \<longrightarrow> map_of tree name = Some raw \<and> (\<exists>e. indexed es name = Some e
      \<and> pyeq (dget e ''size_bytes'') (JInt (int (length raw))) \<and> pyeq (dget e ''sha256'') (JStr (mr_sha mr raw)))"
    using tree(1) by (fastforce simp: vouched_def vouches_def dest!: archive_reader_tree)
  have pinned: "dget (pm_message pm) ''artifact_manifest_sha256'' = JStr (mr_sha mr index_raw)"
    by (simp add: pm(1) message_pin_def composition_reference_def dget_def)
  have all: "\<forall>(k, name) \<in> {(''composition_result'', ''composition-result.json''), (''html'', out_html out), (''text'', out_text out)}.
      \<exists>raw. map_of files name = Some raw \<and> dget hashes k = JStr (mr_sha mr raw)" using hashes by blast
  have "genuine mr ars d pm"
    unfolding genuine_def by (rule exI [of _ revision], rule exI [of _ i], rule exI [of _ tree], rule exI [of _ index_raw], rule exI [of _ index],
      rule exI [of _ es]) (use pinned pm(1) rows ok(2) tree all all_files h(5,6) in simp)
  with pm show ?thesis by simp
qed

text \<open>C32: a message is prepared for delivery again only from a failed or timed out run of the same
  occurrence and task version, at the end of the chain of its parents, whose processes are known to
  have ended, which was neither cancelled nor a dry run and has no handoff; its stored input has its
  recorded hash, every returned file is the one in the archive of that run and has the size and the hash
  that the archive's index gives it, the index being the one whose hash the message pins; the body and the
  result have the hashes of the validation, and a pinned message is exactly the one pinned.\<close>

theorem prepared_message_genuine:
  assumes "load_prepared_message mr ars run expected d = Inr pm"
  shows "(\<exists>asked. find_run run d = Some asked \<and> same_occurrence (pm_run pm) asked) \<and> (parent_edge d)\<^sup>*\<^sup>* (run_id (pm_run pm)) run
    \<and> run_status (pm_run pm) \<in> {Failed, TimedOut} \<and> get_handoff_for_run (run_id (pm_run pm)) d = None
    \<and> (let k = get_execution_controls (run_id (pm_run pm)) d in ctl_cleanup k \<and> \<not> ctl_cancel k \<and> \<not> ctl_dry k)
    \<and> genuine mr ars d pm \<and> (\<forall>p. expected = Some p \<longrightarrow> (\<exists>q. (q = p \<or> pyeq p q) \<and> pyeq q (JDict (pm_message pm))))"
proof -
  from assms obtain asked plan ref source r where h: "find_run run d = Some asked" "message_reference expected plan = Inr ref"
      "message_source asked source d = Inr r" "read_message mr ars r ref d = Inr pm"
    by (auto simp: load_prepared_message_def recast_Inr and_then_Inr split: option.splits)
  note src = message_source_facts [OF h(3,1)] and msg = read_message_genuine [OF h(4)]
  have "\<exists>q. (q = p \<or> pyeq p q) \<and> pyeq q (JDict (pm_message pm))" if "expected = Some p" for p
    using h(2) that msg by (auto simp: message_reference_def and_then_Inr split: option.splits if_splits)
  with src msg h(1) show ?thesis by (auto simp: Let_def)
qed

definition failed_input :: dict where
  "failed_input = map (\<lambda>k. (k, JDict [])) [''run'', ''result'', ''coverage''] @ [(''schema_version'', JInt 2), (''task_id'', JStr ''t1''),
     (''run_id'', JStr ''r1''), (''task_version_hash'', JStr ''v1''), (''composition_revision'', JInt 1), (''reportable_records'', JList []),
     (''inline_artifacts'', JList []), (''attachments'', JList []), (''allowed_recipient_group_ids'', JList [])]"

definition failed_output :: output_row where
  "failed_output = \<lparr>out_run = ''r1'', out_task = ''t1'', out_revision = 1, out_group = ''g'', out_reason = [], out_subject = ''s'',
     out_html = ''composition-result.json'', out_text = ''composition-result.json'', out_included = JList [], out_result = [], out_created = 0\<rparr>"

definition failed_db :: db where
  "failed_db = live_db\<lparr>db_runs := [(sample_run ''r1'' ''t1'')\<lparr>run_status := Failed\<rparr>],
     db_controls := [(sample_control ''r1'')\<lparr>ctl_cleanup := True\<rparr>],
     db_inputs := [\<lparr>inp_run = ''r1'', inp_task = ''t1'', inp_version = ''v1'', inp_revision = 1, inp_value = JDict failed_input, inp_sha = ''h'', inp_created = 0\<rparr>],
     db_outputs := [failed_output],
     db_results := [\<lparr>res_run = ''r1'', res_task = ''t1'', res_status = ''success'', res_summary = [], res_records = JList [], res_coverage = JNull,
        res_warnings = JList [], res_raw = ''r'', res_artifacts = JList [], res_created = 0\<rparr>]\<rparr>"

definition failed_tree :: files where
  "failed_tree = (let fs = [(''validation-report.json'', dumps_compact (JDict [(''cleanup_verified'', JBool True)])),
       (''composition-input.json'', canonical_json (JDict failed_input)), (''composition-result.json'', ''x''), (''result.json'', ''r'')] in fs @
     [(''artifact-manifest.json'', dumps_compact (JDict [(''task_id'', JStr ''t1''), (''run_id'', JStr ''r1''),
        (''run_manifest'', JDict [(''relative_path'', JStr ''run-manifest.json''), (''sha256'', JStr ''h'')]),
        (''artifacts'', JList (map (\<lambda>(name, raw). JDict [(''relative_path'', JStr name), (''sha256'', JStr ''h''), (''size_bytes'', JInt (int (length raw)))]) fs))])),
      (''run-manifest.json'', dumps_compact (JDict [(''task_id'', JStr ''t1''), (''run_id'', JStr ''r1''), (''task_hash'', JStr ''v1''),
        (''scheduled_for'', JStr (isoformat 100)),
        (''composition'', JDict (dmerge [(''status'', JStr ''validated''), (''revision'', JInt 1)] (stored_result failed_output)))]))])"

definition plain_reader :: message_reader where
  "plain_reader = \<lparr>mr_sha = (\<lambda>s. ''h''), mr_schema_ok = (\<lambda>v. True), mr_max = 1000,
     mr_validate = (\<lambda>f c def schema ledger. Inr (stored_result failed_output,
       map (\<lambda>k. (k, JStr ''h'')) [''composition_result'', ''html'', ''text'']))\<rparr>"

lemma failed_message_loads: "\<not> isl (load_prepared_message plain_reader [((''t1'', ''r1''), failed_tree)] ''r1'' None failed_db)"
  by code_simp

theorem prepared_message_genuine_witness:
  "\<exists>pm. genuine plain_reader [((''t1'', ''r1''), failed_tree)] failed_db pm \<and> run_status (pm_run pm) \<in> {Failed, TimedOut}"
proof -
  from failed_message_loads obtain pm where "load_prepared_message plain_reader [((''t1'', ''r1''), failed_tree)] ''r1'' None failed_db = Inr pm"
    by (cases "load_prepared_message plain_reader [((''t1'', ''r1''), failed_tree)] ''r1'' None failed_db") auto
  from prepared_message_genuine [OF this] show ?thesis by blast
qed

end
