(* ===== verification/Run_Service.thy ===== *)
theory Run_Service imports Prepared_Delivery Scheduler begin

text \<open>
  The operator's commands on runs, \<open>services/run_service.py\<close>: a new run, a retry, a composition
  again from stored evidence, the delivery of a prepared message, a cancellation, and the status of
  a prepared message. Each command reads the store, makes one write transaction in
  \<open>create_run\<close> and then an audit row; its error leaves the store unchanged. The model
  catalog that vouches for a newly chosen runner is a parameter.
\<close>

section \<open>Commands\<close>

record run_service = publisher +
  rs_hex :: string
  rs_catalog :: "dict \<Rightarrow> json \<Rightarrow> json res"
  rs_reader :: message_reader

definition check_request_key :: "string option \<Rightarrow> unit res" where
  "check_request_key key = (case key of None \<Rightarrow> Inr () | Some k \<Rightarrow> check (1 \<le> length k \<and> length k \<le> 128) (ValidationError ''request_key''))"

text \<open>\<open>run-\<close>, the second in UTC, and random digits.\<close>

definition stamp :: "int \<Rightarrow> string" where
  "stamp t = filter (\<lambda>c. c \<in> set ''0123456789'') (take 19 (isoformat t))"

definition new_run_id :: "run_service \<Rightarrow> nat \<Rightarrow> string" where
  "new_run_id s n = ''run-'' @ stamp (now (pb_env s)) @ ''-'' @ take n (rs_hex s)"

definition run_audit :: "run_service \<Rightarrow> string \<Rightarrow> string \<Rightarrow> dict \<Rightarrow> db \<Rightarrow> db" where
  "run_audit s run typ details d = audit (pb_env s) ''run'' run typ details default_actor (isoformat (now (pb_env s))) d"

text \<open>The run is created, and the audit row written when it is a new one.\<close>

definition create_logged :: "run_service \<Rightarrow> run_row \<Rightarrow> run_request \<Rightarrow> string \<Rightarrow> dict \<Rightarrow> db \<Rightarrow> (run_row \<times> db) res" where
  "create_logged s r q typ details d = and_then (create_run (pb_env s) (pb_sha s) r q d) (\<lambda>(saved, d1).
     Inr (saved, if run_id saved \<noteq> run_id r then d1 else run_audit s (run_id r) typ details d1))"

section \<open>A new run\<close>

definition chosen_version :: "string \<Rightarrow> string option \<Rightarrow> db \<Rightarrow> version_row res" where
  "chosen_version task candidate d = (if default [] candidate \<noteq> []
     then and_then (get_version (default [] candidate) d) (\<lambda>m. case m of None \<Rightarrow> Inl (NotFoundError ''candidate version'')
       | Some v \<Rightarrow> if ver_task v \<noteq> task then Inl (NotFoundError ''candidate version'') else Inr v)
     else and_then (get_active_version task d) (\<lambda>m. case m of None \<Rightarrow> Inl (NotFoundError ''no active version'') | Some v \<Rightarrow> Inr v))"

definition schedule_zone :: "version_row \<Rightarrow> json res" where
  "schedule_zone v = (let s = dget (ver_definition v) ''schedule'' in
     if truthy s then (case s of JDict d \<Rightarrow> Inr (get_or d ''timezone'' (JStr ''Asia/Seoul'')) | _ \<Rightarrow> Inl (AttributeError ''get'')) else Inr (JStr ''Asia/Seoul''))"

text \<open>A given instant without an offset is local time.\<close>

definition requested_instant :: "env \<Rightarrow> string option \<Rightarrow> int res" where
  "requested_instant e text = (if default [] text = [] then Inr (now e) else (case fromiso (replace_z (default [] text)) of
     None \<Rightarrow> Inl (ValidationError ''scheduled_for'')
   | Some (Naive t) \<Rightarrow> if representable (t - SEOUL) then Inr (t - SEOUL) else Inl (OverflowError ''date value'')
   | Some (Aware t off) \<Rightarrow> if representable (t + SEOUL) \<and> representable t then Inr t else Inl (OverflowError ''date value'')))"

definition local_day :: "int \<Rightarrow> string" where "local_day t = take 10 (isoformat (t + SEOUL))"

definition display_day :: "int \<Rightarrow> string" where
  "display_day t = map (\<lambda>c. if c = CHR ''-'' then CHR ''.'' else c) (local_day t)"

definition fresh_run :: "string \<Rightarrow> string \<Rightarrow> string \<Rightarrow> string \<Rightarrow> int \<Rightarrow> int \<Rightarrow> run_row" where
  "fresh_run i task version trigger due created = \<lparr>run_id = i, run_task = task, run_version = version, run_due = due, run_timezone = ''Asia/Seoul'',
     run_local_date = local_day due, run_local_display = display_day due, run_trigger = trigger, run_status = Queued, run_phase = PhQueued,
     run_attempt = 0, run_generation = 1, run_parent = None, run_created = created, run_started = None, run_finished = None,
     run_heartbeat = None, run_progress = None, run_error = None\<rparr>"

definition enqueue_request :: "string \<Rightarrow> string \<Rightarrow> string option \<Rightarrow> bool \<Rightarrow> string \<Rightarrow> dict" where
  "enqueue_request task trigger scheduled dry version = [(''task_id'', JStr task), (''version_hash'', JStr version), (''trigger_type'', JStr trigger),
     (''scheduled_for'', case scheduled of None \<Rightarrow> JNull | Some t \<Rightarrow> JStr t), (''force_dry_run'', JBool dry)]"

definition enqueue_run :: "run_service \<Rightarrow> string \<Rightarrow> string \<Rightarrow> string option \<Rightarrow> string option \<Rightarrow> bool \<Rightarrow> string option \<Rightarrow> db \<Rightarrow> (run_row \<times> db) res" where
  "enqueue_run s task trigger candidate scheduled force key d =
     and_then (chosen_version task candidate d) (\<lambda>v. and_then (schedule_zone v) (\<lambda>zone.
     and_then (check (zone = JStr ''Asia/Seoul'') (ValidationError ''Asia/Seoul'')) (\<lambda>_.
     and_then (requested_instant (pb_env s) scheduled) (\<lambda>due.
     and_then (check_request_key key) (\<lambda>_.
     and_then (resolve_task_stages (default [] (as_dict (dget (ver_definition v) ''runner'')))) (\<lambda>stages.
     and_then (build_execution_plan (JDict stages) (JStr ''full'') JNull (JDict [(''kind'', JStr ''task_version''), (''task_version_hash'', JStr (ver_hash v))]) JNull) (\<lambda>plan.
       let dry = (force \<or> default [] candidate \<noteq> []); r = fresh_run (new_run_id s 6) task (ver_hash v) trigger due (now (pb_env s)) in
       create_logged s r \<lparr>rr_due = isoformat due, rr_dry = dry, rr_revision = 1, rr_key = key,
         rr_payload = enqueue_request task trigger scheduled dry (ver_hash v),
         rr_expected = (if default [] candidate = [] then Some (ver_hash v) else None), rr_plan = Some (JDict plan), rr_auth = None\<rparr>
         ''run_enqueued'' [(''task_id'', JStr task), (''trigger'', JStr trigger), (''version_hash'', JStr (ver_hash v))] d)))))))"

section \<open>Plans and sources\<close>

definition run_version_of :: "run_row \<Rightarrow> db \<Rightarrow> version_row res" where
  "run_version_of r d = and_then (get_version (run_version r) d) (\<lambda>m. case m of None \<Rightarrow> Inl (ValidationError ''run task version'')
     | Some v \<Rightarrow> if ver_task v \<noteq> run_task r then Inl (ValidationError ''run task version'') else Inr v)"

definition execution_plan_of :: "(string \<Rightarrow> string) \<Rightarrow> run_row \<Rightarrow> db \<Rightarrow> dict res" where
  "execution_plan_of sha r d = and_then (run_version_of r d) (\<lambda>v.
     and_then (resolve_run_plan sha r (default [] (as_dict (dget (ver_definition v) ''runner''))) d) (\<lambda>p.
       case p of JDict plan \<Rightarrow> Inr plan | _ \<Rightarrow> Inl (TypeError ''plan'')))"

definition composition_source :: "run_row \<Rightarrow> dict \<Rightarrow> db \<Rightarrow> json" where
  "composition_source r plan d = (case get_composition_input_record (run_id r) None d of
     Some i \<Rightarrow> JDict (composition_reference (inp_run i) (inp_revision i) (inp_sha i))
   | None \<Rightarrow> if str_in (dget plan ''scope'') [''compose_only'', ''delivery_only''] then dget plan ''source_composition'' else JNull)"

text \<open>The stages of a retry: those of the parent, with the chosen ones the catalog accepts.\<close>

definition supplied_stages :: "json option \<Rightarrow> dict res" where
  "supplied_stages settings = (case settings of None \<Rightarrow> Inr []
   | Some (JDict d) \<Rightarrow> if keys_within d STAGES then Inr d else Inl (ValidationError ''stage selection'')
   | Some _ \<Rightarrow> Inl (ValidationError ''stage selection''))"

definition selection_of :: "json option \<Rightarrow> dict \<Rightarrow> string \<Rightarrow> json" where
  "selection_of selection supplied run = (case selection of Some v \<Rightarrow> v
     | None \<Rightarrow> if supplied \<noteq> [] then JDict [(''kind'', JStr ''manual'')] else JDict [(''kind'', JStr ''parent_run''), (''run_id'', JStr run)])"

fun is_plain_value_error :: "err \<Rightarrow> bool" where
  "is_plain_value_error (ValueError _) = True"
| "is_plain_value_error _ = False"

definition select_stage :: "run_service \<Rightarrow> dict \<Rightarrow> string \<times> json \<Rightarrow> dict \<Rightarrow> dict res" where
  "select_stage s legacy p stages = (case p of (stage, v) \<Rightarrow> and_then (normalize_stage v) (\<lambda>chosen.
     if pyeq (JDict chosen) (dget stages stage) then Inr stages
     else if dget chosen ''type'' = JStr ''fake'' then Inl (ValidationError ''test runner'')
     else and_then (recast is_plain_value_error (ValidationError ''model catalog'') (rs_catalog s chosen (dget legacy stage))) (\<lambda>accepted.
       and_then (recast is_plain_value_error (ValidationError ''model catalog'') (normalize_stage accepted)) (\<lambda>x. Inr (dput stage (JDict x) stages)))))"

definition selected_stages :: "run_service \<Rightarrow> run_row \<Rightarrow> dict \<Rightarrow> string \<Rightarrow> json option \<Rightarrow> json option \<Rightarrow> db \<Rightarrow> (dict \<times> json) res" where
  "selected_stages s r parent_plan scope settings selection d = (let stages = default [] (as_dict (dget parent_plan ''stages'')) in
     and_then (supplied_stages settings) (\<lambda>supplied.
     and_then (if scope = ''compose_only'' \<and> map_of supplied ''research'' \<noteq> None
        then and_then (normalize_stage (dget supplied ''research'')) (\<lambda>x. check (pyeq (JDict x) (dget stages ''research'')) (ValidationError ''research settings''))
        else Inr ()) (\<lambda>_.
     let source = selection_of selection supplied (run_id r) in
     and_then (build_execution_plan (JDict stages) (JStr ''full'') JNull source JNull) (\<lambda>_.
     and_then (getk source ''kind'') (\<lambda>kind.
     and_then (if kind = JStr ''task_version'' then and_then (getk source ''task_version_hash'') (\<lambda>h.
         and_then (if truthy h then get_version (default [] (as_str h)) d else Inr None) (\<lambda>m. case m of None \<Rightarrow> Inl (ValidationError ''task settings snapshot'')
           | Some v \<Rightarrow> if ver_task v \<noteq> run_task r then Inl (ValidationError ''task settings snapshot'')
               else resolve_task_stages (default [] (as_dict (dget (ver_definition v) ''runner'')))))
        else Inr stages) (\<lambda>legacy.
     and_then (fold_res (select_stage s legacy) supplied stages) (\<lambda>chosen. Inr (chosen, source))))))))"

section \<open>A retry\<close>

definition delivery_mode_of :: "version_row \<Rightarrow> json" where
  "delivery_mode_of v = dget (default [] (as_dict (dget (ver_definition v) ''delivery''))) ''mode''"

definition delivery_authorization :: "run_service \<Rightarrow> run_row \<Rightarrow> bool \<Rightarrow> db \<Rightarrow> json option res" where
  "delivery_authorization s r dry d = and_then (get_version (run_version r) d) (\<lambda>m. case m of None \<Rightarrow> Inr None
     | Some v \<Rightarrow> if dry \<or> delivery_mode_of v \<noteq> JStr ''handoff'' then Inr None
         else recast is_delivery (ValidationError ''delivery authorization'')
           (build_delivery_authorization (pb_addr_ok s) (pb_sha s) (set_kill_switch s) (pb_config s) (set_production s)
              (run_task r) (run_version r) (run_trigger r) d))"

text \<open>The child of a run: the same task, version, occurrence and workspace generation.\<close>

definition child_run :: "run_service \<Rightarrow> run_row \<Rightarrow> string \<Rightarrow> run_row" where
  "child_run s old trigger = \<lparr>run_id = new_run_id s 12, run_task = run_task old, run_version = run_version old, run_due = run_due old,
     run_timezone = run_timezone old, run_local_date = run_local_date old, run_local_display = run_local_display old,
     run_trigger = trigger, run_status = Queued, run_phase = PhQueued, run_attempt = 0, run_generation = run_generation old,
     run_parent = Some (run_id old), run_created = now (pb_env s), run_started = None, run_finished = None, run_heartbeat = None,
     run_progress = None, run_error = None\<rparr>"

definition opt_json :: "json option \<Rightarrow> json" where "opt_json v = default JNull v"

definition requested_stages :: "dict \<Rightarrow> dict res" where
  "requested_stages supplied = collect (\<lambda>(k, v). and_then (normalize_stage v) (\<lambda>x. Inr (k, JDict x))) supplied"

definition request_shape :: "string \<Rightarrow> string \<Rightarrow> json \<Rightarrow> json option \<Rightarrow> json option \<Rightarrow> dict \<Rightarrow> dict res" where
  "request_shape operation run scope settings selection parent_plan =
     and_then (supplied_stages settings) (\<lambda>supplied. and_then (requested_stages supplied) (\<lambda>stages.
     and_then (build_execution_plan (dget parent_plan ''stages'') (JStr ''full'') JNull (selection_of selection supplied run) JNull) (\<lambda>p.
       Inr [(''operation'', JStr operation), (''parent_run_id'', JStr run), (''scope'', scope), (''execution_settings'', JDict stages),
         (''selection_source'', dget p ''selection_source'')])))"

text \<open>A command the key already stands for: its run, when it was the same command.\<close>

definition accepted_command :: "string \<Rightarrow> string option \<Rightarrow> bool \<Rightarrow> dict \<Rightarrow> db \<Rightarrow> run_row option res" where
  "accepted_command task key any shape d = (if default [] key = [] then Inr None
     else and_then (get_run_command task (default [] key) d) (\<lambda>m. case m of None \<Rightarrow> Inr None
       | Some (run, request) \<Rightarrow> let q = default [] (as_dict request) in
           if \<not> any \<and> map_of q ''execution_request'' = None then Inr None
           else if \<not> pyeq (dget q ''execution_request'') (JDict shape) then Inl (ValidationError ''request key reused'')
           else (case find_run run d of None \<Rightarrow> Inl (TypeError ''run'') | Some r \<Rightarrow> Inr (Some r))))"

definition next_revision :: "control_row \<Rightarrow> json \<Rightarrow> int res" where
  "next_revision k source = (if source = JNull then Inr 1 else and_then (sub source ''revision'') (\<lambda>v. case v of
     JInt n \<Rightarrow> Inr (max (ctl_revision k) n + 1) | _ \<Rightarrow> Inl (TypeError ''revision'')))"

definition retry_payload :: "string \<Rightarrow> run_row \<Rightarrow> bool \<Rightarrow> dict \<Rightarrow> int \<Rightarrow> dict \<Rightarrow> json option \<Rightarrow> dict" where
  "retry_payload operation old dry plan revision shape auth = [(''operation'', JStr operation), (''parent_run_id'', JStr (run_id old)),
     (''task_version_hash'', JStr (run_version old)), (''force_dry_run'', JBool dry), (''execution_plan'', JDict plan),
     (''composition_revision'', JInt revision), (''execution_request'', JDict shape), (''delivery_authorization'', opt_json auth)]"

definition retry_scope :: "dict \<Rightarrow> json option \<Rightarrow> string res" where
  "retry_scope parent_plan scope = (let v = (case scope of None \<Rightarrow> dget parent_plan ''scope'' | Some x \<Rightarrow> x) in
     and_then (in_set v [''full'', ''compose_only'']) (\<lambda>ok. if ok then Inr (default [] (as_str v)) else Inl (ValidationError ''scope'')))"

definition queue_retry :: "run_service \<Rightarrow> run_row \<Rightarrow> string option \<Rightarrow> string \<Rightarrow> dict \<Rightarrow> dict \<Rightarrow> json option \<Rightarrow> json option \<Rightarrow> string \<Rightarrow> db \<Rightarrow>
    (run_row \<times> db) res" where
  "queue_retry s old key scope parent_plan shape settings selection operation d =
     (let source = (if scope = ''compose_only'' then composition_source old parent_plan d else JNull); k = get_execution_controls (run_id old) d;
          trigger = (if scope = ''compose_only'' then ''compose_only'' else ''retry''); child = child_run s old trigger in
     and_then (check (scope \<noteq> ''compose_only'' \<or> source \<noteq> JNull) (ValidationError ''no composition input'')) (\<lambda>_.
     and_then (selected_stages s old parent_plan scope settings selection d) (\<lambda>(stages, provenance).
     and_then (build_execution_plan (JDict stages) (JStr scope) source provenance JNull) (\<lambda>plan.
     and_then (next_revision k source) (\<lambda>revision.
     and_then (delivery_authorization s child (ctl_dry k) d) (\<lambda>auth.
       create_logged s child \<lparr>rr_due = isoformat (run_due old), rr_dry = ctl_dry k, rr_revision = revision, rr_key = key,
           rr_payload = retry_payload operation old (ctl_dry k) plan revision shape auth, rr_expected = None, rr_plan = Some (JDict plan),
           rr_auth = auth\<rparr>
         (if scope = ''compose_only'' then ''compose_only_enqueued'' else ''run_retried'')
         [(''parent_run_id'', JStr (run_id old)), (''composition_revision'', JInt revision), (''execution_scope'', JStr scope),
          (''execution_settings'', JDict stages), (''selection_source'', provenance)] d))))))"

definition enqueue_retry :: "run_service \<Rightarrow> string \<Rightarrow> string option \<Rightarrow> json option \<Rightarrow> json option \<Rightarrow> json option \<Rightarrow> string \<Rightarrow> db \<Rightarrow>
    (run_row \<times> db) res" where
  "enqueue_retry s run key scope settings selection operation d =
     and_then (check_request_key key) (\<lambda>_. case find_run run d of None \<Rightarrow> Inl (NotFoundError run)
     | Some old \<Rightarrow> and_then (check (\<not> pending_run old) (ValidationError ''pending execution'')) (\<lambda>_.
         and_then (execution_plan_of (pb_sha s) old d) (\<lambda>parent_plan.
         and_then (retry_scope parent_plan scope) (\<lambda>sc.
         and_then (request_shape operation run (JStr sc) settings selection parent_plan) (\<lambda>shape.
         and_then (accepted_command (run_task old) key False shape d) (\<lambda>m. case m of
             Some r \<Rightarrow> Inr (r, d)
           | None \<Rightarrow> queue_retry s old key sc parent_plan shape settings selection operation d))))))"

section \<open>A prepared message\<close>

definition current_delivery :: "run_service \<Rightarrow> run_row \<Rightarrow> string \<Rightarrow> db \<Rightarrow> json option res" where
  "current_delivery s r grp d = and_then (delivery_authorization s (r\<lparr>run_trigger := ''delivery_only''\<rparr>) False d) (\<lambda>auth.
     and_then (get_version (run_version r) d) (\<lambda>m. case m of None \<Rightarrow> Inl (ValidationError ''not in handoff mode'')
       | Some v \<Rightarrow> if delivery_mode_of v \<noteq> JStr ''handoff'' then Inl (ValidationError ''not in handoff mode'')
           else and_then (pb_config s) (\<lambda>cfg. and_then (routing_mode (ver_definition v)) (\<lambda>mode.
             and_then (require_current_recipient (pb_addr_ok s) cfg grp (mode = ''catalog_name'') (Some (JStr (run_task r))) d) (\<lambda>_. Inr auth)))))"

definition check_prepared_delivery :: "run_service \<Rightarrow> run_row \<Rightarrow> prepared_message \<Rightarrow> bool \<Rightarrow> db \<Rightarrow> json option res" where
  "check_prepared_delivery s r pm family_too d = (let k = get_execution_controls (run_id r) d in
     if ctl_cancel k \<or> ctl_dry k then Inl (ValidationError ''cancelled or dry run'')
     else and_then (if family_too then require_retry_family_clear (run_id r) False True d else Inr ()) (\<lambda>_.
       current_delivery s r (out_group (pm_result pm)) d))"

text \<open>The exceptions the status page catches.\<close>

fun is_reported :: "err \<Rightarrow> bool" where
  "is_reported (TypeError _) = False"
| "is_reported (AttributeError _) = False"
| "is_reported (OverflowError _) = False"
| "is_reported (IntegrityError _) = False"
| "is_reported _ = True"

datatype mail_status = Eligible "string \<times> json" | Blocked string "(string \<times> json) option"

definition prepared_email_status :: "run_service \<Rightarrow> archives \<Rightarrow> string \<Rightarrow> db \<Rightarrow> mail_status res" where
  "prepared_email_status s ars run d = (case find_run run d of None \<Rightarrow> Inl (NotFoundError run)
     | Some r \<Rightarrow> if get_handoff_for_run run d \<noteq> None then Inr (Blocked ''handoff'' None)
       else if run_status r \<notin> {Failed, TimedOut} then Inr (Blocked ''status'' None)
       else (case load_prepared_message (rs_reader s) ars run None d of
           Inl er \<Rightarrow> if is_reported er then Inr (Blocked ''message'' None) else Inl er
         | Inr pm \<Rightarrow> let source = (run_id (pm_run pm), dget (pm_composition pm) ''revision'') in
             (case check_prepared_delivery s r pm True d of
                Inl er \<Rightarrow> if is_reported er then Inr (Blocked ''delivery'' (Some source)) else Inl er
              | Inr auth \<Rightarrow> Inr (Eligible source))))"

definition queue_prepared :: "run_service \<Rightarrow> run_row \<Rightarrow> string option \<Rightarrow> prepared_message \<Rightarrow> dict \<Rightarrow> db \<Rightarrow> (run_row \<times> db) res" where
  "queue_prepared s old key pm request d = (let child = child_run s old ''delivery_only'' in
     and_then (check_prepared_delivery s old pm False d) (\<lambda>auth.
     and_then (execution_plan_of (pb_sha s) old d) (\<lambda>parent_plan.
     and_then (build_execution_plan (dget parent_plan ''stages'') (JStr ''delivery_only'') (JDict (pm_composition pm))
         (JDict [(''kind'', JStr ''parent_run''), (''run_id'', JStr (run_id old))]) (JDict (pm_message pm))) (\<lambda>plan.
     and_then (next_revision (get_execution_controls (run_id old) d) (JDict (pm_composition pm))) (\<lambda>revision.
       create_logged s child \<lparr>rr_due = isoformat (run_due old), rr_dry = False, rr_revision = revision, rr_key = key,
         rr_payload = [(''execution_request'', JDict request), (''execution_plan'', JDict plan), (''composition_revision'', JInt revision),
           (''delivery_authorization'', opt_json auth)], rr_expected = None, rr_plan = Some (JDict plan), rr_auth = auth\<rparr>
         ''prepared_email_enqueued'' [(''parent_run_id'', JStr (run_id old)),
         (''source_run_id'', JStr (run_id (pm_run pm))), (''composition_revision'', JInt revision),
         (''source_revision'', dget (pm_composition pm) ''revision''), (''model_calls'', JInt 0)] d)))))"

definition send_prepared_email :: "run_service \<Rightarrow> archives \<Rightarrow> string \<Rightarrow> string option \<Rightarrow> db \<Rightarrow> (run_row \<times> db) res" where
  "send_prepared_email s ars run key d = and_then (check_request_key key) (\<lambda>_. case find_run run d of None \<Rightarrow> Inl (NotFoundError run)
     | Some old \<Rightarrow> let request = [(''operation'', JStr ''send_prepared_email''), (''parent_run_id'', JStr run)] in
         and_then (accepted_command (run_task old) key True request d) (\<lambda>m. case m of
             Some r \<Rightarrow> Inr (r, d)
           | None \<Rightarrow> and_then (check (run_status old \<in> {Failed, TimedOut}) (ValidationError ''not failed before delivery'')) (\<lambda>_.
               and_then (load_prepared_message (rs_reader s) ars run None d) (\<lambda>pm. queue_prepared s old key pm request d))))"

section \<open>The commands\<close>

definition retry_run :: "run_service \<Rightarrow> archives \<Rightarrow> string \<Rightarrow> string option \<Rightarrow> json option \<Rightarrow> json option \<Rightarrow> json option \<Rightarrow> db \<Rightarrow> (run_row \<times> db) res" where
  "retry_run s ars run key scope settings selection d =
     and_then (case scope of Some v \<Rightarrow> Inr (pyeq v (JStr ''delivery_only'')) | None \<Rightarrow> (case find_run run d of None \<Rightarrow> Inl (NotFoundError run)
        | Some r \<Rightarrow> and_then (execution_plan_of (pb_sha s) r d) (\<lambda>p. and_then (dsub p ''scope'') (\<lambda>v. Inr (v = JStr ''delivery_only''))))) (\<lambda>mail_only.
       if mail_only then (if truthy (opt_json settings) \<or> truthy (opt_json selection) then Inl (ValidationError ''no model settings'')
         else send_prepared_email s ars run key d)
       else enqueue_retry s run key scope settings selection ''retry'' d)"

definition compose_only :: "run_service \<Rightarrow> string \<Rightarrow> string option \<Rightarrow> json option \<Rightarrow> json option \<Rightarrow> db \<Rightarrow> (run_row \<times> db) res" where
  "compose_only s run key settings selection d = enqueue_retry s run key (Some (JStr ''compose_only'')) settings selection ''compose_only'' d"

definition cancel_run :: "run_service \<Rightarrow> string \<Rightarrow> db \<Rightarrow> (run_row \<times> db) res" where
  "cancel_run s run d = (case find_run run d of None \<Rightarrow> Inl (NotFoundError run)
     | Some r \<Rightarrow> if run_status r \<in> {Succeeded, Failed, Cancelled} then Inr (r, d)
       else and_then (request_cancel (pb_env s) run d) (\<lambda>(_, d1).
         let d2 = snd (cancel_pending_for_run (pb_env s) (pb_sha s) run d1);
             d3 = run_audit s run ''run_cancel_requested'' [(''reason'', JStr ''Operator cancel'')] d2 in
         (case find_run run d3 of None \<Rightarrow> Inl (TypeError ''run'') | Some x \<Rightarrow> Inr (x, d3))))"

section \<open>What a command leaves\<close>

lemma create_run_outcome:
  assumes "create_run e sha r0 q d = Inr (r, d')"
  obtains (prior) c where "d' = d" "prior_command (run_task r0) (rr_key q) d = Some c" "find_run (cmd_run c) d = Some r"
    | (new) due where "normalize_due (rr_due q) = Inr due" "r = r0\<lparr>run_due := due\<rparr>" "new_run_guards r (rr_dry q) (rr_expected q) d = Inr ()"
      "find_run (run_id r) d = None" "db_runs d' = db_runs d @ [r]" "db_handoffs d' = db_handoffs d"
      "get_execution_controls (run_id r) d' = \<lparr>ctl_run = run_id r, ctl_cancel = False,
          ctl_dry = rr_dry q \<or> run_trigger r = ''candidate_dry_run'', ctl_revision = rr_revision q, ctl_cleanup = False\<rparr>"
  using assms
proof (cases rule: create_run_tables)
  case (prior c)
  with assms have "find_run (cmd_run c) d = Some r"
    by (auto simp: create_run_def and_then_Inr Let_def split: if_splits option.splits)
  with prior that(1) show thesis by blast
next
  case (new plans auths cmds)
  from assms obtain due where due: "normalize_due (rr_due q) = Inr due" by (auto simp: create_run_def and_then_Inr)
  with assms new(7) have g: "r = r0\<lparr>run_due := due\<rparr>" "new_run_guards r (rr_dry q) (rr_expected q) d = Inr ()"
    by (auto simp: create_run_def and_then_Inr Let_def)
  have n: "find_run (run_id r) d = None" using new(1) by (simp add: run_constraints_def)
  let ?k = "\<lparr>ctl_run = run_id r, ctl_cancel = False, ctl_dry = rr_dry q \<or> run_trigger r = ''candidate_dry_run'',
      ctl_revision = rr_revision q, ctl_cleanup = False\<rparr>"
  have "sel1 (\<lambda>k. ctl_run k = run_id r) (db_controls d @ [?k]) = Some ?k"
    using new(2) by (subst sel1_append_new) (auto simp: some_row_iff)
  then have "get_execution_controls (run_id r) d' = ?k" by (simp add: get_execution_controls_def ctl_of_def new(6))
  with due g n new(6) show thesis by (intro that(2) [of due]) simp_all
qed

text \<open>The family of a run is quiet.\<close>

definition family_quiet :: "db \<Rightarrow> string \<Rightarrow> bool \<Rightarrow> bool" where
  "family_quiet d run prepared = (\<forall>r. (parent_edge d)\<^sup>*\<^sup>* (family_root d run) (run_id r) \<longrightarrow> find_run (run_id r) d = Some r \<longrightarrow> \<not> dry_run_only d r \<longrightarrow>
     \<not> pending_run r \<and> (\<forall>h \<in> set (db_handoffs d). ho_run h = run_id r \<longrightarrow> ho_type h \<noteq> ''system_alert'' \<longrightarrow>
        \<not> pending_handoff h \<and> (prepared \<longrightarrow> \<not> delivered_or_uncertain d h)))"

definition child_of :: "run_row \<Rightarrow> run_row \<Rightarrow> bool" where
  "child_of old r = (run_parent r = Some (run_id old) \<and> run_task r = run_task old \<and> run_version r = run_version old
     \<and> run_local_date r = run_local_date old \<and> normalize_due (isoformat (run_due old)) = Inr (run_due r)
     \<and> run_generation r = run_generation old \<and> run_status r = Queued \<and> run_attempt r = 0
     \<and> run_trigger r \<in> {''retry'', ''compose_only'', ''delivery_only''})"

text \<open>A run a command queued: not there before, under the guards of its family.\<close>

definition queued_child :: "run_row \<Rightarrow> run_row \<Rightarrow> db \<Rightarrow> db \<Rightarrow> bool" where
  "queued_child old r d d' = (child_of old r \<and> find_run (run_id r) d = None \<and> db_runs d' = db_runs d @ [r] \<and> db_handoffs d' = db_handoffs d
     \<and> (let k = get_execution_controls (run_id old) d; k' = get_execution_controls (run_id r) d' in
          ctl_dry k' = ctl_dry k \<and> \<not> ctl_cancel k' \<and> \<not> ctl_cleanup k' \<and> (run_trigger r \<noteq> ''retry'' \<longrightarrow> ctl_revision k < ctl_revision k')
          \<and> (ctl_dry k \<or> family_quiet d (run_id old) (run_trigger r = ''delivery_only''))))"

definition repeated_command :: "run_row \<Rightarrow> string option \<Rightarrow> run_row \<Rightarrow> db \<Rightarrow> db \<Rightarrow> bool" where
  "repeated_command old key r d d' = (db_runs d' = db_runs d \<and> db_handoffs d' = db_handoffs d
     \<and> (\<exists>k c. key = Some k \<and> k \<noteq> [] \<and> find_command (run_task old) k d = Some c \<and> find_run (cmd_run c) d = Some r))"

lemma run_audit_tables: "db_runs (run_audit s i t v d) = db_runs d" "db_handoffs (run_audit s i t v d) = db_handoffs d"
  "get_execution_controls j (run_audit s i t v d) = get_execution_controls j d"
  by (simp_all add: run_audit_def audit_def Let_def get_execution_controls_def ctl_of_def)

lemma guarded_family:
  assumes "new_run_guards r dry expected d = Inr ()" "run_parent r = Some p" "p \<noteq> []" "run_trigger r \<in> {''retry'', ''compose_only'', ''delivery_only''}"
  shows "dry \<or> family_quiet d p (run_trigger r = ''delivery_only'')"
proof -
  from assms have "dry \<or> require_retry_family_clear p False (run_trigger r = ''delivery_only'') d = Inr ()"
    by (auto simp: new_run_guards_def and_then_Inr is_replay_def REPLAY_TRIGGERS_def split: if_splits)
  then show ?thesis unfolding family_quiet_def using retry_family_clear [of p False] by blast
qed

lemma created_child:
  assumes "create_logged s (child_run s old trigger) q typ details d = Inr (r, d')" "rr_due q = isoformat (run_due old)"
    and "rr_dry q = ctl_dry (get_execution_controls (run_id old) d)" "run_id old \<noteq> []" "trigger \<in> {''retry'', ''compose_only'', ''delivery_only''}"
    and "trigger \<noteq> ''retry'' \<longrightarrow> ctl_revision (get_execution_controls (run_id old) d) < rr_revision q"
  shows "repeated_command old (rr_key q) r d d' \<or> queued_child old r d d' \<and> run_trigger r = trigger"
proof -
  from assms(1) obtain d1 where c: "create_run (pb_env s) (pb_sha s) (child_run s old trigger) q d = Inr (r, d1)"
    and u: "db_runs d' = db_runs d1" "db_handoffs d' = db_handoffs d1" "\<And>j. get_execution_controls j d' = get_execution_controls j d1"
    by (auto simp: create_logged_def and_then_Inr run_audit_tables split: if_splits)
  from c show ?thesis
  proof (cases rule: create_run_outcome)
  case (prior c)
  with u have "repeated_command old (rr_key q) r d d'"
    by (auto simp: repeated_command_def child_run_def prior_command_def split: option.splits if_splits)
  then show ?thesis ..
next
  case (new due)
  have t: "run_trigger r = trigger" "run_parent r = Some (run_id old)" using new(2) by (simp_all add: child_run_def)
  from guarded_family [OF new(3) t(2) assms(4)] assms(5) t(1)
  have "rr_dry q \<or> family_quiet d (run_id old) (run_trigger r = ''delivery_only'')" by simp
  moreover have "child_of old r" using new(1,2) assms(2,5) by (simp add: child_of_def child_run_def)
  moreover have "trigger \<noteq> ''candidate_dry_run''" using assms(5) by auto
  ultimately show ?thesis using new(4-7) assms(3,6) u t(1) by (simp add: queued_child_def Let_def)
  qed
qed

lemma accepted_command_facts:
  assumes "accepted_command task key any shape d = Inr (Some r)"
  shows "\<exists>k c. key = Some k \<and> k \<noteq> [] \<and> find_command task k d = Some c \<and> find_run (cmd_run c) d = Some r"
proof -
  let ?k = "default [] key"
  from assms have k: "?k \<noteq> []" by (auto simp: accepted_command_def split: if_splits)
  with assms obtain m where m: "get_run_command task ?k d = Inr m" by (cases "get_run_command task ?k d") (auto simp: accepted_command_def)
  with assms k have "m \<noteq> None" by (cases m) (simp_all add: accepted_command_def)
  then obtain run q where q: "m = Some (run, q)" by (cases m) auto
  with m(1) obtain c where c: "find_command task ?k d = Some c" "cmd_run c = run"
    by (auto simp: get_run_command_def and_then_Inr split: option.splits)
  have "find_run run d = Some r" using assms k m(1) q
    by (simp add: accepted_command_def Let_def) (auto split: if_splits option.splits)
  with k c show ?thesis by (cases key) auto
qed

lemma next_revision_larger:
  assumes "next_revision k source = Inr n" "source \<noteq> JNull"
  shows "ctl_revision k < n"
proof -
  from assms obtain v where "(case v of JInt n \<Rightarrow> Inr (max (ctl_revision k) n + 1) | _ \<Rightarrow> Inl (TypeError ''revision'')) = Inr n"
    by (auto simp: next_revision_def and_then_Inr)
  then show ?thesis by (cases v) auto
qed

lemma find_run_id: "find_run run d = Some r \<Longrightarrow> run_id r = run"
  using sel1_Some [of _ "db_runs d" r] by (auto simp: find_run_def)

lemma enqueue_retry_child:
  assumes "enqueue_retry s run key scope settings selection operation d = Inr (r, d')" "run \<noteq> []"
  shows "\<exists>old. find_run run d = Some old \<and> \<not> pending_run old \<and>
    (repeated_command old key r d d' \<or> queued_child old r d d' \<and> run_trigger r \<noteq> ''delivery_only'')"
proof -
  from assms(1) obtain old plan sc shape m where h: "find_run run d = Some old" "\<not> pending_run old"
      "accepted_command (run_task old) key False shape d = Inr m"
      "(case m of Some r \<Rightarrow> Inr (r, d) | None \<Rightarrow> queue_retry s old key sc plan shape settings selection operation d) = Inr (r, d')"
    by (cases "find_run run d") (simp_all add: enqueue_retry_def and_then_Inr check_Inr, blast)
  note i = find_run_id [OF h(1)]
  show ?thesis
  proof (cases m)
    case (Some x)
    with h(3,4) accepted_command_facts [of "run_task old" key False shape d x] have "repeated_command old key r d d'"
      by (auto simp: repeated_command_def)
    with h(1,2) show ?thesis by blast
  next
    case None
    let ?k = "get_execution_controls (run_id old) d" and ?t = "if sc = ''compose_only'' then ''compose_only'' else ''retry''"
    let ?source = "if sc = ''compose_only'' then composition_source old plan d else JNull"
    from h(4) None obtain stages p plan' n auth where n: "sc \<noteq> ''compose_only'' \<or> ?source \<noteq> JNull" "next_revision ?k ?source = Inr n"
      and c: "create_logged s (child_run s old ?t) \<lparr>rr_due = isoformat (run_due old), rr_dry = ctl_dry ?k, rr_revision = n, rr_key = key,
           rr_payload = retry_payload operation old (ctl_dry ?k) plan' n shape auth, rr_expected = None, rr_plan = Some (JDict plan'),
           rr_auth = auth\<rparr> (if sc = ''compose_only'' then ''compose_only_enqueued'' else ''run_retried'')
         [(''parent_run_id'', JStr (run_id old)), (''composition_revision'', JInt n), (''execution_scope'', JStr sc),
          (''execution_settings'', JDict stages), (''selection_source'', p)] d = Inr (r, d')"
      unfolding queue_retry_def Let_def by (simp only: and_then_Inr check_Inr option.case split_paired_Ex prod.case) blast
    have "?t \<noteq> ''retry'' \<longrightarrow> ctl_revision ?k < n" using next_revision_larger [OF n(2)] n(1) by auto
    with created_child [OF c] i assms(2) have "repeated_command old key r d d' \<or> queued_child old r d d' \<and> run_trigger r = ?t" by simp
    with h(1,2) show ?thesis by (auto split: if_splits)
  qed
qed

lemma send_prepared_child:
  assumes "send_prepared_email s ars run key d = Inr (r, d')" "run \<noteq> []"
  shows "\<exists>old. find_run run d = Some old \<and> (repeated_command old key r d d' \<or>
    queued_child old r d d' \<and> run_trigger r = ''delivery_only'' \<and> run_status old \<in> {Failed, TimedOut} \<and>
    (\<exists>pm. load_prepared_message (rs_reader s) ars run None d = Inr pm))"
proof -
  from assms(1) obtain old m shape where h: "find_run run d = Some old" "accepted_command (run_task old) key True shape d = Inr m"
      "(case m of Some r \<Rightarrow> Inr (r, d) | None \<Rightarrow> and_then (check (run_status old \<in> {Failed, TimedOut}) (ValidationError ''not failed before delivery'')) (\<lambda>_.
               and_then (load_prepared_message (rs_reader s) ars run None d) (\<lambda>pm. queue_prepared s old key pm shape d))) = Inr (r, d')"
    by (auto simp: send_prepared_email_def and_then_Inr Let_def split: option.splits)
  note i = find_run_id [OF h(1)]
  show ?thesis
  proof (cases m)
    case (Some x)
    with h(2,3) accepted_command_facts [of "run_task old" key True shape d x] have "repeated_command old key r d d'"
      by (auto simp: repeated_command_def)
    with h(1) show ?thesis by blast
  next
    case None
    with h(3) obtain pm where q: "run_status old \<in> {Failed, TimedOut}" "load_prepared_message (rs_reader s) ars run None d = Inr pm"
        "queue_prepared s old key pm shape d = Inr (r, d')" by (auto simp: and_then_Inr check_Inr)
    let ?k = "get_execution_controls (run_id old) d"
    from q(3) obtain auth plan' n where n: "check_prepared_delivery s old pm False d = Inr auth"
        "next_revision ?k (JDict (pm_composition pm)) = Inr n"
      and c: "create_logged s (child_run s old ''delivery_only'') \<lparr>rr_due = isoformat (run_due old), rr_dry = False, rr_revision = n, rr_key = key,
         rr_payload = [(''execution_request'', JDict shape), (''execution_plan'', JDict plan'), (''composition_revision'', JInt n),
           (''delivery_authorization'', opt_json auth)], rr_expected = None, rr_plan = Some (JDict plan'), rr_auth = auth\<rparr>
         ''prepared_email_enqueued'' [(''parent_run_id'', JStr (run_id old)),
         (''source_run_id'', JStr (run_id (pm_run pm))), (''composition_revision'', JInt n),
         (''source_revision'', dget (pm_composition pm) ''revision''), (''model_calls'', JInt 0)] d = Inr (r, d')"
      unfolding queue_prepared_def Let_def by (simp only: and_then_Inr) blast
    from n(1) have "\<not> ctl_dry ?k" by (auto simp: check_prepared_delivery_def Let_def split: if_splits)
    with created_child [OF c] next_revision_larger [OF n(2)] i assms(2)
    have "repeated_command old key r d d' \<or> queued_child old r d d' \<and> run_trigger r = ''delivery_only''" by simp
    with h(1) q(1,2) show ?thesis by blast
  qed
qed

text \<open>C33: whatever an operator asks for again, at most one run is queued and only when nothing is under
  way: a repeated command returns the run it queued the first time and queues nothing; otherwise the
  new run is a child of a run that is neither queued, running nor awaiting a receipt, for the same
  task, version and occurrence, with the dry-run mode of its parent and a later composition revision
  when it composes or sends again; unless it is a dry run, no run of the whole family is pending and
  none of its mails is on its way, and for a stored mail none was accepted or is uncertain and the
  stored message was read and verified.\<close>

theorem retry_queues_one_child:
  assumes "retry_run s ars run key scope settings selection d = Inr (r, d')" "run \<noteq> []"
  shows "\<exists>old. find_run run d = Some old \<and> (repeated_command old key r d d' \<or> \<not> pending_run old \<and> queued_child old r d d' \<and>
    (run_trigger r = ''delivery_only'' \<longrightarrow> (\<exists>pm. load_prepared_message (rs_reader s) ars run None d = Inr pm)))"
proof -
  from assms(1) consider "enqueue_retry s run key scope settings selection ''retry'' d = Inr (r, d')" | "send_prepared_email s ars run key d = Inr (r, d')"
    by (auto simp: retry_run_def and_then_Inr split: if_splits)
  then show ?thesis
  proof cases
    case 1
    from enqueue_retry_child [OF this assms(2)] show ?thesis by blast
  next
    case 2
    have "run_status old \<in> {Failed, TimedOut} \<Longrightarrow> \<not> pending_run old" for old by (auto simp: pending_run_def)
    with send_prepared_child [OF 2 assms(2)] show ?thesis by blast
  qed
qed

definition retry_service :: run_service where
  "retry_service = \<lparr>set_kill_switch = JBool False, set_production = True, set_schema_ok = (\<lambda>v. True),
     pb_env = sample_env, pb_sha = (\<lambda>x. ''h''), pb_addr_ok = (\<lambda>x. x \<noteq> []), pb_config = Inr live_config,
     pb_request_ok = (\<lambda>v. True), pb_utf8 = (\<lambda>x. True), pb_disk = None,
     rs_hex = ''0123456789ab'', rs_catalog = (\<lambda>v legacy. Inr (JDict v)), rs_reader = plain_reader\<rparr>"

definition retry_db :: db where
  "retry_db = live_db\<lparr>db_versions := [live_version\<lparr>ver_definition := (''runner'', JDict [(''type'', JStr ''opencode_exec'')]) # ver_definition live_version\<rparr>],
     db_runs := [(sample_run ''r1'' ''t1'')\<lparr>run_status := Failed\<rparr>], db_controls := [(sample_control ''r1'')\<lparr>ctl_cleanup := True\<rparr>]\<rparr>"

lemma sample_retry: "case retry_run retry_service [] ''r1'' (Some ''k1'') None None None retry_db of
    Inr (r, d) \<Rightarrow> run_trigger r = ''retry'' \<and> length (db_runs d) = 2 | Inl er \<Rightarrow> False"
  by code_simp

theorem retry_queues_one_child_witness:
  "\<exists>old r d'. length (db_runs d') = 2 \<and> \<not> pending_run old \<and> queued_child old r retry_db d'"
proof -
  from sample_retry obtain r d' where r: "retry_run retry_service [] ''r1'' (Some ''k1'') None None None retry_db = Inr (r, d')" "length (db_runs d') = 2"
    by (auto split: sum.splits)
  from retry_queues_one_child [OF r(1)] obtain old where "repeated_command old (Some ''k1'') r retry_db d' \<or> \<not> pending_run old \<and> queued_child old r retry_db d'"
    by auto
  moreover have "\<not> repeated_command old (Some ''k1'') r retry_db d'" using r(2) by (auto simp: repeated_command_def retry_db_def)
  ultimately show ?thesis using r(2) by blast
qed

section \<open>A cancellation\<close>

text \<open>A mail of the run that waits in the queue.\<close>

definition queued_mail :: "string \<Rightarrow> db \<Rightarrow> smtp_row \<Rightarrow> bool" where
  "queued_mail run d a = (run_mail run d a \<and> sm_status a = SQueued)"

definition sending_mail :: "string \<Rightarrow> db \<Rightarrow> bool" where
  "sending_mail run d = some_row (\<lambda>a. run_mail run d a \<and> sm_status a = SSending) (db_smtp d)"

lemma request_cancel_tables:
  assumes "request_cancel e run d = Inr (u, d1)"
  shows "db_smtp d1 = db_smtp d" "db_handoffs d1 = db_handoffs d"
    "db_controls d1 = upd (\<lambda>k. ctl_run k = run) (\<lambda>k. k\<lparr>ctl_cancel := True\<rparr>) (db_controls d)"
    "db_runs d1 = upd (\<lambda>r. run_id r = run \<and> run_status r = Queued)
       (\<lambda>r. r\<lparr>run_status := Cancelled, run_phase := PhFinalize, run_finished := Some (now e),
          run_error := Some ''Cancelled before execution''\<rparr>) (db_runs d)"
  using assms [symmetric] by (simp_all add: request_cancel_def)

text \<open>The row of a run after an update of rows that keeps the run ids.\<close>

lemma find_run_after_upd:
  assumes "find_run run d = Some x" "\<And>r. run_id (f r) = run_id r" "db_runs d1 = upd p f (db_runs d)"
  shows "find_run run d1 = Some (if p x then f x else x)"
  using sel1_upd_same [of "\<lambda>r. run_id r = run" f p "db_runs d"] assms by (simp add: find_run_def)

lemma request_cancel_status:
  assumes "request_cancel e run d = Inr (u, d1)" "find_run run d = Some old"
  shows "\<exists>x. find_run run d1 = Some x \<and> run_status x = (if run_status old = Queued then Cancelled else run_status old)"
  using find_run_after_upd [OF assms(2) _ request_cancel_tables(4) [OF assms(1)]] find_run_id [OF assms(2)] by simp

lemma cancel_pending_idle:
  "\<not> fst (cancel_pending_for_run e sha run d) \<Longrightarrow> snd (cancel_pending_for_run e sha run d) = d"
  by (simp only: cancel_pending_for_run_def Let_def) (auto split: if_splits)

lemma cancel_pending_when:
  "fst (cancel_pending_for_run e sha run d) \<longleftrightarrow> \<not> sending_mail run d \<and> some_row (\<lambda>r. run_id r = run \<and> run_status r = AwaitingReceipt) (db_runs d)
     \<and> some_row (\<lambda>k. ctl_run k = run \<and> ctl_cancel k) (db_controls d)"
  by (simp add: cancel_pending_for_run_def sending_mail_def Let_def split: if_splits)

lemma cancel_pending_controls: "db_controls (snd (cancel_pending_for_run e sha run d)) = db_controls d"
proof -
  have "db_controls (fold (\<lambda>job. record_delivery_event e sha job ty v) jobs x) = db_controls x" for ty v jobs x
    by (induction jobs arbitrary: x) (simp_all add: record_delivery_event_def audit_def Let_def split: option.split)
  then show ?thesis by (simp add: cancel_pending_for_run_def Let_def split: option.split)
qed

lemma cancel_pending_runs:
  assumes "fst (cancel_pending_for_run e sha run d)"
  shows "\<exists>t f. (\<forall>r. run_id (f r) = run_id r \<and> run_status (f r) = Cancelled)
    \<and> t = upd (\<lambda>r. run_id r = run \<and> run_status r = AwaitingReceipt) f (db_runs d)
    \<and> (db_runs (snd (cancel_pending_for_run e sha run d)) = t \<or> (\<exists>g. (\<forall>r. run_id (g r) = run_id r \<and> run_status (g r) = NeedsAttention)
         \<and> db_runs (snd (cancel_pending_for_run e sha run d)) = upd (\<lambda>r. run_id r = run) g t))"
proof -
  let ?f = "\<lambda>r. r\<lparr>run_status := Cancelled, run_phase := PhFinalize, run_finished := Some (now e), run_error := Some ''Cancelled before SMTP submission''\<rparr>"
  let ?g = "\<lambda>x. x\<lparr>run_status := NeedsAttention, run_error := Some ''Retry cancelled; earlier SMTP delivery remains uncertain''\<rparr>"
  let ?t = "upd (\<lambda>r. run_id r = run \<and> run_status r = AwaitingReceipt) ?f (db_runs d)"
  from assms have "db_runs (snd (cancel_pending_for_run e sha run d)) \<in> {?t, upd (\<lambda>r. run_id r = run) ?g ?t}"
    by (simp add: cancel_pending_for_run_def Let_def split: if_splits option.split)
  then show ?thesis by (intro exI [of _ ?t] exI [of _ ?f]) (auto intro: exI [of _ ?g])
qed

lemma cancel_pending_status:
  assumes "fst (cancel_pending_for_run e sha run d)" "find_run run (snd (cancel_pending_for_run e sha run d)) = Some r"
    and "find_run run d = Some x" "run_status x = AwaitingReceipt"
  shows "run_status r \<in> {Cancelled, NeedsAttention}"
proof -
  let ?d = "snd (cancel_pending_for_run e sha run d)"
  from cancel_pending_runs [OF assms(1)] obtain t f where f: "\<forall>r. run_id (f r) = run_id r \<and> run_status (f r) = Cancelled"
    and t: "t = upd (\<lambda>r. run_id r = run \<and> run_status r = AwaitingReceipt) f (db_runs d)"
    and g: "db_runs ?d = t \<or> (\<exists>g. (\<forall>r. run_id (g r) = run_id r \<and> run_status (g r) = NeedsAttention) \<and> db_runs ?d = upd (\<lambda>r. run_id r = run) g t)"
    by blast
  have one: "find_run run (d\<lparr>db_runs := t\<rparr>) = Some (f x)"
    using find_run_after_upd [OF assms(3), of f "d\<lparr>db_runs := t\<rparr>"] f t assms(4) find_run_id [OF assms(3)] by simp
  from g show ?thesis
  proof (elim disjE exE conjE)
    assume "db_runs ?d = t"
    with one assms(2) f show ?thesis by (auto simp: find_run_def)
  next
    fix g assume "\<forall>r. run_id (g r) = run_id r \<and> run_status (g r) = NeedsAttention" "db_runs ?d = upd (\<lambda>r. run_id r = run) g t"
    with find_run_after_upd [OF one, of g ?d] assms(2) f show ?thesis by (auto split: if_splits)
  qed
qed

definition after_cancel :: "run_service \<Rightarrow> string \<Rightarrow> db \<Rightarrow> db" where
  "after_cancel s run d1 = run_audit s run ''run_cancel_requested'' [(''reason'', JStr ''Operator cancel'')]
     (snd (cancel_pending_for_run (pb_env s) (pb_sha s) run d1))"

lemma after_cancel_tables:
  "db_controls (after_cancel s run d) = db_controls d"
  "db_smtp (after_cancel s run d) = db_smtp (snd (cancel_pending_for_run (pb_env s) (pb_sha s) run d))"
  "find_run run (after_cancel s run d) = find_run run (snd (cancel_pending_for_run (pb_env s) (pb_sha s) run d))"
  by (simp_all add: after_cancel_def run_audit_def audit_def Let_def cancel_pending_controls find_run_def)

lemma cancel_run_steps:
  assumes "find_run run d = Some old"
  shows "cancel_run s run d = (if run_status old \<in> {Succeeded, Failed, Cancelled} then Inr (old, d)
    else and_then (request_cancel (pb_env s) run d) (\<lambda>(_, d1). case find_run run (after_cancel s run d1) of
      None \<Rightarrow> Inl (TypeError ''run'') | Some x \<Rightarrow> Inr (x, after_cancel s run d1)))"
  unfolding cancel_run_def assms option.case after_cancel_def Let_def ..

lemma cancel_run_parts:
  assumes "cancel_run s run d = Inr (r, d')" "find_run run d = Some old" "run_status old \<notin> {Succeeded, Failed, Cancelled}"
  obtains u d1 where "request_cancel (pb_env s) run d = Inr (u, d1)" "d' = after_cancel s run d1" "find_run run d' = Some r"
proof -
  from assms(1,3) have "and_then (request_cancel (pb_env s) run d) (\<lambda>(_, d1). case find_run run (after_cancel s run d1) of
      None \<Rightarrow> Inl (TypeError ''run'') | Some x \<Rightarrow> Inr (x, after_cancel s run d1)) = Inr (r, d')"
    unfolding cancel_run_steps [OF assms(2)] by (simp only: if_False)
  then obtain u d1 where h: "request_cancel (pb_env s) run d = Inr (u, d1)"
      "(case find_run run (after_cancel s run d1) of None \<Rightarrow> Inl (TypeError ''run'') | Some x \<Rightarrow> Inr (x, after_cancel s run d1)) = Inr (r, d')"
    unfolding and_then_Inr by auto
  then have "find_run run (after_cancel s run d1) = Some r \<and> d' = after_cancel s run d1"
    by (cases "find_run run (after_cancel s run d1)") simp_all
  with h(1) that show thesis by blast
qed

lemma flagged_controls: "\<forall>k \<in> set (upd (\<lambda>k. ctl_run k = run) (\<lambda>k. k\<lparr>ctl_cancel := True\<rparr>) ks). ctl_run k = run \<longrightarrow> ctl_cancel k"
  by (induction ks) simp_all

lemma flagged_row: "some_row (\<lambda>k. ctl_run k = run) ks \<Longrightarrow>
    some_row (\<lambda>k. ctl_run k = run \<and> ctl_cancel k) (upd (\<lambda>k. ctl_run k = run) (\<lambda>k. k\<lparr>ctl_cancel := True\<rparr>) ks)"
  by (induction ks) (auto split: if_splits)

lemma pending_cancel_keeps:
  assumes "runs_ok d" "find_run run d = Some x" "run_status x \<noteq> AwaitingReceipt"
  shows "snd (cancel_pending_for_run e sha run d) = d"
proof (rule cancel_pending_idle, rule notI)
  assume "fst (cancel_pending_for_run e sha run d)"
  then obtain y where y: "y \<in> set (db_runs d)" "run_id y = run" "run_status y = AwaitingReceipt"
    by (auto simp: cancel_pending_when some_row_iff)
  from find_run_unique [OF assms(1,2) y(1,2)] y(3) assms(3) show False by simp
qed

lemma pending_cancel_closes:
  assumes "find_run run d = Some x" "run_status x = AwaitingReceipt" "\<not> sending_mail run d"
    and "some_row (\<lambda>k. ctl_run k = run \<and> ctl_cancel k) (db_controls d)" "find_run run (snd (cancel_pending_for_run e sha run d)) = Some r"
  shows "run_status r \<in> {Cancelled, NeedsAttention} \<and> \<not> some_row (queued_mail run d) (db_smtp (snd (cancel_pending_for_run e sha run d)))"
proof -
  from assms(1,2) have "x \<in> set (db_runs d) \<and> run_id x = run \<and> run_status x = AwaitingReceipt"
    using sel1_Some [of "\<lambda>r. run_id r = run" "db_runs d" x] by (simp add: find_run_def)
  then have "some_row (\<lambda>r. run_id r = run \<and> run_status r = AwaitingReceipt) (db_runs d)" unfolding some_row_iff by blast
  with assms(3,4) have c: "fst (cancel_pending_for_run e sha run d)" unfolding cancel_pending_when by blast
  then have "db_smtp (snd (cancel_pending_for_run e sha run d)) = upd (\<lambda>a. run_mail run d a \<and> sm_status a = SQueued) (fail_cancelled (now e)) (db_smtp d)"
    by (simp only: cancel_smtp if_True)
  then have "\<not> some_row (queued_mail run d) (db_smtp (snd (cancel_pending_for_run e sha run d)))"
    by (auto simp: some_row_iff set_upd queued_mail_def fail_cancelled_def)
  with cancel_pending_status [OF c assms(5,1,2)] show ?thesis by blast
qed

text \<open>C34: a cancelled run is stopped wherever it stands. A run that has ended is left alone. Otherwise
  its cancel flag is set durably in every control row, a queued run is cancelled at once, a running
  one keeps its state for its worker to see the flag, and a run that waits for its receipt while no
  process is sending its mail is closed, as cancelled or, after an uncertain submission, for
  attention, with none of its mails left in the queue.\<close>

theorem cancel_run_stops:
  assumes "cancel_run s run d = Inr (r, d')" "runs_ok d"
  shows "\<exists>old. find_run run d = Some old \<and> find_run run d' = Some r \<and>
    (if run_status old \<in> {Succeeded, Failed, Cancelled} then r = old \<and> d' = d
     else (\<forall>k \<in> set (db_controls d'). ctl_run k = run \<longrightarrow> ctl_cancel k)
       \<and> (run_status old = Queued \<longrightarrow> run_status r = Cancelled) \<and> (run_status old = Running \<longrightarrow> run_status r = Running)
       \<and> (run_status old = AwaitingReceipt \<and> \<not> sending_mail run d \<and> some_row (\<lambda>k. ctl_run k = run) (db_controls d) \<longrightarrow>
            run_status r \<in> {Cancelled, NeedsAttention} \<and> \<not> some_row (queued_mail run d) (db_smtp d')))"
proof (cases "find_run run d")
  case None
  with assms(1) have False by (simp only: cancel_run_def option.case sum.simps)
  then show ?thesis ..
next
  case (Some old)
  show ?thesis
  proof (cases "run_status old \<in> {Succeeded, Failed, Cancelled}")
    case True
    with assms(1) have "r = old \<and> d' = d" by (simp only: cancel_run_steps [OF Some] if_True) simp
    with Some True show ?thesis by (intro exI [of _ old]) simp
  next
    case False
    obtain u d1 where d1: "request_cancel (pb_env s) run d = Inr (u, d1)"
      and d': "d' = after_cancel s run d1" "find_run run d' = Some r" by (rule cancel_run_parts [OF assms(1) Some False])
    note fin = after_cancel_tables [where s = s and run = run and d = d1, folded d'(1)]
    have r: "find_run run (snd (cancel_pending_for_run (pb_env s) (pb_sha s) run d1)) = Some r" using fin(3) d'(2) by (simp only:)
    note t = request_cancel_tables [OF d1]
    from request_cancel_status [OF d1 Some] obtain x where x: "find_run run d1 = Some x"
      "run_status x = (if run_status old = Queued then Cancelled else run_status old)" by blast
    have flags: "\<forall>k \<in> set (db_controls d'). ctl_run k = run \<longrightarrow> ctl_cancel k" unfolding fin(1) t(3) by (rule flagged_controls)
    have mail: "run_mail run d1 a = run_mail run d a" for a by (simp only: run_mail_def t(2))
    have ok: "runs_ok d1" by (rule request_cancel_ok [OF assms(2) d1, THEN conjunct1])
    have same: "run_status r = run_status x" if "run_status x \<noteq> AwaitingReceipt"
      using r x(1) unfolding pending_cancel_keeps [OF ok x(1) that] by simp
    have awaiting: "run_status r \<in> {Cancelled, NeedsAttention} \<and> \<not> some_row (queued_mail run d) (db_smtp d')"
      if "run_status old = AwaitingReceipt" "\<not> sending_mail run d" "some_row (\<lambda>k. ctl_run k = run) (db_controls d)"
    proof -
      have "some_row (\<lambda>k. ctl_run k = run \<and> ctl_cancel k) (db_controls d1)" unfolding t(3) by (rule flagged_row [OF that(3)])
      moreover have "\<not> sending_mail run d1" using that(2) unfolding sending_mail_def mail t(1) .
      moreover have "queued_mail run d1 = queued_mail run d" by (simp add: queued_mail_def mail fun_eq_iff)
      ultimately show ?thesis using pending_cancel_closes [OF x(1) _ _ _ r] x(2) that(1) unfolding fin(2) by simp
    qed
    have "run_status old = Queued \<longrightarrow> run_status r = Cancelled" "run_status old = Running \<longrightarrow> run_status r = Running"
      using same x(2) by auto
    with flags have "(\<forall>k \<in> set (db_controls d'). ctl_run k = run \<longrightarrow> ctl_cancel k)
       \<and> (run_status old = Queued \<longrightarrow> run_status r = Cancelled) \<and> (run_status old = Running \<longrightarrow> run_status r = Running)
       \<and> (run_status old = AwaitingReceipt \<and> \<not> sending_mail run d \<and> some_row (\<lambda>k. ctl_run k = run) (db_controls d) \<longrightarrow>
            run_status r \<in> {Cancelled, NeedsAttention} \<and> \<not> some_row (queued_mail run d) (db_smtp d'))"
      by (intro conjI) (assumption | intro impI, elim conjE, rule awaiting, assumption+)+
    then have "if run_status old \<in> {Succeeded, Failed, Cancelled} then r = old \<and> d' = d else
       (\<forall>k \<in> set (db_controls d'). ctl_run k = run \<longrightarrow> ctl_cancel k)
       \<and> (run_status old = Queued \<longrightarrow> run_status r = Cancelled) \<and> (run_status old = Running \<longrightarrow> run_status r = Running)
       \<and> (run_status old = AwaitingReceipt \<and> \<not> sending_mail run d \<and> some_row (\<lambda>k. ctl_run k = run) (db_controls d) \<longrightarrow>
            run_status r \<in> {Cancelled, NeedsAttention} \<and> \<not> some_row (queued_mail run d) (db_smtp d'))"
      unfolding if_not_P [OF False] .
    then show ?thesis using Some d'(2) by (intro exI [of _ old] conjI)
  qed
qed

text \<open>A run whose mail is queued.\<close>

definition waiting_db :: db where
  "waiting_db = retry_db\<lparr>db_runs := [(sample_run ''r1'' ''t1'')\<lparr>run_status := AwaitingReceipt\<rparr>]\<rparr>"

lemma sample_cancel: "case cancel_run retry_service ''r1'' waiting_db of Inr (r, d) \<Rightarrow> True | Inl er \<Rightarrow> False"
  by code_simp

theorem cancel_run_stops_witness: "\<exists>r d'. cancel_run retry_service ''r1'' waiting_db = Inr (r, d') \<and> run_status r \<in> {Cancelled, NeedsAttention}"
proof -
  from sample_cancel obtain r d' where r: "cancel_run retry_service ''r1'' waiting_db = Inr (r, d')" by (auto split: sum.splits)
  have ok: "runs_ok waiting_db" by code_simp
  have "find_run ''r1'' waiting_db = Some ((sample_run ''r1'' ''t1'')\<lparr>run_status := AwaitingReceipt\<rparr>)"
    by (simp add: waiting_db_def find_run_def sample_run_def)
  moreover have "\<not> sending_mail ''r1'' waiting_db" "some_row (\<lambda>k. ctl_run k = ''r1'') (db_controls waiting_db)" by code_simp+
  ultimately show ?thesis using cancel_run_stops [OF r ok] r by auto
qed

end
