(* ===== verification/Delivery_History.thy ===== *)
theory Delivery_History imports Prepared_Delivery "HOL-Library.Sublist" begin

text \<open>
  The bounded projection of verified delivery evidence that a research run receives,
  \<open>engine/delivery_history.py\<close>: which stored messages of a series prove what became of
  them, the chain of their SMTP attempts, the byte limit of the envelope, and the comparison with a
  worker's own ledger. Archives are read by the name of a file; SHA-256 and the JSON schema validator
  are the parameters of \<open>message_reader\<close>.
\<close>

section \<open>The series of a version\<close>

definition MAX_HISTORY_ENTRIES :: nat where "MAX_HISTORY_ENTRIES = 500"
definition MAX_HISTORY_BYTES :: int where "MAX_HISTORY_BYTES = 262144"

text \<open>\<open>```json\s*\n(.*?)\n```\<close> with \<open>DOTALL\<close>: the rests after each newline of the
  leading blanks, the last one first, and the shortest content before a closing fence.\<close>

fun after_newlines :: "string \<Rightarrow> string list" where
  "after_newlines [] = []"
| "after_newlines (c # s) = (if \<not> py_space c then [] else after_newlines s @ (if c = CHR 0x0A then [s] else []))"

definition FENCE :: string where "FENCE = CHR 0x0A # replicate 3 (CHR 0x60)"

fun before_fence :: "string \<Rightarrow> (string \<times> string) option" where
  "before_fence [] = None"
| "before_fence (c # s) = (if starts FENCE (c # s) then Some ([], drop 4 (c # s))
     else map_option (\<lambda>(a, r). (c # a, r)) (before_fence s))"

fun first_match :: "string list \<Rightarrow> (string \<times> string) option" where
  "first_match [] = None"
| "first_match (s # ss) = (case before_fence s of Some m \<Rightarrow> Some m | None \<Rightarrow> first_match ss)"

definition block_at :: "string \<Rightarrow> (string \<times> string) option" where
  "block_at s = (if starts (replicate 3 (CHR 0x60) @ ''json'') s then first_match (after_newlines (drop 7 s)) else None)"

lemma before_fence_shorter: "before_fence s = Some (a, r) \<Longrightarrow> length r < length s"
proof (induction s arbitrary: a)
  case (Cons c s)
  then show ?case by (cases "starts FENCE (c # s)") auto
qed simp

lemma after_newlines_shorter: "r \<in> set (after_newlines s) \<Longrightarrow> length r < length s"
proof (induction s)
  case (Cons c s)
  then show ?case by (auto split: if_splits)
qed simp

lemma first_match_shorter: "first_match ss = Some (a, r) \<Longrightarrow> \<exists>s \<in> set ss. length r < length s"
  by (induction ss) (auto dest: before_fence_shorter split: option.splits)

lemma block_at_shorter: "block_at s = Some (a, r) \<Longrightarrow> length r < length s"
  unfolding block_at_def using first_match_shorter after_newlines_shorter by (fastforce split: if_splits)

function json_blocks :: "string \<Rightarrow> string list" where
  "json_blocks [] = []"
| "json_blocks (c # s) = (case block_at (c # s) of Some (a, r) \<Rightarrow> a # json_blocks r | None \<Rightarrow> json_blocks s)"
  by pat_completeness auto
termination by (relation "measure length") (auto dest: block_at_shorter)

definition sealed_series :: "string \<Rightarrow> json list" where
  "sealed_series text = concat (map (\<lambda>block. case strict_json_loads block DEFAULT_MAX_JSON_BYTES of
     Inr (JDict c) \<Rightarrow> if is_list (dget c ''active_issuers'') \<and> map_of c ''test_reference_date'' \<noteq> None \<and> map_of c ''test_series_id'' \<noteq> None
       then [dget c ''test_series_id''] else []
   | _ \<Rightarrow> []) (json_blocks text))"

definition version_series :: "version_row \<Rightarrow> json res" where
  "version_series v = (let state = dget (ver_definition v) ''state'' in
     and_then (if truthy state then getk state ''research_context'' else Inr JNull) (\<lambda>context.
     and_then (if truthy context then getk context ''enabled'' else Inr JNull) (\<lambda>enabled.
       if truthy enabled then getk context ''series_id''
       else (case get_or (ver_files v) ''task.md'' (JStr []) of
           JStr text \<Rightarrow> (case sealed_series text of [s] \<Rightarrow> Inr s | _ \<Rightarrow> Inr JNull)
         | _ \<Rightarrow> Inl (TypeError ''task.md'')))))"

section \<open>Record identities\<close>

definition RECORD_KEYS :: "string list" where
  "RECORD_KEYS = [''record_id'', ''product_key'', ''issuer'', ''product_code'', ''product_lineage_id'', ''report_kind'', ''correction_id'']"

definition safe_identity :: "json \<Rightarrow> bool" where
  "safe_identity v = (case v of JNull \<Rightarrow> True
     | JStr s \<Rightarrow> length s \<le> 512 \<and> CHR ''@'' \<notin> set s \<and> list_all (\<lambda>c. 32 \<le> (of_char c :: nat)) s | _ \<Rightarrow> False)"

text \<open>\<open>sorted(ids)\<close>; ids that are numbers are refused as identities.\<close>

definition sorted_ids :: "json list \<Rightarrow> json list res" where
  "sorted_ids ids = (if length ids \<le> 1 then Inr ids
     else if list_all is_str ids then Inr (map JStr (sort (map (\<lambda>v. default [] (as_str v)) ids)))
     else if list_all (\<lambda>v. v \<noteq> JNull \<and> \<not> is_str v) ids then Inl (HardGateError ''record identity'') else Inl (TypeError ''sorted''))"

fun by_record_id :: "json list \<Rightarrow> (json \<times> dict) list \<Rightarrow> (json \<times> dict) list res" where
  "by_record_id [] acc = Inr acc"
| "by_record_id (r # rs) acc = and_then (sub r ''record_id'') (\<lambda>i. and_then (hash_in i (map fst acc)) (\<lambda>dup.
     by_record_id rs (if dup then acc else acc @ [(i, default [] (as_dict r))])))"

definition bindings_of :: "(json \<times> dict) list \<Rightarrow> json \<Rightarrow> json res" where
  "bindings_of ids i = (case find (\<lambda>(j, r). pyeq j i) ids of None \<Rightarrow> Inl (KeyError ''record'')
     | Some (j, r) \<Rightarrow> let item = map (\<lambda>k. (k, dget r k)) (filter (\<lambda>k. map_of r k \<noteq> None) RECORD_KEYS) in
         if list_all (\<lambda>(k, v). safe_identity v) item then Inr (JDict item) else Inl (HardGateError ''record identity''))"

definition record_bindings :: "json \<Rightarrow> json \<Rightarrow> json list res" where
  "record_bindings records named = and_then (list_of records) (\<lambda>rs. and_then (by_record_id rs []) (\<lambda>ids.
     and_then (check (length ids = length rs) (HardGateError ''record set'')) (\<lambda>_. and_then (list_of named) (\<lambda>ks.
     and_then (collect (\<lambda>k. hash_in k (map fst ids)) ks) (\<lambda>known.
     and_then (check (list_all id known \<and> list_all (\<lambda>(i, r). list_ex (pyeq i) ks) ids \<and> length ks = length ids) (HardGateError ''record set'')) (\<lambda>_.
     and_then (sorted_ids ks) (collect (bindings_of ids))))))))"

section \<open>The chain of SMTP attempts\<close>

definition outcome_text :: "smtp_state \<Rightarrow> string option" where
  "outcome_text s = (case s of SFailed \<Rightarrow> Some ''failed_not_sent'' | SUncertain \<Rightarrow> Some ''uncertain'' | SAccepted \<Rightarrow> Some ''smtp_accepted'' | _ \<Rightarrow> None)"

definition handoff_attempts :: "string \<Rightarrow> db \<Rightarrow> smtp_row list" where
  "handoff_attempts h d = sel (\<lambda>a. sm_handoff a = Some h) (db_smtp d)"

definition original_attempt :: "string \<Rightarrow> db \<Rightarrow> smtp_row option" where
  "original_attempt h d = sel1 (\<lambda>a. sm_handoff a = Some h \<and> sm_attempt a = 1) (db_smtp d)"

definition same_mail :: "smtp_row \<Rightarrow> smtp_row \<Rightarrow> bool" where
  "same_mail a b = (sm_mime a = sm_mime b \<and> sm_envelope a = sm_envelope b)"

definition local_proof :: "string \<Rightarrow> json" where
  "local_proof job = JDict [(''type'', JStr ''local_smtp_attempt''), (''issuer'', JStr ''researchops-smtp''), (''value'', JStr job)]"

definition proves_attempt :: "(string \<Rightarrow> string) \<Rightarrow> handoff_row \<Rightarrow> smtp_row \<Rightarrow> receipt_row \<Rightarrow> json \<Rightarrow> bool" where
  "proves_attempt sha h a rc v = (case v of
     JDict r \<Rightarrow> sha (rc_raw rc) = rc_sha rc \<and> pyeq (dget r ''external_receipt_id'') (JStr (''smtp-'' @ sm_job a))
       \<and> pyeq (dget r ''handoff_id'') (JStr (ho_id h)) \<and> pyeq (dget r ''idempotency_key'') (JStr (ho_key h))
       \<and> pyeq (dget r ''delivery_request_sha256'') (JStr (ho_request_sha h)) \<and> pyeq (dget r ''status'') (JStr (smtp_text (sm_status a)))
       \<and> pyeq (dget r ''external_message_ref'') (JStr (sm_message a)) \<and> pyeq (dget r ''proof'') (local_proof (sm_job a))
   | _ \<Rightarrow> False)"

record attempt_proof =
  ap_receipt :: string
  ap_sha :: string
  ap_outcome :: string
  ap_number :: int
  ap_occurred :: json

definition proof_dict :: "attempt_proof \<Rightarrow> json" where
  "proof_dict p = JDict [(''receipt_id'', JStr (ap_receipt p)), (''receipt_sha256'', JStr (ap_sha p)), (''status'', JStr (ap_outcome p)),
     (''attempt_number'', JInt (ap_number p)), (''occurred_at'', ap_occurred p)]"

definition attempt_receipt :: "(string \<Rightarrow> string) \<Rightarrow> handoff_row \<Rightarrow> smtp_row \<Rightarrow> db \<Rightarrow> (receipt_row \<times> dict) res" where
  "attempt_receipt sha h a d = (case receipt_of_job (sm_job a) d of
     None \<Rightarrow> Inl (HardGateError ''retry proof unavailable'')
   | Some rc \<Rightarrow> if sm_phase a \<noteq> Finished then Inl (HardGateError ''retry proof unavailable'')
       else and_then (strict_json_loads (rc_raw rc) DEFAULT_MAX_JSON_BYTES) (\<lambda>v.
         if \<not> proves_attempt sha h a rc v then Inl (HardGateError ''retry receipt'') else Inr (rc, default [] (as_dict v))))"

text \<open>One attempt of the chain: the message of the first one, after its predecessor, with its receipt.\<close>

definition next_proof :: "(string \<Rightarrow> string) \<Rightarrow> handoff_row \<Rightarrow> smtp_row \<Rightarrow> smtp_row \<Rightarrow> int \<Rightarrow> string option \<Rightarrow> attempt_proof list \<Rightarrow> smtp_row \<Rightarrow> db \<Rightarrow>
    attempt_proof res" where
  "next_proof sha h original first number previous chain a d =
     and_then (check (sm_attempt a = number \<and> sm_parent a = previous \<and> same_mail a original \<and> sm_message a = sm_message first
         \<and> sm_mime_sha a = sm_mime_sha first) (HardGateError ''retry identity'')) (\<lambda>_.
     and_then (attempt_receipt sha h a d) (\<lambda>(rc, r).
     case outcome_text (sm_status a) of None \<Rightarrow> Inl (HardGateError ''retry state'')
     | Some s \<Rightarrow> if list_ex (\<lambda>p. ap_outcome p = ''smtp_accepted'') chain then Inl (HardGateError ''retry state'')
         else and_then (dsub r ''occurred_at'') (\<lambda>t.
           Inr \<lparr>ap_receipt = rc_id rc, ap_sha = rc_sha rc, ap_outcome = s, ap_number = number, ap_occurred = t\<rparr>)))"

fun proof_chain :: "(string \<Rightarrow> string) \<Rightarrow> handoff_row \<Rightarrow> string \<Rightarrow> bool \<Rightarrow> smtp_row \<Rightarrow> smtp_row \<Rightarrow> int \<Rightarrow> string option \<Rightarrow> attempt_proof list \<Rightarrow>
    smtp_row list \<Rightarrow> db \<Rightarrow> attempt_proof list res" where
  "proof_chain sha h current outcome original first number previous chain [] d = Inl (HardGateError ''current receipt outside the chain'')"
| "proof_chain sha h current outcome original first number previous chain (a # rest) d =
     and_then (next_proof sha h original first number previous chain a d) (\<lambda>p. let chain' = chain @ [p] in
       if ap_receipt p = current then
         (if outcome \<and> ap_outcome p = ''failed_not_sent'' \<and> list_ex (\<lambda>q. ap_outcome q = ''uncertain'') chain'
          then Inl (HardGateError ''earlier uncertain attempt'') else Inr chain')
       else proof_chain sha h current outcome original first (number + 1) (Some (sm_job a)) chain' rest d)"

definition verified_retry_receipts :: "(string \<Rightarrow> string) \<Rightarrow> handoff_row \<Rightarrow> string \<Rightarrow> bool \<Rightarrow> db \<Rightarrow> attempt_proof list res" where
  "verified_retry_receipts sha h current outcome d = (case original_attempt (ho_id h) d of
     None \<Rightarrow> Inl (HardGateError ''current receipt outside the chain'')
   | Some original \<Rightarrow> let rows = take (Suc MAX_HISTORY_ENTRIES) (sort_key sm_attempt (handoff_attempts (ho_id h) d)) in
       if MAX_HISTORY_ENTRIES < length rows then Inl (HardGateError ''attempt limit'')
       else proof_chain sha h current outcome original (hd rows) 1 None [] rows d)"

text \<open>An attempt that is queued or being sent reserves the records of its message.\<close>

definition pending_retry :: "(string \<Rightarrow> string) \<Rightarrow> handoff_row \<Rightarrow> db \<Rightarrow> dict option res" where
  "pending_retry sha h d = (case take 2 (filter (\<lambda>a. sm_status a \<in> {SQueued, SSending}) (handoff_attempts (ho_id h) d)) of
     [] \<Rightarrow> Inr None
   | a # rest \<Rightarrow> if rest = [] \<and> sm_attempt a = 1 then Inr None
       else (case (original_attempt (ho_id h) d, sel1 (\<lambda>b. Some (sm_job b) = sm_parent a \<and> sm_handoff b = Some (ho_id h)) (db_smtp d)) of
           (Some first, Some parent) \<Rightarrow>
             if rest \<noteq> [] \<or> \<not> (same_mail a first \<and> sm_message a = sm_message first \<and> sm_mime_sha a = sm_mime_sha first) \<or> sm_attempt a \<noteq> sm_attempt parent + 1
             then Inl (HardGateError ''pending retry binding'')
             else (case receipt_of_job (sm_job parent) d of None \<Rightarrow> Inl (HardGateError ''no prior receipt'')
                | Some rc \<Rightarrow> and_then (verified_retry_receipts sha h (rc_id rc) False d) (\<lambda>chain.
                    if ap_outcome (last chain) = ''smtp_accepted'' then Inl (HardGateError ''accepted message'')
                    else Inr (Some [(''status'', JStr ''pending''), (''pending_attempt'', JDict [(''attempt_number'', JInt (sm_attempt a)),
                      (''status'', JStr (smtp_text (sm_status a))), (''next_attempt_at'', case sm_next a of None \<Rightarrow> JNull | Some t \<Rightarrow> JStr (isoformat t))]),
                      (''smtp_attempt_receipts'', JList (map proof_dict chain))])))
         | _ \<Rightarrow> Inl (HardGateError ''pending retry binding'')))"

section \<open>A verified message\<close>

text \<open>\<open>compute_package_hash\<close>\<close>

definition package_hash :: "(string \<Rightarrow> string) \<Rightarrow> (string \<times> string) list \<Rightarrow> string" where
  "package_hash sha files = sha (concat (map (\<lambda>(name, c). name @ [CHR 0x00] @ c @ [CHR 0x00]) (sort_key fst files)))"

definition stored_message :: "message_reader \<Rightarrow> handoff_row \<Rightarrow> db \<Rightarrow> (run_row \<times> input_row \<times> output_row) res" where
  "stored_message mr h d = (case (find_run (ho_run h) d, get_composition_input_record (ho_run h) (Some (ho_revision h)) d,
       get_composition_result (ho_run h) (Some (ho_revision h)) d) of
     (Some r, Some i, Some out) \<Rightarrow>
       if run_task r \<noteq> ho_task h \<or> run_version r \<noteq> ho_version h \<or> inp_task i \<noteq> ho_task h \<or> inp_version i \<noteq> ho_version h
       then Inl (HardGateError ''no immutable composition'')
       else and_then (collect (sub (inp_value i)) [''task_id'', ''run_id'', ''task_version_hash'', ''composition_revision'']) (\<lambda>vs.
         if list_all2 pyeq vs [JStr (ho_task h), JStr (run_id r), JStr (ho_version h), JInt (ho_revision h)]
           \<and> mr_sha mr (canonical_json (inp_value i)) = inp_sha i
         then Inr (r, i, out) else Inl (HardGateError ''composition binding''))
   | _ \<Rightarrow> Inl (HardGateError ''no immutable composition''))"

definition sealed_files :: "version_row \<Rightarrow> (string \<times> string) list res" where
  "sealed_files v = collect (\<lambda>(name, c). case c of JStr s \<Rightarrow> Inr (name, s) | _ \<Rightarrow> Inl (AttributeError ''encode'')) (ver_files v)"

definition archived_input :: "message_reader \<Rightarrow> (int \<Rightarrow> file_reader) \<Rightarrow> version_row \<Rightarrow> handoff_row \<Rightarrow> input_row \<Rightarrow> unit res" where
  "archived_input mr rd v h i = and_then (rd 20000000 ''composition-input.json'') (\<lambda>raw.
     and_then (check (raw = canonical_json (inp_value i)) (HardGateError ''archived input'')) (\<lambda>_.
     and_then (sealed_files v) (\<lambda>files.
     and_then (check (package_hash (mr_sha mr) files = ho_version h) (HardGateError ''task version hash'')) (\<lambda>_.
     and_then (rd 20000000 ''task-snapshot/task.md'') (\<lambda>text. case map_of files ''task.md'' of None \<Rightarrow> Inl (KeyError ''task.md'')
       | Some s \<Rightarrow> check (text = s) (HardGateError ''sealed task archive''))))))"

definition archived_request :: "message_reader \<Rightarrow> (int \<Rightarrow> file_reader) \<Rightarrow> handoff_row \<Rightarrow> run_row \<Rightarrow> output_row \<Rightarrow> json res" where
  "archived_request mr rd h r out = and_then (rd 20000000 ''delivery-request.json'') (\<lambda>raw.
     and_then (strict_json_loads raw 20000000) (\<lambda>request.
     and_then (check (mr_sha mr raw = ho_request_sha h \<and> pyeq request (ho_request h)) (HardGateError ''handoff hash'')) (\<lambda>_.
     and_then (each (\<lambda>(k, x). and_then (getk request k) (\<lambda>y. check (pyeq y x) (HardGateError ''handoff identity'')))
       [(''task_id'', JStr (ho_task h)), (''run_id'', JStr (run_id r)), (''task_version_hash'', JStr (ho_version h)),
        (''message_revision'', JInt (ho_revision h)), (''handoff_id'', JStr (ho_id h)), (''idempotency_key'', JStr (ho_key h))]) (\<lambda>_.
     and_then (each (\<lambda>(k, x). and_then (getk request k) (\<lambda>y. check (pyeq y x) (HardGateError ''result differs'')))
       [(''subject'', JStr (out_subject out)), (''recipient_group_id'', JStr (out_group out))]) (\<lambda>_. Inr request)))))"

definition archived_body :: "message_reader \<Rightarrow> (int \<Rightarrow> file_reader) \<Rightarrow> json \<Rightarrow> string \<times> string \<Rightarrow> (string \<times> json) res" where
  "archived_body mr rd request p = (case p of (kind, path) \<Rightarrow>
     and_then (sub request ''body'') (\<lambda>b. and_then (sub b kind) (\<lambda>body. and_then (rd 20000000 path) (\<lambda>raw.
     and_then (collect (sub body) [''path'', ''sha256'', ''size_bytes'']) (\<lambda>vs.
       if list_all2 pyeq vs [JStr path, JStr (mr_sha mr raw), JInt (int (length raw))] then Inr (kind, dget (default [] (as_dict body)) ''sha256'')
       else Inl (HardGateError ''body hash''))))))"

text \<open>The receipt a handoff points at, with the attempt it proves.\<close>

definition bound_receipt :: "(string \<Rightarrow> string) \<Rightarrow> handoff_row \<Rightarrow> receipt_row \<Rightarrow> db \<Rightarrow> (string \<times> receipt_row) res" where
  "bound_receipt sha h rc d = (if ho_trust h \<noteq> Some ''verified_local_smtp'' then Inl (HardGateError ''receipt binding'') else
     and_then (collect (getk (rc_proof rc)) [''type'', ''issuer'', ''value'']) (\<lambda>vs.
     if \<not> list_all2 pyeq (take 2 vs) [JStr ''local_smtp_attempt'', JStr ''researchops-smtp'']
       \<or> rc_handoff rc \<noteq> ho_id h \<or> rc_key rc \<noteq> ho_key h \<or> rc_request_sha rc \<noteq> ho_request_sha h
       \<or> Some (rc_status rc) \<noteq> ho_external h \<or> rc_status rc \<noteq> ho_status h
     then Inl (HardGateError ''receipt binding'')
     else if sha (rc_raw rc) \<noteq> rc_sha rc \<or> Some (rc_sha rc) \<noteq> ho_receipt_sha h then Inl (HardGateError ''local SMTP proof'')
     else and_then (strict_json_loads (rc_raw rc) DEFAULT_MAX_JSON_BYTES) (\<lambda>v.
       if \<not> pyeq v (JDict (receipt_dict rc)) then Inl (HardGateError ''local SMTP proof'')
       else (case sel1 (\<lambda>a. JStr (sm_job a) = vs ! 2) (db_smtp d) of None \<Rightarrow> Inl (HardGateError ''local SMTP proof'')
         | Some a \<Rightarrow> if sm_handoff a \<noteq> Some (ho_id h) \<or> smtp_text (sm_status a) \<noteq> rc_status rc \<or> sm_phase a \<noteq> Finished
             then Inl (HardGateError ''local SMTP proof'')
             else (case outcome_text (sm_status a) of None \<Rightarrow> Inl (HardGateError ''unsupported delivery state'') | Some s \<Rightarrow> Inr (s, rc))))))"

definition receipt_fields :: "(string \<Rightarrow> string) \<Rightarrow> handoff_row \<Rightarrow> db \<Rightarrow> dict res" where
  "receipt_fields sha h d = (case (if default [] (ho_receipt h) = [] then None else find_receipt (default [] (ho_receipt h)) d) of
     None \<Rightarrow> Inr []
   | Some rc \<Rightarrow> and_then (bound_receipt sha h rc d) (\<lambda>(s, rc). and_then (verified_retry_receipts sha h (rc_id rc) True d) (\<lambda>chain.
       Inr ([(''status'', JStr s), (''receipt_id'', JStr (rc_id rc)), (''receipt_sha256'', JStr (rc_sha rc)),
         (''occurred_at'', JStr (isoformat (rc_occurred rc)))]
         @ (if length chain \<le> 1 then [] else [(''smtp_attempt_receipts'', JList (map proof_dict chain))])))))"

definition message_entry :: "handoff_row \<Rightarrow> run_row \<Rightarrow> json \<Rightarrow> json \<Rightarrow> dict \<Rightarrow> json list \<Rightarrow> dict" where
  "message_entry h r series value bodies bindings = [(''task_id'', JStr (ho_task h)), (''series_id'', series), (''run_id'', JStr (run_id r)),
     (''parent_run_id'', case run_parent r of None \<Rightarrow> JNull | Some p \<Rightarrow> JStr p), (''task_version_hash'', JStr (ho_version h)),
     (''composition_revision'', JInt (ho_revision h)), (''handoff_id'', JStr (ho_id h)), (''delivery_request_sha256'', JStr (ho_request_sha h)),
     (''body_sha256'', JDict bodies), (''record_bindings'', JList bindings), (''status'', JStr ''unresolved''), (''receipt_id'', JNull),
     (''receipt_sha256'', JNull), (''bootstrap'', JBool (map_of (default [] (as_dict value)) ''research_context'' = None))]"

definition verified_message :: "message_reader \<Rightarrow> archives \<Rightarrow> version_row \<Rightarrow> handoff_row \<Rightarrow> json \<Rightarrow> db \<Rightarrow> dict res" where
  "verified_message mr ars v h series d = (let rd = archive_reader ars (ho_task h) (ho_run h) in
     and_then (stored_message mr h d) (\<lambda>(r, i, out).
     and_then (archived_input mr rd v h i) (\<lambda>_.
     and_then (archived_request mr rd h r out) (\<lambda>request.
     and_then (collect (archived_body mr rd request) [(''html'', out_html out), (''text'', out_text out)]) (\<lambda>bodies.
     and_then (require_stored_composition (mr_sha mr) (mr_schema_ok mr) (ver_definition v) (run_id r) (ho_version h) (ho_revision h) (out_group out)
        \<lparr>er_input = None, er_result = None, er_raw = None, er_files = Some (rd 20000000), er_archive = Some (rd 20000000), er_request = Some request\<rparr> d) (\<lambda>_.
     and_then (sub (inp_value i) ''reportable_records'') (\<lambda>records.
     and_then (record_bindings records (out_included out)) (\<lambda>bindings.
     let entry = message_entry h r series (inp_value i) bodies bindings in
     and_then (pending_retry (mr_sha mr) h d) (\<lambda>m. case m of
         Some p \<Rightarrow> Inr (dmerge entry p)
       | None \<Rightarrow> and_then (receipt_fields (mr_sha mr) h d) (\<lambda>f. Inr (dmerge entry f)))))))))))"

section \<open>The envelope\<close>

record history =
  hi_head :: dict
  hi_entries :: "dict list"
  hi_unresolved :: "dict list"
  hi_complete :: bool
  hi_truncated :: bool
  hi_ledger :: "dict option"

definition history_dict :: "history \<Rightarrow> dict" where
  "history_dict h = hi_head h @ [(''entries'', JList (map JDict (hi_entries h))), (''unresolved'', JList (map JDict (hi_unresolved h))),
     (''history_complete'', JBool (hi_complete h))] @ (if hi_truncated h then [(''truncated'', JBool True)] else [])
     @ (case hi_ledger h of None \<Rightarrow> [] | Some l \<Rightarrow> [(''ledger_reconciliation'', JDict l)])"

definition envelope_size :: "history \<Rightarrow> int" where
  "envelope_size h = int (utf8_length (canonical_json (JDict (history_dict h))))"

definition unresolved :: "dict \<Rightarrow> history \<Rightarrow> history" where
  "unresolved x h = h\<lparr>hi_complete := False, hi_unresolved := hi_unresolved h @ [x]\<rparr>"

text \<open>The last entries are dropped first, then the last diagnostics.\<close>

function trim_history :: "int \<Rightarrow> history \<Rightarrow> history res" where
  "trim_history limit h = (if envelope_size h \<le> limit then Inr h
     else if hi_entries h \<noteq> [] then trim_history limit (h\<lparr>hi_entries := butlast (hi_entries h)\<rparr>)
     else if hi_unresolved h \<noteq> [] then trim_history limit (h\<lparr>hi_unresolved := butlast (hi_unresolved h)\<rparr>)
     else Inl (HardGateError ''history byte limit''))"
  by pat_completeness auto
termination by (relation "measure (\<lambda>(limit, h). length (hi_entries h) + length (hi_unresolved h))") (auto simp: neq_Nil_conv)

declare trim_history.simps [simp del]

definition no_ledger :: "string \<Rightarrow> dict" where
  "no_ledger reason = [(''available'', JBool False), (''reason'', JStr reason), (''updates'', JList [])]"

definition bounded_history :: "history \<Rightarrow> history res" where
  "bounded_history h = (if envelope_size h \<le> MAX_HISTORY_BYTES then Inr h
     else trim_history MAX_HISTORY_BYTES (h\<lparr>hi_complete := False, hi_truncated := True,
       hi_ledger := map_option (\<lambda>_. no_ledger ''history_byte_limit'') (hi_ledger h)\<rparr>))"

fun is_unproved :: "err \<Rightarrow> bool" where
  "is_unproved (AttributeError _) = False"
| "is_unproved (OverflowError _) = False"
| "is_unproved (IntegrityError _) = False"
| "is_unproved _ = True"

fun is_os_error :: "err \<Rightarrow> bool" where "is_os_error (OSError _) = True" | "is_os_error _ = False"

definition revision_reason :: "handoff_row \<Rightarrow> string \<Rightarrow> dict" where
  "revision_reason h reason = [(''run_id'', JStr (ho_run h)), (''composition_revision'', JInt (ho_revision h)), (''reason'', JStr reason)]"

definition handoff_series :: "handoff_row \<Rightarrow> db \<Rightarrow> (version_row option \<times> json) res" where
  "handoff_series h d = and_then (get_version (ho_version h) d) (\<lambda>m. case m of None \<Rightarrow> Inr (None, JNull)
     | Some v \<Rightarrow> and_then (version_series v) (\<lambda>s. Inr (Some v, s)))"

definition entry_key :: "dict \<Rightarrow> json" where
  "entry_key e = (if truthy (dget e ''receipt_id'') then dget e ''receipt_id'' else dget e ''handoff_id'')"

datatype row_result = Passed | Noted dict | Found dict

definition row_result :: "message_reader \<Rightarrow> archives \<Rightarrow> json \<Rightarrow> handoff_row \<Rightarrow> db \<Rightarrow> row_result res" where
  "row_result mr ars series h d = (case handoff_series h d of
     Inl er \<Rightarrow> if is_unproved er \<and> \<not> is_os_error er
       then Inr (Noted [(''handoff_id'', JStr (ho_id h)), (''reason'', JStr ''evidence_binding_failed'')]) else Inl er
   | Inr (m, s) \<Rightarrow> if s = JNull then Inr (Noted (revision_reason h ''series_binding_unavailable''))
       else if \<not> pyeq s series then Inr Passed
       else (case (case m of Some v \<Rightarrow> verified_message mr ars v h series d | None \<Rightarrow> Inl (HardGateError ''version'')) of
           Inl er \<Rightarrow> if is_unproved er then Inr (Noted (revision_reason h ''evidence_binding_failed'')) else Inl er
         | Inr e \<Rightarrow> Inr (Found e)))"

fun history_rows :: "message_reader \<Rightarrow> archives \<Rightarrow> json \<Rightarrow> handoff_row list \<Rightarrow> json list \<Rightarrow> history \<Rightarrow> db \<Rightarrow> history res" where
  "history_rows mr ars series [] known x d = Inr x"
| "history_rows mr ars series (h # hs) known x d = and_then (row_result mr ars series h d) (\<lambda>m. case m of
     Passed \<Rightarrow> history_rows mr ars series hs known x d
   | Noted u \<Rightarrow> history_rows mr ars series hs known (unresolved u x) d
   | Found e \<Rightarrow> if list_ex (pyeq (entry_key e)) known then history_rows mr ars series hs known x d
       else let x' = x\<lparr>hi_entries := hi_entries x @ [e]\<rparr> in
         if MAX_HISTORY_BYTES - 1024 < envelope_size x' then Inr (unresolved [(''reason'', JStr ''history_byte_limit'')] x)
         else history_rows mr ars series hs (entry_key e # known) x' d)"

definition history_handoffs :: "string \<Rightarrow> string \<Rightarrow> db \<Rightarrow> handoff_row list" where
  "history_handoffs task run d = sort_key (\<lambda>h. - ho_created h) (rev (sort_key ho_id
     (filter (\<lambda>h. ho_task h = task \<and> ho_run h \<noteq> run \<and> ho_type h \<noteq> ''system_alert'') (db_handoffs d))))"

definition new_history :: "string \<Rightarrow> json \<Rightarrow> run_row \<Rightarrow> history" where
  "new_history task series r = \<lparr>hi_head = [(''schema_version'', JInt 1), (''task_id'', JStr task), (''series_id'', series), (''origin_run_id'', JStr (run_id r)),
       (''parent_run_id'', case run_parent r of None \<Rightarrow> JNull | Some p \<Rightarrow> JStr p),
       (''limits'', JDict [(''entries'', JInt (int MAX_HISTORY_ENTRIES)), (''bytes'', JInt MAX_HISTORY_BYTES)])],
     hi_entries = [], hi_unresolved = [], hi_complete = True, hi_truncated = False, hi_ledger = None\<rparr>"

definition build_delivery_history :: "message_reader \<Rightarrow> archives \<Rightarrow> string \<Rightarrow> run_row \<Rightarrow> dict \<Rightarrow> db \<Rightarrow> history res" where
  "build_delivery_history mr ars task r context d = and_then (dsub context ''series_id'') (\<lambda>series.
     let hs = history_handoffs task (run_id r) d; x = new_history task series r;
         x1 = (if MAX_HISTORY_ENTRIES < length hs then unresolved [(''reason'', JStr ''history_entry_limit'')] x else x) in
     and_then (history_rows mr ars series (take MAX_HISTORY_ENTRIES hs) [] x1 d) bounded_history)"

section \<open>A worker's ledger\<close>

definition same_under :: "dict \<Rightarrow> dict \<Rightarrow> string list \<Rightarrow> bool" where
  "same_under a b ks = list_all (\<lambda>k. pyeq (dget a k) (dget b k)) ks"

text \<open>\<open>sorted(xs) == sorted(ks)\<close> for keys that are strings; lists that do not compare raise.\<close>

definition sorted_is :: "json list \<Rightarrow> string list \<Rightarrow> bool res" where
  "sorted_is xs ks = (if length xs \<le> 1 then Inr (list_all2 pyeq xs (map JStr ks))
     else if list_all is_str xs then Inr (sort (map (\<lambda>v. default [] (as_str v)) xs) = sort ks)
     else if list_all (\<lambda>v. v \<noteq> JNull \<and> \<not> is_str v \<and> \<not> is_list v \<and> \<not> is_dict v) xs then Inr False else Inl (TypeError ''sorted''))"

definition legacy_match :: "dict \<Rightarrow> dict \<Rightarrow> bool res" where
  "legacy_match message e = (if list_ex (\<lambda>k. map_of message k \<noteq> None) [''series_id'', ''body_sha256'', ''record_bindings''] then Inr False
     else and_then (list_of (get_or e ''record_bindings'' (JList []))) (\<lambda>bs.
     and_then (collect (\<lambda>b. getk b ''product_key'') bs) (\<lambda>ps. if \<not> list_all is_str ps then Inr False else
     and_then (collect (\<lambda>b. and_then (sub b ''record_id'') (\<lambda>i. and_then (sub b ''product_key'') (\<lambda>p. Inr (default [] (as_str i), p)))) bs) (\<lambda>mapping.
       if \<not> (same_under message e [''task_id'', ''run_id'', ''composition_revision''] \<and> pyeq (dget message ''test_series_id'') (dget e ''series_id'')
         \<and> pyeq (JDict [(''html'', dget message ''html_sha256''), (''text'', dget message ''text_sha256'')]) (dget e ''body_sha256'')
         \<and> pyeq (dget message ''record_product_map'') (JDict mapping)) then Inr False
       else (case (dget message ''included_record_ids'', dget message ''product_keys'') of
           (JList ids, keys) \<Rightarrow> and_then (sorted_is ids (map fst mapping)) (\<lambda>a. if \<not> a then Inr False
             else (case keys of JList ks \<Rightarrow> sorted_is ks (remdups (map (\<lambda>(i, p). default [] (as_str p)) mapping)) | _ \<Rightarrow> Inr False))
         | _ \<Rightarrow> Inr False)))))"

definition matching_delivery_entry :: "json \<Rightarrow> dict \<Rightarrow> bool res" where
  "matching_delivery_entry m e = (case m of
     JDict message \<Rightarrow> (case dget message ''composition_revision'' of
         JInt n \<Rightarrow> if \<not> str_in (dget e ''status'') [''smtp_accepted'', ''failed_not_sent'', ''uncertain'', ''pending''] then Inr False
           else if same_under message e [''task_id'', ''series_id'', ''run_id'', ''composition_revision'', ''body_sha256'', ''record_bindings''] then Inr True
           else legacy_match message e
       | _ \<Rightarrow> Inr False)
   | _ \<Rightarrow> Inr False)"

datatype ledger_step = Unchanged | Update dict | Conflict string

text \<open>The attempts of an entry, and the one a message still stands on.\<close>

definition entry_attempts :: "dict \<Rightarrow> dict list" where
  "entry_attempts e = map (\<lambda>v. default [] (as_dict v)) (default [] (as_list (get_or e ''smtp_attempt_receipts'' (JList []))))"

definition stands_on :: "dict \<Rightarrow> dict \<Rightarrow> bool" where
  "stands_on message item = same_under item message [''receipt_id'', ''receipt_sha256'', ''status'']"

definition standing_attempt :: "dict \<Rightarrow> dict \<Rightarrow> dict option" where
  "standing_attempt message e = find (\<lambda>i. stands_on message i \<and> str_in (dget i ''status'') [''failed_not_sent'', ''uncertain'']) (entry_attempts e)"

definition without_receipt :: "dict \<Rightarrow> bool res" where
  "without_receipt message = (if dget message ''receipt_id'' = JNull \<and> dget message ''receipt_sha256'' = JNull
     then in_set (dget message ''status'') [''pending'', ''prepared'', ''unresolved''] else Inr False)"

definition pending_update :: "string \<Rightarrow> dict \<Rightarrow> json \<Rightarrow> dict option \<Rightarrow> dict" where
  "pending_update key e p prior = [(''message_id'', JStr key), (''run_id'', dget e ''run_id''),
     (''composition_revision'', dget e ''composition_revision''), (''status'', JStr ''pending''), (''receipt_id'', JNull), (''receipt_sha256'', JNull),
     (''transition_reason'', JStr ''smtp_retry_pending''), (''pending_attempt'', p)]
     @ (case prior of None \<Rightarrow> [] | Some i \<Rightarrow> [(''previous_receipt'', JDict i)])"

definition pending_step :: "string \<Rightarrow> dict \<Rightarrow> dict \<Rightarrow> ledger_step res" where
  "pending_step key message e = and_then (without_receipt message) (\<lambda>free.
     if standing_attempt message e = None \<and> \<not> free then Inr (Conflict ''previous_delivery_conflict'')
     else if dget message ''status'' = JStr ''pending'' \<and> standing_attempt message e = None then Inr Unchanged
     else and_then (dsub e ''pending_attempt'') (\<lambda>p. Inr (Update (pending_update key e p (standing_attempt message e)))))"

definition previous_receipt :: "dict \<Rightarrow> dict \<Rightarrow> dict option" where
  "previous_receipt message e = find (\<lambda>i. stands_on message i \<and> (dget i ''status'' = JStr ''failed_not_sent''
     \<or> dget i ''status'' = JStr ''uncertain'' \<and> dget e ''status'' = JStr ''smtp_accepted'')) (butlast (entry_attempts e))"

text \<open>\<open>v in (...)\<close> for a tuple.\<close>

definition among :: "json \<Rightarrow> json list \<Rightarrow> bool" where "among v vs = list_ex (pyeq v) vs"

definition contradicts :: "dict \<Rightarrow> dict \<Rightarrow> bool" where
  "contradicts message e = (\<not> among (dget message ''receipt_id'') [JNull, dget e ''receipt_id'']
     \<or> \<not> among (dget message ''receipt_sha256'') [JNull, dget e ''receipt_sha256'']
     \<or> \<not> among (dget message ''status'') [JStr ''pending'', JStr ''prepared'', JStr ''unresolved'', dget e ''status''])"

definition settled_update :: "string \<Rightarrow> dict \<Rightarrow> json \<Rightarrow> dict option \<Rightarrow> dict" where
  "settled_update key e t previous = [(''message_id'', JStr key), (''run_id'', dget e ''run_id''),
     (''composition_revision'', dget e ''composition_revision''), (''status'', dget e ''status''), (''receipt_id'', dget e ''receipt_id''),
     (''receipt_sha256'', dget e ''receipt_sha256''), (''occurred_at'', t)]
     @ (case previous of None \<Rightarrow> [] | Some i \<Rightarrow> [(''transition_reason'', JStr ''verified_smtp_retry''), (''previous_receipt'', JDict i)])"

definition settled_step :: "string \<Rightarrow> dict \<Rightarrow> dict \<Rightarrow> ledger_step res" where
  "settled_step key message e = (if same_under message e [''receipt_id'', ''receipt_sha256'', ''status''] then Inr Unchanged
     else if contradicts message e \<and> previous_receipt message e = None then Inr (Conflict ''previous_delivery_conflict'')
     else and_then (dsub e ''occurred_at'') (\<lambda>t. Inr (Update (settled_update key e t (previous_receipt message e)))))"

definition safe_key :: "string \<Rightarrow> bool" where
  "safe_key key = (length key \<le> 255 \<and> CHR ''@'' \<notin> set key \<and> list_all (\<lambda>c. 32 \<le> (of_char c :: nat)) key)"

definition exact_matches :: "dict list \<Rightarrow> dict \<Rightarrow> dict list res" where
  "exact_matches entries message = and_then (collect (\<lambda>e. and_then (matching_delivery_entry (JDict message) e) (\<lambda>b. Inr (e, b)))
       (filter (\<lambda>e. same_under e message [''run_id'', ''composition_revision'']) entries)) (\<lambda>ms. Inr (map fst (filter snd ms)))"

definition message_step :: "string \<Rightarrow> dict \<Rightarrow> dict list \<Rightarrow> ledger_step res" where
  "message_step key message es = (case es of
     [e] \<Rightarrow> if dget e ''status'' = JStr ''pending'' then pending_step key message e else settled_step key message e
   | _ \<Rightarrow> if among (dget message ''status'') [JStr ''pending'', JStr ''prepared'', JStr ''uncertain'', JStr ''unresolved'']
       then Inr (Conflict ''no_exact_verified_message'') else Inr Unchanged)"

definition ledger_message :: "dict list \<Rightarrow> string \<times> json \<Rightarrow> ledger_step res" where
  "ledger_message entries p = (case p of (key, v) \<Rightarrow> (case v of
     JDict message \<Rightarrow> if \<not> safe_key key then Inl (ValueError ''ledger'') else and_then (exact_matches entries message) (message_step key message)
   | _ \<Rightarrow> Inl (ValueError ''ledger'')))"

definition ledger_updates :: "(string \<times> ledger_step) list \<Rightarrow> dict list" where
  "ledger_updates steps = concat (map (\<lambda>(k, x). case x of Update u \<Rightarrow> [u] | _ \<Rightarrow> []) steps)"

definition ledger_conflicts :: "(string \<times> ledger_step) list \<Rightarrow> dict list" where
  "ledger_conflicts steps = concat (map (\<lambda>(k, x). case x of Conflict r \<Rightarrow> [[(''message_id'', JStr k), (''reason'', JStr r)]] | _ \<Rightarrow> []) steps)"

definition ledger_steps :: "history \<Rightarrow> string \<Rightarrow> (string \<times> ledger_step) list res" where
  "ledger_steps h raw = and_then (strict_json_loads raw 2000000) (\<lambda>v. case v of
     JDict l \<Rightarrow> (case dget l ''messages'' of
         JDict ms \<Rightarrow> if pyeq (dget l ''task_id'') (dget (hi_head h) ''task_id'')
             \<and> pyeq (get_or l ''test_series_id'' (dget l ''series_id'')) (dget (hi_head h) ''series_id'')
           then collect (\<lambda>(k, m). and_then (ledger_message (hi_entries h) (k, m)) (\<lambda>x. Inr (k, x))) ms else Inl (ValueError ''ledger'')
       | _ \<Rightarrow> Inl (ValueError ''ledger''))
   | _ \<Rightarrow> Inl (ValueError ''ledger''))"

fun is_ledger_error :: "err \<Rightarrow> bool" where
  "is_ledger_error (ValueError _) = True"
| "is_ledger_error (TypeError _) = True"
| "is_ledger_error (KeyError _) = True"
| "is_ledger_error _ = False"

definition attach_ledger_reconciliation :: "(string \<Rightarrow> string) \<Rightarrow> history \<Rightarrow> string option \<Rightarrow> history res" where
  "attach_ledger_reconciliation sha h ledger = (case ledger of
     None \<Rightarrow> bounded_history (h\<lparr>hi_ledger := Some (no_ledger ''ledger_not_present'')\<rparr>)
   | Some raw \<Rightarrow> (case ledger_steps h raw of
       Inr steps \<Rightarrow> bounded_history (h\<lparr>hi_ledger := Some [(''available'', JBool True), (''ledger_sha256'', JStr (sha raw)),
         (''updates'', JList (map JDict (ledger_updates steps))), (''unresolved'', JList (map JDict (ledger_conflicts steps))),
         (''applied'', JBool False)]\<rparr>)
     | Inl er \<Rightarrow> if is_ledger_error er then bounded_history (h\<lparr>hi_ledger := Some (no_ledger ''ledger_invalid_or_mismatched'')\<rparr>) else Inl er))"

section \<open>The limits of the envelope\<close>

lemma prefix_butlast_step: "prefix xs (butlast ys) \<Longrightarrow> prefix xs ys"
  using prefixeq_butlast prefix_order.trans by blast

lemma trim_history_spec:
  "case trim_history limit h of
     Inr x \<Rightarrow> envelope_size x \<le> limit \<and> prefix (hi_entries x) (hi_entries h) \<and> prefix (hi_unresolved x) (hi_unresolved h)
        \<and> x = h\<lparr>hi_entries := hi_entries x, hi_unresolved := hi_unresolved x\<rparr> \<and> (hi_entries x \<noteq> [] \<longrightarrow> hi_unresolved x = hi_unresolved h)
   | Inl er \<Rightarrow> limit < envelope_size (h\<lparr>hi_entries := [], hi_unresolved := []\<rparr>)"
proof (induction limit h rule: trim_history.induct)
  case (1 limit h)
  consider "envelope_size h \<le> limit" | "\<not> envelope_size h \<le> limit" "hi_entries h \<noteq> []"
    | "\<not> envelope_size h \<le> limit" "hi_entries h = []" "hi_unresolved h \<noteq> []" | "\<not> envelope_size h \<le> limit" "hi_entries h = []" "hi_unresolved h = []" by blast
  then show ?case
  proof cases
    case 1
    then show ?thesis by (subst trim_history.simps) simp
  next
    case 2
    with "1.IH"(1) show ?thesis
      by (subst trim_history.simps) (auto split: sum.splits intro: prefix_butlast_step)
  next
    case 3
    with "1.IH"(2) show ?thesis
      by (subst trim_history.simps) (auto split: sum.splits intro: prefix_butlast_step)
  next
    case 4
    then have same: "h\<lparr>hi_entries := [], hi_unresolved := []\<rparr> = h" by (cases h) simp
    from 4 show ?thesis unfolding same by (subst trim_history.simps) simp
  qed
qed

text \<open>C35: the envelope is always returned within its byte limit, or refused: the loop that drops entries
  ends, what it leaves is the front of the list, so the oldest evidence goes first, diagnostics are
  dropped only after every entry, an envelope that lost anything says that it is truncated and
  incomplete, and it is refused only when even the empty envelope is too long.\<close>

theorem history_envelope_bounded:
  "case bounded_history h of
     Inr x \<Rightarrow> envelope_size x \<le> MAX_HISTORY_BYTES \<and> prefix (hi_entries x) (hi_entries h) \<and> prefix (hi_unresolved x) (hi_unresolved h)
        \<and> (x = h \<or> hi_truncated x \<and> \<not> hi_complete x) \<and> (hi_entries x = [] \<or> hi_unresolved x = hi_unresolved h)
   | Inl er \<Rightarrow> MAX_HISTORY_BYTES < envelope_size (h\<lparr>hi_complete := False, hi_truncated := True,
        hi_ledger := map_option (\<lambda>_. no_ledger ''history_byte_limit'') (hi_ledger h), hi_entries := [], hi_unresolved := []\<rparr>)"
proof (cases "envelope_size h \<le> MAX_HISTORY_BYTES")
  case True
  then show ?thesis by (simp add: bounded_history_def)
next
  case False
  let ?h = "h\<lparr>hi_complete := False, hi_truncated := True, hi_ledger := map_option (\<lambda>_. no_ledger ''history_byte_limit'') (hi_ledger h)\<rparr>"
  have b: "bounded_history h = trim_history MAX_HISTORY_BYTES ?h" using False by (simp add: bounded_history_def)
  show ?thesis
  proof (cases "trim_history MAX_HISTORY_BYTES ?h")
    case (Inl er)
    with trim_history_spec [of MAX_HISTORY_BYTES ?h] show ?thesis by (simp add: b)
  next
    case (Inr x)
    with trim_history_spec [of MAX_HISTORY_BYTES ?h] have x: "envelope_size x \<le> MAX_HISTORY_BYTES" "prefix (hi_entries x) (hi_entries h)"
        "prefix (hi_unresolved x) (hi_unresolved h)" "x = ?h\<lparr>hi_entries := hi_entries x, hi_unresolved := hi_unresolved x\<rparr>"
        "hi_entries x \<noteq> [] \<longrightarrow> hi_unresolved x = hi_unresolved h" by simp_all
    have "hi_truncated x \<and> \<not> hi_complete x" by (subst x(4), subst (2) x(4)) simp
    with x(1-3,5) show ?thesis unfolding b Inr sum.case by blast
  qed
qed

lemma history_envelope_bounded_Inr:
  assumes "bounded_history h = Inr x"
  shows "prefix (hi_entries x) (hi_entries h) \<and> (x = h \<or> \<not> hi_complete x)"
proof -
  let ?h = "h\<lparr>hi_complete := False, hi_truncated := True, hi_ledger := map_option (\<lambda>_. no_ledger ''history_byte_limit'') (hi_ledger h)\<rparr>"
  have "prefix (hi_entries x) (hi_entries h) \<and> \<not> hi_complete x" if "trim_history MAX_HISTORY_BYTES ?h = Inr x"
  proof -
    from that trim_history_spec [of MAX_HISTORY_BYTES ?h] have x: "prefix (hi_entries x) (hi_entries h)"
        "x = ?h\<lparr>hi_entries := hi_entries x, hi_unresolved := hi_unresolved x\<rparr>" by simp_all
    have "\<not> hi_complete x" by (subst x(2)) simp
    with x(1) show ?thesis by blast
  qed
  with assms show ?thesis by (auto simp: bounded_history_def split: if_splits)
qed

section \<open>What an entry proves\<close>

text \<open>The attempt and the receipt behind the outcome of a handoff.\<close>

definition proved_outcome :: "(string \<Rightarrow> string) \<Rightarrow> handoff_row \<Rightarrow> string \<Rightarrow> db \<Rightarrow> bool" where
  "proved_outcome sha h s d = (\<exists>a \<in> set (db_smtp d). \<exists>rc \<in> set (db_receipts d). sm_handoff a = Some (ho_id h) \<and> sm_phase a = Finished
     \<and> outcome_text (sm_status a) = Some s \<and> rc_status rc = smtp_text (sm_status a) \<and> rc_handoff rc = ho_id h \<and> rc_request_sha rc = ho_request_sha h
     \<and> sha (rc_raw rc) = rc_sha rc \<and> ho_receipt_sha h = Some (rc_sha rc) \<and> ho_status h = smtp_text (sm_status a))"

lemma bound_receipt_proves:
  assumes "bound_receipt sha h rc d = Inr (s, rc')" "rc \<in> set (db_receipts d)"
  shows "proved_outcome sha h s d \<and> rc' = rc"
proof -
  from assms(1) obtain vs a where a: "sel1 (\<lambda>a. JStr (sm_job a) = vs ! 2) (db_smtp d) = Some a" "sm_handoff a = Some (ho_id h)" "sm_phase a = Finished"
      "smtp_text (sm_status a) = rc_status rc" "outcome_text (sm_status a) = Some s" "rc' = rc"
    and r: "rc_handoff rc = ho_id h" "rc_request_sha rc = ho_request_sha h" "rc_status rc = ho_status h" "sha (rc_raw rc) = rc_sha rc"
      "ho_receipt_sha h = Some (rc_sha rc)"
    unfolding bound_receipt_def by (auto simp: and_then_Inr split: if_splits option.splits)
  from sel1_Some [OF a(1)] a r assms(2) show ?thesis unfolding proved_outcome_def by metis
qed

lemma receipt_fields_status:
  assumes "receipt_fields sha h d = Inr f" "map_of f ''status'' = Some (JStr s)"
  shows "proved_outcome sha h s d"
proof -
  from assms obtain rc s' rc' f' where h: "find_receipt (default [] (ho_receipt h)) d = Some rc" "bound_receipt sha h rc d = Inr (s', rc')" "s' = s"
    unfolding receipt_fields_def by (auto simp: and_then_Inr split: option.splits if_splits)
  moreover from h(1) have "rc \<in> set (db_receipts d)" by (auto simp: find_receipt_def dest: sel1_Some)
  ultimately show ?thesis using bound_receipt_proves by blast
qed


lemma pending_retry_status: "pending_retry sha h d = Inr (Some p) \<Longrightarrow> map fst p = [''status'', ''pending_attempt'', ''smtp_attempt_receipts''] \<and> dget p ''status'' = JStr ''pending''"
  unfolding pending_retry_def by (auto simp: and_then_Inr dget_def split: list.splits option.splits if_splits)


lemma dmerge_simps [simp]: "dmerge a [] = a" "dmerge a ((k, v) # b) = dmerge (dput k v a) b"
  by (simp_all add: dmerge_def)

lemma receipt_fields_cases:
  assumes "receipt_fields sha h d = Inr f"
  obtains "f = []" | s and rc :: receipt_row and chain where "proved_outcome sha h s d"
    "f = [(''status'', JStr s), (''receipt_id'', JStr (rc_id rc)), (''receipt_sha256'', JStr (rc_sha rc)), (''occurred_at'', JStr (isoformat (rc_occurred rc)))] @ chain"
    "chain = [] \<or> (\<exists>ps. chain = [(''smtp_attempt_receipts'', ps)])"
proof (cases "f = []")
  case False
  with assms obtain rc s rc' extra where h: "find_receipt (default [] (ho_receipt h)) d = Some rc" "bound_receipt sha h rc d = Inr (s, rc')"
      "f = [(''status'', JStr s), (''receipt_id'', JStr (rc_id rc')), (''receipt_sha256'', JStr (rc_sha rc')),
         (''occurred_at'', JStr (isoformat (rc_occurred rc')))] @ extra"
      "extra = [] \<or> (\<exists>ps. extra = [(''smtp_attempt_receipts'', ps)])"
    unfolding receipt_fields_def by (auto simp: and_then_Inr split: option.splits if_splits)
  moreover from h(1) have "rc \<in> set (db_receipts d)" by (auto simp: find_receipt_def dest: sel1_Some)
  ultimately have "proved_outcome sha h s d" using bound_receipt_proves by blast
  with h(3,4) show thesis by (intro that(2) [of s rc' extra])
qed (rule that(1))

text \<open>What a verified entry says: the outcome it gives is that of a finished attempt with its receipt.\<close>

lemma verified_message_parts:
  assumes "verified_message mr ars v h series d = Inr e"
  shows "\<exists>r value bodies bs f. e = dmerge (message_entry h r series value bodies bs) f \<and> run_id r = ho_run h \<and>
    (pending_retry (mr_sha mr) h d = Inr (Some f) \<or> pending_retry (mr_sha mr) h d = Inr None \<and> receipt_fields (mr_sha mr) h d = Inr f)"
proof -
  from assms obtain r i out request bodies bs m where h: "stored_message mr h d = Inr (r, i, out)" "pending_retry (mr_sha mr) h d = Inr m"
      "(case m of Some p \<Rightarrow> Inr (dmerge (message_entry h r series (inp_value i) bodies bs) p)
       | None \<Rightarrow> and_then (receipt_fields (mr_sha mr) h d) (\<lambda>f. Inr (dmerge (message_entry h r series (inp_value i) bodies bs) f))) = Inr e"
    unfolding verified_message_def Let_def by (simp only: and_then_Inr split_paired_Ex prod.case) blast
  from h(1) have "run_id r = ho_run h" by (auto simp: stored_message_def find_run_def and_then_Inr dest: sel1_Some split: option.splits if_splits)
  moreover from h(2,3) obtain f where "e = dmerge (message_entry h r series (inp_value i) bodies bs) f"
      "pending_retry (mr_sha mr) h d = Inr (Some f) \<or> pending_retry (mr_sha mr) h d = Inr None \<and> receipt_fields (mr_sha mr) h d = Inr f"
    by (cases m) (auto simp: and_then_Inr)
  ultimately show ?thesis by blast
qed

lemma verified_entry:
  assumes "verified_message mr ars v h series d = Inr e"
  shows "dget e ''handoff_id'' = JStr (ho_id h) \<and> dget e ''run_id'' = JStr (ho_run h) \<and>
    (dget e ''status'' \<in> {JStr ''pending'', JStr ''unresolved''} \<or> (\<exists>s. dget e ''status'' = JStr s \<and> proved_outcome (mr_sha mr) h s d)) \<and>
    (\<exists>k. entry_key e = JStr k)"
proof -
  from verified_message_parts [OF assms] obtain r val bodies bs f where e: "e = dmerge (message_entry h r series val bodies bs) f" "run_id r = ho_run h"
    and f: "pending_retry (mr_sha mr) h d = Inr (Some f) \<or> receipt_fields (mr_sha mr) h d = Inr f" by blast
  let ?m = "message_entry h r series val bodies bs"
  have m: "dget ?m ''handoff_id'' = JStr (ho_id h)" "dget ?m ''run_id'' = JStr (ho_run h)" "dget ?m ''status'' = JStr ''unresolved''" "dget ?m ''receipt_id'' = JNull"
    by (simp_all add: message_entry_def dget_def e(2))
  from f show ?thesis
  proof
    assume "pending_retry (mr_sha mr) h d = Inr (Some f)"
    from pending_retry_status [OF this] obtain a b c where "f = [(''status'', a), (''pending_attempt'', b), (''smtp_attempt_receipts'', c)]" "a = JStr ''pending''"
      by (cases f rule: list.exhaust; auto simp: dget_def map_eq_Cons_conv)
    then show ?thesis by (simp add: e(1) m entry_key_def)
  next
    assume "receipt_fields (mr_sha mr) h d = Inr f"
    then show ?thesis
    proof (cases rule: receipt_fields_cases)
      case 1
      then show ?thesis by (simp add: e(1) m entry_key_def)
    next
      case (2 s rc chain)
      from 2(3) 2(1) show ?thesis by (auto simp: e(1) m 2(2) entry_key_def)
    qed
  qed
qed

lemma history_rows_entries:
  "history_rows mr ars series hs known x d = Inr y \<Longrightarrow> e \<in> set (hi_entries y) \<Longrightarrow>
    e \<in> set (hi_entries x) \<or> (\<exists>h \<in> set hs. row_result mr ars series h d = Inr (Found e))"
proof (induction mr ars series hs known x d rule: history_rows.induct)
  case (2 mr ars series h hs known x d)
  from "2.prems"(1) obtain m where m: "row_result mr ars series h d = Inr m" by (auto simp: and_then_Inr)
  show ?case
  proof (cases m)
    case Passed
    with 2 m show ?thesis by (auto simp: and_then_Inr)
  next
    case (Noted u)
    with "2.IH" "2.prems" m show ?thesis by (auto simp: and_then_Inr unresolved_def)
  next
    case (Found e')
    with "2.IH" "2.prems" m show ?thesis by (auto simp: and_then_Inr unresolved_def Let_def split: if_splits)
  qed
qed simp

lemma row_found:
  assumes "row_result mr ars series h d = Inr (Found e)"
  shows "\<exists>v. get_version (ho_version h) d = Inr (Some v) \<and> verified_message mr ars v h series d = Inr e"
  using assms unfolding row_result_def handoff_series_def
  by (auto simp: and_then_Inr split: sum.splits if_splits option.splits)

text \<open>A handoff that passes without a note has a version of another series; one that gives an entry has a version
  of this one.\<close>

lemma handoff_series_version:
  "handoff_series h d = Inr (m, s) \<Longrightarrow> s \<noteq> JNull \<Longrightarrow> \<exists>v. m = Some v \<and> get_version (ho_version h) d = Inr (Some v) \<and> version_series v = Inr s"
  unfolding handoff_series_def by (auto simp: and_then_Inr split: option.splits)

lemma row_passed:
  assumes "row_result mr ars series h d = Inr Passed"
  shows "\<exists>v s. get_version (ho_version h) d = Inr (Some v) \<and> version_series v = Inr s \<and> s \<noteq> JNull \<and> \<not> pyeq s series"
  using assms unfolding row_result_def by (auto split: sum.splits if_splits option.splits dest!: handoff_series_version)

lemma row_of_series:
  assumes "row_result mr ars series h d = Inr (Found e)"
  shows "\<exists>v s. get_version (ho_version h) d = Inr (Some v) \<and> version_series v = Inr s \<and> s \<noteq> JNull \<and> pyeq s series \<and> verified_message mr ars v h series d = Inr e"
  using assms unfolding row_result_def by (auto split: sum.splits if_splits option.splits dest!: handoff_series_version)

lemma found_key: "row_result mr ars series h d = Inr (Found e) \<Longrightarrow> \<exists>k. entry_key e = JStr k"
  using row_found verified_entry by blast

lemma history_rows_complete:
  "history_rows mr ars series hs known x d = Inr y \<Longrightarrow> hi_complete y \<Longrightarrow> hi_complete x \<and> set (hi_entries x) \<subseteq> set (hi_entries y) \<and>
    (\<forall>h \<in> set hs. row_result mr ars series h d = Inr Passed \<or> (\<exists>e. row_result mr ars series h d = Inr (Found e) \<and>
       (\<exists>k \<in> set known \<union> entry_key ` set (hi_entries y). pyeq (entry_key e) k)))"
proof (induction hs arbitrary: known x)
  case (Cons h hs)
  from Cons.prems(1) obtain m where m: "row_result mr ars series h d = Inr m" by (auto simp: and_then_Inr)
  show ?case
  proof (cases m)
    case Passed
    with Cons.prems m have "history_rows mr ars series hs known x d = Inr y" by simp
    from Cons.IH [OF this Cons.prems(2)] m Passed show ?thesis by simp
  next
    case (Noted u)
    with Cons.prems m have "history_rows mr ars series hs known (unresolved u x) d = Inr y" by simp
    from Cons.IH [OF this Cons.prems(2)] show ?thesis by (simp add: unresolved_def)
  next
    case (Found e)
    from m Found have f: "row_result mr ars series h d = Inr (Found e)" by simp
    show ?thesis
    proof (cases "list_ex (pyeq (entry_key e)) known")
      case True
      with Cons.prems f have "history_rows mr ars series hs known x d = Inr y" by simp
      from Cons.IH [OF this Cons.prems(2)] f True show ?thesis by (auto simp: list_ex_iff)
    next
      case False
      let ?x = "x\<lparr>hi_entries := hi_entries x @ [e]\<rparr>"
      have "\<not> hi_complete (unresolved u x)" for u by (simp add: unresolved_def)
      with Cons.prems f False have r: "history_rows mr ars series hs (entry_key e # known) ?x d = Inr y"
        by (auto simp: Let_def split: if_splits)
      note ih = Cons.IH [OF r Cons.prems(2)]
      from ih have e: "e \<in> set (hi_entries y)" "hi_complete x" "set (hi_entries x) \<subseteq> set (hi_entries y)" by auto
      from found_key [OF f] have p: "pyeq (entry_key e) (entry_key e)" by auto
      have "row_result mr ars series h' d = Inr Passed \<or> (\<exists>e'. row_result mr ars series h' d = Inr (Found e') \<and>
          (\<exists>k \<in> set known \<union> entry_key ` set (hi_entries y). pyeq (entry_key e') k))" if "h' \<in> set (h # hs)" for h'
      proof (cases "h' = h")
        case True
        with f e(1) p show ?thesis by blast
      next
        case False
        with that ih e(1) show ?thesis by fastforce
      qed
      with e show ?thesis by blast
    qed
  qed
qed simp

definition in_history :: "string \<Rightarrow> string \<Rightarrow> db \<Rightarrow> handoff_row \<Rightarrow> bool" where
  "in_history task run d h = (h \<in> set (db_handoffs d) \<and> ho_task h = task \<and> ho_run h \<noteq> run \<and> ho_type h \<noteq> ''system_alert'')"

text \<open>C36: the history of a series is neither invented nor silently shortened. Each entry is the verified
  message of a stored handoff of the task, from another run and not an alert, whose version is of the
  series; it names that run and handoff, and the outcome it gives is pending or unresolved, or that of a
  finished SMTP attempt whose receipt is stored with its hash and pinned by the handoff. When the history
  calls itself complete, every such handoff has a version with a known series, and if that is the series
  asked for, its message verifies and has an entry under its receipt or handoff.\<close>

theorem delivery_history_faithful:
  assumes "build_delivery_history mr ars task r context d = Inr x" "series = dget context ''series_id''"
  shows "(\<forall>e \<in> set (hi_entries x). \<exists>h v s. in_history task (run_id r) d h
      \<and> get_version (ho_version h) d = Inr (Some v) \<and> version_series v = Inr s \<and> pyeq s series \<and> verified_message mr ars v h series d = Inr e
      \<and> dget e ''handoff_id'' = JStr (ho_id h) \<and> dget e ''run_id'' = JStr (ho_run h)
      \<and> (dget e ''status'' \<in> {JStr ''pending'', JStr ''unresolved''} \<or> (\<exists>t. dget e ''status'' = JStr t \<and> proved_outcome (mr_sha mr) h t d)))
    \<and> (hi_complete x \<longrightarrow> (\<forall>h. in_history task (run_id r) d h \<longrightarrow>
      (\<exists>v s. get_version (ho_version h) d = Inr (Some v) \<and> version_series v = Inr s \<and> s \<noteq> JNull \<and> (pyeq s series \<longrightarrow>
        (\<exists>e. verified_message mr ars v h series d = Inr e \<and> (\<exists>e' \<in> set (hi_entries x). entry_key e' = entry_key e))))))"
proof -
  let ?hs = "history_handoffs task (run_id r) d" and ?s = series
  let ?x = "new_history task ?s r"
  let ?x1 = "if MAX_HISTORY_ENTRIES < length ?hs then unresolved [(''reason'', JStr ''history_entry_limit'')] ?x else ?x"
  from assms(1) have "dsub context ''series_id'' = Inr ?s" by (auto simp: assms(2) build_delivery_history_def and_then_Inr dsub_def dget_def split: option.splits)
  with assms(1) obtain y where y: "history_rows mr ars ?s (take MAX_HISTORY_ENTRIES ?hs) [] ?x1 d = Inr y" "bounded_history y = Inr x"
    by (auto simp: build_delivery_history_def and_then_Inr Let_def)
  from history_envelope_bounded_Inr [OF y(2)] have x: "set (hi_entries x) \<subseteq> set (hi_entries y)" "hi_complete x \<longrightarrow> x = y"
    by (auto dest: set_mono_prefix)
  have set_hs: "h \<in> set ?hs \<longleftrightarrow> in_history task (run_id r) d h" for h by (auto simp: history_handoffs_def in_history_def)
  have "\<exists>h v s. in_history task (run_id r) d h
      \<and> get_version (ho_version h) d = Inr (Some v) \<and> version_series v = Inr s \<and> pyeq s series \<and> verified_message mr ars v h series d = Inr e
      \<and> dget e ''handoff_id'' = JStr (ho_id h) \<and> dget e ''run_id'' = JStr (ho_run h)
      \<and> (dget e ''status'' \<in> {JStr ''pending'', JStr ''unresolved''} \<or> (\<exists>t. dget e ''status'' = JStr t \<and> proved_outcome (mr_sha mr) h t d))"
    if "e \<in> set (hi_entries x)" for e
  proof -
    have "hi_entries ?x1 = []" by (simp add: new_history_def unresolved_def)
    with history_rows_entries [OF y(1), of e] that x(1) obtain h where h: "h \<in> set (take MAX_HISTORY_ENTRIES ?hs)" "row_result mr ars ?s h d = Inr (Found e)"
      by auto
    from in_set_takeD [OF h(1)] set_hs have "in_history task (run_id r) d h" by blast
    with row_of_series [OF h(2)] verified_entry show ?thesis by blast
  qed
  moreover have "\<exists>v s. get_version (ho_version h) d = Inr (Some v) \<and> version_series v = Inr s \<and> s \<noteq> JNull \<and> (pyeq s series \<longrightarrow>
        (\<exists>e. verified_message mr ars v h series d = Inr e \<and> (\<exists>e' \<in> set (hi_entries x). entry_key e' = entry_key e)))"
    if "hi_complete x" "in_history task (run_id r) d h" for h
  proof -
    from that(1) x(2) have xy: "x = y" "hi_complete y" by auto
    note c = history_rows_complete [OF y(1) xy(2)]
    from c have "length ?hs \<le> MAX_HISTORY_ENTRIES" by (auto simp: unresolved_def split: if_splits)
    with that(2) set_hs have "h \<in> set (take MAX_HISTORY_ENTRIES ?hs)" by simp
    with c found_key [of mr ars ?s h d] have "row_result mr ars ?s h d = Inr Passed
        \<or> (\<exists>e. row_result mr ars ?s h d = Inr (Found e) \<and> (\<exists>e' \<in> set (hi_entries x). entry_key e' = entry_key e))"
      unfolding xy(1) by fastforce
    then show ?thesis
    proof
      assume "row_result mr ars ?s h d = Inr Passed"
      from row_passed [OF this] show ?thesis by blast
    next
      assume "\<exists>e. row_result mr ars ?s h d = Inr (Found e) \<and> (\<exists>e' \<in> set (hi_entries x). entry_key e' = entry_key e)"
      with row_of_series show ?thesis by blast
    qed
  qed
  ultimately show ?thesis by blast
qed

section \<open>What a reconciliation suggests\<close>

lemma find_holds: "find P xs = Some x \<Longrightarrow> P x"
  by (induction xs) (auto split: if_splits)

lemma stands_on_status: "stands_on message i \<Longrightarrow> pyeq (dget i ''status'') (dget message ''status'')"
  by (simp add: stands_on_def same_under_def)

lemma pending_step_update:
  assumes "pending_step key message e = Inr (Update u)"
  shows "dget u ''status'' = JStr ''pending'' \<and> dget u ''run_id'' = dget e ''run_id'' \<and> dget u ''composition_revision'' = dget e ''composition_revision''
    \<and> dget message ''status'' \<noteq> JStr ''smtp_accepted''"
proof -
  let ?prior = "standing_attempt message e"
  from assms obtain free p where h: "without_receipt message = Inr free" "?prior \<noteq> None \<or> free" "u = pending_update key e p ?prior"
    unfolding pending_step_def by (auto simp: and_then_Inr split: if_splits)
  have "dget message ''status'' \<noteq> JStr ''smtp_accepted''"
  proof (cases ?prior)
    case None
    with h(1,2) show ?thesis by (auto simp: without_receipt_def in_set_def str_in_def split: if_splits)
  next
    case (Some i)
    then have "stands_on message i \<and> str_in (dget i ''status'') [''failed_not_sent'', ''uncertain'']"
      unfolding standing_attempt_def by (rule find_holds)
    then show ?thesis by (auto dest: stands_on_status simp: str_in_def)
  qed
  with h(3) show ?thesis by (simp add: dget_def pending_update_def)
qed

lemma settled_step_update:
  assumes "settled_step key message e = Inr (Update u)"
  shows "dget u ''status'' = dget e ''status'' \<and> dget u ''run_id'' = dget e ''run_id'' \<and> dget u ''composition_revision'' = dget e ''composition_revision''
    \<and> (dget message ''status'' = JStr ''smtp_accepted'' \<longrightarrow> dget e ''status'' = JStr ''smtp_accepted'')"
proof -
  let ?prior = "previous_receipt message e"
  from assms obtain t where h: "?prior \<noteq> None \<or> \<not> contradicts message e" "u = settled_update key e t ?prior"
    unfolding settled_step_def by (auto simp: and_then_Inr split: if_splits)
  have "dget e ''status'' = JStr ''smtp_accepted''" if a: "dget message ''status'' = JStr ''smtp_accepted''"
  proof (cases ?prior)
    case None
    with h(1) a show ?thesis by (simp add: among_def contradicts_def)
  next
    case (Some i)
    then have "stands_on message i \<and> (dget i ''status'' = JStr ''failed_not_sent'' \<or> dget i ''status'' = JStr ''uncertain'' \<and> dget e ''status'' = JStr ''smtp_accepted'')"
      unfolding previous_receipt_def by (rule find_holds)
    with a show ?thesis by (auto dest: stands_on_status)
  qed
  with h(2) show ?thesis by (simp add: dget_def settled_update_def)
qed

lemma exact_matches_filter:
  assumes "exact_matches entries message = Inr es"
  shows "filter (\<lambda>e. same_under e message [''run_id'', ''composition_revision''] \<and> matching_delivery_entry (JDict message) e = Inr True) entries = es"
proof -
  have "map fst (filter snd ms) = filter (\<lambda>e. matching_delivery_entry (JDict message) e = Inr True) xs"
    if "collect (\<lambda>e. and_then (matching_delivery_entry (JDict message) e) (\<lambda>b. Inr (e, b))) xs = Inr ms" for xs ms
    using that by (induction xs arbitrary: ms) (auto simp: and_then_Inr)
  with assms show ?thesis by (auto simp: exact_matches_def and_then_Inr conj_commute)
qed

text \<open>C37: a suggested change of a worker's ledger rests on exactly one entry of the history for the run
  and revision of the message, one that matches the message exactly, and carries the outcome of that
  entry; a message the ledger holds as accepted by the SMTP server is never turned into anything else.\<close>

theorem ledger_never_unsends:
  assumes "ledger_message entries (key, JDict message) = Inr (Update u)"
  shows "\<exists>e. filter (\<lambda>e. same_under e message [''run_id'', ''composition_revision''] \<and> matching_delivery_entry (JDict message) e = Inr True) entries = [e]
    \<and> dget u ''status'' = dget e ''status'' \<and> dget u ''run_id'' = dget e ''run_id'' \<and> dget u ''composition_revision'' = dget e ''composition_revision''
    \<and> (dget message ''status'' = JStr ''smtp_accepted'' \<longrightarrow> dget u ''status'' = JStr ''smtp_accepted'')"
proof -
  from assms obtain es where es: "exact_matches entries message = Inr es" "message_step key message es = Inr (Update u)"
    by (auto simp: ledger_message_def and_then_Inr split: if_splits)
  from es(2) obtain e where e: "es = [e]"
      "(if dget e ''status'' = JStr ''pending'' then pending_step key message e else settled_step key message e) = Inr (Update u)"
    by (cases es rule: remdups_adj.cases) (auto simp: message_step_def split: if_splits)
  have "dget u ''status'' = dget e ''status'' \<and> dget u ''run_id'' = dget e ''run_id'' \<and> dget u ''composition_revision'' = dget e ''composition_revision''
    \<and> (dget message ''status'' = JStr ''smtp_accepted'' \<longrightarrow> dget u ''status'' = JStr ''smtp_accepted'')"
  proof (cases "dget e ''status'' = JStr ''pending''")
    case True
    with e(2) pending_step_update [of key message e u] show ?thesis by simp
  next
    case False
    with e(2) settled_step_update [of key message e u] show ?thesis by simp
  qed
  with exact_matches_filter [OF es(1)] e(1) show ?thesis by blast
qed

definition ledger_entry :: dict where
  "ledger_entry = [(''task_id'', JStr ''t1''), (''series_id'', JStr ''s''), (''run_id'', JStr ''r1''), (''composition_revision'', JInt 1),
     (''body_sha256'', JDict []), (''record_bindings'', JList []), (''status'', JStr ''smtp_accepted''), (''receipt_id'', JStr ''smtp-j''),
     (''receipt_sha256'', JStr ''h''), (''occurred_at'', JStr ''t'')]"

definition ledger_row :: dict where
  "ledger_row = map (\<lambda>k. (k, dget ledger_entry k)) [''task_id'', ''series_id'', ''run_id'', ''composition_revision'', ''body_sha256'', ''record_bindings'']
     @ [(''status'', JStr ''prepared'')]"

theorem ledger_never_unsends_witness:
  "\<exists>u e. ledger_message [ledger_entry] (''m'', JDict ledger_row) = Inr (Update u) \<and> dget u ''status'' = dget e ''status''
     \<and> dget u ''run_id'' = dget e ''run_id'' \<and> [ledger_entry] = [e]"
proof -
  have "case ledger_message [ledger_entry] (''m'', JDict ledger_row) of Inr (Update u) \<Rightarrow> True | _ \<Rightarrow> False" by code_simp
  then obtain u where u: "ledger_message [ledger_entry] (''m'', JDict ledger_row) = Inr (Update u)" by (auto split: sum.splits ledger_step.splits)
  from ledger_never_unsends [OF this] have "\<exists>e. [ledger_entry] = [e] \<and> dget u ''status'' = dget e ''status'' \<and> dget u ''run_id'' = dget e ''run_id''"
    by (auto split: if_splits)
  with u show ?thesis by auto
qed

text \<open>The message of a run of the series, with its sealed task, its archive and its stored request.\<close>

definition told_request :: json where
  "told_request = JDict [(''task_id'', JStr ''t1''), (''run_id'', JStr ''r1''), (''task_version_hash'', JStr ''v1''), (''message_revision'', JInt 1),
     (''handoff_id'', JStr ''h1''), (''idempotency_key'', JStr ''k1''), (''subject'', JStr ''s''), (''recipient_group_id'', JStr ''g''),
     (''body'', JDict (map (\<lambda>k. (k, JDict [(''path'', JStr ''composition-result.json''), (''sha256'', JStr ''h''), (''size_bytes'', JInt 1)])) [''html'', ''text'']))]"

definition told_version :: version_row where
  "told_version = live_version\<lparr>ver_definition := (''state'', JDict [(''research_context'', JDict [(''enabled'', JBool True), (''series_id'', JStr ''s'')])])
     # ver_definition live_version, ver_files := [(''task.md'', JStr ''t'')]\<rparr>"

definition told_handoff :: handoff_row where
  "told_handoff = sample_handoff\<lparr>ho_request := told_request, ho_request_sha := ''h''\<rparr>"

definition told_db :: db where
  "told_db = failed_db\<lparr>db_versions := [told_version], db_handoffs := [told_handoff]\<rparr>"

definition told_archives :: archives where
  "told_archives = [((''t1'', ''r1''), [(''composition-input.json'', canonical_json (JDict failed_input)), (''composition-result.json'', ''x''),
     (''task-snapshot/task.md'', ''t''), (''delivery-request.json'', dumps_compact told_request)])]"

definition sealing_reader :: message_reader where
  "sealing_reader = plain_reader\<lparr>mr_sha := (\<lambda>s. if starts ''task.md'' s then ''v1'' else ''h''), mr_max := 30000000\<rparr>"

definition told_entry :: dict where
  "told_entry = [(''task_id'', JStr ''t1''), (''series_id'', JStr ''s''), (''run_id'', JStr ''r1''), (''parent_run_id'', JNull),
     (''task_version_hash'', JStr ''v1''), (''composition_revision'', JInt 1), (''handoff_id'', JStr ''h1''), (''delivery_request_sha256'', JStr ''h''),
     (''body_sha256'', JDict [(''html'', JStr ''h''), (''text'', JStr ''h'')]), (''record_bindings'', JList []), (''status'', JStr ''unresolved''),
     (''receipt_id'', JNull), (''receipt_sha256'', JNull), (''bootstrap'', JBool True)]"

lemma told_verified: "verified_message sealing_reader told_archives told_version told_handoff (JStr ''s'') told_db = Inr told_entry"
  by code_simp

lemma told_size:
  "envelope_size (new_history ''t1'' (JStr ''s'') (sample_run ''r2'' ''t1'')\<lparr>hi_entries := [told_entry]\<rparr>) \<le> MAX_HISTORY_BYTES - 1024"
  by code_simp

lemma told_rows:
  "handoff_series told_handoff told_db = Inr (Some told_version, JStr ''s'')" "history_handoffs ''t1'' ''r2'' told_db = [told_handoff]"
  by code_simp+

lemma told_history:
  "build_delivery_history sealing_reader told_archives ''t1'' (sample_run ''r2'' ''t1'') [(''series_id'', JStr ''s'')] told_db
    = Inr (new_history ''t1'' (JStr ''s'') (sample_run ''r2'' ''t1'')\<lparr>hi_entries := [told_entry]\<rparr>)"
proof -
  let ?x = "new_history ''t1'' (JStr ''s'') (sample_run ''r2'' ''t1'')"
  have row: "row_result sealing_reader told_archives (JStr ''s'') told_handoff told_db = Inr (Found told_entry)"
    by (simp add: row_result_def told_rows told_verified)
  have new: "hi_entries ?x = []" "run_id (sample_run ''r2'' ''t1'') = ''r2''" by (simp_all add: new_history_def sample_run_def)
  have "history_rows sealing_reader told_archives (JStr ''s'') [told_handoff] [] ?x told_db = Inr (?x\<lparr>hi_entries := [told_entry]\<rparr>)"
    using told_size by (simp add: row new Let_def)
  moreover from told_size have "bounded_history (?x\<lparr>hi_entries := [told_entry]\<rparr>) = Inr (?x\<lparr>hi_entries := [told_entry]\<rparr>)"
    by (simp add: bounded_history_def)
  ultimately show ?thesis by (simp add: build_delivery_history_def dsub_def told_rows new(2) MAX_HISTORY_ENTRIES_def)
qed

theorem delivery_history_faithful_witness:
  "\<exists>x e v s. build_delivery_history sealing_reader told_archives ''t1'' (sample_run ''r2'' ''t1'') [(''series_id'', JStr ''s'')] told_db = Inr x
     \<and> hi_entries x = [e] \<and> version_series v = Inr s \<and> pyeq s (JStr ''s'') \<and> verified_message sealing_reader told_archives v told_handoff (JStr ''s'') told_db = Inr e"
proof -
  have entries: "hi_entries (new_history ''t1'' (JStr ''s'') (sample_run ''r2'' ''t1'')\<lparr>hi_entries := [told_entry]\<rparr>) = [told_entry]" by simp
  have only: "h = told_handoff" if "in_history ''t1'' (run_id (sample_run ''r2'' ''t1'')) told_db h" for h
    using that by (simp add: in_history_def told_db_def)
  have series: "JStr ''s'' = dget [(''series_id'', JStr ''s'')] ''series_id''" by (simp add: dget_def)
  from delivery_history_faithful [OF told_history series] only entries told_history show ?thesis by (metis list.set_intros(1))
qed

end
