(* ===== verification/Composition.thy ===== *)
theory Composition imports Artifact_Integrity Run_Archive begin

text \<open>
  What enters the composition of a message: the operator's research dates and their reuse by a retry
  (\<open>engine/research_context.py\<close>), the technical gate on the research output
  (\<open>engine/technical_gate.py\<close>) and the immutable composition input
  (\<open>engine/composition_input.py\<close>). The JSON schema validator, SHA-256 and \<open>str\<close> of
  values that are not strings are parameters; dates are read in the extended ISO format.
\<close>

section \<open>Research dates\<close>

definition ISSUERS :: "string list" where
  "ISSUERS = [''woori'', ''shinhan'', ''kb'', ''samsung'', ''hyundai'', ''hana'', ''lotte'', ''bc'']"

text \<open>\<open>date.fromisoformat\<close>: the days since 1970-01-01, and back.\<close>

definition date_of :: "string \<Rightarrow> int option" where
  "date_of s = (if length s \<noteq> 10 then None else (case fromiso s of Some (Naive t) \<Rightarrow> Some (t div day_usec) | _ \<Rightarrow> None))"

definition date_text :: "int \<Rightarrow> string" where "date_text n = take 10 (isoformat (n * day_usec))"

definition first_date :: int where "first_date = days_of_civil 1 1 1"

definition series_char :: "char \<Rightarrow> bool" where
  "series_char c = (c \<in> set ''abcdefghijklmnopqrstuvwxyz0123456789_-'')"

definition series_name :: "json \<Rightarrow> bool" where
  "series_name v = (case v of JStr (c # s) \<Rightarrow> series_char c \<and> c \<notin> set ''_-'' \<and> list_all series_char s \<and> length s \<le> 63 | _ \<Rightarrow> False)"

definition issuers_ok :: "json \<Rightarrow> bool" where
  "issuers_ok v = (case v of JList xs \<Rightarrow> xs \<noteq> [] \<and> length xs \<le> 8 \<and> list_all (\<lambda>x. str_in x ISSUERS) xs \<and> distinct xs | _ \<Rightarrow> False)"

definition reference_ok :: "int \<Rightarrow> json \<Rightarrow> bool" where
  "reference_ok days v = (case v of JNull \<Rightarrow> True
     | JStr s \<Rightarrow> (case date_of s of None \<Rightarrow> False | Some n \<Rightarrow> first_date \<le> n - (days - 1)) | _ \<Rightarrow> False)"

definition validate_context_config :: "json \<Rightarrow> unit res" where
  "validate_context_config v = (case v of
     JNull \<Rightarrow> Inr ()
   | JDict c \<Rightarrow> (case dget c ''enabled'' of
       JBool on \<Rightarrow>
         and_then (check (keys_within c [''enabled'', ''active_issuers'', ''reference_date'', ''lookback_days'', ''series_id'', ''delivery_history''])
           (ValidationError ''unknown setting'')) (\<lambda>_.
         if \<not> on then Inr () else
         and_then (check (issuers_ok (dget c ''active_issuers'')) (ValidationError ''active_issuers'')) (\<lambda>_.
         (case dget c ''lookback_days'' of
            JInt days \<Rightarrow> and_then (check (1 \<le> days \<and> days \<le> 3660) (ValidationError ''lookback_days'')) (\<lambda>_.
              and_then (check (series_name (dget c ''series_id'')) (ValidationError ''series_id'')) (\<lambda>_.
              and_then (check (reference_ok days (dget c ''reference_date'')) (ValidationError ''reference_date'')) (\<lambda>_.
                check (case get_or c ''delivery_history'' (JBool False) of JBool b \<Rightarrow> True | _ \<Rightarrow> False) (ValidationError ''delivery_history''))))
          | _ \<Rightarrow> Inl (ValidationError ''lookback_days''))))
     | _ \<Rightarrow> Inl (ValidationError ''enabled''))
   | _ \<Rightarrow> Inl (ValidationError ''enabled''))"

definition context_config :: "dict \<Rightarrow> json res" where
  "context_config def = (let state = dget def ''state'' in if truthy state then getk state ''research_context'' else Inr JNull)"

definition parent_json :: "run_row \<Rightarrow> json" where
  "parent_json r = (case run_parent r of None \<Rightarrow> JNull | Some p \<Rightarrow> JStr p)"

text \<open>The window of dates: it ends on the reference date and has \<open>lookback_days\<close> days.\<close>

definition context_window :: "dict \<Rightarrow> run_row \<Rightarrow> (int \<times> int) res" where
  "context_window c r = (let text = (case dget c ''reference_date'' of JStr s \<Rightarrow> if s = [] then run_local_date r else s | _ \<Rightarrow> run_local_date r);
       days = default 0 (as_int (dget c ''lookback_days'')) in
     (case date_of text of None \<Rightarrow> Inl (HardGateError ''date range'')
      | Some n \<Rightarrow> if n - (days - 1) < first_date then Inl (HardGateError ''date range'') else Inr (n - (days - 1), n)))"

definition context_of :: "dict \<Rightarrow> run_row \<Rightarrow> dict \<Rightarrow> int \<times> int \<Rightarrow> dict" where
  "context_of def r c w = [(''schema_version'', JInt 1), (''task_id'', dget def ''id''), (''task_version_hash'', JStr (run_version r)),
     (''origin_run_id'', JStr (run_id r)), (''parent_run_id'', parent_json r), (''logical_date'', JStr (run_local_date r)),
     (''timezone'', JStr ''Asia/Seoul''), (''active_issuers'', dget c ''active_issuers''), (''series_id'', dget c ''series_id''),
     (''reference_date'', JStr (date_text (snd w))),
     (''reference_date_source'', JStr (if truthy (dget c ''reference_date'') then ''task_override'' else ''logical_date'')),
     (''lookback_days'', dget c ''lookback_days''), (''start_date'', JStr (date_text (fst w))), (''end_date'', JStr (date_text (snd w))),
     (''bounds'', JStr ''inclusive''), (''data_basis'', JStr ''current_snapshot_filtered_by_launch_date'')]"

definition build_research_context :: "dict \<Rightarrow> run_row \<Rightarrow> dict option res" where
  "build_research_context def r = and_then (context_config def) (\<lambda>config. and_then (validate_context_config config) (\<lambda>_. case config of
     JDict c \<Rightarrow> if c = [] \<or> dget c ''enabled'' \<noteq> JBool True then Inr None
       else if \<not> pyeq (dget def ''id'') (JStr (run_task r)) \<or> run_timezone r \<noteq> ''Asia/Seoul'' then Inl (HardGateError ''task or timezone'')
       else and_then (context_window c r) (\<lambda>w. Inr (Some (context_of def r c w)))
   | _ \<Rightarrow> Inr None))"

definition without_origin :: "dict \<Rightarrow> dict" where
  "without_origin d = filter (\<lambda>(k, v). k \<notin> {''origin_run_id'', ''parent_run_id''}) d"

definition validate_reused_context :: "json \<Rightarrow> dict \<Rightarrow> run_row \<Rightarrow> dict res" where
  "validate_reused_context v def r = and_then (build_research_context def r) (\<lambda>m. case (m, v) of
     (Some expected, JDict d) \<Rightarrow> if pyeq (JDict (without_origin d)) (JDict (without_origin expected)) then Inr d else Inl (HardGateError ''parent context'')
   | _ \<Rightarrow> Inl (HardGateError ''parent context''))"

text \<open>The walk of a retry to the run that first had the context; at most 128 parents.\<close>

definition has_context :: "archives \<Rightarrow> run_row \<Rightarrow> bool" where
  "has_context ars r = (case map_of ars (run_task r, run_id r) of None \<Rightarrow> False | Some files \<Rightarrow> map_of files ''research-context.json'' \<noteq> None)"

fun origin_walk :: "nat \<Rightarrow> archives \<Rightarrow> run_row \<Rightarrow> run_row \<Rightarrow> string list \<Rightarrow> run_row option \<Rightarrow> db \<Rightarrow> run_row option res" where
  "origin_walk 0 ars r current visited origin d = Inl (HardGateError ''ancestry limit'')"
| "origin_walk (Suc n) ars r current visited origin d = (if default [] (run_parent current) = [] then Inr origin
     else (case find_run (default [] (run_parent current)) d of None \<Rightarrow> Inl (HardGateError ''parent identity'')
       | Some p \<Rightarrow> if run_id p \<in> set visited \<or> run_task p \<noteq> run_task r \<or> run_version p \<noteq> run_version r \<or> run_local_date p \<noteq> run_local_date r
             \<or> run_due p \<noteq> run_due r then Inl (HardGateError ''parent identity'')
           else origin_walk n ars r p (run_id p # visited) (if has_context ars p then Some p else origin) d))"

definition validate_retry_origin :: "archives \<Rightarrow> dict \<Rightarrow> run_row \<Rightarrow> db \<Rightarrow> unit res" where
  "validate_retry_origin ars v r d = and_then (origin_walk 128 ars r r [run_id r] None d) (\<lambda>m. case m of
     None \<Rightarrow> Inl (HardGateError ''retry origin'')
   | Some p \<Rightarrow> check (pyeq (dget v ''origin_run_id'') (JStr (run_id p)) \<and> pyeq (dget v ''parent_run_id'') (parent_json p)) (HardGateError ''retry origin''))"

section \<open>The technical gate\<close>

record gate =
  tg_sha :: "string \<Rightarrow> string"
  tg_str :: "json \<Rightarrow> string"
  tg_envelope_ok :: "json \<Rightarrow> bool"
  tg_lint :: "json \<Rightarrow> string list"

record research =
  rx_status :: json
  rx_summary :: json
  rx_records :: "dict list"
  rx_coverage :: dict
  rx_warnings :: "string list"
  rx_raw :: string
  rx_artifacts :: "json list"

definition py_str :: "gate \<Rightarrow> json \<Rightarrow> string" where
  "py_str g v = (case v of JStr s \<Rightarrow> s | _ \<Rightarrow> tg_str g v)"

text \<open>\<open>x or y\<close>\<close>

definition or_json :: "json \<Rightarrow> json \<Rightarrow> json" where "or_json a b = (if truthy a then a else b)"

definition generated_id :: "gate \<Rightarrow> nat \<Rightarrow> dict \<Rightarrow> string" where
  "generated_id g i r = ''record-'' @ int_text (int i + 1) @ ''-'' @ take 24 (tg_sha g (jtext False '', '' '': '' (canon (JDict r))))"

definition with_id :: "gate \<Rightarrow> nat \<Rightarrow> dict \<Rightarrow> dict" where
  "with_id g i r = (if map_of r ''record_id'' = None then r @ [(''record_id'', JStr (generated_id g i r))] else r)"

fun gate_records :: "gate \<Rightarrow> nat \<Rightarrow> json list \<Rightarrow> string list \<Rightarrow> dict list res" where
  "gate_records g i [] ids = Inr []"
| "gate_records g i (v # vs) ids = (case v of
     JDict r \<Rightarrow> (case dget (with_id g i r) ''record_id'' of
         JStr k \<Rightarrow> if strip k = [] \<or> k \<in> set ids then Inl (HardGateError ''record IDs'')
           else and_then (gate_records g (Suc i) vs (k # ids)) (\<lambda>rs. Inr (with_id g i r # rs))
       | _ \<Rightarrow> Inl (HardGateError ''record IDs''))
   | _ \<Rightarrow> Inl (HardGateError ''record is not an object''))"

text \<open>A coverage given as a list of targets.\<close>

definition checked :: "dict \<Rightarrow> bool" where "checked t = (dget t ''status'' = JStr ''checked'')"

definition blocked :: "dict \<Rightarrow> json" where
  "blocked t = JStr (if dget t ''status'' = JStr ''blocked'' then ''blocked'' else ''unavailable'')"

definition listed_coverage :: "gate \<Rightarrow> json list \<Rightarrow> dict" where
  "listed_coverage g xs = (let targets = concat (map (\<lambda>x. case x of JDict t \<Rightarrow> [t] | _ \<Rightarrow> []) xs); finished = length (filter checked targets) in
     [(''complete'', JBool (targets \<noteq> [] \<and> finished = length xs)), (''expected_target_count'', JInt (int (length xs))),
      (''completed_target_count'', JInt (int finished)),
      (''issues'', JList (map (\<lambda>t. JDict [(''target'', JStr (py_str g (or_json (dget t ''target'') (JStr ''unknown'')))), (''status'', blocked t),
         (''notes'', JStr (py_str g (or_json (dget t ''notes'') (JStr ''Not checked''))))]) (filter (\<lambda>t. \<not> checked t) targets)))])"

definition malformed_coverage :: "nat \<Rightarrow> dict" where
  "malformed_coverage n = [(''complete'', JBool False), (''expected_target_count'', JInt (int n)), (''completed_target_count'', JInt (int n)),
     (''issues'', JList [JDict [(''target'', JStr ''unknown''), (''status'', JStr ''unavailable''), (''notes'', JStr ''Malformed coverage object'')]])]"

definition raw_coverage :: "gate \<Rightarrow> json \<Rightarrow> nat \<Rightarrow> dict \<times> string list" where
  "raw_coverage g v n = (case (case v of JList xs \<Rightarrow> JDict (listed_coverage g xs) | x \<Rightarrow> x) of
     JDict c \<Rightarrow> (c, if truthy (get_or c ''complete'' (JBool False)) then [] else [''Coverage report indicates incomplete target research.''])
   | _ \<Rightarrow> (malformed_coverage n, [''Research output provided malformed coverage object; normalized.'']))"

definition count_value :: "dict \<Rightarrow> string \<Rightarrow> int option" where
  "count_value c name = (case dget c name of JInt n \<Rightarrow> if n < 0 then None else Some n | _ \<Rightarrow> None)"

definition count_warning :: "dict \<Rightarrow> string \<Rightarrow> string list" where
  "count_warning c name = (if count_value c name = None then [''Coverage '' @ name @ '' missing or invalid; marked incomplete.''] else [])"

definition normalized_issue :: "gate \<Rightarrow> dict \<Rightarrow> json" where
  "normalized_issue g t = JDict [(''target'', JStr (py_str g (or_json (dget t ''target'') (JStr ''unknown'')))), (''status'', blocked t),
     (''notes'', case dget t ''notes'' of JNull \<Rightarrow> JNull | v \<Rightarrow> JStr (py_str g v))]"

definition normalized_coverage :: "gate \<Rightarrow> dict \<Rightarrow> dict \<times> string list" where
  "normalized_coverage g c = (let expected = count_value c ''expected_target_count''; completed = count_value c ''completed_target_count'';
       listed = (case get_or c ''issues'' (JList []) of JList xs \<Rightarrow> Some xs | _ \<Rightarrow> None); xs = default [] listed;
       issues = concat (map (\<lambda>x. case x of JDict t \<Rightarrow> [normalized_issue g t] | _ \<Rightarrow> []) xs);
       ok = ((case dget c ''complete'' of JBool b \<Rightarrow> True | _ \<Rightarrow> False) \<and> expected \<noteq> None \<and> completed \<noteq> None \<and> listed \<noteq> None \<and> list_all is_dict xs) in
     ([(''complete'', JBool (ok \<and> dget c ''complete'' = JBool True \<and> default 0 completed = default 0 expected \<and> issues = [])),
       (''expected_target_count'', JInt (default 0 expected)), (''completed_target_count'', JInt (default 0 completed)), (''issues'', JList issues)],
      count_warning c ''expected_target_count'' @ count_warning c ''completed_target_count''
      @ (if listed = None then [''Malformed coverage issues preserved in raw result.''] else [])
      @ map (\<lambda>_. ''Malformed coverage issue preserved in raw result.'') (filter (\<lambda>x. \<not> is_dict x) xs)))"

definition given_warnings :: "gate \<Rightarrow> dict \<Rightarrow> string list" where
  "given_warnings g data = (case or_json (dget data ''warnings'') (JList []) of JList ws \<Rightarrow> map (py_str g) ws
     | _ \<Rightarrow> [''Malformed warnings metadata preserved in raw result.''])"

definition given_artifacts :: "dict \<Rightarrow> json list \<times> string list" where
  "given_artifacts data = (case or_json (dget data ''artifacts'') (JList []) of JList xs \<Rightarrow> (xs, [])
     | _ \<Rightarrow> ([], [''Malformed optional artifact metadata preserved in raw result.'']))"

definition research_of :: "gate \<Rightarrow> string \<Rightarrow> dict \<Rightarrow> dict list \<Rightarrow> research" where
  "research_of g raw data records = (let cw = raw_coverage g (dget data ''coverage'') (length records); nw = normalized_coverage g (fst cw);
       aw = given_artifacts data in
     \<lparr>rx_status = dget data ''status'', rx_summary = get_or data ''summary'' (JStr []), rx_records = records, rx_coverage = fst nw,
      rx_warnings = given_warnings g data @ tg_lint g (JDict data) @ snd cw @ snd nw @ snd aw, rx_raw = raw, rx_artifacts = fst aw\<rparr>)"

text \<open>\<open>validate_research_output\<close>; the warnings of the result are the second value it returns.\<close>

definition validate_research_output :: "gate \<Rightarrow> string \<Rightarrow> research res" where
  "validate_research_output g raw = (case strict_json_loads raw 20000000 of
     Inl er \<Rightarrow> (case er of ValueError m \<Rightarrow> Inl (HardGateError ''not valid JSON'') | _ \<Rightarrow> Inl er)
   | Inr (JDict data) \<Rightarrow> and_then (check (tg_envelope_ok g (JDict data)) (HardGateError ''envelope'')) (\<lambda>_.
       (case get_or data ''records'' (JList []) of
          JList rs \<Rightarrow> and_then (gate_records g 0 rs []) (\<lambda>records. Inr (research_of g raw data records))
        | _ \<Rightarrow> Inl (HardGateError ''records'')))
   | Inr _ \<Rightarrow> Inl (HardGateError ''root must be an object''))"

section \<open>The composition input\<close>

record composer =
  cb_record_ok :: "json \<Rightarrow> json \<Rightarrow> bool"
  cb_input_ok :: "json \<Rightarrow> bool"

record composition_request =
  cr_records :: "dict list"
  cr_inline :: "dict list"
  cr_attachments :: "json list"
  cr_revision :: int
  cr_schema :: json
  cr_groups :: "dict list"
  cr_report :: "dict option"
  cr_context :: "dict option"
  cr_history :: "dict option"

definition opt_dict :: "dict option \<Rightarrow> json" where
  "opt_dict m = (case m of None \<Rightarrow> JNull | Some d \<Rightarrow> JDict d)"

text \<open>The recipients a message may have: the routing mode, the groups and their identifiers.\<close>

definition routing_groups :: "dict \<Rightarrow> dict list \<Rightarrow> (string \<times> json \<times> json) res" where
  "routing_groups def groups = and_then (routing_mode def) (\<lambda>mode. if mode = ''catalog_name''
     then and_then (validate_snapshot (JList (map JDict groups))) (\<lambda>ids. Inr (mode, JList (map JDict groups), JList (map JStr ids)))
     else and_then (dict_default def ''delivery'') (\<lambda>delivery.
       and_then (iter_json (get_or delivery ''allowed_recipient_group_ids'' (JList []))) (\<lambda>ids. Inr (mode, JList [], JList ids))))"

definition context_guards :: "dict \<Rightarrow> run_row \<Rightarrow> research \<Rightarrow> composition_request \<Rightarrow> unit res" where
  "context_guards def r x q =
     and_then (check (str_in (rx_status x) [''success'', ''no_updates'', ''partial'']) (HardGateError ''research status'')) (\<lambda>_.
     and_then (check (pyeq (dget def ''id'') (JStr (run_task r)) \<and> run_timezone r = ''Asia/Seoul'') (HardGateError ''task or timezone'')) (\<lambda>_.
     and_then (case cr_context q of None \<Rightarrow> Inr [] | Some c \<Rightarrow> validate_reused_context (JDict c) def r) (\<lambda>_.
       case cr_history q of None \<Rightarrow> Inr ()
       | Some h \<Rightarrow> (case cr_context q of None \<Rightarrow> Inl (HardGateError ''delivery history'')
           | Some c \<Rightarrow> if \<not> pyeq (dget h ''task_id'') (dget def ''id'') then Inl (HardGateError ''delivery history'')
               else and_then (dsub c ''series_id'') (\<lambda>s. check (pyeq (dget h ''series_id'') s) (HardGateError ''delivery history''))))))"

definition record_ids_ok :: "dict list \<Rightarrow> bool" where
  "record_ids_ok rs = (let ids = map (\<lambda>r. dget r ''record_id'') rs in
     list_all (\<lambda>v. case v of JStr s \<Rightarrow> s \<noteq> [] | _ \<Rightarrow> False) ids \<and> distinct ids)"

text \<open>\<open>len(values) == len(set(values))\<close>\<close>

fun distinct_values :: "json list \<Rightarrow> json list \<Rightarrow> bool res" where
  "distinct_values acc [] = Inr True"
| "distinct_values acc (v # vs) = and_then (hash_in v acc) (\<lambda>dup. and_then (distinct_values (v # acc) vs) (\<lambda>rest. Inr (\<not> dup \<and> rest)))"

definition record_guards :: "composer \<Rightarrow> composition_request \<Rightarrow> unit res" where
  "record_guards cb q =
     and_then (check (record_ids_ok (cr_records q)) (HardGateError ''record IDs'')) (\<lambda>_.
     and_then (check (\<not> truthy (cr_schema q) \<or> list_all (\<lambda>r. cb_record_ok cb (cr_schema q) (JDict r)) (cr_records q)) (HardGateError ''record contract'')) (\<lambda>_.
     and_then (distinct_values [] (map (\<lambda>a. dget a ''cid'') (cr_inline q))) (\<lambda>ok. check ok (HardGateError ''inline artifact CID''))))"

definition date_display :: "run_row \<Rightarrow> string" where
  "date_display r = (if length (run_local_display r) \<noteq> 10 then map (\<lambda>c. if c = CHR ''-'' then CHR ''.'' else c) (run_local_date r)
     else run_local_display r)"

definition composition_of :: "dict \<Rightarrow> run_row \<Rightarrow> research \<Rightarrow> composition_request \<Rightarrow> string \<times> json \<times> json \<Rightarrow> dict" where
  "composition_of def r x q g = (case g of (mode, groups, allowed) \<Rightarrow>
     [(''task_id'', dget def ''id''), (''run_id'', JStr (run_id r)), (''task_version_hash'', JStr (run_version r)),
      (''composition_revision'', JInt (cr_revision q)),
      (''run'', JDict [(''scheduled_for'', JStr (isoformat (run_due r))), (''timezone'', JStr (run_timezone r)), (''local_date'', JStr (run_local_date r)),
         (''local_date_display'', JStr (date_display r))]),
      (''result'', JDict [(''status'', rx_status x), (''summary'', rx_summary x), (''warnings'', JList (map JStr (rx_warnings x)))]),
      (''coverage'', JDict (rx_coverage x)), (''allowed_recipient_group_ids'', allowed), (''reportable_records'', JList (map JDict (cr_records q))),
      (''inline_artifacts'', JList (map JDict (cr_inline q))), (''attachments'', JList (cr_attachments q)),
      (''schema_version'', JInt (if cr_report q \<noteq> None then 4 else if mode = ''catalog_name'' then 3 else 2)),
      (''recipient_routing_mode'', JStr mode), (''recipient_groups'', groups), (''artifact_report'', opt_dict (cr_report q)),
      (''research_context'', opt_dict (cr_context q)), (''delivery_history'', opt_dict (cr_history q))])"

definition build_composition_input :: "composer \<Rightarrow> dict \<Rightarrow> run_row \<Rightarrow> research \<Rightarrow> composition_request \<Rightarrow> dict res" where
  "build_composition_input cb def r x q = and_then (routing_groups def (cr_groups q)) (\<lambda>g.
     and_then (context_guards def r x q) (\<lambda>_.
     and_then (record_guards cb q) (\<lambda>_. let c = composition_of def r x q g in
     and_then (check (cb_input_ok cb (JDict (composition_to_dict c))) (HardGateError ''composition input schema'')) (\<lambda>_.
     and_then (if cr_report q \<noteq> None then validate_artifact_contract c else Inr ()) (\<lambda>_. Inr c)))))"


section \<open>What the gate keeps\<close>

definition stable_record :: "gate \<Rightarrow> nat \<Rightarrow> json \<Rightarrow> dict \<Rightarrow> bool" where
  "stable_record g i v r = (v = JDict r \<or> (\<exists>raw. v = JDict raw \<and> map_of raw ''record_id'' = None
     \<and> r = raw @ [(''record_id'', JStr (generated_id g i raw))]))"

lemma gate_records_stable:
  assumes "gate_records g i vs ids = Inr rs"
  shows "length rs = length vs \<and> (\<forall>j < length vs. stable_record g (i + j) (vs ! j) (rs ! j))"
  using assms
proof (induction vs arbitrary: i ids rs)
  case (Cons v vs)
  from Cons.prems obtain r rs' k where v: "v = JDict r" "rs = with_id g i r # rs'" "gate_records g (Suc i) vs (k # ids) = Inr rs'"
    by (auto simp: and_then_Inr split: json.splits if_splits)
  have h: "stable_record g i v (with_id g i r)" by (auto simp: v(1) stable_record_def with_id_def)
  from Cons.IH [OF v(3)] have l: "length rs' = length vs" and t: "j < length vs \<Longrightarrow> stable_record g (Suc i + j) (vs ! j) (rs' ! j)" for j by simp_all
  have "stable_record g (i + j) ((v # vs) ! j) (rs ! j)" if "j < length (v # vs)" for j
    using that h t by (cases j) (simp_all add: v(2))
  with l show ?case by (simp add: v(2))
qed simp

lemma gate_records_ids:
  assumes "gate_records g i vs ids = Inr rs"
  shows "distinct (map (\<lambda>r. dget r ''record_id'') rs) \<and> (\<forall>r \<in> set rs. \<exists>k. dget r ''record_id'' = JStr k \<and> strip k \<noteq> [] \<and> k \<notin> set ids)"
  using assms
proof (induction vs arbitrary: i ids rs)
  case (Cons v vs)
  from Cons.prems obtain r rs' k where v: "rs = with_id g i r # rs'" "gate_records g (Suc i) vs (k # ids) = Inr rs'"
      "dget (with_id g i r) ''record_id'' = JStr k" "strip k \<noteq> []" "k \<notin> set ids"
    by (auto simp: and_then_Inr split: json.splits if_splits)
  from Cons.IH [OF v(2)] v show ?case by fastforce
qed simp

lemma validate_research_output_parts:
  assumes "validate_research_output g raw = Inr x"
  obtains (parts) data rs where "strict_json_loads raw 20000000 = Inr (JDict data)" "tg_envelope_ok g (JDict data)"
    "get_or data ''records'' (JList []) = JList rs" "gate_records g 0 rs [] = Inr (rx_records x)"
    "rx_coverage x = fst (normalized_coverage g (fst (raw_coverage g (dget data ''coverage'') (length (rx_records x)))))"
    "rx_status x = dget data ''status'' \<and> rx_raw x = raw"
  using assms unfolding validate_research_output_def
  by (auto simp: and_then_Inr check_Inr research_of_def Let_def split: sum.splits err.splits json.splits)

text \<open>A coverage is only called complete when the worker's own one was.\<close>

definition complete_coverage :: "json \<Rightarrow> bool" where
  "complete_coverage v = (case v of
     JDict c \<Rightarrow> dget c ''complete'' = JBool True \<and> count_value c ''expected_target_count'' \<noteq> None
       \<and> count_value c ''completed_target_count'' = count_value c ''expected_target_count''
   | JList xs \<Rightarrow> xs \<noteq> [] \<and> list_all (\<lambda>t. case t of JDict d \<Rightarrow> checked d | _ \<Rightarrow> False) xs
   | _ \<Rightarrow> False)"

lemma normalized_complete:
  assumes "dget (fst (normalized_coverage g c)) ''complete'' = JBool True"
  shows "complete_coverage (JDict c) \<and> dget (fst (normalized_coverage g c)) ''issues'' = JList []"
  using assms unfolding normalized_coverage_def complete_coverage_def
  by (auto simp: Let_def dget_def)

lemma checked_targets:
  "length (filter checked (concat (map (\<lambda>x. case x of JDict t \<Rightarrow> [t] | _ \<Rightarrow> []) xs))) \<le> length xs
   \<and> (length (filter checked (concat (map (\<lambda>x. case x of JDict t \<Rightarrow> [t] | _ \<Rightarrow> []) xs))) = length xs
      \<longrightarrow> list_all (\<lambda>t. case t of JDict d \<Rightarrow> checked d | _ \<Rightarrow> False) xs)"
  by (induction xs) (auto split: json.splits)

lemma raw_complete:
  assumes "complete_coverage (JDict (fst (raw_coverage g v n)))"
  shows "complete_coverage v"
proof (cases v)
  case (JList xs)
  with assms have "length (filter checked (concat (map (\<lambda>x. case x of JDict t \<Rightarrow> [t] | _ \<Rightarrow> []) xs))) = length xs"
      "concat (map (\<lambda>x. case x of JDict t \<Rightarrow> [t] | _ \<Rightarrow> []) xs) \<noteq> []"
    by (simp_all add: raw_coverage_def complete_coverage_def listed_coverage_def dget_def Let_def)
  with checked_targets [of xs] JList show ?thesis by (auto simp: complete_coverage_def)
qed (use assms in \<open>auto simp: raw_coverage_def complete_coverage_def malformed_coverage_def dget_def\<close>)

text \<open>C38: the technical gate drops nothing and invents nothing. The output it accepts is one strict JSON
  object; every record of it is kept, in its place, as it was or with an identifier generated from its
  own content where it had none; the identifiers are nonblank strings, all different; and the coverage
  is called complete only when the worker's own one was, with equal counts and no open issue.\<close>

theorem technical_gate_keeps_records:
  assumes "validate_research_output g raw = Inr x"
  shows "\<exists>data rs. strict_json_loads raw 20000000 = Inr (JDict data) \<and> get_or data ''records'' (JList []) = JList rs
    \<and> length (rx_records x) = length rs \<and> (\<forall>j < length rs. stable_record g j (rs ! j) (rx_records x ! j))
    \<and> distinct (map (\<lambda>r. dget r ''record_id'') (rx_records x))
    \<and> (\<forall>r \<in> set (rx_records x). \<exists>k. dget r ''record_id'' = JStr k \<and> strip k \<noteq> [])
    \<and> (dget (rx_coverage x) ''complete'' = JBool True \<longrightarrow> complete_coverage (dget data ''coverage'') \<and> dget (rx_coverage x) ''issues'' = JList [])"
proof -
  from assms obtain data rs where p: "strict_json_loads raw 20000000 = Inr (JDict data)" "get_or data ''records'' (JList []) = JList rs"
      "gate_records g 0 rs [] = Inr (rx_records x)"
      "rx_coverage x = fst (normalized_coverage g (fst (raw_coverage g (dget data ''coverage'') (length (rx_records x)))))"
    by (rule validate_research_output_parts)
  from gate_records_stable [OF p(3)] have a: "length (rx_records x) = length rs" "\<forall>j < length rs. stable_record g j (rs ! j) (rx_records x ! j)" by simp_all
  from gate_records_ids [OF p(3)] have b: "distinct (map (\<lambda>r. dget r ''record_id'') (rx_records x))"
      "\<forall>r \<in> set (rx_records x). \<exists>k. dget r ''record_id'' = JStr k \<and> strip k \<noteq> []" by auto
  have c: "complete_coverage (dget data ''coverage'') \<and> dget (rx_coverage x) ''issues'' = JList []" if "dget (rx_coverage x) ''complete'' = JBool True"
    using normalized_complete [OF that [unfolded p(4)]] raw_complete p(4) by metis
  from p(1,2) a b c show ?thesis by blast
qed

definition plain_gate :: gate where
  "plain_gate = \<lparr>tg_sha = \<lambda>s. s, tg_str = \<lambda>v. ''?'', tg_envelope_ok = \<lambda>v. True, tg_lint = \<lambda>v. []\<rparr>"

definition sample_output :: string where
  "sample_output = jtext False '','' '':'' (JDict [(''status'', JStr ''success''), (''records'', JList [JDict [(''a'', JInt 1)], JDict [(''record_id'', JStr ''b'')]]),
     (''coverage'', JList [JDict [(''status'', JStr ''checked'')]])])"

lemma sample_gate: "case validate_research_output plain_gate sample_output of
    Inr x \<Rightarrow> length (rx_records x) = 2 \<and> dget (rx_coverage x) ''complete'' = JBool True | Inl er \<Rightarrow> False"
  by code_simp

theorem technical_gate_keeps_records_witness:
  "\<exists>x data. validate_research_output plain_gate sample_output = Inr x \<and> length (rx_records x) = 2
     \<and> strict_json_loads sample_output 20000000 = Inr (JDict data) \<and> complete_coverage (dget data ''coverage'')"
proof -
  from sample_gate obtain x where x: "validate_research_output plain_gate sample_output = Inr x" "length (rx_records x) = 2"
      "dget (rx_coverage x) ''complete'' = JBool True" by (auto split: sum.splits)
  from technical_gate_keeps_records [OF x(1)] x show ?thesis by blast
qed


section \<open>What a composition input holds\<close>

lemma validate_context_window:
  assumes "validate_context_config (JDict c) = Inr ()" "dget c ''enabled'' = JBool True"
  shows "\<exists>days. dget c ''lookback_days'' = JInt days \<and> 1 \<le> days \<and> days \<le> 3660"
  using assms by (cases "dget c ''lookback_days''") (simp_all add: validate_context_config_def and_then_Inr check_Inr)

lemma build_context_parts:
  assumes "build_research_context def r = Inr (Some k)"
  obtains (built) c w where "context_config def = Inr (JDict c)" "validate_context_config (JDict c) = Inr ()" "dget c ''enabled'' = JBool True"
    "context_window c r = Inr w" "k = context_of def r c w"
proof -
  from assms obtain config where g: "context_config def = Inr config" by (cases "context_config def") (simp_all add: build_research_context_def)
  with assms have v: "validate_context_config config = Inr ()" by (cases "validate_context_config config") (simp_all add: build_research_context_def)
  from assms g v obtain c where c: "config = JDict c" by (cases config) (simp_all add: build_research_context_def)
  from assms obtain w where "dget c ''enabled'' = JBool True" "context_window c r = Inr w" "k = context_of def r c w"
    by (auto simp: build_research_context_def g v [unfolded c] c and_then_Inr simp del: pyeq.simps split: if_splits)
  with g v c show ?thesis by (intro built) simp_all
qed

lemma context_of_fields:
  "dget (context_of def r c w) ''start_date'' = JStr (date_text (fst w))" "dget (context_of def r c w) ''end_date'' = JStr (date_text (snd w))"
  "dget (context_of def r c w) ''lookback_days'' = dget c ''lookback_days''"
  "dget (context_of def r c w) ''series_id'' = dget c ''series_id''" "dget (context_of def r c w) ''active_issuers'' = dget c ''active_issuers''"
  by (simp_all add: context_of_def dget_def)

text \<open>C39: the research window of a run has exactly the number of days of the task's configuration,
  between 1 and 3660, ends on the configured reference date or else on the local date of the
  occurrence, and begins no earlier than the calendar does; the context names the configured
  number, series and issuers.\<close>

theorem research_window_exact:
  assumes "build_research_context def r = Inr (Some k)"
  shows "\<exists>c first last_day days. context_config def = Inr (JDict c) \<and> dget c ''lookback_days'' = JInt days \<and> 1 \<le> days \<and> days \<le> 3660
    \<and> dget k ''lookback_days'' = JInt days \<and> dget k ''series_id'' = dget c ''series_id'' \<and> dget k ''active_issuers'' = dget c ''active_issuers''
    \<and> dget k ''start_date'' = JStr (date_text first) \<and> dget k ''end_date'' = JStr (date_text last_day)
    \<and> last_day - first + 1 = days \<and> first_date \<le> first
    \<and> date_of (case dget c ''reference_date'' of JStr s \<Rightarrow> if s = [] then run_local_date r else s | _ \<Rightarrow> run_local_date r) = Some last_day"
proof -
  from assms obtain c w where c: "context_config def = Inr (JDict c)" "validate_context_config (JDict c) = Inr ()" "dget c ''enabled'' = JBool True"
      "context_window c r = Inr w" "k = context_of def r c w"
    by (rule build_context_parts)
  from validate_context_window [OF c(2,3)] obtain days where days: "dget c ''lookback_days'' = JInt days" "1 \<le> days" "days \<le> 3660" by blast
  from c(4) days(1) have "snd w - fst w + 1 = days" "first_date \<le> fst w"
      "date_of (case dget c ''reference_date'' of JStr s \<Rightarrow> if s = [] then run_local_date r else s | _ \<Rightarrow> run_local_date r) = Some (snd w)"
    unfolding context_window_def by (auto simp: Let_def split: option.splits if_splits)
  with c days show ?thesis unfolding c(5) context_of_fields by blast
qed

definition series_def :: dict where
  "series_def = [(''id'', JStr ''t1''), (''state'', JDict [(''research_context'', JDict [(''enabled'', JBool True), (''active_issuers'', JList [JStr ''kb'']),
     (''lookback_days'', JInt 30), (''series_id'', JStr ''s'')])]), (''delivery'', JDict [(''allowed_recipient_group_ids'', JList [JStr ''g''])])]"

definition series_run :: run_row where
  "series_run = (sample_run ''r1'' ''t1'')\<lparr>run_timezone := ''Asia/Seoul'', run_local_date := ''2026-03-31''\<rparr>"

definition series_config :: dict where
  "series_config = [(''enabled'', JBool True), (''active_issuers'', JList [JStr ''kb'']), (''lookback_days'', JInt 30), (''series_id'', JStr ''s'')]"

definition series_context :: dict where
  "series_context = context_of series_def series_run series_config (20514, 20543)"

lemma series_context_built: "build_research_context series_def series_run = Inr (Some series_context)"
proof -
  have "context_config series_def = Inr (JDict series_config)" by code_simp
  moreover have "validate_context_config (JDict series_config) = Inr ()" by code_simp
  moreover have "context_window series_config series_run = Inr (20514, 20543)" by code_simp
  moreover have "series_config \<noteq> []" "dget series_config ''enabled'' = JBool True" "dget series_def ''id'' = JStr (run_task series_run)"
      "run_timezone series_run = ''Asia/Seoul''"
    by code_simp+
  ultimately show ?thesis by (simp add: build_research_context_def series_context_def)
qed

lemma series_context_start: "dget series_context ''start_date'' = JStr ''2026-03-02''"
  by code_simp

theorem research_window_exact_witness:
  "\<exists>k first last_day days. build_research_context series_def series_run = Inr (Some k) \<and> dget k ''start_date'' = JStr ''2026-03-02''
     \<and> dget k ''lookback_days'' = JInt days \<and> dget k ''start_date'' = JStr (date_text first) \<and> last_day - first + 1 = days"
  using research_window_exact [OF series_context_built] series_context_built series_context_start by blast

lemma context_guards_facts:
  assumes "context_guards def r x q = Inr ()"
  shows "str_in (rx_status x) [''success'', ''no_updates'', ''partial''] \<and> dget def ''id'' = JStr (run_task r)
    \<and> (\<forall>k. cr_context q = Some k \<longrightarrow> (\<exists>e. build_research_context def r = Inr (Some e) \<and> pyeq (JDict (without_origin k)) (JDict (without_origin e))))
    \<and> (\<forall>h. cr_history q = Some h \<longrightarrow> (\<exists>k. cr_context q = Some k \<and> dget h ''task_id'' = JStr (run_task r) \<and> pyeq (dget h ''series_id'') (dget k ''series_id'')))"
  using assms unfolding context_guards_def validate_reused_context_def
  by (auto simp: and_then_Inr check_Inr dsub_def dget_def split: option.splits if_splits)

lemma composition_fields:
  "identity_of (composition_of def r x q (mode, groups, allowed)) = [(''task_id'', dget def ''id''), (''run_id'', JStr (run_id r)),
     (''task_version_hash'', JStr (run_version r)), (''composition_revision'', JInt (cr_revision q))]"
  "dget (composition_of def r x q (mode, groups, allowed)) ''reportable_records'' = JList (map JDict (cr_records q))"
  "dget (composition_of def r x q (mode, groups, allowed)) ''recipient_routing_mode'' = JStr mode"
  "dget (composition_of def r x q (mode, groups, allowed)) ''recipient_groups'' = groups"
  "dget (composition_of def r x q (mode, groups, allowed)) ''allowed_recipient_group_ids'' = allowed"
  "dget (composition_of def r x q (mode, groups, allowed)) ''research_context'' = opt_dict (cr_context q)"
  "dget (composition_of def r x q (mode, groups, allowed)) ''delivery_history'' = opt_dict (cr_history q)"
  "dget (composition_of def r x q (mode, groups, allowed)) ''artifact_report'' = opt_dict (cr_report q)"
  by (simp_all add: composition_of_def identity_of_def dget_def)

lemma routing_groups_snapshot:
  assumes "routing_groups def gs = Inr (''catalog_name'', groups, allowed)"
  shows "\<exists>ids. validate_snapshot groups = Inr ids \<and> allowed = JList (map JStr ids)"
  using assms unfolding routing_groups_def by (auto simp: and_then_Inr split: if_splits)

text \<open>The research context and the history of an input belong to its task, occurrence and series.\<close>

definition context_bound :: "dict \<Rightarrow> run_row \<Rightarrow> dict \<Rightarrow> bool" where
  "context_bound def r c = ((dget c ''research_context'' = JNull \<or> (\<exists>k e. dget c ''research_context'' = JDict k
       \<and> build_research_context def r = Inr (Some e) \<and> pyeq (JDict (without_origin k)) (JDict (without_origin e))))
     \<and> (dget c ''delivery_history'' = JNull \<or> (\<exists>h k. dget c ''delivery_history'' = JDict h \<and> dget c ''research_context'' = JDict k
       \<and> dget h ''task_id'' = JStr (run_task r) \<and> pyeq (dget h ''series_id'') (dget k ''series_id''))))"

text \<open>C40: the input a message is composed from is bound to its run and complete: it names the run, its task,
  version and revision, holds exactly the reportable records with nonempty identifiers that are all
  different, only for a research result with a status that may be composed, satisfies the schema and, with an
  artifact report, the contract of that report, allows exactly the recipients of the verified group
  snapshot, and its research context and delivery history are those of the task, the occurrence and
  the series.\<close>

theorem composition_input_sound:
  assumes "build_composition_input cb def r x q = Inr c"
  shows "identity_of c = [(''task_id'', JStr (run_task r)), (''run_id'', JStr (run_id r)), (''task_version_hash'', JStr (run_version r)),
       (''composition_revision'', JInt (cr_revision q))]
    \<and> dget c ''reportable_records'' = JList (map JDict (cr_records q)) \<and> record_ids_ok (cr_records q)
    \<and> str_in (rx_status x) [''success'', ''no_updates'', ''partial''] \<and> cb_input_ok cb (JDict (composition_to_dict c))
    \<and> (dget c ''artifact_report'' = JNull \<or> validate_artifact_contract c = Inr ())
    \<and> (dget c ''recipient_routing_mode'' = JStr ''catalog_name'' \<longrightarrow>
        (\<exists>ids. validate_snapshot (dget c ''recipient_groups'') = Inr ids \<and> dget c ''allowed_recipient_group_ids'' = JList (map JStr ids)))
    \<and> context_bound def r c"
proof -
  from assms obtain mode groups allowed where g: "routing_groups def (cr_groups q) = Inr (mode, groups, allowed)" "context_guards def r x q = Inr ()"
      "record_guards cb q = Inr ()" "c = composition_of def r x q (mode, groups, allowed)" "cb_input_ok cb (JDict (composition_to_dict c))"
      "cr_report q \<noteq> None \<longrightarrow> validate_artifact_contract c = Inr ()"
    unfolding build_composition_input_def by (auto simp: and_then_Inr check_Inr Let_def split: if_splits)
  have "record_ids_ok (cr_records q)" using g(3) by (simp add: record_guards_def and_then_Inr check_Inr)
  moreover have "dget c ''artifact_report'' = JNull \<or> validate_artifact_contract c = Inr ()"
    using g(6) by (cases "cr_report q") (simp_all add: g(4) composition_fields opt_dict_def)
  moreover have "context_bound def r c" using context_guards_facts [OF g(2)]
    by (cases "cr_context q"; cases "cr_history q") (auto simp: context_bound_def g(4) composition_fields opt_dict_def)
  moreover have "\<exists>ids. validate_snapshot (dget c ''recipient_groups'') = Inr ids \<and> dget c ''allowed_recipient_group_ids'' = JList (map JStr ids)"
    if "dget c ''recipient_routing_mode'' = JStr ''catalog_name''"
    using that routing_groups_snapshot [of def "cr_groups q" groups allowed] g(1) by (simp add: g(4) composition_fields)
  ultimately show ?thesis using context_guards_facts [OF g(2)] g(4,5) by (simp add: composition_fields)
qed

definition series_request :: composition_request where
  "series_request = \<lparr>cr_records = [[(''record_id'', JStr ''a'')]], cr_inline = [], cr_attachments = [], cr_revision = 1, cr_schema = JNull,
     cr_groups = [], cr_report = None, cr_context = Some series_context, cr_history = None\<rparr>"

definition series_research :: research where
  "series_research = \<lparr>rx_status = JStr ''success'', rx_summary = JStr [], rx_records = [], rx_coverage = [], rx_warnings = [], rx_raw = [], rx_artifacts = []\<rparr>"

definition open_composer :: composer where
  "open_composer = \<lparr>cb_record_ok = \<lambda>s v. True, cb_input_ok = \<lambda>v. True\<rparr>"

lemma sample_composition:
  "build_composition_input open_composer series_def series_run series_research series_request
     = Inr (composition_of series_def series_run series_research series_request (''legacy_ids'', JList [], JList [JStr ''g'']))"
proof -
  have "routing_groups series_def [] = Inr (''legacy_ids'', JList [], JList [JStr ''g''])" by code_simp
  moreover have "record_guards open_composer series_request = Inr ()" by code_simp
  moreover have "pyeq (JDict (without_origin series_context)) (JDict (without_origin series_context))" by code_simp
  then have "validate_reused_context (JDict series_context) series_def series_run = Inr series_context"
    by (simp add: validate_reused_context_def series_context_built)
  then have "context_guards series_def series_run series_research series_request = Inr ()"
    by (simp add: context_guards_def series_request_def series_research_def series_def_def series_run_def sample_run_def dget_def str_in_def)
  ultimately show ?thesis
    by (simp add: build_composition_input_def series_request_def open_composer_def)
qed

theorem composition_input_sound_witness:
  "\<exists>c. build_composition_input open_composer series_def series_run series_research series_request = Inr c
     \<and> dget c ''research_context'' \<noteq> JNull \<and> context_bound series_def series_run c"
  using composition_input_sound [OF sample_composition] sample_composition
  by (auto simp: composition_fields series_request_def opt_dict_def)

end
