(* ===== verification/Spec2Isabelle.thy ===== *)
theory Spec2Isabelle imports Timeline Run_Repo Task_Repo Queue_Safety Auth_Safety Scheduler Recipient_Routing Worker Dispatch Finalization Run_Service Delivery_History Composition begin

text \<open>
  Verification development of ResearchOps (package \<open>src/researchops\<close>): a controller that runs
  research tasks by external AI workers, composes a message from what they found and mails it exactly
  to the people who were approved for it.

  \<^bold>\<open>The program and its parts.\<close> An operator publishes sealed versions of a task. The scheduler queues
  due runs, an operator queues or retries them by hand. A worker claims one run of a task under a
  lease with a fencing token and a workspace lock, the orchestrator calls the runners in stages, the
  technical gate and the deduplication prepare the records, the message is composed and validated, and
  the end of the attempt publishes its archive, its delivery request and the state of the run under
  one fenced transaction. A dispatcher submits the queued mail to the SMTP server and stores what
  became of it. Everything is kept in one SQLite database, the workspaces and the archives.

  \<^bold>\<open>Conventions.\<close> The database is the record \<open>db\<close> of \<open>Store\<close> with one list of row
  records per table; a transaction is a function \<open>db \<Rightarrow> (result \<times> db) res\<close>, an error rolls
  back because the caller keeps the old state. An operation of several transactions returns its
  result beside the state it reached. Errors are the values of \<open>err\<close> (the classes of
  \<open>errors.py\<close> and the built-in exceptions the code catches); the text in them is a label. JSON
  and YAML values are \<open>json\<close>, dictionaries association lists in order, text and bytes strings
  (code points 0 to 255), instants microseconds since 1970 as \<open>int\<close>. Clock readings, random
  tokens and fresh identifiers are arguments. Parameters stand for what is outside the repository:
  SHA-256 and \<open>scrypt\<close>, the JSON schema validator, the address and HTML parsers, the MIME
  composer, the SMTP server, the runners, the model catalog, and what other processes commit between
  two transactions.

  \<^bold>\<open>Foundations.\<close> \<open>Prelude\<close>: errors, sequencing, the locales \<open>guarded_ops\<close> and
  \<open>monotone_ops\<close> of a component whose operations keep an invariant and only move its state
  upwards. \<open>Sql_Table\<close>: the SQL statements. \<open>Json_Value\<close>, \<open>Json_Text\<close>
  (\<open>strict_json.py\<close>, with the round trip of printing and strict decoding),
  \<open>Py_Datetime\<close>, \<open>Store\<close> (\<open>domain/\<close>, \<open>storage/schema.sql\<close>).

  \<^bold>\<open>Ownership and tasks.\<close> \<open>Catalog\<close> (\<open>services/ownership.py\<close>,
  \<open>services/catalog_service.py\<close>): identities, owners, soft deletion; every history keeps them.
  \<open>Task_Repo\<close>: versions, publication, approval; an approval needs the evidence of a dry run.
  \<open>Auth_Service\<close>, \<open>Auth_Safety\<close> (\<open>services/auth_service.py\<close>): accounts, sessions,
  login limits, which a successful login resets for its account; a session never outlives the
  credentials it was made with.

  \<^bold>\<open>Runs.\<close> \<open>Timeline\<close> (\<open>engine/run_timeline.py\<close>): step events and the bracketed log.
  \<open>Execution_Plan\<close>, \<open>Run_Repo\<close> (\<open>RunRepository\<close>): queueing, the state machine of a
  run, claims, leases and fenced writes; at most one owner of a task, and an audit log that only grows
  by the step events of the operations that succeeded. \<open>Cron\<close>,
  \<open>Scheduler\<close> (\<open>services/scheduler.py\<close>): the occurrence search equals its
  specification, and a tick decides one due minute of a task, if there is one: the latest, or under
  \<open>catch_up\<close> the earliest, so that missed minutes are queued in turn, with the exception that \<open>catch_up_passes_over\<close> shows. \<open>Workspace\<close>, \<open>Worker\<close>
  (\<open>workspace/manager.py\<close>, \<open>services/worker.py\<close>): recovery and execution of the queue.
  \<open>Run_Service\<close> (\<open>services/run_service.py\<close>): new runs, retries, compose-only runs,
  sending of a prepared message and cancellation; a retry queues exactly one child of an idle run,
  and a cancelled run has no mail left in the queue.

  \<^bold>\<open>From research to a message.\<close> \<open>Composition\<close> (\<open>engine/research_context.py\<close>,
  \<open>engine/technical_gate.py\<close>, \<open>engine/composition_input.py\<close>): the research window,
  the gate, which keeps every record and never invents complete coverage, and the composition input,
  which is bound to its run, records, recipients, context and history. \<open>Dedupe\<close>
  (\<open>engine/dedupe.py\<close>): alias groups are equivalences and only reported items are left out.
  \<open>Artifact_Integrity\<close> (\<open>delivery/artifact_integrity.py\<close>): the media of a composition
  are exactly the approved ones and a stored composition is accepted only with its evidence.
  \<open>Delivery_History\<close> (\<open>engine/delivery_history.py\<close>): what the program can prove about
  earlier messages of a series; entries are verified, a history that calls itself complete omits
  none, a ledger is never corrected against an acceptance, and the envelope keeps its byte limit.

  \<^bold>\<open>From a message to the mail server.\<close> \<open>Smtp_Config\<close>, \<open>Authorization\<close>
  (\<open>delivery/smtp_config.py\<close>, \<open>retry_guard.py\<close>, \<open>authorization.py\<close>,
  \<open>policy.py\<close>), \<open>Recipient_Routing\<close>: who may receive a mail and under which
  authorization. \<open>Run_Archive\<close> (\<open>engine/archive.py\<close>), \<open>Publication\<close>
  (\<open>delivery/handoff.py\<close>, \<open>package.py\<close>, \<open>system_alert.py\<close>),
  \<open>Finalization\<close> (\<open>_finalize_run\<close> of \<open>engine/orchestrator.py\<close>): the end of an
  attempt. \<open>Prepared_Delivery\<close> (\<open>services/prepared_delivery.py\<close>): a message is read
  again only from a failed, undelivered run of the same occurrence and with every file
  as the index of its archive gives it.
  \<open>Delivery_Repo\<close>, \<open>Smtp_Queue\<close> (\<open>delivery/queue.py\<close>): the stored evidence
  and the queue. \<open>Queue_Safety\<close>: the abstract queue \<open>queue_step\<close>, its invariant, and
  the refinement of every operation to it; an accepted mail is never sent again.
  \<open>Smtp_Transport\<close> (the locale \<open>submission\<close>: a caller whose callbacks record the stages
  of one exchange) and \<open>Dispatch\<close> (its interpretation \<open>mail\<close> on the dispatcher of
  \<open>delivery/smtp_dispatcher.py\<close>): bytes reach the server only with the stored permission, and
  what is stored about the outcome is true.

  \<^bold>\<open>Bounds and fuel.\<close> The climb through the parents of a run has as many rounds as there are
  runs, which is proved enough in \<open>Authorization\<close>; the walks of \<open>Prepared_Delivery\<close> and
  \<open>Composition\<close> have the 128 rounds of the code. The JSON scanner has one round per
  character. Trimming of the history and the search for sealed JSON blocks are total functions with a
  measure. The search for an occurrence is a total
  function over the days of its span, and the search for a free catalog number has a round for every
  entity and one more, which is proved enough.

  \<^bold>\<open>Not modelled.\<close> The web pages, the command line and the host tools (deployment, backups,
  configuration, migrations) read and print around the modelled operations. The runners, their
  sandboxes, streams and network fetches supervise third-party programs whose behaviour is not in the
  repository. The message validator, the image and download code and the loader of task directories
  work on HTML, media and YAML by libraries; their verdicts are parameters where the core uses them.
  The stages of the orchestrator before the end of the attempt call those programs. Descriptors, file
  modes and symbolic links of the disk are left out except where a lock or an archive rests on
  them. Character encodings beyond Latin-1 are not distinguished.
\<close>

end
